(* ===== verification/Go_Prelude.thy ===== *)
theory Go_Prelude
  imports Main "HOL-Library.List_Lexorder" "HOL-Library.Char_ord"
begin

text \<open>
  Shared vocabulary of the development: the parts of Go's standard library that the
  backend uses on strings (byte strings, so \<^typ>\<open>string\<close> with one \<^typ>\<open>char\<close> per byte),
  the shape of HTTP answers, the SQL statements of the code as functions on lists of rows,
  and the interface shared by the stateful components (\<open>guarded_machine\<close>).

  Strings are bytes, as in Go.  \<open>strings.TrimSpace\<close> is modelled on UTF-8: it strips the
  encodings of the runes with the property White-Space.  \<open>strings.ToLower\<close> and
  \<open>strings.EqualFold\<close> are modelled on ASCII letters, bytes outside ASCII being left alone.
\<close>

named_theorems go_string \<open>facts on Go's string functions\<close>
named_theorems sql_simps \<open>facts on the SQL combinators\<close>

section \<open>Bytes\<close>

definition byte :: "char \<Rightarrow> nat" where
  "byte c = of_char c"

lemma byte_less_256 [simp]: "byte c < 256"
  by (simp add: byte_def)

lemma byte_Char [simp]: "byte (Char a b c d e f g h) = of_char (Char a b c d e f g h)"
  by (simp add: byte_def)

lemma byte_inject [simp]: "byte c = byte d \<longleftrightarrow> c = d"
  by (simp add: byte_def)

lemma byte_char_of [simp]: "n < 256 \<Longrightarrow> byte (char_of n) = n"
  by (simp add: byte_def)

lemma char_of_byte [simp]: "char_of (byte c) = c"
  by (simp add: byte_def)

definition is_digit :: "char \<Rightarrow> bool" where
  "is_digit c \<longleftrightarrow> 48 \<le> byte c \<and> byte c \<le> 57"

definition is_hex :: "char \<Rightarrow> bool" where
  "is_hex c \<longleftrightarrow> is_digit c \<or> (97 \<le> byte c \<and> byte c \<le> 102) \<or> (65 \<le> byte c \<and> byte c \<le> 70)"

text \<open>Printable ASCII without the space: no white-space rune starts or ends with such a byte.\<close>

definition graphic :: "char \<Rightarrow> bool" where
  "graphic c \<longleftrightarrow> 33 \<le> byte c \<and> byte c \<le> 126"

text \<open>Control bytes, the test \<open>r < 0x20 || r == 0x7f\<close> of the validators.  Runes outside
  ASCII are at least 0x80, so the test over runes is the test over bytes.\<close>

definition is_control :: "char \<Rightarrow> bool" where
  "is_control c \<longleftrightarrow> byte c < 32 \<or> byte c = 127"

lemma digit_graphic: "is_digit c \<Longrightarrow> graphic c"
  by (simp add: is_digit_def graphic_def)

lemma graphic_not_control: "graphic c \<Longrightarrow> \<not> is_control c"
  by (auto simp: graphic_def is_control_def)

section \<open>Prefixes, substrings, case\<close>

definition has_prefix :: "string \<Rightarrow> string \<Rightarrow> bool" where
  "has_prefix p s \<longleftrightarrow> take (length p) s = p"

definition trim_prefix :: "string \<Rightarrow> string \<Rightarrow> string" where
  "trim_prefix p s = (if has_prefix p s then drop (length p) s else s)"

fun str_contains :: "string \<Rightarrow> string \<Rightarrow> bool" where
  "str_contains sub [] = (sub = [])"
| "str_contains sub (c # s) = (has_prefix sub (c # s) \<or> str_contains sub s)"

definition contains_any :: "string \<Rightarrow> string \<Rightarrow> bool" where
  "contains_any chars s \<longleftrightarrow> list_ex (\<lambda>c. c \<in> set chars) s"

definition to_lower_char :: "char \<Rightarrow> char" where
  "to_lower_char c = (if 65 \<le> byte c \<and> byte c \<le> 90 then char_of (byte c + 32) else c)"

definition to_lower :: "string \<Rightarrow> string" where
  "to_lower s = map to_lower_char s"

text \<open>\<open>strings.ToLower\<close> where only ASCII letters of the result matter: besides the ASCII letters, U+0130 and U+212A have an ASCII letter as
  lower case.\<close>

fun lower :: "string \<Rightarrow> string" where
  "lower [] = []"
| "lower (c # s) =
     (case (c, s) of
        (_, d # s') \<Rightarrow>
          if byte c = 0xC4 \<and> byte d = 0xB0 then CHR ''i'' # lower s'
          else if byte c = 0xE2 \<and> byte d = 0x84 \<and> s' \<noteq> [] \<and> byte (hd s') = 0xAA then CHR ''k'' # lower (tl s')
          else to_lower_char c # lower s
      | (_, []) \<Rightarrow> [to_lower_char c])"

definition equal_fold :: "string \<Rightarrow> string \<Rightarrow> bool" where
  "equal_fold a b \<longleftrightarrow> to_lower a = to_lower b"

lemma has_prefix_append [simp, go_string]: "has_prefix p (p @ s)"
  by (simp add: has_prefix_def)

lemma has_prefix_iff: "has_prefix p s \<longleftrightarrow> (\<exists>r. s = p @ r)"
  by (metis append_take_drop_id has_prefix_append has_prefix_def)

lemma trim_prefix_append [simp, go_string]: "trim_prefix p (p @ s) = s"
  by (simp add: trim_prefix_def)

lemma has_prefix_Nil [simp, go_string]: "has_prefix [] s"
  by (simp add: has_prefix_def)

lemma has_prefix_Cons [simp, go_string]:
  "has_prefix (a # p) s \<longleftrightarrow> (case s of [] \<Rightarrow> False | c # r \<Rightarrow> a = c \<and> has_prefix p r)"
  by (cases s) (auto simp: has_prefix_def)

lemma str_contains_iff: "str_contains sub s \<longleftrightarrow> (\<exists>a b. s = a @ sub @ b)"
proof (induction s)
  case Nil
  then show ?case by simp
next
  case (Cons c s)
  have "(\<exists>a b. c # s = a @ sub @ b) \<longleftrightarrow> (\<exists>b. c # s = sub @ b) \<or> (\<exists>a b. s = a @ sub @ b)"
    by (metis append_Cons append_Nil list.inject neq_Nil_conv)
  with Cons show ?case by (simp add: has_prefix_iff)
qed

lemma to_lower_Nil [simp, go_string]: "to_lower [] = []"
  by (simp add: to_lower_def)

lemma to_lower_append [simp, go_string]: "to_lower (a @ b) = to_lower a @ to_lower b"
  by (simp add: to_lower_def)

lemma length_to_lower [simp, go_string]: "length (to_lower s) = length s"
  by (simp add: to_lower_def)

lemma to_lower_eq_Nil [simp, go_string]: "to_lower s = [] \<longleftrightarrow> s = []"
  by (simp add: to_lower_def)

lemma to_lower_char_idem [simp, go_string]: "to_lower_char (to_lower_char c) = to_lower_char c"
  by (auto simp: to_lower_char_def)

lemma to_lower_idem [simp, go_string]: "to_lower (to_lower s) = to_lower s"
  by (simp add: to_lower_def)

section \<open>White space\<close>

text \<open>The UTF-8 encodings of the runes \<open>unicode.IsSpace\<close> accepts.\<close>

definition space_runes :: "string list" where
  "space_runes =
     [[CHR 0x09], [CHR 0x0A], [CHR 0x0B], [CHR 0x0C], [CHR 0x0D], [CHR 0x20],
      [CHR 0xC2, CHR 0x85], [CHR 0xC2, CHR 0xA0], [CHR 0xE1, CHR 0x9A, CHR 0x80],
      [CHR 0xE2, CHR 0x80, CHR 0x80], [CHR 0xE2, CHR 0x80, CHR 0x81],
      [CHR 0xE2, CHR 0x80, CHR 0x82], [CHR 0xE2, CHR 0x80, CHR 0x83],
      [CHR 0xE2, CHR 0x80, CHR 0x84], [CHR 0xE2, CHR 0x80, CHR 0x85],
      [CHR 0xE2, CHR 0x80, CHR 0x86], [CHR 0xE2, CHR 0x80, CHR 0x87],
      [CHR 0xE2, CHR 0x80, CHR 0x88], [CHR 0xE2, CHR 0x80, CHR 0x89],
      [CHR 0xE2, CHR 0x80, CHR 0x8A], [CHR 0xE2, CHR 0x80, CHR 0xA8],
      [CHR 0xE2, CHR 0x80, CHR 0xA9], [CHR 0xE2, CHR 0x80, CHR 0xAF],
      [CHR 0xE2, CHR 0x81, CHR 0x9F], [CHR 0xE3, CHR 0x80, CHR 0x80]]"

function trim_with :: "string list \<Rightarrow> string \<Rightarrow> string" where
  "trim_with rs s =
     (case find (\<lambda>r. r \<noteq> [] \<and> has_prefix r s) rs of
        None \<Rightarrow> s
      | Some r \<Rightarrow> trim_with rs (drop (length r) s))"
  by pat_completeness auto
termination
  by (relation "measure (\<lambda>(rs, s). length s)")
    (auto simp: find_Some_iff has_prefix_iff)

declare trim_with.simps [simp del]

definition trim_space :: "string \<Rightarrow> string" where
  "trim_space s = rev (trim_with (map rev space_runes) (rev (trim_with space_runes s)))"

lemma trim_with_head:
  assumes "\<forall>r \<in> set rs. r = [] \<or> hd r \<noteq> c"
  shows "trim_with rs (c # s) = c # s"
proof -
  have "find (\<lambda>r. r \<noteq> [] \<and> has_prefix r (c # s)) rs = None"
    using assms by (auto simp: find_None_iff has_prefix_iff Cons_eq_append_conv)
  then show ?thesis by (subst trim_with.simps) simp
qed

lemma trim_with_Nil [simp]: "trim_with rs [] = []"
  by (subst trim_with.simps) (auto simp: has_prefix_def split: option.splits simp: find_Some_iff)

lemma graphic_space_free:
  assumes "graphic c"
  shows "\<forall>r \<in> set space_runes. r = [] \<or> hd r \<noteq> c"
    and "\<forall>r \<in> set (map rev space_runes). r = [] \<or> hd r \<noteq> c"
  using assms by (auto simp: space_runes_def graphic_def byte_def)

lemma trim_space_Nil [simp, go_string]: "trim_space [] = []"
  by (simp add: trim_space_def)

text \<open>A string that starts and ends with a printable byte is not changed.\<close>

lemma trim_space_graphic [go_string]:
  assumes "s \<noteq> []" "graphic (hd s)" "graphic (last s)"
  shows "trim_space s = s"
proof -
  obtain c t where s: "s = c # t" using assms(1) by (cases s) auto
  have l: "trim_with space_runes s = s"
    using trim_with_head [OF graphic_space_free(1)] assms(2) s by simp
  obtain d u where r: "rev s = d # u" using assms(1) by (cases "rev s") auto
  have d: "graphic d" using r assms(3) by (metis hd_rev list.sel(1))
  have "trim_with (map rev space_runes) (rev s) = rev s"
    using trim_with_head [OF graphic_space_free(2) [OF d]] r by simp
  with l show ?thesis by (simp add: trim_space_def)
qed

lemma trim_with_done: "find (\<lambda>r. r \<noteq> [] \<and> has_prefix r (trim_with rs s)) rs = None"
proof (induction rs s rule: trim_with.induct)
  case (1 rs s)
  show ?case
  proof (cases "find (\<lambda>r. r \<noteq> [] \<and> has_prefix r s) rs")
    case None
    then have "trim_with rs s = s" by (subst trim_with.simps) simp
    with None show ?thesis by simp
  next
    case (Some r)
    then have "trim_with rs s = trim_with rs (drop (length r) s)" by (subst trim_with.simps) simp
    with 1 [OF Some] show ?thesis by simp
  qed
qed

lemma trim_with_stop: "(\<And>r. r \<in> set rs \<Longrightarrow> r \<noteq> [] \<Longrightarrow> \<not> has_prefix r s) \<Longrightarrow> trim_with rs s = s"
proof -
  assume "\<And>r. r \<in> set rs \<Longrightarrow> r \<noteq> [] \<Longrightarrow> \<not> has_prefix r s"
  then have "find (\<lambda>r. r \<noteq> [] \<and> has_prefix r s) rs = None" by (auto simp: find_None_iff)
  then show ?thesis by (subst trim_with.simps) simp
qed

lemma trim_with_suffix: "\<exists>p. s = p @ trim_with rs s"
proof (induction rs s rule: trim_with.induct)
  case (1 rs s)
  show ?case
  proof (cases "find (\<lambda>r. r \<noteq> [] \<and> has_prefix r s) rs")
    case None
    then have "trim_with rs s = s" by (subst trim_with.simps) simp
    then show ?thesis by simp
  next
    case (Some r)
    then have "trim_with rs s = trim_with rs (drop (length r) s)" by (subst trim_with.simps) simp
    with 1 [OF Some] show ?thesis by (metis append_assoc append_take_drop_id)
  qed
qed

text \<open>Trimming the end cannot uncover white space at the start.\<close>

lemma trim_space_idem: "trim_space (trim_space s) = trim_space s"
proof -
  define l where "l = trim_with space_runes s"
  define t where "t = trim_with (map rev space_runes) (rev l)"
  have t: "trim_space s = rev t" by (simp add: trim_space_def t_def l_def)
  obtain p where "rev l = p @ t" using trim_with_suffix t_def by blast
  then have l: "l = rev t @ rev p" by (metis rev_append rev_rev_ident)
  have "trim_with space_runes (rev t) = rev t"
  proof (rule trim_with_stop)
    fix r
    assume "r \<in> set space_runes" "r \<noteq> []"
    with trim_with_done [of space_runes s] have "\<not> has_prefix r l" by (auto simp: find_None_iff l_def)
    with l show "\<not> has_prefix r (rev t)" by (auto simp: has_prefix_iff)
  qed
  moreover have "trim_with (map rev space_runes) t = t"
    by (rule trim_with_stop) (use trim_with_done [of "map rev space_runes" "rev l"] in \<open>auto simp: find_None_iff t_def\<close>)
  ultimately show ?thesis by (simp add: trim_space_def [of "rev t"] t)
qed

section \<open>Numbers\<close>

definition digit_char :: "nat \<Rightarrow> char" where
  "digit_char d = char_of (48 + d)"

definition digit_val :: "char \<Rightarrow> nat" where
  "digit_val c = byte c - 48"

fun show_nat :: "nat \<Rightarrow> string" where
  "show_nat n = (if n < 10 then [digit_char n] else show_nat (n div 10) @ [digit_char (n mod 10)])"

declare show_nat.simps [simp del]

definition show_int :: "int \<Rightarrow> string" where
  "show_int i = (if i < 0 then CHR ''-'' # show_nat (nat (- i)) else show_nat (nat i))"

definition digits_val :: "string \<Rightarrow> nat" where
  "digits_val s = foldl (\<lambda>n c. n * 10 + digit_val c) 0 s"

lemma digit_char_digit [simp]: "d < 10 \<Longrightarrow> is_digit (digit_char d)"
  by (simp add: is_digit_def digit_char_def)

lemma digit_val_char [simp]: "d < 10 \<Longrightarrow> digit_val (digit_char d) = d"
  by (simp add: digit_val_def digit_char_def)

lemma show_nat_digits: "\<forall>c \<in> set (show_nat n). is_digit c"
proof (induction n rule: show_nat.induct)
  case (1 n)
  then show ?case by (subst show_nat.simps) auto
qed

lemma show_nat_nonempty [simp]: "show_nat n \<noteq> []"
  by (subst show_nat.simps) simp

lemma digits_val_show_nat [simp]: "digits_val (show_nat n) = n"
proof (induction n rule: show_nat.induct)
  case (1 n)
  then show ?case
    by (subst show_nat.simps) (auto simp: digits_val_def)
qed

lemma show_nat_inject [simp]: "show_nat m = show_nat n \<longleftrightarrow> m = n"
  by (metis digits_val_show_nat)

text \<open>\<open>strconv.ParseInt(s, 10, 64)\<close>, which \<open>strconv.Atoi\<close> is on a 64-bit machine: an
  optional sign, at least one digit, nothing else, and a value that fits.\<close>

definition parse_int64 :: "string \<Rightarrow> int option" where
  "parse_int64 s =
     (let neg = has_prefix ''-'' s;
          ds = (if neg \<or> has_prefix ''+'' s then drop 1 s else s)
      in if ds = [] \<or> \<not> list_all is_digit ds then None
         else let v = (if neg then - int (digits_val ds) else int (digits_val ds))
              in if - (2 ^ 63) \<le> v \<and> v < 2 ^ 63 then Some v else None)"

lemma parse_int64_bounds: "parse_int64 s = Some v \<Longrightarrow> - (2 ^ 63) \<le> v \<and> v < 2 ^ 63"
  by (auto simp: parse_int64_def Let_def split: if_splits)

lemma show_nat_head: "is_digit (hd (show_nat n))"
  using show_nat_digits show_nat_nonempty by (metis hd_in_set)

lemma parse_int64_show_nat:
  assumes "n < 2 ^ 63"
  shows "parse_int64 (show_nat n) = Some (int n)"
proof -
  obtain c r where cr: "show_nat n = c # r" using show_nat_nonempty by (cases "show_nat n") auto
  have c: "is_digit c" using show_nat_head [of n] cr by simp
  then have "c \<noteq> CHR ''-''" "c \<noteq> CHR ''+''" by (auto simp: is_digit_def byte_def)
  then have p: "\<not> has_prefix ''-'' (show_nat n)" "\<not> has_prefix ''+'' (show_nat n)"
    using cr by auto
  have "list_all is_digit (show_nat n)" using show_nat_digits by (simp add: list_all_iff)
  with p assms show ?thesis by (simp add: parse_int64_def Let_def)
qed

section \<open>Splitting\<close>

fun split_on :: "char \<Rightarrow> string \<Rightarrow> string list" where
  "split_on sep [] = [[]]"
| "split_on sep (c # s) =
     (if c = sep then [] # split_on sep s
      else case split_on sep s of [] \<Rightarrow> [[c]] | f # fs \<Rightarrow> (c # f) # fs)"

lemma split_on_nonempty [simp]: "split_on sep s \<noteq> []"
  by (induction s) (auto split: list.splits)

lemma split_on_plain: "sep \<notin> set s \<Longrightarrow> split_on sep s = [s]"
  by (induction s) auto

lemma split_on_append [go_string]:
  "sep \<notin> set a \<Longrightarrow> split_on sep (a @ sep # b) = a # split_on sep b"
  by (induction a) auto

section \<open>Answers of HTTP handlers\<close>

text \<open>\<open>httputil.RespondJSON\<close>, \<open>RespondError\<close> and \<open>RespondValidationErrors\<close>: the status and
  the payload of the JSON envelope.\<close>

datatype 'b response =
    RespondJSON nat 'b
  | RespondError nat string
  | RespondValidationErrors "(string \<times> string) list"

fun status_of :: "'b response \<Rightarrow> nat" where
  "status_of (RespondJSON s _) = s"
| "status_of (RespondError s _) = s"
| "status_of (RespondValidationErrors _) = 400"

fun success :: "'b response \<Rightarrow> bool" where
  "success (RespondJSON s _) = (s < 400)"
| "success (RespondError _ _) = False"
| "success (RespondValidationErrors _) = False"

section \<open>SQL statements on lists of rows\<close>

text \<open>A table is the list of its rows in the order the database returns them.  A query that
  can fail returns \<open>Ok\<close>, \<open>No_rows\<close> (\<open>pgx.ErrNoRows\<close>) or \<open>Db_error\<close>.\<close>

datatype 'a query = Ok 'a | No_rows | Db_error string

definition select_where :: "('r \<Rightarrow> bool) \<Rightarrow> 'r list \<Rightarrow> 'r list" where
  "select_where P rows = filter P rows"

definition select_one :: "string option \<Rightarrow> ('r \<Rightarrow> bool) \<Rightarrow> 'r list \<Rightarrow> 'r query" where
  "select_one err P rows =
     (case err of
        Some e \<Rightarrow> Db_error e
      | None \<Rightarrow> (case filter P rows of [] \<Rightarrow> No_rows | r # _ \<Rightarrow> Ok r))"

definition update_where :: "('r \<Rightarrow> bool) \<Rightarrow> ('r \<Rightarrow> 'r) \<Rightarrow> 'r list \<Rightarrow> 'r list" where
  "update_where P f rows = map (\<lambda>r. if P r then f r else r) rows"

definition delete_where :: "('r \<Rightarrow> bool) \<Rightarrow> 'r list \<Rightarrow> 'r list" where
  "delete_where P rows = filter (\<lambda>r. \<not> P r) rows"

definition rows_affected :: "('r \<Rightarrow> bool) \<Rightarrow> 'r list \<Rightarrow> nat" where
  "rows_affected P rows = length (filter P rows)"

lemma select_one_Ok_D:
  "select_one err P rows = Ok r \<Longrightarrow> err = None \<and> r \<in> set rows \<and> P r"
  by (auto simp: select_one_def filter_eq_Cons_iff split: option.splits list.splits)

lemma select_one_No_rows_iff [sql_simps]:
  "select_one err P rows = No_rows \<longleftrightarrow> err = None \<and> (\<forall>r \<in> set rows. \<not> P r)"
  by (cases err) (auto simp: select_one_def filter_empty_conv split: list.splits dest!: filter_eq_ConsD)

lemma select_one_error_iff [sql_simps]:
  "select_one err P rows = Db_error e \<longleftrightarrow> err = Some e"
  by (auto simp: select_one_def split: option.splits list.splits)

lemma rows_affected_0_iff [sql_simps]: "rows_affected P rows = 0 \<longleftrightarrow> (\<forall>r \<in> set rows. \<not> P r)"
  by (simp add: rows_affected_def filter_empty_conv)

lemma update_where_none: "rows_affected P rows = 0 \<Longrightarrow> update_where P f rows = rows"
  by (auto simp: update_where_def sql_simps intro: map_idI)

lemma length_update_where [simp, sql_simps]: "length (update_where P f rows) = length rows"
  by (simp add: update_where_def)

lemma in_update_where [sql_simps]:
  "r \<in> set (update_where P f rows) \<longleftrightarrow> (\<exists>q \<in> set rows. r = (if P q then f q else q))"
  by (auto simp: update_where_def)

lemma map_update_where [sql_simps]:
  "(\<And>r. g (f r) = g r) \<Longrightarrow> map g (update_where P f rows) = map g rows"
  by (simp add: update_where_def)

section \<open>The interface of a stateful component\<close>

text \<open>A component is a step function with a guard that says which operations the callers may
  issue, and an invariant that every legal step keeps.  A run of legal steps keeps it.\<close>

primrec legal_run :: "('op \<Rightarrow> 's \<Rightarrow> 's) \<Rightarrow> ('op \<Rightarrow> 's \<Rightarrow> bool) \<Rightarrow> 'op list \<Rightarrow> 's \<Rightarrow> bool" where
  "legal_run step legal [] s = True"
| "legal_run step legal (op # ops) s = (legal op s \<and> legal_run step legal ops (step op s))"

locale guarded_machine =
  fixes step :: "'op \<Rightarrow> 's \<Rightarrow> 's"
    and legal :: "'op \<Rightarrow> 's \<Rightarrow> bool"
    and inv :: "'s \<Rightarrow> bool"
  assumes step_inv: "inv s \<Longrightarrow> legal op s \<Longrightarrow> inv (step op s)"
begin

lemma run_inv: "inv s \<Longrightarrow> legal_run step legal ops s \<Longrightarrow> inv (fold step ops s)"
  by (induction ops arbitrary: s) (auto intro: step_inv)

lemma run_inv_every:
  "inv s \<Longrightarrow> legal_run step legal (ops @ rest) s \<Longrightarrow> inv (fold step ops s)"
  by (induction ops arbitrary: s) (auto intro: step_inv)

end

text \<open>The same for a step relation: an invariant of the steps holds wherever they lead.\<close>

locale step_machine =
  fixes move :: "'s \<Rightarrow> 's \<Rightarrow> bool"
    and inv :: "'s \<Rightarrow> bool"
  assumes move_inv: "move s s' \<Longrightarrow> inv s \<Longrightarrow> inv s'"
begin

lemma moves_inv: "move\<^sup>*\<^sup>* s s' \<Longrightarrow> inv s \<Longrightarrow> inv s'"
  by (induction rule: rtranclp_induct) (auto intro: move_inv)

end

text \<open>Refinement by a function: every operation of the code is a step of the specification, seen through the
  abstraction and labelled with what the operation answered, and so every run is a run of the
  specification under the labels of its operations.\<close>

primrec labelled_path :: "('a \<Rightarrow> 'l \<Rightarrow> 'a \<Rightarrow> bool) \<Rightarrow> 'a \<Rightarrow> 'l list \<Rightarrow> 'a \<Rightarrow> bool" where
  "labelled_path spec a [] b = (a = b)"
| "labelled_path spec a (l # ls) b = (\<exists>c. spec a l c \<and> labelled_path spec c ls b)"

primrec labels_of :: "('op \<Rightarrow> 's \<Rightarrow> 'l) \<Rightarrow> ('op \<Rightarrow> 's \<Rightarrow> 's) \<Rightarrow> 'op list \<Rightarrow> 's \<Rightarrow> 'l list" where
  "labels_of label step [] s = []"
| "labels_of label step (op # ops) s = label op s # labels_of label step ops (step op s)"

lemma labelled_path_moves: "labelled_path spec a ls b \<Longrightarrow> (\<lambda>x y. \<exists>l. spec x l y)\<^sup>*\<^sup>* a b"
proof (induction ls arbitrary: a)
  case (Cons l ls)
  then obtain c where "spec a l c" "(\<lambda>x y. \<exists>l. spec x l y)\<^sup>*\<^sup>* c b" by auto
  then show ?case by (intro converse_rtranclp_into_rtranclp [of "\<lambda>x y. \<exists>l. spec x l y" a c b]) auto
qed simp

locale simulation =
  fixes step :: "'op \<Rightarrow> 's \<Rightarrow> 's"
    and label :: "'op \<Rightarrow> 's \<Rightarrow> 'l"
    and spec :: "'a \<Rightarrow> 'l \<Rightarrow> 'a \<Rightarrow> bool"
    and abs :: "'s \<Rightarrow> 'a"
    and inv :: "'s \<Rightarrow> bool"
  assumes sim: "inv s \<Longrightarrow> spec (abs s) (label op s) (abs (step op s))"
    and keep: "inv s \<Longrightarrow> inv (step op s)"
begin

lemma run_keeps: "inv s \<Longrightarrow> inv (fold step ops s)"
  by (induction ops arbitrary: s) (auto intro: keep)

lemma run_refines: "inv s \<Longrightarrow> labelled_path spec (abs s) (labels_of label step ops s) (abs (fold step ops s))"
  by (induction ops arbitrary: s) (auto intro: keep sim)

end

end
