(* ===== verification/Go_Time.thy ===== *)
theory Go_Time
  imports Go_Prelude
begin

text \<open>
  Go's \<open>time.Time\<close> as the nanoseconds since the Unix epoch (an \<^typ>\<open>int\<close>, the clock in UTC) and
  \<open>time.Duration\<close> as nanoseconds; the civil calendar behind \<open>Format(time.RFC3339)\<close>.
\<close>

type_synonym time = int
type_synonym duration = int

definition second :: duration where "second = 10 ^ 9"
definition minute :: duration where "minute = 60 * second"
definition hour :: duration where "hour = 60 * minute"

definition unix_seconds :: "time \<Rightarrow> int" where
  "unix_seconds t = t div second"

text \<open>Postgres keeps timestamps in microseconds; the driver truncates.\<close>

definition pg_timestamp :: "time \<Rightarrow> time" where
  "pg_timestamp t = t div 1000 * 1000"

definition minute_of_day :: "time \<Rightarrow> int" where
  "minute_of_day t = (unix_seconds t div 60) mod 1440"

definition civil_of_days :: "int \<Rightarrow> int \<times> int \<times> int" where
  "civil_of_days z =
     (let z = z + 719468;
          era = z div 146097;
          doe = z - era * 146097;
          yoe = (doe - doe div 1460 + doe div 36524 - doe div 146096) div 365;
          doy = doe - (365 * yoe + yoe div 4 - yoe div 100);
          mp = (5 * doy + 2) div 153;
          d = doy - (153 * mp + 2) div 5 + 1;
          m = (if mp < 10 then mp + 3 else mp - 9)
      in (yoe + era * 400 + (if m \<le> 2 then 1 else 0), m, d))"

definition pad_left :: "nat \<Rightarrow> string \<Rightarrow> string" where
  "pad_left w s = replicate (w - length s) (CHR ''0'') @ s"

definition two_digits :: "int \<Rightarrow> string" where
  "two_digits i = pad_left 2 (show_nat (nat i))"

definition rfc3339 :: "time \<Rightarrow> string" where
  "rfc3339 t =
     (let s = unix_seconds t; (y, m, d) = civil_of_days (s div 86400); r = s mod 86400
      in pad_left 4 (show_int y) @ ''-'' @ two_digits m @ ''-'' @ two_digits d @ ''T''
         @ two_digits (r div 3600) @ '':'' @ two_digits (r div 60 mod 60) @ '':''
         @ two_digits (r mod 60) @ ''Z'')"

lemma rfc3339_example: "rfc3339 (1700000000 * second) = ''2023-11-14T22:13:20Z''"
  by code_simp

lemma pg_timestamp_mono: "s \<le> t \<Longrightarrow> pg_timestamp s \<le> pg_timestamp t"
  by (simp add: pg_timestamp_def zdiv_mono1)

lemma pg_timestamp_le: "pg_timestamp t \<le> t"
  by (simp add: pg_timestamp_def minus_mod_eq_div_mult [symmetric])

lemma minute_of_day_bounds: "0 \<le> minute_of_day t \<and> minute_of_day t < 1440"
  by (simp add: minute_of_day_def)

end
