(* ===== verification/Audit_Chain.thy ===== *)
theory Audit_Chain
  imports Go_Crypto Go_Time
begin

text \<open>
  The tamper-evident audit log: \<open>internal/audit/chain.go\<close> (\<open>WriteEntry\<close>, \<open>chainHead\<close>,
  \<open>computeHash\<close>, \<open>VerifyChain\<close>, \<open>chainAnchor\<close>), \<open>internal/audit/retention.go\<close> (\<open>Prune\<close>, the ticker
  of \<open>Start\<close>) and the wrappers of \<open>internal/handlers/audit_write.go\<close>.

  The state is the table \<open>audit_logs\<close>, the single row of \<open>audit_chain_anchors\<close> and the sequence
  behind the \<open>BIGSERIAL\<close> column \<open>seq\<close>.  Postgres' rendering of a \<open>jsonb\<close> value,
  \<open>details::text\<close>, is the parameter \<open>jt\<close> of the definitions; nothing is assumed about it.
  Every database call can fail: an environment record holds the error of each call.
\<close>

section \<open>State\<close>

record audit_row =
  al_seq :: int
  al_org :: string
  al_actor :: string
  al_action :: string
  al_target_type :: "string option"
  al_target_id :: "string option"
  al_details :: "string option"
  al_row_hash :: "string option"
  al_prev_hash :: string
  al_created :: time

record chain_anchor =
  an_first_seq :: int
  an_prev_hash :: string
  an_pruned_before :: time

record audit_db =
  logs :: "audit_row list"
  anchor :: "chain_anchor option"
  next_seq :: int

definition empty_audit_db :: audit_db where
  "empty_audit_db = \<lparr>logs = [], anchor = None, next_seq = 1\<rparr>"

datatype audit_error =
    Org_id_required
  | Db_not_configured
  | Begin_failed string
  | Lock_failed string
  | Read_head_failed string
  | Canonicalise_failed string
  | Insert_failed string
  | Commit_failed string
  | Read_anchor_failed string
  | Delete_failed string
  | Write_anchor_failed string
  | Clear_anchor_failed string
  | Prune_entry_failed audit_error

text \<open>What the database answers to each call of one write; \<open>tx_now\<close> is \<open>NOW()\<close>, the start of the
  enclosing transaction, which the column default puts in \<open>created_at\<close>.\<close>

record write_env =
  we_begin :: "string option"
  we_lock :: "string option"
  we_head :: "string option"
  we_canonicalise :: "string option"
  we_insert :: "string option"
  we_commit :: "string option"
  tx_now :: time

definition DefaultOrgID :: string where
  "DefaultOrgID = ''00000000-0000-0000-0000-000000000001''"

section \<open>computeHash\<close>

definition hash_field :: "string \<Rightarrow> string" where
  "hash_field s = show_nat (length s) @ '':'' @ s @ ''|''"

definition hash_preimage :: "string list \<Rightarrow> string" where
  "hash_preimage fs = concat (map hash_field fs)"

definition computeHash :: "string \<Rightarrow> string \<Rightarrow> string \<Rightarrow> string \<Rightarrow> string \<Rightarrow> string \<Rightarrow> string" where
  "computeHash actorID act targetType targetID detailsJSON prevHash =
     hex_sha256 (hash_preimage [actorID, act, targetType, targetID, detailsJSON, prevHash])"

section \<open>WriteEntry\<close>

definition order_by_seq :: "audit_row list \<Rightarrow> audit_row list" where
  "order_by_seq rows = sort_key al_seq rows"

definition chainHead :: "string option \<Rightarrow> audit_db \<Rightarrow> string + string" where
  "chainHead err db =
     (case err of
        Some e \<Rightarrow> Inl e
      | None \<Rightarrow>
          (case rev (order_by_seq (logs db)) of
             [] \<Rightarrow> Inr []
           | r # _ \<Rightarrow> (case al_row_hash r of None \<Rightarrow> Inr [] | Some h \<Rightarrow> Inr h)))"

definition details_bytes :: "jval option \<Rightarrow> string" where
  "details_bytes d = (case d of None \<Rightarrow> ''{}'' | Some v \<Rightarrow> json_marshal v)"

text \<open>The value of a sequence is not given back by a rollback.\<close>

definition WriteEntry ::
  "(string \<Rightarrow> string) \<Rightarrow> write_env \<Rightarrow> string \<Rightarrow> string \<Rightarrow> string \<Rightarrow> string \<Rightarrow> string \<Rightarrow> jval option
   \<Rightarrow> audit_db \<Rightarrow> (audit_error + unit) \<times> audit_db" where
  "WriteEntry jt env orgID actorID act targetType targetID details db =
     (if orgID = [] then (Inl Org_id_required, db) else
      let detailsBytes = details_bytes details in
      case we_begin env of Some e \<Rightarrow> (Inl (Begin_failed e), db) | None \<Rightarrow>
      (case we_lock env of Some e \<Rightarrow> (Inl (Lock_failed e), db) | None \<Rightarrow>
      (case chainHead (we_head env) db of Inl e \<Rightarrow> (Inl (Read_head_failed e), db) | Inr prevHash \<Rightarrow>
      (case we_canonicalise env of Some e \<Rightarrow> (Inl (Canonicalise_failed e), db) | None \<Rightarrow>
       let detailsText = jt detailsBytes;
           rowHash = computeHash actorID act targetType targetID detailsText prevHash;
           row = \<lparr>al_seq = next_seq db, al_org = orgID, al_actor = actorID, al_action = act,
                  al_target_type = Some targetType, al_target_id = Some targetID,
                  al_details = Some detailsBytes, al_row_hash = Some rowHash,
                  al_prev_hash = prevHash, al_created = pg_timestamp (tx_now env)\<rparr>;
           bumped = db\<lparr>next_seq := next_seq db + 1\<rparr>
       in case we_insert env of Some e \<Rightarrow> (Inl (Insert_failed e), bumped) | None \<Rightarrow>
         (case we_commit env of Some e \<Rightarrow> (Inl (Commit_failed e), bumped) | None \<Rightarrow>
            (Inr (), bumped\<lparr>logs := logs db @ [row]\<rparr>))))))"

section \<open>VerifyChain\<close>

datatype break_reason =
    No_break
  | Anchor_mismatch int
  | Missing_row_hash
  | Prev_hash_mismatch string string
  | Row_hash_mismatch string string

record verify_result =
  vr_ok :: bool
  vr_rows_checked :: nat
  vr_first_break_seq :: int
  vr_error :: break_reason

record verify_env =
  ve_anchor :: "string option"
  ve_query :: "string option"
  ve_scan :: "nat \<Rightarrow> string option"
  ve_rows_err :: "string option"

definition coalesce :: "string \<Rightarrow> string option \<Rightarrow> string" where
  "coalesce d v = (case v of None \<Rightarrow> d | Some s \<Rightarrow> s)"

definition details_text :: "(string \<Rightarrow> string) \<Rightarrow> audit_row \<Rightarrow> string" where
  "details_text jt r = (case al_details r of None \<Rightarrow> ''{}'' | Some b \<Rightarrow> jt b)"

definition row_fields :: "(string \<Rightarrow> string) \<Rightarrow> audit_row \<Rightarrow> string list" where
  "row_fields jt r =
     [al_actor r, al_action r, coalesce [] (al_target_type r), coalesce [] (al_target_id r),
      details_text jt r, al_prev_hash r]"

definition expected_hash :: "(string \<Rightarrow> string) \<Rightarrow> audit_row \<Rightarrow> string" where
  "expected_hash jt r =
     computeHash (al_actor r) (al_action r) (coalesce [] (al_target_type r))
       (coalesce [] (al_target_id r)) (details_text jt r) (al_prev_hash r)"

definition chainAnchor :: "string option \<Rightarrow> audit_db \<Rightarrow> string + (int \<times> string)" where
  "chainAnchor err db =
     (case err of
        Some e \<Rightarrow> Inl e
      | None \<Rightarrow> (case anchor db of
                   None \<Rightarrow> Inr (0, [])
                 | Some a \<Rightarrow> Inr (an_first_seq a, an_prev_hash a)))"

definition broken :: "nat \<Rightarrow> int \<Rightarrow> break_reason \<Rightarrow> verify_result" where
  "broken n s why = \<lparr>vr_ok = False, vr_rows_checked = n, vr_first_break_seq = s, vr_error = why\<rparr>"

definition partial_result :: "nat \<Rightarrow> verify_result" where
  "partial_result n = \<lparr>vr_ok = False, vr_rows_checked = n, vr_first_break_seq = 0, vr_error = No_break\<rparr>"

definition intact_result :: "nat \<Rightarrow> verify_result" where
  "intact_result n = (partial_result n)\<lparr>vr_ok := True\<rparr>"

text \<open>The loop over the rows: \<open>n\<close> is \<open>RowsChecked\<close> before the row, \<open>prevHash\<close> the hash of the row
  before it.\<close>

fun verify_rows ::
  "(string \<Rightarrow> string) \<Rightarrow> verify_env \<Rightarrow> int \<Rightarrow> string \<Rightarrow> nat \<Rightarrow> string \<Rightarrow> audit_row list
   \<Rightarrow> verify_result \<times> string option" where
  "verify_rows jt env anchorSeq anchorPrev n prevHash [] =
     (case ve_rows_err env of
        Some e \<Rightarrow> (partial_result n, Some e)
      | None \<Rightarrow> (intact_result n, None))"
| "verify_rows jt env anchorSeq anchorPrev n prevHash (e # rows) =
     (case ve_scan env n of Some err \<Rightarrow> (partial_result n, Some err) | None \<Rightarrow>
      let n' = n + 1; first = (n' = 1 \<and> anchorSeq > 0) in
      if first \<and> al_seq e \<noteq> anchorSeq then (broken n' (al_seq e) (Anchor_mismatch anchorSeq), None)
      else let prevHash = (if first then anchorPrev else prevHash);
               rowHash = coalesce [] (al_row_hash e) in
      if rowHash = [] then (broken n' (al_seq e) Missing_row_hash, None)
      else if al_prev_hash e \<noteq> prevHash
        then (broken n' (al_seq e) (Prev_hash_mismatch prevHash (al_prev_hash e)), None)
      else if rowHash \<noteq> expected_hash jt e
        then (broken n' (al_seq e) (Row_hash_mismatch (expected_hash jt e) rowHash), None)
      else verify_rows jt env anchorSeq anchorPrev n' rowHash rows)"

definition VerifyChain ::
  "(string \<Rightarrow> string) \<Rightarrow> verify_env \<Rightarrow> audit_db \<Rightarrow> verify_result \<times> string option" where
  "VerifyChain jt env db =
     (case chainAnchor (ve_anchor env) db of
        Inl e \<Rightarrow> (partial_result 0, Some e)
      | Inr (anchorSeq, anchorPrevHash) \<Rightarrow>
          (case ve_query env of
             Some e \<Rightarrow> (partial_result 0, Some e)
           | None \<Rightarrow> verify_rows jt env anchorSeq anchorPrevHash 0 [] (order_by_seq (logs db))))"

section \<open>Prune\<close>

record prune_env =
  pe_clock :: time
  pe_begin :: "string option"
  pe_lock :: "string option"
  pe_anchor :: "string option"
  pe_delete :: "string option"
  pe_write_anchor :: "string option"
  pe_write :: write_env
  pe_commit :: "string option"

text \<open>A rollback restores the tables; the sequence keeps the values it has handed out.\<close>

definition rollback_to :: "audit_db \<Rightarrow> audit_db \<Rightarrow> audit_db" where
  "rollback_to old new = old\<lparr>next_seq := next_seq new\<rparr>"

definition prune_entry :: "(string \<Rightarrow> string) \<Rightarrow> prune_env \<Rightarrow> nat \<Rightarrow> time \<Rightarrow> audit_db
   \<Rightarrow> (audit_error + unit) \<times> audit_db" where
  "prune_entry jt env deleted cutoff db =
     WriteEntry jt (pe_write env) DefaultOrgID ''system'' ''audit.prune'' ''audit_logs'' []
       (Some (JObj [(''rows_deleted'', JInt (int deleted)), (''cutoff'', JStr (rfc3339 cutoff))])) db"

text \<open>The branch \<open>deleted > 0\<close>: move or clear the anchor, record the prune, commit.\<close>

definition prune_record :: "(string \<Rightarrow> string) \<Rightarrow> prune_env \<Rightarrow> time \<Rightarrow> nat \<Rightarrow> audit_row query \<Rightarrow> audit_db
   \<Rightarrow> audit_db \<Rightarrow> (audit_error + nat) \<times> audit_db" where
  "prune_record jt env cutoff deleted first db db1 =
     (case pe_write_anchor env of
        Some e \<Rightarrow> (Inl (case first of Ok _ \<Rightarrow> Write_anchor_failed e | _ \<Rightarrow> Clear_anchor_failed e), db)
      | None \<Rightarrow>
          (let db2 = db1\<lparr>anchor := (case first of
                          Ok r \<Rightarrow> Some \<lparr>an_first_seq = al_seq r, an_prev_hash = al_prev_hash r,
                                        an_pruned_before = pg_timestamp cutoff\<rparr>
                        | _ \<Rightarrow> None)\<rparr>
           in case prune_entry jt env deleted cutoff db2 of
                (Inl e, db3) \<Rightarrow> (Inl (Prune_entry_failed e), rollback_to db db3)
              | (Inr _, db3) \<Rightarrow>
                  (case pe_commit env of
                     Some e \<Rightarrow> (Inl (Commit_failed e), rollback_to db db3)
                   | None \<Rightarrow> (Inr deleted, db3))))"

definition Prune :: "(string \<Rightarrow> string) \<Rightarrow> prune_env \<Rightarrow> duration \<Rightarrow> audit_db
   \<Rightarrow> (audit_error + nat) \<times> audit_db" where
  "Prune jt env retainFor db =
     (if retainFor \<le> 0 then (Inr 0, db) else
      let cutoff = pe_clock env - retainFor; arg = pg_timestamp cutoff in
      case pe_begin env of Some e \<Rightarrow> (Inl (Begin_failed e), db) | None \<Rightarrow>
      (case pe_lock env of Some e \<Rightarrow> (Inl (Lock_failed e), db) | None \<Rightarrow>
      (case select_one (pe_anchor env) (\<lambda>r. al_created r \<ge> arg) (order_by_seq (logs db)) of
         Db_error e \<Rightarrow> (Inl (Read_anchor_failed e), db)
       | first \<Rightarrow>
      (case pe_delete env of Some e \<Rightarrow> (Inl (Delete_failed e), db) | None \<Rightarrow>
       let deleted = rows_affected (\<lambda>r. al_created r < arg) (logs db);
           db1 = db\<lparr>logs := delete_where (\<lambda>r. al_created r < arg) (logs db)\<rparr>
       in if deleted > 0 then prune_record jt env cutoff deleted first db db1
          else (case pe_commit env of Some e \<Rightarrow> (Inl (Commit_failed e), db) | None \<Rightarrow> (Inr deleted, db1))))))"

text \<open>One tick of the goroutine \<open>Start\<close> launches: a prune when there is no leader gate or the gate
  is open; an error is only logged.\<close>

definition prune_tick :: "(string \<Rightarrow> string) \<Rightarrow> prune_env \<Rightarrow> bool option \<Rightarrow> duration \<Rightarrow> audit_db \<Rightarrow> audit_db" where
  "prune_tick jt env isLeader retainFor db =
     (if isLeader = Some False then db else snd (Prune jt env retainFor db))"

section \<open>The writers of the handlers\<close>

definition auditOrgIDFromContext :: "string option \<Rightarrow> string" where
  "auditOrgIDFromContext oc =
     (case oc of Some org \<Rightarrow> if org \<noteq> [] then org else DefaultOrgID | None \<Rightarrow> DefaultOrgID)"

record audit_call =
  ac_actor :: string
  ac_action :: string
  ac_target_type :: string
  ac_target_id :: string
  ac_details :: "jval option"

definition writeAuditEntryWithOrg ::
  "(string \<Rightarrow> string) \<Rightarrow> write_env \<Rightarrow> string \<Rightarrow> audit_call \<Rightarrow> audit_db option
   \<Rightarrow> (audit_error + unit) \<times> audit_db option" where
  "writeAuditEntryWithOrg jt env orgID call dbopt =
     (case dbopt of
        None \<Rightarrow> (Inl Db_not_configured, None)
      | Some db \<Rightarrow>
          (let orgID = (if orgID = [] then DefaultOrgID else orgID);
               (res, db') = WriteEntry jt env orgID (ac_actor call) (ac_action call)
                              (ac_target_type call) (ac_target_id call) (ac_details call) db
           in (res, Some db')))"

definition writeAuditEntry ::
  "(string \<Rightarrow> string) \<Rightarrow> write_env \<Rightarrow> string option \<Rightarrow> audit_call \<Rightarrow> audit_db option
   \<Rightarrow> (audit_error + unit) \<times> audit_db option" where
  "writeAuditEntry jt env oc call dbopt =
     (case dbopt of
        None \<Rightarrow> (Inl Db_not_configured, None)
      | Some db \<Rightarrow>
          (let (res, db') = WriteEntry jt env (auditOrgIDFromContext oc) (ac_actor call) (ac_action call)
                              (ac_target_type call) (ac_target_id call) (ac_details call) db
           in (res, Some db')))"

definition writeAuditEntryBestEffort ::
  "(string \<Rightarrow> string) \<Rightarrow> write_env \<Rightarrow> string option \<Rightarrow> audit_call \<Rightarrow> audit_db option
   \<Rightarrow> (audit_error + unit) \<times> audit_db option" where
  "writeAuditEntryBestEffort jt env oc call dbopt =
     (case dbopt of
        None \<Rightarrow> (Inl Db_not_configured, None)
      | Some db \<Rightarrow> writeAuditEntryWithOrg jt env (auditOrgIDFromContext oc) call (Some db))"

section \<open>Specification\<close>

text \<open>What the log promises: every row carries the digest of its own columns and of the row before
  it, the first one continues from the anchor.\<close>

definition chain_base :: "audit_db \<Rightarrow> string" where
  "chain_base db = (case anchor db of Some a \<Rightarrow> if an_first_seq a > 0 then an_prev_hash a else [] | None \<Rightarrow> [])"

primrec linked :: "(string \<Rightarrow> string) \<Rightarrow> string \<Rightarrow> audit_row list \<Rightarrow> bool" where
  "linked jt prev [] = True"
| "linked jt prev (r # rs) =
     (al_prev_hash r = prev \<and> al_row_hash r = Some (expected_hash jt r) \<and> linked jt (expected_hash jt r) rs)"

definition anchored :: "audit_db \<Rightarrow> bool" where
  "anchored db =
     (case (anchor db, order_by_seq (logs db)) of
        (Some a, r # _) \<Rightarrow> an_first_seq a > 0 \<longrightarrow> al_seq r = an_first_seq a
      | _ \<Rightarrow> True)"

definition intact :: "(string \<Rightarrow> string) \<Rightarrow> audit_db \<Rightarrow> bool" where
  "intact jt db \<longleftrightarrow> anchored db \<and> linked jt (chain_base db) (order_by_seq (logs db))"

text \<open>The table as the writers leave it: sequence numbers positive, increasing in the order of
  insertion and below the sequence's next value, and an anchor only beside a row.\<close>

definition well_sequenced :: "audit_db \<Rightarrow> bool" where
  "well_sequenced db \<longleftrightarrow>
     sorted_wrt (<) (map al_seq (logs db)) \<and> list_all (\<lambda>r. 0 < al_seq r \<and> al_seq r < next_seq db) (logs db)
     \<and> 0 < next_seq db \<and> (logs db = [] \<longrightarrow> anchor db = None)
     \<and> (case anchor db of Some a \<Rightarrow> 0 < an_first_seq a | None \<Rightarrow> True)"

definition chain_inv :: "(string \<Rightarrow> string) \<Rightarrow> audit_db \<Rightarrow> bool" where
  "chain_inv jt db \<longleftrightarrow> well_sequenced db \<and> intact jt db"

definition time_ordered :: "audit_db \<Rightarrow> bool" where
  "time_ordered db \<longleftrightarrow> sorted (map al_created (logs db))"

definition no_write_faults :: "time \<Rightarrow> write_env" where
  "no_write_faults t = \<lparr>we_begin = None, we_lock = None, we_head = None, we_canonicalise = None,
     we_insert = None, we_commit = None, tx_now = t\<rparr>"

definition no_prune_faults :: "time \<Rightarrow> prune_env" where
  "no_prune_faults t = \<lparr>pe_clock = t, pe_begin = None, pe_lock = None, pe_anchor = None, pe_delete = None,
     pe_write_anchor = None, pe_write = no_write_faults t, pe_commit = None\<rparr>"

definition no_verify_faults :: verify_env where
  "no_verify_faults = \<lparr>ve_anchor = None, ve_query = None, ve_scan = (\<lambda>_. None), ve_rows_err = None\<rparr>"

definition verify_faultless :: "verify_env \<Rightarrow> nat \<Rightarrow> bool" where
  "verify_faultless env n \<longleftrightarrow>
     ve_anchor env = None \<and> ve_query env = None \<and> list_all (\<lambda>i. ve_scan env i = None) [0..<n]
     \<and> ve_rows_err env = None"

section \<open>The framing of the hash input\<close>

text \<open>A code is prefix free when no continuation makes two code words meet; a sequence of code words
  then determines the sequence.\<close>

locale prefix_code =
  fixes enc :: "'a \<Rightarrow> 'c list"
  assumes enc_cancel: "enc x @ u = enc y @ v \<Longrightarrow> x = y \<and> u = v"
begin

lemma concat_cancel:
  assumes "length xs = length ys" "concat (map enc xs) @ u = concat (map enc ys) @ v"
  shows "xs = ys \<and> u = v"
  using assms
proof (induction xs ys rule: list_induct2)
  case Nil
  then show ?case by simp
next
  case (Cons x xs y ys)
  from Cons.prems have "enc x @ (concat (map enc xs) @ u) = enc y @ (concat (map enc ys) @ v)"
    by simp
  from enc_cancel [OF this] Cons.IH show ?case by simp
qed

lemma concat_inject:
  "length xs = length ys \<Longrightarrow> concat (map enc xs) = concat (map enc ys) \<longleftrightarrow> xs = ys"
  using concat_cancel [of xs ys "[]" "[]"] by auto

end

lemma takeWhile_digits: "takeWhile is_digit (show_nat n @ CHR '':'' # s) = show_nat n"
proof -
  have "\<not> is_digit (CHR '':'')" by (simp add: is_digit_def byte_def)
  then show ?thesis using show_nat_digits [of n] by (simp add: takeWhile_append2)
qed

lemma hash_field_cancel:
  assumes "hash_field x @ u = hash_field y @ v"
  shows "x = y \<and> u = v"
proof -
  have e: "show_nat (length x) @ CHR '':'' # (x @ CHR ''|'' # u) = show_nat (length y) @ CHR '':'' # (y @ CHR ''|'' # v)"
    using assms by (simp add: hash_field_def)
  then have "show_nat (length x) = show_nat (length y)"
    by (metis takeWhile_digits)
  then have l: "length x = length y" by simp
  with e have "x @ CHR ''|'' # u = y @ CHR ''|'' # v" by simp
  with l show ?thesis by simp
qed

interpretation hash_framing: prefix_code hash_field
  by unfold_locales (rule hash_field_cancel)

text \<open>The hash input of two rows is the same only when all their hashed columns are.\<close>

lemma hash_preimage_inject:
  "length xs = length ys \<Longrightarrow> hash_preimage xs = hash_preimage ys \<longleftrightarrow> xs = ys"
  by (simp add: hash_preimage_def hash_framing.concat_inject)

lemma expected_hash_alt: "expected_hash jt r = hex_sha256 (hash_preimage (row_fields jt r))"
  by (simp add: expected_hash_def computeHash_def row_fields_def)

lemma length_row_fields [simp]: "length (row_fields jt r) = 6"
  by (simp add: row_fields_def)

lemma expected_hash_nonempty [simp]: "expected_hash jt r \<noteq> []"
  by (simp add: expected_hash_alt)

section \<open>The walk of VerifyChain\<close>

lemma verify_rows_ok_iff:
  assumes "anchorSeq \<le> 0 \<or> n > 0"
  shows "vr_ok (fst (verify_rows jt env anchorSeq anchorPrev n prev rows)) \<longleftrightarrow>
     list_all (\<lambda>i. ve_scan env i = None) [n..<n + length rows] \<and> ve_rows_err env = None \<and> linked jt prev rows"
  using assms
proof (induction rows arbitrary: n prev)
  case Nil
  then show ?case by (auto simp: intact_result_def partial_result_def split: option.splits)
next
  case (Cons r rs)
  have up: "[n..<n + length (r # rs)] = n # [Suc n..<Suc n + length rs]"
    using upt_conv_Cons [of n "n + length (r # rs)"] by simp
  from Cons.prems have nf: "\<not> (n + 1 = 1 \<and> anchorSeq > 0)" by auto
  show ?case
    unfolding up using nf Cons.IH [of "n + 1"]
    by (cases "al_row_hash r")
      (auto simp: partial_result_def broken_def coalesce_def Let_def split: option.splits)
qed

lemma verify_first_row:
  assumes "anchorSeq > 0"
  shows "vr_ok (fst (verify_rows jt env anchorSeq anchorPrev 0 [] (r # rs))) \<longleftrightarrow>
     al_seq r = anchorSeq \<and> list_all (\<lambda>i. ve_scan env i = None) [0..<Suc (length rs)]
     \<and> ve_rows_err env = None \<and> linked jt anchorPrev (r # rs)"
proof -
  have up: "[0..<Suc (length rs)] = 0 # [1..<1 + length rs]"
    using upt_conv_Cons [of 0 "Suc (length rs)"] by simp
  show ?thesis
    unfolding up using assms verify_rows_ok_iff [of anchorSeq 1 jt env anchorPrev _ rs]
    by (cases "al_row_hash r")
      (auto simp: partial_result_def broken_def coalesce_def Let_def split: option.splits)
qed

lemma length_order_by_seq [simp]: "length (order_by_seq rows) = length rows"
  by (simp add: order_by_seq_def)

lemma set_order_by_seq [simp]: "set (order_by_seq rows) = set rows"
  by (simp add: order_by_seq_def)

lemma order_by_seq_sorted: "sorted (map al_seq rows) \<Longrightarrow> order_by_seq rows = rows"
  by (simp add: order_by_seq_def sorted_sort_id sort_key_id_if_sorted)

lemma VerifyChain_ok_iff:
  "vr_ok (fst (VerifyChain jt env db)) \<longleftrightarrow> verify_faultless env (length (logs db)) \<and> intact jt db"
proof -
  have no_anchor: "vr_ok (fst (verify_rows jt env s p 0 [] (order_by_seq (logs db)))) \<longleftrightarrow>
      list_all (\<lambda>i. ve_scan env i = None) [0..<length (logs db)] \<and> ve_rows_err env = None
      \<and> linked jt [] (order_by_seq (logs db))" if "s \<le> 0" for s p
    using verify_rows_ok_iff [of s 0 jt env p "[]" "order_by_seq (logs db)"] that by simp
  have with_anchor: "vr_ok (fst (verify_rows jt env (an_first_seq a) (an_prev_hash a) 0 [] (order_by_seq (logs db)))) \<longleftrightarrow>
      list_all (\<lambda>i. ve_scan env i = None) [0..<length (logs db)] \<and> ve_rows_err env = None \<and> intact jt db"
    if a: "anchor db = Some a" "an_first_seq a > 0" for a
  proof (cases "order_by_seq (logs db)")
    case Nil
    then have "logs db = []" by (metis length_0_conv length_order_by_seq)
    with Nil a show ?thesis
      by (auto simp: intact_def anchored_def intact_result_def partial_result_def split: option.splits)
  next
    case (Cons r rs)
    then have "length (logs db) = Suc (length rs)" by (metis length_Cons length_order_by_seq)
    with Cons a show ?thesis
      using verify_first_row [OF a(2), of jt env "an_prev_hash a" r rs]
      by (auto simp: intact_def anchored_def chain_base_def)
  qed
  show ?thesis
  proof (cases "anchor db")
    case None
    then show ?thesis using no_anchor [of 0]
      by (auto simp: VerifyChain_def chainAnchor_def verify_faultless_def intact_def anchored_def
          chain_base_def partial_result_def split: option.splits)
  next
    case (Some a)
    then show ?thesis
      using no_anchor [of "an_first_seq a"] with_anchor [OF Some]
      by (cases "an_first_seq a > 0")
        (auto simp: VerifyChain_def chainAnchor_def verify_faultless_def intact_def anchored_def
          chain_base_def partial_result_def split: option.splits list.splits)
  qed
qed

section \<open>Appending\<close>

definition end_hash :: "(string \<Rightarrow> string) \<Rightarrow> string \<Rightarrow> audit_row list \<Rightarrow> string" where
  "end_hash jt prev rows = (if rows = [] then prev else expected_hash jt (last rows))"

lemma linked_append:
  "linked jt prev (xs @ ys) \<longleftrightarrow> linked jt prev xs \<and> linked jt (end_hash jt prev xs) ys"
  by (induction xs arbitrary: prev) (auto simp: end_hash_def)

lemma linked_last_hash:
  "linked jt prev rows \<Longrightarrow> rows \<noteq> [] \<Longrightarrow> al_row_hash (last rows) = Some (expected_hash jt (last rows))"
  by (induction rows arbitrary: prev) (auto split: if_splits)

lemma linked_hd_prev: "linked jt prev rows \<Longrightarrow> rows \<noteq> [] \<Longrightarrow> al_prev_hash (hd rows) = prev"
  by (cases rows) auto

lemma well_sequenced_order:
  "well_sequenced db \<Longrightarrow> order_by_seq (logs db) = logs db"
  by (simp add: well_sequenced_def order_by_seq_sorted strict_sorted_imp_sorted)

lemma chain_inv_linked: "chain_inv jt db \<Longrightarrow> linked jt (chain_base db) (logs db)"
  by (auto simp: chain_inv_def intact_def well_sequenced_order)

lemma chainHead_end_hash:
  assumes "chain_inv jt db"
  shows "chainHead None db = Inr (end_hash jt (chain_base db) (logs db))"
proof (cases "logs db" rule: rev_cases)
  case Nil
  with assms have "anchor db = None" by (auto simp: chain_inv_def well_sequenced_def)
  with Nil assms show ?thesis
    by (simp add: chainHead_def end_hash_def chain_base_def order_by_seq_def)
next
  case (snoc rs r)
  have "order_by_seq (logs db) = logs db"
    using assms by (auto simp: chain_inv_def well_sequenced_order)
  with snoc linked_last_hash [OF chain_inv_linked [OF assms]] show ?thesis
    by (simp add: chainHead_def end_hash_def)
qed

text \<open>The row a successful write appends.\<close>

definition written_row ::
  "(string \<Rightarrow> string) \<Rightarrow> write_env \<Rightarrow> string \<Rightarrow> string \<Rightarrow> string \<Rightarrow> string \<Rightarrow> string \<Rightarrow> jval option
   \<Rightarrow> string \<Rightarrow> int \<Rightarrow> audit_row" where
  "written_row jt env orgID actorID act targetType targetID details prev s =
     \<lparr>al_seq = s, al_org = orgID, al_actor = actorID, al_action = act,
      al_target_type = Some targetType, al_target_id = Some targetID,
      al_details = Some (details_bytes details),
      al_row_hash = Some (computeHash actorID act targetType targetID (jt (details_bytes details)) prev),
      al_prev_hash = prev, al_created = pg_timestamp (tx_now env)\<rparr>"

lemma expected_hash_written:
  "al_row_hash (written_row jt env o' a ac tt ti d prev s) = Some (expected_hash jt (written_row jt env o' a ac tt ti d prev s))"
  by (simp add: written_row_def expected_hash_def details_text_def coalesce_def)

lemma WriteEntry_outcome:
  fixes jt env o' a ac tt ti d db
  defines "W \<equiv> WriteEntry jt env o' a ac tt ti d db"
    and "bumped \<equiv> db\<lparr>next_seq := next_seq db + 1\<rparr>"
  shows "(\<exists>e. W = (Inl e, db)) \<or> (\<exists>e. W = (Inl e, bumped)) \<or>
     (\<exists>h. chainHead None db = Inr h \<and> o' \<noteq> [] \<and>
        W = (Inr (), bumped\<lparr>logs := logs db @ [written_row jt env o' a ac tt ti d h (next_seq db)]\<rparr>))"
proof (cases "we_head env")
  case None
  then show ?thesis
    unfolding W_def bumped_def WriteEntry_def Let_def written_row_def
    by (auto split: option.split sum.split)
next
  case (Some e)
  then have "chainHead (we_head env) db = Inl e" by (simp add: chainHead_def)
  then show ?thesis
    unfolding W_def WriteEntry_def Let_def by (auto split: option.split)
qed

lemma intact_next_seq [simp]: "intact jt (db\<lparr>next_seq := n\<rparr>) = intact jt db"
  by (simp add: intact_def anchored_def chain_base_def)

lemma chain_inv_gap: "chain_inv jt db \<Longrightarrow> next_seq db \<le> n \<Longrightarrow> chain_inv jt (db\<lparr>next_seq := n\<rparr>)"
  by (fastforce simp: chain_inv_def well_sequenced_def list_all_iff)

lemma chain_inv_append:
  assumes inv: "chain_inv jt db" and h: "chainHead None db = Inr h"
  shows "chain_inv jt (db\<lparr>next_seq := next_seq db + 1,
           logs := logs db @ [written_row jt env o' a ac tt ti d h (next_seq db)]\<rparr>)" (is "chain_inv jt ?db'")
proof -
  let ?r = "written_row jt env o' a ac tt ti d h (next_seq db)"
  have hh: "h = end_hash jt (chain_base db) (logs db)"
    using chainHead_end_hash [OF inv] h by simp
  have ws: "well_sequenced ?db'"
    using inv by (auto simp: chain_inv_def well_sequenced_def list_all_iff sorted_wrt_append written_row_def)
  have base: "chain_base ?db' = chain_base db" by (simp add: chain_base_def)
  have "linked jt (chain_base db) (logs db @ [?r])"
    using chain_inv_linked [OF inv] expected_hash_written hh
    by (simp add: linked_append) (simp add: written_row_def)
  then have lk: "linked jt (chain_base ?db') (order_by_seq (logs ?db'))"
    unfolding base well_sequenced_order [OF ws] by simp
  have "anchored ?db'"
  proof (cases "logs db")
    case Nil
    with inv have "anchor db = None" by (simp add: chain_inv_def well_sequenced_def)
    then show ?thesis by (simp add: anchored_def)
  next
    case (Cons r rs)
    have "order_by_seq (logs db) = logs db"
      using inv by (auto simp: chain_inv_def well_sequenced_order)
    with Cons inv well_sequenced_order [OF ws] show ?thesis
      by (auto simp: chain_inv_def intact_def anchored_def split: option.splits)
  qed
  with ws lk show ?thesis by (simp add: chain_inv_def intact_def)
qed

lemma WriteEntry_chain_inv:
  assumes "chain_inv jt db"
  shows "chain_inv jt (snd (WriteEntry jt env o' a ac tt ti d db))"
  using WriteEntry_outcome [of jt env o' a ac tt ti d db] assms
  by (auto simp: chain_inv_gap chain_inv_append)

section \<open>Pruning\<close>

lemma sorted_filter_dropWhile:
  "sorted (map f xs) \<Longrightarrow> filter (\<lambda>x. c \<le> f x) xs = dropWhile (\<lambda>x. f x < c) xs"
proof (induction xs)
  case Nil
  then show ?case by simp
next
  case (Cons a xs)
  show ?case
  proof (cases "f a < c")
    case True
    with Cons show ?thesis by simp
  next
    case False
    with Cons.prems have "\<forall>x \<in> set xs. c \<le> f x" by fastforce
    with False show ?thesis by simp
  qed
qed

text \<open>The tables between the deletion and the prune entry.\<close>

definition pruned_db :: "time \<Rightarrow> audit_db \<Rightarrow> audit_db" where
  "pruned_db arg db =
     db\<lparr>logs := delete_where (\<lambda>r. al_created r < arg) (logs db),
        anchor := (case select_one None (\<lambda>r. al_created r \<ge> arg) (order_by_seq (logs db)) of
            Ok r \<Rightarrow> Some \<lparr>an_first_seq = al_seq r, an_prev_hash = al_prev_hash r, an_pruned_before = arg\<rparr>
          | _ \<Rightarrow> None)\<rparr>"

lemma sorted_wrt_dropWhile: "sorted_wrt P xs \<Longrightarrow> sorted_wrt P (dropWhile Q xs)"
  by (metis sorted_wrt_append takeWhile_dropWhile_id)

lemma linked_dropWhile:
  assumes "linked jt prev rows" "dropWhile P rows = r # rs"
  shows "linked jt (al_prev_hash r) (r # rs)"
proof -
  have "rows = takeWhile P rows @ r # rs"
    using assms(2) takeWhile_dropWhile_id [of P rows] by simp
  with assms(1) show ?thesis
    by (metis linked.simps(2) linked_append)
qed

lemma pruned_chain_inv:
  assumes inv: "chain_inv jt db" and ord: "time_ordered db"
  shows "chain_inv jt (pruned_db arg db)"
proof -
  let ?rows = "dropWhile (\<lambda>r. al_created r < arg) (logs db)"
  have o: "order_by_seq (logs db) = logs db" and ws: "well_sequenced db"
    using inv by (auto simp: chain_inv_def well_sequenced_order)
  have f: "filter (\<lambda>r. arg \<le> al_created r) (logs db) = ?rows"
    using ord by (simp add: time_ordered_def sorted_filter_dropWhile)
  have logs: "logs (pruned_db arg db) = ?rows"
    by (simp add: pruned_db_def delete_where_def not_less f)
  have nxt: "next_seq (pruned_db arg db) = next_seq db" by (simp add: pruned_db_def)
  have anc: "anchor (pruned_db arg db) = (case ?rows of [] \<Rightarrow> None
      | r # _ \<Rightarrow> Some \<lparr>an_first_seq = al_seq r, an_prev_hash = al_prev_hash r, an_pruned_before = arg\<rparr>)"
    by (cases ?rows) (simp_all add: pruned_db_def select_one_def o f del: dropWhile_eq_Nil_conv)
  have pos: "\<And>r. r \<in> set ?rows \<Longrightarrow> 0 < al_seq r \<and> al_seq r < next_seq db"
    using ws set_dropWhileD by (fastforce simp: well_sequenced_def list_all_iff)
  have srt: "sorted_wrt (<) (map al_seq ?rows)"
    using ws sorted_wrt_dropWhile [of "\<lambda>x y. al_seq x < al_seq y"]
    by (simp add: well_sequenced_def sorted_wrt_map)
  have ws': "well_sequenced (pruned_db arg db)"
    using srt pos ws unfolding well_sequenced_def logs nxt anc list_all_iff
    by (cases ?rows) (auto simp del: dropWhile_eq_Nil_conv)
  have "intact jt (pruned_db arg db)"
  proof (cases ?rows)
    case Nil
    show ?thesis unfolding intact_def anchored_def anc logs Nil order_by_seq_def by simp
  next
    case (Cons r rs)
    then have "0 < al_seq r" using pos by simp
    with Cons anc logs well_sequenced_order [OF ws'] linked_dropWhile [OF chain_inv_linked [OF inv] Cons]
    show ?thesis by (simp add: intact_def anchored_def chain_base_def)
  qed
  with ws' show ?thesis by (simp add: chain_inv_def)
qed

lemma pruned_next_seq [simp]: "next_seq (pruned_db arg db) = next_seq db"
  by (simp add: pruned_db_def)

lemma WriteEntry_next_seq: "next_seq db \<le> next_seq (snd (WriteEntry jt env o' a ac tt ti d db))"
  using WriteEntry_outcome [of jt env o' a ac tt ti d db] by auto

lemma delete_none: "rows_affected P rows = 0 \<Longrightarrow> delete_where P rows = rows"
  by (auto simp: sql_simps delete_where_def)

lemma select_one_None_not_error [simp]: "select_one None P rows \<noteq> Db_error e"
  by (simp add: sql_simps)

lemma prune_record_outcome:
  fixes jt env cutoff deleted db
  defines "first \<equiv> select_one None (\<lambda>r. al_created r \<ge> pg_timestamp cutoff) (order_by_seq (logs db))"
    and "db1 \<equiv> db\<lparr>logs := delete_where (\<lambda>r. al_created r < pg_timestamp cutoff) (logs db)\<rparr>"
    and "E \<equiv> snd (prune_entry jt env deleted cutoff (pruned_db (pg_timestamp cutoff) db))"
  shows "snd (prune_record jt env cutoff deleted first db db1) \<in> {db, E, rollback_to db E}"
proof -
  have "db1\<lparr>anchor := (case first of
            Ok r \<Rightarrow> Some \<lparr>an_first_seq = al_seq r, an_prev_hash = al_prev_hash r,
                         an_pruned_before = pg_timestamp cutoff\<rparr>
          | _ \<Rightarrow> None)\<rparr> = pruned_db (pg_timestamp cutoff) db"
    by (simp add: first_def db1_def pruned_db_def)
  then show ?thesis
    unfolding prune_record_def Let_def E_def
    by (cases "prune_entry jt env deleted cutoff (pruned_db (pg_timestamp cutoff) db)")
      (auto split: option.split sum.split)
qed

lemma Prune_outcome:
  fixes jt env retainFor db
  defines "P \<equiv> Prune jt env retainFor db"
    and "E \<equiv> \<lambda>n. snd (prune_entry jt env n (pe_clock env - retainFor)
                   (pruned_db (pg_timestamp (pe_clock env - retainFor)) db))"
  shows "\<exists>n. snd P \<in> {db, E n, rollback_to db (E n)}"
proof (cases "pe_anchor env")
  case (Some e)
  then have "select_one (pe_anchor env) Q rows = Db_error e" for Q and rows :: "audit_row list"
    by (simp add: sql_simps)
  then show ?thesis unfolding P_def Prune_def Let_def by (auto split: option.split)
next
  case None
  let ?c = "pe_clock env - retainFor"
  let ?first = "select_one None (\<lambda>r. al_created r \<ge> pg_timestamp ?c) (order_by_seq (logs db))"
  let ?deleted = "rows_affected (\<lambda>r. al_created r < pg_timestamp ?c) (logs db)"
  let ?db1 = "db\<lparr>logs := delete_where (\<lambda>r. al_created r < pg_timestamp ?c) (logs db)\<rparr>"
  have "snd P = db \<or> snd P = snd (prune_record jt env ?c ?deleted ?first db ?db1)"
    unfolding P_def Prune_def Let_def None
    by (cases ?first) (auto simp: delete_none split: option.split)
  then show ?thesis
    using prune_record_outcome [of jt env ?c ?deleted db] unfolding E_def by auto
qed

lemma Prune_chain_inv:
  assumes "chain_inv jt db" "time_ordered db"
  shows "chain_inv jt (snd (Prune jt env retainFor db))"
proof -
  let ?arg = "pg_timestamp (pe_clock env - retainFor)"
  have entry: "chain_inv jt (snd (prune_entry jt env n c (pruned_db ?arg db)))" for n c
    unfolding prune_entry_def using pruned_chain_inv [OF assms] by (rule WriteEntry_chain_inv)
  have "next_seq db \<le> next_seq (snd (prune_entry jt env n c (pruned_db ?arg db)))" for n c
    unfolding prune_entry_def using WriteEntry_next_seq [of "pruned_db ?arg db"] by simp
  then have "chain_inv jt (rollback_to db (snd (prune_entry jt env n c (pruned_db ?arg db))))" for n c
    unfolding rollback_to_def using assms(1) by (intro chain_inv_gap)
  with entry assms(1) Prune_outcome [of jt env retainFor db] show ?thesis by auto
qed

section \<open>Runs of the log\<close>

datatype audit_op =
    Op_write write_env string string string string string "jval option"
  | Op_prune prune_env duration

fun audit_step :: "(string \<Rightarrow> string) \<Rightarrow> audit_op \<Rightarrow> audit_db \<Rightarrow> audit_db" where
  "audit_step jt (Op_write env o' a ac tt ti d) db = snd (WriteEntry jt env o' a ac tt ti d db)"
| "audit_step jt (Op_prune env retainFor) db = snd (Prune jt env retainFor db)"

fun op_time :: "audit_op \<Rightarrow> time" where
  "op_time (Op_write env o' a ac tt ti d) = tx_now env"
| "op_time (Op_prune env retainFor) = tx_now (pe_write env)"

text \<open>The transaction of the operation does not start before those whose rows are in the table.\<close>

definition in_time_order :: "audit_op \<Rightarrow> audit_db \<Rightarrow> bool" where
  "in_time_order op db \<longleftrightarrow> list_all (\<lambda>r. al_created r \<le> pg_timestamp (op_time op)) (logs db)"

definition log_inv :: "(string \<Rightarrow> string) \<Rightarrow> audit_db \<Rightarrow> bool" where
  "log_inv jt db \<longleftrightarrow> chain_inv jt db \<and> time_ordered db"

definition sample_write :: "string \<Rightarrow> time \<Rightarrow> audit_op" where
  "sample_write org t = Op_write (no_write_faults t) org ''alice'' ''user.onboard'' ''user'' ''u1'' None"

definition sample_log :: "string \<Rightarrow> audit_db" where
  "sample_log org = fold (audit_step (\<lambda>b. b)) [sample_write org 1000, sample_write org 5000] empty_audit_db"

lemma WriteEntry_time_ordered:
  assumes "time_ordered db" "list_all (\<lambda>r. al_created r \<le> pg_timestamp (tx_now env)) (logs db)"
  shows "time_ordered (snd (WriteEntry jt env o' a ac tt ti d db))"
  using WriteEntry_outcome [of jt env o' a ac tt ti d db] assms
  by (auto simp: time_ordered_def sorted_append list_all_iff written_row_def)

lemma pruned_time_ordered: "time_ordered db \<Longrightarrow> time_ordered (pruned_db arg db)"
  by (simp add: time_ordered_def pruned_db_def delete_where_def sorted_filter)

lemma Prune_time_ordered:
  assumes "time_ordered db" "list_all (\<lambda>r. al_created r \<le> pg_timestamp (tx_now (pe_write env))) (logs db)"
  shows "time_ordered (snd (Prune jt env retainFor db))"
proof -
  have "list_all (\<lambda>r. al_created r \<le> pg_timestamp (tx_now (pe_write env))) (logs (pruned_db arg db))" for arg
    using assms(2) by (auto simp: pruned_db_def delete_where_def list_all_iff)
  then have "time_ordered (snd (prune_entry jt env n c (pruned_db arg db)))" for n c arg
    unfolding prune_entry_def using WriteEntry_time_ordered pruned_time_ordered [OF assms(1)] by blast
  moreover have "time_ordered (rollback_to db x)" for x
    using assms(1) by (simp add: time_ordered_def rollback_to_def)
  ultimately show ?thesis using Prune_outcome [of jt env retainFor db] assms(1) by auto
qed

lemma audit_step_inv: "log_inv jt db \<Longrightarrow> in_time_order op db \<Longrightarrow> log_inv jt (audit_step jt op db)"
  by (cases op)
    (auto simp: log_inv_def in_time_order_def WriteEntry_chain_inv Prune_chain_inv
      WriteEntry_time_ordered Prune_time_ordered)

interpretation audit_log: guarded_machine "audit_step jt" in_time_order "log_inv jt" for jt
  by unfold_locales (rule audit_step_inv)

lemma log_inv_empty: "log_inv jt empty_audit_db"
  by (simp add: log_inv_def chain_inv_def empty_audit_db_def well_sequenced_def intact_def anchored_def
      order_by_seq_def time_ordered_def)

lemma verify_faultless_none [simp]: "verify_faultless no_verify_faults n"
  by (simp add: verify_faultless_def no_verify_faults_def list_all_iff)

lemmas sample_simps = sample_log_def sample_write_def in_time_order_def empty_audit_db_def WriteEntry_def
  no_write_faults_def no_prune_faults_def chainHead_def order_by_seq_def details_bytes_def pg_timestamp_def
  Let_def

lemma log_inv_sample: "org \<noteq> [] \<Longrightarrow> log_inv (\<lambda>b. b) (sample_log org)"
  unfolding sample_log_def by (rule audit_log.run_inv [OF log_inv_empty]) (simp add: sample_simps)

section \<open>Comparing two logs\<close>

lemma linked_same_end:
  assumes "length xs = length ys" "linked jt p xs" "linked jt p ys"
    "end_hash jt p xs = end_hash jt p ys"
  shows "map (row_fields jt) xs = map (row_fields jt) ys \<or>
     (\<exists>x \<in> set xs. \<exists>y \<in> set ys. hash_preimage (row_fields jt x) \<noteq> hash_preimage (row_fields jt y)
        \<and> sha256 (hash_preimage (row_fields jt x)) = sha256 (hash_preimage (row_fields jt y)))"
  using assms
proof (induction xs arbitrary: ys rule: rev_induct)
  case Nil
  then show ?case by simp
next
  case (snoc x xs)
  then obtain ys' y where ys: "ys = ys' @ [y]" and len: "length xs = length ys'"
    by (cases ys rule: rev_cases) auto
  from snoc.prems have lx: "linked jt p xs" "al_prev_hash x = end_hash jt p xs"
    and ly: "linked jt p ys'" "al_prev_hash y = end_hash jt p ys'"
    by (auto simp: linked_append ys)
  have e: "sha256 (hash_preimage (row_fields jt x)) = sha256 (hash_preimage (row_fields jt y))"
    using snoc.prems(4) by (simp add: ys end_hash_def expected_hash_alt hex_sha256_eq_iff)
  show ?case
  proof (cases "row_fields jt x = row_fields jt y")
    case True
    then have "end_hash jt p xs = end_hash jt p ys'" using lx(2) ly(2) by (simp add: row_fields_def)
    with snoc.IH [OF len lx(1) ly(1)] True show ?thesis unfolding ys by auto
  next
    case False
    then have "hash_preimage (row_fields jt x) \<noteq> hash_preimage (row_fields jt y)"
      by (simp add: hash_preimage_inject)
    with e show ?thesis unfolding ys by auto
  qed
qed

lemma intact_chainHead:
  assumes "intact jt db" "logs db \<noteq> []"
  shows "chainHead None db = Inr (end_hash jt (chain_base db) (order_by_seq (logs db)))"
proof (cases "order_by_seq (logs db)" rule: rev_cases)
  case Nil
  then have "logs db = []" by (metis length_0_conv length_order_by_seq)
  with assms(2) show ?thesis by simp
next
  case (snoc rs r)
  with assms(1) linked_last_hash [of jt "chain_base db" "order_by_seq (logs db)"] show ?thesis
    by (simp add: intact_def chainHead_def end_hash_def)
qed

section \<open>Properties of the audit log\<close>

text \<open>C37. \<open>VerifyChain\<close> decides the integrity of the log: it reports OK exactly when no database call
  failed, the first retained row is the anchored one, and every row carries the SHA-256 of its own
  columns and links to the digest of the row before it.\<close>

theorem verify_decides_integrity:
  "vr_ok (fst (VerifyChain jt env db)) \<longleftrightarrow> verify_faultless env (length (logs db)) \<and> intact jt db"
  by (rule VerifyChain_ok_iff)

text \<open>C1. Starting from the empty table, after any sequence of \<open>WriteEntry\<close> and \<open>Prune\<close> calls, with any
  pattern of database failures, whose transactions start in the order in which they take the chain
  lock, \<open>VerifyChain\<close> reports an intact chain.\<close>

theorem audit_runs_verify:
  assumes "legal_run (audit_step jt) in_time_order ops empty_audit_db"
  shows "vr_ok (fst (VerifyChain jt no_verify_faults (fold (audit_step jt) ops empty_audit_db)))"
  using audit_log.run_inv [OF log_inv_empty assms]
  by (simp add: VerifyChain_ok_iff log_inv_def chain_inv_def)

theorem audit_runs_verify_witness:
  "vr_ok (fst (VerifyChain (\<lambda>b. b) no_verify_faults
     (fold (audit_step (\<lambda>b. b))
        [sample_write ''o1'' 1000, sample_write ''o2'' 5000, Op_prune (no_prune_faults 9000) 6000]
        empty_audit_db)))"
  by (rule audit_runs_verify) (simp add: sample_simps)

text \<open>C2. Tamper evidence.  Two logs that both pass \<open>VerifyChain\<close>, continue from the same anchor hash,
  have the same number of rows and end in the same digest agree on every hashed column of every row,
  unless two of their rows have different hash inputs with the same SHA-256 digest.\<close>

theorem tamper_evidence:
  assumes "vr_ok (fst (VerifyChain jt e1 a))" "vr_ok (fst (VerifyChain jt e2 b))"
    and "chain_base a = chain_base b" "length (logs a) = length (logs b)"
    and "chainHead None a = chainHead None b"
  shows "map (row_fields jt) (order_by_seq (logs a)) = map (row_fields jt) (order_by_seq (logs b)) \<or>
     (\<exists>x \<in> set (logs a). \<exists>y \<in> set (logs b).
        hash_preimage (row_fields jt x) \<noteq> hash_preimage (row_fields jt y)
        \<and> sha256 (hash_preimage (row_fields jt x)) = sha256 (hash_preimage (row_fields jt y)))"
proof (cases "logs a = []")
  case True
  with assms(4) show ?thesis by (simp add: order_by_seq_def)
next
  case False
  then have nb: "logs b \<noteq> []" using assms(4) by auto
  have "intact jt a" "intact jt b" using assms(1,2) by (simp_all add: VerifyChain_ok_iff)
  with assms(3,5) False nb intact_chainHead [of jt a] intact_chainHead [of jt b]
  have "end_hash jt (chain_base a) (order_by_seq (logs a)) = end_hash jt (chain_base a) (order_by_seq (logs b))"
    by simp
  with \<open>intact jt a\<close> \<open>intact jt b\<close> assms(3,4)
    linked_same_end [of "order_by_seq (logs a)" "order_by_seq (logs b)" jt "chain_base a"]
  show ?thesis by (simp add: intact_def)
qed

text \<open>The witness: the organisation of a row is not among the hashed columns, so the logs of two
  organisations end in the same digest.\<close>

theorem tamper_evidence_witness:
  "map (row_fields (\<lambda>b. b)) (order_by_seq (logs (sample_log ''o1'')))
     = map (row_fields (\<lambda>b. b)) (order_by_seq (logs (sample_log ''o2''))) \<or>
     (\<exists>x \<in> set (logs (sample_log ''o1'')). \<exists>y \<in> set (logs (sample_log ''o2'')).
        hash_preimage (row_fields (\<lambda>b. b) x) \<noteq> hash_preimage (row_fields (\<lambda>b. b) y)
        \<and> sha256 (hash_preimage (row_fields (\<lambda>b. b) x)) = sha256 (hash_preimage (row_fields (\<lambda>b. b) y)))"
proof (rule tamper_evidence [where ?e1.0 = no_verify_faults and ?e2.0 = no_verify_faults])
  show "vr_ok (fst (VerifyChain (\<lambda>b. b) no_verify_faults (sample_log ''o1'')))"
    "vr_ok (fst (VerifyChain (\<lambda>b. b) no_verify_faults (sample_log ''o2'')))"
    using log_inv_sample by (simp_all add: VerifyChain_ok_iff log_inv_def chain_inv_def)
qed (simp_all add: sample_simps chain_base_def)

text \<open>Pruning keeps what is left verifiable when creation times do not decrease along the chain:
  the retained suffix hangs on the anchor that the prune wrote, and the prune entry extends it,
  whatever database calls fail.\<close>

theorem prune_keeps_chain:
  assumes "chain_inv jt db" "time_ordered db"
  shows "vr_ok (fst (VerifyChain jt no_verify_faults (snd (Prune jt env retainFor db))))"
  using Prune_chain_inv [OF assms] by (simp add: VerifyChain_ok_iff chain_inv_def)

theorem prune_keeps_chain_witness:
  "vr_ok (fst (VerifyChain (\<lambda>b. b) no_verify_faults
     (snd (Prune (\<lambda>b. b) (no_prune_faults 9000) 6000 (sample_log ''o1'')))))"
  by (rule prune_keeps_chain) (use log_inv_sample in \<open>auto simp: log_inv_def\<close>)

text \<open>What a prune without database failures does: it deletes exactly the rows created before the
  cutoff, returns their number, and appends one entry when there were any.\<close>

theorem prune_effect:
  assumes "retainFor > 0"
  shows "\<exists>entry. length entry = (if rows_affected (\<lambda>r. al_created r < pg_timestamp (now - retainFor)) (logs db) = 0 then 0 else 1)
     \<and> fst (Prune jt (no_prune_faults now) retainFor db)
         = Inr (rows_affected (\<lambda>r. al_created r < pg_timestamp (now - retainFor)) (logs db))
     \<and> logs (snd (Prune jt (no_prune_faults now) retainFor db))
         = delete_where (\<lambda>r. al_created r < pg_timestamp (now - retainFor)) (logs db) @ entry"
proof -
  let ?c = "now - retainFor"
  let ?first = "select_one None (\<lambda>r. al_created r \<ge> pg_timestamp ?c) (order_by_seq (logs db))"
  let ?n = "rows_affected (\<lambda>r. al_created r < pg_timestamp ?c) (logs db)"
  let ?db1 = "db\<lparr>logs := delete_where (\<lambda>r. al_created r < pg_timestamp ?c) (logs db)\<rparr>"
  have P: "Prune jt (no_prune_faults now) retainFor db =
      (if ?n > 0 then prune_record jt (no_prune_faults now) ?c ?n ?first db ?db1 else (Inr ?n, ?db1))"
    using assms by (cases ?first) (simp_all add: Prune_def Let_def no_prune_faults_def)
  have head: "\<exists>h. chainHead None d = Inr h" for d
    by (auto simp: chainHead_def split: list.splits option.splits)
  have "\<exists>r. prune_record jt (no_prune_faults now) ?c ?n ?first db ?db1 =
      (Inr ?n, (pruned_db (pg_timestamp ?c) db)\<lparr>next_seq := next_seq db + 1,
         logs := logs (pruned_db (pg_timestamp ?c) db) @ [r]\<rparr>)"
    using head [of "pruned_db (pg_timestamp ?c) db"]
    by (auto simp: prune_record_def prune_entry_def no_prune_faults_def no_write_faults_def WriteEntry_def
        Let_def DefaultOrgID_def pruned_db_def)
  then show ?thesis unfolding P by (auto simp: pruned_db_def intro: exI [of _ "[]"])
qed

theorem prune_effect_witness:
  "\<exists>entry. length entry = (if rows_affected (\<lambda>r. al_created r < pg_timestamp (9000 - 6000)) (logs (sample_log ''o1'')) = 0 then 0 else 1)
     \<and> fst (Prune (\<lambda>b. b) (no_prune_faults 9000) 6000 (sample_log ''o1''))
         = Inr (rows_affected (\<lambda>r. al_created r < pg_timestamp (9000 - 6000)) (logs (sample_log ''o1'')))
     \<and> logs (snd (Prune (\<lambda>b. b) (no_prune_faults 9000) 6000 (sample_log ''o1'')))
         = delete_where (\<lambda>r. al_created r < pg_timestamp (9000 - 6000)) (logs (sample_log ''o1'')) @ entry"
  by (rule prune_effect) simp

text \<open>The digest of the sample entry after a given one.\<close>

definition sample_hash :: "string \<Rightarrow> string" where
  "sample_hash prev = computeHash ''alice'' ''user.onboard'' ''user'' ''u1'' ''{}'' prev"

definition late_log :: audit_db where
  "late_log = fold (audit_step (\<lambda>b. b))
     [sample_write ''o1'' 10000, sample_write ''o1'' 5000, sample_write ''o1'' 20000] empty_audit_db"

text \<open>The order of creation times matters.  \<open>created_at\<close> is the start of the writing transaction and
  \<open>seq\<close> is taken under the chain lock, so a transaction that starts early and writes late leaves an
  older row behind a newer one.  The log with creation times 10, 5, 20 verifies; a prune whose cutoff
  lies between 5 and 10 deletes the row in the middle, and the rest verifies only if the first two
  digests of the chain collide.\<close>

theorem prune_can_break_chain:
  "vr_ok (fst (VerifyChain (\<lambda>b. b) no_verify_faults late_log)) \<and>
   (vr_ok (fst (VerifyChain (\<lambda>b. b) no_verify_faults
        (snd (Prune (\<lambda>b. b) (no_prune_faults 22000) 14000 late_log))))
     \<longleftrightarrow> sample_hash (sample_hash []) = sample_hash [])"
proof
  have "chain_inv (\<lambda>b. b) late_log"
    unfolding late_log_def sample_write_def using log_inv_empty
    by (auto simp: log_inv_def intro!: WriteEntry_chain_inv)
  then show "vr_ok (fst (VerifyChain (\<lambda>b. b) no_verify_faults late_log))"
    by (simp add: VerifyChain_ok_iff chain_inv_def)
  show "vr_ok (fst (VerifyChain (\<lambda>b. b) no_verify_faults
        (snd (Prune (\<lambda>b. b) (no_prune_faults 22000) 14000 late_log))))
     \<longleftrightarrow> sample_hash (sample_hash []) = sample_hash []"
    by (auto simp add: VerifyChain_ok_iff intact_def anchored_def chain_base_def late_log_def sample_simps
        Prune_def prune_record_def prune_entry_def DefaultOrgID_def select_one_def rows_affected_def
        delete_where_def expected_hash_def details_text_def coalesce_def sample_hash_def)
qed

end
