(* ===== verification/Go_Regexp.thy ===== *)
theory Go_Regexp
  imports Go_Prelude
begin

text \<open>
  Anchored regular expressions over bytes, as the package \<open>regexp\<close> matches the patterns
  \<open>^...$\<close> of the backend: an executable matcher by derivatives and the language it decides.
\<close>

datatype regex =
    Never
  | Eps
  | Cls "char \<Rightarrow> bool"
  | Seq regex regex
  | Alt regex regex
  | Star regex

primrec nullable :: "regex \<Rightarrow> bool" where
  "nullable Never = False"
| "nullable Eps = True"
| "nullable (Cls p) = False"
| "nullable (Seq r s) = (nullable r \<and> nullable s)"
| "nullable (Alt r s) = (nullable r \<or> nullable s)"
| "nullable (Star r) = True"

primrec derive :: "char \<Rightarrow> regex \<Rightarrow> regex" where
  "derive c Never = Never"
| "derive c Eps = Never"
| "derive c (Cls p) = (if p c then Eps else Never)"
| "derive c (Seq r s) = (if nullable r then Alt (Seq (derive c r) s) (derive c s) else Seq (derive c r) s)"
| "derive c (Alt r s) = Alt (derive c r) (derive c s)"
| "derive c (Star r) = Seq (derive c r) (Star r)"

definition MatchString :: "regex \<Rightarrow> string \<Rightarrow> bool" where
  "MatchString r s = nullable (fold derive s r)"

definition Plus :: "regex \<Rightarrow> regex" where
  "Plus r = Seq r (Star r)"

primrec Times :: "nat \<Rightarrow> regex \<Rightarrow> regex" where
  "Times 0 r = Eps"
| "Times (Suc n) r = Seq r (Times n r)"

definition Lit :: "char \<Rightarrow> regex" where
  "Lit a = Cls (\<lambda>c. c = a)"

section \<open>The language of a pattern\<close>

inductive matches :: "regex \<Rightarrow> string \<Rightarrow> bool" where
  m_eps: "matches Eps []"
| m_cls: "p c \<Longrightarrow> matches (Cls p) [c]"
| m_seq: "matches r u \<Longrightarrow> matches s v \<Longrightarrow> matches (Seq r s) (u @ v)"
| m_alt1: "matches r u \<Longrightarrow> matches (Alt r s) u"
| m_alt2: "matches s u \<Longrightarrow> matches (Alt r s) u"
| m_star0: "matches (Star r) []"
| m_star: "matches r u \<Longrightarrow> matches (Star r) v \<Longrightarrow> matches (Star r) (u @ v)"

inductive_simps matches_Never [simp]: "matches Never s"
inductive_simps matches_Eps [simp]: "matches Eps s"
inductive_simps matches_Cls [simp]: "matches (Cls p) s"
inductive_simps matches_Seq [simp]: "matches (Seq r q) s"
inductive_simps matches_Alt [simp]: "matches (Alt r q) s"

lemma nullable_iff: "nullable r \<longleftrightarrow> matches r []"
  by (induction r) (auto intro: matches.intros)

lemma star_Cons_D:
  assumes "matches (Star r) w" "w = c # s"
  shows "\<exists>u v. s = u @ v \<and> matches r (c # u) \<and> matches (Star r) v"
  using assms
proof (induction "Star r" w arbitrary: s rule: matches.induct)
  case m_star0
  then show ?case by simp
next
  case (m_star u v)
  then show ?case by (cases u) auto
qed

lemma star_Cons_iff:
  "matches (Star r) (c # s) \<longleftrightarrow> (\<exists>u v. s = u @ v \<and> matches r (c # u) \<and> matches (Star r) v)"
  using star_Cons_D m_star by (metis append_Cons)

lemma seq_Cons_iff:
  "matches (Seq r q) (c # s) \<longleftrightarrow>
     (\<exists>u v. s = u @ v \<and> matches r (c # u) \<and> matches q v) \<or> (matches r [] \<and> matches q (c # s))"
  by (auto simp: Cons_eq_append_conv)

lemma derive_iff: "matches (derive c r) s \<longleftrightarrow> matches r (c # s)"
proof (induction r arbitrary: s)
  case (Seq r1 r2)
  then show ?case
    using seq_Cons_iff [of r1 r2 c s] by (auto simp: nullable_iff simp del: matches_Seq) (auto)
next
  case (Star r)
  then show ?case by (auto simp: star_Cons_iff)
qed auto

lemma MatchString_iff: "MatchString r s \<longleftrightarrow> matches r s"
  unfolding MatchString_def
  by (induction s arbitrary: r) (auto simp: nullable_iff derive_iff)

lemma matches_Star_Cls: "matches (Star (Cls p)) s \<longleftrightarrow> list_all p s"
  by (induction s) (auto simp: star_Cons_iff intro: m_star0)

lemma matches_Seq_Cls:
  "matches (Seq (Cls p) q) s \<longleftrightarrow> (case s of [] \<Rightarrow> False | c # v \<Rightarrow> p c \<and> matches q v)"
proof (cases s)
  case (Cons c v)
  then show ?thesis by (auto simp: seq_Cons_iff simp del: matches_Seq)
qed simp

lemma matches_Plus_Cls: "matches (Plus (Cls p)) s \<longleftrightarrow> s \<noteq> [] \<and> list_all p s"
  unfolding Plus_def by (cases s) (simp_all add: matches_Seq_Cls matches_Star_Cls del: matches_Seq)

lemma matches_Times_Cls: "matches (Times n (Cls p)) s \<longleftrightarrow> length s = n \<and> list_all p s"
proof (induction n arbitrary: s)
  case (Suc n)
  then show ?case by (cases s) (auto simp: matches_Seq_Cls simp del: matches_Seq)
qed auto

text \<open>A first part of fixed length splits the input at that length.\<close>

lemma matches_Seq_fixed:
  assumes "\<And>u. matches r u \<Longrightarrow> length u = n"
  shows "matches (Seq r q) s \<longleftrightarrow> matches r (take n s) \<and> matches q (drop n s)"
proof
  assume "matches (Seq r q) s"
  then obtain u v where "s = u @ v" "matches r u" "matches q v" by auto
  with assms show "matches r (take n s) \<and> matches q (drop n s)" by auto
next
  assume "matches r (take n s) \<and> matches q (drop n s)"
  then show "matches (Seq r q) s" by (metis append_take_drop_id m_seq)
qed

lemma matches_Lit [simp]: "matches (Lit a) s \<longleftrightarrow> s = [a]"
  by (auto simp: Lit_def)

end
