(* ===== verification/Validators.thy ===== *)
theory Validators
  imports Go_Regexp
begin

text \<open>
  The input checks of the handlers: \<open>internal/handlers/validators.go\<close>, \<open>isValidUUID\<close> and
  \<open>isValidEmail\<close> of \<open>helpers.go\<close>, \<open>isValidOrgID\<close> of \<open>internal/middleware/org.go\<close>,
  \<open>ValidateFleetTeamDisplayName\<close> of \<open>device_policy.go\<close>, the slug pattern of \<open>orgs.go\<close> and the
  bounded paging of \<open>pagination.go\<close>.  The Go errors are one constructor per message.
\<close>

datatype id_error =
    Id_required
  | Id_too_long
  | Id_path_like
  | Id_hidden
  | Id_control
  | Id_not_uuid
  | Id_not_positive

text \<open>The messages, which name the field.\<close>

fun id_error_text :: "string \<Rightarrow> id_error \<Rightarrow> string" where
  "id_error_text field Id_required = field @ '' is required''"
| "id_error_text field Id_too_long = field @ '' too long''"
| "id_error_text field Id_path_like = field @ '' must not contain path separators or '' @ [CHR 0x27] @ ''..'' @ [CHR 0x27]"
| "id_error_text field Id_hidden = field @ '' must not start with '' @ [CHR 0x27] @ ''.'' @ [CHR 0x27]"
| "id_error_text field Id_control = field @ '' must not contain control characters''"
| "id_error_text field Id_not_uuid = field @ '' must be a valid UUID''"
| "id_error_text field Id_not_positive = field @ '' must be a positive integer''"

definition path_like :: "string \<Rightarrow> bool" where
  "path_like s \<longleftrightarrow> contains_any [CHR 0x2F, CHR 0x5C] s \<or> str_contains ''..'' s"

definition hex_class :: regex where
  "hex_class = Cls is_hex"

definition uuidPattern :: regex where
  "uuidPattern = Seq (Times 8 hex_class) (Seq (Lit (CHR ''-'')) (Seq (Times 4 hex_class) (Seq (Lit (CHR ''-''))
     (Seq (Times 4 hex_class) (Seq (Lit (CHR ''-'')) (Seq (Times 4 hex_class) (Seq (Lit (CHR ''-''))
     (Times 12 hex_class))))))))"

definition isValidUUID :: "string \<Rightarrow> bool" where
  "isValidUUID s = MatchString uuidPattern s"

text \<open>The class \<open>[^@\s]\<close>: \<open>\s\<close> is tab, newline, form feed, carriage return and space.\<close>

definition email_char :: "char \<Rightarrow> bool" where
  "email_char c \<longleftrightarrow> byte c \<notin> {64, 9, 10, 12, 13, 32}"

definition emailPattern :: regex where
  "emailPattern = Seq (Plus (Cls email_char)) (Seq (Lit (CHR ''@'')) (Seq (Plus (Cls email_char))
     (Seq (Lit (CHR ''.'')) (Plus (Cls email_char)))))"

definition isValidEmail :: "string \<Rightarrow> bool" where
  "isValidEmail s \<longleftrightarrow> length s \<le> 254 \<and> MatchString emailPattern s"

definition slug_char :: "char \<Rightarrow> bool" where
  "slug_char c \<longleftrightarrow> is_digit c \<or> (97 \<le> byte c \<and> byte c \<le> 122)"

definition slugPattern :: regex where
  "slugPattern = Seq (Plus (Cls slug_char)) (Star (Seq (Lit (CHR ''-'')) (Plus (Cls slug_char))))"

text \<open>The loop of \<open>isValidOrgID\<close> over the byte positions.\<close>

definition isValidOrgID :: "string \<Rightarrow> bool" where
  "isValidOrgID s \<longleftrightarrow> length s = 36 \<and>
     list_all (\<lambda>i. if i \<in> {8, 13, 18, 23} then s ! i = CHR ''-'' else is_hex (s ! i)) [0..<36]"

definition ValidatePolicyID :: "string \<Rightarrow> id_error option" where
  "ValidatePolicyID raw =
     (let s = trim_space raw in
      if s = [] then Some Id_required
      else if length s > 128 then Some Id_too_long
      else if path_like s then Some Id_path_like
      else if list_ex is_control s then Some Id_control
      else None)"

definition ValidateHostID :: "string \<Rightarrow> id_error option" where
  "ValidateHostID raw =
     (let s = trim_space raw in
      if s = [] then Some Id_required
      else if length s > 256 then Some Id_too_long
      else if path_like s then Some Id_path_like
      else if has_prefix ''.'' s then Some Id_hidden
      else if list_ex is_control s then Some Id_control
      else None)"

definition ValidateTeamDescription :: "string \<Rightarrow> id_error option" where
  "ValidateTeamDescription s =
     (if length s > 500 then Some Id_too_long
      else if list_ex is_control s then Some Id_control
      else None)"

text \<open>The field name only enters the message.\<close>

definition ValidateOpaqueID :: "string \<Rightarrow> string \<Rightarrow> (string \<times> id_error) option" where
  "ValidateOpaqueID raw field =
     (let s = trim_space raw; field = (if field = [] then ''id'' else field) in
      if s = [] then Some (field, Id_required)
      else if length s > 128 then Some (field, Id_too_long)
      else if path_like s then Some (field, Id_path_like)
      else if list_ex is_control s then Some (field, Id_control)
      else None)"

definition ValidateUserID :: "string \<Rightarrow> id_error option" where
  "ValidateUserID raw =
     (let s = trim_space raw in
      if s = [] then Some Id_required
      else if length s > 64 then Some Id_too_long
      else if path_like s then Some Id_path_like
      else if list_ex is_control s then Some Id_control
      else if \<not> isValidUUID s then Some Id_not_uuid
      else None)"

definition ValidateFleetTeamDisplayName :: "string \<Rightarrow> id_error option" where
  "ValidateFleetTeamDisplayName s =
     (if s = [] then Some Id_required
      else if contains_any [CHR 0x2F, CHR 0x5C] s then Some Id_path_like
      else if str_contains ''..'' s then Some Id_path_like
      else if list_ex is_control s then Some Id_control
      else None)"

text \<open>The digit loop of \<open>ParsePositiveTeamID\<close>, which stops at the first byte that is not a digit.\<close>

fun team_digits :: "nat \<Rightarrow> string \<Rightarrow> nat option" where
  "team_digits n [] = Some n"
| "team_digits n (c # s) = (if \<not> is_digit c then None else team_digits (n * 10 + digit_val c) s)"

definition ParsePositiveTeamID :: "string \<Rightarrow> id_error + nat" where
  "ParsePositiveTeamID raw =
     (let s = trim_space raw in
      if s = [] then Inl Id_required
      else if length s > 9 then Inl Id_not_positive
      else case team_digits 0 s of
             None \<Rightarrow> Inl Id_not_positive
           | Some n \<Rightarrow> if n = 0 then Inl Id_not_positive else Inr n)"

definition maxListLimit :: int where "maxListLimit = 1000"
definition maxListOffset :: int where "maxListOffset = 100000"

definition positive_param :: "string \<Rightarrow> int \<Rightarrow> int" where
  "positive_param v d =
     (if v \<noteq> [] then (case parse_int64 v of Some n \<Rightarrow> if n > 0 then n else d | None \<Rightarrow> d) else d)"

definition listPageParams :: "string \<Rightarrow> string \<Rightarrow> int \<Rightarrow> int \<times> int" where
  "listPageParams limit_q offset_q defLimit =
     (min (positive_param limit_q defLimit) maxListLimit, min (positive_param offset_q 0) maxListOffset)"

section \<open>UUIDs\<close>

lemma matches_uuid_iff:
  "matches uuidPattern s \<longleftrightarrow>
     length s = 36 \<and> list_all is_hex (take 8 s) \<and> s ! 8 = CHR ''-'' \<and> list_all is_hex (take 4 (drop 9 s))
     \<and> s ! 13 = CHR ''-'' \<and> list_all is_hex (take 4 (drop 14 s)) \<and> s ! 18 = CHR ''-''
     \<and> list_all is_hex (take 4 (drop 19 s)) \<and> s ! 23 = CHR ''-'' \<and> list_all is_hex (drop 24 s)"
proof -
  have t: "matches (Seq (Times n hex_class) q) s \<longleftrightarrow> n \<le> length s \<and> list_all is_hex (take n s) \<and> matches q (drop n s)"
    for n q s
    using matches_Seq_fixed [of "Times n hex_class" n q s]
    by (auto simp: hex_class_def matches_Times_Cls min_def simp del: matches_Seq split: if_splits)
  have l: "matches (Seq (Lit a) q) s \<longleftrightarrow> s \<noteq> [] \<and> s ! 0 = a \<and> matches q (drop 1 s)" for a q s
    using matches_Seq_Cls [of "\<lambda>c. c = a" q s] by (cases s) (auto simp: Lit_def simp del: matches_Seq)
  show ?thesis
    unfolding uuidPattern_def t l
    by (auto simp: hex_class_def matches_Times_Cls not_le simp del: matches_Seq)
qed

lemma isValidUUID_iff_OrgID: "isValidUUID s \<longleftrightarrow> isValidOrgID s"
proof (cases "length s = 36")
  case True
  then have "length s =
      Suc (Suc (Suc (Suc (Suc (Suc (Suc (Suc (Suc (Suc (Suc (Suc (Suc (Suc (Suc (Suc (Suc (Suc
     (Suc (Suc (Suc (Suc (Suc (Suc (Suc (Suc (Suc (Suc (Suc (Suc (Suc (Suc (Suc (Suc (Suc (Suc 0)))))))))))))))))))))))))))))))))))"
    by simp
  then show ?thesis
    unfolding isValidUUID_def MatchString_iff matches_uuid_iff isValidOrgID_def
    by (auto simp: length_Suc_conv upt_rec)
next
  case False
  then show ?thesis
    by (simp add: isValidUUID_def MatchString_iff matches_uuid_iff isValidOrgID_def)
qed

lemma uuid_chars:
  assumes "isValidUUID s"
  shows "length s = 36" "\<forall>c \<in> set s. is_hex c \<or> c = CHR ''-''"
proof -
  have "isValidOrgID s" using assms by (simp add: isValidUUID_iff_OrgID)
  then have *: "length s = 36" "\<forall>i<36. if i \<in> {8, 13, 18, 23} then s ! i = CHR ''-'' else is_hex (s ! i)"
    by (auto simp: isValidOrgID_def list_all_iff simp del: upt_rec_numeral)
  then show "length s = 36" by simp
  show "\<forall>c \<in> set s. is_hex c \<or> c = CHR ''-''"
  proof
    fix c
    assume "c \<in> set s"
    then obtain i where "i < 36" "s ! i = c" using *(1) by (metis in_set_conv_nth)
    with *(2) have "if i \<in> {8, 13, 18, 23} then c = CHR ''-'' else is_hex c" by blast
    then show "is_hex c \<or> c = CHR ''-''" by (simp split: if_splits)
  qed
qed

lemma uuid_char_graphic: "is_hex c \<or> c = CHR ''-'' \<Longrightarrow> graphic c \<and> c \<noteq> CHR 0x2F \<and> c \<noteq> CHR 0x5C \<and> c \<noteq> CHR ''.''"
  by (auto simp: is_hex_def is_digit_def graphic_def)

lemma path_like_char:
  "path_like s \<Longrightarrow> \<exists>c \<in> set s. c = CHR 0x2F \<or> c = CHR 0x5C \<or> c = CHR ''.''"
proof -
  assume "path_like s"
  then consider "\<exists>c \<in> set s. c \<in> set [CHR 0x2F, CHR 0x5C]" | a b where "s = a @ ''..'' @ b"
    unfolding path_like_def contains_any_def list_ex_iff str_contains_iff by blast
  then show ?thesis by cases auto
qed

lemma uuid_trimmed: "isValidUUID s \<Longrightarrow> trim_space s = s"
proof -
  assume u: "isValidUUID s"
  have "s \<noteq> []" using uuid_chars(1) [OF u] by auto
  moreover have "\<forall>c \<in> set s. graphic c" using uuid_chars(2) [OF u] uuid_char_graphic by blast
  ultimately show ?thesis by (intro trim_space_graphic) simp_all
qed

section \<open>Paths\<close>

lemma not_path_like_split: "\<not> path_like s \<Longrightarrow> split_on (CHR 0x2F) s = [s]"
  by (rule split_on_plain) (auto simp: path_like_def contains_any_def list_ex_iff)

lemma split_on_snoc:
  "split_on sep (a @ sep # b) = split_on sep a @ split_on sep b"
  by (induction a) (auto split: list.splits)

section \<open>Slugs and e-mail addresses\<close>

lemma slug_tail_iff:
  "matches (Star (Seq (Lit (CHR ''-'')) (Plus (Cls slug_char)))) s \<longleftrightarrow>
     s = [] \<or> (\<exists>t. s = CHR ''-'' # t \<and> list_all (\<lambda>f. f \<noteq> [] \<and> list_all slug_char f) (split_on (CHR ''-'') t))"
  (is "?M s \<longleftrightarrow> ?R s")
proof -
  have dash: "\<not> slug_char (CHR ''-'')" by (simp add: slug_char_def is_digit_def byte_def)
  then have nodash: "list_all slug_char f \<Longrightarrow> CHR ''-'' \<notin> set f" for f by (auto simp: list_all_iff)
  have "?M s \<Longrightarrow> ?R s"
  proof (induction "Star (Seq (Lit (CHR ''-'')) (Plus (Cls slug_char)))" s rule: matches.induct)
    case m_star0
    then show ?case by simp
  next
    case (m_star u v)
    then obtain f where u: "u = CHR ''-'' # f" "f \<noteq> []" "list_all slug_char f"
      by (auto simp: matches_Plus_Cls)
    with m_star nodash [of f] show ?case
      by (auto simp: split_on_append split_on_plain)
  qed
  moreover have "?M (CHR ''-'' # t)" if "list_all (\<lambda>f. f \<noteq> [] \<and> list_all slug_char f) (split_on (CHR ''-'') t)" for t
    using that
  proof (induction "length t" arbitrary: t rule: less_induct)
    case less
    show ?case
    proof (cases "CHR ''-'' \<in> set t")
      case False
      with less.prems have "matches (Seq (Lit (CHR ''-'')) (Plus (Cls slug_char))) (CHR ''-'' # t)"
        by (auto simp: split_on_plain matches_Plus_Cls intro!: exI [of _ "[CHR ''-'']"])
      from m_star [OF this m_star0] show ?thesis by simp
    next
      case True
      then obtain f r where t: "t = f @ CHR ''-'' # r" "CHR ''-'' \<notin> set f" by (metis split_list_first)
      with less.prems have f: "f \<noteq> []" "list_all slug_char f" by (auto simp: split_on_append)
      then have "matches (Seq (Lit (CHR ''-'')) (Plus (Cls slug_char))) (CHR ''-'' # f)"
        by (auto simp: matches_Plus_Cls intro!: exI [of _ "[CHR ''-'']"])
      moreover have "?M (CHR ''-'' # r)" using less t by (auto simp: split_on_append)
      ultimately show ?thesis using m_star by (fastforce simp: t(1))
    qed
  qed
  ultimately show ?thesis using m_star0 by auto
qed

lemma slug_iff:
  "MatchString slugPattern s \<longleftrightarrow> list_all (\<lambda>f. f \<noteq> [] \<and> list_all slug_char f) (split_on (CHR ''-'') s)"
proof
  assume "MatchString slugPattern s"
  then obtain u v where s: "s = u @ v" "u \<noteq> []" "list_all slug_char u"
    and v: "matches (Star (Seq (Lit (CHR ''-'')) (Plus (Cls slug_char)))) v"
    by (auto simp: MatchString_iff slugPattern_def matches_Plus_Cls)
  have "CHR ''-'' \<notin> set u"
    using s(3) by (auto simp: list_all_iff slug_char_def is_digit_def)
  with s v show "list_all (\<lambda>f. f \<noteq> [] \<and> list_all slug_char f) (split_on (CHR ''-'') s)"
    by (auto simp: slug_tail_iff split_on_plain split_on_append)
next
  assume a: "list_all (\<lambda>f. f \<noteq> [] \<and> list_all slug_char f) (split_on (CHR ''-'') s)"
  show "MatchString slugPattern s"
  proof (cases "CHR ''-'' \<in> set s")
    case False
    with a have "matches (Plus (Cls slug_char)) s" by (simp add: split_on_plain matches_Plus_Cls)
    from m_seq [OF this m_star0] show ?thesis by (simp add: MatchString_iff slugPattern_def)
  next
    case True
    then obtain f r where s: "s = f @ CHR ''-'' # r" "CHR ''-'' \<notin> set f" by (metis split_list_first)
    with a have "matches (Plus (Cls slug_char)) f"
      "matches (Star (Seq (Lit (CHR ''-'')) (Plus (Cls slug_char)))) (CHR ''-'' # r)"
      by (auto simp: split_on_append matches_Plus_Cls slug_tail_iff)
    from m_seq [OF this] show ?thesis by (simp add: MatchString_iff slugPattern_def s(1))
  qed
qed

section \<open>Team ids\<close>

lemma team_digits_iff:
  "team_digits n s = (if list_all is_digit s then Some (foldl (\<lambda>n c. n * 10 + digit_val c) n s) else None)"
  by (induction s arbitrary: n) auto

lemma digit_val_le: "is_digit c \<Longrightarrow> digit_val c \<le> 9"
  by (auto simp: is_digit_def digit_val_def)

lemma digits_val_less: "list_all is_digit s \<Longrightarrow> digits_val s < 10 ^ length s"
proof (induction s rule: rev_induct)
  case Nil
  then show ?case by (simp add: digits_val_def)
next
  case (snoc c s)
  then show ?case using digit_val_le [of c] by (simp add: digits_val_def)
qed

lemma length_show_nat: "0 < k \<Longrightarrow> n < 10 ^ k \<Longrightarrow> length (show_nat n) \<le> k"
proof (induction n arbitrary: k rule: show_nat.induct)
  case (1 n)
  show ?case
  proof (cases "n < 10")
    case True
    with 1 show ?thesis by (subst show_nat.simps) simp
  next
    case False
    with 1(3) obtain j where k: "k = Suc j" "0 < j"
      by (cases k) (auto, metis False gr0I power_0 mult.right_neutral)
    with 1(3) have "n div 10 < 10 ^ j" by auto
    from 1(1) [OF False k(2) this] False k show ?thesis by (subst show_nat.simps) simp
  qed
qed

lemma show_nat_trimmed: "trim_space (show_nat n) = show_nat n"
proof (rule trim_space_graphic)
  have d: "\<And>c. c \<in> set (show_nat n) \<Longrightarrow> graphic c" using show_nat_digits digit_graphic by blast
  show "graphic (hd (show_nat n))" "graphic (last (show_nat n))" by (auto intro!: d)
qed simp

section \<open>Properties of the validators\<close>

text \<open>The two UUID recognisers, the regular expression of \<open>handlers\<close> and the loop over byte positions
  of \<open>middleware\<close>, accept the same strings, and \<open>ValidateUserID\<close> accepts exactly the strings whose
  trimmed text they accept: its length, separator and control checks exclude nothing more.\<close>

theorem user_id_is_uuid:
  "(isValidOrgID s \<longleftrightarrow> isValidUUID s) \<and> (ValidateUserID s = None \<longleftrightarrow> isValidUUID (trim_space s))"
proof -
  have "trim_space s \<noteq> [] \<and> length (trim_space s) \<le> 64 \<and> \<not> path_like (trim_space s) \<and> \<not> list_ex is_control (trim_space s)"
    if u: "isValidUUID (trim_space s)"
  proof -
    have c: "graphic c \<and> c \<noteq> CHR 0x2F \<and> c \<noteq> CHR 0x5C \<and> c \<noteq> CHR ''.''" if "c \<in> set (trim_space s)" for c
      using uuid_chars(2) [OF u] that uuid_char_graphic [of c] by blast
    have "\<not> path_like (trim_space s)" using path_like_char [of "trim_space s"] c by blast
    moreover have "\<not> list_ex is_control (trim_space s)"
      using c graphic_not_control unfolding list_ex_iff by blast
    ultimately show ?thesis using uuid_chars(1) [OF u] by auto
  qed
  then show ?thesis by (auto simp: isValidUUID_iff_OrgID ValidateUserID_def Let_def)
qed

text \<open>An accepted host id is one path segment: put after a slash it adds exactly that segment to a
  path, and it is neither empty, nor a dot segment, nor hidden, nor carries control bytes.\<close>

theorem host_id_path_safe:
  assumes "ValidateHostID raw = None"
  shows "split_on (CHR 0x2F) (base @ CHR 0x2F # trim_space raw) = split_on (CHR 0x2F) base @ [trim_space raw]
     \<and> trim_space raw \<notin> {[], ''.'', ''..''} \<and> length (trim_space raw) \<le> 256
     \<and> \<not> list_ex is_control (trim_space raw)"
  using assms
  by (auto simp: ValidateHostID_def Let_def split_on_snoc not_path_like_split split: if_splits)

theorem host_id_path_safe_witness:
  "split_on (CHR 0x2F) (''api'' @ CHR 0x2F # trim_space ''host-42'') = split_on (CHR 0x2F) ''api'' @ [trim_space ''host-42'']
     \<and> trim_space ''host-42'' \<notin> {[], ''.'', ''..''} \<and> length (trim_space ''host-42'') \<le> 256
     \<and> \<not> list_ex is_control (trim_space ''host-42'')"
  by (rule host_id_path_safe) code_simp

text \<open>\<open>ParsePositiveTeamID\<close> returns only values from 1 to 999999999, so the accumulation in the
  machine integer never wraps, and every such value is read back from its decimal text.\<close>

lemma team_id_roundtrip:
  "(\<forall>s n. ParsePositiveTeamID s = Inr n \<longrightarrow> 0 < n \<and> n < 10 ^ 9)
   \<and> (\<forall>n. 0 < n \<and> n < 10 ^ 9 \<longrightarrow> ParsePositiveTeamID (show_nat n) = Inr n)"
proof (intro conjI allI impI)
  fix s n
  assume p: "ParsePositiveTeamID s = Inr n"
  let ?t = "trim_space s"
  from p have l: "length ?t \<le> 9" and d: "list_all is_digit ?t" and n: "n = digits_val ?t" "0 < n"
    by (auto simp: ParsePositiveTeamID_def Let_def team_digits_iff digits_val_def split: if_splits)
  have "n < 10 ^ length ?t" using digits_val_less [OF d] n by simp
  also have "\<dots> \<le> 10 ^ 9" using l by (intro power_increasing) auto
  finally show "0 < n" "n < 10 ^ 9" using n by auto
next
  fix n :: nat
  assume "0 < n \<and> n < 10 ^ 9"
  moreover have "list_all is_digit (show_nat n)" using show_nat_digits by (simp add: list_all_iff)
  ultimately show "ParsePositiveTeamID (show_nat n) = Inr n"
    using length_show_nat [of 9 n] digits_val_show_nat [of n]
    by (simp add: ParsePositiveTeamID_def Let_def show_nat_trimmed team_digits_iff digits_val_def)
qed

text \<open>Whatever the query string holds, a list endpoint with a positive default asks the database for
  between 1 and 1000 rows at an offset between 0 and 100000.\<close>

lemma page_params_bounded:
  assumes "0 < defLimit"
  shows "\<exists>limit offset. listPageParams l q defLimit = (limit, offset)
     \<and> 1 \<le> limit \<and> limit \<le> 1000 \<and> 0 \<le> offset \<and> offset \<le> 100000"
  using assms
  by (auto simp: listPageParams_def positive_param_def maxListLimit_def maxListOffset_def split: option.splits)

end
