(* ===== verification/Scim_Filter.thy ===== *)
theory Scim_Filter
  imports Go_Prelude
begin

text \<open>
  The SCIM filter language of \<open>internal/handlers/scim_filter.go\<close>: the tokenizer, the
  recursive-descent parser, the evaluator, the flat filter the list handlers use, and the path
  parser.  The parser's position in its token slice is the list of the tokens that are left: once the
  position has passed the end, \<open>peek\<close> answers the empty string and \<open>consume\<close> moves on, which
  no caller can tell from an empty rest.  A nil node is \<^const>\<open>None\<close>; what the parser has consumed when
  it returns nil is never looked at, since nil is returned all the way up.
\<close>

section \<open>Data\<close>

datatype cmp_op = scimOpEq | scimOpNe | scimOpCo | scimOpSw | scimOpPr

text \<open>\<open>SCIMFilterNode\<close>: the operator says which of the fields of the struct are in use.\<close>

datatype scim_node =
    SLeaf string cmp_op string
  | SAnd scim_node scim_node
  | SOr scim_node scim_node
  | SNot scim_node

record scim_filter =
  sf_attr :: string
  sf_op :: string
  sf_value :: string

type_synonym attrs = "string \<Rightarrow> string"

section \<open>Evaluation\<close>

fun Eval :: "scim_node \<Rightarrow> attrs \<Rightarrow> bool" where
  "Eval (SAnd l r) attrs = (Eval l attrs \<and> Eval r attrs)"
| "Eval (SOr l r) attrs = (Eval l attrs \<or> Eval r attrs)"
| "Eval (SNot c) attrs = (\<not> Eval c attrs)"
| "Eval (SLeaf a op v) attrs =
     (let got = to_lower (attrs a); want = to_lower v in
      case op of
        scimOpEq \<Rightarrow> got = want
      | scimOpNe \<Rightarrow> got \<noteq> want
      | scimOpCo \<Rightarrow> str_contains want got
      | scimOpSw \<Rightarrow> has_prefix want got
      | scimOpPr \<Rightarrow> attrs a \<noteq> [])"

text \<open>A nil node is "no filter".\<close>

definition eval_filter :: "scim_node option \<Rightarrow> attrs \<Rightarrow> bool" where
  "eval_filter n attrs = (case n of None \<Rightarrow> True | Some n \<Rightarrow> Eval n attrs)"

section \<open>Tokenizer\<close>

definition blank :: "char \<Rightarrow> bool" where
  "blank c \<longleftrightarrow> c = CHR 0x20 \<or> c = CHR 0x09"

definition paren :: "char \<Rightarrow> bool" where
  "paren c \<longleftrightarrow> c = CHR ''('' \<or> c = CHR '')''"

definition quote :: "char \<Rightarrow> bool" where
  "quote c \<longleftrightarrow> c = CHR 0x22 \<or> c = CHR 0x27"

definition word_char :: "char \<Rightarrow> bool" where
  "word_char c \<longleftrightarrow> \<not> blank c \<and> \<not> paren c"

function scimTokenize :: "string \<Rightarrow> string list" where
  "scimTokenize [] = []"
| "scimTokenize (c # s) =
     (if blank c then scimTokenize s
      else if paren c then [c] # scimTokenize s
      else if quote c then takeWhile (\<lambda>d. d \<noteq> c) s # scimTokenize (drop 1 (dropWhile (\<lambda>d. d \<noteq> c) s))
      else takeWhile word_char (c # s) # scimTokenize (dropWhile word_char (c # s)))"
  by pat_completeness auto
termination
proof (relation "measure length")
  fix c :: char and s
  show "(drop 1 (dropWhile (\<lambda>d. d \<noteq> c) s), c # s) \<in> measure length"
    using length_dropWhile_le [of "\<lambda>d. d \<noteq> c" s] by simp
  assume "\<not> blank c" "\<not> paren c"
  then show "(dropWhile word_char (c # s), c # s) \<in> measure length"
    using length_dropWhile_le [of word_char s] by (simp add: word_char_def)
qed auto

section \<open>Parser\<close>

definition peek :: "string list \<Rightarrow> string" where
  "peek toks = (case toks of [] \<Rightarrow> [] | t # _ \<Rightarrow> t)"

definition trim_quotes :: "string \<Rightarrow> string" where
  "trim_quotes s = rev (dropWhile quote (rev (dropWhile quote s)))"

definition cmp_of :: "string \<Rightarrow> cmp_op option" where
  "cmp_of op =
     (if op = ''eq'' then Some scimOpEq else if op = ''ne'' then Some scimOpNe
      else if op = ''co'' then Some scimOpCo else if op = ''sw'' then Some scimOpSw else None)"

text \<open>The leaf part of \<open>parsePrimary\<close>: the operator and the value after the attribute.\<close>

definition parse_comparison :: "string \<Rightarrow> string list \<Rightarrow> (scim_node \<times> string list) option" where
  "parse_comparison attr toks =
     (let op = to_lower (peek toks) in
      if op = [] then None
      else if op = ''pr'' then Some (SLeaf attr scimOpPr [], tl toks)
      else case cmp_of op of
             None \<Rightarrow> None
           | Some cmp \<Rightarrow>
               (let rest = tl toks; v = peek rest
                in if v = [] then None else Some (SLeaf attr cmp (trim_quotes v), tl rest)))"

text \<open>The loop that re-assembles the tokens of a bracket segment.\<close>

fun bracket_inner :: "string \<Rightarrow> string list \<Rightarrow> string \<times> string list" where
  "bracket_inner inner [] = (inner, [])"
| "bracket_inner inner (t # ts) =
     (if t = '']'' then (inner, ts)
      else if t = [] then (inner, t # ts)
      else bracket_inner (inner @ '' '' @ t) ts)"

definition after_bracket :: "string \<Rightarrow> string" where
  "after_bracket attr = drop 1 (dropWhile (\<lambda>c. c \<noteq> CHR ''['') attr)"

function parseOr :: "string list \<Rightarrow> (scim_node \<times> string list) option"
  and orLoop :: "scim_node \<Rightarrow> string list \<Rightarrow> (scim_node \<times> string list) option"
  and parseAnd :: "string list \<Rightarrow> (scim_node \<times> string list) option"
  and andLoop :: "scim_node \<Rightarrow> string list \<Rightarrow> (scim_node \<times> string list) option"
  and parseUnary :: "string list \<Rightarrow> (scim_node \<times> string list) option"
  and parsePrimary :: "string list \<Rightarrow> (scim_node \<times> string list) option" where
  "parseOr toks = (case parseAnd toks of None \<Rightarrow> None | Some (left, rest) \<Rightarrow> orLoop left rest)"
| "orLoop left toks =
     (if equal_fold (peek toks) ''or''
      then (case parseAnd (tl toks) of None \<Rightarrow> None | Some (right, rest) \<Rightarrow> orLoop (SOr left right) rest)
      else Some (left, toks))"
| "parseAnd toks = (case parseUnary toks of None \<Rightarrow> None | Some (left, rest) \<Rightarrow> andLoop left rest)"
| "andLoop left toks =
     (if equal_fold (peek toks) ''and''
      then (case parseUnary (tl toks) of None \<Rightarrow> None | Some (right, rest) \<Rightarrow> andLoop (SAnd left right) rest)
      else Some (left, toks))"
| "parseUnary toks =
     (if equal_fold (peek toks) ''not''
      then (case parsePrimary (tl toks) of None \<Rightarrow> None | Some (child, rest) \<Rightarrow> Some (SNot child, rest))
      else parsePrimary toks)"
| "parsePrimary toks =
     (if peek toks = ''(''
      then (case parseOr (tl toks) of
              None \<Rightarrow> None
            | Some (node, rest) \<Rightarrow> Some (node, if peek rest = '')'' then tl rest else rest))
      else let attr = to_lower (peek toks) in
      if attr = [] then None
      else if CHR ''['' \<in> set attr
      then (case bracket_inner (after_bracket attr) (tl toks) of
              (inner, rest) \<Rightarrow>
                (case parseOr (scimTokenize inner) of None \<Rightarrow> None | Some (node, _) \<Rightarrow> Some (node, rest)))
      else parse_comparison attr (tl toks))"
  by pat_completeness auto

text \<open>The parser consumes: the number of bytes other than blanks in the remaining tokens never grows, and
  each token taken before a recursive call has one.\<close>

definition solid :: "string \<Rightarrow> nat" where
  "solid s = length (filter (\<lambda>c. c \<noteq> CHR 0x20) s)"

definition weight :: "string list \<Rightarrow> nat" where
  "weight toks = sum_list (map solid toks)"

lemma solid_simps [simp]: "solid [] = 0" "solid (a @ b) = solid a + solid b"
  "solid (c # s) = (if c = CHR 0x20 then 0 else 1) + solid s"
  by (auto simp: solid_def)

lemma weight_simps [simp]: "weight [] = 0" "weight (t # ts) = solid t + weight ts"
  by (auto simp: weight_def)

lemma weight_tl: "weight toks = solid (peek toks) + weight (tl toks)"
  by (cases toks) (auto simp: peek_def)

lemma weight_tl_le: "weight (tl toks) \<le> weight toks"
  using weight_tl [of toks] by simp

lemma solid_to_lower [simp]: "solid (to_lower s) = solid s"
proof (induction s)
  case (Cons c s)
  have "to_lower_char c = CHR 0x20 \<longleftrightarrow> c = CHR 0x20"
    by (auto simp: to_lower_char_def simp flip: byte_inject)
  with Cons show ?case by (simp add: to_lower_def)
qed simp

lemma equal_fold_solid: "equal_fold t k \<Longrightarrow> solid t = solid k"
  unfolding equal_fold_def by (metis solid_to_lower)

lemma solid_split: "solid (takeWhile P s) + solid (dropWhile P s) = solid s"
  by (metis solid_simps(2) takeWhile_dropWhile_id)

lemma solid_drop: "solid (drop n s) \<le> solid s"
  by (metis append_take_drop_id le_add2 solid_simps(2))

lemma weight_tokenize: "weight (scimTokenize s) \<le> solid s"
proof (induction s rule: scimTokenize.induct)
  case 1
  then show ?case by simp
next
  case (2 c s)
  have q: "solid (takeWhile (\<lambda>d. d \<noteq> c) s) + solid (drop 1 (dropWhile (\<lambda>d. d \<noteq> c) s)) \<le> solid s"
    using solid_split [of "\<lambda>d. d \<noteq> c" s] solid_drop [of 1 "dropWhile (\<lambda>d. d \<noteq> c) s"] by linarith
  have w: "solid (takeWhile word_char (c # s)) + solid (dropWhile word_char (c # s)) = solid (c # s)"
    by (rule solid_split)
  consider "blank c" | "\<not> blank c" "paren c" | "\<not> blank c" "\<not> paren c" "quote c"
    | "\<not> blank c" "\<not> paren c" "\<not> quote c" by blast
  then show ?case
  proof cases
    case 1
    then show ?thesis using 2(1) by simp
  next
    case c: 2
    then show ?thesis using 2(2) by auto
  next
    case 3
    then show ?thesis using 2(3) q by auto
  next
    case 4
    then show ?thesis using 2(4) w by (simp del: takeWhile.simps dropWhile.simps solid_simps(3))
  qed
qed

lemma bracket_inner_solid:
  "bracket_inner i ts = (inner, rest) \<Longrightarrow> solid inner + weight rest \<le> solid i + weight ts"
  by (induction i ts rule: bracket_inner.induct) (fastforce split: if_splits)+

lemma solid_after_bracket: "CHR ''['' \<in> set a \<Longrightarrow> solid (after_bracket a) < solid a"
proof (induction a)
  case (Cons c a)
  then show ?case by (auto simp: after_bracket_def)
qed simp

lemma parse_comparison_weight:
  "parse_comparison a toks = Some (n, rest) \<Longrightarrow> weight rest \<le> weight toks"
  using weight_tl_le [of toks] weight_tl_le [of "tl toks"]
  by (auto simp: parse_comparison_def Let_def split: if_splits option.splits)

lemma parse_weight:
  shows "parseOr_orLoop_parseAnd_andLoop_parseUnary_parsePrimary_dom (Inl (Inl toks))
      \<Longrightarrow> parseOr toks = Some (n, rest) \<Longrightarrow> weight rest \<le> weight toks"
    and "parseOr_orLoop_parseAnd_andLoop_parseUnary_parsePrimary_dom (Inl (Inr (Inl (left, toks))))
      \<Longrightarrow> orLoop left toks = Some (n, rest) \<Longrightarrow> weight rest \<le> weight toks"
    and "parseOr_orLoop_parseAnd_andLoop_parseUnary_parsePrimary_dom (Inl (Inr (Inr toks)))
      \<Longrightarrow> parseAnd toks = Some (n, rest) \<Longrightarrow> weight rest \<le> weight toks"
    and "parseOr_orLoop_parseAnd_andLoop_parseUnary_parsePrimary_dom (Inr (Inl (left, toks)))
      \<Longrightarrow> andLoop left toks = Some (n, rest) \<Longrightarrow> weight rest \<le> weight toks"
    and "parseOr_orLoop_parseAnd_andLoop_parseUnary_parsePrimary_dom (Inr (Inr (Inl toks)))
      \<Longrightarrow> parseUnary toks = Some (n, rest) \<Longrightarrow> weight rest \<le> weight toks"
    and "parseOr_orLoop_parseAnd_andLoop_parseUnary_parsePrimary_dom (Inr (Inr (Inr toks)))
      \<Longrightarrow> parsePrimary toks = Some (n, rest) \<Longrightarrow> weight rest \<le> weight toks"
proof (induction arbitrary: n rest and n rest and n rest and n rest and n rest and n rest
    rule: parseOr_orLoop_parseAnd_andLoop_parseUnary_parsePrimary.pinduct)
  case (1 toks)
  then show ?case by (fastforce simp: parseOr.psimps split: option.splits)
next
  case (2 left toks)
  then show ?case using weight_tl_le [of toks]
    by (fastforce simp: orLoop.psimps split: option.splits if_splits)
next
  case (3 toks)
  then show ?case by (fastforce simp: parseAnd.psimps split: option.splits)
next
  case (4 left toks)
  then show ?case using weight_tl_le [of toks]
    by (fastforce simp: andLoop.psimps split: option.splits if_splits)
next
  case (5 toks)
  then show ?case using weight_tl_le [of toks]
    by (fastforce simp: parseUnary.psimps split: option.splits if_splits)
next
  case (6 toks)
  show ?case
  proof (cases "peek toks = ''(''")
    case True
    with 6(1,4) obtain r where r: "parseOr (tl toks) = Some (n, r)" "rest = (if peek r = '')'' then tl r else r)"
      by (auto simp: parsePrimary.psimps split: option.splits)
    have "weight rest \<le> weight r" using weight_tl_le [of r] r(2) by simp
    also have "weight r \<le> weight (tl toks)" using 6(2) [OF True r(1)] .
    also have "\<dots> \<le> weight toks" by (rule weight_tl_le)
    finally show ?thesis .
  next
    case False
    let ?a = "to_lower (peek toks)"
    have w: "solid ?a + weight (tl toks) = weight toks" using weight_tl [of toks] by simp
    show ?thesis
    proof (cases "CHR ''['' \<in> set ?a")
      case True
      obtain inner r where b: "bracket_inner (after_bracket ?a) (tl toks) = (inner, r)" by fastforce
      with 6(1,4) False True have "rest = r"
        by (auto simp: parsePrimary.psimps Let_def split: option.splits if_splits)
      moreover have "weight r \<le> weight toks"
        using bracket_inner_solid [OF b] solid_after_bracket [OF True] w by linarith
      ultimately show ?thesis by simp
    next
      case nb: False
      with 6(1,4) False have "parse_comparison ?a (tl toks) = Some (n, rest)"
        by (auto simp: parsePrimary.psimps Let_def split: if_splits)
      from parse_comparison_weight [OF this] w show ?thesis by linarith
    qed
  qed
qed

lemma weight_keyword: "equal_fold (peek toks) k \<Longrightarrow> solid k > 0 \<Longrightarrow> weight (tl toks) < weight toks"
  using weight_tl [of toks] equal_fold_solid [of "peek toks" k] by simp

lemma weight_bracket:
  assumes "CHR ''['' \<in> set (to_lower (peek toks))"
    and "bracket_inner (after_bracket (to_lower (peek toks))) (tl toks) = (inner, rest)"
  shows "weight (scimTokenize inner) < weight toks"
  using bracket_inner_solid [OF assms(2)] solid_after_bracket [OF assms(1)] weight_tl [of toks]
    weight_tokenize [of inner] by simp

termination parseOr
proof (relation "measures
    [\<lambda>x. case x of Inl (Inl t) \<Rightarrow> weight t | Inl (Inr (Inl (_, t))) \<Rightarrow> weight t | Inl (Inr (Inr t)) \<Rightarrow> weight t
       | Inr (Inl (_, t)) \<Rightarrow> weight t | Inr (Inr (Inl t)) \<Rightarrow> weight t | Inr (Inr (Inr t)) \<Rightarrow> weight t,
     \<lambda>x. case x of Inl (Inl _) \<Rightarrow> 4 | Inl (Inr (Inl _)) \<Rightarrow> 0 | Inl (Inr (Inr _)) \<Rightarrow> 3
       | Inr (Inl _) \<Rightarrow> 0 | Inr (Inr (Inl _)) \<Rightarrow> 2 | Inr (Inr (Inr _)) \<Rightarrow> (1::nat)]", goal_cases)
  case 1
  then show ?case by simp
next
  case 2
  then show ?case by simp
next
  case 3
  then show ?case using parse_weight(3) by fastforce
next
  case 4
  then show ?case using weight_keyword by simp
next
  case (5 left toks x2 x y)
  then show ?case using weight_keyword [of toks "''or''"] parse_weight(3) [of "tl toks" x y] by simp
next
  case 6
  then show ?case by simp
next
  case 7
  then show ?case using parse_weight(5) by fastforce
next
  case 8
  then show ?case using weight_keyword by simp
next
  case (9 left toks x2 x y)
  then show ?case using weight_keyword [of toks "''and''"] parse_weight(5) [of "tl toks" x y] by simp
next
  case 10
  then show ?case using weight_keyword by simp
next
  case 11
  then show ?case by simp
next
  case (12 toks)
  then show ?case using weight_tl [of toks] by simp
next
  case (13 toks attr x y)
  then have "bracket_inner (after_bracket (to_lower (peek toks))) (tl toks) = (x, y)" by simp
  with 13 show ?case using weight_bracket [of toks x y] by simp
qed

declare parseOr.simps [simp del] orLoop.simps [simp del] parseAnd.simps [simp del] andLoop.simps [simp del]
  parseUnary.simps [simp del] parsePrimary.simps [simp del]

section \<open>The entry points\<close>

definition ParseSCIMFilter :: "string \<Rightarrow> scim_node option" where
  "ParseSCIMFilter raw =
     (let raw = trim_space raw in
      if raw = [] then None
      else case parseOr (scimTokenize raw) of
             None \<Rightarrow> None
           | Some (node, rest) \<Rightarrow> if rest = [] then Some node else None)"

fun scimFilterOpString :: "cmp_op \<Rightarrow> string" where
  "scimFilterOpString scimOpEq = ''eq''"
| "scimFilterOpString scimOpNe = ''ne''"
| "scimFilterOpString scimOpCo = ''co''"
| "scimFilterOpString scimOpSw = ''sw''"
| "scimFilterOpString scimOpPr = ''pr''"

definition flat_filter :: "scim_node \<Rightarrow> scim_filter option" where
  "flat_filter n =
     (case n of
        SLeaf a op v \<Rightarrow> Some \<lparr>sf_attr = a, sf_op = scimFilterOpString op, sf_value = v\<rparr>
      | _ \<Rightarrow> None)"

definition parseSCIMFilter :: "string \<Rightarrow> scim_filter option" where
  "parseSCIMFilter raw =
     (case ParseSCIMFilter raw of None \<Rightarrow> None | Some n \<Rightarrow> flat_filter n)"

datatype filter_error = errSCIMLogicalFilter

definition parseSCIMFilterStrict :: "string \<Rightarrow> filter_error + scim_filter option" where
  "parseSCIMFilterStrict raw =
     (case ParseSCIMFilter raw of
        None \<Rightarrow> Inr None
      | Some n \<Rightarrow> (case flat_filter n of Some f \<Rightarrow> Inr (Some f) | None \<Rightarrow> Inl errSCIMLogicalFilter))"

fun index_of :: "char \<Rightarrow> string \<Rightarrow> nat option" where
  "index_of a [] = None"
| "index_of a (c # s) = (if c = a then Some 0 else map_option Suc (index_of a s))"

definition last_index_of :: "char \<Rightarrow> string \<Rightarrow> nat option" where
  "last_index_of a s = map_option (\<lambda>i. length s - 1 - i) (index_of a (rev s))"

definition ParseSCIMFilterPath :: "string \<Rightarrow> string \<times> scim_node option" where
  "ParseSCIMFilterPath path =
     (case (index_of (CHR ''['') path, last_index_of (CHR '']'') path) of
        (Some i, Some j) \<Rightarrow>
          if j < i then ([], None)
          else (to_lower (trim_space (take i path)), ParseSCIMFilter (take (j - (i + 1)) (drop (i + 1) path)))
      | _ \<Rightarrow> ([], None))"

section \<open>Printing\<close>

text \<open>A concrete syntax for the nodes: comparisons bare, values in double quotes, logical nodes in
  parentheses.\<close>

fun print_filter :: "scim_node \<Rightarrow> string" where
  "print_filter (SLeaf a op v) =
     (if op = scimOpPr then a @ '' pr''
      else a @ '' '' @ scimFilterOpString op @ '' '' @ [CHR 0x22] @ v @ [CHR 0x22])"
| "print_filter (SAnd l r) = ''('' @ print_filter l @ '' and '' @ print_filter r @ '')''"
| "print_filter (SOr l r) = ''('' @ print_filter l @ '' or '' @ print_filter r @ '')''"
| "print_filter (SNot c) = ''(not '' @ print_filter c @ '')''"

fun filter_tokens :: "scim_node \<Rightarrow> string list" where
  "filter_tokens (SLeaf a op v) = (if op = scimOpPr then [a, ''pr''] else [a, scimFilterOpString op, v])"
| "filter_tokens (SAnd l r) = [''(''] @ filter_tokens l @ [''and''] @ filter_tokens r @ ['')'']"
| "filter_tokens (SOr l r) = [''(''] @ filter_tokens l @ [''or''] @ filter_tokens r @ ['')'']"
| "filter_tokens (SNot c) = [''('', ''not''] @ filter_tokens c @ ['')'']"

text \<open>The attribute paths and values a filter can express.\<close>

definition attr_ok :: "string \<Rightarrow> bool" where
  "attr_ok a \<longleftrightarrow> a \<noteq> [] \<and> list_all (\<lambda>c. word_char c \<and> c \<noteq> CHR ''['') a \<and> \<not> quote (hd a)
     \<and> to_lower a = a \<and> a \<noteq> ''not'' \<and> graphic (hd a)"

definition value_ok :: "string \<Rightarrow> bool" where
  "value_ok v \<longleftrightarrow> v \<noteq> [] \<and> CHR 0x22 \<notin> set v \<and> \<not> quote (hd v) \<and> \<not> quote (last v)"

fun node_ok :: "scim_node \<Rightarrow> bool" where
  "node_ok (SLeaf a op v) = (attr_ok a \<and> (if op = scimOpPr then v = [] else value_ok v))"
| "node_ok (SAnd l r) = (node_ok l \<and> node_ok r)"
| "node_ok (SOr l r) = (node_ok l \<and> node_ok r)"
| "node_ok (SNot c) = node_ok c"

section \<open>Reading back what was printed\<close>

lemma peek_simps [simp]: "peek [] = []" "peek (t # ts) = t"
  by (simp_all add: peek_def)

lemma equal_fold_lower: "to_lower k = k \<Longrightarrow> equal_fold t k \<longleftrightarrow> to_lower t = k"
  by (simp add: equal_fold_def)

lemma keyword_lower [simp]: "to_lower ''not'' = ''not''" "to_lower ''and'' = ''and''" "to_lower ''or'' = ''or''"
  "to_lower ''('' = ''(''" "to_lower '')'' = '')''" "to_lower ''pr'' = ''pr''"
  "to_lower (scimFilterOpString op) = scimFilterOpString op"
  by (simp_all add: to_lower_def to_lower_char_def)
    (cases op; simp add: to_lower_char_def)

lemma cmp_of_string [simp]: "op \<noteq> scimOpPr \<Longrightarrow> cmp_of (scimFilterOpString op) = Some op"
  by (cases op) (simp_all add: cmp_of_def)

lemma op_string_facts [simp]: "scimFilterOpString op \<noteq> []" "op \<noteq> scimOpPr \<Longrightarrow> scimFilterOpString op \<noteq> ''pr''"
  by (cases op; simp)+

lemma dropWhile_head: "v \<noteq> [] \<Longrightarrow> \<not> P (hd v) \<Longrightarrow> dropWhile P v = v"
  by (cases v) auto

lemma trim_quotes_id: "v \<noteq> [] \<Longrightarrow> \<not> quote (hd v) \<Longrightarrow> \<not> quote (last v) \<Longrightarrow> trim_quotes v = v"
  by (simp add: trim_quotes_def dropWhile_head hd_rev)

lemma leaf_tokens:
  assumes "node_ok (SLeaf a op v)"
  shows "parsePrimary (filter_tokens (SLeaf a op v) @ rest) = Some (SLeaf a op v, rest)"
proof -
  from assms have ok: "attr_ok a" by simp
  then have "a \<noteq> []" "to_lower a = a" unfolding attr_ok_def by blast+
  moreover have "CHR ''['' \<notin> set a" using ok unfolding attr_ok_def list_all_iff by blast
  moreover have "a \<noteq> ''(''" using ok by (auto simp: attr_ok_def word_char_def paren_def)
  ultimately have p: "parsePrimary (a # toks) = parse_comparison a toks" for toks
    by (subst parsePrimary.simps) simp
  show ?thesis
  proof (cases "op = scimOpPr")
    case True
    with assms p show ?thesis by (simp add: parse_comparison_def)
  next
    case False
    with assms p show ?thesis by (simp add: parse_comparison_def value_ok_def trim_quotes_id)
  qed
qed

lemma tokens_not_keyword:
  "node_ok n \<Longrightarrow> \<not> equal_fold (peek (filter_tokens n @ rest)) ''not''"
  by (cases n) (auto simp: equal_fold_lower attr_ok_def)

lemma unary_tokens:
  "node_ok n \<Longrightarrow> parseUnary (filter_tokens n @ rest) = parsePrimary (filter_tokens n @ rest)"
  by (subst parseUnary.simps) (simp add: tokens_not_keyword)

lemma loop_stop:
  "andLoop n ('')'' # rest) = Some (n, '')'' # rest)" "orLoop n ('')'' # rest) = Some (n, '')'' # rest)"
  "andLoop n [] = Some (n, [])" "orLoop n [] = Some (n, [])"
  "andLoop n (''or'' # rest) = Some (n, ''or'' # rest)"
  by (simp_all add: andLoop.simps [of n] orLoop.simps [of n] equal_fold_lower)

lemma primary_tokens: "node_ok n \<Longrightarrow> parsePrimary (filter_tokens n @ rest) = Some (n, rest)"
proof (induction n arbitrary: rest)
  case (SLeaf a op v)
  then show ?case by (rule leaf_tokens)
next
  case (SAnd l r)
  then show ?case
    by (subst parsePrimary.simps)
      (simp add: parseOr.simps parseAnd.simps unary_tokens loop_stop andLoop.simps [of l] equal_fold_lower)
next
  case (SOr l r)
  then show ?case
    by (subst parsePrimary.simps)
      (simp add: parseOr.simps parseAnd.simps unary_tokens loop_stop orLoop.simps [of l] equal_fold_lower)
next
  case (SNot c)
  then show ?case
    by (subst parsePrimary.simps)
      (simp add: parseOr.simps parseAnd.simps parseUnary.simps loop_stop equal_fold_lower)
qed

lemma tokenize_word:
  assumes "w \<noteq> []" "list_all word_char w" "\<not> quote (hd w)" "s = [] \<or> \<not> word_char (hd s)"
  shows "scimTokenize (w @ s) = w # scimTokenize s"
proof -
  have "takeWhile word_char (w @ s) = w" "dropWhile word_char (w @ s) = s"
    using assms by (auto simp: takeWhile_append dropWhile_append list_all_iff) (cases s; simp)+
  with assms(1-3) show ?thesis
    by (cases w) (simp_all add: word_char_def del: takeWhile.simps dropWhile.simps)
qed

lemma tokenize_quoted:
  "CHR 0x22 \<notin> set v \<Longrightarrow> scimTokenize (CHR 0x22 # v @ CHR 0x22 # s) = v # scimTokenize s"
  by (simp add: blank_def paren_def quote_def takeWhile_append dropWhile_append)

lemma tokenize_blank [simp]: "scimTokenize (CHR '' '' # s) = scimTokenize s"
  by (simp add: blank_def)

lemma tokenize_paren [simp]:
  "scimTokenize (CHR ''('' # s) = ''('' # scimTokenize s" "scimTokenize (CHR '')'' # s) = '')'' # scimTokenize s"
  by (simp_all add: blank_def paren_def)

lemma keyword_word:
  "list_all word_char ''and''" "list_all word_char ''or''" "list_all word_char ''not''" "list_all word_char ''pr''"
  "list_all word_char (scimFilterOpString op)"
  by (simp_all add: word_char_def blank_def paren_def) (cases op; simp add: word_char_def blank_def paren_def)

lemma op_hd: "\<not> quote (hd (scimFilterOpString op))"
  by (cases op) (simp_all add: quote_def)

lemma not_word [simp]: "\<not> word_char (CHR '' '')" "\<not> word_char (CHR '')'')"
  by (simp_all add: word_char_def blank_def paren_def)

lemma tokenize_keyword:
  "k \<noteq> [] \<Longrightarrow> list_all word_char k \<Longrightarrow> \<not> quote (hd k) \<Longrightarrow> scimTokenize (k @ CHR '' '' # t) = k # scimTokenize t"
  using tokenize_word [of k "CHR '' '' # t"] by (simp del: scimTokenize.simps)

lemma tokenize_print:
  "node_ok n \<Longrightarrow> s = [] \<or> \<not> word_char (hd s) \<Longrightarrow>
     scimTokenize (print_filter n @ s) = filter_tokens n @ scimTokenize s"
proof (induction n arbitrary: s)
  case (SLeaf a op v)
  then have ok: "attr_ok a" by simp
  then have a: "a \<noteq> []" "list_all word_char a" "\<not> quote (hd a)"
    unfolding attr_ok_def list_all_iff by blast+
  note w = tokenize_word [OF a]
  have o: "scimTokenize (scimFilterOpString op @ CHR '' '' # t) = scimFilterOpString op # scimTokenize t" for t
    by (rule tokenize_keyword) (simp_all add: keyword_word(5) op_hd)
  have pr: "scimTokenize (''pr'' @ s) = ''pr'' # scimTokenize s"
    using SLeaf.prems(2) by (intro tokenize_word) (simp_all add: quote_def word_char_def blank_def paren_def)
  show ?case
  proof (cases "op = scimOpPr")
    case True
    then show ?thesis using w [of "CHR '' '' # ''pr'' @ s"] pr by (simp del: scimTokenize.simps)
  next
    case False
    with SLeaf.prems(1) have "CHR 0x22 \<notin> set v" by (simp add: value_ok_def)
    with False show ?thesis
      using w [of "CHR '' '' # scimFilterOpString op @ CHR '' '' # CHR 0x22 # v @ CHR 0x22 # s"]
        o [of "CHR 0x22 # v @ CHR 0x22 # s"] tokenize_quoted [of v s]
      by (simp del: scimTokenize.simps)
  qed
next
  case (SAnd l r)
  have k: "scimTokenize (''and'' @ CHR '' '' # t) = ''and'' # scimTokenize t" for t
    by (rule tokenize_keyword) (simp_all add: quote_def word_char_def blank_def paren_def)
  show ?case
    using SAnd.IH(1) [of "'' and '' @ print_filter r @ '')'' @ s"] SAnd.IH(2) [of "'')'' @ s"] SAnd.prems
      k [of "print_filter r @ '')'' @ s"] by (simp del: scimTokenize.simps)
next
  case (SOr l r)
  have k: "scimTokenize (''or'' @ CHR '' '' # t) = ''or'' # scimTokenize t" for t
    by (rule tokenize_keyword) (simp_all add: quote_def word_char_def blank_def paren_def)
  show ?case
    using SOr.IH(1) [of "'' or '' @ print_filter r @ '')'' @ s"] SOr.IH(2) [of "'')'' @ s"] SOr.prems
      k [of "print_filter r @ '')'' @ s"] by (simp del: scimTokenize.simps)
next
  case (SNot c)
  have k: "scimTokenize (''not'' @ CHR '' '' # t) = ''not'' # scimTokenize t" for t
    by (rule tokenize_keyword) (simp_all add: quote_def word_char_def blank_def paren_def)
  show ?case
    using SNot.IH [of "'')'' @ s"] SNot.prems k [of "print_filter c @ '')'' @ s"]
    by (simp del: scimTokenize.simps)
qed

lemma print_filter_graphic:
  "node_ok n \<Longrightarrow> print_filter n \<noteq> [] \<and> graphic (hd (print_filter n)) \<and> graphic (last (print_filter n))"
  by (cases n) (auto simp: attr_ok_def graphic_def)

lemma parseOr_tokens: "node_ok n \<Longrightarrow> parseOr (filter_tokens n) = Some (n, [])"
  using unary_tokens [of n "[]"] primary_tokens [of n "[]"]
  by (simp add: parseOr.simps parseAnd.simps loop_stop)

section \<open>Properties of the filter language\<close>

text \<open>C27. Printing a filter and parsing the text gives the filter back, for every node over attribute paths
  and values that the language can express (a value is not empty and has no double quote inside and no quote character at its ends; an attribute is in lower case,
  with no blank, parenthesis or bracket): quoting, keywords, nesting and negation included.\<close>

theorem scim_filter_roundtrip:
  assumes "node_ok n"
  shows "ParseSCIMFilter (print_filter n) = Some n"
proof -
  have t: "trim_space (print_filter n) = print_filter n"
    using print_filter_graphic [OF assms] by (intro trim_space_graphic) auto
  have "scimTokenize (print_filter n) = filter_tokens n"
    using tokenize_print [OF assms, of "[]"] by simp
  with t parseOr_tokens [OF assms] print_filter_graphic [OF assms] show ?thesis
    by (simp add: ParseSCIMFilter_def)
qed

theorem scim_filter_roundtrip_witness:
  "ParseSCIMFilter (print_filter (SAnd (SLeaf ''username'' scimOpEq ''Ann Lee'') (SNot (SLeaf ''emails.value'' scimOpPr []))))
     = Some (SAnd (SLeaf ''username'' scimOpEq ''Ann Lee'') (SNot (SLeaf ''emails.value'' scimOpPr [])))"
  by (rule scim_filter_roundtrip) code_simp

text \<open>The strict parser never drops a logical filter: it reports an error exactly when the text parses
  into an and, or or not, it returns a comparison exactly when the text is that comparison, and the
  comparison it returns means the same as the parsed node.\<close>

theorem strict_filter_cases:
  "(parseSCIMFilterStrict raw = Inl errSCIMLogicalFilter \<longleftrightarrow>
      (\<exists>l r. ParseSCIMFilter raw = Some (SAnd l r)) \<or> (\<exists>l r. ParseSCIMFilter raw = Some (SOr l r))
      \<or> (\<exists>c. ParseSCIMFilter raw = Some (SNot c)))
   \<and> (parseSCIMFilterStrict raw = Inr None \<longleftrightarrow> ParseSCIMFilter raw = None)
   \<and> (parseSCIMFilterStrict raw = Inr (Some f) \<longleftrightarrow>
        (\<exists>op. sf_op f = scimFilterOpString op \<and> ParseSCIMFilter raw = Some (SLeaf (sf_attr f) op (sf_value f))))"
  unfolding parseSCIMFilterStrict_def flat_filter_def
  by (auto split: option.splits scim_node.splits)

text \<open>The tokenizer and the quotes: a bracket filter is cut into tokens, joined with blanks and
  cut again without its quotes, so \<open>members[value eq "a b"]\<close> is read as a comparison with \<open>a\<close> and the
  rest of the value is dropped; the same filter outside brackets keeps the value.\<close>

theorem bracket_filter_loses_quotes:
  "ParseSCIMFilter (''members[value eq '' @ [CHR 0x22] @ ''a b'' @ [CHR 0x22] @ '']'') = Some (SLeaf ''value'' scimOpEq ''a'')
   \<and> ParseSCIMFilter (''value eq '' @ [CHR 0x22] @ ''a b'' @ [CHR 0x22]) = Some (SLeaf ''value'' scimOpEq ''a b'')"
  by (rule conjI) code_simp+

end
