(* ===== verification/Policy_Time.thy ===== *)
theory Policy_Time
  imports Go_Time
begin

text \<open>
  The time windows of the access policies: \<open>internal/handlers/access_policy_time.go\<close> and the window
  test of \<open>evalConditions\<close> in \<open>access_eval.go\<close>, with the part of \<open>time.Parse\<close> they use.
\<close>

section \<open>time.Parse for the layouts of the policy columns\<close>

text \<open>The chunk \<open>15\<close> reads one or two digits below 24, \<open>04\<close> and \<open>05\<close> read exactly two digits below
  60; a fraction after the seconds is read whether the layout has one or not.\<close>

fun get_num :: "bool \<Rightarrow> string \<Rightarrow> (nat \<times> string) option" where
  "get_num fixed [] = None"
| "get_num fixed (a # s) =
     (if \<not> is_digit a then None
      else case s of
             b # r \<Rightarrow> if is_digit b then Some (10 * digit_val a + digit_val b, r)
                      else if fixed then None else Some (digit_val a, s)
           | [] \<Rightarrow> if fixed then None else Some (digit_val a, []))"

definition get_below :: "bool \<Rightarrow> nat \<Rightarrow> string \<Rightarrow> (nat \<times> string) option" where
  "get_below fixed bound s =
     (case get_num fixed s of Some (n, r) \<Rightarrow> if n < bound then Some (n, r) else None | None \<Rightarrow> None)"

fun skip_colon :: "string \<Rightarrow> string option" where
  "skip_colon (c # s) = (if c = CHR '':'' then Some s else None)"
| "skip_colon [] = None"

fun skip_fraction :: "string \<Rightarrow> string" where
  "skip_fraction (c # d # r) =
     (if (c = CHR ''.'' \<or> c = CHR '','') \<and> is_digit d then dropWhile is_digit (d # r) else c # d # r)"
| "skip_fraction s = s"

definition parse_hour_minute :: "string \<Rightarrow> (nat \<times> nat \<times> string) option" where
  "parse_hour_minute v =
     (case get_below False 24 v of None \<Rightarrow> None | Some (h, r) \<Rightarrow>
      (case skip_colon r of None \<Rightarrow> None | Some r \<Rightarrow>
      (case get_below True 60 r of None \<Rightarrow> None | Some (m, r) \<Rightarrow> Some (h, m, r))))"

definition layout_15_04 :: "string \<Rightarrow> (nat \<times> nat) option" where
  "layout_15_04 v = (case parse_hour_minute v of Some (h, m, []) \<Rightarrow> Some (h, m) | _ \<Rightarrow> None)"

definition layout_15_04_05 :: "string \<Rightarrow> (nat \<times> nat) option" where
  "layout_15_04_05 v =
     (case parse_hour_minute v of None \<Rightarrow> None | Some (h, m, r) \<Rightarrow>
      (case skip_colon r of None \<Rightarrow> None | Some r \<Rightarrow>
      (case get_below True 60 r of None \<Rightarrow> None | Some (_, r) \<Rightarrow>
       if skip_fraction r = [] then Some (h, m) else None)))"

section \<open>The helpers\<close>

definition policyTimeLayouts :: "(string \<Rightarrow> (nat \<times> nat) option) list" where
  "policyTimeLayouts = [layout_15_04_05, layout_15_04_05, layout_15_04]"

primrec first_some :: "('a \<Rightarrow> 'b option) list \<Rightarrow> 'a \<Rightarrow> 'b option" where
  "first_some [] v = None"
| "first_some (f # fs) v = (case f v of Some x \<Rightarrow> Some x | None \<Rightarrow> first_some fs v)"

definition parsePolicyTime :: "string \<Rightarrow> int option" where
  "parsePolicyTime v =
     (let v = trim_space v in
      if v = [] then None
      else case first_some policyTimeLayouts v of
             Some (h, m) \<Rightarrow> Some (int h * 60 + int m)
           | None \<Rightarrow> None)"

text \<open>Go's remainder takes the sign of the dividend.\<close>

definition go_rem :: "int \<Rightarrow> int \<Rightarrow> int" where
  "go_rem a b = (if a < 0 then - ((- a) mod b) else a mod b)"

definition formatPolicyTime :: "int \<Rightarrow> string" where
  "formatPolicyTime minutes =
     (let minutes = go_rem (go_rem minutes 1440 + 1440) 1440
      in two_digits (minutes div 60) @ '':'' @ two_digits (minutes mod 60))"

definition normalisePolicyTime :: "string option \<Rightarrow> string option" where
  "normalisePolicyTime v =
     (case v of None \<Rightarrow> None
      | Some s \<Rightarrow> (case parsePolicyTime s of None \<Rightarrow> Some s | Some m \<Rightarrow> Some (formatPolicyTime m)))"

datatype window_error = Both_required | Not_hhmm

text \<open>\<open>Inl (field, error)\<close> names the offending input; \<open>Inr None\<close> is "no window".\<close>

definition validatePolicyTimeWindow ::
  "string option \<Rightarrow> string option \<Rightarrow> (string \<times> window_error) + (string \<times> string) option" where
  "validatePolicyTimeWindow start end' =
     (let s = (case start of None \<Rightarrow> [] | Some v \<Rightarrow> trim_space v);
          e = (case end' of None \<Rightarrow> [] | Some v \<Rightarrow> trim_space v)
      in if s = [] \<and> e = [] then Inr None
         else if s = [] then Inl (''allowedTimeStart'', Both_required)
         else if e = [] then Inl (''allowedTimeEnd'', Both_required)
         else case parsePolicyTime s of None \<Rightarrow> Inl (''allowedTimeStart'', Not_hhmm) | Some sm \<Rightarrow>
              (case parsePolicyTime e of None \<Rightarrow> Inl (''allowedTimeEnd'', Not_hhmm) | Some em \<Rightarrow>
               Inr (Some (formatPolicyTime sm, formatPolicyTime em))))"

definition in_window :: "int \<Rightarrow> int \<Rightarrow> int \<Rightarrow> bool" where
  "in_window startMins endMins nowMins =
     (if startMins \<le> endMins then nowMins \<ge> startMins \<and> nowMins < endMins
      else nowMins \<ge> startMins \<or> nowMins < endMins)"

section \<open>Reading back\<close>

lemma go_rem_wrap: "go_rem (go_rem m 1440 + 1440) 1440 = m mod 1440"
proof -
  have "- ((- m) mod 1440) + 1440 \<ge> 0" by (smt (verit) pos_mod_bound)
  moreover have "(- ((- m) mod 1440) + 1440) mod 1440 = m mod 1440"
    by (simp add: mod_minus_eq)
  ultimately show ?thesis by (simp add: go_rem_def)
qed

lemma two_digits_eq:
  assumes "0 \<le> i" "i < 100"
  shows "two_digits i = [digit_char (nat i div 10), digit_char (nat i mod 10)]"
proof (cases "nat i < 10")
  case True
  then have "two_digits i = [CHR ''0'', digit_char (nat i)]"
    by (simp add: two_digits_def pad_left_def show_nat.simps [of "nat i"])
  also have "CHR ''0'' = digit_char 0"
    unfolding digit_char_def by code_simp
  finally show ?thesis using True by simp
next
  case False
  then have "nat i div 10 < 10" using assms by auto
  with False show ?thesis
    by (simp add: two_digits_def pad_left_def show_nat.simps [of "nat i"] show_nat.simps [of "nat i div 10"])
qed

lemma colon_not_digit: "\<not> is_digit (CHR '':'')"
  by (simp add: is_digit_def)

lemma get_num_two: "a < 10 \<Longrightarrow> b < 10 \<Longrightarrow> get_num f (digit_char a # digit_char b # r) = Some (10 * a + b, r)"
  by simp

lemma get_below_two_digits:
  assumes "0 \<le> i" "i < int n" "n \<le> 100"
  shows "get_below f n (two_digits i @ r) = Some (nat i, r)"
proof -
  have "nat i div 10 < 10" using assms by auto
  then have "get_num f (two_digits i @ r) = Some (10 * (nat i div 10) + nat i mod 10, r)"
    using assms by (simp add: two_digits_eq)
  then show ?thesis using assms by (simp add: get_below_def)
qed

lemma parse_hour_minute_digits:
  assumes "0 \<le> h" "h < 24" "0 \<le> m" "m < 60"
  shows "parse_hour_minute (two_digits h @ CHR '':'' # two_digits m @ r) = Some (nat h, nat m, r)"
  using assms by (simp add: parse_hour_minute_def get_below_two_digits)

lemma two_digits_graphic:
  assumes "0 \<le> i" "i < 100"
  shows "two_digits i \<noteq> []" "graphic (hd (two_digits i))" "graphic (last (two_digits i))"
  using assms by (auto simp: two_digits_eq digit_graphic)

lemma layout_15_04_digits:
  assumes "0 \<le> h" "h < 24" "0 \<le> m" "m < 60"
  shows "layout_15_04 (two_digits h @ CHR '':'' # two_digits m) = Some (nat h, nat m)"
    "layout_15_04_05 (two_digits h @ CHR '':'' # two_digits m) = None"
  using parse_hour_minute_digits [OF assms, of "[]"]
  by (simp_all add: layout_15_04_def layout_15_04_05_def)

lemma layout_seconds_digits:
  assumes "0 \<le> h" "h < 24" "0 \<le> m" "m < 60" "0 \<le> s" "s < 60" "skip_fraction f = []"
  shows "layout_15_04_05 (two_digits h @ CHR '':'' # two_digits m @ CHR '':'' # two_digits s @ f) = Some (nat h, nat m)"
  using parse_hour_minute_digits [OF assms(1-4)] assms(5-7)
  by (simp add: layout_15_04_05_def get_below_two_digits)

lemma formatPolicyTime_eq:
  "formatPolicyTime m = two_digits (m mod 1440 div 60) @ CHR '':'' # two_digits (m mod 1440 mod 60)"
  by (simp add: formatPolicyTime_def Let_def go_rem_wrap)

lemma minutes_split: "0 \<le> (m::int) mod 1440 div 60" "m mod 1440 div 60 < 24" "0 \<le> m mod 1440 mod 60" "m mod 1440 mod 60 < 60"
  by (auto simp: pos_imp_zdiv_nonneg_iff)

lemma parsePolicyTime_digits:
  assumes "0 \<le> h" "h < 24" "0 \<le> m" "m < 60"
  shows "parsePolicyTime (two_digits h @ CHR '':'' # two_digits m) = Some (h * 60 + m)"
proof -
  let ?v = "two_digits h @ CHR '':'' # two_digits m"
  have "trim_space ?v = ?v"
    using two_digits_graphic [of h] two_digits_graphic [of m] assms by (intro trim_space_graphic) auto
  with assms layout_15_04_digits [OF assms] show ?thesis
    by (simp add: parsePolicyTime_def policyTimeLayouts_def)
qed

lemma get_num_rest: "get_num f s = Some (n, r) \<Longrightarrow> n \<le> 99"
  by (cases s) (auto simp: is_digit_def digit_val_def split: if_splits list.splits)

lemma get_below_bound: "get_below f b s = Some (n, r) \<Longrightarrow> n < b"
  by (auto simp: get_below_def split: option.splits if_splits)

lemma parse_hour_minute_bound: "parse_hour_minute v = Some (h, m, r) \<Longrightarrow> h < 24 \<and> m < 60"
  by (auto simp: parse_hour_minute_def dest: get_below_bound split: option.splits)

lemma layouts_bound: "first_some policyTimeLayouts v = Some (h, m) \<Longrightarrow> h < 24 \<and> m < 60"
  by (auto simp: policyTimeLayouts_def layout_15_04_def layout_15_04_05_def dest!: parse_hour_minute_bound
      split: option.splits if_splits list.splits)

lemma parsePolicyTime_range: "parsePolicyTime v = Some t \<Longrightarrow> 0 \<le> t \<and> t < 1440"
  using layouts_bound by (fastforce simp: parsePolicyTime_def Let_def split: option.splits if_splits)

lemma parse_format: "parsePolicyTime (formatPolicyTime m) = Some (m mod 1440)"
  using parsePolicyTime_digits [OF minutes_split] by (simp add: formatPolicyTime_eq)

lemma parsePolicyTime_postgres:
  assumes "0 \<le> h" "h < 24" "0 \<le> m" "m < 60" "0 \<le> s" "s < 60" "list_all is_digit ds" "ds \<noteq> []"
  shows "parsePolicyTime (two_digits h @ CHR '':'' # two_digits m @ CHR '':'' # two_digits s @ CHR ''.'' # ds)
    = Some (h * 60 + m)"
proof -
  let ?v = "two_digits h @ CHR '':'' # two_digits m @ CHR '':'' # two_digits s @ CHR ''.'' # ds"
  have "graphic (last ds)" using assms(7,8) by (auto simp: list_all_iff digit_graphic)
  then have t: "trim_space ?v = ?v"
    using two_digits_graphic [of h] assms by (intro trim_space_graphic) auto
  have "skip_fraction (CHR ''.'' # ds) = []" using assms(7,8) by (cases ds) (auto simp: list_all_iff)
  from layout_seconds_digits [OF assms(1-6) this] t assms(1-4) show ?thesis
    by (simp add: parsePolicyTime_def policyTimeLayouts_def)
qed

lemma in_window_iff:
  assumes "0 \<le> s" "s < 1440" "0 \<le> e" "e < 1440" "0 \<le> t" "t < 1440"
  shows "in_window s e t \<longleftrightarrow> (t - s) mod 1440 < (e - s) mod 1440"
proof -
  have m: "(x - y) mod 1440 = (if y \<le> x then x - y else x - y + 1440)"
    if "0 \<le> x" "x < 1440" "0 \<le> y" "y < 1440" for x y :: int
  proof (cases "y \<le> x")
    case True
    with that show ?thesis by simp
  next
    case False
    have "(x - y) mod 1440 = (x - y + 1440) mod 1440" by simp
    also have "\<dots> = x - y + 1440" using False that by (intro mod_pos_pos_trivial) auto
    finally show ?thesis using False by simp
  qed
  show ?thesis
    using assms m [of t s] m [of e s] by (auto simp: in_window_def split: if_splits)
qed

section \<open>Properties of the time windows\<close>

text \<open>Formatting minutes since midnight and parsing the text gives the minutes back, reduced to one
  day, for every integer; formatting reads the same text for a value and the value a day later.\<close>

lemma policy_time_roundtrip:
  "parsePolicyTime (formatPolicyTime m) = Some (m mod 1440) \<and> formatPolicyTime (m + 1440) = formatPolicyTime m"
  using parse_format by (simp add: formatPolicyTime_eq)

text \<open>The rendering of a Postgres TIME column, \<open>HH:MM:SS.ffffff\<close> with any number of fraction digits, is
  read as its hour and minute and normalised to \<open>HH:MM\<close>.\<close>

theorem postgres_time_normalised:
  assumes "0 \<le> h" "h < 24" "0 \<le> m" "m < 60" "0 \<le> s" "s < 60" "list_all is_digit ds" "ds \<noteq> []"
  shows "normalisePolicyTime (Some (two_digits h @ CHR '':'' # two_digits m @ CHR '':'' # two_digits s @ CHR ''.'' # ds))
     = Some (two_digits h @ CHR '':'' # two_digits m)"
proof -
  have "(h * 60 + m) mod 1440 = h * 60 + m" using assms by simp
  with assms show ?thesis
    by (simp add: normalisePolicyTime_def parsePolicyTime_postgres formatPolicyTime_eq)
qed

theorem postgres_time_normalised_witness:
  "normalisePolicyTime (Some (two_digits 9 @ CHR '':'' # two_digits 5 @ CHR '':'' # two_digits 0 @ CHR ''.'' # ''000000''))
     = Some (two_digits 9 @ CHR '':'' # two_digits 5)"
  by (rule postgres_time_normalised) (simp_all add: is_digit_def)

text \<open>The window test is the half-open interval on the circle of the day: a time is inside exactly when
  it lies less far behind the start than the end does.  A window that wraps midnight is the
  complement of the window with its bounds swapped, and equal bounds admit no time at all.\<close>

theorem window_is_cyclic_interval:
  assumes "0 \<le> s" "s < 1440" "0 \<le> e" "e < 1440" "0 \<le> t" "t < 1440"
  shows "(in_window s e t \<longleftrightarrow> (t - s) mod 1440 < (e - s) mod 1440)
     \<and> (s \<noteq> e \<longrightarrow> (in_window s e t \<longleftrightarrow> \<not> in_window e s t)) \<and> (s = e \<longrightarrow> \<not> in_window s e t)"
  using in_window_iff [OF assms] by (auto simp: in_window_def)

theorem window_is_cyclic_interval_witness:
  "in_window 1320 360 60 \<and> \<not> in_window 360 1320 60"
  using window_is_cyclic_interval [of 1320 360 60] by auto

text \<open>A window that passes the check of the policy API is stored in a form that the evaluation can
  read, so it is never reported as misconfigured; a half-specified window is refused.\<close>

theorem stored_window_parses:
  "(validatePolicyTimeWindow start end' = Inr (Some (a, b)) \<longrightarrow>
      (\<exists>s e. parsePolicyTime a = Some s \<and> parsePolicyTime b = Some e
         \<and> start \<noteq> None \<and> parsePolicyTime (trim_space (the start)) = Some s
         \<and> end' \<noteq> None \<and> parsePolicyTime (trim_space (the end')) = Some e))
   \<and> (validatePolicyTimeWindow (Some x) None \<noteq> Inr (Some w))"
proof -
  have r: "t mod 1440 = t" if "parsePolicyTime v = Some t" for v t
    using parsePolicyTime_range [OF that] by simp
  show ?thesis
    by (auto simp: validatePolicyTimeWindow_def Let_def parse_format r split: option.splits if_splits)
qed

theorem stored_window_parses_witness:
  "(\<exists>s e. parsePolicyTime ''09:00'' = Some s \<and> parsePolicyTime ''17:30'' = Some e
         \<and> Some ''9:00'' \<noteq> None \<and> parsePolicyTime (trim_space (the (Some ''9:00''))) = Some s
         \<and> Some ''17:30:00'' \<noteq> None \<and> parsePolicyTime (trim_space (the (Some ''17:30:00''))) = Some e)"
proof -
  have "validatePolicyTimeWindow (Some ''9:00'') (Some ''17:30:00'') = Inr (Some (''09:00'', ''17:30''))"
    by code_simp
  with stored_window_parses show ?thesis by blast
qed

end
