(* ===== verification/Net_Addr.thy ===== *)
theory Net_Addr
  imports Go_Crypto
begin

text \<open>
  Addresses as \<open>net.ParseIP\<close>, \<open>net.ParseCIDR\<close>, \<open>(*IPNet).Contains\<close> and \<open>IP.Equal\<close> treat them: an
  address is its list of bytes, 16 of them as \<open>ParseIP\<close> returns it, with \<open>To4\<close> recognising the
  IPv4-mapped prefix.  The network conditions of the access policies and the client-address logic
  rest on this theory.
\<close>

type_synonym ip = "nat list"

section \<open>IPv4\<close>

text \<open>\<open>parseIPv4Fields\<close>: decimal fields without leading zeros, each at most 255, three dots; \<open>val\<close> and
  \<open>digLen\<close> are the field being read, \<open>fields\<close> those already read.\<close>

fun v4_fields :: "nat \<Rightarrow> nat \<Rightarrow> nat list \<Rightarrow> string \<Rightarrow> nat list option" where
  "v4_fields val digLen fields [] =
     (if length fields < 3 \<or> digLen = 0 then None else Some (fields @ [val]))"
| "v4_fields val digLen fields (c # s) =
     (if is_digit c then
        (if digLen = 1 \<and> val = 0 then None
         else let val = val * 10 + digit_val c in
              if val > 255 then None else v4_fields val (digLen + 1) fields s)
      else if c = CHR ''.'' then
        (if digLen = 0 \<or> s = [] then None
         else if length fields = 3 then None
         else v4_fields 0 0 (fields @ [val]) s)
      else None)"

definition parseIPv4 :: "string \<Rightarrow> ip option" where
  "parseIPv4 s = v4_fields 0 0 [] s"

section \<open>IPv6\<close>

definition v4InV6Prefix :: ip where
  "v4InV6Prefix = replicate 10 0 @ [255, 255]"

text \<open>One group: up to four hexadecimal digits.\<close>

definition hex_group :: "string \<Rightarrow> (nat \<times> string) option" where
  "hex_group s =
     (let ds = takeWhile is_hex s in
      if ds = [] \<or> length ds > 4 then None
      else Some (foldl (\<lambda>n c. n * 16 + (case hex_val c of Some d \<Rightarrow> d | None \<Rightarrow> 0)) 0 ds, dropWhile is_hex s))"

text \<open>The loop of \<open>parseIPv6\<close>: \<open>acc\<close> holds the bytes read so far, \<open>ell\<close> the position of the ellipsis.
  The result is the bytes and the ellipsis when the whole input was read.\<close>

function v6_loop :: "ip \<Rightarrow> nat option \<Rightarrow> string \<Rightarrow> (ip \<times> nat option) option" where
  "v6_loop acc ell s =
     (if length acc \<ge> 16 then (if s = [] then Some (acc, ell) else None)
      else case hex_group s of None \<Rightarrow> None
      | Some (g, r) \<Rightarrow>
        (case r of
           [] \<Rightarrow> Some (acc @ [g div 256, g mod 256], ell)
         | c # r' \<Rightarrow>
             if c = CHR ''.'' then
               (if (ell = None \<and> length acc \<noteq> 12) \<or> length acc + 4 > 16 then None
                else case parseIPv4 s of None \<Rightarrow> None | Some b \<Rightarrow> Some (acc @ b, ell))
             else if c \<noteq> CHR '':'' \<or> r' = [] then None
             else let acc = acc @ [g div 256, g mod 256] in
               (if hd r' = CHR '':'' then
                  (if ell \<noteq> None then None
                   else if tl r' = [] then Some (acc, Some (length acc))
                   else v6_loop acc (Some (length acc)) (tl r'))
                else v6_loop acc ell r')))"
  by pat_completeness auto
termination
  by (relation "measure (\<lambda>(acc, ell, s). 16 - length acc)") auto

declare v6_loop.simps [simp del]

definition v6_expand :: "ip \<times> nat option \<Rightarrow> ip option" where
  "v6_expand x =
     (case x of
        (bs, None) \<Rightarrow> if length bs < 16 then None else Some bs
      | (bs, Some e) \<Rightarrow>
          if length bs < 16 then Some (take e bs @ replicate (16 - length bs) 0 @ drop e bs) else None)"

text \<open>\<open>netip.ParseAddr\<close> on an address with a colon; the zone is split off first, and an address with a
  zone is not an \<open>IP\<close> for \<open>net.ParseIP\<close>.\<close>

definition parseIPv6 :: "string \<Rightarrow> ip option" where
  "parseIPv6 s =
     (if CHR ''%'' \<in> set s then None
      else if has_prefix ''::'' s then
        (if drop 2 s = [] then Some (replicate 16 0)
         else case v6_loop [] (Some 0) (drop 2 s) of None \<Rightarrow> None | Some x \<Rightarrow> v6_expand x)
      else case v6_loop [] None s of None \<Rightarrow> None | Some x \<Rightarrow> v6_expand x)"

text \<open>The family is decided by the first dot, colon or percent sign.  The result carries the bit length of
  the address (\<open>BitLen\<close>) and its 16 bytes (\<open>As16\<close>).\<close>

definition ParseAddr :: "string \<Rightarrow> (nat \<times> ip) option" where
  "ParseAddr s =
     (case dropWhile (\<lambda>c. c \<notin> {CHR ''.'', CHR '':'', CHR ''%''}) s of
        [] \<Rightarrow> None
      | c # _ \<Rightarrow>
          if c = CHR ''.'' then map_option (\<lambda>b. (32, v4InV6Prefix @ b)) (parseIPv4 s)
          else if c = CHR '':'' then map_option (\<lambda>b. (128, b)) (parseIPv6 s)
          else None)"

definition ParseIP :: "string \<Rightarrow> ip option" where
  "ParseIP s = map_option snd (ParseAddr s)"

definition To4 :: "ip \<Rightarrow> ip option" where
  "To4 x =
     (if length x = 4 then Some x
      else if length x = 16 \<and> take 12 x = v4InV6Prefix then Some (drop 12 x)
      else None)"

section \<open>Networks\<close>

record ip_net =
  net_ip :: ip
  net_mask :: "nat list"

text \<open>\<open>CIDRMask\<close>: byte \<open>i\<close> has the ones that fall into it.\<close>

definition mask_byte :: "nat \<Rightarrow> nat" where
  "mask_byte k = 256 - 2 ^ (8 - min 8 k)"

definition CIDRMask :: "nat \<Rightarrow> nat \<Rightarrow> nat list" where
  "CIDRMask ones bits = map (\<lambda>i. mask_byte (ones - 8 * i)) [0..<bits div 8]"

definition and_bytes :: "nat list \<Rightarrow> nat list \<Rightarrow> nat list" where
  "and_bytes a b = map2 (\<lambda>x y. x AND y) a b"

definition ip_mask :: "ip \<Rightarrow> nat list \<Rightarrow> ip" where
  "ip_mask x m =
     (if length m = 4 \<and> length x = 16 \<and> take 12 x = v4InV6Prefix then and_bytes (drop 12 x) m
      else if length x \<noteq> length m then [] else and_bytes x m)"

text \<open>\<open>dtoi\<close>: digits only, below 0xFFFFFF.\<close>

definition dtoi :: "string \<Rightarrow> nat option" where
  "dtoi s = (if s = [] \<or> \<not> list_all is_digit s \<or> int (digits_val s) \<ge> 16777215 then None else Some (digits_val s))"

definition ParseCIDR :: "string \<Rightarrow> (ip \<times> ip_net) option" where
  "ParseCIDR s =
     (if CHR ''/'' \<notin> set s then None
      else let addr = takeWhile (\<lambda>c. c \<noteq> CHR ''/'') s; m = drop 1 (dropWhile (\<lambda>c. c \<noteq> CHR ''/'') s) in
      case (ParseAddr addr, dtoi m) of
        (Some (bits, b), Some n) \<Rightarrow>
          if n > bits then None
          else let mask = CIDRMask n bits in Some (b, \<lparr>net_ip = ip_mask b mask, net_mask = mask\<rparr>)
      | _ \<Rightarrow> None)"

definition networkNumberAndMask :: "ip_net \<Rightarrow> (ip \<times> nat list) option" where
  "networkNumberAndMask n =
     (case (case To4 (net_ip n) of
              Some x \<Rightarrow> Some x
            | None \<Rightarrow> if length (net_ip n) = 16 then Some (net_ip n) else None) of
        None \<Rightarrow> None
      | Some x \<Rightarrow>
          if length (net_mask n) = 4 then (if length x \<noteq> 4 then None else Some (x, net_mask n))
          else if length (net_mask n) = 16
            then Some (x, if length x = 4 then drop 12 (net_mask n) else net_mask n)
          else None)"

definition Contains :: "ip_net \<Rightarrow> ip \<Rightarrow> bool" where
  "Contains n x =
     (case networkNumberAndMask n of
        None \<Rightarrow> False
      | Some (nn, m) \<Rightarrow>
          (let x = (case To4 x of Some y \<Rightarrow> y | None \<Rightarrow> x)
           in length x = length nn \<and> and_bytes nn m = and_bytes x m))"

definition ip_equal :: "ip \<Rightarrow> ip \<Rightarrow> bool" where
  "ip_equal a b \<longleftrightarrow>
     (if length a = length b then a = b
      else if length a = 4 \<and> length b = 16 then v4InV6Prefix @ a = b
      else if length a = 16 \<and> length b = 4 then a = v4InV6Prefix @ b
      else False)"

section \<open>Host and port\<close>

fun split_last :: "char \<Rightarrow> string \<Rightarrow> (string \<times> string) option" where
  "split_last sep [] = None"
| "split_last sep (c # s) =
     (case split_last sep s of
        Some (a, b) \<Rightarrow> Some (c # a, b)
      | None \<Rightarrow> if c = sep then Some ([], s) else None)"

text \<open>\<open>net.SplitHostPort\<close>, the host part.\<close>

definition SplitHostPort :: "string \<Rightarrow> string option" where
  "SplitHostPort s =
     (case split_last (CHR '':'') s of
        None \<Rightarrow> None
      | Some (h, port) \<Rightarrow>
          if has_prefix ''['' s then
            (if CHR '']'' \<notin> set s then None
             else let inner = takeWhile (\<lambda>c. c \<noteq> CHR '']'') (drop 1 s) in
                  if h \<noteq> ''['' @ inner @ '']'' then None
                  else if CHR ''['' \<in> set (inner @ '']:'' @ port) then None
                  else if CHR '']'' \<in> set ('':'' @ port) then None
                  else Some inner)
          else if CHR '':'' \<in> set h then None
          else if CHR ''['' \<in> set s \<or> CHR '']'' \<in> set s then None
          else Some h)"

section \<open>Text of an IPv4 address\<close>

definition show_ipv4 :: "ip \<Rightarrow> string" where
  "show_ipv4 b = join_with ''.'' (map show_nat b)"

section \<open>Reading IPv4 text\<close>

lemma v4_fields_digits:
  assumes "list_all is_digit ds" "digLen = 1 \<and> val = 0 \<longrightarrow> ds = []"
    "foldl (\<lambda>n c. n * 10 + digit_val c) val ds \<le> 255" "digLen = 0 \<and> ds \<noteq> [] \<and> hd ds = CHR ''0'' \<longrightarrow> tl ds = []"
  shows "v4_fields val digLen fs (ds @ r) =
     v4_fields (foldl (\<lambda>n c. n * 10 + digit_val c) val ds) (digLen + length ds) fs r"
  using assms
proof (induction ds arbitrary: val digLen)
  case Nil
  then show ?case by simp
next
  case (Cons c ds)
  let ?v = "val * 10 + digit_val c"
  have mono: "n \<le> foldl (\<lambda>n c. n * 10 + digit_val c) n xs" for n xs
  proof (induction xs arbitrary: n)
    case (Cons x xs)
    have "n \<le> n * 10 + digit_val x" by simp
    also have "\<dots> \<le> foldl (\<lambda>n c. n * 10 + digit_val c) (n * 10 + digit_val x) xs" by (rule Cons)
    finally show ?case by simp
  qed simp
  have "?v \<le> 255" using Cons.prems(3) mono [of ?v ds] by simp
  moreover have "Suc digLen = 1 \<and> ?v = 0 \<longrightarrow> ds = []"
  proof
    assume z: "Suc digLen = 1 \<and> ?v = 0"
    then have "digit_val c = 0" by simp
    with Cons.prems(1) have "c = CHR ''0''"
      by (auto simp: digit_val_def is_digit_def simp flip: byte_inject)
    with z Cons.prems(4) show "ds = []" by simp
  qed
  ultimately show ?case using Cons by auto
qed

lemma show_nat_leading: "hd (show_nat n) = CHR ''0'' \<Longrightarrow> tl (show_nat n) = []"
proof (induction n rule: show_nat.induct)
  case (1 n)
  show ?case
  proof (cases "n < 10")
    case True
    then show ?thesis by (subst show_nat.simps) simp
  next
    case False
    then have s: "show_nat n = show_nat (n div 10) @ [digit_char (n mod 10)]" by (subst show_nat.simps) simp
    with 1(2) have h: "hd (show_nat (n div 10)) = CHR ''0''" by (simp add: hd_append)
    from 1(1) [OF False h] have "show_nat (n div 10) = ''0''" using h
      by (metis list.collapse show_nat_nonempty)
    then have "digits_val (show_nat (n div 10)) = 0" by (simp add: digits_val_def digit_val_def)
    with False show ?thesis by simp
  qed
qed

lemma v4_fields_show:
  assumes "n \<le> 255"
  shows "v4_fields 0 0 fs (show_nat n @ r) = v4_fields n (length (show_nat n)) fs r"
  using v4_fields_digits [of "show_nat n" 0 0 fs r] assms show_nat_digits [of n] show_nat_leading [of n]
    digits_val_show_nat [of n]
  by (simp add: list_all_iff digits_val_def)

lemma dot_facts: "\<not> is_digit (CHR ''.'')" "\<not> is_digit (CHR '':'')" "\<not> is_digit (CHR ''%'')"
  by (simp_all add: is_digit_def)

lemma parseIPv4_show:
  assumes "length b = 4" "list_all (\<lambda>x. x < 256) b"
  shows "parseIPv4 (show_ipv4 b) = Some b"
proof -
  obtain b0 b1 b2 b3 where b: "b = [b0, b1, b2, b3]"
    using assms(1) by (auto simp: numeral_eq_Suc length_Suc_conv)
  then have "b0 \<le> 255" "b1 \<le> 255" "b2 \<le> 255" "b3 \<le> 255" using assms(2) by auto
  with v4_fields_show [of b3 "[b0, b1, b2]" "[]"] show ?thesis
    by (simp add: parseIPv4_def b show_ipv4_def v4_fields_show dot_facts)
qed

lemma ParseAddr_show:
  assumes "length b = 4" "list_all (\<lambda>x. x < 256) b"
  shows "ParseAddr (show_ipv4 b) = Some (32, v4InV6Prefix @ b)"
proof -
  obtain b0 b1 b2 b3 where b: "b = [b0, b1, b2, b3]"
    using assms(1) by (auto simp: numeral_eq_Suc length_Suc_conv)
  have "dropWhile (\<lambda>c. c \<notin> {CHR ''.'', CHR '':'', CHR ''%''}) (show_nat b0 @ CHR ''.'' # t) = CHR ''.'' # t" for t
    using show_nat_digits [of b0] dot_facts by (subst dropWhile_append2) auto
  then show ?thesis
    using parseIPv4_show [OF assms] by (simp add: ParseAddr_def show_ipv4_def b)
qed

lemma ParseIP_show:
  assumes "length b = 4" "list_all (\<lambda>x. x < 256) b"
  shows "ParseIP (show_ipv4 b) = Some (v4InV6Prefix @ b)"
  using ParseAddr_show [OF assms] by (simp add: ParseIP_def)

section \<open>Prefix match\<close>

lemma mask_byte_eq: "mask_byte k = push_bit (8 - min 8 k) (mask (min 8 k))"
proof -
  have "(256::nat) = 2 ^ (8 - min 8 k) * 2 ^ min 8 k"
    by (simp flip: power_add)
  then show ?thesis by (simp add: mask_byte_def push_bit_eq_mult mask_eq_exp_minus_1 algebra_simps)
qed

lemma and_mask_byte:
  assumes "a < 256"
  shows "a AND mask_byte k = push_bit (8 - min 8 k) (drop_bit (8 - min 8 k) a)"
proof (rule bit_eqI)
  fix i
  let ?n = "8 - min 8 k"
  have high: "i < 8" if "bit a i"
  proof (rule ccontr)
    assume "\<not> i < 8"
    then have "a < 2 ^ i" using assms power_increasing [of 8 i "2::nat"] by simp
    with that show False by (simp add: bit_iff_odd)
  qed
  show "bit (a AND mask_byte k) i = bit (push_bit ?n (drop_bit ?n a)) i"
  proof (cases "?n \<le> i")
    case True
    then have "bit (drop_bit ?n a) (i - ?n) = bit a i" by (simp add: bit_drop_bit_eq)
    moreover have "bit a i \<Longrightarrow> i - ?n < min 8 k" using high True by linarith
    ultimately show ?thesis using True by (auto simp: bit_and_iff mask_byte_eq bit_push_bit_iff bit_mask_iff)
  next
    case False
    then show ?thesis unfolding bit_and_iff mask_byte_eq bit_push_bit_iff by blast
  qed
qed

lemma and_mask_byte_eq_iff:
  assumes "a < 256" "x < 256"
  shows "a AND mask_byte k = x AND mask_byte k \<longleftrightarrow> a div 2 ^ (8 - min 8 k) = x div 2 ^ (8 - min 8 k)"
  using assms by (simp add: and_mask_byte push_bit_eq_mult drop_bit_eq_div)

definition v4_value :: "ip \<Rightarrow> nat" where
  "v4_value b = foldl (\<lambda>n x. n * 256 + x) 0 b"

lemma mult_add_inject:
  fixes u v m :: nat
  assumes "u < m" "v < m"
  shows "a * m + u = x * m + v \<longleftrightarrow> a = x \<and> u = v"
proof
  assume e: "a * m + u = x * m + v"
  have "a = (a * m + u) div m" "u = (a * m + u) mod m" using assms(1) by auto
  moreover have "x = (x * m + v) div m" "v = (x * m + v) mod m" using assms(2) by auto
  ultimately show "a = x \<and> u = v" using e by metis
qed simp

text \<open>The bytes a mask of \<open>n\<close> ones compares are the first \<open>n\<close> bits of the number.\<close>

lemma bytes_prefix_iff:
  fixes a x r t :: nat
  assumes "a < 256" "x < 256" "r < 256 ^ k" "t < 256 ^ k" "n \<le> 8 + 8 * k"
  shows "(a * 256 ^ k + r) div 2 ^ (8 + 8 * k - n) = (x * 256 ^ k + t) div 2 ^ (8 + 8 * k - n) \<longleftrightarrow>
     a div 2 ^ (8 - min 8 n) = x div 2 ^ (8 - min 8 n) \<and>
     r div 2 ^ (8 * k - (n - 8)) = t div 2 ^ (8 * k - (n - 8))"
proof (cases "n \<le> 8")
  case True
  have p: "(256::nat) ^ k = 2 ^ (8 * k)" by (simp add: power_mult)
  have d: "(y * 256 ^ k + q) div 2 ^ (8 + 8 * k - n) = y div 2 ^ (8 - n)" if "q < 256 ^ k" for y q :: nat
  proof -
    have "(2::nat) ^ (8 + 8 * k - n) = 256 ^ k * 2 ^ (8 - n)"
      using True by (simp add: p add.commute flip: power_add)
    then have "(y * 256 ^ k + q) div 2 ^ (8 + 8 * k - n) = (y * 256 ^ k + q) div 256 ^ k div 2 ^ (8 - n)"
      by (simp add: div_mult2_eq)
    with that show ?thesis by simp
  qed
  show ?thesis using True assms d [of r a] d [of t x] by (simp add: p)
next
  case False
  have p: "(256::nat) ^ k = 2 ^ (8 * k - (n - 8)) * 2 ^ (n - 8)"
    using False assms(5) by (simp add: power_mult flip: power_add)
  have e: "8 + 8 * k - n = 8 * k - (n - 8)" using False by simp
  have d: "(y * 256 ^ k + q) div 2 ^ (8 * k - (n - 8)) = y * 2 ^ (n - 8) + q div 2 ^ (8 * k - (n - 8))" for y q :: nat
  proof -
    have "y * 256 ^ k + q = q + (y * 2 ^ (n - 8)) * 2 ^ (8 * k - (n - 8))"
      by (simp add: p algebra_simps)
    then show ?thesis by (simp only: div_mult_self1) simp
  qed
  have b: "q div 2 ^ (8 * k - (n - 8)) < 2 ^ (n - 8)" if "q < 256 ^ k" for q :: nat
    using that p by (simp add: div_less_iff_less_mult mult.commute)
  have "a * 2 ^ (n - 8) + u = x * 2 ^ (n - 8) + v \<longleftrightarrow> a = x \<and> u = v" if "u < 2 ^ (n - 8)" "v < 2 ^ (n - 8)" for u v :: nat
    using mult_add_inject [of u "2 ^ (n - 8)" v a x] that by simp
  with b assms show ?thesis unfolding e d using False by simp
qed

lemma cidr_contains_iff:
  assumes "length a = 4" "length x = 4" "list_all (\<lambda>b. b < 256) a" "list_all (\<lambda>b. b < 256) x" "n \<le> 32"
  shows "Contains \<lparr>net_ip = ip_mask (v4InV6Prefix @ a) (CIDRMask n 32), net_mask = CIDRMask n 32\<rparr> (v4InV6Prefix @ x)
     \<longleftrightarrow> v4_value a div 2 ^ (32 - n) = v4_value x div 2 ^ (32 - n)"
proof -
  obtain a0 a1 a2 a3 x0 x1 x2 x3 where ax: "a = [a0, a1, a2, a3]" "x = [x0, x1, x2, x3]"
    using assms(1,2) by (auto simp: numeral_eq_Suc length_Suc_conv)
  have lt: "a0 < 256" "a1 < 256" "a2 < 256" "a3 < 256" "x0 < 256" "x1 < 256" "x2 < 256" "x3 < 256"
    using assms(3,4) by (auto simp: ax)
  have m: "CIDRMask n 32 = [mask_byte n, mask_byte (n - 8), mask_byte (n - 16), mask_byte (n - 24)]"
    by (simp add: CIDRMask_def upt_rec)
  have v: "v4_value a = a0 * 256 ^ 3 + (a1 * 256 ^ 2 + (a2 * 256 ^ 1 + (a3 * 256 ^ 0 + 0)))"
    "v4_value x = x0 * 256 ^ 3 + (x1 * 256 ^ 2 + (x2 * 256 ^ 1 + (x3 * 256 ^ 0 + 0)))"
    by (simp_all add: v4_value_def ax)
  have idem: "(u AND w) AND w = u AND w" for u w :: nat by (simp add: and.assoc)
  have "Contains \<lparr>net_ip = ip_mask (v4InV6Prefix @ a) (CIDRMask n 32), net_mask = CIDRMask n 32\<rparr> (v4InV6Prefix @ x)
     \<longleftrightarrow> a0 AND mask_byte n = x0 AND mask_byte n \<and> a1 AND mask_byte (n - 8) = x1 AND mask_byte (n - 8)
       \<and> a2 AND mask_byte (n - 16) = x2 AND mask_byte (n - 16) \<and> a3 AND mask_byte (n - 24) = x3 AND mask_byte (n - 24)"
    unfolding Contains_def networkNumberAndMask_def To4_def ip_mask_def m and_bytes_def ax
    by (simp add: v4InV6Prefix_def idem)
  also have "\<dots> \<longleftrightarrow> a0 div 2 ^ (8 - min 8 n) = x0 div 2 ^ (8 - min 8 n)
      \<and> a1 div 2 ^ (8 - min 8 (n - 8)) = x1 div 2 ^ (8 - min 8 (n - 8))
      \<and> a2 div 2 ^ (8 - min 8 (n - 16)) = x2 div 2 ^ (8 - min 8 (n - 16))
      \<and> a3 div 2 ^ (8 - min 8 (n - 24)) = x3 div 2 ^ (8 - min 8 (n - 24))"
    using lt by (simp only: and_mask_byte_eq_iff)
  also have "\<dots> \<longleftrightarrow> v4_value a div 2 ^ (32 - n) = v4_value x div 2 ^ (32 - n)"
  proof -
    have 0: "a3 * 256 ^ 0 + 0 < 256 ^ 1" "x3 * 256 ^ 0 + 0 < 256 ^ 1" using lt by simp_all
    have 1: "a2 * 256 ^ 1 + (a3 * 256 ^ 0 + 0) < 256 ^ 2" "x2 * 256 ^ 1 + (x3 * 256 ^ 0 + 0) < 256 ^ 2"
      using lt by simp_all
    have 2: "a1 * 256 ^ 2 + (a2 * 256 ^ 1 + (a3 * 256 ^ 0 + 0)) < 256 ^ 3"
      "x1 * 256 ^ 2 + (x2 * 256 ^ 1 + (x3 * 256 ^ 0 + 0)) < 256 ^ 3"
      using lt by simp_all
    show ?thesis unfolding v
      using bytes_prefix_iff [OF lt(1,5) 2, of n] bytes_prefix_iff [OF lt(2,6) 1, of "n - 8"]
        bytes_prefix_iff [OF lt(3,7) 0, of "n - 16"] bytes_prefix_iff [OF lt(4,8), of 0 0 0 "n - 24"] assms(5)
      by (simp add: diff_diff_left)
  qed
  finally show ?thesis .
qed

section \<open>Reading network text\<close>

text \<open>The text of a network in prefix notation.\<close>

definition show_cidr :: "ip \<times> nat \<Rightarrow> string" where
  "show_cidr net = show_ipv4 (fst net) @ ''/'' @ show_nat (snd net)"

lemma ipv4_text_no_slash: "CHR ''/'' \<notin> set (show_ipv4 b)"
proof -
  have "set (join_with ''.'' ss) \<subseteq> insert (CHR ''.'') (\<Union> (set ` set ss))" for ss
    by (induction "''.''" ss rule: join_with.induct) auto
  then have "set (show_ipv4 b) \<subseteq> insert (CHR ''.'') {c. is_digit c}"
    using show_nat_digits by (fastforce simp: show_ipv4_def)
  then show ?thesis by (auto simp: is_digit_def)
qed

lemma ParseCIDR_show:
  assumes "length b = 4" "list_all (\<lambda>x. x < 256) b" "n \<le> 32"
  shows "ParseCIDR (show_cidr (b, n)) = Some (v4InV6Prefix @ b,
    \<lparr>net_ip = ip_mask (v4InV6Prefix @ b) (CIDRMask n 32), net_mask = CIDRMask n 32\<rparr>)"
proof -
  have t: "takeWhile (\<lambda>c. c \<noteq> CHR ''/'') (show_cidr (b, n)) = show_ipv4 b"
    "dropWhile (\<lambda>c. c \<noteq> CHR ''/'') (show_cidr (b, n)) = CHR ''/'' # show_nat n"
    using ipv4_text_no_slash [of b] unfolding show_cidr_def
    by (subst takeWhile_append2 dropWhile_append2, fastforce, simp)+
  have d: "dtoi (show_nat n) = Some n"
    using assms(3) show_nat_digits by (simp add: dtoi_def list_all_iff)
  show ?thesis using ParseAddr_show [OF assms(1,2)] assms(3)
    by (simp add: ParseCIDR_def t d Let_def) (simp add: show_cidr_def)
qed

end
