(* ===== verification/Device_Identity.thy ===== *)
theory Device_Identity
  imports Audit_Chain Validators
begin

text \<open>
  How a device becomes known and proves who it is: \<open>internal/handlers/enrollment.go\<close> (the Fleet
  callback that consumes an enrollment token and links the device), \<open>device_identity.go\<close> (the signed
  cookie \<open>freecloud-device-id\<close> and the endpoint that sets it) and \<open>token_compare.go\<close>.

  The state is the tables \<open>enrollment_tokens\<close>, \<open>devices\<close> and \<open>users_devices_mapping\<close>.  A JSON body
  is the decoded request, \<^const>\<open>None\<close> when decoding fails; the parsed Referer is an input as well.
\<close>

section \<open>Secrets\<close>

definition constantTimeStringEqual :: "string \<Rightarrow> string \<Rightarrow> bool" where
  "constantTimeStringEqual a b \<longleftrightarrow> sha256 a = sha256 b"

definition enrollmentTokenHash :: "string \<Rightarrow> string" where
  "enrollmentTokenHash token = hex_encode (sha256 token)"

definition validFleetSignature :: "string \<Rightarrow> string \<Rightarrow> string \<Rightarrow> bool" where
  "validFleetSignature secret body header \<longleftrightarrow>
     secret \<noteq> [] \<and> header \<noteq> [] \<and> hex_encode (hmac_sha256 secret body) = trim_prefix ''sha256='' header"

section \<open>The cookie\<close>

definition deviceCookieTTL :: duration where
  "deviceCookieTTL = 15 * minute"

definition cookie_message :: "string \<Rightarrow> int \<Rightarrow> string" where
  "cookie_message hostID expiry = ''v1|'' @ hostID @ ''|'' @ show_int expiry"

datatype mint_error = Secret_required | Bad_host id_error

definition MintDeviceCookieValue :: "string \<Rightarrow> string \<Rightarrow> time \<Rightarrow> mint_error + string" where
  "MintDeviceCookieValue hostID secret now =
     (if secret = [] then Inl Secret_required
      else case ValidateHostID hostID of Some e \<Rightarrow> Inl (Bad_host e) | None \<Rightarrow>
       (let expiry = unix_seconds (now + deviceCookieTTL);
            sig = hex_encode (hmac_sha256 secret (cookie_message hostID expiry))
        in Inr (''v1.'' @ b64_encode hostID @ ''.'' @ show_int expiry @ ''.'' @ sig)))"

definition ParseAndVerifyDeviceCookie :: "string \<Rightarrow> string \<Rightarrow> time \<Rightarrow> string option" where
  "ParseAndVerifyDeviceCookie v secret now =
     (if v = [] \<or> secret = [] then None
      else case split_on (CHR ''.'') v of
        [p0, p1, p2, p3] \<Rightarrow>
          if p0 \<noteq> ''v1'' then None
          else (case b64_decode p1 of None \<Rightarrow> None | Some hostID \<Rightarrow>
            if hostID = [] then None
            else (case parse_int64 p2 of None \<Rightarrow> None | Some expiry \<Rightarrow>
              if unix_seconds now > expiry then None
              else (case hex_decode p3 of None \<Rightarrow> None | Some got \<Rightarrow>
                if hmac_sha256 secret (cookie_message hostID expiry) = got then Some hostID else None)))
      | _ \<Rightarrow> None)"

text \<open>The dedicated secret, else the secret of the Fleet webhook.\<close>

definition deviceCookieSigningSecret :: "string \<Rightarrow> string \<Rightarrow> string" where
  "deviceCookieSigningSecret deviceCookieSecret fleetWebhookSecret =
     (if deviceCookieSecret \<noteq> [] then deviceCookieSecret else fleetWebhookSecret)"

section \<open>Tables\<close>

record enroll_token =
  et_hash :: string
  et_user :: string
  et_org :: string
  et_used_at :: "time option"
  et_expires :: time
  et_host :: "string option"

record device_row =
  dv_host :: string
  dv_hostname :: string
  dv_os_version :: string
  dv_org :: string
  dv_last_seen :: time

record device_db =
  enroll_tokens :: "enroll_token list"
  devices :: "device_row list"
  device_map :: "(string \<times> string) list"

section \<open>Enrollment\<close>

record enroll_request =
  er_token :: string
  er_host :: string
  er_hostname :: string
  er_os_version :: string

record link_env =
  lk_now :: time
  lk_begin :: "string option"
  lk_consume :: "string option"
  lk_device :: "string option"
  lk_mapping :: "string option"
  lk_commit :: "string option"

datatype link_error = errEnrollmentTokenNotConsumable | Link_db string

definition consumable :: "string \<Rightarrow> time \<Rightarrow> enroll_token \<Rightarrow> bool" where
  "consumable h now t \<longleftrightarrow> et_hash t = h \<and> et_used_at t = None \<and> et_expires t > now"

definition upsert_device :: "device_row \<Rightarrow> device_row list \<Rightarrow> device_row list" where
  "upsert_device d rows =
     (if list_ex (\<lambda>r. dv_host r = dv_host d) rows
      then update_where (\<lambda>r. dv_host r = dv_host d) (\<lambda>_. d) rows
      else rows @ [d])"

definition insert_mapping :: "string \<times> string \<Rightarrow> (string \<times> string) list \<Rightarrow> (string \<times> string) list" where
  "insert_mapping p rows = (if p \<in> set rows then rows else rows @ [p])"

definition linkEnrolledDevice :: "link_env \<Rightarrow> enroll_request \<Rightarrow> device_db \<Rightarrow> (link_error + string) \<times> device_db" where
  "linkEnrolledDevice env req db =
     (case lk_begin env of Some e \<Rightarrow> (Inl (Link_db e), db) | None \<Rightarrow>
      (let h = enrollmentTokenHash (er_token req); ok = consumable h (lk_now env) in
       case select_one (lk_consume env) ok (enroll_tokens db) of
         No_rows \<Rightarrow> (Inl errEnrollmentTokenNotConsumable, db)
       | Db_error e \<Rightarrow> (Inl (Link_db e), db)
       | Ok t \<Rightarrow>
         (let tokens' = update_where ok (\<lambda>t. t\<lparr>et_used_at := Some (lk_now env), et_host := Some (er_host req)\<rparr>)
                          (enroll_tokens db);
              dev = \<lparr>dv_host = er_host req, dv_hostname = er_hostname req, dv_os_version = er_os_version req,
                     dv_org = et_org t, dv_last_seen = lk_now env\<rparr>
          in case lk_device env of Some e \<Rightarrow> (Inl (Link_db e), db) | None \<Rightarrow>
            (case lk_mapping env of Some e \<Rightarrow> (Inl (Link_db e), db) | None \<Rightarrow>
            (case lk_commit env of Some e \<Rightarrow> (Inl (Link_db e), db) | None \<Rightarrow>
             (Inr (et_user t),
              db\<lparr>enroll_tokens := tokens', devices := upsert_device dev (devices db),
                 device_map := insert_mapping (et_user t, er_host req) (device_map db)\<rparr>))))))"

definition respondEnrollmentTokenState :: "string option \<Rightarrow> time \<Rightarrow> string \<Rightarrow> device_db \<Rightarrow> 'b response" where
  "respondEnrollmentTokenState err now token db =
     (case select_one err (\<lambda>t. et_hash t = enrollmentTokenHash token) (enroll_tokens db) of
        No_rows \<Rightarrow> RespondError 404 ''unknown enrollment token''
      | Db_error e \<Rightarrow> RespondError 500 ''internal error''
      | Ok t \<Rightarrow>
          if et_used_at t \<noteq> None then RespondError 409 ''enrollment token already used''
          else if now > et_expires t then RespondError 410 ''enrollment token expired''
          else RespondError 409 ''enrollment token could not be consumed'')"

record callback_env =
  cb_secret :: string
  cb_body :: "string option"
  cb_signature :: string
  cb_request :: "enroll_request option"
  cb_has_db :: bool
  cb_link :: link_env
  cb_state_err :: "string option"
  cb_now :: time

text \<open>The callback answers, changes the tables, and records an audit entry when it links a device.\<close>

definition FleetEnrollmentCallback ::
  "callback_env \<Rightarrow> device_db \<Rightarrow> string response \<times> device_db \<times> audit_call list" where
  "FleetEnrollmentCallback env db =
     (case cb_body env of None \<Rightarrow> (RespondError 400 ''could not read request body'', db, []) | Some body \<Rightarrow>
      if \<not> validFleetSignature (cb_secret env) body (cb_signature env)
      then (RespondError 401 ''invalid signature'', db, [])
      else case cb_request env of None \<Rightarrow> (RespondError 400 ''invalid request body'', db, []) | Some raw \<Rightarrow>
      (let req = raw\<lparr>er_token := trim_space (er_token raw), er_host := trim_space (er_host raw)\<rparr> in
       if er_token req = [] \<or> er_host req = []
       then (RespondError 400 ''enrollment_token and host_id are required'', db, [])
       else if length (er_token req) > 512 then (RespondError 400 ''enrollment_token too long'', db, [])
       else case ValidateHostID (er_host req) of
         Some e \<Rightarrow> (RespondError 400 (id_error_text ''host id'' e), db, [])
       | None \<Rightarrow>
       if \<not> cb_has_db env then (RespondError 500 ''database not available'', db, [])
       else case linkEnrolledDevice (cb_link env) req db of
              (Inl errEnrollmentTokenNotConsumable, db') \<Rightarrow>
                (respondEnrollmentTokenState (cb_state_err env) (cb_now env) (er_token req) db', db', [])
            | (Inl (Link_db e), db') \<Rightarrow> (RespondError 500 ''failed to record device enrollment'', db', [])
            | (Inr userID, db') \<Rightarrow>
                (RespondJSON 200 (er_host req), db',
                 [\<lparr>ac_actor = ''fleet-webhook'', ac_action = ''device_enroll'', ac_target_type = ''device'',
                   ac_target_id = er_host req,
                   ac_details = Some (JObj [(''host_id'', JStr (er_host req)), (''hostname'', JStr (er_hostname req))])\<rparr>])))"

section \<open>Setting the cookie\<close>

datatype referer = No_referer | Bad_referer | Referer string string

definition originAllowed :: "string \<Rightarrow> referer \<Rightarrow> string \<Rightarrow> bool" where
  "originAllowed origin ref trusted =
     (if origin \<noteq> [] then origin = trusted
      else case ref of
             No_referer \<Rightarrow> False
           | Bad_referer \<Rightarrow> False
           | Referer scheme host \<Rightarrow> scheme \<noteq> [] \<and> host \<noteq> [] \<and> scheme @ ''://'' @ host = trusted)"

definition deviceIdentityTrustedOrigin :: "string \<Rightarrow> string" where
  "deviceIdentityTrustedOrigin cors_origin = (if cors_origin \<noteq> [] then cors_origin else ''http://localhost:3000'')"

record cookie_env =
  ck_content_type :: string
  ck_origin :: string
  ck_referer :: referer
  ck_cors_origin :: string
  ck_token :: "string option"
  ck_has_db :: bool
  ck_lookup :: "string option"
  ck_db_now :: time
  ck_device_secret :: string
  ck_fleet_secret :: string
  ck_now :: time

text \<open>The answer and the cookie value that is set, if any.\<close>

definition SetDeviceIdentityCookie :: "cookie_env \<Rightarrow> device_db \<Rightarrow> string response \<times> string option" where
  "SetDeviceIdentityCookie env db =
     (if \<not> has_prefix ''application/json'' (to_lower (trim_space (ck_content_type env)))
      then (RespondError 415 ''Content-Type must be application/json'', None)
      else if \<not> originAllowed (ck_origin env) (ck_referer env) (deviceIdentityTrustedOrigin (ck_cors_origin env))
      then (RespondError 403 ''forbidden: untrusted origin'', None)
      else case ck_token env of None \<Rightarrow> (RespondError 400 ''enrollmentToken is required'', None) | Some token \<Rightarrow>
      if token = [] then (RespondError 400 ''enrollmentToken is required'', None)
      else if \<not> ck_has_db env then (RespondError 503 ''database not available'', None)
      else case select_one (ck_lookup env)
             (\<lambda>t. et_hash t = enrollmentTokenHash token \<and> et_used_at t \<noteq> None \<and> et_expires t > ck_db_now env)
             (enroll_tokens db) of
        No_rows \<Rightarrow> (RespondError 404 ''enrollment token not found or device not yet enrolled'', None)
      | Db_error e \<Rightarrow> (RespondError 500 ''internal error'', None)
      | Ok t \<Rightarrow>
        (let hostID = (case et_host t of None \<Rightarrow> [] | Some x \<Rightarrow> x);
             secret = deviceCookieSigningSecret (ck_device_secret env) (ck_fleet_secret env)
         in if hostID = [] then (RespondError 422 ''device enrollment not yet recorded; retry shortly'', None)
            else if secret = [] then (RespondError 503 ''device identity is not configured'', None)
            else case MintDeviceCookieValue hostID secret (ck_now env) of
                   Inl e \<Rightarrow> (RespondError 500 ''internal error'', None)
                 | Inr v \<Rightarrow> (RespondJSON 200 ''ok'', Some v)))"

section \<open>Minting and verifying\<close>

lemma no_dot: "is_digit c \<Longrightarrow> c \<noteq> CHR ''.''" "is_hex c \<Longrightarrow> c \<noteq> CHR ''.''"
  by (auto simp: is_digit_def is_hex_def)

lemma hex_encode_hex: "c \<in> set (hex_encode s) \<Longrightarrow> is_hex c"
  by (induction s) (auto simp: hex_encode_Cons hex_digit_hex)

lemma cookie_parts:
  assumes "0 \<le> n"
  shows "split_on (CHR ''.'') (''v1.'' @ b64_encode h @ ''.'' @ show_int n @ ''.'' @ hex_encode m)
    = [''v1'', b64_encode h, show_int n, hex_encode m]"
proof -
  have a: "CHR ''.'' \<notin> set (b64_encode h)" using b64_encode_alphabet [of "CHR ''.''" h] by blast
  have b: "CHR ''.'' \<notin> set (show_int n)"
    using show_nat_digits [of "nat n"] no_dot(1) assms by (auto simp: show_int_def)
  have c: "CHR ''.'' \<notin> set (hex_encode m)" using hex_encode_hex [of _ m] no_dot(2) by blast
  have "split_on (CHR ''.'') (''v1'' @ CHR ''.'' # b64_encode h @ CHR ''.'' # show_int n @ CHR ''.'' # hex_encode m)
    = [''v1'', b64_encode h, show_int n, hex_encode m]"
    by (subst split_on_append, simp) (simp add: split_on_append a b c split_on_plain)
  then show ?thesis by simp
qed

lemma host_valid_nonempty: "ValidateHostID h = None \<Longrightarrow> h \<noteq> []"
  by (auto simp: ValidateHostID_def)

lemma mint_verify:
  assumes "ValidateHostID h = None" "secret \<noteq> []"
    and "0 \<le> unix_seconds (now + deviceCookieTTL)" "unix_seconds (now + deviceCookieTTL) < 2 ^ 63"
    and "MintDeviceCookieValue h secret now = Inr v"
  shows "ParseAndVerifyDeviceCookie v secret t
    = (if unix_seconds t \<le> unix_seconds (now + deviceCookieTTL) then Some h else None)"
proof -
  let ?x = "unix_seconds (now + deviceCookieTTL)"
  have v: "v = ''v1.'' @ b64_encode h @ ''.'' @ show_int ?x @ ''.'' @ hex_encode (hmac_sha256 secret (cookie_message h ?x))"
    using assms(1,2,5) by (simp add: MintDeviceCookieValue_def Let_def)
  have p: "parse_int64 (show_int ?x) = Some ?x"
    using parse_int64_show_nat [of "nat ?x"] assms(3,4) by (simp add: show_int_def nat_less_iff)
  have s: "split_on (CHR ''.'') v = [''v1'', b64_encode h, show_int ?x, hex_encode (hmac_sha256 secret (cookie_message h ?x))]"
    unfolding v by (rule cookie_parts [OF assms(3)])
  have "v \<noteq> []" by (simp add: v)
  then show ?thesis
    using s p assms(2) host_valid_nonempty [OF assms(1)]
    by (simp add: ParseAndVerifyDeviceCookie_def)
qed

text \<open>The message that is signed determines the host and the expiry: the decimal text has no bar.\<close>

lemma no_bar: "CHR ''|'' \<notin> set (show_int n)"
  using show_nat_digits [of "nat n"] show_nat_digits [of "nat (- n)"]
  by (auto simp: show_int_def is_digit_def)

lemma show_int_inject: "show_int m = show_int n \<longleftrightarrow> m = n"
proof -
  have "\<not> is_digit (CHR ''-'')" by (simp add: is_digit_def)
  then have "show_nat k \<noteq> CHR ''-'' # s" "CHR ''-'' # s \<noteq> show_nat k" for k s
    using show_nat_head [of k] by (metis list.sel(1))+
  then show ?thesis by (auto simp: show_int_def split: if_splits)
qed

lemma cookie_message_inject: "cookie_message h m = cookie_message k n \<longleftrightarrow> h = k \<and> m = n"
proof
  assume e: "cookie_message h m = cookie_message k n"
  then have "h @ CHR ''|'' # show_int m = k @ CHR ''|'' # show_int n" by (simp add: cookie_message_def)
  then have "rev (h @ CHR ''|'' # show_int m) = rev (k @ CHR ''|'' # show_int n)" by (rule arg_cong)
  then have "rev (show_int m) @ CHR ''|'' # rev h = rev (show_int n) @ CHR ''|'' # rev k"
    by (simp only: rev_append rev.simps append_assoc append.simps)
  then have "takeWhile (\<lambda>c. c \<noteq> CHR ''|'') (rev (show_int m) @ CHR ''|'' # rev h)
      = takeWhile (\<lambda>c. c \<noteq> CHR ''|'') (rev (show_int n) @ CHR ''|'' # rev k)" by simp
  moreover have "takeWhile (\<lambda>c. c \<noteq> CHR ''|'') (rev (show_int i) @ CHR ''|'' # r) = rev (show_int i)" for i r
    using no_bar [of i] by (subst takeWhile_append2) auto
  ultimately have "m = n" by (simp add: show_int_inject)
  with e show "h = k \<and> m = n" by (simp add: cookie_message_def)
qed simp

section \<open>Enrollment tokens\<close>

lemma linkEnrolledDevice_outcome:
  "(\<exists>e. linkEnrolledDevice env req db = (Inl e, db)) \<or>
   (\<exists>t. t \<in> set (enroll_tokens db) \<and> consumable (enrollmentTokenHash (er_token req)) (lk_now env) t
      \<and> linkEnrolledDevice env req db = (Inr (et_user t),
          \<lparr>enroll_tokens = update_where (consumable (enrollmentTokenHash (er_token req)) (lk_now env))
             (\<lambda>t. t\<lparr>et_used_at := Some (lk_now env), et_host := Some (er_host req)\<rparr>) (enroll_tokens db),
           devices = upsert_device \<lparr>dv_host = er_host req, dv_hostname = er_hostname req,
             dv_os_version = er_os_version req, dv_org = et_org t, dv_last_seen = lk_now env\<rparr> (devices db),
           device_map = insert_mapping (et_user t, er_host req) (device_map db)\<rparr>))"
  by (cases "select_one (lk_consume env) (consumable (enrollmentTokenHash (er_token req)) (lk_now env)) (enroll_tokens db)")
    (auto simp: linkEnrolledDevice_def Let_def dest!: select_one_Ok_D split: option.split)

lemma used_row_kept:
  "t \<in> set rows \<Longrightarrow> et_used_at t \<noteq> None \<Longrightarrow> t \<in> set (update_where (consumable h now) f rows)"
  by (auto simp: in_update_where consumable_def intro!: bexI [of _ t])

definition link_step :: "link_env \<times> enroll_request \<Rightarrow> device_db \<Rightarrow> device_db" where
  "link_step op db = snd (linkEnrolledDevice (fst op) (snd op) db)"

definition spent_token :: "string \<Rightarrow> device_db \<Rightarrow> bool" where
  "spent_token h db \<longleftrightarrow> distinct (map et_hash (enroll_tokens db)) \<and>
     (\<exists>t \<in> set (enroll_tokens db). et_hash t = h \<and> et_used_at t \<noteq> None)"

lemma link_step_hashes: "map et_hash (enroll_tokens (link_step op db)) = map et_hash (enroll_tokens db)"
  using linkEnrolledDevice_outcome [of "fst op" "snd op" db]
  by (auto simp: link_step_def map_update_where)

interpretation enrollment: guarded_machine link_step "\<lambda>_ _. True" "spent_token h" for h
proof
  fix db op
  assume s: "spent_token h db"
  then obtain t where t: "t \<in> set (enroll_tokens db)" "et_hash t = h" "et_used_at t \<noteq> None"
    by (auto simp: spent_token_def)
  have kept: "t \<in> set (enroll_tokens (link_step op db))"
    using linkEnrolledDevice_outcome [of "fst op" "snd op" db] used_row_kept [OF t(1,3)] t(1)
    unfolding link_step_def by (elim disjE exE conjE) simp_all
  have "distinct (map et_hash (enroll_tokens (link_step op db)))"
    unfolding link_step_hashes using s by (simp add: spent_token_def)
  with kept t show "spent_token h (link_step op db)" unfolding spent_token_def by blast
qed

lemma spent_token_refused: "spent_token (enrollmentTokenHash (er_token req)) db
   \<Longrightarrow> \<exists>e. linkEnrolledDevice env req db = (Inl e, db)"
proof -
  assume "spent_token (enrollmentTokenHash (er_token req)) db"
  then obtain u where u: "u \<in> set (enroll_tokens db)" "et_hash u = enrollmentTokenHash (er_token req)"
      "et_used_at u \<noteq> None" and inj: "inj_on et_hash (set (enroll_tokens db))"
    by (auto simp: spent_token_def distinct_map)
  have "\<not> consumable (enrollmentTokenHash (er_token req)) (lk_now env) t" if "t \<in> set (enroll_tokens db)" for t
    using inj_onD [OF inj _ that u(1)] u(2,3) by (auto simp: consumable_def)
  with linkEnrolledDevice_outcome [of env req db] show ?thesis by blast
qed

lemma legal_run_True: "legal_run step (\<lambda>_ _. True) ops s"
  by (induction ops arbitrary: s) auto

lemma upsert_device_all: "d' \<in> set (upsert_device d rows) \<Longrightarrow> dv_host d' = dv_host d \<Longrightarrow> d' = d"
  unfolding upsert_device_def by (auto simp: list_ex_iff in_update_where split: if_splits)

lemma four_parts:
  "(case xs of [a, b, c, d] \<Rightarrow> f a b c d | _ \<Rightarrow> None) = Some y \<Longrightarrow> \<exists>a b c d. xs = [a, b, c, d] \<and> f a b c d = Some y"
  by (auto split: list.splits)

section \<open>Properties of device identity\<close>

text \<open>A cookie minted for a valid host id is accepted with the same secret until its expiry second and
  gives back exactly that host id; afterwards it is refused.\<close>

theorem device_cookie_roundtrip:
  assumes "ValidateHostID h = None" "secret \<noteq> []"
    and "0 \<le> unix_seconds (now + deviceCookieTTL)" "unix_seconds (now + deviceCookieTTL) < 2 ^ 63"
  shows "\<exists>v. MintDeviceCookieValue h secret now = Inr v
     \<and> ParseAndVerifyDeviceCookie v secret t
       = (if unix_seconds t \<le> unix_seconds (now + deviceCookieTTL) then Some h else None)"
  using assms mint_verify [OF assms] by (auto simp: MintDeviceCookieValue_def Let_def)

theorem device_cookie_roundtrip_witness:
  "\<exists>v. MintDeviceCookieValue ''host-42'' ''s3cret'' 0 = Inr v
     \<and> ParseAndVerifyDeviceCookie v ''s3cret'' (10 * minute)
       = (if unix_seconds (10 * minute) \<le> unix_seconds (0 + deviceCookieTTL) then Some ''host-42'' else None)"
proof (rule device_cookie_roundtrip)
  show "ValidateHostID ''host-42'' = None" by code_simp
qed (simp_all add: unix_seconds_def deviceCookieTTL_def minute_def second_def)

text \<open>A cookie is accepted only with the HMAC-SHA256, under the configured secret, of a message that
  names exactly the returned host and an expiry that has not passed; the signed message determines
  both, so a signature for one host or one expiry does not serve for another.\<close>

theorem device_cookie_needs_mac:
  "(ParseAndVerifyDeviceCookie v secret now = Some h \<longrightarrow>
      (\<exists>p1 p2 p3 expiry. split_on (CHR ''.'') v = [''v1'', p1, p2, p3] \<and> b64_decode p1 = Some h
         \<and> parse_int64 p2 = Some expiry \<and> unix_seconds now \<le> expiry \<and> secret \<noteq> []
         \<and> hex_decode p3 = Some (hmac_sha256 secret (cookie_message h expiry))))
   \<and> (cookie_message h m = cookie_message k n \<longleftrightarrow> h = k \<and> m = n)"
proof
  show "cookie_message h m = cookie_message k n \<longleftrightarrow> h = k \<and> m = n" by (rule cookie_message_inject)
  show "ParseAndVerifyDeviceCookie v secret now = Some h \<longrightarrow>
      (\<exists>p1 p2 p3 expiry. split_on (CHR ''.'') v = [''v1'', p1, p2, p3] \<and> b64_decode p1 = Some h
         \<and> parse_int64 p2 = Some expiry \<and> unix_seconds now \<le> expiry \<and> secret \<noteq> []
         \<and> hex_decode p3 = Some (hmac_sha256 secret (cookie_message h expiry)))"
    by (auto simp: ParseAndVerifyDeviceCookie_def dest!: four_parts split: if_splits option.splits)
qed

theorem device_cookie_needs_mac_witness:
  "\<exists>v p1 p2 p3 expiry. MintDeviceCookieValue ''host-42'' ''s3cret'' 0 = Inr v
     \<and> split_on (CHR ''.'') v = [''v1'', p1, p2, p3] \<and> b64_decode p1 = Some ''host-42''
     \<and> parse_int64 p2 = Some expiry \<and> unix_seconds 0 \<le> expiry \<and> ''s3cret'' \<noteq> []
     \<and> hex_decode p3 = Some (hmac_sha256 ''s3cret'' (cookie_message ''host-42'' expiry))"
proof -
  have h: "ValidateHostID ''host-42'' = None" by code_simp
  obtain v where v: "MintDeviceCookieValue ''host-42'' ''s3cret'' 0 = Inr v"
    using h by (auto simp: MintDeviceCookieValue_def Let_def)
  have "ParseAndVerifyDeviceCookie v ''s3cret'' 0 = Some ''host-42''"
    using mint_verify [OF h _ _ _ v, of 0]
    by (simp add: unix_seconds_def deviceCookieTTL_def minute_def second_def)
  from device_cookie_needs_mac [THEN conjunct1, THEN mp, OF this] v show ?thesis by blast
qed

text \<open>C12. An enrollment token is used at most once: after a callback has linked a device with it, whatever
  callbacks follow, no callback links a device with that token again.  The link maps the device to
  the user of the token and gives it the organisation the token was issued for.\<close>

theorem enrollment_token_single_use:
  assumes "linkEnrolledDevice env req db = (Inr uid, db1)" "distinct (map et_hash (enroll_tokens db))"
    and "er_token req2 = er_token req"
  shows "(\<exists>e. linkEnrolledDevice env2 req2 (fold link_step ops db1) = (Inl e, fold link_step ops db1))
     \<and> (uid, er_host req) \<in> set (device_map db1)
     \<and> (\<exists>t \<in> set (enroll_tokens db). et_hash t = enrollmentTokenHash (er_token req) \<and> et_user t = uid
          \<and> list_all (\<lambda>d. dv_host d = er_host req \<longrightarrow> dv_org d = et_org t) (devices db1))"
proof -
  let ?h = "enrollmentTokenHash (er_token req)"
  obtain t where t: "t \<in> set (enroll_tokens db)" "consumable ?h (lk_now env) t" "uid = et_user t"
    and db1: "db1 = \<lparr>enroll_tokens = update_where (consumable ?h (lk_now env))
             (\<lambda>t. t\<lparr>et_used_at := Some (lk_now env), et_host := Some (er_host req)\<rparr>) (enroll_tokens db),
           devices = upsert_device \<lparr>dv_host = er_host req, dv_hostname = er_hostname req,
             dv_os_version = er_os_version req, dv_org = et_org t, dv_last_seen = lk_now env\<rparr> (devices db),
           device_map = insert_mapping (et_user t, er_host req) (device_map db)\<rparr>"
    using linkEnrolledDevice_outcome [of env req db] assms(1) by auto
  have "spent_token ?h db1"
    unfolding spent_token_def
  proof
    show "distinct (map et_hash (enroll_tokens db1))" using assms(2) by (simp add: db1 map_update_where)
    let ?t = "t\<lparr>et_used_at := Some (lk_now env), et_host := Some (er_host req)\<rparr>"
    have "?t \<in> set (enroll_tokens db1)"
      using t(1,2) by (auto simp: db1 in_update_where intro: bexI [of _ t])
    then show "\<exists>t \<in> set (enroll_tokens db1). et_hash t = ?h \<and> et_used_at t \<noteq> None"
      by (rule bexI [rotated]) (use t(2) in \<open>simp add: consumable_def\<close>)
  qed
  then have "spent_token ?h (fold link_step ops db1)"
    by (rule enrollment.run_inv) (rule legal_run_True)
  then have "\<exists>e. linkEnrolledDevice env2 req2 (fold link_step ops db1) = (Inl e, fold link_step ops db1)"
    using spent_token_refused [of req2] assms(3) by simp
  moreover have "(uid, er_host req) \<in> set (device_map db1)" using t by (simp add: db1 insert_mapping_def)
  moreover have "list_all (\<lambda>d. dv_host d = er_host req \<longrightarrow> dv_org d = et_org t) (devices db1)"
    using upsert_device_all by (fastforce simp: db1 list_all_iff)
  ultimately show ?thesis using t by (auto simp: consumable_def)
qed

definition sample_token :: enroll_token where
  "sample_token = \<lparr>et_hash = enrollmentTokenHash ''tok'', et_user = ''u1'', et_org = ''o1'', et_used_at = None,
     et_expires = 100, et_host = None\<rparr>"

definition sample_devices :: device_db where
  "sample_devices = \<lparr>enroll_tokens = [sample_token], devices = [], device_map = []\<rparr>"

definition sample_link :: link_env where
  "sample_link = \<lparr>lk_now = 50, lk_begin = None, lk_consume = None, lk_device = None, lk_mapping = None, lk_commit = None\<rparr>"

definition sample_enroll :: enroll_request where
  "sample_enroll = \<lparr>er_token = ''tok'', er_host = ''h1'', er_hostname = ''mac'', er_os_version = ''14''\<rparr>"

theorem enrollment_token_single_use_witness:
  "let db1 = snd (linkEnrolledDevice sample_link sample_enroll sample_devices); ops = [(sample_link, sample_enroll)] in
     (\<exists>e. linkEnrolledDevice sample_link sample_enroll (fold link_step ops db1) = (Inl e, fold link_step ops db1))
     \<and> (''u1'', er_host sample_enroll) \<in> set (device_map db1)
     \<and> (\<exists>t \<in> set (enroll_tokens sample_devices). et_hash t = enrollmentTokenHash (er_token sample_enroll) \<and> et_user t = ''u1''
          \<and> list_all (\<lambda>d. dv_host d = er_host sample_enroll \<longrightarrow> dv_org d = et_org t) (devices db1))"
proof -
  let ?db1 = "snd (linkEnrolledDevice sample_link sample_enroll sample_devices)"
  have "linkEnrolledDevice sample_link sample_enroll sample_devices = (Inr ''u1'', ?db1)"
    by (simp add: linkEnrolledDevice_def sample_link_def sample_enroll_def sample_devices_def sample_token_def
        select_one_def consumable_def Let_def)
  from enrollment_token_single_use [OF this, of sample_enroll sample_link "[(sample_link, sample_enroll)]"]
  show ?thesis by (simp add: Let_def sample_devices_def)
qed

end
