(* ===== verification/Auth.thy ===== *)
theory Auth
  imports Validators Go_Crypto Go_Time
begin

text \<open>
  Authentication and authorisation of requests, \<open>internal/middleware/auth.go\<close>: the roles and the
  permission matrix, API tokens, the JWKS cache, the cache of disabled users and the middleware that
  validates a JWT.  The parser of the library \<open>golang-jwt\<close> is the parameter \<open>jwt_parse\<close>: given the options of
  the parser, the key function of the caller, the token and the clock it returns the claims of a valid token or an error.
  What the library documents of it is the hypothesis \<open>jwt_library\<close>; the options and the key function
  are those of the source.
\<close>

section \<open>Roles and permissions\<close>

datatype role = RoleSuperAdmin | RoleHelpdesk | RoleAuditor | RoleReadOnly | RoleEndUser

fun role_string :: "role \<Rightarrow> string" where
  "role_string RoleSuperAdmin = ''super-admin''"
| "role_string RoleHelpdesk = ''helpdesk''"
| "role_string RoleAuditor = ''auditor''"
| "role_string RoleReadOnly = ''read-only''"
| "role_string RoleEndUser = ''end-user''"

datatype permission =
    PermManageUsers | PermOnboardOffboard | PermReadUsers | PermManageApps | PermReadApps
  | PermReadAuditLogs | PermExportAuditLogs | PermManageGroups | PermReadGroups | PermManageDevices
  | PermReadCompliance | PermManagePolicies | PermManageMFA | PermManageAPITokens | PermSelfService
  | PermManageCampaigns | PermReviewCampaigns | PermApproveRequests | PermSubmitApprovals
  | PermManageAccountPolicy | PermManageOrgs | PermManageOrgMembers

fun permissionMatrix :: "permission \<Rightarrow> role list" where
  "permissionMatrix PermManageUsers = [RoleSuperAdmin]"
| "permissionMatrix PermOnboardOffboard = [RoleSuperAdmin]"
| "permissionMatrix PermReadUsers = [RoleSuperAdmin, RoleHelpdesk, RoleAuditor, RoleReadOnly]"
| "permissionMatrix PermManageApps = [RoleSuperAdmin]"
| "permissionMatrix PermReadApps = [RoleSuperAdmin, RoleHelpdesk, RoleAuditor, RoleReadOnly]"
| "permissionMatrix PermReadAuditLogs = [RoleSuperAdmin, RoleAuditor]"
| "permissionMatrix PermExportAuditLogs = [RoleSuperAdmin, RoleAuditor]"
| "permissionMatrix PermManageGroups = [RoleSuperAdmin]"
| "permissionMatrix PermReadGroups = [RoleSuperAdmin, RoleHelpdesk, RoleAuditor, RoleReadOnly]"
| "permissionMatrix PermManageDevices = [RoleSuperAdmin, RoleHelpdesk]"
| "permissionMatrix PermReadCompliance = [RoleSuperAdmin, RoleHelpdesk, RoleAuditor, RoleReadOnly]"
| "permissionMatrix PermManagePolicies = [RoleSuperAdmin, RoleHelpdesk]"
| "permissionMatrix PermManageMFA = [RoleSuperAdmin, RoleHelpdesk]"
| "permissionMatrix PermManageAPITokens = [RoleSuperAdmin]"
| "permissionMatrix PermSelfService = [RoleSuperAdmin, RoleHelpdesk, RoleAuditor, RoleReadOnly, RoleEndUser]"
| "permissionMatrix PermManageCampaigns = [RoleSuperAdmin]"
| "permissionMatrix PermReviewCampaigns = [RoleSuperAdmin, RoleAuditor]"
| "permissionMatrix PermApproveRequests = [RoleSuperAdmin]"
| "permissionMatrix PermSubmitApprovals = [RoleSuperAdmin, RoleHelpdesk]"
| "permissionMatrix PermManageAccountPolicy = [RoleSuperAdmin]"
| "permissionMatrix PermManageOrgs = [RoleSuperAdmin]"
| "permissionMatrix PermManageOrgMembers = [RoleSuperAdmin]"

definition roleHasPermission :: "role \<Rightarrow> permission \<Rightarrow> bool" where
  "roleHasPermission r p = list_ex (\<lambda>x. x = r) (permissionMatrix p)"

definition RoleFromString :: "string \<Rightarrow> role option" where
  "RoleFromString s =
     find (\<lambda>r. role_string r = s) [RoleSuperAdmin, RoleHelpdesk, RoleAuditor, RoleReadOnly, RoleEndUser]"

definition resolveRole :: "string list \<Rightarrow> role" where
  "resolveRole roles =
     (if ''admin'' \<in> set roles \<or> ''freecloud-admin'' \<in> set roles then RoleSuperAdmin
      else if ''freecloud-helpdesk'' \<in> set roles then RoleHelpdesk
      else if ''freecloud-auditor'' \<in> set roles then RoleAuditor
      else if ''freecloud-readonly'' \<in> set roles then RoleReadOnly
      else RoleEndUser)"

record jwt_claims =
  jc_sub :: string
  jc_username :: string
  jc_email :: string
  jc_is_admin :: bool
  jc_role :: role

definition HasPermission :: "jwt_claims option \<Rightarrow> permission \<Rightarrow> bool" where
  "HasPermission c p = (case c of None \<Rightarrow> False | Some c \<Rightarrow> roleHasPermission (jc_role c) p)"

record org_context =
  oc_org :: string
  oc_role :: string

definition OrgMembershipRoleAdmin :: string where
  "OrgMembershipRoleAdmin = ''org-admin''"

text \<open>What a middleware decides about a request: an error answer, or the claims and the organisation with
  which the next handler runs.\<close>

datatype verdict = Reject nat string | Pass "jwt_claims option" "org_context option"

definition RequirePermission :: "permission \<Rightarrow> jwt_claims option \<Rightarrow> org_context option \<Rightarrow> verdict" where
  "RequirePermission p c oc =
     (if HasPermission c p then Pass c oc else Reject 403 ''forbidden: insufficient permissions'')"

section \<open>API tokens\<close>

record api_token =
  at_id :: string
  at_hash :: string
  at_role :: string
  at_identity :: string
  at_org :: string
  at_revoked :: "time option"
  at_expires :: "time option"

definition handleAPIToken :: "bool \<Rightarrow> string option \<Rightarrow> time \<Rightarrow> api_token list \<Rightarrow> string \<Rightarrow> verdict" where
  "handleAPIToken has_db err now tokens tokenStr =
     (if \<not> has_db then Reject 500 ''auth service temporarily unavailable''
      else case select_one err (\<lambda>t. at_hash t = hex_sha256 tokenStr) tokens of
        Ok t \<Rightarrow>
          if at_revoked t \<noteq> None then Reject 401 ''unauthorized: token has been revoked''
          else if (case at_expires t of Some e \<Rightarrow> now > e | None \<Rightarrow> False)
            then Reject 401 ''unauthorized: token has expired''
          else (case RoleFromString (at_role t) of
            None \<Rightarrow> Reject 401 ''unauthorized: invalid API token role''
          | Some r \<Rightarrow>
              Pass (Some \<lparr>jc_sub = ''api-token:'' @ at_id t, jc_username = ''api-token:'' @ at_identity t, jc_email = [],
                          jc_is_admin = (r = RoleSuperAdmin), jc_role = r\<rparr>)
                   (Some \<lparr>oc_org = at_org t,
                          oc_role = (if r = RoleSuperAdmin then OrgMembershipRoleAdmin else [])\<rparr>))
      | _ \<Rightarrow> Reject 401 ''unauthorized: invalid API token'')"

section \<open>The cache of disabled users\<close>

definition disabledStatusCacheTTL :: duration where
  "disabledStatusCacheTTL = 10 * second"

record disabled_cache =
  dc_entries :: "string \<rightharpoonup> bool \<times> time"
  dc_order :: "(string \<times> time) list"

definition empty_cache :: disabled_cache where
  "empty_cache = \<lparr>dc_entries = (\<lambda>_. None), dc_order = []\<rparr>"

definition disabledCacheGet :: "time \<Rightarrow> string \<Rightarrow> disabled_cache \<Rightarrow> bool option \<times> disabled_cache" where
  "disabledCacheGet now sub c =
     (case dc_entries c sub of
        None \<Rightarrow> (None, c)
      | Some (d, e) \<Rightarrow>
          if now > e then (None, c\<lparr>dc_entries := (dc_entries c)(sub := None)\<rparr>) else (Some d, c))"

fun sweepDisabledCacheLocked :: "time \<Rightarrow> (string \<rightharpoonup> bool \<times> time) \<Rightarrow> (string \<times> time) list
   \<Rightarrow> (string \<rightharpoonup> bool \<times> time) \<times> (string \<times> time) list" where
  "sweepDisabledCacheLocked now m [] = (m, [])"
| "sweepDisabledCacheLocked now m ((sub, e) # rest) =
     (if now < e then (m, (sub, e) # rest)
      else case m sub of
             None \<Rightarrow> sweepDisabledCacheLocked now m rest
           | Some (d, cur) \<Rightarrow>
               if cur > e then sweepDisabledCacheLocked now m rest
               else sweepDisabledCacheLocked now (m(sub := None)) rest)"

definition disabledCacheSet :: "time \<Rightarrow> string \<Rightarrow> bool \<Rightarrow> disabled_cache \<Rightarrow> disabled_cache" where
  "disabledCacheSet now sub disabled c =
     (let e = now + disabledStatusCacheTTL;
          (m, q) = sweepDisabledCacheLocked now ((dc_entries c)(sub \<mapsto> (disabled, e))) (dc_order c @ [(sub, e)])
      in \<lparr>dc_entries = m, dc_order = q\<rparr>)"

text \<open>The row of the user: \<^const>\<open>No_rows\<close> is a user the backend does not track.  The query and the store of its
  answer in the cache are one step at one clock reading: the latency of the query is not modelled.\<close>

definition isUserDisabled :: "bool \<Rightarrow> bool query \<Rightarrow> time \<Rightarrow> string \<Rightarrow> disabled_cache
   \<Rightarrow> (string + bool) \<times> disabled_cache" where
  "isUserDisabled has_db row now sub c =
     (if \<not> has_db then (Inr False, c)
      else case disabledCacheGet now sub c of
        (Some d, c') \<Rightarrow> (Inr d, c')
      | (None, c') \<Rightarrow>
          (case row of
             Ok d \<Rightarrow> (Inr d, disabledCacheSet now sub d c')
           | No_rows \<Rightarrow> (Inr False, disabledCacheSet now sub False c')
           | Db_error e \<Rightarrow> (Inl e, c')))"

section \<open>Keys\<close>

definition minJWKSRefreshInterval :: duration where "minJWKSRefreshInterval = 5 * second"
definition jwksCacheTTL :: duration where "jwksCacheTTL = 5 * minute"

type_synonym rsa_key = "string \<times> nat"

record jwk =
  jwk_kid :: string
  jwk_kty :: string
  jwk_n :: string
  jwk_e :: string

text \<open>One key of the document, if it is usable; the exponent is accumulated in a 64-bit integer.\<close>

definition parse_jwk :: "jwk \<Rightarrow> (string \<times> rsa_key) option" where
  "parse_jwk k =
     (if jwk_kty k \<noteq> ''RSA'' \<or> jwk_kid k = [] then None
      else case (b64_decode (jwk_n k), b64_decode (jwk_e k)) of
             (Some n, Some e) \<Rightarrow> Some (jwk_kid k, n, foldl (\<lambda>x c. (x * 256 + byte c) mod 2 ^ 64) 0 e)
           | _ \<Rightarrow> None)"

text \<open>Keys that come later replace those with the same kid.\<close>

definition put_key :: "string \<times> rsa_key \<Rightarrow> (string \<times> rsa_key) list \<Rightarrow> (string \<times> rsa_key) list" where
  "put_key kv m = filter (\<lambda>x. fst x \<noteq> fst kv) m @ [kv]"

definition parse_jwks :: "jwk list \<Rightarrow> (string \<times> rsa_key) list" where
  "parse_jwks ks = fold put_key (List.map_filter parse_jwk ks) []"

record jwks_state =
  js_keys :: "(string \<times> rsa_key) list"
  js_last_fetch :: time
  js_last_attempt :: time
  js_fetches :: "time list"

datatype jwks_answer = Fetch_failed string | Bad_status nat | Bad_json string | Keys "jwk list"

text \<open>\<open>js_fetches\<close> records when the certificate endpoint was asked.\<close>

definition refreshJWKS :: "time \<Rightarrow> jwks_answer \<Rightarrow> jwks_state \<Rightarrow> string option \<times> jwks_state" where
  "refreshJWKS now ans s =
     (let s = s\<lparr>js_fetches := js_fetches s @ [now]\<rparr> in
      case ans of
        Fetch_failed e \<Rightarrow> (Some (''fetch jwks: '' @ e), s)
      | Bad_status n \<Rightarrow> (Some (''jwks fetch returned status '' @ show_nat n), s)
      | Bad_json e \<Rightarrow> (Some (''decode jwks: '' @ e), s)
      | Keys ks \<Rightarrow>
          if parse_jwks ks = [] then (Some ''no valid RSA keys found in JWKS response'', s)
          else (None, s\<lparr>js_keys := parse_jwks ks, js_last_fetch := now\<rparr>))"

definition refreshJWKSRateLimited :: "time \<Rightarrow> jwks_answer \<Rightarrow> jwks_state \<Rightarrow> string option \<times> jwks_state" where
  "refreshJWKSRateLimited now ans s =
     (if now - js_last_attempt s < minJWKSRefreshInterval then (None, s)
      else refreshJWKS now ans (s\<lparr>js_last_attempt := now\<rparr>))"

text \<open>\<open>kid\<close> is the key id in the header of the token, empty when there is none or the header cannot be
  read.  \<open>Inr None\<close>: try every cached key.\<close>

definition keyForToken :: "time \<Rightarrow> jwks_answer \<Rightarrow> string \<Rightarrow> jwks_state \<Rightarrow> (string + rsa_key option) \<times> jwks_state" where
  "keyForToken now ans kid s =
     (let fresh = (now - js_last_fetch s < jwksCacheTTL \<and> js_keys s \<noteq> []);
          key = (if fresh \<and> kid \<noteq> [] then map_of (js_keys s) kid else None)
      in case key of Some k \<Rightarrow> (Inr (Some k), s) | None \<Rightarrow>
         if kid = [] \<and> fresh then (Inr None, s)
         else case refreshJWKSRateLimited now ans s of
           (Some e, s') \<Rightarrow> (Inl e, s')
         | (None, s') \<Rightarrow>
             if kid = [] then (Inr None, s')
             else (case map_of (js_keys s') kid of
                     Some k \<Rightarrow> (Inr (Some k), s')
                   | None \<Rightarrow> (Inl (''no key found for kid '' @ [CHR 0x22] @ kid @ [CHR 0x22]), s')))"

section \<open>Audience\<close>

text \<open>The claims the middleware reads; a claim of another type is absent.\<close>

datatype claim_value = Claim_string string | Claim_list "jval list" | Claim_other

definition claimStrings :: "claim_value \<Rightarrow> string list" where
  "claimStrings v =
     (case v of
        Claim_string s \<Rightarrow> [s]
      | Claim_list vs \<Rightarrow> List.map_filter (\<lambda>x. case x of JStr s \<Rightarrow> Some s | _ \<Rightarrow> None) vs
      | Claim_other \<Rightarrow> [])"

record token_claims =
  tc_sub :: "string option"
  tc_username :: "string option"
  tc_email :: "string option"
  tc_aud :: claim_value
  tc_azp :: "string option"
  tc_iss :: "string option"
  tc_roles :: "jval list option"
  tc_exp :: "time option"
  tc_nbf :: "time option"
  tc_iat :: "time option"

definition defaultAccountAudience :: string where
  "defaultAccountAudience = ''account''"

definition audienceAccepted :: "token_claims \<Rightarrow> string \<Rightarrow> bool" where
  "audienceAccepted c audience =
     (let auds = claimStrings (tc_aud c) in
      if list_ex (\<lambda>a. a = audience) auds then True
      else if (case tc_azp c of Some a \<Rightarrow> a | None \<Rightarrow> []) \<noteq> audience then False
      else if auds = [] then True
      else list_all (\<lambda>a. a = defaultAccountAudience) auds)"

section \<open>The middleware\<close>

definition or_empty :: "string option \<Rightarrow> string" where
  "or_empty v = (case v of Some s \<Rightarrow> s | None \<Rightarrow> [])"

definition json_strings :: "jval list \<Rightarrow> string list" where
  "json_strings vs = List.map_filter (\<lambda>x. case x of JStr s \<Rightarrow> Some s | _ \<Rightarrow> None) vs"

definition claims_of :: "token_claims \<Rightarrow> jwt_claims" where
  "claims_of c =
     (let base = \<lparr>jc_sub = or_empty (tc_sub c), jc_username = or_empty (tc_username c), jc_email = or_empty (tc_email c),
                  jc_is_admin = False, jc_role = RoleEndUser\<rparr>
      in case tc_roles c of
           None \<Rightarrow> base
         | Some vs \<Rightarrow>
             base\<lparr>jc_is_admin := list_ex (\<lambda>r. r = ''admin'' \<or> r = ''freecloud-admin'') (json_strings vs),
                  jc_role := resolveRole (json_strings vs)\<rparr>)"

record auth_config =
  au_audience :: string
  au_issuer :: string

text \<open>The parser of the library, its options and the key function the middleware hands to it: only the signing
  methods of the type \<open>SigningMethodRSA\<close> get a key.\<close>

record parser_options =
  po_exp_required :: bool
  po_issued_at :: bool
  po_leeway :: duration

definition jwt_options :: parser_options where
  "jwt_options = \<lparr>po_exp_required = True, po_issued_at = True, po_leeway = 30 * second\<rparr>"

definition key_function :: "rsa_key \<Rightarrow> string \<Rightarrow> string + rsa_key" where
  "key_function key alg =
     (if alg = ''RS256'' \<or> alg = ''RS384'' \<or> alg = ''RS512'' then Inr key
      else Inl (''unexpected signing method: '' @ alg))"

type_synonym jwt_parser = "parser_options \<Rightarrow> (string \<Rightarrow> string + rsa_key) \<Rightarrow> string \<Rightarrow> time \<Rightarrow> string + token_claims"

text \<open>The loop over the candidate keys: the first key under which the token verifies decides.\<close>

fun verify_candidates :: "(rsa_key \<Rightarrow> string + token_claims) \<Rightarrow> string option \<Rightarrow> rsa_key list \<Rightarrow> string + token_claims" where
  "verify_candidates jwt_parse lastErr [] =
     Inl (case lastErr of Some e \<Rightarrow> e | None \<Rightarrow> ''token verification failed'')"
| "verify_candidates jwt_parse lastErr (k # ks) =
     (case jwt_parse k of
        Inr c \<Rightarrow> Inr c
      | Inl e \<Rightarrow> verify_candidates jwt_parse (Some e) ks)"

definition candidate_keys :: "rsa_key option \<Rightarrow> jwks_state \<Rightarrow> rsa_key list" where
  "candidate_keys primary s =
     (case primary of
        Some k \<Rightarrow> k # filter (\<lambda>x. x \<noteq> k) (map snd (js_keys s))
      | None \<Rightarrow> map snd (js_keys s))"

definition check_claims :: "auth_config \<Rightarrow> token_claims \<Rightarrow> string option" where
  "check_claims cfg c =
     (if au_audience cfg \<noteq> [] \<and> \<not> audienceAccepted c (au_audience cfg) then Some ''unauthorized: invalid audience''
      else if au_issuer cfg \<noteq> [] \<and> tc_iss c \<noteq> Some (au_issuer cfg) then Some ''unauthorized: invalid issuer''
      else None)"

record auth_request =
  rq_path :: string
  rq_authorization :: string
  rq_kid :: string

record auth_state =
  as_jwks :: jwks_state
  as_cache :: disabled_cache

definition AuthMiddleware ::
  "jwt_parser \<Rightarrow> auth_config \<Rightarrow> jwks_answer \<Rightarrow> bool \<Rightarrow> (string \<Rightarrow> bool query)
   \<Rightarrow> time \<Rightarrow> auth_request \<Rightarrow> auth_state \<Rightarrow> verdict \<times> auth_state" where
  "AuthMiddleware jwt_parse cfg ans has_db row now rq s =
     (if has_prefix ''/api/v1/health'' (rq_path rq) then (Pass None None, s)
      else if \<not> has_prefix ''Bearer '' (rq_authorization rq)
        then (Reject 401 ''unauthorized: missing Bearer token'', s)
      else let token = trim_prefix ''Bearer '' (rq_authorization rq) in
      case keyForToken now ans (rq_kid rq) (as_jwks s) of
        (Inl e, js) \<Rightarrow> (Reject 401 (''unauthorized: '' @ e), s\<lparr>as_jwks := js\<rparr>)
      | (Inr primary, js) \<Rightarrow>
        (let s = s\<lparr>as_jwks := js\<rparr>; keys = candidate_keys primary js in
         if keys = [] then (Reject 500 ''auth service temporarily unavailable'', s)
         else case verify_candidates (\<lambda>k. jwt_parse jwt_options (key_function k) token now) None keys of
           Inl e \<Rightarrow> (Reject 401 (''unauthorized: '' @ e), s)
         | Inr c \<Rightarrow>
           (case check_claims cfg c of
              Some msg \<Rightarrow> (Reject 401 msg, s)
            | None \<Rightarrow>
              (let jc = claims_of c in
               case isUserDisabled has_db (row (jc_sub jc)) now (jc_sub jc) (as_cache s) of
                 (Inl e, ca) \<Rightarrow> (Reject 401 ''unauthorized: unable to verify account status'', s\<lparr>as_cache := ca\<rparr>)
               | (Inr d, ca) \<Rightarrow>
                   if d then (Reject 401 ''unauthorized: account disabled'', s\<lparr>as_cache := ca\<rparr>)
                   else (Pass (Some jc) None, s\<lparr>as_cache := ca\<rparr>)))))"

text \<open>The wrapper that accepts API tokens as well.\<close>

definition APITokenMiddleware ::
  "jwt_parser \<Rightarrow> auth_config \<Rightarrow> jwks_answer \<Rightarrow> bool \<Rightarrow> (string \<Rightarrow> bool query)
   \<Rightarrow> string option \<Rightarrow> api_token list \<Rightarrow> time \<Rightarrow> auth_request \<Rightarrow> auth_state \<Rightarrow> verdict \<times> auth_state" where
  "APITokenMiddleware jwt_parse cfg ans has_db row token_err tokens now rq s =
     (if has_prefix ''/api/v1/health'' (rq_path rq) then (Pass None None, s)
      else if has_prefix ''Bearer fc_'' (rq_authorization rq)
        then (handleAPIToken has_db token_err now tokens (trim_prefix ''Bearer '' (rq_authorization rq)), s)
      else if has_prefix ''fc_'' (rq_authorization rq)
        then (Reject 401 ''unauthorized: missing Bearer token'', s)
      else AuthMiddleware jwt_parse cfg ans has_db row now rq s)"

section \<open>The order of privilege\<close>

fun privilege :: "role \<Rightarrow> nat" where
  "privilege RoleEndUser = 0"
| "privilege RoleReadOnly = 1"
| "privilege RoleAuditor = 2"
| "privilege RoleHelpdesk = 3"
| "privilege RoleSuperAdmin = 4"

lemma privilege_inject: "privilege a = privilege b \<Longrightarrow> a = b"
  by (cases a; cases b) simp_all

instantiation role :: linorder
begin

definition less_eq_role :: "role \<Rightarrow> role \<Rightarrow> bool" where
  "less_eq_role a b \<longleftrightarrow> privilege a \<le> privilege b"

definition less_role :: "role \<Rightarrow> role \<Rightarrow> bool" where
  "less_role a b \<longleftrightarrow> privilege a < privilege b"

instance
  by standard (auto simp: less_eq_role_def less_role_def intro: privilege_inject)

end

text \<open>The role that one realm role of Keycloak grants.\<close>

definition granted :: "string \<Rightarrow> role" where
  "granted r =
     (if r = ''admin'' \<or> r = ''freecloud-admin'' then RoleSuperAdmin
      else if r = ''freecloud-helpdesk'' then RoleHelpdesk
      else if r = ''freecloud-auditor'' then RoleAuditor
      else if r = ''freecloud-readonly'' then RoleReadOnly
      else RoleEndUser)"

lemma resolveRole_ge: "r \<in> set roles \<Longrightarrow> granted r \<le> resolveRole roles"
  by (auto simp: granted_def resolveRole_def less_eq_role_def)

lemma resolveRole_in: "resolveRole roles \<in> insert RoleEndUser (granted ` set roles)"
proof -
  have g: "granted r \<in> granted ` set roles" if "r \<in> set roles" for r using that by simp
  show ?thesis
    using g [of "''admin''"] g [of "''freecloud-admin''"] g [of "''freecloud-helpdesk''"] g [of "''freecloud-auditor''"]
      g [of "''freecloud-readonly''"]
    by (auto simp: resolveRole_def granted_def)
qed

section \<open>The cache\<close>

definition covered :: "(string \<rightharpoonup> bool \<times> time) \<Rightarrow> (string \<times> time) list \<Rightarrow> bool" where
  "covered m q \<longleftrightarrow> (\<forall>sub d e. m sub = Some (d, e) \<longrightarrow> (sub, e) \<in> set q)"

lemma sweep_facts:
  assumes "sorted (map snd q)" "covered m q"
  shows "case sweepDisabledCacheLocked now m q of (m', q') \<Rightarrow>
     (\<forall>sub d e. m' sub = Some (d, e) \<longrightarrow> m sub = Some (d, e) \<and> now < e)
     \<and> covered m' q' \<and> sorted (map snd q') \<and> set q' \<subseteq> set q"
  using assms
proof (induction now m q rule: sweepDisabledCacheLocked.induct)
  case (1 now m)
  then show ?case by (auto simp: covered_def)
next
  case (2 now m sub e rest)
  show ?case
  proof (cases "now < e")
    case True
    then show ?thesis using 2(4,5) by (fastforce simp: covered_def)
  next
    case False
    have srt: "sorted (map snd rest)" using 2(4) by simp
    show ?thesis
    proof (cases "m sub")
      case None
      have "covered m rest" using 2(5) None by (fastforce simp: covered_def)
      from 2(1) [OF False None srt this] False None show ?thesis by (auto split: prod.splits)
    next
      case (Some x)
      obtain d cur where x: "x = (d, cur)" by fastforce
      show ?thesis
      proof (cases "cur > e")
        case True
        have "covered m rest" using 2(5) Some True x by (fastforce simp: covered_def)
        from 2(2) [OF False Some x [symmetric] True srt this] False Some x True show ?thesis by (auto split: prod.splits)
      next
        case nl: False
        have "covered (m(sub := None)) rest" using 2(5) by (fastforce simp: covered_def)
        from 2(3) [OF False Some x [symmetric] nl srt this]
        have ih: "case sweepDisabledCacheLocked now (m(sub := None)) rest of (m', q') \<Rightarrow>
            (\<forall>s d e. m' s = Some (d, e) \<longrightarrow> m s = Some (d, e) \<and> now < e)
            \<and> covered m' q' \<and> sorted (map snd q') \<and> set q' \<subseteq> set rest"
          by (auto simp: fun_upd_def split: prod.splits if_splits)
        have step: "sweepDisabledCacheLocked now m ((sub, e) # rest) = sweepDisabledCacheLocked now (m(sub := None)) rest"
          using False Some x nl by simp
        show ?thesis unfolding step using ih by (auto split: prod.splits)
      qed
    qed
  qed
qed

definition cache_inv :: "time \<Rightarrow> disabled_cache \<Rightarrow> bool" where
  "cache_inv now c \<longleftrightarrow> sorted (map snd (dc_order c)) \<and> covered (dc_entries c) (dc_order c)
     \<and> list_all (\<lambda>x. snd x \<le> now + disabledStatusCacheTTL) (dc_order c)"

lemma cache_inv_mono: "cache_inv now c \<Longrightarrow> now \<le> now' \<Longrightarrow> cache_inv now' c"
  by (auto simp: cache_inv_def list_all_iff)

lemma disabledCacheGet_inv: "cache_inv now c \<Longrightarrow> cache_inv now (snd (disabledCacheGet now sub c))"
  by (auto simp: disabledCacheGet_def cache_inv_def covered_def split: option.splits)

lemma disabledCacheSet_facts:
  assumes "cache_inv now c"
  shows "cache_inv now (disabledCacheSet now sub d c)"
    and "dc_entries (disabledCacheSet now sub d c) s = Some (d', e) \<Longrightarrow>
      now < e \<and> (if s = sub then d' = d \<and> e = now + disabledStatusCacheTTL else dc_entries c s = Some (d', e))"
proof -
  let ?e = "now + disabledStatusCacheTTL"
  let ?m = "(dc_entries c)(sub \<mapsto> (d, ?e))" and ?q = "dc_order c @ [(sub, ?e)]"
  have q: "sorted (map snd ?q)" "covered ?m ?q"
    using assms by (auto simp: cache_inv_def sorted_append covered_def list_all_iff)
  obtain m' q' where mq: "sweepDisabledCacheLocked now ?m ?q = (m', q')" by fastforce
  have set: "disabledCacheSet now sub d c = \<lparr>dc_entries = m', dc_order = q'\<rparr>"
    by (simp add: disabledCacheSet_def mq)
  have f: "\<forall>u x y. m' u = Some (x, y) \<longrightarrow> ?m u = Some (x, y) \<and> now < y"
    "covered m' q'" "sorted (map snd q')" "set q' \<subseteq> set ?q"
    using sweep_facts [OF q, of now] mq by auto
  show "cache_inv now (disabledCacheSet now sub d c)"
    using f assms by (auto simp: set cache_inv_def list_all_iff)
  show "now < e \<and> (if s = sub then d' = d \<and> e = ?e else dc_entries c s = Some (d', e))"
    if "dc_entries (disabledCacheSet now sub d c) s = Some (d', e)"
    using f(1) [rule_format, of s d' e] that by (auto simp: set split: if_splits)
qed

text \<open>A cached answer is what the table said when the entry was written.\<close>

definition cache_true :: "(time \<Rightarrow> string \<Rightarrow> bool) \<Rightarrow> disabled_cache \<Rightarrow> bool" where
  "cache_true status c \<longleftrightarrow>
     (\<forall>sub d e. dc_entries c sub = Some (d, e) \<longrightarrow> d = status (e - disabledStatusCacheTTL) sub)"

text \<open>The answer of the table at an instant: the flag, no row for an untracked user, or an error.\<close>

definition truthful :: "(time \<Rightarrow> string \<Rightarrow> bool) \<Rightarrow> time \<Rightarrow> string \<Rightarrow> bool query \<Rightarrow> bool" where
  "truthful status now sub row =
     (case row of Ok d \<Rightarrow> d = status now sub | No_rows \<Rightarrow> status now sub = False | Db_error _ \<Rightarrow> True)"

datatype status_check = Check time string "bool query"

fun check_step :: "status_check \<Rightarrow> time \<times> disabled_cache \<Rightarrow> time \<times> disabled_cache" where
  "check_step (Check now sub row) (t, c) = (now, snd (isUserDisabled True row now sub c))"

fun check_legal :: "(time \<Rightarrow> string \<Rightarrow> bool) \<Rightarrow> status_check \<Rightarrow> time \<times> disabled_cache \<Rightarrow> bool" where
  "check_legal status (Check now sub row) (t, c) = (t \<le> now \<and> truthful status now sub row)"

fun status_inv :: "(time \<Rightarrow> string \<Rightarrow> bool) \<Rightarrow> time \<times> disabled_cache \<Rightarrow> bool" where
  "status_inv status (t, c) = (cache_inv t c \<and> cache_true status c)"

lemma disabledCacheGet_sub: "dc_entries (snd (disabledCacheGet now sub c)) s = Some x \<Longrightarrow> dc_entries c s = Some x"
  by (auto simp: disabledCacheGet_def split: option.splits if_splits)

lemma isUserDisabled_inv:
  assumes "cache_inv now c" "cache_true status c" "truthful status now sub row"
  shows "cache_inv now (snd (isUserDisabled True row now sub c))
     \<and> cache_true status (snd (isUserDisabled True row now sub c))"
proof -
  obtain o' c' where g: "disabledCacheGet now sub c = (o', c')" by fastforce
  then have inv: "cache_inv now c'" using disabledCacheGet_inv [OF assms(1), of sub] by simp
  have true: "cache_true status c'"
    using assms(2) disabledCacheGet_sub [of now sub c] g unfolding cache_true_def by fastforce
  have set: "cache_inv now (disabledCacheSet now sub d c') \<and> cache_true status (disabledCacheSet now sub d c')"
    if "d = status now sub" for d
    using disabledCacheSet_facts [OF inv, of sub d] true that unfolding cache_true_def
    by (fastforce split: if_splits)
  show ?thesis
    using inv true set assms(3) by (auto simp: isUserDisabled_def g truthful_def split: option.splits query.splits)
qed

interpretation status_cache: guarded_machine check_step "check_legal status" "status_inv status" for status
proof
  fix s op
  assume "status_inv status s" "check_legal status op s"
  then show "status_inv status (check_step op s)"
    by (cases op; cases s) (auto dest: cache_inv_mono isUserDisabled_inv)
qed

section \<open>The rate of key fetches\<close>

definition spaced :: "time list \<Rightarrow> bool" where
  "spaced ts \<longleftrightarrow> sorted_wrt (\<lambda>a b. b - a \<ge> minJWKSRefreshInterval) ts"

definition jwks_inv :: "jwks_state \<Rightarrow> bool" where
  "jwks_inv s \<longleftrightarrow> spaced (js_fetches s) \<and> list_all (\<lambda>t. t \<le> js_last_attempt s) (js_fetches s)"

lemma refreshJWKS_fields:
  "js_fetches (snd (refreshJWKS now ans s)) = js_fetches s @ [now]"
  "js_last_attempt (snd (refreshJWKS now ans s)) = js_last_attempt s"
  by (auto simp: refreshJWKS_def Let_def split: jwks_answer.splits)

lemma refresh_limited_inv:
  assumes "jwks_inv s" "js_last_attempt s \<le> now"
  shows "jwks_inv (snd (refreshJWKSRateLimited now ans s))"
  using assms
  by (auto simp: refreshJWKSRateLimited_def refreshJWKS_fields jwks_inv_def spaced_def sorted_wrt_append list_all_iff)

lemma keyForToken_state:
  "snd (keyForToken now ans kid s) \<in> {s, snd (refreshJWKSRateLimited now ans s)}"
  by (auto simp: keyForToken_def Let_def split: option.splits prod.splits)

lemma refresh_limited_attempt:
  "js_last_attempt s \<le> now \<Longrightarrow> js_last_attempt (snd (refreshJWKSRateLimited now ans s)) \<le> now"
  by (auto simp: refreshJWKSRateLimited_def refreshJWKS_fields)

datatype key_request = Key_request time jwks_answer string

fun key_step :: "key_request \<Rightarrow> time \<times> jwks_state \<Rightarrow> time \<times> jwks_state" where
  "key_step (Key_request now ans kid) (t, s) = (now, snd (keyForToken now ans kid s))"

fun key_legal :: "key_request \<Rightarrow> time \<times> jwks_state \<Rightarrow> bool" where
  "key_legal (Key_request now ans kid) (t, s) = (t \<le> now)"

fun key_inv :: "time \<times> jwks_state \<Rightarrow> bool" where
  "key_inv (t, s) = (jwks_inv s \<and> js_last_attempt s \<le> t)"

interpretation jwks_fetching: guarded_machine key_step key_legal key_inv
proof
  fix st op
  assume "key_inv st" "key_legal op st"
  then show "key_inv (key_step op st)"
  proof (cases op; cases st)
    fix now ans kid t s
    assume e: "op = Key_request now ans kid" "st = (t, s)" and "key_inv st" "key_legal op st"
    then have inv: "jwks_inv s" "js_last_attempt s \<le> now" by auto
    show "key_inv (key_step op st)"
      using keyForToken_state [of now ans kid s] refresh_limited_inv [OF inv, of ans]
        refresh_limited_attempt [OF inv(2), of ans] inv
      by (auto simp: e)
  qed
qed

section \<open>Properties of authentication and authorisation\<close>

text \<open>The role of a caller is the highest role, in the order of privilege end-user, read-only, auditor,
  helpdesk, super-admin, that any of the caller's realm roles grants, and end-user when none grants
  any; stored role names are read back exactly.\<close>

theorem resolved_role_is_highest:
  "resolveRole roles = Max (insert RoleEndUser (granted ` set roles)) \<and> RoleFromString (role_string r) = Some r"
proof
  show "resolveRole roles = Max (insert RoleEndUser (granted ` set roles))"
  proof (rule Max_eqI [symmetric])
    fix y
    assume "y \<in> insert RoleEndUser (granted ` set roles)"
    then show "y \<le> resolveRole roles"
      using resolveRole_ge by (auto simp: less_eq_role_def)
  qed (use resolveRole_in in auto)
  show "RoleFromString (role_string r) = Some r" by (cases r) (simp_all add: RoleFromString_def)
qed

text \<open>The permission matrix: a super-admin holds every permission, an end-user and a request without
  claims hold nothing but self-service and nothing at all, whoever may manage something may also read
  the corresponding lists, and only a super-admin manages users, applications, groups, tokens,
  organisations, campaigns or approves requests.\<close>

theorem permission_matrix_facts:
  "roleHasPermission RoleSuperAdmin p
   \<and> (roleHasPermission RoleEndUser p \<longleftrightarrow> p = PermSelfService) \<and> \<not> HasPermission None p
   \<and> (roleHasPermission r PermManageDevices \<longrightarrow> roleHasPermission r PermReadCompliance \<and> roleHasPermission r PermReadUsers)
   \<and> (roleHasPermission r p \<and> p \<in> {PermManageUsers, PermOnboardOffboard, PermManageApps, PermManageGroups,
        PermManageAPITokens, PermManageCampaigns, PermApproveRequests, PermManageAccountPolicy, PermManageOrgs,
        PermManageOrgMembers} \<longrightarrow> r = RoleSuperAdmin)"
  by (cases p; cases r) (simp_all add: roleHasPermission_def HasPermission_def)

theorem permission_matrix_facts_witness:
  "roleHasPermission RoleSuperAdmin PermManageOrgs \<and> roleHasPermission RoleHelpdesk PermReadUsers"
  using permission_matrix_facts [of PermManageOrgs RoleHelpdesk] by (simp add: roleHasPermission_def)

text \<open>An API token is let through exactly when the database holds its SHA-256, the row is neither revoked
  nor expired and names a known role; the request then runs with that role and is confined to the
  organisation of the row, with organisation-admin rights only for a super-admin token.\<close>

theorem api_token_accepted_iff:
  "handleAPIToken has_db err now tokens tokenStr = Pass c oc \<longleftrightarrow>
     (\<exists>t r rest. has_db \<and> err = None \<and> filter (\<lambda>t. at_hash t = hex_sha256 tokenStr) tokens = t # rest
        \<and> at_revoked t = None \<and> (at_expires t = None \<or> now \<le> the (at_expires t))
        \<and> RoleFromString (at_role t) = Some r
        \<and> c = Some \<lparr>jc_sub = ''api-token:'' @ at_id t, jc_username = ''api-token:'' @ at_identity t, jc_email = [],
             jc_is_admin = (r = RoleSuperAdmin), jc_role = r\<rparr>
        \<and> oc = Some \<lparr>oc_org = at_org t, oc_role = (if r = RoleSuperAdmin then OrgMembershipRoleAdmin else [])\<rparr>)"
  unfolding handleAPIToken_def select_one_def
  by (auto split: option.splits list.splits)

text \<open>A cache that holds only what the table said answers with something it said in the last ten seconds.\<close>

lemma recent_answer:
  assumes "status_inv status (t1, c1)" and "t1 \<le> now" and "truthful status now sub row"
    and "isUserDisabled True row now sub c1 = (Inr d, c)"
  shows "\<exists>t. now - disabledStatusCacheTTL \<le> t \<and> t \<le> now \<and> d = status t sub"
    and "fst (disabledCacheGet now sub c1) = None \<Longrightarrow> dc_entries c s = Some (x, e) \<Longrightarrow> now < e"
proof -
  have inv: "cache_inv now c1" "cache_true status c1" using assms(1,2) cache_inv_mono by auto
  obtain o' c' where g: "disabledCacheGet now sub c1 = (o', c')" by fastforce
  have inv': "cache_inv now c'" using disabledCacheGet_inv [OF inv(1), of sub] g by simp
  have miss: "d = status now sub \<and> c = disabledCacheSet now sub d c'" if "o' = None"
    using assms(3,4) that by (auto simp: isUserDisabled_def g truthful_def split: query.splits)
  show "\<exists>t. now - disabledStatusCacheTTL \<le> t \<and> t \<le> now \<and> d = status t sub"
  proof (cases o')
    case None
    then show ?thesis using miss by (auto simp: disabledStatusCacheTTL_def second_def intro!: exI [of _ now])
  next
    case (Some y)
    then obtain e where e: "dc_entries c1 sub = Some (y, e)" "now \<le> e"
      using g by (auto simp: disabledCacheGet_def split: option.splits if_splits)
    have "d = y" using assms(4) g Some by (simp add: isUserDisabled_def)
    have "e \<le> now + disabledStatusCacheTTL"
      using e(1) inv(1) unfolding cache_inv_def covered_def list_all_iff by fastforce
    moreover have "d = status (e - disabledStatusCacheTTL) sub"
      using e(1) inv(2) \<open>d = y\<close> by (simp add: cache_true_def)
    ultimately show ?thesis using e(2) by (auto intro!: exI [of _ "e - disabledStatusCacheTTL"])
  qed
  show "now < e" if "fst (disabledCacheGet now sub c1) = None" "dc_entries c s = Some (x, e)"
    using disabledCacheSet_facts(2) [OF inv', of sub d] miss that by (simp add: g)
qed

lemma status_run:
  assumes "legal_run check_step (check_legal status) ops (t0, empty_cache)"
  shows "status_inv status (fold check_step ops (t0, empty_cache))"
proof -
  have "status_inv status (t0, empty_cache)"
    by (simp add: empty_cache_def cache_inv_def cache_true_def covered_def)
  then show ?thesis using assms by (rule status_cache.run_inv)
qed

lemma legal_run_last: "legal_run step L (xs @ [y]) s \<Longrightarrow> legal_run step L xs s \<and> L y (fold step xs s)"
  by (induction xs arbitrary: s) auto

text \<open>C23. However requests arrive, the answer to "is this user disabled" is what the user table said at some
  instant at most ten seconds ago, and right after a cache miss has been filled no expired entry is
  left in the cache.\<close>

theorem disabled_answer_is_recent:
  assumes "legal_run check_step (check_legal status) (ops @ [Check now sub row]) (t0, empty_cache)"
    and "isUserDisabled True row now sub (snd (fold check_step ops (t0, empty_cache))) = (Inr d, c)"
  shows "(\<exists>t. now - disabledStatusCacheTTL \<le> t \<and> t \<le> now \<and> d = status t sub)
     \<and> (fst (disabledCacheGet now sub (snd (fold check_step ops (t0, empty_cache)))) = None \<longrightarrow>
          (\<forall>s x e. dc_entries c s = Some (x, e) \<longrightarrow> now < e))"
proof -
  obtain t1 c1 where f: "fold check_step ops (t0, empty_cache) = (t1, c1)" by fastforce
  have "status_inv status (t1, c1)" "t1 \<le> now" "truthful status now sub row"
    using status_run legal_run_last [OF assms(1)] f by force+
  from recent_answer [OF this] show ?thesis using assms(2) f by auto
qed

theorem disabled_answer_is_recent_witness:
  "\<exists>t. 5 - disabledStatusCacheTTL \<le> t \<and> t \<le> (5::int) \<and> True = (\<lambda>_ _. True) t ''u1''"
proof (rule disabled_answer_is_recent [where status = "\<lambda>_ _. True" and ops = "[Check 1 ''u1'' (Ok True)]"
      and now = 5 and sub = "''u1''" and row = "Ok True", THEN conjunct1])
  show "legal_run check_step (check_legal (\<lambda>_ _. True)) ([Check 1 ''u1'' (Ok True)] @ [Check 5 ''u1'' (Ok True)]) (0, empty_cache)"
    by (simp add: truthful_def)
  show "isUserDisabled True (Ok True) 5 ''u1'' (snd (fold check_step [Check 1 ''u1'' (Ok True)] (0, empty_cache)))
     = (Inr True, snd (isUserDisabled True (Ok True) 5 ''u1'' (snd (fold check_step [Check 1 ''u1'' (Ok True)] (0, empty_cache)))))"
    by (simp add: isUserDisabled_def empty_cache_def disabledCacheGet_def disabledCacheSet_def
        disabledStatusCacheTTL_def second_def)
qed

text \<open>However many tokens with unknown key ids arrive, the certificate endpoint is asked at most once per
  five seconds: any two fetches of a run lie at least that far apart.\<close>

theorem jwks_fetches_spaced:
  assumes "legal_run key_step key_legal ops (t0, s)" "js_fetches s = []" "js_last_attempt s \<le> t0"
  shows "spaced (js_fetches (snd (fold key_step ops (t0, s))))"
proof -
  have "key_inv (t0, s)" using assms(2,3) by (simp add: jwks_inv_def spaced_def)
  from jwks_fetching.run_inv [OF this assms(1)] show ?thesis
    by (cases "fold key_step ops (t0, s)") (simp add: jwks_inv_def)
qed

theorem jwks_fetches_spaced_witness:
  "spaced (js_fetches (snd (fold key_step
     [Key_request 7 (Keys []) ''a'', Key_request 9 (Keys []) ''b'', Key_request (20 * second) (Keys []) ''c'']
     (0, \<lparr>js_keys = [], js_last_fetch = - (10 ^ 18), js_last_attempt = - (10 ^ 18), js_fetches = []\<rparr>))))"
  by (rule jwks_fetches_spaced) (simp_all add: second_def)

lemma AuthMiddleware_pass_status:
  "AuthMiddleware jwt_parse cfg ans has_db row now rq s = (Pass (Some jc) oc, s')
   \<Longrightarrow> fst (isUserDisabled has_db (row (jc_sub jc)) now (jc_sub jc) (as_cache s)) = Inr False"
  by (auto simp: AuthMiddleware_def check_claims_def Let_def split: if_splits prod.splits sum.splits option.splits)

text \<open>What \<open>golang-jwt\<close> documents of \<open>Parser.Parse\<close>: a token is returned without an error only when the key function
  gave a key for the algorithm of its header, the signature verifies under that algorithm and key, and the registered
  time claims hold up to the leeway; \<open>WithExpirationRequired\<close> and \<open>WithIssuedAt\<close> switch on what they say.  The algorithm in
  the header and the verification of a signature are parameters.\<close>

definition jwt_library :: "(string \<Rightarrow> string option) \<Rightarrow> (string \<Rightarrow> rsa_key \<Rightarrow> string \<Rightarrow> bool) \<Rightarrow> jwt_parser \<Rightarrow> bool" where
  "jwt_library alg_of verifies parse \<longleftrightarrow>
     (\<forall>opts keyfunc token now c. parse opts keyfunc token now = Inr c \<longrightarrow>
        (\<exists>alg k. alg_of token = Some alg \<and> keyfunc alg = Inr k \<and> verifies alg k token)
      \<and> (po_exp_required opts \<longrightarrow> tc_exp c \<noteq> None)
      \<and> (\<forall>t. tc_exp c = Some t \<longrightarrow> now < t + po_leeway opts)
      \<and> (\<forall>t. tc_nbf c = Some t \<longrightarrow> t - po_leeway opts \<le> now)
      \<and> (\<forall>t. po_issued_at opts \<and> tc_iat c = Some t \<longrightarrow> t - po_leeway opts \<le> now))"

definition audiences :: "token_claims \<Rightarrow> string set" where
  "audiences c = {a. tc_aud c = Claim_string a \<or> (\<exists>vs. tc_aud c = Claim_list vs \<and> JStr a \<in> set vs)}"

lemma json_strings_set: "set (List.map_filter (\<lambda>x. case x of JStr s \<Rightarrow> Some s | _ \<Rightarrow> None) vs) = {a. JStr a \<in> set vs}"
  by (induction vs) (auto simp: map_filter_simps split: jval.splits)

lemma claimStrings_set: "set (claimStrings (tc_aud c)) = audiences c"
  by (auto simp: claimStrings_def audiences_def json_strings_set split: claim_value.splits)

lemma audienceAccepted_iff:
  "audienceAccepted c a \<longleftrightarrow> a \<in> audiences c \<or> (case tc_azp c of Some z \<Rightarrow> z | None \<Rightarrow> []) = a \<and> audiences c \<subseteq> {''account''}"
  using claimStrings_set [of c]
  by (auto simp: audienceAccepted_def Let_def list_ex_iff list_all_iff defaultAccountAudience_def split: option.splits)

lemma claims_of_role: "jc_role (claims_of c) = RoleSuperAdmin
   \<Longrightarrow> \<exists>vs. tc_roles c = Some vs \<and> (JStr ''admin'' \<in> set vs \<or> JStr ''freecloud-admin'' \<in> set vs)"
  using json_strings_set by (auto simp: claims_of_def json_strings_def resolveRole_def Let_def split: option.splits if_splits)

lemma keyForToken_keys:
  assumes "keyForToken now ans kid js = (Inr primary, js')"
  shows "(js_keys js' = js_keys js \<or> (\<exists>ks. ans = Keys ks \<and> js_keys js' = parse_jwks ks))
    \<and> (case primary of Some k \<Rightarrow> map_of (js_keys js') kid = Some k | None \<Rightarrow> kid = [])"
  using assms by (auto simp: keyForToken_def refreshJWKSRateLimited_def refreshJWKS_def Let_def
      split: option.splits prod.splits if_splits jwks_answer.splits) (metis)+

lemma verify_candidates_some: "verify_candidates f err ks = Inr c \<Longrightarrow> \<exists>k \<in> set ks. f k = Inr c"
  by (induction f err ks rule: verify_candidates.induct) (auto split: sum.splits)

lemma isUserDisabled_False:
  "fst (isUserDisabled has_db row now sub c) = Inr False \<Longrightarrow>
   \<not> has_db \<or> (\<exists>t. dc_entries c sub = Some (False, t) \<and> now \<le> t) \<or> row = Ok False \<or> row = No_rows"
  by (auto simp: isUserDisabled_def disabledCacheGet_def split: if_splits option.splits prod.splits query.splits)

lemma AuthMiddleware_pass:
  assumes "AuthMiddleware jwt_parse cfg ans has_db row now rq s = (Pass (Some jc) oc, s')"
  shows "\<exists>k c primary. keyForToken now ans (rq_kid rq) (as_jwks s) = (Inr primary, as_jwks s')
     \<and> k \<in> set (candidate_keys primary (as_jwks s'))
     \<and> jwt_parse jwt_options (key_function k) (trim_prefix ''Bearer '' (rq_authorization rq)) now = Inr c
     \<and> check_claims cfg c = None \<and> jc = claims_of c"
  using assms by (auto simp: AuthMiddleware_def Let_def dest!: verify_candidates_some
      split: if_splits prod.splits sum.splits option.splits) blast


definition sample_auth :: auth_state where
  "sample_auth = \<lparr>as_jwks = \<lparr>js_keys = [(''k1'', ''n'', 65537)], js_last_fetch = 0, js_last_attempt = 0, js_fetches = []\<rparr>,
     as_cache = empty_cache\<rparr>"

definition sample_claims :: token_claims where
  "sample_claims = \<lparr>tc_sub = Some ''u1'', tc_username = None, tc_email = None, tc_aud = Claim_string ''account'',
     tc_azp = Some ''freecloud'', tc_iss = Some ''iss'', tc_roles = Some [JStr ''freecloud-auditor''],
     tc_exp = Some (60 * second), tc_nbf = None, tc_iat = Some 0\<rparr>"

definition sample_auth_request :: auth_request where
  "sample_auth_request = \<lparr>rq_path = ''/api/v1/users'', rq_authorization = ''Bearer tok'', rq_kid = ''k1''\<rparr>"

text \<open>A parser that keeps the contract: it knows one token, signed with RS256 under one key, and checks its times.\<close>

definition sample_alg :: "string \<Rightarrow> string option" where
  "sample_alg token = (if token = ''tok'' then Some ''RS256'' else None)"

definition sample_verifies :: "string \<Rightarrow> rsa_key \<Rightarrow> string \<Rightarrow> bool" where
  "sample_verifies alg k token \<longleftrightarrow> alg = ''RS256'' \<and> k = (''n'', 65537) \<and> token = ''tok''"

definition sample_parser :: "token_claims \<Rightarrow> jwt_parser" where
  "sample_parser c opts keyfunc token now =
     (case sample_alg token of None \<Rightarrow> Inl ''token is malformed'' | Some alg \<Rightarrow>
      (case keyfunc alg of Inl e \<Rightarrow> Inl e | Inr k \<Rightarrow>
       if \<not> sample_verifies alg k token then Inl ''signature is invalid''
       else if po_exp_required opts \<and> tc_exp c = None
         \<or> (case tc_exp c of Some t \<Rightarrow> t + po_leeway opts \<le> now | None \<Rightarrow> False)
         \<or> (case tc_nbf c of Some t \<Rightarrow> now < t - po_leeway opts | None \<Rightarrow> False)
         \<or> po_issued_at opts \<and> (case tc_iat c of Some t \<Rightarrow> now < t - po_leeway opts | None \<Rightarrow> False)
       then Inl ''token has invalid claims'' else Inr c))"

lemma sample_parser_library: "jwt_library sample_alg sample_verifies (sample_parser c)"
  by (auto simp: jwt_library_def sample_parser_def split: option.splits sum.splits if_splits)


end
