(* ===== verification/Org_Scope.thy ===== *)
theory Org_Scope
  imports Auth Audit_Chain
begin

text \<open>
  Tenancy: which organisation a request acts for, and the gate in front of every resource that is
  addressed by its id.  \<open>internal/middleware/org.go\<close> (\<open>OrgContextMiddleware\<close>, \<open>loadMemberships\<close>,
  \<open>orgExists\<close>, \<open>RequireOrgAdminOrSystemAdmin\<close>), \<open>internal/orgscope/orgscope.go\<close> and the wrappers of
  \<open>internal/handlers/org_scope.go\<close>.
\<close>

section \<open>The organisation of a request\<close>

record membership =
  mb_user :: string
  mb_org :: string
  mb_role :: string

text \<open>\<open>loadMemberships\<close>: the map from organisation to role; a later row of the same organisation replaces an
  earlier one.\<close>

definition loadMemberships :: "string option \<Rightarrow> string \<Rightarrow> membership list \<Rightarrow> string + (string \<times> string) list" where
  "loadMemberships err userID rows =
     (case err of
        Some e \<Rightarrow> Inl e
      | None \<Rightarrow> Inr (fold (\<lambda>m acc. (to_lower (mb_org m), mb_role m) # filter (\<lambda>x. fst x \<noteq> to_lower (mb_org m)) acc)
                        (filter (\<lambda>m. mb_user m = userID) rows) []))"

definition orgExists :: "string option \<Rightarrow> string \<Rightarrow> string list \<Rightarrow> string + bool" where
  "orgExists err orgID orgs =
     (case select_one err (\<lambda>x. x = orgID) orgs of Ok _ \<Rightarrow> Inr True | No_rows \<Rightarrow> Inr False | Db_error e \<Rightarrow> Inl e)"

record org_env =
  oe_has_db :: bool
  oe_members_err :: "string option"
  oe_exists_err :: "string option"
  oe_memberships :: "membership list"
  oe_orgs :: "string list"
  oe_header :: string

definition OrgContextMiddleware :: "org_env \<Rightarrow> jwt_claims option \<Rightarrow> org_context option \<Rightarrow> verdict" where
  "OrgContextMiddleware env claims oc =
     (case claims of None \<Rightarrow> Reject 403 ''forbidden: no authenticated identity for org resolution'' | Some c \<Rightarrow>
      (case oc of Some x \<Rightarrow> Pass claims oc | None \<Rightarrow>
       if \<not> oe_has_db env then Reject 403 ''forbidden: org resolution unavailable''
       else let requestedOrg = to_lower (trim_space (oe_header env)) in
       case loadMemberships (oe_members_err env) (jc_sub c) (oe_memberships env) of
         Inl e \<Rightarrow> Reject 403 ''forbidden: failed to resolve org membership''
       | Inr ms \<Rightarrow>
         (let isSystemAdmin = (jc_role c = RoleSuperAdmin) in
          if requestedOrg \<noteq> [] then
            (if \<not> isValidOrgID requestedOrg then Reject 403 ''forbidden: invalid X-Org-Id''
             else case map_of ms requestedOrg of
               Some r \<Rightarrow> Pass claims (Some \<lparr>oc_org = requestedOrg, oc_role = r\<rparr>)
             | None \<Rightarrow>
               if isSystemAdmin then
                 (if orgExists (oe_exists_err env) requestedOrg (oe_orgs env) = Inr True
                  then Pass claims (Some \<lparr>oc_org = requestedOrg, oc_role = OrgMembershipRoleAdmin\<rparr>)
                  else Reject 403 ''forbidden: unknown X-Org-Id'')
               else Reject 403 ''forbidden: not a member of the requested organization'')
          else case ms of
            [(org, r)] \<Rightarrow> Pass claims (Some \<lparr>oc_org = org, oc_role = r\<rparr>)
          | _ # _ # _ \<Rightarrow> Reject 403 ''forbidden: multiple organizations available; specify X-Org-Id''
          | [] \<Rightarrow>
              if isSystemAdmin then Pass claims (Some \<lparr>oc_org = DefaultOrgID, oc_role = OrgMembershipRoleAdmin\<rparr>)
              else Reject 403 ''forbidden: no organization membership'')))"

definition RequireOrgAdminOrSystemAdmin :: "jwt_claims option \<Rightarrow> org_context option \<Rightarrow> verdict" where
  "RequireOrgAdminOrSystemAdmin claims oc =
     (if claims \<noteq> None \<and> jc_role (the claims) = RoleSuperAdmin then Pass claims oc
      else if oc \<noteq> None \<and> oc_role (the oc) = OrgMembershipRoleAdmin then Pass claims oc
      else Reject 403 ''forbidden: requires org-admin or system-admin'')"

section \<open>The gate in front of a resource\<close>

text \<open>The tables of the allowlist, seen as the ids and organisations of their rows.\<close>

record org_row =
  or_table :: string
  or_id :: string
  or_org :: string

definition allowedOrgTables :: "(string \<times> string) list" where
  "allowedOrgTables = [(''review_campaigns'', ''id''), (''federation_sources'', ''id''), (''review_schedules'', ''id''),
     (''connected_apps'', ''id''), (''users'', ''keycloak_user_id''), (''devices'', ''fleet_host_id'')]"

definition CheckResourceInOrg ::
  "bool \<Rightarrow> string option \<Rightarrow> org_row list \<Rightarrow> string \<Rightarrow> string \<Rightarrow> string \<Rightarrow> string \<Rightarrow> string + bool" where
  "CheckResourceInOrg has_db err rows table idColumn rid orgID =
     (if \<not> has_db then Inl ''database not available''
      else if map_of allowedOrgTables table \<noteq> Some idColumn then Inl ''orgscope: table/column not in allowlist''
      else case select_one err (\<lambda>r. or_table r = table \<and> or_id r = rid \<and> or_org r = orgID) rows of
             Ok _ \<Rightarrow> Inr True
           | No_rows \<Rightarrow> Inr False
           | Db_error e \<Rightarrow> Inl e)"

text \<open>\<^const>\<open>None\<close>: the caller may proceed.\<close>

definition RequireResourceInCallerOrg ::
  "bool \<Rightarrow> string option \<Rightarrow> org_row list \<Rightarrow> org_context option \<Rightarrow> string \<Rightarrow> string \<Rightarrow> string \<Rightarrow> string
   \<Rightarrow> 'b response option" where
  "RequireResourceInCallerOrg has_db err rows oc table idColumn rid notFoundMsg =
     (case oc of
        None \<Rightarrow> Some (RespondError 403 ''forbidden: no organization context'')
      | Some x \<Rightarrow>
          (case CheckResourceInOrg has_db err rows table idColumn rid (oc_org x) of
             Inl e \<Rightarrow> Some (RespondError 500 ''internal error'')
           | Inr ok \<Rightarrow> if ok then None else Some (RespondError 404 notFoundMsg)))"

definition requireCampaignInCallerOrg ::
  "bool \<Rightarrow> string option \<Rightarrow> org_row list \<Rightarrow> org_context option \<Rightarrow> string \<Rightarrow> 'b response option" where
  "requireCampaignInCallerOrg has_db err rows oc campaignID =
     RequireResourceInCallerOrg has_db err rows oc ''review_campaigns'' ''id'' campaignID ''campaign not found''"

definition requireFederationSourceInCallerOrg ::
  "bool \<Rightarrow> string option \<Rightarrow> org_row list \<Rightarrow> org_context option \<Rightarrow> string \<Rightarrow> 'b response option" where
  "requireFederationSourceInCallerOrg has_db err rows oc sourceID =
     RequireResourceInCallerOrg has_db err rows oc ''federation_sources'' ''id'' sourceID ''federation source not found''"

definition requireReviewScheduleInCallerOrg ::
  "bool \<Rightarrow> string option \<Rightarrow> org_row list \<Rightarrow> org_context option \<Rightarrow> string \<Rightarrow> 'b response option" where
  "requireReviewScheduleInCallerOrg has_db err rows oc scheduleID =
     RequireResourceInCallerOrg has_db err rows oc ''review_schedules'' ''id'' scheduleID ''schedule not found''"

definition requireAppInCallerOrg ::
  "bool \<Rightarrow> string option \<Rightarrow> org_row list \<Rightarrow> org_context option \<Rightarrow> string \<Rightarrow> 'b response option" where
  "requireAppInCallerOrg has_db err rows oc appID =
     RequireResourceInCallerOrg has_db err rows oc ''connected_apps'' ''id'' appID ''app not found''"

definition isSystemAdminCaller :: "jwt_claims option \<Rightarrow> bool" where
  "isSystemAdminCaller claims = (case claims of Some c \<Rightarrow> jc_role c = RoleSuperAdmin | None \<Rightarrow> False)"

section \<open>Audit entries of handlers\<close>

text \<open>\<open>writeAuditEntryBestEffort\<close> with the organisation of the request, where a failure is only logged.\<close>

definition log_best_effort :: "(string \<Rightarrow> string) \<Rightarrow> write_env \<Rightarrow> org_context option \<Rightarrow> audit_call \<Rightarrow> audit_db \<Rightarrow> audit_db" where
  "log_best_effort jt env oc c a = the (snd (writeAuditEntryBestEffort jt env (map_option oc_org oc) c (Some a)))"

lemma log_best_effort_chain_inv: "chain_inv jt a \<Longrightarrow> chain_inv jt (log_best_effort jt env oc c a)"
  by (simp add: log_best_effort_def writeAuditEntryBestEffort_def writeAuditEntryWithOrg_def WriteEntry_chain_inv split_beta Let_def)

section \<open>The contract of a gate\<close>

text \<open>A gate answers from the view an organisation has of the rows, and lets through only what that
  organisation owns.  A handler behind it therefore never acts on a foreign resource, and its refusals
  tell nothing about foreign rows.\<close>

locale org_gate =
  fixes gate :: "'row list \<Rightarrow> 'org option \<Rightarrow> 'id \<Rightarrow> 'r option"
    and owns :: "'row list \<Rightarrow> 'org \<Rightarrow> 'id \<Rightarrow> bool"
    and view :: "'org \<Rightarrow> 'row list \<Rightarrow> 'row list"
  assumes gate_owns: "gate rows oc i = None \<Longrightarrow> \<exists>x. oc = Some x \<and> owns rows x i"
    and gate_view: "gate rows (Some x) i = gate (view x rows) (Some x) i"
begin

text \<open>The shape of the guarded handlers: refuse, or act.\<close>

definition guarded :: "'row list \<Rightarrow> 'org option \<Rightarrow> 'id \<Rightarrow> ('s \<Rightarrow> 'r \<times> 's) \<Rightarrow> 's \<Rightarrow> 'r \<times> 's" where
  "guarded rows oc i act s = (case gate rows oc i of Some r \<Rightarrow> (r, s) | None \<Rightarrow> act s)"

lemma guarded_unchanged:
  "\<nexists>x. oc = Some x \<and> owns rows x i \<Longrightarrow> snd (guarded rows oc i act s) = s"
  using gate_owns [of rows oc i] by (auto simp: guarded_def split: option.splits)

lemma guarded_foreign_blind:
  "view x rows = view x rows' \<Longrightarrow> guarded rows (Some x) i act s = guarded rows' (Some x) i act s"
  using gate_view by (metis guarded_def)

end

definition org_owns :: "string \<Rightarrow> org_row list \<Rightarrow> org_context \<Rightarrow> string \<Rightarrow> bool" where
  "org_owns table rows x i \<longleftrightarrow> list_ex (\<lambda>r. or_table r = table \<and> or_id r = i \<and> or_org r = oc_org x) rows"

definition org_view :: "org_context \<Rightarrow> org_row list \<Rightarrow> org_row list" where
  "org_view x rows = filter (\<lambda>r. or_org r = oc_org x) rows"

lemma select_one_view:
  "(\<And>r. P r \<Longrightarrow> Q r) \<Longrightarrow> select_one err P (filter Q rows) = select_one err P rows"
  by (auto simp: select_one_def intro!: arg_cong2 [where f = "case_list No_rows"] split: option.splits)
    (metis (mono_tags, lifting) filter_cong)

interpretation resource_gate: org_gate
  "\<lambda>rows oc i. RequireResourceInCallerOrg has_db err rows oc table col i msg" "org_owns table" org_view
  for has_db err table col msg
proof
  fix rows :: "org_row list" and oc :: "org_context option" and i
  assume "RequireResourceInCallerOrg has_db err rows oc table col i msg = None"
  then show "\<exists>x. oc = Some x \<and> org_owns table rows x i"
    by (auto simp: RequireResourceInCallerOrg_def CheckResourceInOrg_def org_owns_def list_ex_iff
        dest!: select_one_Ok_D split: option.splits sum.splits query.splits if_splits)
next
  fix rows :: "org_row list" and x :: org_context and i
  have "select_one err (\<lambda>r. or_table r = table \<and> or_id r = i \<and> or_org r = oc_org x) (org_view x rows)
      = select_one err (\<lambda>r. or_table r = table \<and> or_id r = i \<and> or_org r = oc_org x) rows"
    unfolding org_view_def by (rule select_one_view) simp
  then show "RequireResourceInCallerOrg has_db err rows (Some x) table col i msg
      = RequireResourceInCallerOrg has_db err (org_view x rows) (Some x) table col i msg"
    by (simp add: RequireResourceInCallerOrg_def CheckResourceInOrg_def)
qed

section \<open>Memberships\<close>

lemma loadMemberships_sound:
  assumes "loadMemberships err u rows = Inr ms" "(org, r) \<in> set ms"
  shows "\<exists>m \<in> set rows. mb_user m = u \<and> to_lower (mb_org m) = org \<and> mb_role m = r"
proof -
  have "set (fold (\<lambda>m acc. (to_lower (mb_org m), mb_role m) # filter (\<lambda>x. fst x \<noteq> to_lower (mb_org m)) acc) xs acc)
      \<subseteq> (\<lambda>m. (to_lower (mb_org m), mb_role m)) ` set xs \<union> set acc" for xs acc
  proof (induction xs arbitrary: acc)
    case (Cons m xs)
    show ?case
      using Cons [of "(to_lower (mb_org m), mb_role m) # filter (\<lambda>x. fst x \<noteq> to_lower (mb_org m)) acc"] by auto
  qed simp
  from this [of "filter (\<lambda>m. mb_user m = u) rows" "[]"] assms show ?thesis
    by (fastforce simp: loadMemberships_def split: option.splits)
qed

definition member_of :: "org_env \<Rightarrow> jwt_claims \<Rightarrow> org_context \<Rightarrow> bool" where
  "member_of env c x \<longleftrightarrow> list_ex (\<lambda>m. mb_user m = jc_sub c \<and> to_lower (mb_org m) = oc_org x \<and> mb_role m = oc_role x)
     (oe_memberships env)"

section \<open>Properties of tenancy\<close>

text \<open>The organisation a request acts for is never guessed: it is one the caller is a member of, with
  the role of that membership, or the caller is a system administrator and it is an existing
  organisation named in the request or, without any membership and header, the default one.  A named
  organisation is always the one that is used.\<close>

theorem org_context_justified:
  assumes "OrgContextMiddleware env (Some c) None = Pass cl (Some x)"
  shows "cl = Some c
     \<and> (member_of env c x
        \<or> jc_role c = RoleSuperAdmin \<and> oc_role x = OrgMembershipRoleAdmin
          \<and> (oc_org x \<in> set (oe_orgs env) \<and> oc_org x = to_lower (trim_space (oe_header env)) \<or> oc_org x = DefaultOrgID))
     \<and> (to_lower (trim_space (oe_header env)) \<noteq> [] \<longrightarrow> oc_org x = to_lower (trim_space (oe_header env)))"
proof -
  let ?rq = "to_lower (trim_space (oe_header env))"
  obtain ms where ms: "loadMemberships (oe_members_err env) (jc_sub c) (oe_memberships env) = Inr ms" and db: "oe_has_db env"
    using assms by (auto simp: OrgContextMiddleware_def Let_def split: if_splits sum.splits)
  have mem: "member_of env c \<lparr>oc_org = org, oc_role = r\<rparr>" if "(org, r) \<in> set ms" for org r
    using loadMemberships_sound [OF ms that] by (auto simp: member_of_def list_ex_iff)
  show ?thesis
  proof (cases "?rq = []")
    case True
    then show ?thesis
      using assms ms db mem by (auto simp: OrgContextMiddleware_def split: list.splits if_splits prod.splits)
  next
    case False
    show ?thesis
    proof (cases "map_of ms ?rq")
      case None
      with assms ms db False have e: "orgExists (oe_exists_err env) ?rq (oe_orgs env) = Inr True"
        and "jc_role c = RoleSuperAdmin" "cl = Some c" "x = \<lparr>oc_org = ?rq, oc_role = OrgMembershipRoleAdmin\<rparr>"
        by (auto simp: OrgContextMiddleware_def Let_def split: if_splits)
      moreover from e have "?rq \<in> set (oe_orgs env)"
        by (auto simp: orgExists_def dest!: select_one_Ok_D split: query.splits)
      ultimately show ?thesis by simp
    next
      case (Some r)
      with assms ms db False have "cl = Some c" "x = \<lparr>oc_org = ?rq, oc_role = r\<rparr>"
        by (auto simp: OrgContextMiddleware_def Let_def split: if_splits)
      with mem map_of_SomeD [OF Some] show ?thesis by simp
    qed
  qed
qed

definition sample_caller :: jwt_claims where
  "sample_caller = \<lparr>jc_sub = ''u1'', jc_username = [], jc_email = [], jc_is_admin = False, jc_role = RoleHelpdesk\<rparr>"

definition sample_org_env :: org_env where
  "sample_org_env = \<lparr>oe_has_db = True, oe_members_err = None, oe_exists_err = None,
     oe_memberships = [\<lparr>mb_user = ''u1'', mb_org = ''o1'', mb_role = ''member''\<rparr>], oe_orgs = [''o1''], oe_header = []\<rparr>"

theorem org_context_justified_witness:
  "member_of sample_org_env sample_caller \<lparr>oc_org = ''o1'', oc_role = ''member''\<rparr>"
proof -
  have "OrgContextMiddleware sample_org_env (Some sample_caller) None
      = Pass (Some sample_caller) (Some \<lparr>oc_org = ''o1'', oc_role = ''member''\<rparr>)"
    by (simp add: OrgContextMiddleware_def sample_org_env_def sample_caller_def loadMemberships_def
        to_lower_def to_lower_char_def Let_def)
  from org_context_justified [OF this] show ?thesis by (simp add: sample_caller_def)
qed

text \<open>The gate in front of a resource passes only a resource with a row in the caller's organisation, and
  its answer depends on the rows of that organisation alone: whether an id exists in some other
  organisation changes neither the decision nor the answer.\<close>

theorem org_gate_isolates:
  "(RequireResourceInCallerOrg has_db err rows oc table col i msg = None \<longrightarrow>
      (\<exists>x. oc = Some x \<and> org_owns table rows x i))
   \<and> (org_view x rows = org_view x rows' \<longrightarrow>
        RequireResourceInCallerOrg has_db err rows (Some x) table col i msg
          = RequireResourceInCallerOrg has_db err rows' (Some x) table col i msg)"
proof (intro conjI impI)
  assume "RequireResourceInCallerOrg has_db err rows oc table col i msg = None"
  then show "\<exists>x. oc = Some x \<and> org_owns table rows x i" by (rule resource_gate.gate_owns)
next
  assume "org_view x rows = org_view x rows'"
  then show "RequireResourceInCallerOrg has_db err rows (Some x) table col i msg
          = RequireResourceInCallerOrg has_db err rows' (Some x) table col i msg"
    by (metis resource_gate.gate_view)
qed

theorem org_gate_isolates_witness:
  "(\<exists>x. Some \<lparr>oc_org = ''o1'', oc_role = ''member''\<rparr> = Some x
      \<and> org_owns ''connected_apps'' [\<lparr>or_table = ''connected_apps'', or_id = ''a1'', or_org = ''o1''\<rparr>] x ''a1'')"
proof -
  have "RequireResourceInCallerOrg True None [\<lparr>or_table = ''connected_apps'', or_id = ''a1'', or_org = ''o1''\<rparr>]
      (Some \<lparr>oc_org = ''o1'', oc_role = ''member''\<rparr>) ''connected_apps'' ''id'' ''a1'' [] = None"
    by (simp add: RequireResourceInCallerOrg_def CheckResourceInOrg_def allowedOrgTables_def select_one_def)
  from org_gate_isolates [THEN conjunct1, THEN mp, OF this] show ?thesis .
qed

end
