(* ===== verification/Access_Eval.thy ===== *)
theory Access_Eval
  imports Policy_Time Net_Addr Device_Identity Org_Scope
begin

text \<open>
  The decision whether a user on a device may reach an application:
  \<open>internal/handlers/access_eval.go\<close>, the policy endpoints of \<open>access_policy.go\<close> and the dry run of
  \<open>access_policy_preview.go\<close>.

  Fleet's answer about a host and the GeoIP lookup are the parameters \<open>fleet\<close> and \<open>geo\<close>; they may fail
  and return anything.  The environment record holds the request, the tables the handler reads and
  the outcome of each query.
\<close>

section \<open>Data\<close>

record host_state =
  hs_firewall :: bool
  hs_disk :: bool
  hs_vulns :: "string list"
  hs_unknown_vulns :: bool

record app_policy =
  ap_enrolled :: bool
  ap_disk :: bool
  ap_no_vulns :: bool
  ap_max_os_age :: "int option"
  ap_start :: "string option"
  ap_end :: "string option"
  ap_networks :: "string list"
  ap_countries :: "string list"

definition no_policy :: app_policy where
  "no_policy = \<lparr>ap_enrolled = False, ap_disk = False, ap_no_vulns = False, ap_max_os_age = None,
     ap_start = None, ap_end = None, ap_networks = [], ap_countries = []\<rparr>"

record policy_row =
  pr_app :: string
  pr_policy :: app_policy
  pr_updated :: time

record app_row =
  app_id :: string
  app_client :: "string option"

type_synonym fleet = "string \<Rightarrow> string + host_state"
type_synonym geo = "string \<Rightarrow> string"

section \<open>Posture\<close>

definition evaluateDevicePosture :: "fleet \<Rightarrow> app_policy \<Rightarrow> string \<Rightarrow> string list" where
  "evaluateDevicePosture fleet p devID =
     (case fleet devID of
        Inl e \<Rightarrow> [''device posture unavailable for device '' @ devID]
      | Inr st \<Rightarrow>
          (if \<not> hs_firewall st then [''firewall disabled on device '' @ devID] else [])
          @ (if \<not> hs_disk st then [''disk not encrypted on device '' @ devID] else [])
          @ map (\<lambda>v. ''vulnerability: '' @ v @ '' on device '' @ devID) (hs_vulns st)
          @ (if hs_unknown_vulns st then [''vulnerability data unavailable for device '' @ devID] else [])
          @ (if ap_disk p \<and> \<not> hs_disk st then [''app policy requires disk encryption on device '' @ devID] else [])
          @ (if ap_no_vulns p \<and> (hs_vulns st \<noteq> [] \<or> hs_unknown_vulns st)
             then [''app policy requires no critical vulnerabilities on device '' @ devID] else []))"

definition evaluateDevicesPosture :: "fleet \<Rightarrow> app_policy \<Rightarrow> string list \<Rightarrow> string list" where
  "evaluateDevicesPosture fleet p devs =
     fold (\<lambda>d reasons. let r = evaluateDevicePosture fleet p d in if r \<noteq> [] then reasons @ r else reasons) devs []"

section \<open>Conditions\<close>

definition time_condition :: "app_policy \<Rightarrow> time \<Rightarrow> string list" where
  "time_condition p now =
     (case (ap_start p, ap_end p) of
        (Some s, Some e) \<Rightarrow>
          (case (parsePolicyTime s, parsePolicyTime e) of
             (Some sm, Some em) \<Rightarrow>
               if in_window sm em (minute_of_day now) then []
               else [''policy: access not allowed at this time (window: '' @ formatPolicyTime sm
                     @ [CHR 0xE2, CHR 0x80, CHR 0x93] @ formatPolicyTime em @ '' UTC)'']
           | _ \<Rightarrow> [''policy: time window condition is misconfigured''])
      | _ \<Rightarrow> [])"

definition network_entry_matches :: "ip \<Rightarrow> string \<Rightarrow> bool" where
  "network_entry_matches x entry =
     (if str_contains ''/'' entry
      then (case ParseCIDR entry of Some (_, n) \<Rightarrow> Contains n x | None \<Rightarrow> False)
      else (case ParseIP entry of Some y \<Rightarrow> ip_equal y x | None \<Rightarrow> False))"

definition network_condition :: "app_policy \<Rightarrow> string \<Rightarrow> string list" where
  "network_condition p clientIP =
     (if ap_networks p = [] then []
      else case ParseIP clientIP of
             None \<Rightarrow> [''policy: network condition cannot be evaluated (unparseable client IP)'']
           | Some x \<Rightarrow>
               if list_ex (network_entry_matches x) (ap_networks p) then []
               else [''policy: client IP '' @ clientIP @ '' is not in the network allowlist''])"

definition geo_condition :: "geo \<Rightarrow> app_policy \<Rightarrow> string \<Rightarrow> string list" where
  "geo_condition geo p clientIP =
     (if ap_countries p = [] then []
      else let country = geo clientIP in
           if country = [] then [''policy: geo condition cannot be evaluated (country unknown for IP '' @ clientIP @ '')'']
           else if list_ex (\<lambda>cc. equal_fold cc country) (ap_countries p) then []
           else [''policy: country '' @ country @ '' is not in the geo allowlist''])"

definition evalConditions :: "geo \<Rightarrow> app_policy \<Rightarrow> string \<Rightarrow> time \<Rightarrow> string list" where
  "evalConditions geo p clientIP now =
     time_condition p now @ network_condition p clientIP @ geo_condition geo p clientIP"

section \<open>Labels of the reasons\<close>

definition condition_type :: "string \<Rightarrow> string" where
  "condition_type r =
     (if str_contains ''firewall'' r \<or> str_contains ''disk'' r \<or> str_contains ''vulnerability'' r \<or> str_contains ''posture'' r
      then ''posture''
      else if str_contains ''time'' r then ''time_window''
      else if str_contains ''network'' r \<or> str_contains ''IP'' r then ''network''
      else if str_contains ''geo'' r \<or> str_contains ''country'' r then ''geo''
      else if str_contains ''device'' r then ''device''
      else ''other'')"

definition conditionTypesFromReasons :: "string list \<Rightarrow> string list" where
  "conditionTypesFromReasons reasons =
     fold (\<lambda>r types. let ct = condition_type r in if ct \<in> set types then types else types @ [ct]) reasons []"

section \<open>The endpoint\<close>

record access_request =
  rq_user :: string
  rq_app :: string
  rq_device :: string
  rq_client_ip :: string

record access_db =
  db_users :: "(string \<times> bool) list"
  db_mapping :: "(string \<times> string) list"
  db_policies :: "policy_row list"
  db_apps :: "app_row list"

text \<open>A body that does not decode may have filled the application id before the error; the handler reads
  the clock once for the cookie and once for the time window.\<close>

record access_env =
  ax_request :: "string + access_request"
  ax_remote_addr :: string
  ax_has_db :: bool
  ax_device_secret :: string
  ax_fleet_secret :: string
  ax_now :: time
  ax_eval_now :: time
  ax_notifier :: bool
  ax_user_err :: "string option"
  ax_mapping_err :: "string option"
  ax_devices_err :: "string option"
  ax_scan_fails :: "nat \<Rightarrow> bool"
  ax_rows_end :: "nat option"
  ax_policy_err :: "string option"

record decision =
  dn_allow :: bool
  dn_reasons :: "string list"

text \<open>\<open>auditAccessDecision\<close>: the audit entry and the notification of a decision.\<close>

record access_effects =
  fx_audit :: "audit_call list"
  fx_blocked :: "(string \<times> string \<times> string list \<times> string list) list"

definition auditAccessDecision :: "access_env \<Rightarrow> string \<Rightarrow> string \<Rightarrow> bool \<Rightarrow> string list \<Rightarrow> access_effects" where
  "auditAccessDecision env userID appID allow reasons =
     (if \<not> ax_has_db env then \<lparr>fx_audit = [], fx_blocked = []\<rparr>
      else \<lparr>fx_audit = [\<lparr>ac_actor = ''service:access-eval'', ac_action = ''access_eval'', ac_target_type = ''user'',
              ac_target_id = userID,
              ac_details = Some (JObj ([(''app_id'', JStr appID), (''allow'', JBool allow), (''reasons'', JArr (map JStr reasons))]
                @ (if allow then [] else [(''denied_conditions'', JArr (map JStr (conditionTypesFromReasons reasons)))])))\<rparr>],
            fx_blocked = (if \<not> allow \<and> ax_notifier env
              then [(userID, appID, reasons, conditionTypesFromReasons reasons)] else [])\<rparr>)"

definition decide :: "access_env \<Rightarrow> string \<Rightarrow> string \<Rightarrow> string list \<Rightarrow> decision \<times> access_effects" where
  "decide env userID appID reasons =
     (\<lparr>dn_allow = (reasons = []), dn_reasons = reasons\<rparr>, auditAccessDecision env userID appID (reasons = []) reasons)"

text \<open>The device of the request: the host id in a signed cookie, or a refusal.\<close>

definition resolve_device :: "access_env \<Rightarrow> string \<Rightarrow> string + string" where
  "resolve_device env raw =
     (if raw = [] then Inr []
      else let secret = deviceCookieSigningSecret (ax_device_secret env) (ax_fleet_secret env) in
      case (case ParseAndVerifyDeviceCookie raw secret (ax_now env) of
              Some h \<Rightarrow> Some h
            | None \<Rightarrow> if has_prefix ''v1.'' raw \<or> secret \<noteq> [] then None else Some raw) of
        None \<Rightarrow> Inl ''invalid or expired device identity''
      | Some dev \<Rightarrow>
          if dev \<noteq> [] \<and> ValidateHostID dev \<noteq> None then Inl ''invalid device identifier'' else Inr dev)"

definition client_ip :: "access_env \<Rightarrow> string \<Rightarrow> string" where
  "client_ip env raw =
     (let c = trim_space raw in
      if c \<noteq> [] then c
      else case SplitHostPort (ax_remote_addr env) of Some h \<Rightarrow> h | None \<Rightarrow> ax_remote_addr env)"

text \<open>The rows the loop over the devices sees: the iteration may end early, and rows that fail to scan are
  skipped.\<close>

definition scanned :: "access_env \<Rightarrow> string list \<Rightarrow> string list" where
  "scanned env rows =
     (let seen = (case ax_rows_end env of Some k \<Rightarrow> take k rows | None \<Rightarrow> rows)
      in map snd (filter (\<lambda>x. \<not> ax_scan_fails env (fst x)) (enumerate 0 seen)))"

definition devices_of :: "access_db \<Rightarrow> string \<Rightarrow> string list" where
  "devices_of db user = map snd (filter (\<lambda>m. fst m = user) (db_mapping db))"

definition collect_devices :: "access_env \<Rightarrow> access_db \<Rightarrow> string \<Rightarrow> string \<Rightarrow> string + string list" where
  "collect_devices env db user dev =
     (if dev \<noteq> [] then
        (case select_one (ax_mapping_err env) (\<lambda>m. fst m = user \<and> snd m = dev) (db_mapping db) of
           Ok m \<Rightarrow> Inr [snd m]
         | _ \<Rightarrow> Inl ''device is not enrolled for user'')
      else case ax_devices_err env of
             Some e \<Rightarrow> Inl ''device lookup failed''
           | None \<Rightarrow> Inr (scanned env (devices_of db user)))"

definition stored_policy :: "app_policy \<Rightarrow> app_policy" where
  "stored_policy p = p\<lparr>ap_start := normalisePolicyTime (ap_start p), ap_end := normalisePolicyTime (ap_end p)\<rparr>"

definition policy_join :: "access_db \<Rightarrow> (policy_row \<times> app_row) list" where
  "policy_join db = concat (map (\<lambda>p. map (\<lambda>a. (p, a)) (filter (\<lambda>a. app_id a = pr_app p) (db_apps db))) (db_policies db))"

definition load_policy :: "access_env \<Rightarrow> access_db \<Rightarrow> string \<Rightarrow> string + app_policy" where
  "load_policy env db app =
     (if app = [] then Inr no_policy
      else case select_one (ax_policy_err env) (\<lambda>(p, a). pr_app p = app \<or> app_client a = Some app) (policy_join db) of
             Ok (p, a) \<Rightarrow> Inr (stored_policy (pr_policy p))
           | No_rows \<Rightarrow> Inr no_policy
           | Db_error e \<Rightarrow> Inl ''app policy lookup failed'')"

definition user_enabled :: "access_env \<Rightarrow> access_db \<Rightarrow> string \<Rightarrow> bool" where
  "user_enabled env db user =
     (case select_one (ax_user_err env) (\<lambda>u. fst u = user \<and> \<not> snd u) (db_users db) of Ok _ \<Rightarrow> True | _ \<Rightarrow> False)"

definition EvaluateAccess :: "fleet \<Rightarrow> geo \<Rightarrow> access_env \<Rightarrow> access_db \<Rightarrow> decision \<times> access_effects" where
  "EvaluateAccess fleet geo env db =
     (case ax_request env of Inl app \<Rightarrow> decide env [] app [''invalid request body''] | Inr rq \<Rightarrow>
      (let user = trim_space (rq_user rq); app = trim_space (rq_app rq) in
       case resolve_device env (trim_space (rq_device rq)) of Inl e \<Rightarrow> decide env user app [e] | Inr dev \<Rightarrow>
       if ValidateUserID user \<noteq> None then decide env [] app [''missing or invalid user identifier'']
       else if \<not> ax_has_db env then decide env user app [''database unavailable'']
       else if \<not> user_enabled env db user then decide env user app [''user not found or disabled'']
       else case collect_devices env db user dev of Inl e \<Rightarrow> decide env user app [e] | Inr devs \<Rightarrow>
       if devs = [] then decide env user app [''no enrolled device found for user'']
       else case load_policy env db app of Inl e \<Rightarrow> decide env user app [e] | Inr p \<Rightarrow>
       decide env user app
         (evaluateDevicesPosture fleet p devs @ evalConditions geo p (client_ip env (rq_client_ip rq)) (ax_eval_now env))))"

text \<open>The bearer token in front of the endpoint; no configured token refuses everything.\<close>

definition accessEvalBearerMiddleware :: "string \<Rightarrow> string \<Rightarrow> 'b response option" where
  "accessEvalBearerMiddleware token auth =
     (if token = [] then Some (RespondError 503 ''access evaluation is not configured'')
      else if \<not> has_prefix ''Bearer '' auth then Some (RespondError 401 ''Bearer token required'')
      else if \<not> constantTimeStringEqual (trim_prefix ''Bearer '' auth) token then Some (RespondError 401 ''invalid bearer token'')
      else None)"

section \<open>The policy endpoints\<close>

record policy_env =
  pl_has_db :: bool
  pl_oc :: "org_context option"
  pl_rows :: "org_row list"
  pl_gate_err :: "string option"
  pl_query_err :: "string option"
  pl_mapping_err :: "string option"
  pl_now :: time
  pl_actor :: string

definition GetAppAccessPolicy :: "policy_env \<Rightarrow> string \<Rightarrow> access_db \<Rightarrow> (app_policy \<times> string) response" where
  "GetAppAccessPolicy env appID db =
     (case ValidateOpaqueID appID ''appId'' of Some (f, e) \<Rightarrow> RespondError 400 (id_error_text f e) | None \<Rightarrow>
      if \<not> pl_has_db env then RespondError 500 ''database not available''
      else case requireAppInCallerOrg True (pl_gate_err env) (pl_rows env) (pl_oc env) appID of Some r \<Rightarrow> r | None \<Rightarrow>
      (case select_one (pl_query_err env) (\<lambda>p. pr_app p = appID) (db_policies db) of
         Db_error e \<Rightarrow> RespondError 500 ''internal error''
       | No_rows \<Rightarrow> RespondJSON 200 (no_policy, [])
       | Ok p \<Rightarrow> RespondJSON 200 (stored_policy (pr_policy p), rfc3339 (pr_updated p))))"

text \<open>A TIME column keeps \<open>HH:MM\<close> and is read back as \<open>HH:MM:00.000000\<close>.\<close>

definition pg_time_text :: "string \<Rightarrow> string" where
  "pg_time_text s = s @ '':00.000000''"

definition upsert_policy :: "policy_row \<Rightarrow> policy_row list \<Rightarrow> policy_row list" where
  "upsert_policy p rows =
     (if list_ex (\<lambda>r. pr_app r = pr_app p) rows
      then update_where (\<lambda>r. pr_app r = pr_app p) (\<lambda>_. p) rows
      else rows @ [p])"

definition window_text :: "window_error \<Rightarrow> string \<Rightarrow> string" where
  "window_text e field =
     (case e of
        Both_required \<Rightarrow> ''allowedTimeStart and allowedTimeEnd must both be set to define a time window''
      | Not_hhmm \<Rightarrow> field @ '' must be a time of day in HH:MM (24h) format'')"

definition UpsertAppAccessPolicy :: "policy_env \<Rightarrow> string \<Rightarrow> app_policy option \<Rightarrow> access_db
   \<Rightarrow> (app_policy \<times> string) response \<times> access_db \<times> audit_call list" where
  "UpsertAppAccessPolicy env appID body db =
     (case ValidateOpaqueID appID ''appId'' of Some (f, e) \<Rightarrow> (RespondError 400 (id_error_text f e), db, []) | None \<Rightarrow>
      if \<not> pl_has_db env then (RespondError 500 ''database not available'', db, [])
      else case body of None \<Rightarrow> (RespondError 400 ''invalid request body'', db, []) | Some req \<Rightarrow>
      if ap_max_os_age req \<noteq> None
      then (RespondValidationErrors [(''maxOsAgeDays'',
              ''max OS age policies are not supported until Fleet provides OS age posture data'')], db, [])
      else case validatePolicyTimeWindow (ap_start req) (ap_end req) of
        Inl (field, e) \<Rightarrow> (RespondValidationErrors [(field, window_text e field)], db, [])
      | Inr w \<Rightarrow>
        (let start = map_option fst w; end' = map_option snd w in
         case requireAppInCallerOrg True (pl_gate_err env) (pl_rows env) (pl_oc env) appID of Some r \<Rightarrow> (r, db, []) | None \<Rightarrow>
         (case pl_query_err env of Some e \<Rightarrow> (RespondError 500 ''internal error'', db, []) | None \<Rightarrow>
          (let stored = req\<lparr>ap_start := map_option pg_time_text start, ap_end := map_option pg_time_text end'\<rparr>;
               row = \<lparr>pr_app = appID, pr_policy = stored, pr_updated = pg_timestamp (pl_now env)\<rparr>
           in (RespondJSON 200 (req\<lparr>ap_start := start, ap_end := end'\<rparr>, rfc3339 (pg_timestamp (pl_now env))),
               db\<lparr>db_policies := upsert_policy row (db_policies db)\<rparr>,
               [\<lparr>ac_actor = pl_actor env, ac_action = ''app_policy_upsert'', ac_target_type = ''app'', ac_target_id = appID,
                 ac_details = Some (JObj [(''require_enrolled'', JBool (ap_enrolled req)),
                   (''require_disk_encrypted'', JBool (ap_disk req)),
                   (''require_no_critical_vulns'', JBool (ap_no_vulns req))])\<rparr>])))))"

section \<open>The dry run\<close>

text \<open>\<open>pv_eval_time\<close>: no time given, a text that is not RFC 3339, or the instant it denotes.\<close>

datatype eval_time = Current_time | Bad_time | At_time time

record preview_request =
  pv_device :: string
  pv_client_ip :: string
  pv_eval_time :: eval_time
  pv_user :: string

definition PreviewAppPolicy :: "fleet \<Rightarrow> geo \<Rightarrow> policy_env \<Rightarrow> string \<Rightarrow> preview_request option \<Rightarrow> access_db \<Rightarrow> decision response" where
  "PreviewAppPolicy fleet geo env appID body db =
     (case ValidateOpaqueID appID ''appId'' of Some (f, e) \<Rightarrow> RespondError 400 (id_error_text f e) | None \<Rightarrow>
      if \<not> pl_has_db env then RespondError 500 ''database not available''
      else case requireAppInCallerOrg True (pl_gate_err env) (pl_rows env) (pl_oc env) appID of Some r \<Rightarrow> r | None \<Rightarrow>
      (case body of None \<Rightarrow> RespondError 400 ''invalid request body'' | Some req \<Rightarrow>
       if pv_eval_time req = Bad_time then RespondError 400 ''evalTime must be RFC3339 (e.g. 2025-01-01T12:00:00Z)''
       else let now = (case pv_eval_time req of At_time t \<Rightarrow> t | _ \<Rightarrow> pl_now env);
                ip = (if trim_space (pv_client_ip req) = [] then ''0.0.0.0'' else trim_space (pv_client_ip req)) in
       case select_one (pl_query_err env) (\<lambda>p. pr_app p = appID) (db_policies db) of
         Db_error e \<Rightarrow> RespondError 500 ''internal error''
       | found \<Rightarrow>
         (let p = (case found of Ok r \<Rightarrow> stored_policy (pr_policy r) | _ \<Rightarrow> no_policy);
              posture = (if pv_device req \<noteq> [] \<and> pv_user req \<noteq> [] then
                  (case select_one (pl_mapping_err env) (\<lambda>m. fst m = pv_user req \<and> snd m = pv_device req) (db_mapping db) of
                     Ok _ \<Rightarrow> evaluateDevicePosture fleet p (pv_device req)
                   | _ \<Rightarrow> [''device is not enrolled for user''])
                else []);
              reasons = posture @ evalConditions geo p ip now
          in RespondJSON 200 \<lparr>dn_allow = (reasons = []), dn_reasons = reasons\<rparr>)))"

section \<open>What the pieces decide\<close>

definition compliant :: "fleet \<Rightarrow> string \<Rightarrow> bool" where
  "compliant fleet d =
     (case fleet d of
        Inr st \<Rightarrow> hs_firewall st \<and> hs_disk st \<and> hs_vulns st = [] \<and> \<not> hs_unknown_vulns st
      | Inl _ \<Rightarrow> False)"

lemma posture_Nil_iff: "evaluateDevicePosture fleet p d = [] \<longleftrightarrow> compliant fleet d"
  by (auto simp: evaluateDevicePosture_def compliant_def split: sum.splits)

lemma devices_posture_eq: "evaluateDevicesPosture fleet p devs = concat (map (evaluateDevicePosture fleet p) devs)"
proof -
  have "fold (\<lambda>d reasons. let r = evaluateDevicePosture fleet p d in if r \<noteq> [] then reasons @ r else reasons) devs acc
      = acc @ concat (map (evaluateDevicePosture fleet p) devs)" for acc
    by (induction devs arbitrary: acc) (auto simp: Let_def)
  then show ?thesis by (simp add: evaluateDevicesPosture_def)
qed

lemma devices_posture_Nil_iff: "evaluateDevicesPosture fleet p devs = [] \<longleftrightarrow> list_all (compliant fleet) devs"
  by (auto simp: devices_posture_eq posture_Nil_iff list_all_iff)

text \<open>The declarative reading of the conditions.\<close>

definition time_ok :: "app_policy \<Rightarrow> time \<Rightarrow> bool" where
  "time_ok p now =
     (case (ap_start p, ap_end p) of
        (Some s, Some e) \<Rightarrow> (\<exists>sm em. parsePolicyTime s = Some sm \<and> parsePolicyTime e = Some em
                              \<and> (minute_of_day now - sm) mod 1440 < (em - sm) mod 1440)
      | _ \<Rightarrow> True)"

definition network_ok :: "app_policy \<Rightarrow> string \<Rightarrow> bool" where
  "network_ok p ip \<longleftrightarrow> ap_networks p = [] \<or>
     (\<exists>x. ParseIP ip = Some x \<and> list_ex (network_entry_matches x) (ap_networks p))"

definition geo_ok :: "geo \<Rightarrow> app_policy \<Rightarrow> string \<Rightarrow> bool" where
  "geo_ok geo p ip \<longleftrightarrow> ap_countries p = [] \<or>
     (geo ip \<noteq> [] \<and> list_ex (\<lambda>cc. equal_fold cc (geo ip)) (ap_countries p))"

lemma in_window_cyclic:
  assumes "parsePolicyTime s = Some sm" "parsePolicyTime e = Some em"
  shows "in_window sm em (minute_of_day now) \<longleftrightarrow> (minute_of_day now - sm) mod 1440 < (em - sm) mod 1440"
  using parsePolicyTime_range [OF assms(1)] parsePolicyTime_range [OF assms(2)] minute_of_day_bounds [of now]
  by (intro in_window_iff) auto

lemma conditions_Nil_iff:
  "evalConditions geo p ip now = [] \<longleftrightarrow> time_ok p now \<and> network_ok p ip \<and> geo_ok geo p ip"
proof -
  have "time_condition p now = [] \<longleftrightarrow> time_ok p now"
    using in_window_cyclic by (auto simp: time_condition_def time_ok_def split: option.splits)
  moreover have "network_condition p ip = [] \<longleftrightarrow> network_ok p ip"
    by (auto simp: network_condition_def network_ok_def split: option.splits)
  moreover have "geo_condition geo p ip = [] \<longleftrightarrow> geo_ok geo p ip"
    by (auto simp: geo_condition_def geo_ok_def Let_def)
  ultimately show ?thesis by (simp add: evalConditions_def)
qed


section \<open>What an allowed request rests on\<close>

lemma decide_allow [simp]: "dn_allow (fst (decide env u a rs)) \<longleftrightarrow> rs = []"
  by (simp add: decide_def)

lemma user_enabled_iff:
  "user_enabled env db user \<longleftrightarrow> ax_user_err env = None \<and> (user, False) \<in> set (db_users db)"
proof (cases "select_one (ax_user_err env) (\<lambda>u. fst u = user \<and> \<not> snd u) (db_users db)")
  case (Ok r)
  then show ?thesis using select_one_Ok_D [OF Ok] by (cases r) (auto simp: user_enabled_def)
next
  case No_rows
  then have "\<not> user_enabled env db user" by (simp add: user_enabled_def)
  with No_rows show ?thesis by (auto simp: sql_simps)
next
  case (Db_error e)
  then have "\<not> user_enabled env db user" by (simp add: user_enabled_def)
  with Db_error show ?thesis by (auto simp: sql_simps)
qed

lemma allow_iff:
  "dn_allow (fst (EvaluateAccess fleet geo env db)) \<longleftrightarrow>
     (\<exists>rq dev devs p.
        ax_request env = Inr rq
      \<and> resolve_device env (trim_space (rq_device rq)) = Inr dev
      \<and> ValidateUserID (trim_space (rq_user rq)) = None
      \<and> ax_has_db env \<and> user_enabled env db (trim_space (rq_user rq))
      \<and> collect_devices env db (trim_space (rq_user rq)) dev = Inr devs
      \<and> devs \<noteq> [] \<and> list_all (compliant fleet) devs
      \<and> load_policy env db (trim_space (rq_app rq)) = Inr p
      \<and> evalConditions geo p (client_ip env (rq_client_ip rq)) (ax_eval_now env) = [])"
  by (auto simp: EvaluateAccess_def Let_def devices_posture_Nil_iff split: sum.splits)

text \<open>What the handler promises, in terms of the tables and the request alone.  A signed device cookie has the form
  \<open>v1.<host>.<expiry>.<mac>\<close>.  Without a device id, the devices considered are the rows of the user that the query
  delivered before it broke off and that could be scanned; with one, it is that device, when it is
  enrolled for the user.\<close>

definition signed_device :: "string \<Rightarrow> time \<Rightarrow> string \<Rightarrow> string \<Rightarrow> bool" where
  "signed_device secret now raw dev \<longleftrightarrow> secret \<noteq> [] \<and> dev \<noteq> [] \<and>
     (\<exists>p1 p2 p3 expiry. split_on (CHR ''.'') raw = [''v1'', p1, p2, p3] \<and> b64_decode p1 = Some dev
        \<and> parse_int64 p2 = Some expiry \<and> unix_seconds now \<le> expiry
        \<and> hex_decode p3 = Some (hmac_sha256 secret (cookie_message dev expiry)))"

definition devices_read :: "access_env \<Rightarrow> access_db \<Rightarrow> string \<Rightarrow> string set" where
  "devices_read env db user = {devices_of db user ! i | i. i < length (devices_of db user)
     \<and> \<not> (\<exists>k. ax_rows_end env = Some k \<and> k \<le> i) \<and> \<not> ax_scan_fails env i}"

definition devices_considered :: "access_env \<Rightarrow> access_db \<Rightarrow> string \<Rightarrow> string \<Rightarrow> string set \<Rightarrow> bool" where
  "devices_considered env db user raw D \<longleftrightarrow>
     raw = [] \<and> ax_devices_err env = None \<and> D = devices_read env db user
   \<or> raw \<noteq> [] \<and> (\<exists>secret dev. D = {dev}
       \<and> secret = (if ax_device_secret env \<noteq> [] then ax_device_secret env else ax_fleet_secret env)
       \<and> (signed_device secret (ax_now env) raw dev \<or> secret = [] \<and> \<not> has_prefix ''v1.'' raw \<and> dev = raw)
       \<and> ValidateHostID dev = None \<and> ax_mapping_err env = None \<and> (user, dev) \<in> set (db_mapping db))"

definition policy_in_force :: "access_env \<Rightarrow> access_db \<Rightarrow> string \<Rightarrow> app_policy \<Rightarrow> bool" where
  "policy_in_force env db app p \<longleftrightarrow>
     app = [] \<and> p = no_policy
   \<or> app \<noteq> [] \<and> ax_policy_err env = None
     \<and> (case find (\<lambda>(q, a). pr_app q = app \<or> app_client a = Some app) (policy_join db) of
          None \<Rightarrow> p = no_policy
        | Some (q, a) \<Rightarrow> p = stored_policy (pr_policy q))"

lemma parse_cookie_iff: "raw \<noteq> [] \<Longrightarrow> ParseAndVerifyDeviceCookie raw secret now = Some dev \<longleftrightarrow> signed_device secret now raw dev"
  by (auto simp: ParseAndVerifyDeviceCookie_def signed_device_def split: list.splits option.splits if_splits)

lemma set_scanned: "set (scanned env rows) = {rows ! i | i. i < length rows
     \<and> \<not> (\<exists>k. ax_rows_end env = Some k \<and> k \<le> i) \<and> \<not> ax_scan_fails env i}"
  by (cases "ax_rows_end env") (force simp: scanned_def in_set_enumerate_eq image_iff not_le)+

lemma resolve_named_iff:
  assumes "raw \<noteq> []" and "secret = deviceCookieSigningSecret (ax_device_secret env) (ax_fleet_secret env)"
  shows "resolve_device env raw = Inr dev \<longleftrightarrow> ValidateHostID dev = None
    \<and> (signed_device secret (ax_now env) raw dev \<or> secret = [] \<and> \<not> has_prefix ''v1.'' raw \<and> dev = raw)"
proof (cases "ParseAndVerifyDeviceCookie raw secret (ax_now env)")
  case None
  then have "\<not> signed_device secret (ax_now env) raw dev" using parse_cookie_iff [OF assms(1), of secret "ax_now env" dev] by simp
  with None show ?thesis using assms(1)
    by (auto simp: resolve_device_def Let_def assms(2) [symmetric] split: if_splits)
next
  case (Some h)
  then have h: "signed_device secret (ax_now env) raw h" and "signed_device secret (ax_now env) raw dev \<longleftrightarrow> dev = h"
    using parse_cookie_iff [OF assms(1), of secret "ax_now env", symmetric] by auto
  moreover from h have "h \<noteq> []" "secret \<noteq> []" by (auto simp: signed_device_def)
  ultimately show ?thesis using Some assms(1)
    by (auto simp: resolve_device_def Let_def assms(2) [symmetric] split: if_splits)
qed

lemma mapping_row_iff:
  "select_one err (\<lambda>m. fst m = user \<and> snd m = dev) rows = Ok m \<longleftrightarrow> err = None \<and> m = (user, dev) \<and> m \<in> set rows"
proof (cases "select_one err (\<lambda>m. fst m = user \<and> snd m = dev) rows")
  case (Ok r)
  then show ?thesis using select_one_Ok_D [OF Ok] by (cases r) auto
next
  case No_rows
  then have "(user, dev) \<notin> set rows" by (auto simp: select_one_No_rows_iff)
  with No_rows show ?thesis by auto
next
  case (Db_error e)
  then have "err = Some e" by (simp add: select_one_error_iff)
  with Db_error show ?thesis by simp
qed

lemma collect_named_iff:
  "dev \<noteq> [] \<Longrightarrow> collect_devices env db user dev = Inr devs \<longleftrightarrow>
     ax_mapping_err env = None \<and> (user, dev) \<in> set (db_mapping db) \<and> devs = [dev]"
  using mapping_row_iff [of "ax_mapping_err env" user dev "db_mapping db" "(user, dev)"]
  by (auto simp: collect_devices_def mapping_row_iff split: query.splits dest!: select_one_No_rows_iff [THEN iffD1])

lemma select_one_find:
  "select_one None P rows = (case find P rows of None \<Rightarrow> No_rows | Some r \<Rightarrow> Ok r)"
  by (induction rows) (auto simp: select_one_def)

lemma devices_considered_iff:
  "(\<exists>dev devs. resolve_device env raw = Inr dev \<and> collect_devices env db user dev = Inr devs \<and> P (set devs))
   \<longleftrightarrow> (\<exists>D. devices_considered env db user raw D \<and> P D)"
proof (cases "raw = []")
  case True
  then show ?thesis
    by (auto simp: resolve_device_def collect_devices_def devices_considered_def devices_read_def set_scanned
        split: option.splits)
next
  case False
  let ?secret = "deviceCookieSigningSecret (ax_device_secret env) (ax_fleet_secret env)"
  have secret: "(if ax_device_secret env \<noteq> [] then ax_device_secret env else ax_fleet_secret env) = ?secret"
    by (simp add: deviceCookieSigningSecret_def)
  have "\<not> ValidateHostID [] = None" by code_simp
  then have named: "resolve_device env raw = Inr dev \<Longrightarrow> dev \<noteq> []" for dev
    using resolve_named_iff [OF False refl, of env dev] by auto
  have cons: "devices_considered env db user raw D \<longleftrightarrow>
      (\<exists>dev. D = {dev} \<and> resolve_device env raw = Inr dev \<and> ax_mapping_err env = None \<and> (user, dev) \<in> set (db_mapping db))" for D
    using False resolve_named_iff [OF False refl, of env] unfolding devices_considered_def secret by auto
  show ?thesis
  proof
    assume "\<exists>dev devs. resolve_device env raw = Inr dev \<and> collect_devices env db user dev = Inr devs \<and> P (set devs)"
    then obtain dev devs where "resolve_device env raw = Inr dev" "collect_devices env db user dev = Inr devs" "P (set devs)"
      by blast
    then have "devices_considered env db user raw {dev} \<and> P {dev}"
      using collect_named_iff [OF named] by (auto simp: cons)
    then show "\<exists>D. devices_considered env db user raw D \<and> P D" by blast
  next
    assume "\<exists>D. devices_considered env db user raw D \<and> P D"
    then obtain dev where dev: "resolve_device env raw = Inr dev" "ax_mapping_err env = None" "(user, dev) \<in> set (db_mapping db)" "P {dev}"
      by (auto simp: cons)
    then have "collect_devices env db user dev = Inr [dev]" using collect_named_iff [OF named] by simp
    with dev show "\<exists>dev devs. resolve_device env raw = Inr dev \<and> collect_devices env db user dev = Inr devs \<and> P (set devs)"
      by (metis list.set(1) list.set(2))
  qed
qed

lemma load_policy_iff: "load_policy env db app = Inr p \<longleftrightarrow> policy_in_force env db app p"
proof (cases "ax_policy_err env")
  case None
  then show ?thesis
    by (auto simp: load_policy_def policy_in_force_def select_one_find split: option.splits prod.splits)
next
  case (Some e)
  then show ?thesis by (auto simp: load_policy_def policy_in_force_def select_one_def)
qed

lemma compliant_iff:
  "compliant fleet d \<longleftrightarrow> (\<exists>st. fleet d = Inr st \<and> hs_firewall st \<and> hs_disk st \<and> hs_vulns st = [] \<and> \<not> hs_unknown_vulns st)"
  by (auto simp: compliant_def split: sum.splits)


text \<open>C9. When the request carries no device id and the device list is read to its end, an allowed request
  means that every device enrolled for the user is compliant: leaving the device cookie out gains
  nothing.\<close>

theorem access_checks_every_device:
  assumes "dn_allow (fst (EvaluateAccess fleet geo env db))"
    and "ax_request env = Inr rq" and "trim_space (rq_device rq) = []"
    and "\<And>i. \<not> ax_scan_fails env i" and "ax_rows_end env = None"
    and "(trim_space (rq_user rq), d) \<in> set (db_mapping db)"
  shows "compliant fleet d"
proof -
  have "map snd (enumerate 0 xs) = xs" for xs :: "string list"
    by (simp add: enumerate_eq_zip)
  then have "scanned env xs = xs" for xs
    using assms(4,5) by (simp add: scanned_def)
  then have "list_all (compliant fleet) (devices_of db (trim_space (rq_user rq)))"
    using assms(1-3) unfolding allow_iff
    by (auto simp: resolve_device_def collect_devices_def split: option.splits)
  with assms(6) show ?thesis by (force simp: list_all_iff devices_of_def)
qed

definition clean_host :: host_state where
  "clean_host = \<lparr>hs_firewall = True, hs_disk = True, hs_vulns = [], hs_unknown_vulns = False\<rparr>"

definition sample_fleet :: fleet where
  "sample_fleet d = (if d = ''7'' then Inr clean_host else Inr (clean_host\<lparr>hs_disk := False\<rparr>))"

definition sample_user :: string where
  "sample_user = ''11111111-1111-1111-1111-111111111111''"

definition sample_access_env :: "nat option \<Rightarrow> access_env" where
  "sample_access_env k = \<lparr>ax_request = Inr \<lparr>rq_user = sample_user, rq_app = [], rq_device = [], rq_client_ip = ''10.0.0.1''\<rparr>,
     ax_remote_addr = [], ax_has_db = True, ax_device_secret = ''s'', ax_fleet_secret = [], ax_now = 0, ax_eval_now = 0,
     ax_notifier = False, ax_user_err = None, ax_mapping_err = None, ax_devices_err = None,
     ax_scan_fails = (\<lambda>_. False), ax_rows_end = k, ax_policy_err = None\<rparr>"

definition sample_access_db :: "string list \<Rightarrow> access_db" where
  "sample_access_db ds = \<lparr>db_users = [(sample_user, False)], db_mapping = map (Pair sample_user) ds, db_policies = [], db_apps = []\<rparr>"

theorem access_checks_every_device_witness: "compliant sample_fleet ''7''"
proof -
  have "dn_allow (fst (EvaluateAccess sample_fleet (\<lambda>_. []) (sample_access_env None) (sample_access_db [''7''])))"
    by code_simp
  then show ?thesis
  proof (rule access_checks_every_device)
    show "ax_request (sample_access_env None)
        = Inr \<lparr>rq_user = sample_user, rq_app = [], rq_device = [], rq_client_ip = ''10.0.0.1''\<rparr>"
      by (simp add: sample_access_env_def)
  qed (code_simp | simp add: sample_access_env_def)+
qed

text \<open>The device list is the exception to failing closed: when the iteration over the devices of the user ends with an
  error after the first row, the rest of the devices is not evaluated and the request is allowed although a
  device enrolled for the user has an unencrypted disk.\<close>

theorem access_partial_device_list_allows:
  "dn_allow (fst (EvaluateAccess sample_fleet (\<lambda>_. []) (sample_access_env (Some 1)) (sample_access_db [''7'', ''8''])))
   \<and> \<not> dn_allow (fst (EvaluateAccess sample_fleet (\<lambda>_. []) (sample_access_env None) (sample_access_db [''7'', ''8''])))
   \<and> \<not> compliant sample_fleet ''8''"
  by code_simp

section \<open>Storing and reading a policy\<close>

lemma select_upsert:
  "select_one None (\<lambda>p. pr_app p = pr_app row) (upsert_policy row rows) = Ok row"
proof -
  have "filter (\<lambda>p. pr_app p = pr_app row) (upsert_policy row rows) \<noteq> []
      \<and> set (filter (\<lambda>p. pr_app p = pr_app row) (upsert_policy row rows)) \<subseteq> {row}"
    by (auto simp: upsert_policy_def update_where_def list_ex_iff filter_empty_conv image_iff)
  then show ?thesis
    by (cases "filter (\<lambda>p. pr_app p = pr_app row) (upsert_policy row rows)") (auto simp: select_one_def)
qed

lemma normalise_pg_time:
  "normalisePolicyTime (Some (pg_time_text (formatPolicyTime m))) = Some (formatPolicyTime m)"
proof -
  have z: "two_digits 0 = ''00''" by code_simp
  have "parsePolicyTime (pg_time_text (formatPolicyTime m)) = Some (m mod 1440)"
    using parsePolicyTime_postgres [OF minutes_split [of m], of 0 "''000000''"] 
    by (simp add: pg_time_text_def formatPolicyTime_eq z is_digit_def)
  then show ?thesis by (simp add: normalisePolicyTime_def formatPolicyTime_eq)
qed

lemma stored_window_back:
  assumes "validatePolicyTimeWindow s e = Inr w"
  shows "stored_policy (req\<lparr>ap_start := map_option pg_time_text (map_option fst w), ap_end := map_option pg_time_text (map_option snd w)\<rparr>)
    = req\<lparr>ap_start := map_option fst w, ap_end := map_option snd w\<rparr>"
proof -
  have "w = None \<or> (\<exists>a b. w = Some (formatPolicyTime a, formatPolicyTime b))"
    using assms by (auto simp: validatePolicyTimeWindow_def Let_def split: option.splits if_splits)
  moreover have "normalisePolicyTime None = None" by (simp add: normalisePolicyTime_def)
  ultimately show ?thesis using normalise_pg_time by (auto simp: stored_policy_def)
qed

lemma gate_no_json: "requireAppInCallerOrg b err rows oc appID \<noteq> Some (RespondJSON c r)"
  by (auto simp: requireAppInCallerOrg_def RequireResourceInCallerOrg_def Let_def split: option.splits sum.splits if_splits)

text \<open>A policy that was stored successfully is read back by the policy endpoint exactly as the store
  operation answered it: the flags and lists of the request and the window in \<open>HH:MM\<close> form, although
  the database renders the times with seconds and a fraction.\<close>

theorem policy_store_roundtrip:
  assumes "UpsertAppAccessPolicy env appID body db = (RespondJSON c b, db', au)"
  shows "GetAppAccessPolicy env appID db' = RespondJSON 200 b
    \<and> (\<exists>req. body = Some req \<and> fst b = req\<lparr>ap_start := ap_start (fst b), ap_end := ap_end (fst b)\<rparr> \<and> ap_max_os_age req = None)"
  using assms select_upsert [of "\<lparr>pr_app = appID, pr_policy = P, pr_updated = T\<rparr>" for P T] stored_window_back
  by (auto simp: gate_no_json UpsertAppAccessPolicy_def GetAppAccessPolicy_def Let_def
      split: option.splits if_splits sum.splits prod.splits)

definition sample_policy_env :: policy_env where
  "sample_policy_env = \<lparr>pl_has_db = True, pl_oc = Some \<lparr>oc_org = ''o1'', oc_role = ''member''\<rparr>,
     pl_rows = [\<lparr>or_table = ''connected_apps'', or_id = ''a1'', or_org = ''o1''\<rparr>], pl_gate_err = None, pl_query_err = None,
     pl_mapping_err = None, pl_now = 0, pl_actor = ''admin''\<rparr>"

theorem policy_store_roundtrip_witness:
  "GetAppAccessPolicy sample_policy_env ''a1''
     (fst (snd (UpsertAppAccessPolicy sample_policy_env ''a1'' (Some (no_policy\<lparr>ap_start := Some ''9:00'', ap_end := Some ''17:30''\<rparr>))
        (sample_access_db []))))
   = RespondJSON 200 (no_policy\<lparr>ap_start := Some ''09:00'', ap_end := Some ''17:30''\<rparr>, ''1970-01-01T00:00:00Z'')"
proof -
  let ?body = "Some (no_policy\<lparr>ap_start := Some ''9:00'', ap_end := Some ''17:30''\<rparr>)"
  let ?out = "UpsertAppAccessPolicy sample_policy_env ''a1'' ?body (sample_access_db [])"
  have "fst ?out = RespondJSON 200 (no_policy\<lparr>ap_start := Some ''09:00'', ap_end := Some ''17:30''\<rparr>, ''1970-01-01T00:00:00Z'')"
    by code_simp
  then have "?out = (RespondJSON 200 (no_policy\<lparr>ap_start := Some ''09:00'', ap_end := Some ''17:30''\<rparr>, ''1970-01-01T00:00:00Z''),
      fst (snd ?out), snd (snd ?out))" by (metis prod.collapse)
  from policy_store_roundtrip [OF this] show ?thesis by (rule conjunct1)
qed

section \<open>The network allowlist\<close>

text \<open>On an allowlist of IPv4 networks in prefix notation, the network condition accepts a client address exactly
  when its leading bits agree with one of the networks.\<close>

theorem network_allowlist_is_prefix_match:
  assumes "ap_networks p = map show_cidr nets" "nets \<noteq> []"
    and "\<forall>(a, n) \<in> set nets. length a = 4 \<and> list_all (\<lambda>b. b < 256) a \<and> n \<le> 32"
    and "length x = 4" "list_all (\<lambda>b. b < 256) x"
  shows "network_condition p (show_ipv4 x) = [] \<longleftrightarrow>
     (\<exists>(a, n) \<in> set nets. v4_value a div 2 ^ (32 - n) = v4_value x div 2 ^ (32 - n))"
proof -
  have "network_entry_matches (v4InV6Prefix @ x) (show_cidr net)
      \<longleftrightarrow> v4_value (fst net) div 2 ^ (32 - snd net) = v4_value x div 2 ^ (32 - snd net)" if "net \<in> set nets" for net
  proof -
    have v: "length (fst net) = 4" "list_all (\<lambda>b. b < 256) (fst net)" "snd net \<le> 32" using assms(3) that by auto
    have "str_contains ''/'' (show_cidr net)"
      unfolding str_contains_iff show_cidr_def by blast
    moreover have "ParseCIDR (show_cidr net) = Some (v4InV6Prefix @ fst net,
        \<lparr>net_ip = ip_mask (v4InV6Prefix @ fst net) (CIDRMask (snd net) 32), net_mask = CIDRMask (snd net) 32\<rparr>)"
      using ParseCIDR_show [OF v] by simp
    ultimately show ?thesis
      using cidr_contains_iff [OF v(1) assms(4) v(2) assms(5) v(3)] by (simp add: network_entry_matches_def)
  qed
  then have "list_ex (network_entry_matches (v4InV6Prefix @ x)) (map show_cidr nets) \<longleftrightarrow>
     (\<exists>net \<in> set nets. v4_value (fst net) div 2 ^ (32 - snd net) = v4_value x div 2 ^ (32 - snd net))"
    by (simp add: list_ex_iff)
  then show ?thesis
    using assms(1,2) ParseIP_show [OF assms(4,5)] by (simp add: network_condition_def split_def)
qed

theorem network_allowlist_is_prefix_match_witness:
  "network_condition (no_policy\<lparr>ap_networks := map show_cidr [([10, 1, 0, 0], 16)]\<rparr>) (show_ipv4 [10, 1, 200, 7]) = [] \<longleftrightarrow>
     (\<exists>(a, n) \<in> set [([10, 1, 0, 0], 16)]. v4_value a div 2 ^ (32 - n) = v4_value [10, 1, 200, 7] div 2 ^ (32 - n))"
  by (rule network_allowlist_is_prefix_match) simp_all

end
