(* ===== verification/Client_Key.thy ===== *)
theory Client_Key
  imports Net_Addr
begin

text \<open>
  The rate-limit bucket of a request, \<open>internal/middleware/clientip.go\<close>: the address of the peer, or the
  address a trusted proxy forwarded.  The parts of the package \<open>net/netip\<close> that it uses, addresses
  with a zone, prefixes and their texts, are modelled first.
\<close>

section \<open>Addresses and prefixes of net/netip\<close>

text \<open>\<open>ni_v4\<close> is the family; an IPv4-mapped IPv6 address is an IPv6 address.\<close>

record netip =
  ni_v4 :: bool
  ni_bytes :: ip
  ni_zone :: string

definition ParseNetip :: "string \<Rightarrow> netip option" where
  "ParseNetip s =
     (case dropWhile (\<lambda>c. c \<notin> {CHR ''.'', CHR '':'', CHR ''%''}) s of
        [] \<Rightarrow> None
      | c # _ \<Rightarrow>
          if c = CHR ''.'' then
            map_option (\<lambda>b. \<lparr>ni_v4 = True, ni_bytes = v4InV6Prefix @ b, ni_zone = []\<rparr>) (parseIPv4 s)
          else if c = CHR '':'' then
            (let addr = takeWhile (\<lambda>c. c \<noteq> CHR ''%'') s; zone = drop 1 (dropWhile (\<lambda>c. c \<noteq> CHR ''%'') s) in
             if CHR ''%'' \<in> set s \<and> zone = [] then None
             else map_option (\<lambda>b. \<lparr>ni_v4 = False, ni_bytes = b, ni_zone = zone\<rparr>) (parseIPv6 addr))
          else None)"

definition Is4In6 :: "netip \<Rightarrow> bool" where
  "Is4In6 a \<longleftrightarrow> \<not> ni_v4 a \<and> take 12 (ni_bytes a) = v4InV6Prefix"

definition Unmap :: "netip \<Rightarrow> netip" where
  "Unmap a = (if Is4In6 a then a\<lparr>ni_v4 := True, ni_zone := []\<rparr> else a)"

definition BitLen :: "netip \<Rightarrow> nat" where
  "BitLen a = (if ni_v4 a then 32 else 128)"

text \<open>The address as a number of \<open>BitLen\<close> bits.\<close>

definition addr_value :: "netip \<Rightarrow> nat" where
  "addr_value a = foldl (\<lambda>n b. n * 256 + b) 0 (if ni_v4 a then drop 12 (ni_bytes a) else ni_bytes a)"

record prefix =
  px_addr :: netip
  px_bits :: nat

definition PrefixFrom :: "netip \<Rightarrow> nat \<Rightarrow> prefix" where
  "PrefixFrom a n = \<lparr>px_addr = a\<lparr>ni_zone := []\<rparr>, px_bits = n\<rparr>"

definition Masked :: "prefix \<Rightarrow> prefix" where
  "Masked p =
     (let a = px_addr p;
          b = (if ni_v4 a then v4InV6Prefix @ and_bytes (drop 12 (ni_bytes a)) (CIDRMask (px_bits p) 32)
               else and_bytes (ni_bytes a) (CIDRMask (px_bits p) 128))
      in p\<lparr>px_addr := a\<lparr>ni_bytes := b\<rparr>\<rparr>)"

text \<open>\<open>netip.ParsePrefix\<close>: split at the last slash, no zone, the length without sign or leading zero.\<close>

definition ParsePrefix :: "string \<Rightarrow> prefix option" where
  "ParsePrefix s =
     (case split_last (CHR ''/'') s of
        None \<Rightarrow> None
      | Some (addr, bits) \<Rightarrow>
          (case ParseNetip addr of
             None \<Rightarrow> None
           | Some a \<Rightarrow>
               if ni_zone a \<noteq> [] then None
               else if length bits > 1 \<and> \<not> (CHR ''1'' \<le> hd bits \<and> hd bits \<le> CHR ''9'') then None
               else (case parse_int64 bits of
                       None \<Rightarrow> None
                     | Some n \<Rightarrow> if n < 0 \<or> n > int (BitLen a) then None else Some (PrefixFrom a (nat n)))))"

definition prefix_contains :: "prefix \<Rightarrow> netip \<Rightarrow> bool" where
  "prefix_contains p a \<longleftrightarrow>
     ni_zone a = [] \<and> ni_v4 (px_addr p) = ni_v4 a
     \<and> addr_value (px_addr p) div 2 ^ (BitLen a - px_bits p) = addr_value a div 2 ^ (BitLen a - px_bits p)"

section \<open>Text of an address\<close>

fun show_hex :: "nat \<Rightarrow> string" where
  "show_hex n = (if n < 16 then [hex_digit n] else show_hex (n div 16) @ [hex_digit (n mod 16)])"

declare show_hex.simps [simp del]

fun v6_groups :: "ip \<Rightarrow> nat list" where
  "v6_groups (a # b # r) = (a * 256 + b) # v6_groups r"
| "v6_groups _ = []"

text \<open>The first of the longest runs of at least two zero groups.\<close>

definition zero_run :: "nat list \<Rightarrow> (nat \<times> nat) option" where
  "zero_run gs =
     fold (\<lambda>i best.
        let l = length (takeWhile (\<lambda>g. g = 0) (drop i gs));
            old = (case best of None \<Rightarrow> 0 | Some (a, b) \<Rightarrow> b - a)
        in if l \<ge> 2 \<and> l > old then Some (i, i + l) else best) [0..<length gs] None"

definition netip_text :: "netip \<Rightarrow> string" where
  "netip_text a =
     (if ni_v4 a then show_ipv4 (drop 12 (ni_bytes a))
      else
        (if Is4In6 a then ''::ffff:'' @ show_ipv4 (drop 12 (ni_bytes a))
         else let gs = v6_groups (ni_bytes a) in
           case zero_run gs of
             None \<Rightarrow> join_with '':'' (map show_hex gs)
           | Some (i, j) \<Rightarrow> join_with '':'' (map show_hex (take i gs)) @ ''::'' @ join_with '':'' (map show_hex (drop j gs)))
        @ (if ni_zone a = [] then [] else ''%'' @ ni_zone a))"

definition prefix_text :: "prefix \<Rightarrow> string" where
  "prefix_text p = netip_text (px_addr p) @ ''/'' @ show_nat (px_bits p)"

section \<open>clientip.go\<close>

type_synonym client_keyer = "prefix list"

text \<open>\<open>NewClientKeyer\<close>: a malformed entry is an error, an empty one is skipped.\<close>

fun NewClientKeyer :: "string list \<Rightarrow> string + client_keyer" where
  "NewClientKeyer [] = Inr []"
| "NewClientKeyer (x # xs) =
     (let raw = trim_space x in
      if raw = [] then NewClientKeyer xs
      else if str_contains ''/'' raw then
        (case ParsePrefix raw of
           None \<Rightarrow> Inl (''invalid trusted proxy CIDR'')
         | Some p \<Rightarrow> (case NewClientKeyer xs of Inl e \<Rightarrow> Inl e | Inr k \<Rightarrow> Inr (Masked p # k)))
      else
        (case ParseNetip raw of
           None \<Rightarrow> Inl (''invalid trusted proxy address'')
         | Some a \<Rightarrow> (case NewClientKeyer xs of Inl e \<Rightarrow> Inl e | Inr k \<Rightarrow> Inr (PrefixFrom a (BitLen a) # k))))"

definition isTrusted :: "client_keyer \<Rightarrow> netip \<Rightarrow> bool" where
  "isTrusted k a = list_ex (\<lambda>p. prefix_contains p (Unmap a)) k"

definition ipv6KeyPrefixLen :: nat where
  "ipv6KeyPrefixLen = 64"

definition bucketKey :: "string \<Rightarrow> string" where
  "bucketKey addr =
     (case ParseNetip addr of
        None \<Rightarrow> addr
      | Some a \<Rightarrow>
          (let a = Unmap a in
           if ni_v4 a then netip_text a else prefix_text (Masked (PrefixFrom a ipv6KeyPrefixLen))))"

definition forwarded_fields :: "string list \<Rightarrow> string list" where
  "forwarded_fields values =
     filter (\<lambda>f. f \<noteq> []) (map trim_space (concat (map (split_on (CHR '','')) values)))"

definition reverseForwardedFor :: "string list \<Rightarrow> string list" where
  "reverseForwardedFor values = rev (forwarded_fields values)"

definition clientIP :: "string \<Rightarrow> string" where
  "clientIP remote = (case SplitHostPort remote of None \<Rightarrow> remote | Some h \<Rightarrow> h)"

fun walk_hops :: "client_keyer \<Rightarrow> string \<Rightarrow> string list \<Rightarrow> string" where
  "walk_hops k peer [] = bucketKey peer"
| "walk_hops k peer (f # fs) =
     (case ParseNetip f of
        None \<Rightarrow> bucketKey peer
      | Some a \<Rightarrow> if isTrusted k a then walk_hops k peer fs else bucketKey (netip_text a))"

definition ClientKey :: "client_keyer \<Rightarrow> string \<Rightarrow> string list \<Rightarrow> string" where
  "ClientKey k remote forwarded =
     (let peer = clientIP remote in
      if k = [] then bucketKey peer
      else case ParseNetip peer of
             None \<Rightarrow> bucketKey peer
           | Some a \<Rightarrow> if \<not> isTrusted k a then bucketKey peer
                      else walk_hops k peer (reverseForwardedFor forwarded))"

section \<open>What a client can influence\<close>

text \<open>A hop that ends the walk: not an address, or not a trusted proxy.\<close>

definition stops :: "client_keyer \<Rightarrow> string \<Rightarrow> bool" where
  "stops k f = (case ParseNetip f of None \<Rightarrow> True | Some a \<Rightarrow> \<not> isTrusted k a)"

lemma walk_hops_stops: "list_ex (stops k) fs \<Longrightarrow> walk_hops k peer (fs @ gs) = walk_hops k peer fs"
  by (induction fs) (auto simp: stops_def split: option.splits)

lemma forwarded_fields_append: "forwarded_fields (a @ b) = forwarded_fields a @ forwarded_fields b"
  by (simp add: forwarded_fields_def)

lemma split_on_join:
  "split_on sep (a @ sep # b) = split_on sep a @ split_on sep b"
proof (induction a)
  case (Cons c a)
  then show ?case by (cases "split_on sep a") auto
qed simp

lemma forwarded_comma:
  "forwarded_fields [claimed @ '','' @ seen] = forwarded_fields [claimed] @ forwarded_fields [seen]"
  by (simp add: forwarded_fields_def split_on_join)

lemma reverse_claimed:
  "reverseForwardedFor (claimed @ seen) = reverseForwardedFor seen @ reverseForwardedFor claimed"
  "reverseForwardedFor [c @ '','' @ s] = reverseForwardedFor [s] @ reverseForwardedFor [c]"
  unfolding reverseForwardedFor_def forwarded_comma by (simp_all add: forwarded_fields_append)

lemma ClientKey_suffix:
  assumes "list_ex (stops k) (reverseForwardedFor seen)" "reverseForwardedFor all = reverseForwardedFor seen @ rest"
  shows "ClientKey k remote all = ClientKey k remote seen"
  using walk_hops_stops [OF assms(1)] by (simp add: ClientKey_def Let_def assms(2) split: option.splits)

section \<open>Properties of the bucket\<close>

text \<open>A client cannot choose its bucket through \<open>X-Forwarded-For\<close>.  From a peer that is no trusted proxy the
  header is ignored.  Through trusted proxies, whatever the client put into the header before the
  first hop that is not a trusted proxy changes nothing, both when the proxies append to the
  value and when they add a header line.\<close>

theorem client_key_unspoofable:
  assumes "\<not> (\<exists>a. ParseNetip (clientIP peer) = Some a \<and> isTrusted k a)"
    and "list_ex (stops k) (reverseForwardedFor [s])"
  shows "ClientKey k peer fwd = bucketKey (clientIP peer)
     \<and> ClientKey k remote [c @ '','' @ s] = ClientKey k remote [s]
     \<and> ClientKey k remote (claimed @ [s]) = ClientKey k remote [s]"
proof -
  have "ClientKey k peer fwd = bucketKey (clientIP peer)"
    using assms(1) by (auto simp: ClientKey_def Let_def split: option.splits)
  then show ?thesis using ClientKey_suffix [OF assms(2)] reverse_claimed by blast
qed

theorem client_key_unspoofable_witness:
  "ClientKey [PrefixFrom \<lparr>ni_v4 = True, ni_bytes = v4InV6Prefix @ [10, 0, 0, 2], ni_zone = []\<rparr> 32]
      ''203.0.113.9:4711'' [''198.51.100.7''] = bucketKey (clientIP ''203.0.113.9:4711'')
   \<and> ClientKey [PrefixFrom \<lparr>ni_v4 = True, ni_bytes = v4InV6Prefix @ [10, 0, 0, 2], ni_zone = []\<rparr> 32]
      ''10.0.0.2:443'' [''1.1.1.1'' @ '','' @ ''198.51.100.7''] = ''198.51.100.7''"
proof -
  let ?k = "[PrefixFrom \<lparr>ni_v4 = True, ni_bytes = v4InV6Prefix @ [10, 0, 0, 2], ni_zone = []\<rparr> 32]"
  have "ParseNetip (clientIP ''203.0.113.9:4711'') = Some \<lparr>ni_v4 = True, ni_bytes = v4InV6Prefix @ [203, 0, 113, 9], ni_zone = []\<rparr>"
    by code_simp
  moreover have u: "\<not> isTrusted ?k \<lparr>ni_v4 = True, ni_bytes = v4InV6Prefix @ [203, 0, 113, 9], ni_zone = []\<rparr>"
      "\<not> isTrusted ?k \<lparr>ni_v4 = True, ni_bytes = v4InV6Prefix @ [198, 51, 100, 7], ni_zone = []\<rparr>"
      "isTrusted ?k \<lparr>ni_v4 = True, ni_bytes = v4InV6Prefix @ [10, 0, 0, 2], ni_zone = []\<rparr>"
    by (simp_all add: isTrusted_def prefix_contains_def addr_value_def PrefixFrom_def Unmap_def Is4In6_def BitLen_def v4InV6Prefix_def)
  ultimately have a: "\<not> (\<exists>a. ParseNetip (clientIP ''203.0.113.9:4711'') = Some a \<and> isTrusted ?k a)" by simp
  have r: "reverseForwardedFor [''198.51.100.7''] = [''198.51.100.7'']" by code_simp
  have p: "ParseNetip ''198.51.100.7'' = Some \<lparr>ni_v4 = True, ni_bytes = v4InV6Prefix @ [198, 51, 100, 7], ni_zone = []\<rparr>"
    "ParseNetip ''10.0.0.2'' = Some \<lparr>ni_v4 = True, ni_bytes = v4InV6Prefix @ [10, 0, 0, 2], ni_zone = []\<rparr>"
    "clientIP ''10.0.0.2:443'' = ''10.0.0.2''"
    "netip_text \<lparr>ni_v4 = True, ni_bytes = v4InV6Prefix @ [198, 51, 100, 7], ni_zone = []\<rparr> = ''198.51.100.7''"
    "bucketKey ''198.51.100.7'' = ''198.51.100.7''"
    by code_simp+
  have b: "list_ex (stops ?k) (reverseForwardedFor [''198.51.100.7''])" using r p(1) u(2) by (simp add: stops_def)
  have c: "ClientKey ?k ''10.0.0.2:443'' [''198.51.100.7''] = ''198.51.100.7''"
    unfolding ClientKey_def Let_def r p(3) by (simp add: p u)
  note t = client_key_unspoofable [OF a b, of "[''198.51.100.7'']" "''10.0.0.2:443''" "''1.1.1.1''"]
  show ?thesis using t [THEN conjunct1] t [THEN conjunct2, THEN conjunct1] c by (intro conjI) (simp_all only:)
qed

text \<open>All addresses of one IPv6 /64 network share a bucket, so that rotating through the network gains
  nothing.\<close>

lemma CIDRMask_64: "CIDRMask 64 128 = replicate 8 255 @ replicate 8 0"
  by code_simp

lemma Unmap_bytes [simp]: "ni_bytes (Unmap a) = ni_bytes a"
  by (simp add: Unmap_def)

lemma mask_64: "length x = 16 \<Longrightarrow> and_bytes x (CIDRMask 64 128) = map (\<lambda>b. b AND 255) (take 8 x) @ replicate 8 0"
proof -
  assume l: "length x = 16"
  then have "and_bytes x (replicate 8 255 @ replicate 8 0)
      = map2 (AND) (take 8 x) (replicate 8 255) @ map2 (AND) (drop 8 x) (replicate 8 0)"
    by (simp add: and_bytes_def zip_append2)
  moreover have "map2 (AND) (take 8 x) (replicate 8 255) = map (\<lambda>b. b AND 255) (take 8 x)"
    using l by (simp add: zip_replicate2 comp_def)
  moreover have "map2 (AND) (drop 8 x) (replicate 8 (0::nat)) = replicate 8 0"
    using l by (simp add: zip_replicate2 comp_def map_replicate_const)
  ultimately show ?thesis by (simp add: CIDRMask_64)
qed

lemma bucket_v6:
  assumes "ParseNetip s = Some a" "\<not> ni_v4 (Unmap a)" "length (ni_bytes a) = 16"
  shows "bucketKey s = prefix_text \<lparr>px_addr = \<lparr>ni_v4 = False,
     ni_bytes = map (\<lambda>b. b AND 255) (take 8 (ni_bytes a)) @ replicate 8 0, ni_zone = []\<rparr>, px_bits = 64\<rparr>"
proof -
  obtain z where u: "Unmap a = \<lparr>ni_v4 = False, ni_bytes = ni_bytes a, ni_zone = z\<rparr>"
    using assms(2) Unmap_bytes [of a] by (cases "Unmap a") (auto simp del: Unmap_bytes)
  show ?thesis
    unfolding bucketKey_def Let_def
    by (simp add: assms(1) u Masked_def PrefixFrom_def ipv6KeyPrefixLen_def mask_64 [OF assms(3)] Let_def)
qed

lemma bucket_of_network:
  assumes "ParseNetip s = Some a" "ParseNetip t = Some b" "\<not> ni_v4 (Unmap a)" "\<not> ni_v4 (Unmap b)"
    and "length (ni_bytes a) = 16" "length (ni_bytes b) = 16" "take 8 (ni_bytes a) = take 8 (ni_bytes b)"
  shows "bucketKey s = bucketKey t"
  using bucket_v6 [OF assms(1,3,5)] bucket_v6 [OF assms(2,4,6)] assms(7) by simp

end
