(* ===== verification/Rate_Limit.thy ===== *)
theory Rate_Limit
  imports Client_Key Go_Time
begin

text \<open>
  The two rate limiters, \<open>internal/middleware/ratelimit.go\<close> and \<open>ratelimit_redis.go\<close>.

  The in-memory limiter keeps one entry object per bucket.  A request first looks its entry up under
  the lock of the table, then records its time under the lock of the entry, so the table maps keys to
  addresses and the entries live in a store: between the two critical sections the table may lose the
  entry.  The Redis limiter runs one script per request; the commands of the script are parameters.
\<close>

section \<open>The in-memory limiter\<close>

record limiter =
  rl_entries :: "(string \<times> nat) list"
  rl_store :: "nat \<Rightarrow> time list"
  rl_fresh :: nat
  rl_order :: "string list"
  rl_limit :: int
  rl_window :: duration

definition maxRateLimiterEntries :: nat where
  "maxRateLimiterEntries = 10000"

definition NewRateLimiter :: "int \<Rightarrow> duration \<Rightarrow> limiter" where
  "NewRateLimiter limit window =
     \<lparr>rl_entries = [], rl_store = (\<lambda>_. []), rl_fresh = 0, rl_order = [], rl_limit = limit, rl_window = window\<rparr>"

fun evict_from :: "string list \<Rightarrow> (string \<times> nat) list \<Rightarrow> bool \<times> string list \<times> (string \<times> nat) list" where
  "evict_from [] entries = (False, [], entries)"
| "evict_from (k # ks) entries =
     (if k \<in> fst ` set entries then (True, ks, filter (\<lambda>e. fst e \<noteq> k) entries)
      else evict_from ks entries)"

definition evictOldestLocked :: "limiter \<Rightarrow> bool \<times> limiter" where
  "evictOldestLocked rl =
     (case evict_from (rl_order rl) (rl_entries rl) of
        (ok, order, entries) \<Rightarrow> (ok, rl\<lparr>rl_order := order, rl_entries := entries\<rparr>))"

lemma evict_from_shorter: "evict_from ks es = (True, ks', es') \<Longrightarrow> length ks' < length ks"
  by (induction ks) (auto split: if_splits)

function make_room :: "limiter \<Rightarrow> limiter" where
  "make_room rl =
     (if length (rl_entries rl) < maxRateLimiterEntries then rl
      else case evictOldestLocked rl of (ok, rl') \<Rightarrow> if ok then make_room rl' else rl')"
  by pat_completeness auto
termination
  by (relation "measure (\<lambda>rl. length (rl_order rl))")
    (auto simp: evictOldestLocked_def evict_from_shorter split: prod.splits)

declare make_room.simps [simp del]

text \<open>The first critical section of \<open>allow\<close>: find or create the entry.\<close>

definition lookup_entry :: "string \<Rightarrow> limiter \<Rightarrow> nat \<times> limiter" where
  "lookup_entry key rl =
     (case map_of (rl_entries rl) key of
        Some a \<Rightarrow> (a, rl)
      | None \<Rightarrow>
          (let rl = make_room rl; a = rl_fresh rl in
           (a, rl\<lparr>rl_entries := rl_entries rl @ [(key, a)], rl_store := (rl_store rl)(a := []),
                  rl_fresh := a + 1, rl_order := rl_order rl @ [key]\<rparr>)))"

text \<open>The second: drop the times outside the window and record the request if there is room.\<close>

definition record_hit :: "nat \<Rightarrow> time \<Rightarrow> limiter \<Rightarrow> bool \<times> limiter" where
  "record_hit a now rl =
     (let cutoff = now - rl_window rl; kept = filter (\<lambda>t. t > cutoff) (rl_store rl a) in
      if int (length kept) \<ge> rl_limit rl then (False, rl\<lparr>rl_store := (rl_store rl)(a := kept)\<rparr>)
      else (True, rl\<lparr>rl_store := (rl_store rl)(a := kept @ [now])\<rparr>))"

definition allow :: "string \<Rightarrow> time \<Rightarrow> limiter \<Rightarrow> bool \<times> limiter" where
  "allow key now rl = (case lookup_entry key rl of (a, rl) \<Rightarrow> record_hit a now rl)"

definition stale :: "time list \<Rightarrow> time \<Rightarrow> bool" where
  "stale ts cutoff \<longleftrightarrow> ts = [] \<or> \<not> last ts > cutoff"

definition gc :: "time \<Rightarrow> limiter \<Rightarrow> limiter" where
  "gc now rl =
     (let entries = filter (\<lambda>e. \<not> stale (rl_store rl (snd e)) (now - rl_window rl)) (rl_entries rl)
      in rl\<lparr>rl_entries := entries,
            rl_order := (if entries = [] then [] else filter (\<lambda>k. k \<in> fst ` set entries) (rl_order rl))\<rparr>)"

text \<open>\<open>Middleware\<close>: a refusal is the answer 429 with the window in seconds as \<open>Retry-After\<close>.\<close>

definition rate_limit_middleware :: "client_keyer \<Rightarrow> string \<Rightarrow> string list \<Rightarrow> time \<Rightarrow> limiter
   \<Rightarrow> (nat \<times> string \<times> string) option \<times> limiter" where
  "rate_limit_middleware k remote forwarded now rl =
     (case allow (ClientKey k remote forwarded) now rl of
        (ok, rl') \<Rightarrow>
          (if ok then None
           else Some (429, show_int (rl_window rl div second), ''rate limit exceeded''), rl'))"

section \<open>The Redis limiter\<close>

record 's redis =
  r_incr :: "string \<Rightarrow> 's \<Rightarrow> int \<times> 's"
  r_pttl :: "string \<Rightarrow> 's \<Rightarrow> int"
  r_pexpire :: "string \<Rightarrow> int \<Rightarrow> 's \<Rightarrow> 's"

definition incrWithExpiryScript :: "'s redis \<Rightarrow> string \<Rightarrow> int \<Rightarrow> 's \<Rightarrow> int \<times> 's" where
  "incrWithExpiryScript r key ms s =
     (let (current, s) = r_incr r key s;
          s = (if r_pttl r key s < 0 then r_pexpire r key ms s else s)
      in (current, s))"

text \<open>\<open>err\<close> is a failure of the round trip; the script may or may not have run then.\<close>

definition redis_allow :: "'s redis \<Rightarrow> int \<Rightarrow> duration \<Rightarrow> string option \<Rightarrow> string \<Rightarrow> 's \<Rightarrow> (string + bool) \<times> 's" where
  "redis_allow r limit window err key s =
     (case err of
        Some e \<Rightarrow> (Inl e, s)
      | None \<Rightarrow> (case incrWithExpiryScript r key (window div (10 ^ 6)) s of (count, s) \<Rightarrow> (Inr (count \<le> limit), s)))"

definition redis_middleware :: "'s redis \<Rightarrow> int \<Rightarrow> duration \<Rightarrow> string \<Rightarrow> string option \<Rightarrow> client_keyer \<Rightarrow> string
   \<Rightarrow> string list \<Rightarrow> 's \<Rightarrow> (nat \<times> string \<times> string) option \<times> 's" where
  "redis_middleware r limit window prefix err k remote forwarded s =
     (let refusal = (429, show_int (window div second), ''rate limit exceeded'') in
      case redis_allow r limit window err (prefix @ '':'' @ ClientKey k remote forwarded) s of
        (Inl e, s) \<Rightarrow> (Some refusal, s)
      | (Inr ok, s) \<Rightarrow> (if ok then None else Some refusal, s))"

section \<open>The table\<close>

text \<open>The order lists the keys of the table, keys and addresses are unique, and addresses are never
  reused.\<close>

definition wf_limiter :: "limiter \<Rightarrow> bool" where
  "wf_limiter rl \<longleftrightarrow>
     rl_order rl = map fst (rl_entries rl) \<and> distinct (map fst (rl_entries rl)) \<and> distinct (map snd (rl_entries rl))
     \<and> (\<forall>a \<in> snd ` set (rl_entries rl). a < rl_fresh rl)"

lemma wf_new: "wf_limiter (NewRateLimiter limit window)"
  by (simp add: wf_limiter_def NewRateLimiter_def)

lemma filter_hd_key:
  "distinct (map fst ((k, a) # es)) \<Longrightarrow> filter (\<lambda>e. fst e \<noteq> k) ((k, a) # es) = es"
  by (auto simp: filter_id_conv)

lemma evict_wf:
  assumes "wf_limiter rl" "rl_entries rl \<noteq> []"
  shows "evictOldestLocked rl = (True, rl\<lparr>rl_order := tl (rl_order rl), rl_entries := tl (rl_entries rl)\<rparr>)"
proof -
  obtain k a es where e: "rl_entries rl = (k, a) # es" using assms(2) by (metis list.exhaust surj_pair)
  with assms(1) have "rl_order rl = k # map fst es" "filter (\<lambda>e. fst e \<noteq> k) ((k, a) # es) = es"
    using filter_hd_key [of k a es] by (simp_all add: wf_limiter_def del: filter.simps)
  then show ?thesis by (simp add: evictOldestLocked_def e del: filter.simps)
qed

lemma wf_tl: "wf_limiter rl \<Longrightarrow> wf_limiter (rl\<lparr>rl_order := tl (rl_order rl), rl_entries := tl (rl_entries rl)\<rparr>)"
  by (cases "rl_entries rl") (auto simp: wf_limiter_def)

lemma make_room_wf:
  assumes "wf_limiter rl"
  shows "wf_limiter (make_room rl) \<and> length (rl_entries (make_room rl)) < maxRateLimiterEntries
    \<and> (\<exists>n. make_room rl = rl\<lparr>rl_order := drop n (rl_order rl), rl_entries := drop n (rl_entries rl)\<rparr>)"
  using assms
proof (induction rl rule: make_room.induct)
  case (1 rl)
  show ?case
  proof (cases "length (rl_entries rl) < maxRateLimiterEntries")
    case True
    then show ?thesis using 1(2) by (subst (1 2 3) make_room.simps) (auto intro: exI [of _ 0])
  next
    case False
    then have ne: "rl_entries rl \<noteq> []" by (auto simp: maxRateLimiterEntries_def)
    let ?rl = "rl\<lparr>rl_order := tl (rl_order rl), rl_entries := tl (rl_entries rl)\<rparr>"
    have m: "make_room rl = make_room ?rl"
      using False evict_wf [OF 1(2) ne] by (subst make_room.simps) simp
    from 1(1) [OF False evict_wf [OF 1(2) ne, symmetric] TrueI wf_tl [OF 1(2)]] obtain n where
      ih: "wf_limiter (make_room ?rl)" "length (rl_entries (make_room ?rl)) < maxRateLimiterEntries"
        "make_room ?rl = ?rl\<lparr>rl_order := drop n (rl_order ?rl), rl_entries := drop n (rl_entries ?rl)\<rparr>"
      by auto
    show ?thesis unfolding m using ih by (auto simp: drop_Suc intro!: exI [of _ "Suc n"])
  qed
qed

lemma record_hit_fields:
  "rl_entries (snd (record_hit a now rl)) = rl_entries rl" "rl_order (snd (record_hit a now rl)) = rl_order rl"
  "rl_fresh (snd (record_hit a now rl)) = rl_fresh rl" "rl_limit (snd (record_hit a now rl)) = rl_limit rl"
  "rl_window (snd (record_hit a now rl)) = rl_window rl"
  by (simp_all add: record_hit_def Let_def)

lemma wf_record_hit: "wf_limiter (snd (record_hit a now rl)) \<longleftrightarrow> wf_limiter rl"
  by (simp add: wf_limiter_def record_hit_fields)

lemma lookup_entry_wf:
  assumes "wf_limiter rl"
  shows "wf_limiter (snd (lookup_entry key rl))"
proof (cases "map_of (rl_entries rl) key")
  case None
  obtain n where m: "make_room rl = rl\<lparr>rl_order := drop n (rl_order rl), rl_entries := drop n (rl_entries rl)\<rparr>"
    and w: "wf_limiter (make_room rl)"
    using make_room_wf [OF assms] by blast
  have "key \<notin> fst ` set (rl_entries (make_room rl))"
    using None unfolding m by (auto simp: map_of_eq_None_iff image_iff dest: in_set_dropD)
  with w show ?thesis by (auto simp: lookup_entry_def None wf_limiter_def Let_def less_SucI)
qed (simp add: lookup_entry_def assms)

lemma gc_wf: "wf_limiter rl \<Longrightarrow> wf_limiter (gc now rl)"
proof -
  assume w: "wf_limiter rl"
  define es where "es = filter (\<lambda>e. \<not> stale (rl_store rl (snd e)) (now - rl_window rl)) (rl_entries rl)"
  have "filter (\<lambda>k. k \<in> fst ` set (filter P xs)) (map fst xs) = map fst (filter P xs)"
    if "distinct (map fst xs)" for P and xs :: "(string \<times> nat) list"
  proof -
    have "fst x \<in> fst ` set (filter P xs) \<longleftrightarrow> P x" if "x \<in> set xs" for x
      using \<open>distinct (map fst xs)\<close> that by (auto simp: distinct_map dest: inj_onD)
    then show ?thesis by (simp add: filter_map comp_def cong: filter_cong)
  qed
  then have "filter (\<lambda>k. k \<in> fst ` set es) (rl_order rl) = map fst es"
    using w by (simp add: wf_limiter_def es_def)
  then show ?thesis
    using w by (auto simp: gc_def es_def [symmetric] wf_limiter_def Let_def distinct_map_filter)
      (auto simp: es_def distinct_map_filter)
qed

section \<open>The sliding window\<close>

text \<open>What the limiter remembers of a key.\<close>

definition times_of :: "limiter \<Rightarrow> string \<Rightarrow> time list" where
  "times_of rl key = (case map_of (rl_entries rl) key of None \<Rightarrow> [] | Some a \<Rightarrow> rl_store rl a)"

definition kept_of :: "limiter \<Rightarrow> string \<Rightarrow> time \<Rightarrow> time list" where
  "kept_of rl key now = filter (\<lambda>t. t > now - rl_window rl) (times_of rl key)"

text \<open>The first section, when it evicts nothing, changes the times of no key; the second those of its own key only.\<close>

definition no_eviction :: "string \<Rightarrow> limiter \<Rightarrow> bool" where
  "no_eviction key rl \<longleftrightarrow> key \<in> fst ` set (rl_entries rl) \<or> length (rl_entries rl) < maxRateLimiterEntries"

lemma lookup_times:
  assumes "wf_limiter rl" "no_eviction key rl" "lookup_entry key rl = (a, rl')"
  shows "wf_limiter rl' \<and> map_of (rl_entries rl') key = Some a \<and> times_of rl' k = times_of rl k
    \<and> rl_limit rl' = rl_limit rl \<and> rl_window rl' = rl_window rl
    \<and> (\<forall>k b. map_of (rl_entries rl) k = Some b \<longrightarrow> map_of (rl_entries rl') k = Some b)"
proof -
  have "wf_limiter rl'" using lookup_entry_wf [OF assms(1), of key] assms(3) by simp
  moreover have "map_of (rl_entries rl') key = Some a \<and> times_of rl' k = times_of rl k
    \<and> rl_limit rl' = rl_limit rl \<and> rl_window rl' = rl_window rl
    \<and> (\<forall>k b. map_of (rl_entries rl) k = Some b \<longrightarrow> map_of (rl_entries rl') k = Some b)"
  proof (cases "map_of (rl_entries rl) key")
    case None
    then have "make_room rl = rl"
      using assms(2) by (subst make_room.simps) (auto simp: no_eviction_def map_of_eq_None_iff)
    moreover have "b \<noteq> rl_fresh rl" if "map_of (rl_entries rl) k = Some b" for k b
      using map_of_SomeD [OF that] assms(1) by (force simp: wf_limiter_def)
    ultimately show ?thesis using assms(3) None
      by (auto simp: lookup_entry_def Let_def times_of_def map_add_def split: option.splits if_splits)
  next
    case (Some b)
    with assms(3) show ?thesis by (simp add: lookup_entry_def)
  qed
  ultimately show ?thesis by blast
qed

lemma record_times:
  assumes "wf_limiter rl" "map_of (rl_entries rl) key = Some a" "record_hit a now rl = (ok, rl')"
  shows "wf_limiter rl' \<and> rl_entries rl' = rl_entries rl \<and> rl_limit rl' = rl_limit rl \<and> rl_window rl' = rl_window rl
     \<and> (ok \<longleftrightarrow> int (length (kept_of rl key now)) < rl_limit rl)
     \<and> times_of rl' k = (if k = key then kept_of rl key now @ (if ok then [now] else []) else times_of rl k)"
proof -
  have t: "times_of rl key = rl_store rl a" using assms(2) by (simp add: times_of_def)
  have h: "rl_store rl' a = kept_of rl key now @ (if ok then [now] else [])"
    "ok \<longleftrightarrow> int (length (kept_of rl key now)) < rl_limit rl" "\<And>b. b \<noteq> a \<Longrightarrow> rl_store rl' b = rl_store rl b"
    using assms(3) by (auto simp: record_hit_def Let_def kept_of_def t split: if_splits)
  have e: "rl_entries rl' = rl_entries rl" "wf_limiter rl'" "rl_limit rl' = rl_limit rl" "rl_window rl' = rl_window rl"
    using assms(1,3) record_hit_fields [of a now rl] wf_record_hit [of a now rl] by auto
  have "b \<noteq> a" if "map_of (rl_entries rl) k = Some b" "k \<noteq> key" for b
    using that assms(1,2) by (metis eq_key_imp_eq_value map_of_SomeD snd_conv distinct_map inj_onD wf_limiter_def fst_conv)
  then have "times_of rl' k = times_of rl k" if "k \<noteq> key"
    using that h(3) e(1) by (auto simp: times_of_def split: option.splits)
  moreover have "times_of rl' key = rl_store rl' a" using assms(2) e(1) by (simp add: times_of_def)
  ultimately show ?thesis using h(1,2) e by auto
qed

lemma map_of_filter_distinct:
  "distinct (map fst xs) \<Longrightarrow> map_of (filter P xs) k
     = (case map_of xs k of None \<Rightarrow> None | Some a \<Rightarrow> if P (k, a) then Some a else None)"
proof (induction xs)
  case (Cons x xs)
  then have "k = fst x \<Longrightarrow> map_of xs k = None" by (auto simp: map_of_eq_None_iff)
  with Cons show ?case by (cases x) auto
qed simp

lemma sorted_le_last: "sorted ts \<Longrightarrow> t \<in> set ts \<Longrightarrow> t \<le> last ts"
  by (induction ts) (auto split: if_splits)

lemma stale_filter: "stale ts c \<Longrightarrow> sorted ts \<Longrightarrow> filter (\<lambda>t. t > c) ts = []"
  using sorted_le_last by (fastforce simp: stale_def filter_empty_conv)

lemma gc_times:
  assumes "wf_limiter rl" "sorted (times_of rl k)"
  shows "filter (\<lambda>t. t > now - rl_window rl) (times_of (gc now rl) k) = kept_of rl k now"
    and "times_of (gc now rl) k \<in> {[], times_of rl k}"
proof -
  let ?P = "\<lambda>e. \<not> stale (rl_store rl (snd e)) (now - rl_window rl)"
  have "map_of (filter ?P (rl_entries rl)) k
      = (case map_of (rl_entries rl) k of None \<Rightarrow> None | Some a \<Rightarrow> if ?P (k, a) then Some a else None)"
    using assms(1) by (intro map_of_filter_distinct) (simp add: wf_limiter_def)
  then have t: "times_of (gc now rl) k = (if stale (times_of rl k) (now - rl_window rl) then [] else times_of rl k)"
    by (auto simp: gc_def times_of_def Let_def stale_def split: option.splits)
  then show "times_of (gc now rl) k \<in> {[], times_of rl k}" by simp
  show "filter (\<lambda>t. t > now - rl_window rl) (times_of (gc now rl) k) = kept_of rl k now"
    using stale_filter [OF _ assms(2)] by (simp add: t kept_of_def)
qed

text \<open>The run of the limiter.  A request arrives, which is its first critical section, and later records its time, which is its second; between the two
  it is pending with the address of its entry, and other requests and sweeps may run.  The accepted requests are recorded beside the state.\<close>

datatype limiter_op = Arrive string | Record nat time | Sweep time

record limiter_run =
  lr_limiter :: limiter
  lr_pending :: "(string \<times> nat) list"
  lr_last :: time
  lr_accepted :: "(string \<times> time) list"

definition remove_nth :: "nat \<Rightarrow> 'a list \<Rightarrow> 'a list" where
  "remove_nth i xs = take i xs @ drop (Suc i) xs"

fun limiter_step :: "limiter_op \<Rightarrow> limiter_run \<Rightarrow> limiter_run" where
  "limiter_step (Arrive k) st =
     (case lookup_entry k (lr_limiter st) of (a, rl) \<Rightarrow> st\<lparr>lr_limiter := rl, lr_pending := lr_pending st @ [(k, a)]\<rparr>)"
| "limiter_step (Record i now) st =
     (let (k, a) = lr_pending st ! i in
      case record_hit a now (lr_limiter st) of (ok, rl) \<Rightarrow>
        st\<lparr>lr_limiter := rl, lr_pending := remove_nth i (lr_pending st), lr_last := now,
           lr_accepted := if ok then lr_accepted st @ [(k, now)] else lr_accepted st\<rparr>)"
| "limiter_step (Sweep now) st = st\<lparr>lr_limiter := gc now (lr_limiter st), lr_last := now\<rparr>"

text \<open>The clock does not run backwards, the table has room for a new bucket, and a sweep leaves the buckets of the pending requests.\<close>

fun limiter_legal :: "limiter_op \<Rightarrow> limiter_run \<Rightarrow> bool" where
  "limiter_legal (Arrive k) st \<longleftrightarrow> no_eviction k (lr_limiter st)"
| "limiter_legal (Record i now) st \<longleftrightarrow> i < length (lr_pending st) \<and> lr_last st \<le> now"
| "limiter_legal (Sweep now) st \<longleftrightarrow> lr_last st \<le> now
     \<and> set (lr_pending st) \<subseteq> set (rl_entries (gc now (lr_limiter st)))"

definition accepted :: "(string \<times> time) list \<Rightarrow> string \<Rightarrow> time list" where
  "accepted acc k = map snd (filter (\<lambda>x. fst x = k) acc)"

definition hits_within :: "(string \<times> time) list \<Rightarrow> string \<Rightarrow> time \<Rightarrow> duration \<Rightarrow> nat" where
  "hits_within acc k s w = length (filter (\<lambda>t. s - w < t \<and> t \<le> s) (accepted acc k))"

definition window_inv :: "int \<Rightarrow> duration \<Rightarrow> limiter \<Rightarrow> time \<Rightarrow> (string \<times> time) list \<Rightarrow> bool" where
  "window_inv n w rl l acc \<longleftrightarrow>
     wf_limiter rl \<and> rl_limit rl = n \<and> rl_window rl = w
     \<and> (\<forall>k. sorted (times_of rl k) \<and> (\<forall>t \<in> set (times_of rl k). t \<le> l) \<and> (\<forall>t \<in> set (accepted acc k). t \<le> l)
          \<and> kept_of rl k l = filter (\<lambda>t. t > l - w) (accepted acc k)
          \<and> (\<forall>s. int (hits_within acc k s w) \<le> max 0 n))"

definition limiter_inv :: "int \<Rightarrow> duration \<Rightarrow> limiter_run \<Rightarrow> bool" where
  "limiter_inv n w st \<longleftrightarrow> window_inv n w (lr_limiter st) (lr_last st) (lr_accepted st)
     \<and> (\<forall>(k, a) \<in> set (lr_pending st). map_of (rl_entries (lr_limiter st)) k = Some a)"

lemma filter_later: "c \<le> c' \<Longrightarrow> filter (\<lambda>t. t > c') (filter (\<lambda>t. t > c) ts) = filter (\<lambda>t. t > (c'::int)) ts"
  by (induction ts) auto

lemma kept_later:
  assumes "window_inv n w rl l acc" "l \<le> now"
  shows "kept_of rl k now = filter (\<lambda>t. t > now - w) (accepted acc k)"
proof -
  have c: "l - w \<le> now - w" using assms(2) by simp
  have "kept_of rl k now = filter (\<lambda>t. t > now - w) (kept_of rl k l)"
    using assms(1) filter_later [OF c] by (simp add: window_inv_def kept_of_def)
  also have "\<dots> = filter (\<lambda>t. t > now - w) (accepted acc k)"
    using assms(1) filter_later [OF c] by (simp add: window_inv_def)
  finally show ?thesis .
qed

lemma accepted_snoc: "accepted (acc @ [(k', now)]) k = accepted acc k @ (if k' = k then [now] else [])"
  by (simp add: accepted_def)

lemma length_filter_mono: "(\<And>x. P x \<Longrightarrow> Q x) \<Longrightarrow> length (filter P xs) \<le> length (filter Q xs)"
  by (induction xs) (auto intro: le_SucI)

text \<open>Accepting one more request keeps every window within the limit.\<close>

lemma hits_snoc:
  assumes "\<forall>t \<in> set (accepted acc k). t \<le> now" "int (length (filter (\<lambda>t. t > now - w) (accepted acc k))) < n"
    and "int (hits_within acc k s w) \<le> max 0 n"
  shows "int (hits_within (acc @ [(k, now)]) k s w) \<le> max 0 n"
proof (cases "now \<le> s")
  case True
  have "length (filter (\<lambda>t. s - w < t \<and> t \<le> s) (accepted acc k)) \<le> length (filter (\<lambda>t. t > now - w) (accepted acc k))"
    using True by (intro length_filter_mono) auto
  with assms(2) True show ?thesis by (auto simp: hits_within_def accepted_snoc)
next
  case False
  with assms(3) show ?thesis by (simp add: hits_within_def accepted_snoc)
qed

lemma window_inv_arrive:
  assumes "window_inv n w rl l acc" "no_eviction key rl" "lookup_entry key rl = (a, rl')"
  shows "window_inv n w rl' l acc"
proof -
  have wf: "wf_limiter rl" using assms(1) by (simp add: window_inv_def)
  note f = lookup_times [OF wf assms(2,3)]
  have "times_of rl' k = times_of rl k" "kept_of rl' k t = kept_of rl k t" for k t
    using f [of k] by (simp_all add: kept_of_def)
  with assms(1) f show ?thesis by (simp add: window_inv_def)
qed

lemma window_inv_record:
  assumes inv: "window_inv n w rl l acc" and le: "l \<le> now" and m: "map_of (rl_entries rl) key = Some a"
    and a: "record_hit a now rl = (ok, rl')"
  shows "window_inv n w rl' now (if ok then acc @ [(key, now)] else acc)"
proof -
  from inv have wf: "wf_limiter rl" "rl_limit rl = n" "rl_window rl = w" by (auto simp: window_inv_def)
  let ?acc = "if ok then acc @ [(key, now)] else acc"
  note t = record_times [OF wf(1) m a]
  have kl: "kept_of rl k now = filter (\<lambda>t. t > now - w) (accepted acc k)" for k
    by (rule kept_later [OF inv le])
  have old: "sorted (times_of rl k)" "\<forall>t \<in> set (times_of rl k). t \<le> l" "\<forall>t \<in> set (accepted acc k). t \<le> l"
    "int (hits_within acc k s w) \<le> max 0 n" for k s
    using inv by (auto simp: window_inv_def)
  have "sorted (times_of rl' k) \<and> (\<forall>t \<in> set (times_of rl' k). t \<le> now) \<and> (\<forall>t \<in> set (accepted ?acc k). t \<le> now)
      \<and> kept_of rl' k now = filter (\<lambda>t. t > now - w) (accepted ?acc k)
      \<and> (\<forall>s. int (hits_within ?acc k s w) \<le> max 0 n)" for k
  proof (cases "k = key")
    case True
    have kt: "times_of rl' k = kept_of rl k now @ (if ok then [now] else [])" using t [of k] True by simp
    have "\<forall>x \<in> set (kept_of rl k now). x \<le> now"
      using old(2) le by (fastforce simp: kept_of_def)
    moreover have "sorted (kept_of rl k now)" using old(1) by (simp add: kept_of_def sorted_wrt_filter)
    moreover have "kept_of rl' k now = filter (\<lambda>t. t > now - w) (accepted ?acc k)"
      using kl [of k] True t [of k] wf(3) by (auto simp: kept_of_def accepted_snoc)
    moreover have "int (hits_within ?acc k s w) \<le> max 0 n" for s
    proof (cases ok)
      case ok: True
      have "int (length (filter (\<lambda>t. t > now - w) (accepted acc k))) < n"
        using t [of k] ok True kl wf(2) by simp
      then show ?thesis using hits_snoc [of acc k now w n s] old(3,4) le ok True by force
    qed (use old(4) in simp)
    ultimately show ?thesis using kt old(3) [of k] le by (auto simp: sorted_append accepted_snoc)
  next
    case False
    then have "times_of rl' k = times_of rl k" "accepted ?acc k = accepted acc k" "rl_window rl' = w"
      using t [of k] wf(3) by (auto simp: accepted_snoc)
    then show ?thesis using old [of k] le kl [of k] wf(3)
      by (fastforce simp: kept_of_def hits_within_def)
  qed
  then show ?thesis using t wf by (simp add: window_inv_def)
qed

lemma window_inv_sweep:
  assumes inv: "window_inv n w rl l acc" and le: "l \<le> now"
  shows "window_inv n w (gc now rl) now acc"
proof -
  from inv have wf: "wf_limiter rl" "rl_limit rl = n" "rl_window rl = w" and so: "sorted (times_of rl k)" for k
    by (auto simp: window_inv_def)
  have g: "rl_limit (gc now rl) = n" "rl_window (gc now rl) = w" using wf by (auto simp: gc_def Let_def)
  have bd: "\<forall>t \<in> set (times_of rl k). t \<le> l" "\<forall>t \<in> set (accepted acc k). t \<le> l" "int (hits_within acc k s w) \<le> max 0 n" for k s
    using inv by (auto simp: window_inv_def)
  have "sorted (times_of (gc now rl) k) \<and> (\<forall>t \<in> set (times_of (gc now rl) k). t \<le> now)" for k
    using gc_times(2) [OF wf(1) so, of now k] so [of k] bd(1) [of k] le by fastforce
  moreover have "kept_of (gc now rl) k now = filter (\<lambda>t. t > now - w) (accepted acc k)" for k
    using gc_times(1) [OF wf(1) so, of now k] kept_later [OF inv le] g wf(3) by (simp add: kept_of_def)
  moreover have "\<forall>t \<in> set (accepted acc k). t \<le> now" for k using bd(2) [of k] le by force
  ultimately show ?thesis using gc_wf [OF wf(1)] g bd(3) by (simp add: window_inv_def)
qed

lemma set_remove_nth: "set (remove_nth i xs) \<subseteq> set xs"
  by (auto simp: remove_nth_def dest: in_set_takeD in_set_dropD)

lemma limiter_step_inv:
  assumes "limiter_inv n w st" "limiter_legal op st"
  shows "limiter_inv n w (limiter_step op st)"
proof (cases op)
  case (Arrive key)
  obtain a rl' where a: "lookup_entry key (lr_limiter st) = (a, rl')" by fastforce
  have inv: "window_inv n w (lr_limiter st) (lr_last st) (lr_accepted st)" and ne: "no_eviction key (lr_limiter st)"
    using assms Arrive by (auto simp: limiter_inv_def)
  then have "wf_limiter (lr_limiter st)" by (simp add: window_inv_def)
  from lookup_times [OF this ne a] window_inv_arrive [OF inv ne a] show ?thesis
    using assms(1) by (auto simp: Arrive a limiter_inv_def)
next
  case (Record i now)
  obtain k a where p: "lr_pending st ! i = (k, a)" by (cases "lr_pending st ! i")
  obtain ok rl' where r: "record_hit a now (lr_limiter st) = (ok, rl')" by fastforce
  have inv: "window_inv n w (lr_limiter st) (lr_last st) (lr_accepted st)" and le: "lr_last st \<le> now"
    and "(k, a) \<in> set (lr_pending st)"
    using assms Record p nth_mem [of i "lr_pending st"] by (auto simp: limiter_inv_def)
  with assms(1) have m: "map_of (rl_entries (lr_limiter st)) k = Some a" by (auto simp: limiter_inv_def)
  have "rl_entries rl' = rl_entries (lr_limiter st)" using record_hit_fields(1) [of a now "lr_limiter st"] r by simp
  with window_inv_record [OF inv le m r] assms(1) set_remove_nth [of i "lr_pending st"] show ?thesis
    by (auto simp: Record p r limiter_inv_def)
next
  case (Sweep now)
  have inv: "window_inv n w (lr_limiter st) (lr_last st) (lr_accepted st)" and le: "lr_last st \<le> now"
    and keep: "set (lr_pending st) \<subseteq> set (rl_entries (gc now (lr_limiter st)))"
    using assms Sweep by (auto simp: limiter_inv_def)
  from window_inv_sweep [OF inv le] have w: "window_inv n w (gc now (lr_limiter st)) now (lr_accepted st)" .
  then have "distinct (map fst (rl_entries (gc now (lr_limiter st))))" by (simp add: window_inv_def wf_limiter_def)
  with w keep show ?thesis by (auto simp: Sweep limiter_inv_def subset_iff)
qed

interpretation rate_limiter: guarded_machine limiter_step limiter_legal "limiter_inv n w"
  by unfold_locales (rule limiter_step_inv)

section \<open>Properties of the limiters\<close>

definition limiter_start :: "int \<Rightarrow> duration \<Rightarrow> time \<Rightarrow> limiter_run" where
  "limiter_start limit window t0 = \<lparr>lr_limiter = NewRateLimiter limit window, lr_pending = [], lr_last = t0, lr_accepted = []\<rparr>"

text \<open>C38. However the two critical sections of the requests interleave with each other and with sweeps, at most \<open>limit\<close> requests of one client are accepted in any
  window, wherever the window lies: the limit slides with time and has no boundary at which a client
  could double it.  This holds for the runs in which the clock does not go back, no bucket is evicted for want of space and no sweep removes the bucket of a request that is between its two sections.\<close>

theorem sliding_window_bound:
  assumes "legal_run limiter_step limiter_legal ops (limiter_start limit window t0)"
  shows "int (hits_within (lr_accepted (fold limiter_step ops (limiter_start limit window t0))) client s window) \<le> max 0 limit"
proof -
  have "window_inv limit window (NewRateLimiter limit window) t0 []"
    using wf_new [of limit window]
    by (simp add: window_inv_def times_of_def kept_of_def accepted_def hits_within_def) (simp add: NewRateLimiter_def)
  then have "limiter_inv limit window (limiter_start limit window t0)" by (simp add: limiter_inv_def limiter_start_def)
  from rate_limiter.run_inv [OF this assms] show ?thesis
    by (auto simp: limiter_inv_def window_inv_def)
qed

text \<open>Two requests of one client overlap, with another client between them, a sweep before the first has recorded its time, and a third request.\<close>

definition overlapping :: "limiter_op list" where
  "overlapping = [Arrive ''a'', Arrive ''a'', Arrive ''b'', Record 1 1, Record 1 2, Sweep 3, Record 0 4, Arrive ''a'', Record 0 5]"

lemmas limiter_simps = overlapping_def limiter_start_def no_eviction_def lookup_entry_def record_hit_def gc_def make_room.simps stale_def
  maxRateLimiterEntries_def NewRateLimiter_def remove_nth_def Let_def

theorem sliding_window_bound_witness:
  "int (hits_within (lr_accepted (fold limiter_step overlapping (limiter_start 2 100 0))) ''a'' 5 100) \<le> max 0 2
   \<and> lr_accepted (fold limiter_step overlapping (limiter_start 2 100 0)) = [(''a'', 1), (''b'', 2), (''a'', 4)]"
proof
  show "int (hits_within (lr_accepted (fold limiter_step overlapping (limiter_start 2 100 0))) ''a'' 5 100) \<le> max 0 2"
    by (rule sliding_window_bound) (simp add: limiter_simps)
  show "lr_accepted (fold limiter_step overlapping (limiter_start 2 100 0)) = [(''a'', 1), (''b'', 2), (''a'', 4)]"
    by (simp add: limiter_simps)
qed

text \<open>The table stays bounded and consistent whatever arrives: looking a bucket up leaves at most 10000 entries, the
  insertion order lists exactly the keys of the table, and the loop that makes room removes only the oldest
  entries and always succeeds.\<close>

theorem table_bounded:
  assumes "wf_limiter rl" "length (rl_entries rl) \<le> maxRateLimiterEntries"
  shows "wf_limiter (snd (allow key now rl)) \<and> length (rl_entries (snd (allow key now rl))) \<le> maxRateLimiterEntries
     \<and> (\<exists>n. filter (\<lambda>e. fst e \<noteq> key) (rl_entries (snd (allow key now rl)))
            = filter (\<lambda>e. fst e \<noteq> key) (drop n (rl_entries rl)))
     \<and> wf_limiter (gc now rl) \<and> length (rl_entries (gc now rl)) \<le> maxRateLimiterEntries"
proof -
  have l: "rl_entries (snd (allow key now rl)) = rl_entries (snd (lookup_entry key rl))"
    "wf_limiter (snd (allow key now rl)) \<longleftrightarrow> wf_limiter (snd (lookup_entry key rl))"
    by (simp_all add: allow_def split_def record_hit_fields wf_record_hit)
  have "length (rl_entries (snd (lookup_entry key rl))) \<le> maxRateLimiterEntries
      \<and> (\<exists>n. filter (\<lambda>e. fst e \<noteq> key) (rl_entries (snd (lookup_entry key rl))) = filter (\<lambda>e. fst e \<noteq> key) (drop n (rl_entries rl)))"
  proof (cases "map_of (rl_entries rl) key")
    case None
    then show ?thesis using make_room_wf [OF assms(1)]
      by (auto simp: lookup_entry_def Let_def intro: exI)
  next
    case (Some a)
    then show ?thesis using assms(2) by (auto simp: lookup_entry_def intro: exI [of _ 0])
  qed
  moreover have "length (rl_entries (gc now rl)) \<le> maxRateLimiterEntries"
    using assms(2) by (auto simp: gc_def Let_def intro: order.trans [OF length_filter_le])
  ultimately show ?thesis using l lookup_entry_wf [OF assms(1)] gc_wf [OF assms(1)] by simp
qed

theorem table_bounded_witness:
  "length (rl_entries (snd (allow ''a'' 1 (NewRateLimiter 2 100)))) \<le> maxRateLimiterEntries"
  using table_bounded [of "NewRateLimiter 2 100"] wf_new by (simp add: NewRateLimiter_def maxRateLimiterEntries_def)

text \<open>The condition on sweeps is needed: a sweep between the two sections removes the entry that a
  first request has just created, a second request of the same client creates another one, and both
  are accepted although the limit is one.\<close>

theorem sweep_race_exceeds_limit:
  "lr_accepted (fold limiter_step [Arrive ''c'', Sweep 5, Arrive ''c'', Record 0 6, Record 0 7] (limiter_start 1 100 0)) = [(''c'', 6), (''c'', 7)]"
  by (simp add: limiter_simps)

text \<open>Under the documented behaviour of the Redis commands, the counter never stays without expiry: the
  script arms a missing one, so a client is not locked out for ever.  A failed round trip refuses.\<close>

lemma redis_counter_expires:
  assumes "\<And>s. r_pttl r key (r_pexpire r key ms s) = ms" "0 \<le> ms"
  shows "0 \<le> r_pttl r key (snd (incrWithExpiryScript r key ms s))"
  using assms by (auto simp: incrWithExpiryScript_def split_def Let_def)

lemma redis_fails_closed: "fst (redis_middleware r limit window prefix (Some e) k remote fwd s) \<noteq> None"
  by (simp add: redis_middleware_def redis_allow_def Let_def)

end
