(* ===== verification/Provisioning.thy ===== *)
theory Provisioning
  imports Go_Prelude Go_Time "HOL-Library.List_Lexorder" "HOL-Library.Multiset"
begin

text \<open>
  Outbound provisioning, \<open>internal/provisioning/provisioning.go\<close>: the engine keeps one row per application and
  user and drives a connector per application.  A connector is a record of functions that may fail;
  every call of one is recorded, so that the theorems can speak about what reaches the remote side.
  Each operation takes the failures of its database calls as an argument.
\<close>

section \<open>Data\<close>

datatype prov_status = StatusPending | StatusProvisioned | StatusDeprovisioned | StatusError | StatusPermanentErr

definition maxRetries :: int where
  "maxRetries = 3"

record prov_user =
  pu_id :: string
  pu_email :: string
  pu_first :: string
  pu_last :: string
  pu_department :: string
  pu_groups :: "string list"

record connector =
  cn_provision :: "prov_user \<Rightarrow> string + string"
  cn_deprovision :: "string \<Rightarrow> string option"
  cn_update :: "string \<Rightarrow> prov_user \<Rightarrow> string option"
  cn_sync_groups :: "string \<Rightarrow> string list \<Rightarrow> string option"

datatype remote_call =
    Remote_create string prov_user
  | Remote_deactivate string string
  | Remote_update string string prov_user
  | Remote_groups string string "string list"

record prov_row =
  ps_app :: string
  ps_user :: string
  ps_org :: string
  ps_status :: prov_status
  ps_remote :: "string option"
  ps_last_sync :: "time option"
  ps_last_error :: "string option"
  ps_retries :: int
  ps_next_retry :: "time option"
  ps_updated :: time

record user_row =
  ur_id :: string
  ur_org :: string
  ur_email :: string
  ur_first :: string
  ur_last :: string
  ur_department :: "string option"
  ur_disabled :: bool

record prov_db =
  prov_rows :: "prov_row list"
  prov_users :: "user_row list"

type_synonym engine = "(string \<times> connector) list"

section \<open>The registry\<close>

definition RegisterConnector :: "string \<Rightarrow> connector \<Rightarrow> engine \<Rightarrow> engine" where
  "RegisterConnector app c e = (app, c) # filter (\<lambda>x. fst x \<noteq> app) e"

definition ReplaceConnectors :: "(string \<times> connector) list \<Rightarrow> engine \<Rightarrow> engine" where
  "ReplaceConnectors cs e = cs"

definition connector_of :: "engine \<Rightarrow> string \<Rightarrow> connector option" where
  "connector_of e app = map_of e app"

definition HasConnector :: "engine \<Rightarrow> string \<Rightarrow> bool" where
  "HasConnector e app = (connector_of e app \<noteq> None)"

definition ConnectorCount :: "engine \<Rightarrow> nat" where
  "ConnectorCount e = length (remdups (map fst e))"

section \<open>Backoff\<close>

text \<open>\<open>time.Duration\<close> is a 64-bit signed integer; products wrap.\<close>

definition wrap64 :: "int \<Rightarrow> int" where
  "wrap64 x = (x + 2 ^ 63) mod 2 ^ 64 - 2 ^ 63"

definition provisioningBackoff :: "int \<Rightarrow> duration" where
  "provisioningBackoff retryCount =
     (let maxBackoff = 2 * hour;
          shift = (if retryCount < 0 then 0 else retryCount);
          shift = (if shift > 20 then 20 else shift);
          backoff = wrap64 (5 * minute * wrap64 (push_bit (nat shift) 1))
      in if backoff \<le> 0 \<or> backoff > maxBackoff then maxBackoff else backoff)"

section \<open>Operations\<close>

datatype prov_error =
    No_connector string
  | Upsert_pending string
  | No_user_row string
  | Read_state string
  | Read_retry_count string
  | Connector_error int string
  | Update_state string
  | Group_sync string

definition is_row :: "string \<Rightarrow> string \<Rightarrow> prov_row \<Rightarrow> bool" where
  "is_row app user r \<longleftrightarrow> ps_app r = app \<and> ps_user r = user"

definition update_row :: "string option \<Rightarrow> string \<Rightarrow> string \<Rightarrow> (prov_row \<Rightarrow> prov_row) \<Rightarrow> prov_db \<Rightarrow> prov_db" where
  "update_row err app user f db =
     (case err of Some _ \<Rightarrow> db | None \<Rightarrow> db\<lparr>prov_rows := update_where (is_row app user) f (prov_rows db)\<rparr>)"

definition mark_provisioned :: "string \<Rightarrow> time \<Rightarrow> prov_row \<Rightarrow> prov_row" where
  "mark_provisioned rid now r = r\<lparr>ps_status := StatusProvisioned, ps_remote := Some rid, ps_last_sync := Some now,
     ps_last_error := None, ps_retries := 0, ps_next_retry := None, ps_updated := now\<rparr>"

record prov_env =
  pe_now :: time
  pe_upsert_err :: "string option"
  pe_read_err :: "string option"
  pe_retry_err :: "string option"
  pe_record_err :: "string option"
  pe_final_err :: "string option"

text \<open>The upsert of a pending row: nothing when the user is unknown, otherwise a new row or the existing
  one, which stays provisioned if it was.\<close>

definition upsert_pending :: "time \<Rightarrow> string \<Rightarrow> string \<Rightarrow> prov_db \<Rightarrow> nat \<times> prov_db" where
  "upsert_pending now app user db =
     (case filter (\<lambda>u. ur_id u = user) (prov_users db) of
        [] \<Rightarrow> (0, db)
      | u # _ \<Rightarrow>
          (1, db\<lparr>prov_rows :=
             (if list_ex (is_row app user) (prov_rows db)
              then update_where (is_row app user)
                (\<lambda>r. r\<lparr>ps_status := (if ps_status r = StatusProvisioned then StatusProvisioned else StatusPending),
                       ps_org := ur_org u, ps_updated := now\<rparr>) (prov_rows db)
              else prov_rows db @ [\<lparr>ps_app = app, ps_user = user, ps_org = ur_org u, ps_status = StatusPending,
                ps_remote = None, ps_last_sync = None, ps_last_error = None, ps_retries = 0, ps_next_retry = None,
                ps_updated = now\<rparr>])\<rparr>))"

text \<open>\<open>recordError\<close>: without a readable counter nothing is written.\<close>

definition recordError :: "prov_env \<Rightarrow> string \<Rightarrow> string \<Rightarrow> string \<Rightarrow> string \<Rightarrow> prov_db \<Rightarrow> prov_error \<times> prov_db" where
  "recordError env app user remoteID cause db =
     (case select_one (pe_retry_err env) (is_row app user) (prov_rows db) of
        Db_error e \<Rightarrow> (Read_retry_count e, db)
      | found \<Rightarrow>
          (let retryCount = (case found of Ok r \<Rightarrow> ps_retries r | _ \<Rightarrow> 0);
               n = retryCount + 1;
               st = (if n \<ge> maxRetries then StatusPermanentErr else StatusError)
           in (Connector_error n cause,
               update_row (pe_record_err env) app user
                 (\<lambda>r. r\<lparr>ps_status := st, ps_last_error := Some cause, ps_retries := n,
                        ps_next_retry := Some (pe_now env + provisioningBackoff retryCount),
                        ps_remote := (if remoteID = [] then ps_remote r else Some remoteID),
                        ps_updated := pe_now env\<rparr>) db)))"

definition ProvisionUser :: "engine \<Rightarrow> prov_env \<Rightarrow> string \<Rightarrow> prov_user \<Rightarrow> prov_db
   \<Rightarrow> prov_error option \<times> prov_db \<times> remote_call list" where
  "ProvisionUser e env app user db =
     (case connector_of e app of None \<Rightarrow> (Some (No_connector app), db, []) | Some c \<Rightarrow>
      case pe_upsert_err env of Some x \<Rightarrow> (Some (Upsert_pending x), db, []) | None \<Rightarrow>
      (let (affected, db) = upsert_pending (pe_now env) app (pu_id user) db in
       if affected = 0 then (Some (No_user_row (pu_id user)), db, [])
       else case select_one (pe_read_err env) (is_row app (pu_id user)) (prov_rows db) of
         Db_error x \<Rightarrow> (Some (Read_state x), db, [])
       | found \<Rightarrow>
         (let (st, rid) = (case found of Ok r \<Rightarrow> (Some (ps_status r), case ps_remote r of None \<Rightarrow> [] | Some x \<Rightarrow> x) | _ \<Rightarrow> (None, []));
              (outcome, calls) =
                (if st = Some StatusProvisioned \<and> rid \<noteq> []
                 then ((case cn_update c rid user of Some x \<Rightarrow> Inl (rid, x) | None \<Rightarrow> Inr rid), [Remote_update app rid user])
                 else ((case cn_provision c user of Inl x \<Rightarrow> Inl ([], x) | Inr r \<Rightarrow> Inr r), [Remote_create app user]))
          in case outcome of
               Inl (known, cause) \<Rightarrow>
                 (case recordError env app (pu_id user) known cause db of (x, db) \<Rightarrow> (Some x, db, calls))
             | Inr remoteID \<Rightarrow>
                 (case pe_final_err env of
                    Some x \<Rightarrow> (Some (Update_state x), db, calls)
                  | None \<Rightarrow> (None, update_row None app (pu_id user) (mark_provisioned remoteID (pe_now env)) db, calls)))))"

definition DeprovisionUser :: "engine \<Rightarrow> prov_env \<Rightarrow> string \<Rightarrow> string \<Rightarrow> prov_db
   \<Rightarrow> prov_error option \<times> prov_db \<times> remote_call list" where
  "DeprovisionUser e env app userID db =
     (case connector_of e app of None \<Rightarrow> (Some (No_connector app), db, []) | Some c \<Rightarrow>
      case select_one (pe_read_err env) (is_row app userID) (prov_rows db) of
        No_rows \<Rightarrow> (None, db, [])
      | Db_error x \<Rightarrow> (Some (Read_state x), db, [])
      | Ok row \<Rightarrow>
        (let remoteID = (case ps_remote row of None \<Rightarrow> [] | Some x \<Rightarrow> x) in
         if remoteID = [] then
           (None, update_row (pe_final_err env) app userID
              (\<lambda>r. r\<lparr>ps_status := StatusDeprovisioned, ps_updated := pe_now env\<rparr>) db, [])
         else case cn_deprovision c remoteID of
           Some cause \<Rightarrow>
             (case recordError env app userID remoteID cause db of (x, db) \<Rightarrow> (Some x, db, [Remote_deactivate app remoteID]))
         | None \<Rightarrow>
             (case pe_final_err env of
                Some x \<Rightarrow> (Some (Update_state x), db, [Remote_deactivate app remoteID])
              | None \<Rightarrow> (None, update_row None app userID
                  (\<lambda>r. r\<lparr>ps_status := StatusDeprovisioned, ps_last_sync := Some (pe_now env), ps_last_error := None,
                         ps_retries := 0, ps_next_retry := None, ps_updated := pe_now env\<rparr>) db,
                  [Remote_deactivate app remoteID]))))"

text \<open>\<open>SyncGroupMembership\<close> tests the status before the error of the read: a failed read leaves the status
  empty and the call returns without an error.\<close>

definition SyncGroupMembership :: "engine \<Rightarrow> prov_env \<Rightarrow> string \<Rightarrow> string \<Rightarrow> string list \<Rightarrow> prov_db
   \<Rightarrow> prov_error option \<times> prov_db \<times> remote_call list" where
  "SyncGroupMembership e env app userID groups db =
     (case connector_of e app of None \<Rightarrow> (Some (No_connector app), db, []) | Some c \<Rightarrow>
      (let found = select_one (pe_read_err env) (is_row app userID) (prov_rows db);
           (st, rid) = (case found of Ok r \<Rightarrow> (Some (ps_status r), case ps_remote r of None \<Rightarrow> [] | Some x \<Rightarrow> x) | _ \<Rightarrow> (None, []))
       in if found = No_rows \<or> st \<noteq> Some StatusProvisioned \<or> rid = [] then (None, db, [])
          else case found of Db_error x \<Rightarrow> (Some (Read_state x), db, []) | _ \<Rightarrow>
          (case cn_sync_groups c rid groups of
             Some x \<Rightarrow> (Some (Group_sync x), db, [Remote_groups app rid groups])
           | None \<Rightarrow> (None, update_row (pe_final_err env) app userID
               (\<lambda>r. r\<lparr>ps_last_sync := Some (pe_now env), ps_updated := pe_now env\<rparr>) db, [Remote_groups app rid groups]))))"

section \<open>Reconciliation\<close>

definition due :: "time \<Rightarrow> prov_row \<Rightarrow> bool" where
  "due now r \<longleftrightarrow>
     (ps_status r = StatusError \<and> (case ps_next_retry r of None \<Rightarrow> True | Some t \<Rightarrow> t \<le> now))
   \<or> (ps_status r = StatusProvisioned \<and> (case ps_last_sync r of None \<Rightarrow> True | Some t \<Rightarrow> t < now - 24 * hour))"

text \<open>The rows of the query: due rows joined with the user of the same organisation.\<close>

definition stale_entries :: "time \<Rightarrow> prov_db \<Rightarrow> (prov_row \<times> user_row) list" where
  "stale_entries now db =
     concat (map (\<lambda>r. map (Pair r) (filter (\<lambda>u. ur_id u = ps_user r \<and> ur_org u = ps_org r) (prov_users db)))
       (filter (due now) (prov_rows db)))"

text \<open>By organisation, then by the time of the last change: sorting is stable.\<close>

definition order_entries :: "(prov_row \<times> user_row) list \<Rightarrow> (prov_row \<times> user_row) list" where
  "order_entries es = sort_key (\<lambda>(r, u). map byte (ps_org r)) (sort_key (\<lambda>(r, u). ps_updated r) es)"

record pass_env =
  pa_now :: time
  pa_query_err :: "string option"
  pa_rows_err :: "string option"
  pa_scan_fails :: "nat \<Rightarrow> bool"
  pa_exec_err :: "string \<Rightarrow> string \<Rightarrow> string option"

definition reconcileOne :: "engine \<Rightarrow> time \<Rightarrow> string option \<Rightarrow> prov_row \<times> user_row \<Rightarrow> prov_db \<Rightarrow> prov_db \<times> remote_call list" where
  "reconcileOne e now exec_err entry db =
     (let (row, u) = entry;
          app = ps_app row; userID = ps_user row; remoteID = (case ps_remote row of None \<Rightarrow> [] | Some x \<Rightarrow> x);
          user = \<lparr>pu_id = userID, pu_email = ur_email u, pu_first = ur_first u, pu_last = ur_last u,
                  pu_department = (case ur_department u of None \<Rightarrow> [] | Some d \<Rightarrow> d), pu_groups = []\<rparr>
      in case connector_of e app of None \<Rightarrow> (db, []) | Some c \<Rightarrow>
         if ps_status row = StatusProvisioned then
           (if remoteID \<noteq> [] \<and> cn_update c remoteID user \<noteq> None then (db, [Remote_update app remoteID user])
            else (update_row exec_err app userID (\<lambda>r. r\<lparr>ps_last_sync := Some now, ps_updated := now\<rparr>) db,
                  if remoteID \<noteq> [] then [Remote_update app remoteID user] else []))
         else if ps_retries row \<ge> maxRetries then
           (update_row exec_err app userID (\<lambda>r. r\<lparr>ps_status := StatusPermanentErr, ps_updated := now\<rparr>) db, [])
         else case cn_provision c user of
           Inl cause \<Rightarrow>
             (let n = ps_retries row + 1 in
              (if n \<ge> maxRetries then
                 update_row exec_err app userID (\<lambda>r. r\<lparr>ps_status := StatusPermanentErr, ps_last_error := Some cause,
                   ps_retries := n, ps_updated := now\<rparr>) db
               else
                 update_row exec_err app userID (\<lambda>r. r\<lparr>ps_status := StatusError, ps_last_error := Some cause,
                   ps_retries := n, ps_next_retry := Some (now + provisioningBackoff (ps_retries row)), ps_updated := now\<rparr>) db,
               [Remote_create app user]))
         | Inr rid \<Rightarrow> (update_row exec_err app userID (mark_provisioned rid now) db, [Remote_create app user]))"

primrec reconcile_entries :: "engine \<Rightarrow> pass_env \<Rightarrow> (prov_row \<times> user_row) list \<Rightarrow> prov_db \<Rightarrow> prov_db \<times> remote_call list" where
  "reconcile_entries e env [] db = (db, [])"
| "reconcile_entries e env (x # xs) db =
     (let (db, calls) = reconcileOne e (pa_now env) (pa_exec_err env (ps_app (fst x)) (ps_user (fst x))) x db;
          (db, calls') = reconcile_entries e env xs db
      in (db, calls @ calls'))"

text \<open>The batches per organisation are contiguous in the order of the query, so running them one after the
  other is one pass over the ordered entries; rows that fail to scan are skipped.\<close>

definition ReconcileAll :: "engine \<Rightarrow> pass_env \<Rightarrow> prov_db \<Rightarrow> string option \<times> prov_db \<times> remote_call list" where
  "ReconcileAll e env db =
     (case pa_query_err env of Some x \<Rightarrow> (Some x, db, []) | None \<Rightarrow>
      case pa_rows_err env of Some x \<Rightarrow> (Some x, db, []) | None \<Rightarrow>
      (let es = order_entries (stale_entries (pa_now env) db);
           seen = map snd (filter (\<lambda>x. \<not> pa_scan_fails env (fst x)) (enumerate 0 es));
           (db, calls) = reconcile_entries e env seen db
       in (None, db, calls)))"

section \<open>Attribute mapping\<close>

definition default_attributes :: "prov_user \<Rightarrow> (string \<times> string) list" where
  "default_attributes u =
     [(''department'', pu_department u), (''familyName'', pu_last u), (''givenName'', pu_first u), (''userName'', pu_email u)]"

definition remote_key :: "(string \<rightharpoonup> string) \<Rightarrow> string \<Rightarrow> string" where
  "remote_key m field = (case m field of Some x \<Rightarrow> if x \<noteq> [] then x else field | None \<Rightarrow> field)"

text \<open>An empty map renames nothing, so the source's early return for it is the same result.\<close>

definition ApplyAttributeMap :: "prov_user \<Rightarrow> (string \<rightharpoonup> string) \<Rightarrow> (string \<rightharpoonup> string)" where
  "ApplyAttributeMap u m =
     fold (\<lambda>(field, value) result.
        (let k = remote_key m field in if result k \<noteq> None then result else result(k \<mapsto> value)))
       (default_attributes u) Map.empty"

section \<open>The row of a user on an application\<close>

definition row_of :: "prov_db \<Rightarrow> string \<Rightarrow> string \<Rightarrow> prov_row option" where
  "row_of db app user = find (is_row app user) (prov_rows db)"

definition row_key :: "prov_row \<Rightarrow> string \<times> string" where
  "row_key r = (ps_app r, ps_user r)"

text \<open>The primary keys of the two tables.\<close>

definition keys_ok :: "prov_db \<Rightarrow> bool" where
  "keys_ok db \<longleftrightarrow> distinct (map row_key (prov_rows db)) \<and> distinct (map ur_id (prov_users db))"

lemma is_row_key: "is_row a u r \<longleftrightarrow> row_key r = (a, u)"
  by (simp add: is_row_def row_key_def)

lemma find_update_where:
  assumes "\<And>r. row_key (f r) = row_key r"
  shows "find (is_row a u) (update_where (is_row a' u') f rows) =
     (if (a, u) = (a', u') then map_option f (find (is_row a u) rows) else find (is_row a u) rows)"
proof (induction rows)
  case (Cons r rows)
  have "is_row a u (f r) = is_row a u r" using assms [of r] by (auto simp: is_row_key)
  moreover have "is_row a u r \<Longrightarrow> is_row a' u' r \<longleftrightarrow> (a, u) = (a', u')" by (auto simp: is_row_key)
  ultimately show ?case using Cons by (auto simp: update_where_def simp del: prod.inject)
qed (simp add: update_where_def)

lemma row_of_update:
  assumes "\<And>r. row_key (f r) = row_key r"
  shows "row_of (update_row None a' u' f db) a u =
     (if (a, u) = (a', u') then map_option f (row_of db a u) else row_of db a u)"
  using find_update_where [OF assms] by (simp add: row_of_def update_row_def)

lemma keys_ok_update:
  assumes "\<And>r. row_key (f r) = row_key r"
  shows "keys_ok (update_row err a u f db) = keys_ok db"
  using map_update_where [of row_key f] assms by (simp add: keys_ok_def update_row_def split: option.splits)

lemma users_update [simp]: "prov_users (update_row err a u f db) = prov_users db"
  by (simp add: update_row_def split: option.splits)

lemma row_of_mem:
  assumes "keys_ok db" "r \<in> set (prov_rows db)"
  shows "row_of db (ps_app r) (ps_user r) = Some r"
proof -
  have "find (is_row (ps_app r) (ps_user r)) rows = Some r" if "distinct (map row_key rows)" "r \<in> set rows" for rows
    using that by (induction rows) (auto simp: is_row_def row_key_def rev_image_eqI)
  then show ?thesis using assms by (simp add: row_of_def keys_ok_def)
qed

section \<open>The retry budget\<close>

text \<open>What is left of the retries of a row that reconciliation would retry.\<close>

definition budget :: "string \<times> string \<Rightarrow> prov_db \<Rightarrow> nat" where
  "budget k db = (case row_of db (fst k) (snd k) of
     Some r \<Rightarrow> if ps_status r = StatusError then nat (maxRetries - ps_retries r) else 0 | None \<Rightarrow> 0)"

fun creates :: "string \<times> string \<Rightarrow> remote_call \<Rightarrow> bool" where
  "creates k (Remote_create app u) \<longleftrightarrow> k = (app, pu_id u)"
| "creates k _ \<longleftrightarrow> False"

definition always_failing :: "engine \<Rightarrow> bool" where
  "always_failing e \<longleftrightarrow> (\<forall>(app, c) \<in> set e. \<forall>u. \<exists>x. cn_provision c u = Inl x)"

lemma row_key_updates [simp]:
  "row_key (r\<lparr>ps_last_sync := a, ps_updated := b\<rparr>) = row_key r"
  "row_key (r\<lparr>ps_status := st, ps_updated := b\<rparr>) = row_key r"
  "row_key (r\<lparr>ps_status := st, ps_last_error := x, ps_retries := n, ps_updated := b\<rparr>) = row_key r"
  "row_key (r\<lparr>ps_status := st, ps_last_error := x, ps_retries := n, ps_next_retry := y, ps_updated := b\<rparr>) = row_key r"
  "row_key (mark_provisioned rid now r) = row_key r"
  by (simp_all add: row_key_def mark_provisioned_def)

text \<open>What one entry of a pass does: nothing to a remote account or an update of it, or one attempt to
  create it.\<close>

lemma reconcileOne_cases:
  assumes "always_failing e" "reconcileOne e now None (r, u) db = (db', calls)"
  obtains
    (idle) f where "\<And>r. row_key (f r) = row_key r" "db' = db \<or> db' = update_row None (ps_app r) (ps_user r) f db"
      "\<And>k. filter (creates k) calls = []"
      "ps_status (f r) = StatusError \<Longrightarrow> ps_status r = StatusError \<and> ps_retries (f r) = ps_retries r"
  | (attempt) f v where "\<And>r. row_key (f r) = row_key r" "db' = update_row None (ps_app r) (ps_user r) f db"
      "calls = [Remote_create (ps_app r) v]" "pu_id v = ps_user r" "ps_status r \<noteq> StatusProvisioned"
      "ps_retries r < maxRetries" "ps_status (f r) = StatusError \<Longrightarrow> ps_retries (f r) = ps_retries r + 1"
proof (cases "connector_of e (ps_app r)")
  case None
  show ?thesis by (rule idle [of "\<lambda>r. r"]) (use None assms(2) in \<open>simp_all add: reconcileOne_def\<close>)
next
  case (Some c)
  have fails: "\<exists>x. cn_provision c v = Inl x" for v
    using Some assms(1) by (auto simp: connector_of_def always_failing_def dest!: map_of_SomeD)
  show ?thesis
  proof (cases "ps_status r = StatusProvisioned")
    case True
    show ?thesis
      by (rule idle [of "\<lambda>r. r\<lparr>ps_last_sync := Some now, ps_updated := now\<rparr>"])
        (use Some assms(2) True in \<open>auto simp: reconcileOne_def Let_def split: if_splits\<close>)
  next
    case nP: False
    show ?thesis
    proof (cases "ps_retries r \<ge> maxRetries")
      case True
      show ?thesis
        by (rule idle [of "\<lambda>r. r\<lparr>ps_status := StatusPermanentErr, ps_updated := now\<rparr>"])
          (use Some assms(2) True nP in \<open>auto simp: reconcileOne_def Let_def\<close>)
    next
      case False
      let ?v = "\<lparr>pu_id = ps_user r, pu_email = ur_email u, pu_first = ur_first u, pu_last = ur_last u,
                  pu_department = (case ur_department u of None \<Rightarrow> [] | Some d \<Rightarrow> d), pu_groups = []\<rparr>"
      obtain x where x: "cn_provision c ?v = Inl x" using fails by blast
      show ?thesis
      proof (cases "ps_retries r + 1 \<ge> maxRetries")
        case True
        show ?thesis
          by (rule attempt [of "\<lambda>q. q\<lparr>ps_status := StatusPermanentErr, ps_last_error := Some x, ps_retries := ps_retries r + 1,
              ps_updated := now\<rparr>" ?v])
            (use Some assms(2) True False nP x in \<open>auto simp: reconcileOne_def Let_def\<close>)
      next
        case retry: False
        show ?thesis
          by (rule attempt [of "\<lambda>q. q\<lparr>ps_status := StatusError, ps_last_error := Some x, ps_retries := ps_retries r + 1,
              ps_next_retry := Some (now + provisioningBackoff (ps_retries r)), ps_updated := now\<rparr>" ?v])
            (use Some assms(2) retry False nP x in \<open>auto simp: reconcileOne_def Let_def\<close>)
      qed
    qed
  qed
qed

text \<open>One entry of a pass changes its own row only, and pays for the account it tries to create.\<close>

lemma reconcileOne_budget:
  assumes "always_failing e" "row_of db (ps_app r) (ps_user r) = Some r" "due t r"
    and "reconcileOne e now None (r, u) db = (db', calls)"
  shows "length (filter (creates (row_key r)) calls) + budget (row_key r) db' \<le> budget (row_key r) db"
    and "k \<noteq> row_key r \<Longrightarrow> filter (creates k) calls = [] \<and> row_of db' (fst k) (snd k) = row_of db (fst k) (snd k)"
    and "keys_ok db' = keys_ok db \<and> prov_users db' = prov_users db"
proof -
  have b: "budget (row_key r) db = (if ps_status r = StatusError then nat (maxRetries - ps_retries r) else 0)"
    using assms(2) by (simp add: budget_def row_key_def)
  have "length (filter (creates (row_key r)) calls) + budget (row_key r) db' \<le> budget (row_key r) db
    \<and> (k \<noteq> row_key r \<longrightarrow> filter (creates k) calls = [] \<and> row_of db' (fst k) (snd k) = row_of db (fst k) (snd k))
    \<and> keys_ok db' = keys_ok db \<and> prov_users db' = prov_users db" for k
    using assms(1,4)
  proof (cases rule: reconcileOne_cases)
    case (idle f)
    have "budget (row_key r) db' \<le> budget (row_key r) db"
      using idle(2,4) b assms(2) row_of_update [OF idle(1)] by (auto simp: budget_def row_key_def)
    moreover have "k \<noteq> row_key r \<Longrightarrow> row_of db' (fst k) (snd k) = row_of db (fst k) (snd k)"
      using idle(2) row_of_update [OF idle(1), of "ps_app r" "ps_user r" db "fst k" "snd k"] by (auto simp: row_key_def)
    ultimately show ?thesis using idle(2,3) keys_ok_update [OF idle(1)] by auto
  next
    case (attempt f v)
    have "ps_status r = StatusError" using assms(3) attempt(5) by (auto simp: due_def)
    moreover have "budget (row_key r) db' = (if ps_status (f r) = StatusError then nat (maxRetries - ps_retries r - 1) else 0)"
      using attempt(2,7) assms(2) row_of_update [OF attempt(1)] by (auto simp: budget_def row_key_def algebra_simps)
    moreover have "k \<noteq> row_key r \<Longrightarrow> row_of db' (fst k) (snd k) = row_of db (fst k) (snd k)"
      using attempt(2) row_of_update [OF attempt(1), of "ps_app r" "ps_user r" db "fst k" "snd k"] by (auto simp: row_key_def)
    ultimately show ?thesis
      using attempt b keys_ok_update [OF attempt(1)] by (auto simp: row_key_def)
  qed
  then show "length (filter (creates (row_key r)) calls) + budget (row_key r) db' \<le> budget (row_key r) db"
    "k \<noteq> row_key r \<Longrightarrow> filter (creates k) calls = [] \<and> row_of db' (fst k) (snd k) = row_of db (fst k) (snd k)"
    "keys_ok db' = keys_ok db \<and> prov_users db' = prov_users db"
    by blast+
qed

text \<open>When the state cannot be written, the attempt is made all the same and the row stays as it is.\<close>

lemma reconcileOne_lost: "reconcileOne e now (Some x) entry db = (db, snd (reconcileOne e now None entry db))"
  by (auto simp: reconcileOne_def update_row_def Let_def split: option.splits sum.splits prod.splits)

lemma reconcileOne_budget_any:
  assumes "always_failing e" "row_of db (ps_app r) (ps_user r) = Some r" "due t r"
    and "reconcileOne e now err (r, u) db = (db', calls)"
  shows "length (filter (creates (row_key r)) calls) + budget (row_key r) db' \<le> budget (row_key r) db + (if err = None then 0 else 1)"
    and "k \<noteq> row_key r \<Longrightarrow> filter (creates k) calls = [] \<and> row_of db' (fst k) (snd k) = row_of db (fst k) (snd k)"
    and "keys_ok db' = keys_ok db \<and> prov_users db' = prov_users db"
proof -
  obtain db1 c1 where one: "reconcileOne e now None (r, u) db = (db1, c1)" by fastforce
  note b = reconcileOne_budget [OF assms(1-3) one]
  have c1: "length (filter (creates (row_key r)) c1) \<le> 1"
    using assms(1) one by (cases rule: reconcileOne_cases) auto
  show "length (filter (creates (row_key r)) calls) + budget (row_key r) db' \<le> budget (row_key r) db + (if err = None then 0 else 1)"
    "k \<noteq> row_key r \<Longrightarrow> filter (creates k) calls = [] \<and> row_of db' (fst k) (snd k) = row_of db (fst k) (snd k)"
    "keys_ok db' = keys_ok db \<and> prov_users db' = prov_users db"
    using assms(4) one b c1 by (cases err; simp add: reconcileOne_lost)+
qed

definition lost_write :: "string \<times> string \<Rightarrow> pass_env \<Rightarrow> bool" where
  "lost_write k env \<longleftrightarrow> pa_exec_err env (fst k) (snd k) \<noteq> None"

lemma reconcile_entries_budget:
  assumes "always_failing e"
    and "\<forall>x \<in> set es. row_of db (ps_app (fst x)) (ps_user (fst x)) = Some (fst x) \<and> due t (fst x)"
    and "distinct (map (row_key \<circ> fst) es)" "reconcile_entries e env es db = (db', calls)"
  shows "length (filter (creates k) calls) + budget k db' \<le> budget k db + (if k \<in> set (map (row_key \<circ> fst) es) \<and> lost_write k env then 1 else 0)
    \<and> keys_ok db' = keys_ok db"
  using assms(2-)
proof (induction es arbitrary: db calls)
  case (Cons x xs)
  obtain r u where x: "x = (r, u)" by fastforce
  let ?err = "pa_exec_err env (ps_app r) (ps_user r)"
  obtain db1 c1 where one: "reconcileOne e (pa_now env) ?err (r, u) db = (db1, c1)" by fastforce
  obtain c2 where rest: "reconcile_entries e env xs db1 = (db', c2)" and c: "calls = c1 @ c2"
    using Cons.prems(3) one by (auto simp: x split: prod.splits)
  have r: "row_of db (ps_app r) (ps_user r) = Some r" "due t r" using Cons.prems(1) x by auto
  note b = reconcileOne_budget_any [OF assms(1) r one]
  have err: "?err = None \<longleftrightarrow> \<not> lost_write (row_key r) env" by (simp add: lost_write_def row_key_def)
  have "\<forall>y \<in> set xs. row_of db1 (ps_app (fst y)) (ps_user (fst y)) = Some (fst y) \<and> due t (fst y)"
  proof
    fix y assume y: "y \<in> set xs"
    then have "row_key (fst y) \<noteq> row_key r" using Cons.prems(2) x by force
    with b(2) [of "row_key (fst y)"] Cons.prems(1) y
    show "row_of db1 (ps_app (fst y)) (ps_user (fst y)) = Some (fst y) \<and> due t (fst y)" by (simp add: row_key_def)
  qed
  from Cons.IH [OF this _ rest] Cons.prems(2)
  have ih: "length (filter (creates k) c2) + budget k db' \<le> budget k db1 + (if k \<in> set (map (row_key \<circ> fst) xs) \<and> lost_write k env then 1 else 0)"
    "keys_ok db' = keys_ok db1" by auto
  show ?case
  proof (cases "k = row_key r")
    case True
    then have "k \<notin> set (map (row_key \<circ> fst) xs)" using Cons.prems(2) x by simp
    with True ih b(1) b(3) err show ?thesis by (auto simp: c x)
  next
    case False
    with b(2) [of k] have "filter (creates k) c1 = []" "budget k db1 = budget k db" by (auto simp: budget_def)
    with False ih b(3) show ?thesis by (auto simp: c x)
  qed
qed simp

lemma stale_entries_ok:
  assumes "keys_ok db"
  shows "\<forall>x \<in> set (stale_entries now db). row_of db (ps_app (fst x)) (ps_user (fst x)) = Some (fst x) \<and> due now (fst x)"
    and "distinct (map (row_key \<circ> fst) (stale_entries now db))"
proof -
  show "\<forall>x \<in> set (stale_entries now db). row_of db (ps_app (fst x)) (ps_user (fst x)) = Some (fst x) \<and> due now (fst x)"
    using row_of_mem [OF assms] by (auto simp: stale_entries_def)
  have one: "length (filter (\<lambda>u. ur_id u = a \<and> Q u) us) \<le> 1" if "distinct (map ur_id us)" for a Q us
    using that by (induction us) (auto simp: filter_empty_conv rev_image_eqI)
  have flat: "distinct (map (row_key \<circ> fst) (concat (map (\<lambda>r. map (Pair r) (g r)) rows)))"
    if "distinct (map row_key rows)" "\<And>r. length (g r) \<le> 1" for g :: "prov_row \<Rightarrow> user_row list" and rows
    using that(1)
  proof (induction rows)
    case (Cons r rows)
    have "g r = [] \<or> (\<exists>u. g r = [u])" using that(2) [of r] by (cases "g r") auto
    with Cons show ?case by (auto simp: rev_image_eqI)
  qed simp
  show "distinct (map (row_key \<circ> fst) (stale_entries now db))"
    unfolding stale_entries_def
  proof (rule flat)
    show "length (filter (\<lambda>u. ur_id u = ps_user r \<and> ur_org u = ps_org r) (prov_users db)) \<le> 1" for r
      using one [of "prov_users db" "ps_user r" "\<lambda>u. ur_org u = ps_org r"] assms by (simp add: keys_ok_def)
  qed (use assms in \<open>simp add: keys_ok_def distinct_map_filter\<close>)
qed

lemma ReconcileAll_budget:
  assumes "always_failing e" "keys_ok db" "ReconcileAll e env db = (x, db', calls)"
  shows "length (filter (creates k) calls) + budget k db' \<le> budget k db + (if lost_write k env then 1 else 0) \<and> keys_ok db'"
proof (cases "pa_query_err env = None \<and> pa_rows_err env = None")
  case True
  let ?es = "order_entries (stale_entries (pa_now env) db)"
  let ?seen = "map snd (filter (\<lambda>x. \<not> pa_scan_fails env (fst x)) (enumerate 0 ?es))"
  have m: "mset ?es = mset (stale_entries (pa_now env) db)" by (simp add: order_entries_def)
  have sub: "set ?seen \<subseteq> set (stale_entries (pa_now env) db)"
  proof
    fix x assume "x \<in> set ?seen"
    then have "x \<in> set ?es" by (auto simp: in_set_enumerate_eq) (metis nth_mem)
    then show "x \<in> set (stale_entries (pa_now env) db)" using mset_eq_setD [OF m] by simp
  qed
  have "map snd (enumerate 0 ?es) = ?es" by (simp add: enumerate_eq_zip)
  then have "distinct (map ((row_key \<circ> fst) \<circ> snd) (enumerate 0 ?es)) = distinct (map (row_key \<circ> fst) ?es)"
    by (metis map_map)
  also have "\<dots> = distinct (map (row_key \<circ> fst) (stale_entries (pa_now env) db))"
    using m by (metis mset_eq_imp_distinct_iff mset_map)
  finally have d: "distinct (map (row_key \<circ> fst) ?seen)"
    using stale_entries_ok(2) [OF assms(2)] by (simp add: distinct_map_filter)
  obtain db1 c1 where r: "reconcile_entries e env ?seen db = (db1, c1)" by fastforce
  then have e: "db' = db1" "calls = c1" using assms(3) True by (auto simp: ReconcileAll_def Let_def)
  have "\<forall>x \<in> set ?seen. row_of db (ps_app (fst x)) (ps_user (fst x)) = Some (fst x) \<and> due (pa_now env) (fst x)"
    using stale_entries_ok(1) [OF assms(2)] sub by blast
  from reconcile_entries_budget [OF assms(1) this d r, of k] assms(2) show ?thesis by (auto simp: e split: if_splits)
qed (use assms(2,3) in \<open>auto simp: ReconcileAll_def split: option.splits\<close>)

primrec passes :: "engine \<Rightarrow> pass_env list \<Rightarrow> prov_db \<Rightarrow> prov_db \<times> remote_call list" where
  "passes e [] db = (db, [])"
| "passes e (env # envs) db =
     (case ReconcileAll e env db of (_, db, calls) \<Rightarrow> (case passes e envs db of (db, calls') \<Rightarrow> (db, calls @ calls')))"

lemma passes_budget:
  assumes "always_failing e" "keys_ok db" "passes e envs db = (db', calls)"
  shows "length (filter (creates k) calls) + budget k db' \<le> budget k db + length (filter (lost_write k) envs)"
  using assms(2-)
proof (induction envs arbitrary: db calls)
  case (Cons env envs)
  obtain x db1 c1 where r: "ReconcileAll e env db = (x, db1, c1)" by (metis surj_pair)
  obtain c2 where p: "passes e envs db1 = (db', c2)" "calls = c1 @ c2"
    using Cons.prems(2) r by (auto split: prod.splits)
  have b: "length (filter (creates k) c1) + budget k db1 \<le> budget k db + (if lost_write k env then 1 else 0)" "keys_ok db1"
    using ReconcileAll_budget [OF assms(1) Cons.prems(1) r, of k] by auto
  from Cons.IH [OF b(2) p(1)] b(1) p(2) show ?case by (cases "lost_write k env") auto
qed simp

section \<open>A successful call\<close>

lemma select_row: "select_one err (is_row a u) (prov_rows db) =
   (case err of Some x \<Rightarrow> Db_error x | None \<Rightarrow> (case row_of db a u of None \<Rightarrow> No_rows | Some r \<Rightarrow> Ok r))"
proof -
  have "(case filter P xs of [] \<Rightarrow> No_rows | r # _ \<Rightarrow> Ok r) = (case find P xs of None \<Rightarrow> No_rows | Some r \<Rightarrow> Ok r)" for P and xs :: "prov_row list"
    by (induction xs) auto
  then show ?thesis by (simp add: select_one_def row_of_def split: option.splits)
qed

lemma find_append: "find P (xs @ ys) = (case find P xs of None \<Rightarrow> find P ys | Some x \<Rightarrow> Some x)"
  by (induction xs) auto

lemma find_None_list_ex: "find P xs = None \<longleftrightarrow> \<not> list_ex P xs"
  by (induction xs) auto

lemma upsert_pending_row:
  assumes "upsert_pending now app user db = (n, db')" "n \<noteq> 0"
  shows "prov_users db' = prov_users db"
    and "\<exists>u r. u \<in> set (prov_users db) \<and> ur_id u = user \<and> row_of db' app user = Some r \<and> ps_org r = ur_org u
       \<and> (case row_of db app user of
            None \<Rightarrow> ps_status r = StatusPending \<and> ps_remote r = None
          | Some q \<Rightarrow> ps_remote r = ps_remote q \<and> (ps_status r = StatusProvisioned \<longleftrightarrow> ps_status q = StatusProvisioned))"
proof -
  obtain u us where u: "filter (\<lambda>u. ur_id u = user) (prov_users db) = u # us"
    using assms by (auto simp: upsert_pending_def split: list.splits)
  then have "u \<in> set (prov_users db) \<and> ur_id u = user" by (metis (mono_tags, lifting) filter_eq_Cons_iff in_set_conv_decomp)
  moreover have db': "prov_rows db' = (if list_ex (is_row app user) (prov_rows db)
              then update_where (is_row app user)
                (\<lambda>r. r\<lparr>ps_status := (if ps_status r = StatusProvisioned then StatusProvisioned else StatusPending),
                       ps_org := ur_org u, ps_updated := now\<rparr>) (prov_rows db)
              else prov_rows db @ [\<lparr>ps_app = app, ps_user = user, ps_org = ur_org u, ps_status = StatusPending,
                ps_remote = None, ps_last_sync = None, ps_last_error = None, ps_retries = 0, ps_next_retry = None,
                ps_updated = now\<rparr>])" and us': "prov_users db' = prov_users db"
    using assms(1) u by (auto simp: upsert_pending_def)
  moreover have "row_key (r\<lparr>ps_status := st, ps_org := x, ps_updated := t\<rparr>) = row_key r" for r st x t
    by (simp add: row_key_def)
  ultimately show "\<exists>u r. u \<in> set (prov_users db) \<and> ur_id u = user \<and> row_of db' app user = Some r \<and> ps_org r = ur_org u
       \<and> (case row_of db app user of
            None \<Rightarrow> ps_status r = StatusPending \<and> ps_remote r = None
          | Some q \<Rightarrow> ps_remote r = ps_remote q \<and> (ps_status r = StatusProvisioned \<longleftrightarrow> ps_status q = StatusProvisioned))"
    by (cases "row_of db app user")
      (auto simp: row_of_def find_update_where find_append find_None_list_ex [symmetric] is_row_def intro!: exI [of _ u])
  show "prov_users db' = prov_users db" by (rule us')
qed

section \<open>Properties of provisioning\<close>

text \<open>C40. Retried creations end: while the remote side keeps refusing to create an account, however many reconciliation passes
  run, whenever they run and whatever of their queries fails, they try to create the account of a user at most \<open>maxRetries - retry_count\<close>
  times when the row of the user is in the error state, and not at all when it is not; each pass in which the write of the row of this user is lost, an error the
  code discards, may add one attempt.  The bound is on creations: a provisioned row whose update is refused is due again after a day,
  without a bound.\<close>

theorem retries_end:
  assumes "always_failing e" "keys_ok db"
  shows "length (filter (creates (app, user)) (snd (passes e envs db)))
     \<le> (case row_of db app user of
          Some r \<Rightarrow> if ps_status r = StatusError then nat (maxRetries - ps_retries r) else 0
        | None \<Rightarrow> 0) + length (filter (\<lambda>env. pa_exec_err env app user \<noteq> None) envs)"
proof -
  obtain db' calls where "passes e envs db = (db', calls)" by fastforce
  moreover have "lost_write (app, user) = (\<lambda>env. pa_exec_err env app user \<noteq> None)" by (simp add: lost_write_def fun_eq_iff)
  ultimately show ?thesis using passes_budget [OF assms, of envs db' calls "(app, user)"] by (simp add: budget_def)
qed

definition refusing :: connector where
  "refusing = \<lparr>cn_provision = (\<lambda>_. Inl ''503''), cn_deprovision = (\<lambda>_. Some ''503''), cn_update = (\<lambda>_ _. Some ''503''),
     cn_sync_groups = (\<lambda>_ _. Some ''503'')\<rparr>"

definition working :: connector where
  "working = \<lparr>cn_provision = (\<lambda>u. Inr (''r-'' @ pu_id u)), cn_deprovision = (\<lambda>_. None), cn_update = (\<lambda>_ _. None),
     cn_sync_groups = (\<lambda>_ _. None)\<rparr>"

definition sample_row :: prov_row where
  "sample_row = \<lparr>ps_app = ''a1'', ps_user = ''u1'', ps_org = ''o1'', ps_status = StatusError, ps_remote = Some ''r-u1'',
     ps_last_sync = None, ps_last_error = None, ps_retries = 1, ps_next_retry = None, ps_updated = 0\<rparr>"

definition sample_prov_db :: "prov_row list \<Rightarrow> prov_db" where
  "sample_prov_db rows = \<lparr>prov_rows = rows, prov_users = [\<lparr>ur_id = ''u1'', ur_org = ''o1'', ur_email = ''a@b.c'', ur_first = ''A'',
     ur_last = ''B'', ur_department = None, ur_disabled = True\<rparr>]\<rparr>"

definition sample_pass :: "time \<Rightarrow> pass_env" where
  "sample_pass now = \<lparr>pa_now = now, pa_query_err = None, pa_rows_err = None, pa_scan_fails = (\<lambda>_. False), pa_exec_err = (\<lambda>_ _. None)\<rparr>"

definition sample_prov_env :: "time \<Rightarrow> prov_env" where
  "sample_prov_env now = \<lparr>pe_now = now, pe_upsert_err = None, pe_read_err = None, pe_retry_err = None, pe_record_err = None, pe_final_err = None\<rparr>"

definition lossy_pass :: "time \<Rightarrow> pass_env" where
  "lossy_pass now = (sample_pass now)\<lparr>pa_exec_err := (\<lambda>_ _. Some ''connection reset'')\<rparr>"

theorem retries_end_witness:
  "length (filter (creates (''a1'', ''u1''))
      (snd (passes [(''a1'', refusing)] [sample_pass 0, lossy_pass hour, sample_pass (9 * hour)] (sample_prov_db [sample_row])))) \<le> 5"
  using retries_end [of "[(''a1'', refusing)]" "sample_prov_db [sample_row]" "''a1''" "''u1''" "[sample_pass 0, lossy_pass hour, sample_pass (9 * hour)]"]
  by (simp add: always_failing_def refusing_def sample_pass_def lossy_pass_def keys_ok_def sample_prov_db_def sample_row_def row_of_def is_row_def maxRetries_def)

text \<open>The backoff saturates instead of wrapping: for every counter the database may hold, negative or huge, the 64-bit
  computation gives five minutes doubled per retry, capped at two hours.\<close>

theorem backoff_saturates:
  "provisioningBackoff n = min (5 * minute * 2 ^ nat n) (2 * hour)"
proof -
  let ?k = "nat (min 20 (max 0 n))"
  have k: "?k \<le> 20" by simp
  have "(2::int) ^ ?k \<le> 2 ^ 20" using k by (intro power_increasing) auto
  then have le: "(2::int) ^ ?k \<le> 1048576" by simp
  have w: "wrap64 x = x" if "0 \<le> x" "x < 2 ^ 63" for x
    using that by (simp add: wrap64_def)
  have "wrap64 (push_bit ?k 1) = 2 ^ ?k" using le by (subst w) (simp_all add: push_bit_eq_mult)
  moreover have "wrap64 (5 * minute * 2 ^ ?k) = 5 * minute * 2 ^ ?k"
    using le by (subst w) (simp_all add: minute_def second_def)
  moreover have "(if (if n < 0 then 0 else n) > 20 then 20 else (if n < 0 then 0 else n)) = min 20 (max 0 n)" by simp
  ultimately have b: "provisioningBackoff n = (if 5 * minute * 2 ^ ?k > 2 * hour then 2 * hour else 5 * minute * 2 ^ ?k)"
    by (simp add: provisioningBackoff_def Let_def minute_def second_def not_le)
  show ?thesis
  proof (cases "n \<le> 20")
    case True
    then have "?k = nat n" by (simp add: max_def min_def)
    then show ?thesis using b by (simp add: min_def)
  next
    case False
    then have "(2::int) ^ 20 \<le> 2 ^ nat n" by (intro power_increasing) auto
    moreover have "?k = 20" using False by simp
    ultimately show ?thesis using b by (simp add: min_def minute_def second_def hour_def)
  qed
qed

text \<open>A deprovisioning that the remote side refuses leaves the row in the state \<open>error\<close>, which reconciliation
  reads as a failed creation: the next pass after the backoff creates the account of the offboarded
  user again and marks it provisioned.\<close>

theorem failed_deprovision_reprovisions:
  "let db0 = sample_prov_db [sample_row\<lparr>ps_status := StatusProvisioned, ps_retries := 0\<rparr>];
       (x, db1, calls1) = DeprovisionUser [(''a1'', refusing)] (sample_prov_env 0) ''a1'' ''u1'' db0;
       (y, db2, calls2) = ReconcileAll [(''a1'', working)] (sample_pass hour) db1
   in x = Some (Connector_error 1 ''503'') \<and> list_ex (creates (''a1'', ''u1'')) calls2
      \<and> map ps_status (prov_rows db2) = [StatusProvisioned] \<and> list_all ur_disabled (prov_users db2)"
  by code_simp

text \<open>A provisioning call that reports success leaves the row provisioned, without error or retries, in the organisation of the
  user, with the identifier of the one account it touched: an account that was known to exist is updated and
  no second one is created, otherwise exactly one is created.\<close>

theorem provision_success:
  assumes "ProvisionUser e env app user db = (None, db', calls)"
  shows "\<exists>r u rid. row_of db' app (pu_id user) = Some r \<and> u \<in> set (prov_users db') \<and> ur_id u = pu_id user
     \<and> ps_org r = ur_org u \<and> ps_status r = StatusProvisioned \<and> ps_remote r = Some rid \<and> ps_retries r = 0 \<and> ps_last_error r = None
     \<and> (case row_of db app (pu_id user) of
          Some q \<Rightarrow> if ps_status q = StatusProvisioned \<and> ps_remote q \<noteq> None \<and> ps_remote q \<noteq> Some []
                   then calls = [Remote_update app rid user] \<and> ps_remote q = Some rid
                   else calls = [Remote_create app user] \<and> (\<exists>c. connector_of e app = Some c \<and> cn_provision c user = Inr rid)
        | None \<Rightarrow> calls = [Remote_create app user] \<and> (\<exists>c. connector_of e app = Some c \<and> cn_provision c user = Inr rid))"
proof -
  obtain c where c: "connector_of e app = Some c" using assms by (cases "connector_of e app") (auto simp: ProvisionUser_def)
  obtain n db1 where up: "upsert_pending (pe_now env) app (pu_id user) db = (n, db1)" by fastforce
  have e: "pe_upsert_err env = None" "n \<noteq> 0" "pe_read_err env = None"
    using assms c up by (auto simp: ProvisionUser_def select_row Let_def split: option.splits if_splits)
  obtain u r where ur: "u \<in> set (prov_users db)" "ur_id u = pu_id user" "row_of db1 app (pu_id user) = Some r"
      "ps_org r = ur_org u"
      "case row_of db app (pu_id user) of None \<Rightarrow> ps_status r = StatusPending \<and> ps_remote r = None
       | Some q \<Rightarrow> ps_remote r = ps_remote q \<and> (ps_status r = StatusProvisioned \<longleftrightarrow> ps_status q = StatusProvisioned)"
    and us: "prov_users db1 = prov_users db"
    using upsert_pending_row [OF up e(2)] by blast
  obtain rid where res: "db' = update_row None app (pu_id user) (mark_provisioned rid (pe_now env)) db1"
    "if ps_status r = StatusProvisioned \<and> ps_remote r \<noteq> None \<and> ps_remote r \<noteq> Some []
     then calls = [Remote_update app rid user] \<and> ps_remote r = Some rid
     else calls = [Remote_create app user] \<and> cn_provision c user = Inr rid"
    using assms c up e ur(3)
    by (auto simp: ProvisionUser_def select_row Let_def split: option.splits if_splits sum.splits prod.splits)
  have "row_of db' app (pu_id user) = Some (mark_provisioned rid (pe_now env) r)"
    using res(1) ur(3) by (simp add: row_of_update)
  then show ?thesis using res ur us c
    by (intro exI [of _ "mark_provisioned rid (pe_now env) r"] exI [of _ u] exI [of _ rid])
      (auto simp: mark_provisioned_def split: option.splits if_splits)
qed

theorem provision_success_witness:
  "\<exists>r u rid. row_of (fst (snd (ProvisionUser [(''a1'', working)] (sample_prov_env 5) ''a1'' \<lparr>pu_id = ''u1'', pu_email = [], pu_first = [],
        pu_last = [], pu_department = [], pu_groups = []\<rparr> (sample_prov_db [])))) ''a1'' ''u1'' = Some r
     \<and> u \<in> set (prov_users (sample_prov_db [])) \<and> ps_org r = ur_org u \<and> ps_status r = StatusProvisioned \<and> ps_remote r = Some rid"
proof -
  let ?u = "\<lparr>pu_id = ''u1'', pu_email = [], pu_first = [], pu_last = [], pu_department = [], pu_groups = []\<rparr>"
  let ?out = "ProvisionUser [(''a1'', working)] (sample_prov_env 5) ''a1'' ?u (sample_prov_db [])"
  have "fst ?out = None" "prov_users (fst (snd ?out)) = prov_users (sample_prov_db [])" by code_simp+
  then have "?out = (None, fst (snd ?out), snd (snd ?out))" by (metis prod.collapse)
  from provision_success [OF this] show ?thesis
    using \<open>prov_users (fst (snd ?out)) = prov_users (sample_prov_db [])\<close> by (metis prov_user.select_convs(1))
qed

text \<open>A failed read in \<open>SyncGroupMembership\<close> is reported as success, without a call to the remote side.\<close>

lemma group_sync_hides_read_error:
  assumes "connector_of e app = Some c" "pe_read_err env = Some x"
  shows "SyncGroupMembership e env app userID groups db = (None, db, [])"
  using assms by (simp add: SyncGroupMembership_def select_row)

text \<open>The payload of the attribute map: a remote key carries the value of the first default field, in sorted
  order, that is mapped to it.\<close>

lemma ApplyAttributeMap_first:
  "ApplyAttributeMap u m k =
     map_option snd (find (\<lambda>(field, value). remote_key m field = k) (default_attributes u))"
  by (auto simp: ApplyAttributeMap_def default_attributes_def Let_def)

end
