(* ===== verification/Leader.thy ===== *)
theory Leader
  imports Go_Prelude Go_Time
begin

text \<open>
  Leader election over a session-scoped Postgres advisory lock, \<open>internal/leader/leader.go\<close>, and the polling
  acquisition of \<open>internal/db/advisory_lock.go\<close>.

  Several instances run the loop of the elector concurrently; between the parts of one iteration the
  loop sleeps, so the atomic steps of the system are the part before the sleep (acquire), the part
  after it (check), cancellation, and the end of a database session, which frees the lock while the
  instance does not know yet.  The lock follows the documentation of \<open>pg_try_advisory_lock\<close>: one session
  holds it, the same session may take it again, each unlock undoes one acquisition, and the end of the
  session frees it.
\<close>

section \<open>The advisory lock\<close>

type_synonym session = nat
type_synonym lock = "(session \<times> nat) option"

definition try_advisory_lock :: "session \<Rightarrow> lock \<Rightarrow> bool \<times> lock" where
  "try_advisory_lock s l =
     (case l of
        None \<Rightarrow> (True, Some (s, 1))
      | Some (h, n) \<Rightarrow> if h = s then (True, Some (h, n + 1)) else (False, l))"

definition advisory_unlock :: "session \<Rightarrow> lock \<Rightarrow> lock" where
  "advisory_unlock s l =
     (case l of Some (h, n) \<Rightarrow> if h = s then (if n \<le> 1 then None else Some (h, n - 1)) else l | None \<Rightarrow> None)"

definition end_session :: "session \<Rightarrow> lock \<Rightarrow> lock" where
  "end_session s l = (case l of Some (h, n) \<Rightarrow> if h = s then None else l | None \<Rightarrow> None)"

section \<open>The elector\<close>

record elector =
  el_is_leader :: bool
  el_conn :: "session option"

definition new_elector :: elector where
  "new_elector = \<lparr>el_is_leader = False, el_conn = None\<rparr>"

text \<open>No connection, a failed query (the driver closes a connection whose answer is lost), or an answer.\<close>

datatype acquire_outcome = Pool_error | Lock_query_error session | Lock_answer session

definition tryAcquire :: "acquire_outcome \<Rightarrow> elector \<Rightarrow> lock \<Rightarrow> bool \<times> elector \<times> lock" where
  "tryAcquire out e l =
     (case out of
        Pool_error \<Rightarrow> (False, e, l)
      | Lock_query_error c \<Rightarrow> (False, e, l)
      | Lock_answer c \<Rightarrow>
          (case try_advisory_lock c l of
             (got, l') \<Rightarrow> if \<not> got then (False, e, l') else (True, e\<lparr>el_conn := Some c, el_is_leader := True\<rparr>, l')))"

definition releaseIfLeader :: "bool \<Rightarrow> elector \<Rightarrow> lock \<Rightarrow> elector \<times> lock" where
  "releaseIfLeader unlock_ok e l =
     (if \<not> el_is_leader e then (e, l)
      else case el_conn e of
             None \<Rightarrow> (e\<lparr>el_is_leader := False\<rparr>, l)
           | Some c \<Rightarrow> (e\<lparr>el_is_leader := False, el_conn := None\<rparr>, if unlock_ok then advisory_unlock c l else l))"

text \<open>One iteration of \<open>loop\<close> up to the sleep, and from the sleep on.\<close>

definition loop_acquire :: "acquire_outcome \<Rightarrow> elector \<Rightarrow> lock \<Rightarrow> elector \<times> lock" where
  "loop_acquire out e l = (if el_is_leader e then (e, l) else snd (tryAcquire out e l))"

definition loop_check :: "bool \<Rightarrow> bool \<Rightarrow> elector \<Rightarrow> lock \<Rightarrow> elector \<times> lock" where
  "loop_check ping_ok unlock_ok e l =
     (if el_is_leader e \<and> \<not> ping_ok then releaseIfLeader unlock_ok e l else (e, l))"

text \<open>\<open>Run\<close> and the gates of the background jobs.\<close>

definition Run :: "elector \<Rightarrow> ('s \<Rightarrow> 's) \<Rightarrow> 's \<Rightarrow> 's" where
  "Run e job s = (if el_is_leader e then job s else s)"

text \<open>\<open>sleepWithJitter\<close>: the wait for a random number in \<open>[0, spread)\<close>.\<close>

definition jitter_spread :: "duration \<Rightarrow> duration" where
  "jitter_spread interval = (let spread = interval div 5 in if spread \<le> 0 then 1 else spread)"

definition jittered_wait :: "duration \<Rightarrow> int \<Rightarrow> duration" where
  "jittered_wait interval random = interval - jitter_spread interval div 2 + random"

section \<open>Polling\<close>

datatype poll_result = Poll_acquired | Poll_query_error string | Poll_timeout | Poll_cancelled

text \<open>\<open>AcquireAdvisoryLock\<close>: \<open>polls\<close> are the answers of the successive attempts with the time after each; the
  list ends where the context is cancelled.\<close>

fun AcquireAdvisoryLock :: "time \<Rightarrow> ((string + bool) \<times> time) list \<Rightarrow> poll_result" where
  "AcquireAdvisoryLock deadline [] = Poll_cancelled"
| "AcquireAdvisoryLock deadline ((answer, now) # polls) =
     (case answer of
        Inl e \<Rightarrow> Poll_query_error e
      | Inr got \<Rightarrow> if got then Poll_acquired
                  else if now > deadline then Poll_timeout
                  else AcquireAdvisoryLock deadline polls)"

section \<open>The system of instances\<close>

record world =
  w_electors :: "nat \<Rightarrow> elector"
  w_lock :: lock
  w_ended :: "session set"

definition init_world :: world where
  "init_world = \<lparr>w_electors = (\<lambda>_. new_elector), w_lock = None, w_ended = {}\<rparr>"

definition set_elector :: "nat \<Rightarrow> elector \<times> lock \<Rightarrow> world \<Rightarrow> world" where
  "set_elector i el w = w\<lparr>w_electors := (w_electors w)(i := fst el), w_lock := snd el\<rparr>"

text \<open>A connection handed out by the pool is alive and not in the hands of another elector; a ping succeeds
  only on a session that is alive; a lock can be released only through a session that is alive.\<close>

definition usable :: "world \<Rightarrow> acquire_outcome \<Rightarrow> bool" where
  "usable w out =
     (case out of Lock_answer c \<Rightarrow> c \<notin> w_ended w \<and> (\<forall>j. el_conn (w_electors w j) \<noteq> Some c) | _ \<Rightarrow> True)"

definition conn_ended :: "world \<Rightarrow> nat \<Rightarrow> bool" where
  "conn_ended w i = (case el_conn (w_electors w i) of Some c \<Rightarrow> c \<in> w_ended w | None \<Rightarrow> False)"

inductive leader_step :: "world \<Rightarrow> world \<Rightarrow> bool" where
  Acquire: "usable w out \<Longrightarrow> leader_step w (set_elector i (loop_acquire out (w_electors w i) (w_lock w)) w)"
| Check: "conn_ended w i \<longrightarrow> \<not> ping_ok \<Longrightarrow>
    leader_step w (set_elector i (loop_check ping_ok unlock_ok (w_electors w i) (w_lock w)) w)"
| Cancel: "leader_step w (set_elector i (releaseIfLeader unlock_ok (w_electors w i) (w_lock w)) w)"
| Session_end: "leader_step w (w\<lparr>w_lock := end_session s (w_lock w), w_ended := insert s (w_ended w)\<rparr>)"

inductive reachable :: "world \<Rightarrow> bool" where
  Init: "reachable init_world"
| Step: "reachable w \<Longrightarrow> leader_step w w' \<Longrightarrow> reachable w'"

inductive_cases leader_stepE: "leader_step w w'"

section \<open>The invariant\<close>

definition world_inv :: "world \<Rightarrow> bool" where
  "world_inv w \<longleftrightarrow>
     (\<forall>i. el_is_leader (w_electors w i) \<longleftrightarrow> el_conn (w_electors w i) \<noteq> None)
   \<and> (\<forall>i j c. el_conn (w_electors w i) = Some c \<and> el_conn (w_electors w j) = Some c \<longrightarrow> i = j)
   \<and> (\<forall>i c. el_conn (w_electors w i) = Some c \<and> c \<notin> w_ended w \<longrightarrow> (\<exists>n. w_lock w = Some (c, n)))
   \<and> (\<forall>c n. w_lock w = Some (c, n) \<longrightarrow> c \<notin> w_ended w)"

lemma world_invD:
  assumes "world_inv w"
  shows inv_leader: "el_is_leader (w_electors w i) \<longleftrightarrow> el_conn (w_electors w i) \<noteq> None"
    and inv_inj: "el_conn (w_electors w i) = Some c \<Longrightarrow> el_conn (w_electors w j) = Some c \<Longrightarrow> i = j"
    and inv_held: "el_conn (w_electors w i) = Some c \<Longrightarrow> c \<notin> w_ended w \<Longrightarrow> \<exists>n. w_lock w = Some (c, n)"
    and inv_alive: "w_lock w = Some (c, n) \<Longrightarrow> c \<notin> w_ended w"
  using assms unfolding world_inv_def by blast+

lemma world_invI:
  assumes "\<And>i. el_is_leader (w_electors w i) \<longleftrightarrow> el_conn (w_electors w i) \<noteq> None"
    and "\<And>i j c. el_conn (w_electors w i) = Some c \<Longrightarrow> el_conn (w_electors w j) = Some c \<Longrightarrow> i = j"
    and "\<And>i c. el_conn (w_electors w i) = Some c \<Longrightarrow> c \<notin> w_ended w \<Longrightarrow> \<exists>n. w_lock w = Some (c, n)"
    and "\<And>c n. w_lock w = Some (c, n) \<Longrightarrow> c \<notin> w_ended w"
  shows "world_inv w"
  using assms unfolding world_inv_def by blast

lemma inv_init: "world_inv init_world"
  by (simp add: world_inv_def init_world_def new_elector_def)

lemma set_elector_same [simp]: "set_elector i (w_electors w i, w_lock w) w = w"
  by (simp add: set_elector_def)

lemma set_elector_fields [simp]:
  "w_electors (set_elector i el w) = (w_electors w)(i := fst el)" "w_lock (set_elector i el w) = snd el"
  "w_ended (set_elector i el w) = w_ended w"
  by (simp_all add: set_elector_def)

lemma release_cases:
  assumes "el_is_leader e \<longleftrightarrow> el_conn e \<noteq> None"
  obtains "releaseIfLeader ok e l = (e, l)" "el_conn e = None"
  | c where "el_conn e = Some c"
      "releaseIfLeader ok e l = (\<lparr>el_is_leader = False, el_conn = None\<rparr>, if ok then advisory_unlock c l else l)"
  using assms by (cases "el_conn e"; cases e) (auto simp: releaseIfLeader_def)

lemma unlock_other: "l = Some (h, n) \<Longrightarrow> h \<noteq> c \<Longrightarrow> advisory_unlock c l = l"
  by (simp add: advisory_unlock_def)

lemma unlock_Some: "advisory_unlock c l = Some (h, n) \<Longrightarrow> \<exists>m. l = Some (h, m)"
  by (auto simp: advisory_unlock_def split: option.splits if_splits prod.splits)

lemma inv_release:
  assumes "world_inv w"
  shows "world_inv (set_elector i (releaseIfLeader ok (w_electors w i) (w_lock w)) w)"
  using inv_leader [OF assms, of i]
proof (cases rule: release_cases [of _ ok "w_lock w"])
  case 1
  then show ?thesis using assms by simp
next
  case (2 c)
  let ?l = "if ok then advisory_unlock c (w_lock w) else w_lock w"
  have held: "\<exists>n. ?l = Some (d, n)" if j: "el_conn (w_electors w j) = Some d" "j \<noteq> i" "d \<notin> w_ended w" for j d
  proof -
    obtain n where "w_lock w = Some (d, n)" using inv_held [OF assms j(1,3)] by blast
    moreover have "d \<noteq> c" using inv_inj [OF assms j(1)] 2(1) j(2) by blast
    ultimately show ?thesis by (simp add: advisory_unlock_def)
  qed
  have "d \<notin> w_ended w" if l: "?l = Some (d, n)" for d n
  proof -
    obtain m where "w_lock w = Some (d, m)" using l unlock_Some [of c "w_lock w" d n] by (cases ok) auto
    then show ?thesis by (rule inv_alive [OF assms])
  qed
  then show ?thesis
    using inv_leader [OF assms] inv_inj [OF assms] held
    by (intro world_invI) (auto simp: 2(2) split: if_splits)
qed

lemma loop_acquire_cases:
  obtains "loop_acquire out e l = (e, l)"
  | c n where "out = Lock_answer c" "loop_acquire out e l = (e\<lparr>el_conn := Some c, el_is_leader := True\<rparr>, Some (c, n))"
      "\<And>h m. l = Some (h, m) \<Longrightarrow> h = c"
proof (cases out)
  case (Lock_answer c)
  show ?thesis
  proof (cases "el_is_leader e \<or> (\<exists>h m. l = Some (h, m) \<and> h \<noteq> c)")
    case True
    then show ?thesis using Lock_answer that(1) by (auto simp: loop_acquire_def tryAcquire_def try_advisory_lock_def)
  next
    case False
    show ?thesis
      by (rule that(2) [of c "case l of None \<Rightarrow> 1 | Some (h, m) \<Rightarrow> m + 1"])
        (use False Lock_answer in \<open>auto simp: loop_acquire_def tryAcquire_def try_advisory_lock_def split: option.splits\<close>)
  qed
qed (use that(1) in \<open>auto simp: loop_acquire_def tryAcquire_def\<close>)

lemma inv_acquire:
  assumes "world_inv w" "usable w out"
  shows "world_inv (set_elector i (loop_acquire out (w_electors w i) (w_lock w)) w)"
proof (cases rule: loop_acquire_cases [of out "w_electors w i" "w_lock w"])
  case 1
  then show ?thesis using assms(1) by simp
next
  case (2 c n)
  have free: "c \<notin> w_ended w" "el_conn (w_electors w j) \<noteq> Some c" for j using assms(2) 2(1) by (auto simp: usable_def)
  have ended: "d \<in> w_ended w" if j: "el_conn (w_electors w j) = Some d" for j d
  proof (rule ccontr)
    assume "d \<notin> w_ended w"
    then obtain m where "w_lock w = Some (d, m)" using inv_held [OF assms(1) j] by blast
    then show False using 2(3) free(2) j by blast
  qed
  show ?thesis
    using inv_leader [OF assms(1)] inv_inj [OF assms(1)] free ended
    by (intro world_invI) (auto simp: 2(2) split: if_splits)
qed

lemma inv_session_end:
  assumes "world_inv w"
  shows "world_inv (w\<lparr>w_lock := end_session s (w_lock w), w_ended := insert s (w_ended w)\<rparr>)"
proof (rule world_invI)
  fix i c
  assume "el_conn (w_electors (w\<lparr>w_lock := end_session s (w_lock w), w_ended := insert s (w_ended w)\<rparr>) i) = Some c"
    "c \<notin> w_ended (w\<lparr>w_lock := end_session s (w_lock w), w_ended := insert s (w_ended w)\<rparr>)"
  then obtain n where "w_lock w = Some (c, n)" "c \<noteq> s" using inv_held [OF assms] by auto
  then show "\<exists>n. w_lock (w\<lparr>w_lock := end_session s (w_lock w), w_ended := insert s (w_ended w)\<rparr>) = Some (c, n)"
    by (simp add: end_session_def)
next
  fix c n
  assume "w_lock (w\<lparr>w_lock := end_session s (w_lock w), w_ended := insert s (w_ended w)\<rparr>) = Some (c, n)"
  then have "w_lock w = Some (c, n)" "c \<noteq> s" by (auto simp: end_session_def split: option.splits if_splits)
  then show "c \<notin> w_ended (w\<lparr>w_lock := end_session s (w_lock w), w_ended := insert s (w_ended w)\<rparr>)"
    using inv_alive [OF assms] by simp
qed (use inv_leader [OF assms] inv_inj [OF assms] in auto)

lemma reachable_inv: "reachable w \<Longrightarrow> world_inv w"
proof (induction rule: reachable.induct)
  case Init
  show ?case by (rule inv_init)
next
  case (Step w w')
  from Step(2) show ?case
  proof (cases rule: leader_step.cases)
    case (Acquire out i)
    then show ?thesis using inv_acquire [OF Step(3)] by simp
  next
    case (Check i ping_ok unlock_ok)
    then show ?thesis using inv_release [OF Step(3), of i unlock_ok] Step(3) by (auto simp: loop_check_def)
  next
    case (Cancel i unlock_ok)
    then show ?thesis using inv_release [OF Step(3)] by simp
  next
    case (Session_end s)
    then show ?thesis using inv_session_end [OF Step(3)] by simp
  qed
qed

section \<open>Properties of leader election\<close>

text \<open>C24. At most one leader: in every reachable state two instances that both believe to be leader, each over a session
  that is still alive, are the same instance.  An instance whose session ended is demoted by its next
  check.\<close>

theorem leader_unique:
  assumes "reachable w" "el_is_leader (w_electors w i)" "el_is_leader (w_electors w j)"
    and "\<not> conn_ended w i" "\<not> conn_ended w j"
  shows "i = j"
proof -
  note inv = reachable_inv [OF assms(1)]
  obtain c d where cd: "el_conn (w_electors w i) = Some c" "el_conn (w_electors w j) = Some d"
    using inv_leader [OF inv] assms(2,3) by blast
  moreover have "c \<notin> w_ended w" "d \<notin> w_ended w" using cd assms(4,5) by (auto simp: conn_ended_def)
  ultimately have "c = d" using inv_held [OF inv] by (metis option.inject prod.inject)
  then show ?thesis using inv_inj [OF inv] cd by simp
qed

definition one_leader :: world where
  "one_leader = set_elector 0 (loop_acquire (Lock_answer 7) (w_electors init_world 0) (w_lock init_world)) init_world"

lemma one_leader_facts:
  "reachable one_leader" "el_is_leader (w_electors one_leader 0)" "\<not> conn_ended one_leader 0"
  "el_conn (w_electors one_leader 0) = Some 7"
proof -
  have "leader_step init_world one_leader"
    unfolding one_leader_def by (rule Acquire) (simp add: usable_def init_world_def new_elector_def)
  then show "reachable one_leader" by (rule reachable.Step [OF reachable.Init])
qed (simp_all add: one_leader_def loop_acquire_def tryAcquire_def try_advisory_lock_def init_world_def new_elector_def conn_ended_def)

theorem leader_unique_witness:
  "\<not> (\<exists>j. j \<noteq> 0 \<and> el_is_leader (w_electors one_leader j) \<and> \<not> conn_ended one_leader j)"
  using leader_unique [OF one_leader_facts(1,2) _ one_leader_facts(3)] by blast

text \<open>C39. Failover: when the session of the leader has ended, the stale leader is demoted by its next check and from then
  on, or even before, the first other instance whose query is answered becomes leader.\<close>

theorem leader_failover:
  assumes "reachable w" "el_is_leader (w_electors w i)" "\<not> conn_ended w i" "el_conn (w_electors w i) = Some s"
  shows "let w' = w\<lparr>w_lock := end_session s (w_lock w), w_ended := insert s (w_ended w)\<rparr> in
     leader_step w w' \<and> conn_ended w' i
     \<and> \<not> el_is_leader (fst (loop_check False ok (w_electors w' i) (w_lock w')))
     \<and> el_is_leader (fst (loop_acquire (Lock_answer c) (w_electors w' j) (w_lock w')))"
proof -
  obtain n where "w_lock w = Some (s, n)"
    using inv_held [OF reachable_inv [OF assms(1)] assms(4)] assms(3,4) by (auto simp: conn_ended_def)
  then have free: "end_session s (w_lock w) = None" by (simp add: end_session_def)
  show ?thesis unfolding Let_def
  proof (intro conjI)
    show "leader_step w (w\<lparr>w_lock := end_session s (w_lock w), w_ended := insert s (w_ended w)\<rparr>)" by (rule Session_end)
    show "\<not> el_is_leader (fst (loop_check False ok (w_electors (w\<lparr>w_lock := end_session s (w_lock w), w_ended := insert s (w_ended w)\<rparr>) i)
        (w_lock (w\<lparr>w_lock := end_session s (w_lock w), w_ended := insert s (w_ended w)\<rparr>))))"
      by (simp add: loop_check_def releaseIfLeader_def split: option.splits)
  qed (use assms(4) free in \<open>auto simp: conn_ended_def loop_acquire_def tryAcquire_def try_advisory_lock_def\<close>)
qed

theorem leader_failover_witness:
  "let w' = one_leader\<lparr>w_lock := end_session 7 (w_lock one_leader), w_ended := insert 7 (w_ended one_leader)\<rparr> in
     leader_step one_leader w' \<and> conn_ended w' 0
     \<and> \<not> el_is_leader (fst (loop_check False True (w_electors w' 0) (w_lock w')))
     \<and> el_is_leader (fst (loop_acquire (Lock_answer 8) (w_electors w' 1) (w_lock w')))"
  by (rule leader_failover [OF one_leader_facts])

text \<open>Polling gives up at the first answer after the deadline and never reports a lock it was not given.\<close>

lemma poll_acquired: "AcquireAdvisoryLock deadline polls = Poll_acquired \<Longrightarrow> \<exists>now. (Inr True, now) \<in> set polls"
  by (induction deadline polls rule: AcquireAdvisoryLock.induct) (auto split: sum.splits if_splits)

lemma poll_ends:
  "(answer, now) \<in> set polls \<Longrightarrow> now > deadline \<Longrightarrow> AcquireAdvisoryLock deadline polls \<noteq> Poll_cancelled"
  by (induction deadline polls rule: AcquireAdvisoryLock.induct) (auto split: sum.splits if_splits)

text \<open>The wait of the loop lies within a tenth of the interval, so no two checks are further apart than
  that.\<close>

lemma jitter_bounds:
  assumes "0 \<le> random" "random < jitter_spread interval" "5 \<le> interval"
  shows "interval - interval div 10 \<le> jittered_wait interval random + 1 \<and> jittered_wait interval random \<le> interval + interval div 10 + 1"
proof -
  have "interval div 5 div 2 = interval div 10" "interval div 5 \<le> 2 * (interval div 10) + 1" by presburger+
  with assms show ?thesis by (simp add: jittered_wait_def jitter_spread_def Let_def split: if_splits)
qed

end
