(* ===== verification/Reconcile.thy ===== *)
theory Reconcile
  imports Go_Prelude Go_Time "HOL-Library.List_Lexorder"
begin

text \<open>
  Drift detection between Keycloak and the user table, \<open>internal/reconcile/reconcile.go\<close>.  The list of
  Keycloak users is the answer of its client, a parameter; the gauges are the fields of a record.
\<close>

section \<open>One run\<close>

record drift_result =
  dr_keycloak :: "string list"
  dr_db :: "string list"

record reconcile_env =
  re_keycloak :: "string + string option list"
  re_query_err :: "string option"
  re_rows_err :: "string option"
  re_scan_fails :: "nat \<Rightarrow> bool"

text \<open>The keys of the two maps; an id that is missing or empty is skipped on the Keycloak side, a row that
  fails to scan on the database side.\<close>

definition keycloak_ids :: "string option list \<Rightarrow> string list" where
  "keycloak_ids us = remdups (filter (\<lambda>i. i \<noteq> []) (map the (filter (\<lambda>u. u \<noteq> None) us)))"

definition db_ids :: "(nat \<Rightarrow> bool) \<Rightarrow> string list \<Rightarrow> string list" where
  "db_ids scan_fails rows = remdups (map snd (filter (\<lambda>x. \<not> scan_fails (fst x)) (enumerate 0 rows)))"

definition sort_strings :: "string list \<Rightarrow> string list" where
  "sort_strings xs = sort_key (map byte) xs"

definition drift_run :: "reconcile_env \<Rightarrow> string list \<Rightarrow> string + drift_result" where
  "drift_run env rows =
     (case re_keycloak env of Inl e \<Rightarrow> Inl e | Inr us \<Rightarrow>
      case re_query_err env of Some e \<Rightarrow> Inl e | None \<Rightarrow>
      case re_rows_err env of Some e \<Rightarrow> Inl e | None \<Rightarrow>
      (let kc = keycloak_ids us; db = db_ids (re_scan_fails env) rows in
       Inr \<lparr>dr_keycloak = sort_strings (filter (\<lambda>i. i \<notin> set db) kc),
            dr_db = sort_strings (filter (\<lambda>i. i \<notin> set kc) db)\<rparr>))"

section \<open>The gauges\<close>

definition driftUnknown :: int where
  "driftUnknown = -1"

record gauges =
  g_keycloak :: int
  g_db :: int
  g_last_run :: time
  g_failures :: nat
  g_last_failed :: bool

text \<open>The result of a run with its gauges and whether the drift notification is sent.\<close>

definition runAndRecord :: "bool \<Rightarrow> reconcile_env \<Rightarrow> string list \<Rightarrow> time \<Rightarrow> gauges \<Rightarrow> gauges \<times> (nat \<times> nat) option" where
  "runAndRecord has_notifier env rows now g =
     (case drift_run env rows of
        Inl e \<Rightarrow> (g\<lparr>g_keycloak := driftUnknown, g_db := driftUnknown, g_last_failed := True,
                   g_failures := g_failures g + 1, g_last_run := now\<rparr>, None)
      | Inr r \<Rightarrow>
          (g\<lparr>g_keycloak := int (length (dr_keycloak r)), g_db := int (length (dr_db r)), g_last_failed := False, g_last_run := now\<rparr>,
           if (dr_keycloak r \<noteq> [] \<or> dr_db r \<noteq> []) \<and> has_notifier
           then Some (length (dr_keycloak r), length (dr_db r)) else None))"

text \<open>A tick of the background job: only the leader runs.\<close>

definition reconcile_tick :: "bool option \<Rightarrow> bool \<Rightarrow> reconcile_env \<Rightarrow> string list \<Rightarrow> time \<Rightarrow> gauges \<Rightarrow> gauges \<times> (nat \<times> nat) option" where
  "reconcile_tick is_leader has_notifier env rows now g =
     (if is_leader = Some False then (g, None) else runAndRecord has_notifier env rows now g)"

section \<open>What a run reports\<close>

lemma set_sort_strings [simp]: "set (sort_strings xs) = set xs"
  by (simp add: sort_strings_def)

lemma length_sort_strings [simp]: "length (sort_strings xs) = length xs"
  by (simp add: sort_strings_def)

lemma sort_strings_sorted: "sorted (map (map byte) (sort_strings xs))"
  by (simp add: sort_strings_def)

lemma sort_strings_distinct [simp]: "distinct (sort_strings xs) = distinct xs"
  by (simp add: sort_strings_def)

lemma set_keycloak_ids: "set (keycloak_ids us) = {i. Some i \<in> set us \<and> i \<noteq> []}"
  by (force simp: keycloak_ids_def image_iff)

lemma set_db_ids: "(\<And>i. \<not> scan_fails i) \<Longrightarrow> set (db_ids scan_fails rows) = set rows"
  by (simp add: db_ids_def enumerate_eq_zip)

text \<open>A drift report is exact: when all rows are read, the two lists are the duplicate-free, sorted differences of the
  two sets of ids, and both are empty exactly when the systems agree.  A run that fails is recorded as
  failed and with the sentinel, never as a run without drift.\<close>

theorem drift_report_exact:
  assumes "\<And>i. \<not> re_scan_fails env i" "re_keycloak env = Inr us"
  shows "(\<forall>r. drift_run env rows = Inr r \<longrightarrow>
        set (dr_keycloak r) = {i. Some i \<in> set us \<and> i \<noteq> []} - set rows \<and> distinct (dr_keycloak r)
      \<and> set (dr_db r) = set rows - {i. Some i \<in> set us \<and> i \<noteq> []} \<and> distinct (dr_db r)
      \<and> sorted (map (map byte) (dr_keycloak r)) \<and> sorted (map (map byte) (dr_db r)))
    \<and> (let g' = fst (runAndRecord n env rows now g) in
        (g_last_failed g' \<longleftrightarrow> (\<exists>e. drift_run env rows = Inl e))
      \<and> (g_last_failed g' \<longleftrightarrow> g_keycloak g' < 0)
      \<and> (g_keycloak g' = 0 \<and> g_db g' = 0 \<longrightarrow> {i. Some i \<in> set us \<and> i \<noteq> []} = set rows))"
proof -
  have r: "set (dr_keycloak r) = {i. Some i \<in> set us \<and> i \<noteq> []} - set rows \<and> distinct (dr_keycloak r)
      \<and> set (dr_db r) = set rows - {i. Some i \<in> set us \<and> i \<noteq> []} \<and> distinct (dr_db r)
      \<and> sorted (map (map byte) (dr_keycloak r)) \<and> sorted (map (map byte) (dr_db r))"
    if "drift_run env rows = Inr r" for r
  proof -
    have "r = \<lparr>dr_keycloak = sort_strings (filter (\<lambda>i. i \<notin> set rows) (keycloak_ids us)),
        dr_db = sort_strings (filter (\<lambda>i. i \<notin> set (keycloak_ids us)) (db_ids (re_scan_fails env) rows))\<rparr>"
      using that assms(2) set_db_ids [OF assms(1)] by (auto simp: drift_run_def Let_def split: option.splits)
    then show ?thesis
      using set_db_ids [OF assms(1)] set_keycloak_ids [of us]
      by (auto simp: sort_strings_sorted) (simp_all add: keycloak_ids_def db_ids_def)
  qed
  have "let g' = fst (runAndRecord n env rows now g) in
        (g_last_failed g' \<longleftrightarrow> (\<exists>e. drift_run env rows = Inl e))
      \<and> (g_last_failed g' \<longleftrightarrow> g_keycloak g' < 0)
      \<and> (g_keycloak g' = 0 \<and> g_db g' = 0 \<longrightarrow> {i. Some i \<in> set us \<and> i \<noteq> []} = set rows)"
  proof (cases "drift_run env rows")
    case (Inl e)
    then show ?thesis by (simp add: runAndRecord_def driftUnknown_def)
  next
    case (Inr x)
    define A where "A = {i. Some i \<in> set us \<and> i \<noteq> []}"
    have "set (dr_keycloak x) = A - set rows" "set (dr_db x) = set rows - A"
      using r [OF Inr] unfolding A_def by (simp_all only:)
    then have "A = set rows" if "dr_keycloak x = []" "dr_db x = []"
      using that by (metis Diff_eq_empty_iff empty_set subset_antisym)
    with Inr show ?thesis unfolding A_def by (simp add: runAndRecord_def Let_def)
  qed
  with r show ?thesis by blast
qed

theorem drift_report_exact_witness:
  "let env = \<lparr>re_keycloak = Inr [Some ''u2'', None, Some ''u1''], re_query_err = None, re_rows_err = None, re_scan_fails = (\<lambda>_. False)\<rparr>
   in \<exists>r. drift_run env [''u3'', ''u1''] = Inr r \<and> set (dr_keycloak r) = {''u2''}"
proof -
  let ?env = "\<lparr>re_keycloak = Inr [Some ''u2'', None, Some ''u1''], re_query_err = None, re_rows_err = None, re_scan_fails = (\<lambda>_. False)\<rparr>"
  obtain r where "drift_run ?env [''u3'', ''u1''] = Inr r" by (simp add: drift_run_def Let_def)
  moreover from drift_report_exact [THEN conjunct1, THEN spec, THEN mp, THEN conjunct1, of ?env, OF _ _ this]
  have "set (dr_keycloak r) = {''u2''}" by auto
  ultimately show ?thesis by (simp add: Let_def)
qed

end
