(* ===== verification/Lifecycle.thy ===== *)
theory Lifecycle
  imports Audit_Chain Validators Device_Identity Org_Scope Provisioning
begin

text \<open>
  Onboarding and offboarding: \<open>handlers/onboarding.go\<close>, \<open>handlers/bulk_onboarding.go\<close>,
  \<open>handlers/offboarding.go\<close> and the calls of \<open>keycloak/client.go\<close> they make.

  The identity provider is a state of its own, the users with their enabled flag; the methods of the
  client are translated from the source over the answers of the Keycloak server, which are a
  parameter.  Fleet answers with a token or an error.  The local database is one record; what a
  transaction did is undone when a later statement of it fails.
\<close>

section \<open>The identity provider\<close>

record idp =
  kc_users :: "(string \<times> bool) list"
  kc_members :: "(string \<times> string) list"

text \<open>The answers of the server to the requests of one call.\<close>

record kc_env =
  kc_login :: "string option"
  kc_create :: "string + string"
  kc_password :: "string option"
  kc_email :: "string option"
  kc_groups :: "string + (string option \<times> string) list"
  kc_join :: "string option"
  kc_get :: "string option"
  kc_update :: "string option"
  kc_delete :: "string option"
  kc_sessions :: "string + string option list"
  kc_logout :: "string \<Rightarrow> string option"

record create_result =
  cr_id :: string
  cr_password_set :: bool
  cr_reset_sent :: bool
  cr_warning :: string

text \<open>\<open>findGroupByName\<close> and \<open>AddUserToGroup\<close>, both best effort: the user joins the first group that has the name
  of the department.\<close>

definition join_department :: "kc_env \<Rightarrow> string \<Rightarrow> string \<Rightarrow> idp \<Rightarrow> idp" where
  "join_department env created department kc =
     (if department = [] then kc
      else case kc_groups env of Inl _ \<Rightarrow> kc
      | Inr gs \<Rightarrow> (case find (\<lambda>g. fst g = Some department) gs of
          Some (_, gid) \<Rightarrow> if gid \<noteq> [] \<and> kc_join env = None then kc\<lparr>kc_members := kc_members kc @ [(created, gid)]\<rparr> else kc
        | None \<Rightarrow> kc))"

text \<open>\<open>CreateUser\<close>: the user exists at the server as soon as the create request succeeded, also when the
  password request after it fails and the call returns an error.\<close>

definition CreateUser :: "kc_env \<Rightarrow> string \<Rightarrow> idp \<Rightarrow> (string + create_result) \<times> idp" where
  "CreateUser env department kc =
     (case kc_login env of Some e \<Rightarrow> (Inl e, kc) | None \<Rightarrow>
      case kc_create env of Inl e \<Rightarrow> (Inl (''create keycloak user: '' @ e), kc) | Inr created \<Rightarrow>
      (let kc = kc\<lparr>kc_users := kc_users kc @ [(created, True)]\<rparr> in
       case kc_password env of
         Some e \<Rightarrow> (Inl (''set password for user '' @ created @ '': '' @ e), kc)
       | None \<Rightarrow>
         (Inr \<lparr>cr_id = created, cr_password_set = True, cr_reset_sent = (kc_email env = None),
               cr_warning = (if kc_email env = None then [] else ''Password reset email could not be sent'')\<rparr>,
          join_department env created department kc)))"

definition DeleteUser :: "kc_env \<Rightarrow> string \<Rightarrow> idp \<Rightarrow> string option \<times> idp" where
  "DeleteUser env userID kc =
     (case kc_login env of Some e \<Rightarrow> (Some e, kc) | None \<Rightarrow>
      case kc_delete env of Some e \<Rightarrow> (Some (''delete keycloak user '' @ userID @ '': '' @ e), kc)
      | None \<Rightarrow> (None, \<lparr>kc_users = filter (\<lambda>u. fst u \<noteq> userID) (kc_users kc),
                        kc_members = filter (\<lambda>m. fst m \<noteq> userID) (kc_members kc)\<rparr>))"

definition DisableUser :: "kc_env \<Rightarrow> string \<Rightarrow> idp \<Rightarrow> string option \<times> idp" where
  "DisableUser env userID kc =
     (case kc_login env of Some e \<Rightarrow> (Some e, kc) | None \<Rightarrow>
      case kc_get env of Some e \<Rightarrow> (Some (''get user '' @ userID @ '': '' @ e), kc) | None \<Rightarrow>
      case kc_update env of Some e \<Rightarrow> (Some (''disable user '' @ userID @ '': '' @ e), kc)
      | None \<Rightarrow> (None, kc\<lparr>kc_users := map (\<lambda>u. if fst u = userID then (userID, False) else u) (kc_users kc)\<rparr>))"

text \<open>\<open>LogoutAllSessions\<close>: every session with an id is logged out, failures are remembered; the result is
  the error and the sessions that were ended.\<close>

definition LogoutAllSessions :: "kc_env \<Rightarrow> string \<Rightarrow> string option \<times> string list" where
  "LogoutAllSessions env userID =
     (case kc_login env of Some e \<Rightarrow> (Some e, []) | None \<Rightarrow>
      case kc_sessions env of Inl e \<Rightarrow> (Some (''get sessions for user '' @ userID @ '': '' @ e), []) | Inr ss \<Rightarrow>
      (let ids = filter (\<lambda>s. s \<noteq> []) (map the (filter (\<lambda>s. s \<noteq> None) ss));
           ended = filter (\<lambda>s. kc_logout env s = None) ids;
           failed = filter (\<lambda>s. kc_logout env s \<noteq> None) ids
       in (if failed = [] then None
           else Some (''logged out '' @ show_nat (length ended) @ ''/'' @ show_nat (length ss) @ '' sessions for user '' @ userID
                      @ '', last error: '' @ the (kc_logout env (last failed))), ended)))"

section \<open>The local database\<close>

record life_user =
  lu_id :: string
  lu_email :: string
  lu_first :: string
  lu_last :: string
  lu_department :: string
  lu_role :: string
  lu_org :: string
  lu_disabled :: bool

record life_db =
  l_users :: "life_user list"
  l_members :: "membership list"
  l_tokens :: "enroll_token list"
  l_mapping :: "(string \<times> string) list"
  l_prov :: "prov_row list"
  l_assign :: "(string \<times> string) list"
  l_enabled :: "string list"
  l_audit :: audit_db

record onboard_request =
  ob_first :: string
  ob_last :: string
  ob_email :: string
  ob_department :: string
  ob_role :: string

definition normalise_onboard :: "onboard_request \<Rightarrow> onboard_request" where
  "normalise_onboard r = \<lparr>ob_first = trim_space (ob_first r), ob_last = trim_space (ob_last r),
     ob_email = to_lower (trim_space (ob_email r)), ob_department = trim_space (ob_department r), ob_role = trim_space (ob_role r)\<rparr>"

definition max_chars :: "string \<Rightarrow> string \<Rightarrow> string" where
  "max_chars field n = field @ '' must be '' @ [CHR 0xE2, CHR 0x89, CHR 0xA4] @ '' '' @ n @ '' characters''"

definition onboard_errors :: "onboard_request \<Rightarrow> (string \<times> string) list" where
  "onboard_errors r =
     (if ob_first r = [] then [(''firstName'', ''firstName is required'')]
      else if length (ob_first r) > 100 then [(''firstName'', max_chars ''firstName'' ''100'')] else [])
   @ (if ob_last r = [] then [(''lastName'', ''lastName is required'')]
      else if length (ob_last r) > 100 then [(''lastName'', max_chars ''lastName'' ''100'')] else [])
   @ (if ob_email r = [] then [(''email'', ''email is required'')]
      else if length (ob_email r) > 254 then [(''email'', max_chars ''email'' ''254'')]
      else if \<not> isValidEmail (ob_email r) then [(''email'', ''email must be a valid address'')] else [])
   @ (if length (ob_department r) > 100 then [(''department'', max_chars ''department'' ''100'')] else [])
   @ (if length (ob_role r) > 100 then [(''role'', max_chars ''role'' ''100'')] else [])"

section \<open>persistOnboard\<close>

record persist_env =
  pz_begin :: "string option"
  pz_user :: "string option"
  pz_member :: "string option"
  pz_audit :: write_env
  pz_token :: "string option"
  pz_commit :: "string option"
  pz_now :: time

text \<open>Primary key and unique email of \<open>users\<close>; the sequence of the audit log is not given back.\<close>

definition user_conflict :: "string \<Rightarrow> string \<Rightarrow> life_db \<Rightarrow> bool" where
  "user_conflict i email db = list_ex (\<lambda>u. lu_id u = i \<or> lu_email u = email) (l_users db)"

definition persistOnboard :: "(string \<Rightarrow> string) \<Rightarrow> persist_env \<Rightarrow> string option \<Rightarrow> string \<Rightarrow> onboard_request \<Rightarrow> string
   \<Rightarrow> jval \<Rightarrow> string \<Rightarrow> string \<Rightarrow> life_db \<Rightarrow> string option \<times> life_db" where
  "persistOnboard jt env ctxOrg kcUserID req actorID details token orgID db =
     (case pz_begin env of Some e \<Rightarrow> (Some (''begin tx: '' @ e), db) | None \<Rightarrow>
      if pz_user env \<noteq> None \<or> user_conflict kcUserID (ob_email req) db then (Some ''insert user'', db)
      else if pz_member env \<noteq> None then (Some ''insert org membership'', db)
      else case writeAuditEntry jt (pz_audit env) ctxOrg
             \<lparr>ac_actor = actorID, ac_action = ''onboard'', ac_target_type = ''user'', ac_target_id = kcUserID,
              ac_details = Some details\<rparr> (Some (l_audit db)) of
        (Inl e, a) \<Rightarrow> (Some ''insert audit log'', db\<lparr>l_audit := rollback_to (l_audit db) (the a)\<rparr>)
      | (Inr _, a) \<Rightarrow>
          (let audit = the a;
               undone = db\<lparr>l_audit := rollback_to (l_audit db) audit\<rparr>;
               db1 = db\<lparr>l_users := l_users db @ [\<lparr>lu_id = kcUserID, lu_email = ob_email req, lu_first = ob_first req,
                            lu_last = ob_last req, lu_department = ob_department req, lu_role = ob_role req, lu_org = orgID,
                            lu_disabled = False\<rparr>],
                        l_members := (if list_ex (\<lambda>m. mb_org m = orgID \<and> mb_user m = kcUserID) (l_members db) then l_members db
                                      else l_members db @ [\<lparr>mb_user = kcUserID, mb_org = orgID, mb_role = ''member''\<rparr>]),
                        l_audit := audit\<rparr>
           in if token \<noteq> [] \<and> (pz_token env \<noteq> None \<or> list_ex (\<lambda>t. et_hash t = enrollmentTokenHash token) (l_tokens db))
              then (Some ''insert enrollment token'', undone)
              else case pz_commit env of Some e \<Rightarrow> (Some e, undone)
              | None \<Rightarrow> (None, if token = [] then db1
                  else db1\<lparr>l_tokens := l_tokens db @ [\<lparr>et_hash = enrollmentTokenHash token, et_user = kcUserID, et_org = orgID,
                       et_used_at = None, et_expires = pz_now env + 7 * 24 * hour, et_host = None\<rparr>]\<rparr>)))"

section \<open>The pipeline: create, token, persist, compensate\<close>

text \<open>\<open>onboardOne\<close>, the part that \<open>Onboard\<close> repeats inline: when persisting fails, the Keycloak user is
  deleted again, best effort.  Persisting runs on a detached context, which carries no organisation.\<close>

record onboard_env =
  og_kc :: kc_env
  og_kc_delete :: kc_env
  og_fleet :: "string + string"
  og_has_db :: bool
  og_persist :: persist_env

datatype onboard_failure = Idp_error string | Password_not_set | Empty_user_id | Persist_error string

definition onboard_pipeline :: "(string \<Rightarrow> string) \<Rightarrow> onboard_env \<Rightarrow> string \<Rightarrow> string \<Rightarrow> jval \<Rightarrow> onboard_request
   \<Rightarrow> idp \<times> life_db \<Rightarrow> (onboard_failure + create_result \<times> string) \<times> idp \<times> life_db" where
  "onboard_pipeline jt env orgID actorID details req s =
     (case s of (kc, db) \<Rightarrow>
      case CreateUser (og_kc env) (ob_department req) kc of
        (Inl e, kc) \<Rightarrow> (Inl (Idp_error e), kc, db)
      | (Inr res, kc) \<Rightarrow>
          if \<not> cr_password_set res then (Inl Password_not_set, kc, db)
          else if cr_id res = [] then (Inl Empty_user_id, kc, db)
          else (let token = (case og_fleet env of Inl _ \<Rightarrow> [] | Inr t \<Rightarrow> t) in
                if \<not> og_has_db env then (Inr (res, token), kc, db)
                else case persistOnboard jt (og_persist env) None (cr_id res) req actorID details token orgID db of
                  (Some e, db) \<Rightarrow> (Inl (Persist_error e), snd (DeleteUser (og_kc_delete env) (cr_id res) kc), db)
                | (None, db) \<Rightarrow> (Inr (res, token), kc, db)))"

section \<open>Onboard\<close>

record onboard_call =
  oq_request :: "onboard_request option"
  oq_actor :: string
  oq_oc :: "org_context option"
  oq_lookup_err :: "string option"
  oq_env :: onboard_env

record onboard_response =
  os_user :: string
  os_token :: string
  os_next_step :: string
  os_warning :: string

definition onboard_error_text :: "onboard_failure \<Rightarrow> string" where
  "onboard_error_text f =
     (case f of
        Idp_error _ \<Rightarrow> ''failed to create user in identity provider''
      | Password_not_set \<Rightarrow> ''password could not be set for user''
      | Empty_user_id \<Rightarrow> ''keycloak user creation returned missing user ID''
      | Persist_error _ \<Rightarrow> ''failed to persist user'')"

definition Onboard :: "(string \<Rightarrow> string) \<Rightarrow> onboard_call \<Rightarrow> idp \<times> life_db \<Rightarrow> onboard_response response \<times> idp \<times> life_db" where
  "Onboard jt c s =
     (case oq_request c of None \<Rightarrow> (RespondError 400 ''invalid request body'', s) | Some raw \<Rightarrow>
      (let req = normalise_onboard raw in
       if onboard_errors req \<noteq> [] then (RespondValidationErrors (onboard_errors req), s)
       else case oq_oc c of None \<Rightarrow> (RespondError 403 ''forbidden: no organization context'', s) | Some oc \<Rightarrow>
       (case (if og_has_db (oq_env c) then select_one (oq_lookup_err c) (\<lambda>u. lu_email u = ob_email req) (l_users (snd s)) else No_rows) of
          Ok _ \<Rightarrow> (RespondError 409 ''a user with this email already exists'', s)
        | Db_error _ \<Rightarrow> (RespondError 500 ''internal error'', s)
        | No_rows \<Rightarrow>
          (case onboard_pipeline jt (oq_env c) (oc_org oc) (oq_actor c)
                  (JObj [(''email'', JStr (ob_email req)), (''department'', JStr (ob_department req)), (''role'', JStr (ob_role req))]) req s of
             (Inl f, s') \<Rightarrow> (RespondError 500 (onboard_error_text f), s')
           | (Inr (res, token), s') \<Rightarrow>
               (let fleet_failed = (case og_fleet (oq_env c) of Inl _ \<Rightarrow> True | Inr _ \<Rightarrow> False);
                    warnings = (if cr_warning res \<noteq> [] then [cr_warning res] else [])
                             @ (if fleet_failed then [''Fleet enrollment failed; manual enrollment required''] else [])
                in (RespondJSON (if fleet_failed then 202 else 200)
                      \<lparr>os_user = cr_id res, os_token = token,
                       os_next_step = (if cr_reset_sent res then ''Password reset email sent to user.''
                                       else ''User created. Admin must provide login credentials to the user.''),
                       os_warning = join_with ''; '' warnings\<rparr>, s'))))))"

section \<open>Bulk onboarding\<close>

definition maxBulkRows :: nat where
  "maxBulkRows = 500"

definition validateBulkRow :: "onboard_request \<Rightarrow> string" where
  "validateBulkRow r =
     (if ob_first r = [] then ''firstName is required''
      else if length (ob_first r) > 100 then max_chars ''firstName'' ''100''
      else if ob_last r = [] then ''lastName is required''
      else if length (ob_last r) > 100 then max_chars ''lastName'' ''100''
      else if ob_email r = [] then ''email is required''
      else if \<not> isValidEmail (ob_email r) then ''email must be a valid address''
      else if length (ob_department r) > 100 then max_chars ''department'' ''100''
      else if length (ob_role r) > 100 then max_chars ''role'' ''100''
      else [])"

datatype row_outcome = Succeeded | Skipped_duplicate | Failed string

record bulk_row_env =
  br_lookup_err :: "string option"
  br_env :: onboard_env

definition failure_text :: "onboard_failure \<Rightarrow> string" where
  "failure_text f =
     (case f of
        Idp_error e \<Rightarrow> ''identity provider: '' @ e
      | Password_not_set \<Rightarrow> ''password could not be set for user''
      | Empty_user_id \<Rightarrow> ''identity provider returned empty user ID''
      | Persist_error e \<Rightarrow> ''persist: '' @ e)"

definition onboardOne :: "(string \<Rightarrow> string) \<Rightarrow> org_context option \<Rightarrow> string \<Rightarrow> onboard_env \<Rightarrow> onboard_request
   \<Rightarrow> idp \<times> life_db \<Rightarrow> string option \<times> idp \<times> life_db" where
  "onboardOne jt oc actorID env req s =
     (case oc of None \<Rightarrow> (Some ''no organization context for bulk onboard'', s) | Some x \<Rightarrow>
      case onboard_pipeline jt env (oc_org x) actorID
             (JObj [(''email'', JStr (ob_email req)), (''department'', JStr (ob_department req)), (''role'', JStr (ob_role req)),
                    (''source'', JStr ''bulk_onboard'')]) req s of
        (Inl f, s') \<Rightarrow> (Some (failure_text f), s')
      | (Inr _, s') \<Rightarrow> (None, s'))"

definition bulk_row :: "(string \<Rightarrow> string) \<Rightarrow> org_context option \<Rightarrow> string \<Rightarrow> bulk_row_env \<Rightarrow> onboard_request
   \<Rightarrow> idp \<times> life_db \<Rightarrow> row_outcome \<times> idp \<times> life_db" where
  "bulk_row jt oc actorID env raw s =
     (let row = normalise_onboard raw in
      if validateBulkRow row \<noteq> [] then (Failed (validateBulkRow row), s)
      else case (if og_has_db (br_env env) then select_one (br_lookup_err env) (\<lambda>u. lu_email u = ob_email row) (l_users (snd s)) else No_rows) of
        Ok _ \<Rightarrow> (Skipped_duplicate, s)
      | Db_error _ \<Rightarrow> (Failed ''database lookup error'', s)
      | No_rows \<Rightarrow>
          (case onboardOne jt oc actorID (br_env env) row s of
             (Some e, s') \<Rightarrow> (Failed e, s')
           | (None, s') \<Rightarrow> (Succeeded, s')))"

fun bulk_rows :: "(string \<Rightarrow> string) \<Rightarrow> org_context option \<Rightarrow> string \<Rightarrow> (bulk_row_env \<times> onboard_request) list
   \<Rightarrow> idp \<times> life_db \<Rightarrow> row_outcome list \<times> idp \<times> life_db" where
  "bulk_rows jt oc actorID [] s = ([], s)"
| "bulk_rows jt oc actorID ((env, row) # rows) s =
     (case bulk_row jt oc actorID env row s of (out, s) \<Rightarrow>
      case bulk_rows jt oc actorID rows s of (outs, s) \<Rightarrow> (out # outs, s))"

text \<open>The response: the outcome of each row, numbered from 2, and the counts; 207 unless all succeeded.\<close>

record bulk_response =
  bs_total :: nat
  bs_succeeded :: nat
  bs_skipped :: nat
  bs_failed :: nat
  bs_results :: "(nat \<times> row_outcome) list"

definition is_failed :: "row_outcome \<Rightarrow> bool" where
  "is_failed x = (case x of Failed _ \<Rightarrow> True | _ \<Rightarrow> False)"

definition BulkOnboard :: "(string \<Rightarrow> string) \<Rightarrow> org_context option \<Rightarrow> string \<Rightarrow> string + (bulk_row_env \<times> onboard_request) list
   \<Rightarrow> idp \<times> life_db \<Rightarrow> bulk_response response \<times> idp \<times> life_db" where
  "BulkOnboard jt oc actorID parsed s =
     (case parsed of Inl e \<Rightarrow> (RespondError 400 e, s) | Inr rows \<Rightarrow>
      if rows = [] then (RespondError 400 ''no rows provided'', s)
      else if length rows > maxBulkRows then (RespondError 400 (''too many rows: maximum 500 allowed''), s)
      else case bulk_rows jt oc actorID rows s of (outs, s') \<Rightarrow>
        (let failed = length (filter is_failed outs); skipped = length (filter (\<lambda>x. x = Skipped_duplicate) outs) in
         (RespondJSON (if failed > 0 \<or> skipped > 0 then 207 else 200)
            \<lparr>bs_total = length rows, bs_succeeded = length (filter (\<lambda>x. x = Succeeded) outs), bs_skipped = skipped,
             bs_failed = failed, bs_results = enumerate 2 outs\<rparr>, s')))"

text \<open>The CSV after the reader of the standard library has split it into records.\<close>

definition column_of :: "string list \<Rightarrow> string \<Rightarrow> nat option" where
  "column_of headers col = map_of (rev (zip (map (\<lambda>h. to_lower (trim_space h)) headers) [0..<length headers])) col"

definition csv_field :: "string list \<Rightarrow> string list \<Rightarrow> string \<Rightarrow> string" where
  "csv_field headers row col =
     (case column_of headers col of None \<Rightarrow> [] | Some i \<Rightarrow> if i \<ge> length row then [] else trim_space (row ! i))"

definition parseCSVLimited :: "string list list \<Rightarrow> nat \<Rightarrow> string + onboard_request list" where
  "parseCSVLimited records maxRows =
     (case records of [] \<Rightarrow> Inl ''CSV read header'' | headers # rows \<Rightarrow>
      case find (\<lambda>c. column_of headers c = None) [''firstname'', ''lastname'', ''email''] of
        Some c \<Rightarrow> Inl (''CSV missing required column: '' @ c)
      | None \<Rightarrow>
          if length rows > maxRows then Inl (''too many rows: maximum '' @ show_nat maxRows @ '' allowed'')
          else Inr (map (\<lambda>r. \<lparr>ob_first = csv_field headers r ''firstname'', ob_last = csv_field headers r ''lastname'',
                 ob_email = csv_field headers r ''email'', ob_department = csv_field headers r ''department'',
                 ob_role = csv_field headers r ''role''\<rparr>) rows))"

section \<open>Provisioning triggers\<close>

text \<open>The engine sees the users and its own table.\<close>

definition prov_view :: "life_db \<Rightarrow> prov_db" where
  "prov_view db = \<lparr>prov_rows = l_prov db, prov_users = map (\<lambda>u. \<lparr>ur_id = lu_id u, ur_org = lu_org u, ur_email = lu_email u,
     ur_first = lu_first u, ur_last = lu_last u, ur_department = Some (lu_department u), ur_disabled = lu_disabled u\<rparr>) (l_users db)\<rparr>"

definition prov_audit :: "string \<Rightarrow> string \<Rightarrow> string \<Rightarrow> string \<Rightarrow> string option \<Rightarrow> audit_call" where
  "prov_audit ok failed userID appID err =
     \<lparr>ac_actor = ''system:provisioning'', ac_action = (if err = None then ok else failed), ac_target_type = ''user'', ac_target_id = userID,
      ac_details = Some (JObj ([(''app_id'', JStr appID)] @ (case err of None \<Rightarrow> [] | Some e \<Rightarrow> [(''error'', JStr e)])))\<rparr>"

fun run_apps :: "(string \<Rightarrow> prov_db \<Rightarrow> prov_error option \<times> prov_db \<times> remote_call list) \<Rightarrow> (prov_error \<Rightarrow> string)
   \<Rightarrow> (string \<Rightarrow> string option \<Rightarrow> audit_call) \<Rightarrow> string list \<Rightarrow> prov_db \<Rightarrow> prov_db \<times> remote_call list \<times> audit_call list" where
  "run_apps act text call [] db = (db, [], [])"
| "run_apps act text call (app # apps) db =
     (case act app db of (err, db, calls) \<Rightarrow>
      case run_apps act text call apps db of (db, calls', audits) \<Rightarrow>
        (db, calls @ calls', call app (map_option text err) # audits))"

text \<open>The outcomes are audited one by one, best effort.\<close>

fun write_audits :: "(string \<Rightarrow> string) \<Rightarrow> (nat \<Rightarrow> write_env) \<Rightarrow> string option \<Rightarrow> audit_call list \<Rightarrow> audit_db \<Rightarrow> audit_db" where
  "write_audits jt env org [] a = a"
| "write_audits jt env org (c # cs) a =
     write_audits jt (\<lambda>i. env (Suc i)) org cs (the (snd (writeAuditEntryBestEffort jt (env 0) org c (Some a))))"

text \<open>What the triggers depend on: an error of the query, the rows that could not be scanned, the answers
  of the connectors and the audit writes.\<close>

record trigger_env =
  tg_query_err :: "string option"
  tg_scans :: "string \<Rightarrow> bool"
  tg_prov :: "string \<Rightarrow> prov_env"
  tg_text :: "prov_error \<Rightarrow> string"
  tg_audit :: "nat \<Rightarrow> write_env"

definition run_trigger :: "(string \<Rightarrow> string) \<Rightarrow> trigger_env \<Rightarrow> string option
   \<Rightarrow> (string \<Rightarrow> prov_db \<Rightarrow> prov_error option \<times> prov_db \<times> remote_call list) \<Rightarrow> (string \<Rightarrow> string option \<Rightarrow> audit_call)
   \<Rightarrow> string list \<Rightarrow> life_db \<Rightarrow> life_db \<times> remote_call list" where
  "run_trigger jt env org act call apps db =
     (case run_apps act (tg_text env) call (filter (tg_scans env) apps) (prov_view db) of (pdb, calls, audits) \<Rightarrow>
        (db\<lparr>l_prov := prov_rows pdb, l_audit := write_audits jt (tg_audit env) org audits (l_audit db)\<rparr>, calls))"

definition triggerProvisioningForUser :: "(string \<Rightarrow> string) \<Rightarrow> trigger_env \<Rightarrow> string option \<Rightarrow> engine option \<Rightarrow> prov_user
   \<Rightarrow> life_db \<Rightarrow> life_db \<times> remote_call list" where
  "triggerProvisioningForUser jt env org eng user db =
     (case eng of None \<Rightarrow> (db, []) | Some e \<Rightarrow>
      if tg_query_err env \<noteq> None then (db, [])
      else run_trigger jt env org (\<lambda>app. ProvisionUser e (tg_prov env app) app user)
             (prov_audit ''provision_success'' ''provision_failed'' (pu_id user))
             (map fst (filter (\<lambda>a. snd a = pu_id user \<and> fst a \<in> set (l_enabled db)) (l_assign db))) db)"

definition triggerDeprovisioningForUser :: "(string \<Rightarrow> string) \<Rightarrow> trigger_env \<Rightarrow> string option \<Rightarrow> engine \<Rightarrow> string
   \<Rightarrow> life_db \<Rightarrow> life_db \<times> remote_call list" where
  "triggerDeprovisioningForUser jt env org e userID db =
     (if tg_query_err env \<noteq> None then (db, [])
      else run_trigger jt env org (\<lambda>app. DeprovisionUser e (tg_prov env app) app userID)
             (prov_audit ''deprovision_success'' ''deprovision_failed'' userID)
             (map ps_app (filter (\<lambda>r. ps_user r = userID \<and> ps_status r = StatusProvisioned) (l_prov db))) db)"

section \<open>Offboarding\<close>

record wipe_env =
  wp_has_db :: bool
  wp_query_err :: "string option"
  wp_scan_fails :: "nat \<Rightarrow> bool"
  wp_rows_end :: "nat option"
  wp_wipe :: "string \<Rightarrow> string option"

text \<open>\<open>wipeUserDevices\<close>: the devices a wipe was sent to, the failures, and the warnings.\<close>

record wipe_result =
  wr_attempted :: "string list"
  wr_wiped :: nat
  wr_failed :: nat
  wr_warnings :: "string list"

definition wipeUserDevices :: "wipe_env \<Rightarrow> string \<Rightarrow> life_db \<Rightarrow> wipe_result" where
  "wipeUserDevices env userID db =
     (let rows = map snd (filter (\<lambda>m. fst m = userID) (l_mapping db));
          seen = (case wp_rows_end env of Some k \<Rightarrow> take k rows | None \<Rightarrow> rows);
          ids = (if \<not> wp_has_db env \<or> wp_query_err env \<noteq> None then []
                 else map snd (filter (\<lambda>x. \<not> wp_scan_fails env (fst x)) (enumerate 0 seen)));
          failed = length (filter (\<lambda>d. wp_wipe env d \<noteq> None) ids)
      in \<lparr>wr_attempted = ids, wr_wiped = length ids - failed, wr_failed = failed,
          wr_warnings = (if \<not> wp_has_db env then []
                         else if wp_query_err env \<noteq> None then [''failed to look up user devices'']
                         else if wp_rows_end env \<noteq> None then [''failed to read user devices''] else [])
                      @ (if failed > 0 then [''failed to wipe one or more devices''] else [])\<rparr>)"

definition requireUserInCallerOrg ::
  "bool \<Rightarrow> string option \<Rightarrow> org_row list \<Rightarrow> org_context option \<Rightarrow> string \<Rightarrow> 'b response option" where
  "requireUserInCallerOrg has_db err rows oc userID =
     RequireResourceInCallerOrg has_db err rows oc ''users'' ''keycloak_user_id'' userID ''user not found''"

definition org_rows_of :: "life_db \<Rightarrow> org_row list" where
  "org_rows_of db = map (\<lambda>u. \<lparr>or_table = ''users'', or_id = lu_id u, or_org = lu_org u\<rparr>) (l_users db)"

definition disable_local :: "string option \<Rightarrow> string \<Rightarrow> life_db \<Rightarrow> life_db" where
  "disable_local err userID db =
     (case err of Some _ \<Rightarrow> db
      | None \<Rightarrow> db\<lparr>l_users := update_where (\<lambda>u. lu_id u = userID) (\<lambda>u. u\<lparr>lu_disabled := True\<rparr>) (l_users db)\<rparr>)"

record offboard_env =
  of_oc :: "org_context option"
  of_actor :: string
  of_has_db :: bool
  of_gate_err :: "string option"
  of_kc_disable :: kc_env
  of_kc_logout :: kc_env
  of_local_err :: "string option"
  of_wipe :: wipe_env
  of_engine :: "engine option"
  of_trigger :: trigger_env
  of_audit :: write_env
  of_notifier :: bool

record offboard_response =
  fr_user :: string
  fr_sessions_terminated :: bool
  fr_session_error :: string
  fr_wiped :: nat
  fr_failed :: nat
  fr_warnings :: "string list"

record offboard_effects =
  fe_ended :: "string list"
  fe_wipes :: "string list"
  fe_remote :: "remote_call list"
  fe_notified :: bool

definition no_effects :: offboard_effects where
  "no_effects = \<lparr>fe_ended = [], fe_wipes = [], fe_remote = [], fe_notified = False\<rparr>"

definition offboard_audit :: "string \<Rightarrow> string \<Rightarrow> wipe_result \<Rightarrow> audit_call" where
  "offboard_audit actorID userID wr =
     \<lparr>ac_actor = actorID, ac_action = ''offboard'', ac_target_type = ''user'', ac_target_id = userID,
      ac_details = Some (JObj [(''devices_wiped'', JInt (int (wr_wiped wr))), (''devices_failed'', JInt (int (wr_failed wr)))])\<rparr>"

text \<open>The steps after the gates, each of which goes on whatever the one before did: disable in Keycloak and
  then locally, end the sessions, wipe the devices, deactivate the remote accounts, write the audit row.\<close>

definition offboard_disable :: "offboard_env \<Rightarrow> string \<Rightarrow> idp \<times> life_db \<Rightarrow> bool \<times> string list \<times> idp \<times> life_db" where
  "offboard_disable env userID s =
     (case DisableUser (of_kc_disable env) userID (fst s) of
        (Some _, kc) \<Rightarrow> (True, [''failed to disable user in identity provider''], kc, snd s)
      | (None, kc) \<Rightarrow>
          if \<not> of_has_db env then (False, [], kc, snd s)
          else (False, if of_local_err env \<noteq> None then [''failed to mark user disabled locally''] else [],
                kc, disable_local (of_local_err env) userID (snd s)))"

definition offboard_deprovision :: "(string \<Rightarrow> string) \<Rightarrow> offboard_env \<Rightarrow> string \<Rightarrow> life_db \<Rightarrow> life_db \<times> remote_call list" where
  "offboard_deprovision jt env userID db =
     (case of_engine env of None \<Rightarrow> (db, [])
      | Some e \<Rightarrow> if of_has_db env then triggerDeprovisioningForUser jt (of_trigger env) (map_option oc_org (of_oc env)) e userID db
                 else (db, []))"

definition offboard_log :: "(string \<Rightarrow> string) \<Rightarrow> offboard_env \<Rightarrow> string \<Rightarrow> wipe_result \<Rightarrow> life_db \<Rightarrow> life_db \<times> string list" where
  "offboard_log jt env userID wr db =
     (if \<not> of_has_db env then (db, [])
      else case writeAuditEntryBestEffort jt (of_audit env) (map_option oc_org (of_oc env)) (offboard_audit (of_actor env) userID wr)
                  (Some (l_audit db)) of
        (Inl _, a) \<Rightarrow> (db\<lparr>l_audit := the a\<rparr>, [''failed to write offboard audit log''])
      | (Inr _, a) \<Rightarrow> (db\<lparr>l_audit := the a\<rparr>, []))"

definition offboard_steps :: "(string \<Rightarrow> string) \<Rightarrow> offboard_env \<Rightarrow> string \<Rightarrow> idp \<times> life_db
   \<Rightarrow> offboard_response response \<times> offboard_effects \<times> idp \<times> life_db" where
  "offboard_steps jt env userID s =
     (let (disableFailed, w1, kc, db1) = offboard_disable env userID s;
          (logout_err, ended) = LogoutAllSessions (of_kc_logout env) userID;
          w2 = (if logout_err \<noteq> None then [''failed to terminate user sessions''] else []);
          wr = wipeUserDevices (of_wipe env) userID db1;
          (db2, remote) = offboard_deprovision jt env userID db1;
          (db3, w3) = offboard_log jt env userID wr db2
      in (RespondJSON (if disableFailed then 502 else 200)
            \<lparr>fr_user = userID, fr_sessions_terminated = (logout_err = None),
             fr_session_error = (if logout_err = None then [] else ''session termination failed''),
             fr_wiped = wr_wiped wr, fr_failed = wr_failed wr, fr_warnings = w1 @ w2 @ wr_warnings wr @ w3\<rparr>,
          \<lparr>fe_ended = ended, fe_wipes = wr_attempted wr, fe_remote = remote, fe_notified = of_notifier env\<rparr>,
          kc, db3))"

definition Offboard :: "(string \<Rightarrow> string) \<Rightarrow> offboard_env \<Rightarrow> string \<Rightarrow> idp \<times> life_db
   \<Rightarrow> offboard_response response \<times> offboard_effects \<times> idp \<times> life_db" where
  "Offboard jt env userID s =
     (case ValidateUserID userID of Some e \<Rightarrow> (RespondError 400 (id_error_text ''user id'' e), no_effects, s) | None \<Rightarrow>
      case requireUserInCallerOrg (of_has_db env) (of_gate_err env) (org_rows_of (snd s)) (of_oc env) userID of
        Some r \<Rightarrow> (r, no_effects, s)
      | None \<Rightarrow> offboard_steps jt env userID s)"

section \<open>What an audit write does to the log\<close>

text \<open>The row a successful call appends.\<close>

definition audit_row_of :: "(string \<Rightarrow> string) \<Rightarrow> write_env \<Rightarrow> string \<Rightarrow> audit_call \<Rightarrow> audit_db \<Rightarrow> audit_row \<Rightarrow> bool" where
  "audit_row_of jt env org c a r \<longleftrightarrow> (\<exists>h. chainHead None a = Inr h \<and>
     r = written_row jt env org (ac_actor c) (ac_action c) (ac_target_type c) (ac_target_id c) (ac_details c) h (next_seq a))"

lemma audit_row_of_fields:
  "audit_row_of jt env org c a r \<Longrightarrow> al_org r = org \<and> al_actor r = ac_actor c \<and> al_action r = ac_action c
     \<and> al_target_type r = Some (ac_target_type c) \<and> al_target_id r = Some (ac_target_id c)"
  by (auto simp: audit_row_of_def written_row_def)

lemma writeAuditEntry_cases:
  fixes jt env oc c a
  defines "W \<equiv> writeAuditEntry jt env oc c (Some a)"
  obtains (failed) e n where "W = (Inl e, Some (a\<lparr>next_seq := n\<rparr>))" "next_seq a \<le> n"
  | (written) r where "W = (Inr (), Some (a\<lparr>next_seq := next_seq a + 1, logs := logs a @ [r]\<rparr>))"
      "audit_row_of jt env (auditOrgIDFromContext oc) c a r"
proof -
  let ?w = "WriteEntry jt env (auditOrgIDFromContext oc) (ac_actor c) (ac_action c) (ac_target_type c) (ac_target_id c) (ac_details c) a"
  have W: "W = (fst ?w, Some (snd ?w))" by (simp add: W_def writeAuditEntry_def split: prod.splits)
  have id: "a = a\<lparr>next_seq := next_seq a\<rparr>" by simp
  from WriteEntry_outcome [of jt env "auditOrgIDFromContext oc" "ac_actor c" "ac_action c" "ac_target_type c" "ac_target_id c" "ac_details c" a]
  show ?thesis
    using failed written W id unfolding audit_row_of_def by (metis fst_conv snd_conv order_refl zle_add1_eq_le zless_add1_eq)
qed

lemma best_effort_eq: "writeAuditEntryBestEffort jt env oc c (Some a) = writeAuditEntry jt env oc c (Some a)"
  by (simp add: writeAuditEntryBestEffort_def writeAuditEntryWithOrg_def writeAuditEntry_def auditOrgIDFromContext_def
      DefaultOrgID_def split: option.splits)

lemma audit_write_chain_inv:
  "chain_inv jt a \<Longrightarrow> chain_inv jt (the (snd (writeAuditEntry jt env oc c (Some a))))"
  by (simp add: writeAuditEntry_def WriteEntry_chain_inv split_beta)

lemma write_audits_chain_inv: "chain_inv jt a \<Longrightarrow> chain_inv jt (write_audits jt env org cs a)"
  by (induction cs arbitrary: a env) (simp_all add: best_effort_eq audit_write_chain_inv)

section \<open>Onboarding is all or nothing\<close>

text \<open>Everything a caller can see of the database, without the position of the audit sequence.\<close>

definition same_data :: "life_db \<Rightarrow> life_db \<Rightarrow> bool" where
  "same_data db db' \<longleftrightarrow> (\<exists>n \<ge> next_seq (l_audit db). db' = db\<lparr>l_audit := l_audit db\<lparr>next_seq := n\<rparr>\<rparr>)"

lemma same_data_refl [simp]: "same_data db db"
  by (auto simp: same_data_def intro!: exI [of _ "next_seq (l_audit db)"])

lemma same_data_fields:
  "same_data db db' \<Longrightarrow> l_users db' = l_users db \<and> l_members db' = l_members db \<and> l_tokens db' = l_tokens db
     \<and> logs (l_audit db') = logs (l_audit db)"
  by (auto simp: same_data_def)

definition onboarded_user :: "string \<Rightarrow> string \<Rightarrow> onboard_request \<Rightarrow> life_user" where
  "onboarded_user i org req = \<lparr>lu_id = i, lu_email = ob_email req, lu_first = ob_first req, lu_last = ob_last req,
     lu_department = ob_department req, lu_role = ob_role req, lu_org = org, lu_disabled = False\<rparr>"

text \<open>What a successful onboarding leaves behind.\<close>

definition onboarded :: "string \<Rightarrow> string \<Rightarrow> string \<Rightarrow> onboard_request \<Rightarrow> life_db \<Rightarrow> life_db \<Rightarrow> bool" where
  "onboarded i org actor req db db' \<longleftrightarrow>
     \<not> user_conflict i (ob_email req) db
   \<and> l_users db' = l_users db @ [onboarded_user i org req]
   \<and> (\<exists>m \<in> set (l_members db'). mb_user m = i \<and> mb_org m = org)
   \<and> set (l_members db) \<subseteq> set (l_members db')
   \<and> (\<exists>r. logs (l_audit db') = logs (l_audit db) @ [r] \<and> al_action r = ''onboard'' \<and> al_actor r = actor \<and> al_target_id r = Some i)"

lemma same_data_gap: "next_seq (l_audit db) \<le> n \<Longrightarrow> same_data db (db\<lparr>l_audit := l_audit db\<lparr>next_seq := n\<rparr>\<rparr>)"
  by (auto simp: same_data_def)

lemma persistOnboard_failed:
  assumes "persistOnboard jt env oc i req actor d token org db = (Some e, db')"
  shows "same_data db db'"
proof -
  let ?c = "\<lparr>ac_actor = actor, ac_action = ''onboard'', ac_target_type = ''user'', ac_target_id = i, ac_details = Some d\<rparr>"
  show ?thesis
    by (cases rule: writeAuditEntry_cases [of jt "pz_audit env" oc ?c "l_audit db"]; use assms in
      \<open>auto simp: persistOnboard_def rollback_to_def Let_def same_data_gap split: option.splits if_splits\<close>)
qed

lemma persistOnboard_ok:
  assumes "persistOnboard jt env oc i req actor d token org db = (None, db')"
  shows "onboarded i org actor req db db'"
proof -
  let ?c = "\<lparr>ac_actor = actor, ac_action = ''onboard'', ac_target_type = ''user'', ac_target_id = i, ac_details = Some d\<rparr>"
  show ?thesis
  proof (cases rule: writeAuditEntry_cases [of jt "pz_audit env" oc ?c "l_audit db"])
    case (failed e n)
    then show ?thesis using assms by (auto simp: persistOnboard_def split: option.splits if_splits)
  next
    case (written r)
    then show ?thesis
      using assms audit_row_of_fields [OF written(2)]
      by (auto simp: persistOnboard_def onboarded_def onboarded_user_def Let_def list_ex_iff split: option.splits if_splits)
  qed
qed

text \<open>The identity provider hands out new identifiers, sets the password and answers the compensating
  delete.\<close>

definition idp_cooperates :: "onboard_env \<Rightarrow> idp \<Rightarrow> bool" where
  "idp_cooperates env kc \<longleftrightarrow>
     kc_password (og_kc env) = None \<and> kc_login (og_kc_delete env) = None \<and> kc_delete (og_kc_delete env) = None
   \<and> (case kc_create (og_kc env) of Inl _ \<Rightarrow> True
      | Inr i \<Rightarrow> i \<noteq> [] \<and> i \<notin> fst ` set (kc_users kc) \<and> i \<notin> fst ` set (kc_members kc))"

lemma filter_other_id: "i \<notin> fst ` set xs \<Longrightarrow> filter (\<lambda>x. fst x \<noteq> i) xs = xs"
  by (auto simp: filter_id_conv)

lemma join_department_members:
  "\<exists>gs. join_department env i dept kc = kc\<lparr>kc_members := kc_members kc @ map (Pair i) gs\<rparr>"
proof -
  have "join_department env i dept kc = kc \<or> (\<exists>g. join_department env i dept kc = kc\<lparr>kc_members := kc_members kc @ [(i, g)]\<rparr>)"
    by (auto simp: join_department_def split: sum.split option.split)
  then show ?thesis
  proof
    assume "join_department env i dept kc = kc"
    then show ?thesis by (intro exI [of _ "[]"]) simp
  next
    assume "\<exists>g. join_department env i dept kc = kc\<lparr>kc_members := kc_members kc @ [(i, g)]\<rparr>"
    then obtain g where "join_department env i dept kc = kc\<lparr>kc_members := kc_members kc @ [(i, g)]\<rparr>" ..
    then show ?thesis by (intro exI [of _ "[g]"]) simp
  qed
qed

lemma CreateUser_cases:
  assumes "idp_cooperates env kc"
  obtains (failed) e where "CreateUser (og_kc env) dept kc = (Inl e, kc)"
  | (created) res kc1 where "CreateUser (og_kc env) dept kc = (Inr res, kc1)" "cr_password_set res" "cr_id res \<noteq> []"
      "kc_users kc1 = kc_users kc @ [(cr_id res, True)]" "DeleteUser (og_kc_delete env) (cr_id res) kc1 = (None, kc)"
proof (cases "kc_login (og_kc env) = None \<and> (\<exists>i. kc_create (og_kc env) = Inr i)")
  case False
  then have "\<exists>e. CreateUser (og_kc env) dept kc = (Inl e, kc)"
    by (cases "kc_create (og_kc env)") (auto simp: CreateUser_def split: option.splits)
  with failed show ?thesis by blast
next
  case True
  then obtain i where l: "kc_login (og_kc env) = None" and i: "kc_create (og_kc env) = Inr i" by auto
  let ?kc = "kc\<lparr>kc_users := kc_users kc @ [(i, True)]\<rparr>"
  obtain gs where gs: "join_department (og_kc env) i dept ?kc = ?kc\<lparr>kc_members := kc_members ?kc @ map (Pair i) gs\<rparr>"
    using join_department_members by blast
  have fresh: "i \<noteq> []" "filter (\<lambda>x. fst x \<noteq> i) (kc_users kc) = kc_users kc"
      "filter (\<lambda>x. fst x \<noteq> i) (kc_members kc) = kc_members kc"
    using assms i by (simp_all add: idp_cooperates_def filter_other_id)
  have none: "filter (\<lambda>x. fst x \<noteq> i) (map (Pair i) gs) = []" by simp
  from l i assms gs have "\<exists>res. CreateUser (og_kc env) dept kc = (Inr res, ?kc\<lparr>kc_members := kc_members ?kc @ map (Pair i) gs\<rparr>)
      \<and> cr_id res = i \<and> cr_password_set res"
    by (simp add: CreateUser_def idp_cooperates_def)
  then obtain res where c: "CreateUser (og_kc env) dept kc = (Inr res, ?kc\<lparr>kc_members := kc_members ?kc @ map (Pair i) gs\<rparr>)"
      "cr_id res = i" "cr_password_set res" by blast
  have "DeleteUser (og_kc_delete env) i (?kc\<lparr>kc_members := kc_members ?kc @ map (Pair i) gs\<rparr>) = (None, kc)"
    using assms none by (simp add: DeleteUser_def idp_cooperates_def fresh)
  then show ?thesis
    using created [OF c(1)] c(2, 3) fresh(1) by simp
qed

lemma onboard_pipeline_atomic:
  assumes ok: "idp_cooperates env kc" and db: "og_has_db env"
    and run: "onboard_pipeline jt env org actor d req (kc, db) = (out, kc', db')"
  shows "case out of
     Inl _ \<Rightarrow> kc' = kc \<and> same_data db db'
   | Inr (res, _) \<Rightarrow> onboarded (cr_id res) org actor req db db' \<and> kc_users kc' = kc_users kc @ [(cr_id res, True)]"
  using ok
proof (cases rule: CreateUser_cases [where dept = "ob_department req"])
  case (failed e)
  then show ?thesis using run by (auto simp: onboard_pipeline_def)
next
  case (created res kc1)
  let ?p = "persistOnboard jt (og_persist env) None (cr_id res) req actor d (case og_fleet env of Inl _ \<Rightarrow> [] | Inr t \<Rightarrow> t) org db"
  show ?thesis
  proof (cases "fst ?p")
    case None
    then obtain db1 where p: "?p = (None, db1)" by (metis prod.collapse)
    with run created db have "out = Inr (res, case og_fleet env of Inl _ \<Rightarrow> [] | Inr t \<Rightarrow> t)" "db' = db1" "kc' = kc1"
      by (simp_all add: onboard_pipeline_def Let_def)
    then show ?thesis using persistOnboard_ok [OF p] created by simp
  next
    case (Some e)
    then obtain db1 where p: "?p = (Some e, db1)" by (metis prod.collapse)
    with run created db have "out = Inl (Persist_error e)" "db' = db1" "kc' = kc"
      by (simp_all add: onboard_pipeline_def Let_def)
    then show ?thesis using persistOnboard_failed [OF p] by simp
  qed
qed

text \<open>C7. Onboarding is all or nothing across the identity provider and the database, provided the provider
  sets the password, hands out an id it has not handed out before and answers the compensating delete.  A request that answers with success has created
  one enabled account, its user row in the organisation of the caller, its membership and its audit row
  together; one that answers with an error leaves accounts, users, memberships, tokens and log as they
  were, whatever the step that failed.\<close>

theorem onboard_all_or_nothing:
  assumes "idp_cooperates (oq_env c) kc" "og_has_db (oq_env c)" "oq_oc c = Some oc" "oq_request c = Some raw"
    and run: "Onboard jt c (kc, db) = (resp, kc', db')"
  shows "(success resp \<and> (\<exists>i. onboarded i (oc_org oc) (oq_actor c) (normalise_onboard raw) db db'
              \<and> kc_users kc' = kc_users kc @ [(i, True)]))
       \<or> (\<not> success resp \<and> kc' = kc \<and> same_data db db')"
proof -
  let ?req = "normalise_onboard raw"
  let ?d = "JObj [(''email'', JStr (ob_email ?req)), (''department'', JStr (ob_department ?req)), (''role'', JStr (ob_role ?req))]"
  obtain out kc1 db1 where p: "onboard_pipeline jt (oq_env c) (oc_org oc) (oq_actor c) ?d ?req (kc, db) = (out, kc1, db1)"
    by (metis prod.collapse)
  from onboard_pipeline_atomic [OF assms(1, 2) p] run p assms(2-4) show ?thesis
    by (auto simp: Onboard_def Let_def split: if_splits query.splits sum.splits)
qed

definition sample_write_env :: write_env where
  "sample_write_env = \<lparr>we_begin = None, we_lock = None, we_head = None, we_canonicalise = None, we_insert = None,
     we_commit = None, tx_now = 5000\<rparr>"

definition sample_kc_env :: kc_env where
  "sample_kc_env = \<lparr>kc_login = None, kc_create = Inr ''u1'', kc_password = None, kc_email = None, kc_groups = Inr [],
     kc_join = None, kc_get = None, kc_update = None, kc_delete = None, kc_sessions = Inr [Some ''s1''], kc_logout = (\<lambda>_. None)\<rparr>"

definition sample_persist_env :: persist_env where
  "sample_persist_env = \<lparr>pz_begin = None, pz_user = None, pz_member = None, pz_audit = sample_write_env, pz_token = None,
     pz_commit = Some ''connection lost'', pz_now = 5000\<rparr>"

definition sample_onboard :: onboard_call where
  "sample_onboard = \<lparr>oq_request = Some \<lparr>ob_first = ''Ada'', ob_last = ''L'', ob_email = ''a@b.co'', ob_department = [], ob_role = []\<rparr>,
     oq_actor = ''op'', oq_oc = Some \<lparr>oc_org = ''o1'', oc_role = ''admin''\<rparr>, oq_lookup_err = None,
     oq_env = \<lparr>og_kc = sample_kc_env, og_kc_delete = sample_kc_env, og_fleet = Inr ''tok'', og_has_db = True,
               og_persist = sample_persist_env\<rparr>\<rparr>"

definition empty_life :: life_db where
  "empty_life = \<lparr>l_users = [], l_members = [], l_tokens = [], l_mapping = [], l_prov = [], l_assign = [], l_enabled = [],
     l_audit = empty_audit_db\<rparr>"

theorem onboard_all_or_nothing_witness:
  "\<exists>kc' db' resp. Onboard (\<lambda>b. b) sample_onboard (\<lparr>kc_users = [], kc_members = []\<rparr>, empty_life) = (resp, kc', db')
     \<and> (success resp \<or> kc' = \<lparr>kc_users = [], kc_members = []\<rparr>)"
proof -
  let ?kc = "\<lparr>kc_users = [], kc_members = []\<rparr>"
  obtain resp kc' db' where run: "Onboard (\<lambda>b. b) sample_onboard (?kc, empty_life) = (resp, kc', db')"
    by (metis prod.collapse)
  from onboard_all_or_nothing [OF _ _ _ _ run] show ?thesis
    using run by (auto simp: sample_onboard_def idp_cooperates_def sample_kc_env_def)
qed

section \<open>Offboarding\<close>

definition kc_disabled :: "string \<Rightarrow> idp \<Rightarrow> bool" where
  "kc_disabled i kc \<longleftrightarrow> list_all (\<lambda>u. fst u = i \<longrightarrow> \<not> snd u) (kc_users kc)"

lemma DisableUser_outcome:
  "(\<exists>e. DisableUser env i kc = (Some e, kc)) \<or> (\<exists>kc'. DisableUser env i kc = (None, kc') \<and> kc_disabled i kc')"
  by (auto simp: DisableUser_def kc_disabled_def list_all_iff split: option.splits)

lemma triggerDeprovisioning_frame:
  "l_users (fst (triggerDeprovisioningForUser jt env org e i db)) = l_users db"
  by (simp add: triggerDeprovisioningForUser_def run_trigger_def split: prod.splits)

lemma wipe_mapping: "l_mapping db = l_mapping db' \<Longrightarrow> wipeUserDevices env i db = wipeUserDevices env i db'"
  by (simp add: wipeUserDevices_def)

lemma disable_local_frame [simp]: "l_mapping (disable_local err i db) = l_mapping db"
  by (simp add: disable_local_def split: option.split)

lemma offboard_deprovision_users [simp]: "l_users (fst (offboard_deprovision jt env i db)) = l_users db"
  by (simp add: offboard_deprovision_def triggerDeprovisioning_frame split: option.split)

lemma offboard_log_users [simp]: "l_users (fst (offboard_log jt env i wr db)) = l_users db"
  by (simp add: offboard_log_def split: prod.split sum.split)

text \<open>The two ends of the disable step.\<close>

lemma offboard_disable_outcome:
  "(\<exists>w. offboard_disable env i (kc, db) = (True, w, kc, db))
   \<or> (\<exists>w kc'. kc_disabled i kc' \<and> offboard_disable env i (kc, db)
        = (False, w, kc', if of_has_db env then disable_local (of_local_err env) i db else db))"
  using DisableUser_outcome [of "of_kc_disable env" i kc] by (auto simp: offboard_disable_def)

lemma offboard_steps_outcome:
  assumes "offboard_steps jt env i (kc, db) = (resp, eff, kc', db')"
  shows "fe_wipes eff = wr_attempted (wipeUserDevices (of_wipe env) i db)
    \<and> (status_of resp = 502 \<and> kc' = kc \<and> l_users db' = l_users db
       \<or> status_of resp = 200 \<and> kc_disabled i kc'
         \<and> l_users db' = (if of_has_db env then l_users (disable_local (of_local_err env) i db) else l_users db))"
  using offboard_disable_outcome [of env i kc db]
proof (elim disjE exE conjE)
  fix w assume "offboard_disable env i (kc, db) = (True, w, kc, db)"
  then show ?thesis using assms by (auto simp: offboard_steps_def Let_def split_beta)
next
  fix w kc1 assume d: "kc_disabled i kc1" "offboard_disable env i (kc, db)
        = (False, w, kc1, if of_has_db env then disable_local (of_local_err env) i db else db)"
  moreover have "wipeUserDevices (of_wipe env) i (disable_local (of_local_err env) i db) = wipeUserDevices (of_wipe env) i db"
    by (rule wipe_mapping) simp
  ultimately show ?thesis using assms by (auto simp: offboard_steps_def Let_def split_beta)
qed

definition devices_of_user :: "string \<Rightarrow> life_db \<Rightarrow> string list" where
  "devices_of_user i db = map snd (filter (\<lambda>m. fst m = i) (l_mapping db))"

definition devices_readable :: "wipe_env \<Rightarrow> nat \<Rightarrow> bool" where
  "devices_readable env n \<longleftrightarrow> wp_has_db env \<and> wp_query_err env = None \<and> wp_rows_end env = None
     \<and> list_all (\<lambda>k. \<not> wp_scan_fails env k) [0..<n]"

lemma wipe_all_read:
  assumes "devices_readable env (length (devices_of_user i db))"
  shows "wr_attempted (wipeUserDevices env i db) = devices_of_user i db"
proof -
  have "map snd (filter (\<lambda>x. \<not> wp_scan_fails env (fst x)) (enumerate 0 xs)) = xs"
    if "list_all (\<lambda>k. \<not> wp_scan_fails env k) [0..<length xs]" for xs :: "string list"
  proof -
    have "filter (\<lambda>x. \<not> wp_scan_fails env (fst x)) (enumerate 0 xs) = enumerate 0 xs"
      using that by (auto simp: filter_id_conv in_set_enumerate_eq list_all_iff)
    then show ?thesis by simp
  qed
  then show ?thesis
    using assms by (simp add: wipeUserDevices_def Let_def devices_readable_def devices_of_user_def)
qed

text \<open>A request to offboard is refused before anything happens, or its target has a row in the organisation of the caller and the steps run.\<close>

lemma Offboard_cases:
  assumes "Offboard jt env i (kc, db) = (resp, eff, kc', db')"
  obtains (refused) "eff = no_effects" "kc' = kc" "db' = db" "status_of resp \<notin> {200, 502}"
  | (steps) oc u where "of_oc env = Some oc" "u \<in> set (l_users db)" "lu_id u = i" "lu_org u = oc_org oc" "of_has_db env"
      "offboard_steps jt env i (kc, db) = (resp, eff, kc', db')"
proof (cases "ValidateUserID i = None
    \<and> requireUserInCallerOrg (of_has_db env) (of_gate_err env) (org_rows_of db) (of_oc env) i = (None :: offboard_response response option)")
  case True
  obtain oc where oc: "of_oc env = Some oc" "org_owns ''users'' (org_rows_of db) oc i"
    using True resource_gate.gate_owns [of "of_has_db env" "of_gate_err env" "org_rows_of db" "of_oc env" "''users''" "''keycloak_user_id''" i]
    unfolding requireUserInCallerOrg_def by blast
  then obtain u where "u \<in> set (l_users db)" "lu_id u = i" "lu_org u = oc_org oc"
    by (auto simp: org_owns_def org_rows_of_def list_ex_iff)
  moreover have "of_has_db env"
    using True oc by (cases "of_has_db env")
      (auto simp: requireUserInCallerOrg_def RequireResourceInCallerOrg_def CheckResourceInOrg_def)
  ultimately show ?thesis using steps oc True assms by (simp add: Offboard_def)
next
  case False
  have "status_of r \<in> {403, 404, 500}" if "requireUserInCallerOrg has_db err rows oc i = Some r" for r :: "offboard_response response" and has_db err rows oc
    using that by (auto simp: requireUserInCallerOrg_def RequireResourceInCallerOrg_def split: option.splits sum.splits if_splits)
  with False assms refused show ?thesis by (fastforce simp: Offboard_def split: option.splits)
qed

text \<open>C8. The panic button never splits the two directories and never touches a foreign user.  Nothing at all
  happens unless the target has a row in the organisation of the caller.  Otherwise the answer is 200
  exactly when Keycloak has disabled the account, and only then is the local row disabled; on 502 neither
  side has changed.  Either way, when the list of devices can be read, every device of the user has been
  sent a wipe.\<close>

theorem offboard_consistent:
  assumes "Offboard jt env i (kc, db) = (resp, eff, kc', db')"
  shows "(eff = no_effects \<and> kc' = kc \<and> db' = db \<and> status_of resp \<notin> {200, 502})
   \<or> (\<exists>oc u. of_oc env = Some oc \<and> u \<in> set (l_users db) \<and> lu_id u = i \<and> lu_org u = oc_org oc)
     \<and> (status_of resp = 200 \<and> kc_disabled i kc' \<and> l_users db' = l_users (disable_local (of_local_err env) i db)
        \<or> status_of resp = 502 \<and> kc' = kc \<and> l_users db' = l_users db)
     \<and> (devices_readable (of_wipe env) (length (devices_of_user i db)) \<longrightarrow> fe_wipes eff = devices_of_user i db)"
  using assms
proof (cases rule: Offboard_cases)
  case (steps oc u)
  then show ?thesis using offboard_steps_outcome [OF steps(6)] wipe_all_read [of "of_wipe env" i db] by auto
qed auto


definition sample_offboard :: offboard_env where
  "sample_offboard = \<lparr>of_oc = Some \<lparr>oc_org = ''o1'', oc_role = ''admin''\<rparr>, of_actor = ''op'', of_has_db = True, of_gate_err = None,
     of_kc_disable = sample_kc_env, of_kc_logout = sample_kc_env, of_local_err = None,
     of_wipe = \<lparr>wp_has_db = True, wp_query_err = None, wp_scan_fails = (\<lambda>_. False), wp_rows_end = None, wp_wipe = (\<lambda>_. None)\<rparr>,
     of_engine = None,
     of_trigger = \<lparr>tg_query_err = None, tg_scans = (\<lambda>_. True), tg_prov = (\<lambda>_. sample_prov_env 5000), tg_text = (\<lambda>_. []), tg_audit = (\<lambda>_. sample_write_env)\<rparr>,
     of_audit = sample_write_env, of_notifier = False\<rparr>"

definition sample_uuid :: string where
  "sample_uuid = ''3f2504e0-4f89-11d3-9a0c-0305e82c3301''"

definition sample_life :: life_db where
  "sample_life = empty_life\<lparr>l_users := [onboarded_user sample_uuid ''o1'' \<lparr>ob_first = ''A'', ob_last = ''L'', ob_email = ''a@b.co'',
       ob_department = [], ob_role = []\<rparr>], l_mapping := [(sample_uuid, ''host1''), (''u2'', ''host2''), (sample_uuid, ''host3'')]\<rparr>"

theorem offboard_consistent_witness:
  "\<exists>resp eff kc' db'. Offboard (\<lambda>b. b) sample_offboard sample_uuid (\<lparr>kc_users = [(sample_uuid, True)], kc_members = []\<rparr>, sample_life)
       = (resp, eff, kc', db') \<and> status_of resp \<in> {200, 502} \<and> fe_wipes eff = [''host1'', ''host3'']"
proof -
  let ?s = "(\<lparr>kc_users = [(sample_uuid, True)], kc_members = []\<rparr>, sample_life)"
  obtain resp eff kc' db' where run: "Offboard (\<lambda>b. b) sample_offboard sample_uuid ?s = (resp, eff, kc', db')"
    by (metis prod.collapse)
  have "ValidateUserID sample_uuid = None" unfolding sample_uuid_def by code_simp
  moreover have "requireUserInCallerOrg True None (org_rows_of sample_life) (Some \<lparr>oc_org = ''o1'', oc_role = ''admin''\<rparr>) sample_uuid = (None :: offboard_response response option)"
    by (simp add: requireUserInCallerOrg_def RequireResourceInCallerOrg_def CheckResourceInOrg_def allowedOrgTables_def
        select_one_def org_rows_of_def sample_life_def empty_life_def onboarded_user_def)
  ultimately have "offboard_steps (\<lambda>b. b) sample_offboard sample_uuid ?s = (resp, eff, kc', db')"
    using run by (simp add: Offboard_def sample_offboard_def)
  then have st: "status_of resp \<in> {200, 502}" using offboard_steps_outcome by blast
  have "devices_of_user sample_uuid sample_life = [''host1'', ''host3'']"
    by (simp add: devices_of_user_def sample_life_def sample_uuid_def)
  moreover have "devices_readable (of_wipe sample_offboard) n" for n
    by (simp add: devices_readable_def sample_offboard_def list_all_iff)
  ultimately show ?thesis using offboard_consistent [OF run] run st by auto
qed


section \<open>Users stay unique\<close>

definition users_unique :: "life_db \<Rightarrow> bool" where
  "users_unique db \<longleftrightarrow> distinct (map lu_id (l_users db)) \<and> distinct (map lu_email (l_users db))"

lemma persistOnboard_unique:
  assumes "users_unique db"
  shows "users_unique (snd (persistOnboard jt env oc i req actor d token org db))"
proof (cases "fst (persistOnboard jt env oc i req actor d token org db)")
  case None
  then have "onboarded i org actor req db (snd (persistOnboard jt env oc i req actor d token org db))"
    by (metis persistOnboard_ok prod.collapse)
  then show ?thesis
    using assms by (auto simp: users_unique_def onboarded_def onboarded_user_def user_conflict_def list_ex_iff)
next
  case (Some e)
  then have "same_data db (snd (persistOnboard jt env oc i req actor d token org db))"
    by (metis persistOnboard_failed prod.collapse)
  then show ?thesis using assms same_data_fields by (simp add: users_unique_def)
qed

lemma onboard_pipeline_unique:
  "users_unique (snd s) \<Longrightarrow> users_unique (snd (snd (onboard_pipeline jt env org actor d req s)))"
  by (simp add: onboard_pipeline_def Let_def case_prod_beta persistOnboard_unique split: sum.split option.split)

lemma bulk_row_unique:
  "users_unique (snd s) \<Longrightarrow> users_unique (snd (snd (bulk_row jt oc actor env raw s)))"
  by (simp add: bulk_row_def onboardOne_def Let_def case_prod_beta onboard_pipeline_unique split: sum.split option.split query.split)

lemma bulk_rows_unique:
  "users_unique (snd s) \<Longrightarrow> users_unique (snd (snd (bulk_rows jt oc actor rows s)))"
proof (induction rows arbitrary: s)
  case (Cons r rows)
  then show ?case by (cases r) (simp add: case_prod_beta bulk_row_unique)
qed simp

lemma length_bulk_rows [simp]: "length (fst (bulk_rows jt oc actor rows s)) = length rows"
proof (induction rows arbitrary: s)
  case (Cons r rows)
  then show ?case by (cases r) (simp add: case_prod_beta)
qed simp

lemma count_outcomes:
  "length outs = length (filter (\<lambda>x. x = Succeeded) outs) + length (filter (\<lambda>x. x = Skipped_duplicate) outs) + length (filter is_failed outs)"
  by (induction outs) (auto simp: is_failed_def split: row_outcome.splits)


text \<open>A bulk import never creates a second user with the identifier or the address of another one, and
  its answer accounts for every row: the rows that succeeded, were skipped or failed add up to the rows of
  the file, which are at most 500, and the answer is 200 exactly when all of them succeeded.\<close>

theorem bulk_onboard_accounts:
  assumes "users_unique db" "BulkOnboard jt oc actor (Inr rows) (kc, db) = (resp, kc', db')"
  shows "users_unique db'
    \<and> (case resp of RespondJSON st b \<Rightarrow>
          length rows \<le> maxBulkRows \<and> bs_total b = length rows
          \<and> bs_succeeded b + bs_skipped b + bs_failed b = length rows
          \<and> (st = 200 \<longleftrightarrow> bs_succeeded b = length rows) \<and> map fst (bs_results b) = [2..<2 + length rows]
       | _ \<Rightarrow> rows = [] \<or> length rows > maxBulkRows)"
proof -
  obtain outs kc1 db1 where b: "bulk_rows jt oc actor rows (kc, db) = (outs, kc1, db1)" by (metis prod.collapse)
  have "length outs = length rows" using length_bulk_rows [of jt oc actor rows "(kc, db)"] b by simp
  moreover have "users_unique db1" using bulk_rows_unique [of "(kc, db)" jt oc actor rows] b assms(1) by simp
  ultimately show ?thesis
    using assms b count_outcomes [of outs] by (auto simp: BulkOnboard_def Let_def split: if_splits)
qed

theorem bulk_onboard_accounts_witness:
  "users_unique (snd (snd (BulkOnboard (\<lambda>b. b) None ''op'' (Inr []) (\<lparr>kc_users = [], kc_members = []\<rparr>, sample_life))))"
proof -
  obtain resp kc' db' where run: "BulkOnboard (\<lambda>b. b) None ''op'' (Inr []) (\<lparr>kc_users = [], kc_members = []\<rparr>, sample_life) = (resp, kc', db')"
    by (metis prod.collapse)
  have "users_unique sample_life" by (simp add: users_unique_def sample_life_def)
  from bulk_onboard_accounts [OF this run] run show ?thesis by simp
qed

section \<open>Where the code falls short\<close>

text \<open>The audit row of an onboarding is attributed to the default organisation whatever the organisation of the
  caller is: persisting runs on a context that carries none.\<close>

lemma onboard_audit_default_org:
  assumes "onboard_pipeline jt env org actor d req (kc, db) = (Inr (res, tok), kc', db')" "og_has_db env"
  shows "\<exists>r. logs (l_audit db') = logs (l_audit db) @ [r] \<and> al_org r = DefaultOrgID"
proof -
  obtain kc1 where c: "CreateUser (og_kc env) (ob_department req) kc = (Inr res, kc1)"
    and p: "persistOnboard jt (og_persist env) None (cr_id res) req actor d tok org db = (None, db')"
    using assms by (auto simp: onboard_pipeline_def Let_def split: prod.splits sum.splits if_splits option.splits)
  let ?c = "\<lparr>ac_actor = actor, ac_action = ''onboard'', ac_target_type = ''user'', ac_target_id = cr_id res, ac_details = Some d\<rparr>"
  show ?thesis
  proof (cases rule: writeAuditEntry_cases [of jt "pz_audit (og_persist env)" None ?c "l_audit db"])
    case (failed e n)
    then show ?thesis using p by (auto simp: persistOnboard_def split: option.splits if_splits)
  next
    case (written r)
    then show ?thesis
      using p audit_row_of_fields [OF written(2)]
      by (auto simp: persistOnboard_def auditOrgIDFromContext_def Let_def split: option.splits if_splits)
  qed
qed

text \<open>When Keycloak creates the account and then refuses the password, the request fails and the account stays:
  the call returns no identifier to delete.\<close>

lemma password_failure_leaves_account:
  assumes "kc_login (og_kc env) = None" "kc_create (og_kc env) = Inr i" "kc_password (og_kc env) = Some e"
  shows "\<exists>f kc'. onboard_pipeline jt env org actor d req (kc, db) = (Inl f, kc', db) \<and> (i, True) \<in> set (kc_users kc')"
  using assms by (simp add: onboard_pipeline_def CreateUser_def)

end
