(* ===== verification/Approvals.thy ===== *)
theory Approvals
  imports Lifecycle
begin

text \<open>
  Approval requests, \<open>handlers/approvals.go\<close>: a helpdesk user submits an onboarding or an offboarding, a
  super-admin decides it, and an approval executes the action.  The handler is a sequence of database
  statements with the action in between, so concurrent decisions interleave; the step relation at the end
  lets any number of them run, each statement of the handler one step, over the same operations the
  sequential handler is composed of.
\<close>

section \<open>Data\<close>

record approval =
  aq_id :: string
  aq_action :: string
  aq_requester :: string
  aq_payload :: "(string \<times> jval) list"
  aq_status :: string
  aq_decided :: "(string \<times> time) option"
  aq_org :: string
  aq_created :: time

text \<open>The \<open>UPDATE \<dots> WHERE id = $ AND status = $\<close> of the four transitions, with the number of rows it affected.\<close>

definition transition :: "string option \<Rightarrow> string \<Rightarrow> string \<Rightarrow> string \<Rightarrow> (string \<times> time) option \<Rightarrow> approval list
   \<Rightarrow> (string + nat) \<times> approval list" where
  "transition err i old new decided rows =
     (case err of Some e \<Rightarrow> (Inl e, rows)
      | None \<Rightarrow> (Inr (rows_affected (\<lambda>r. aq_id r = i \<and> aq_status r = old) rows),
                 update_where (\<lambda>r. aq_id r = i \<and> aq_status r = old) (\<lambda>r. r\<lparr>aq_status := new, aq_decided := decided\<rparr>) rows))"

definition reject_approval :: "string option \<Rightarrow> string \<Rightarrow> string \<Rightarrow> time \<Rightarrow> approval list \<Rightarrow> (string + nat) \<times> approval list" where
  "reject_approval err actorID i now = transition err i ''pending'' ''rejected'' (Some (actorID, now))"

definition claim_approval :: "string option \<Rightarrow> string \<Rightarrow> string \<Rightarrow> time \<Rightarrow> approval list \<Rightarrow> (string + nat) \<times> approval list" where
  "claim_approval err actorID i now = transition err i ''pending'' ''executing'' (Some (actorID, now))"

definition reset_approval :: "string option \<Rightarrow> string \<Rightarrow> approval list \<Rightarrow> (string + nat) \<times> approval list" where
  "reset_approval err i = transition err i ''executing'' ''pending'' None"

definition finish_approval :: "string option \<Rightarrow> string \<Rightarrow> string \<Rightarrow> time \<Rightarrow> approval list \<Rightarrow> (string + nat) \<times> approval list" where
  "finish_approval err actorID i now = transition err i ''executing'' ''approved'' (Some (actorID, now))"

section \<open>SubmitApproval and ListApprovalRequests\<close>

record submit_env =
  sb_actor :: string
  sb_has_db :: bool
  sb_oc :: "org_context option"
  sb_insert :: "string + string"
  sb_audit :: write_env
  sb_now :: time

definition approval_audit :: "string \<Rightarrow> string \<Rightarrow> string \<Rightarrow> (string \<times> jval) list \<Rightarrow> audit_call" where
  "approval_audit actorID act i details =
     \<lparr>ac_actor = actorID, ac_action = act, ac_target_type = ''approval_request'', ac_target_id = i, ac_details = Some (JObj details)\<rparr>"

text \<open>A best-effort audit write whose failure is only logged.\<close>

definition audit_logged :: "(string \<Rightarrow> string) \<Rightarrow> write_env \<Rightarrow> org_context option \<Rightarrow> audit_call \<Rightarrow> life_db \<Rightarrow> life_db" where
  "audit_logged jt env oc c db =
     db\<lparr>l_audit := log_best_effort jt env oc c (l_audit db)\<rparr>"

text \<open>The body: the action and the payload, which is absent when it is missing or \<open>null\<close>.  The identifier is
  drawn by the database.\<close>

definition SubmitApproval :: "(string \<Rightarrow> string) \<Rightarrow> submit_env \<Rightarrow> (string \<times> (string \<times> jval) list option) option
   \<Rightarrow> approval list \<times> life_db \<Rightarrow> (string \<times> string) response \<times> approval list \<times> life_db" where
  "SubmitApproval jt env body s =
     (case body of None \<Rightarrow> (RespondError 400 ''invalid request body'', s) | Some (act, payload) \<Rightarrow>
      (let act = trim_space act in
       if act \<noteq> ''onboard'' \<and> act \<noteq> ''offboard'' then (RespondError 400 (''actionType must be 'onboard' or 'offboard'' @ [CHR 0x27]), s)
       else case payload of None \<Rightarrow> (RespondError 400 ''payload is required'', s) | Some p \<Rightarrow>
       if \<not> sb_has_db env then (RespondError 500 ''database not available'', s)
       else case sb_oc env of None \<Rightarrow> (RespondError 403 ''forbidden: no organization context'', s) | Some oc \<Rightarrow>
       (case sb_insert env of Inl _ \<Rightarrow> (RespondError 500 ''internal error'', s)
        | Inr i \<Rightarrow>
            (RespondJSON 201 (i, ''pending''),
             fst s @ [\<lparr>aq_id = i, aq_action = act, aq_requester = sb_actor env, aq_payload = p, aq_status = ''pending'',
                       aq_decided = None, aq_org = oc_org oc, aq_created = sb_now env\<rparr>],
             audit_logged jt (sb_audit env) (sb_oc env) (approval_audit (sb_actor env) ''approval.submitted'' i [(''action_type'', JStr act)])
               (snd s)))))"

text \<open>Newest first, at most 200; a row that cannot be scanned is left out.\<close>

definition newest_first :: "approval list \<Rightarrow> approval list" where
  "newest_first rows = sort_key (\<lambda>r. - aq_created r) rows"

definition ListApprovalRequests :: "bool \<Rightarrow> org_context option \<Rightarrow> string option \<Rightarrow> (approval \<Rightarrow> bool) \<Rightarrow> string option \<Rightarrow> string
   \<Rightarrow> approval list \<Rightarrow> approval list response" where
  "ListApprovalRequests has_db oc query_err scans rows_err status rows =
     (if \<not> has_db then RespondJSON 200 []
      else case oc of None \<Rightarrow> RespondError 403 ''forbidden: no organization context'' | Some x \<Rightarrow>
      (let wanted = (if status = [] then ''pending'' else status) in
       if query_err \<noteq> None \<or> rows_err \<noteq> None then RespondError 500 ''internal error''
       else RespondJSON 200 (filter scans (take 200 (newest_first
              (select_where (\<lambda>r. aq_org r = oc_org x \<and> (wanted = ''all'' \<or> aq_status r = wanted)) rows))))))"

section \<open>executeApprovedAction\<close>

record exec_env =
  xe_oc :: "org_context option"
  xe_has_db :: bool
  xe_onboard :: onboard_env
  xe_find_err :: "string option"
  xe_kc :: kc_env
  xe_kc_logout :: kc_env
  xe_local_err :: "string option"
  xe_wipe :: wipe_env
  xe_audit :: write_env

definition payload_str :: "(string \<times> jval) list \<Rightarrow> string \<Rightarrow> string" where
  "payload_str p key = (case map_of p key of Some (JStr s) \<Rightarrow> s | _ \<Rightarrow> [])"

text \<open>The onboarding of an approved request.  The fields of the payload are used as they are; a failure after
  the account was created deletes the account again.  It runs on the context of the request, which carries
  the organisation of the approver.\<close>

definition approved_onboard :: "(string \<Rightarrow> string) \<Rightarrow> exec_env \<Rightarrow> string \<Rightarrow> string \<Rightarrow> (string \<times> jval) list
   \<Rightarrow> idp \<times> life_db \<Rightarrow> string option \<times> offboard_effects \<times> idp \<times> life_db" where
  "approved_onboard jt env approverID approvalID p s =
     (let req = \<lparr>ob_first = payload_str p ''firstName'', ob_last = payload_str p ''lastName'', ob_email = payload_str p ''email'',
                 ob_department = payload_str p ''department'', ob_role = payload_str p ''role''\<rparr> in
      if ob_email req = [] then (Some ''missing email in onboard payload'', no_effects, s)
      else case xe_oc env of None \<Rightarrow> (Some ''no organization context for approval execution'', no_effects, s) | Some oc \<Rightarrow>
      (case CreateUser (og_kc (xe_onboard env)) (ob_department req) (fst s) of
         (Inl e, kc) \<Rightarrow> (Some (''create user: '' @ e), no_effects, kc, snd s)
       | (Inr res, kc) \<Rightarrow>
           (let token = (case og_fleet (xe_onboard env) of Inl _ \<Rightarrow> [] | Inr t \<Rightarrow> t) in
            if \<not> xe_has_db env then (None, no_effects, kc, snd s)
            else case persistOnboard jt (og_persist (xe_onboard env)) (Some (oc_org oc)) (cr_id res) req approverID
                        (JObj [(''email'', JStr (ob_email req)), (''approval_id'', JStr approvalID)]) token (oc_org oc) (snd s) of
              (Some e, db) \<Rightarrow> (Some (''persist onboard: '' @ e), no_effects, snd (DeleteUser (og_kc_delete (xe_onboard env)) (cr_id res) kc), db)
            | (None, db) \<Rightarrow> (None, no_effects, kc, db))))"

text \<open>The offboarding; the sessions it ended and the devices it sent a wipe to are its effects outside.\<close>

definition approved_offboard :: "(string \<Rightarrow> string) \<Rightarrow> exec_env \<Rightarrow> string \<Rightarrow> string \<Rightarrow> (string \<times> jval) list
   \<Rightarrow> idp \<times> life_db \<Rightarrow> string option \<times> offboard_effects \<times> idp \<times> life_db" where
  "approved_offboard jt env approverID approvalID p s =
     (let userID = payload_str p ''userId'' in
      case ValidateUserID userID of Some e \<Rightarrow> (Some (''invalid userId in offboard payload: '' @ id_error_text ''user id'' e), no_effects, s) | None \<Rightarrow>
      (case xe_oc env of None \<Rightarrow> (Some ''no organization context for approval execution'', no_effects, s) | Some oc \<Rightarrow>
       if \<not> xe_has_db env then (Some ''database not available'', no_effects, s)
       else case select_one (xe_find_err env) (\<lambda>u. lu_id u = userID \<and> lu_org u = oc_org oc) (l_users (snd s)) of
         Ok _ \<Rightarrow>
           (case DisableUser (xe_kc env) userID (fst s) of
              (Some e, kc) \<Rightarrow> (Some (''disable user: '' @ e), no_effects, kc, snd s)
            | (None, kc) \<Rightarrow>
                (let (logout_err, ended) = LogoutAllSessions (xe_kc_logout env) userID;
                     db = disable_local (xe_local_err env) userID (snd s);
                     wr = wipeUserDevices (xe_wipe env) userID db
                 in (None, no_effects\<lparr>fe_ended := ended, fe_wipes := wr_attempted wr\<rparr>, kc, audit_logged jt (xe_audit env) (xe_oc env)
                       \<lparr>ac_actor = approverID, ac_action = ''offboard'', ac_target_type = ''user'', ac_target_id = userID,
                        ac_details = Some (JObj [(''approval_id'', JStr approvalID), (''devices_wiped'', JInt (int (wr_wiped wr))),
                                                 (''devices_failed'', JInt (int (wr_failed wr)))])\<rparr> db)))
       | _ \<Rightarrow> (Some (''offboard target not found in caller'' @ [CHR 0x27] @ ''s organization''), no_effects, s)))"

definition executeApprovedAction :: "(string \<Rightarrow> string) \<Rightarrow> exec_env \<Rightarrow> string \<Rightarrow> string \<Rightarrow> string \<Rightarrow> (string \<times> jval) list
   \<Rightarrow> idp \<times> life_db \<Rightarrow> string option \<times> offboard_effects \<times> idp \<times> life_db" where
  "executeApprovedAction jt env approverID actionType approvalID p s =
     (if actionType = ''onboard'' then approved_onboard jt env approverID approvalID p s
      else if actionType = ''offboard'' then approved_offboard jt env approverID approvalID p s
      else (Some (''unknown action_type '' @ actionType), no_effects, s))"

section \<open>DecideApproval\<close>

record decide_env =
  dv_actor :: string
  dv_has_db :: bool
  dv_oc :: "org_context option"
  dv_read_err :: "string option"
  dv_claim_err :: "string option"
  dv_reset_err :: "string option"
  dv_finish_err :: "string option"
  dv_exec :: exec_env
  dv_audit :: write_env
  dv_now :: time

type_synonym decision_answer = "(string \<times> string) response"

text \<open>Everything up to the first update: the row that is decided.\<close>

definition decide_checks :: "decide_env \<Rightarrow> string \<Rightarrow> string option \<Rightarrow> approval list \<Rightarrow> decision_answer + approval" where
  "decide_checks env approvalID body rows =
     (if ValidateUserID approvalID \<noteq> None then Inl (RespondError 400 ''invalid id'')
      else case body of None \<Rightarrow> Inl (RespondError 400 ''invalid request body'') | Some decision \<Rightarrow>
      if decision \<noteq> ''approved'' \<and> decision \<noteq> ''rejected''
      then Inl (RespondError 400 (''decision must be 'approved' or 'rejected'' @ [CHR 0x27]))
      else if \<not> dv_has_db env then Inl (RespondError 500 ''database not available'')
      else case dv_oc env of None \<Rightarrow> Inl (RespondError 403 ''forbidden: no organization context'') | Some oc \<Rightarrow>
      (case select_one (dv_read_err env) (\<lambda>r. aq_id r = approvalID \<and> aq_org r = oc_org oc) rows of
         Ok r \<Rightarrow>
           if aq_status r \<noteq> ''pending'' then Inl (RespondError 409 ''approval request already decided'')
           else if dv_actor env = aq_requester r then Inl (RespondError 403 ''cannot approve or reject your own request'')
           else Inr r
       | _ \<Rightarrow> Inl (RespondError 404 ''approval request not found'')))"

definition decide_audit :: "(string \<Rightarrow> string) \<Rightarrow> decide_env \<Rightarrow> string \<Rightarrow> string \<Rightarrow> (string \<times> jval) list \<Rightarrow> life_db \<Rightarrow> life_db" where
  "decide_audit jt env act approvalID details db =
     audit_logged jt (dv_audit env) (dv_oc env) (approval_audit (dv_actor env) act approvalID details) db"

definition DecideApproval :: "(string \<Rightarrow> string) \<Rightarrow> decide_env \<Rightarrow> string \<Rightarrow> string option \<Rightarrow> approval list \<times> idp \<times> life_db
   \<Rightarrow> decision_answer \<times> offboard_effects \<times> approval list \<times> idp \<times> life_db" where
  "DecideApproval jt env i body s =
     (case s of (rows, kc, db) \<Rightarrow>
      case decide_checks env i body rows of Inl resp \<Rightarrow> (resp, no_effects, s) | Inr r \<Rightarrow>
      if body = Some ''rejected'' then
        (case reject_approval (dv_claim_err env) (dv_actor env) i (dv_now env) rows of
           (Inl _, rows) \<Rightarrow> (RespondError 500 ''internal error'', no_effects, rows, kc, db)
         | (Inr n, rows) \<Rightarrow>
             if n = 0 then (RespondError 409 ''approval request already decided'', no_effects, rows, kc, db)
             else (RespondJSON 200 (i, ''rejected''), no_effects, rows, kc,
                   decide_audit jt env ''approval.rejected'' i [(''action_type'', JStr (aq_action r))] db))
      else
        (case claim_approval (dv_claim_err env) (dv_actor env) i (dv_now env) rows of
           (Inl _, rows) \<Rightarrow> (RespondError 500 ''internal error'', no_effects, rows, kc, db)
         | (Inr n, rows) \<Rightarrow>
             if n = 0 then (RespondError 409 ''approval request already decided'', no_effects, rows, kc, db)
             else (case executeApprovedAction jt (dv_exec env) (dv_actor env) (aq_action r) i (aq_payload r) (kc, db) of
                (Some e, eff, kc, db) \<Rightarrow>
                  (RespondError 500 ''action execution failed'', eff, snd (reset_approval (dv_reset_err env) i rows), kc,
                   decide_audit jt env ''approval.execution_failed'' i [(''action_type'', JStr (aq_action r)), (''error'', JStr e)] db)
              | (None, eff, kc, db) \<Rightarrow>
                  (case finish_approval (dv_finish_err env) (dv_actor env) i (dv_now env) rows of
                     (Inl _, rows) \<Rightarrow> (RespondError 500 ''internal error'', eff, rows, kc, db)
                   | (Inr n, rows) \<Rightarrow>
                       if n = 0 then (RespondError 500 ''approval request changed state during execution'', eff, rows, kc, db)
                       else (RespondJSON 200 (i, ''approved''), eff, rows, kc,
                             decide_audit jt env ''approval.approved'' i [(''action_type'', JStr (aq_action r))] db)))))"

section \<open>Concurrent decisions\<close>

text \<open>A request that is being decided: its checks passed, it has claimed the row, or the action has ended.\<close>

datatype phase =
    Checked decide_env approval string
  | Running decide_env approval
  | Ran decide_env approval bool

text \<open>\<open>aw_done\<close> records the actions that succeeded, with the approver.\<close>

record approval_world =
  aw_rows :: "approval list"
  aw_sys :: "idp \<times> life_db"
  aw_thread :: "nat \<Rightarrow> phase option"
  aw_done :: "(string \<times> string) list"

definition set_thread :: "nat \<Rightarrow> phase option \<Rightarrow> approval_world \<Rightarrow> approval_world" where
  "set_thread t ph w = w\<lparr>aw_thread := (aw_thread w)(t := ph)\<rparr>"

inductive approval_step :: "(string \<Rightarrow> string) \<Rightarrow> approval_world \<Rightarrow> approval_world \<Rightarrow> bool" for jt where
  submit: "SubmitApproval jt env body (aw_rows w, snd (aw_sys w)) = (resp, rows, db) \<Longrightarrow>
     (\<forall>i. sb_insert env = Inr i \<longrightarrow> i \<notin> aq_id ` set (aw_rows w)) \<Longrightarrow>
     approval_step jt w (w\<lparr>aw_rows := rows, aw_sys := (fst (aw_sys w), db)\<rparr>)"
| read: "aw_thread w t = None \<Longrightarrow> decide_checks env i (Some decision) (aw_rows w) = Inr r \<Longrightarrow>
     approval_step jt w (set_thread t (Some (Checked env r decision)) w)"
| reject: "aw_thread w t = Some (Checked env r ''rejected'') \<Longrightarrow>
     reject_approval (dv_claim_err env) (dv_actor env) (aq_id r) (dv_now env) (aw_rows w) = (n, rows) \<Longrightarrow>
     approval_step jt w (set_thread t None (w\<lparr>aw_rows := rows\<rparr>))"
| claim: "aw_thread w t = Some (Checked env r ''approved'') \<Longrightarrow>
     claim_approval (dv_claim_err env) (dv_actor env) (aq_id r) (dv_now env) (aw_rows w) = (Inr n, rows) \<Longrightarrow> n \<noteq> 0 \<Longrightarrow>
     approval_step jt w (set_thread t (Some (Running env r)) (w\<lparr>aw_rows := rows\<rparr>))"
| claim_lost: "aw_thread w t = Some (Checked env r ''approved'') \<Longrightarrow>
     claim_approval (dv_claim_err env) (dv_actor env) (aq_id r) (dv_now env) (aw_rows w) = (res, rows) \<Longrightarrow>
     res = Inr 0 \<or> (\<exists>e. res = Inl e) \<Longrightarrow>
     approval_step jt w (set_thread t None (w\<lparr>aw_rows := rows\<rparr>))"
| execute: "aw_thread w t = Some (Running env r) \<Longrightarrow>
     executeApprovedAction jt (dv_exec env) (dv_actor env) (aq_action r) (aq_id r) (aq_payload r) (aw_sys w) = (err, eff, sys) \<Longrightarrow>
     approval_step jt w (set_thread t (Some (Ran env r (err = None)))
       (w\<lparr>aw_sys := sys, aw_done := aw_done w @ (if err = None then [(aq_id r, dv_actor env)] else [])\<rparr>))"
| reset: "aw_thread w t = Some (Ran env r False) \<Longrightarrow> reset_approval (dv_reset_err env) (aq_id r) (aw_rows w) = (n, rows) \<Longrightarrow>
     approval_step jt w (set_thread t None (w\<lparr>aw_rows := rows\<rparr>))"
| finish: "aw_thread w t = Some (Ran env r True) \<Longrightarrow>
     finish_approval (dv_finish_err env) (dv_actor env) (aq_id r) (dv_now env) (aw_rows w) = (n, rows) \<Longrightarrow>
     approval_step jt w (set_thread t None (w\<lparr>aw_rows := rows\<rparr>))"

text \<open>Nothing is being decided yet.\<close>

definition start_world :: "approval list \<Rightarrow> idp \<times> life_db \<Rightarrow> approval_world" where
  "start_world rows sys = \<lparr>aw_rows = rows, aw_sys = sys, aw_thread = (\<lambda>_. None), aw_done = []\<rparr>"

section \<open>The transitions\<close>

definition state_of :: "string \<Rightarrow> approval list \<Rightarrow> string option" where
  "state_of i rows = map_option aq_status (find (\<lambda>r. aq_id r = i) rows)"

definition owners :: "approval list \<Rightarrow> (string \<times> string) list" where
  "owners rows = map (\<lambda>r. (aq_id r, aq_requester r)) rows"

lemma transition_owners: "owners (snd (transition err i old new d rows)) = owners rows"
  by (simp add: transition_def owners_def update_where_def comp_def split: option.split)

lemma find_update: "(\<And>r. aq_id (f r) = aq_id r) \<Longrightarrow> find (\<lambda>r. aq_id r = j) (map f rows) = map_option f (find (\<lambda>r. aq_id r = j) rows)"
  by (induction rows) auto

lemma transition_state:
  "state_of j (snd (transition err i old new d rows))
     = (if err = None \<and> j = i \<and> state_of i rows = Some old then Some new else state_of j rows)"
proof (cases "err = None")
  case True
  let ?f = "\<lambda>r. if aq_id r = i \<and> aq_status r = old then r\<lparr>aq_status := new, aq_decided := d\<rparr> else r"
  have F: "find (\<lambda>r. aq_id r = j) (map ?f rows) = map_option ?f (find (\<lambda>r. aq_id r = j) rows)"
    by (rule find_update) simp
  have T: "state_of j (snd (transition err i old new d rows)) = map_option (aq_status \<circ> ?f) (find (\<lambda>r. aq_id r = j) rows)"
    using True by (simp add: transition_def state_of_def update_where_def F option.map_comp)
  show ?thesis
  proof (cases "find (\<lambda>r. aq_id r = j) rows")
    case None
    then show ?thesis unfolding T using True by (auto simp: state_of_def)
  next
    case (Some r)
    then have "aq_id r = j" by (auto simp: find_Some_iff)
    with Some show ?thesis unfolding T using True by (cases "j = i") (simp_all add: state_of_def)
  qed
qed (auto simp: transition_def)

lemma transition_count:
  assumes "distinct (map fst (owners rows))" "transition err i old new d rows = (Inr n, rows')"
  shows "n \<noteq> 0 \<longleftrightarrow> state_of i rows = Some old"
proof -
  have "(\<exists>r \<in> set rows. aq_id r = i \<and> aq_status r = old) \<longleftrightarrow> state_of i rows = Some old"
    using assms(1)
  proof (induction rows)
    case (Cons a rows)
    from Cons.prems have "aq_id a \<notin> aq_id ` set rows" by (auto simp: owners_def)
    then have "\<forall>r \<in> set rows. aq_id r \<noteq> aq_id a" by (metis image_eqI)
    with Cons show ?case by (auto simp: state_of_def owners_def)
  qed (simp add: state_of_def)
  moreover have "n = rows_affected (\<lambda>r. aq_id r = i \<and> aq_status r = old) rows"
    using assms(2) by (auto simp: transition_def split: option.splits)
  ultimately show ?thesis by (auto simp: rows_affected_def filter_empty_conv)
qed


section \<open>The invariant\<close>

fun holds :: "phase option \<Rightarrow> string \<Rightarrow> bool" where
  "holds (Some (Running env r)) i = (aq_id r = i)"
| "holds (Some (Ran env r ok)) i = (aq_id r = i)"
| "holds _ i = False"

fun unpaid :: "phase option \<Rightarrow> bool" where
  "unpaid (Some (Running env r)) = True"
| "unpaid (Some (Ran env r ok)) = (\<not> ok)"
| "unpaid _ = False"

fun four_eyes :: "phase option \<Rightarrow> (string \<times> string) list \<Rightarrow> bool" where
  "four_eyes None os = True"
| "four_eyes (Some (Checked env r d)) os = (dv_actor env \<noteq> aq_requester r \<and> (aq_id r, aq_requester r) \<in> set os)"
| "four_eyes (Some (Running env r)) os = (dv_actor env \<noteq> aq_requester r \<and> (aq_id r, aq_requester r) \<in> set os)"
| "four_eyes (Some (Ran env r ok)) os = (dv_actor env \<noteq> aq_requester r \<and> (aq_id r, aq_requester r) \<in> set os)"

definition runs_of :: "string \<Rightarrow> (string \<times> string) list \<Rightarrow> nat" where
  "runs_of i done = length (filter (\<lambda>d. fst d = i) done)"

text \<open>A claimed row is executing and has one holder; an action has succeeded at most once, and when it has, the
  row is executing or approved and no holder still has it before it.\<close>

definition approvals_inv :: "approval_world \<Rightarrow> bool" where
  "approvals_inv w \<longleftrightarrow>
     distinct (map fst (owners (aw_rows w)))
   \<and> (\<forall>t. four_eyes (aw_thread w t) (owners (aw_rows w)))
   \<and> (\<forall>d \<in> set (aw_done w). \<exists>q. (fst d, q) \<in> set (owners (aw_rows w)) \<and> snd d \<noteq> q)
   \<and> (\<forall>i t. holds (aw_thread w t) i \<longrightarrow> state_of i (aw_rows w) = Some ''executing'' \<and> (unpaid (aw_thread w t) \<longrightarrow> runs_of i (aw_done w) = 0)
        \<and> (\<forall>t'. holds (aw_thread w t') i \<longrightarrow> t' = t))
   \<and> (\<forall>i. runs_of i (aw_done w) \<le> 1
        \<and> (runs_of i (aw_done w) \<noteq> 0 \<longrightarrow> state_of i (aw_rows w) = Some ''executing'' \<or> state_of i (aw_rows w) = Some ''approved''))"

lemma approvals_invD:
  assumes "approvals_inv w"
  shows "distinct (map fst (owners (aw_rows w)))" "four_eyes (aw_thread w t) (owners (aw_rows w))"
    and "d \<in> set (aw_done w) \<Longrightarrow> \<exists>q. (fst d, q) \<in> set (owners (aw_rows w)) \<and> snd d \<noteq> q"
    and "holds (aw_thread w t) i \<Longrightarrow> state_of i (aw_rows w) = Some ''executing''"
    and "holds (aw_thread w t) i \<Longrightarrow> unpaid (aw_thread w t) \<Longrightarrow> runs_of i (aw_done w) = 0"
    and "holds (aw_thread w t) i \<Longrightarrow> holds (aw_thread w t') i \<Longrightarrow> t' = t"
    and "runs_of i (aw_done w) \<le> 1"
    and "runs_of i (aw_done w) \<noteq> 0 \<Longrightarrow> state_of i (aw_rows w) = Some ''executing'' \<or> state_of i (aw_rows w) = Some ''approved''"
  using assms unfolding approvals_inv_def by blast+

lemma approvals_invI:
  assumes "distinct (map fst (owners (aw_rows w)))" "\<And>t. four_eyes (aw_thread w t) (owners (aw_rows w))"
    and "\<And>d. d \<in> set (aw_done w) \<Longrightarrow> \<exists>q. (fst d, q) \<in> set (owners (aw_rows w)) \<and> snd d \<noteq> q"
    and "\<And>i t. holds (aw_thread w t) i \<Longrightarrow> state_of i (aw_rows w) = Some ''executing''"
    and "\<And>i t. holds (aw_thread w t) i \<Longrightarrow> unpaid (aw_thread w t) \<Longrightarrow> runs_of i (aw_done w) = 0"
    and "\<And>i t t'. holds (aw_thread w t) i \<Longrightarrow> holds (aw_thread w t') i \<Longrightarrow> t' = t"
    and "\<And>i. runs_of i (aw_done w) \<le> 1"
    and "\<And>i. runs_of i (aw_done w) \<noteq> 0 \<Longrightarrow> state_of i (aw_rows w) = Some ''executing'' \<or> state_of i (aw_rows w) = Some ''approved''"
  shows "approvals_inv w"
  unfolding approvals_inv_def using assms by blast

lemma thread_set [simp]: "aw_thread (set_thread t ph w) t' = (if t' = t then ph else aw_thread w t')"
  "aw_rows (set_thread t ph w) = aw_rows w" "aw_done (set_thread t ph w) = aw_done w"
  by (simp_all add: set_thread_def)

text \<open>A thread changes the status of one row that no other thread holds, keeps no claim, and leaves the row
  executing or approved when its action has succeeded before.\<close>

lemma approvals_inv_release:
  assumes inv: "approvals_inv w" and os: "owners rows = owners (aw_rows w)"
    and others: "\<And>j. j \<noteq> i \<Longrightarrow> state_of j rows = state_of j (aw_rows w)"
    and free: "\<And>t'. t' \<noteq> t \<Longrightarrow> holds (aw_thread w t') i \<Longrightarrow> state_of i rows = Some ''executing''"
    and ran: "runs_of i (aw_done w) \<noteq> 0 \<Longrightarrow> state_of i rows = Some ''executing'' \<or> state_of i rows = Some ''approved''"
  shows "approvals_inv (set_thread t None (w\<lparr>aw_rows := rows\<rparr>))"
proof (rule approvals_invI)
  note D = approvals_invD [OF inv]
  fix j t'
  show "state_of j (aw_rows (set_thread t None (w\<lparr>aw_rows := rows\<rparr>))) = Some ''executing''"
    if "holds (aw_thread (set_thread t None (w\<lparr>aw_rows := rows\<rparr>)) t') j"
    using that D(4) [of t' j] others [of j] free [of t'] by (cases "j = i") (auto split: if_splits)
  show "state_of j (aw_rows (set_thread t None (w\<lparr>aw_rows := rows\<rparr>))) = Some ''executing''
      \<or> state_of j (aw_rows (set_thread t None (w\<lparr>aw_rows := rows\<rparr>))) = Some ''approved''"
    if "runs_of j (aw_done (set_thread t None (w\<lparr>aw_rows := rows\<rparr>))) \<noteq> 0"
    using that D(8) [of j] others [of j] ran by (cases "j = i") auto
qed (use approvals_invD [OF inv] os in \<open>auto split: if_splits\<close>)


lemma four_eyes_mono: "four_eyes ph os \<Longrightarrow> set os \<subseteq> set os' \<Longrightarrow> four_eyes ph os'"
  by (induction ph os rule: four_eyes.induct) auto

lemma approvals_inv_grow:
  assumes inv: "approvals_inv w" and fresh: "aq_id r \<notin> aq_id ` set (aw_rows w)"
  shows "approvals_inv (w\<lparr>aw_rows := aw_rows w @ [r], aw_sys := sys\<rparr>)"
proof (rule approvals_invI)
  note D = approvals_invD [OF inv]
  let ?w = "w\<lparr>aw_rows := aw_rows w @ [r], aw_sys := sys\<rparr>"
  have keep: "state_of j (aw_rows w @ [r]) = Some x" if "state_of j (aw_rows w) = Some x" for j x
    using that by (auto simp: state_of_def find_append split: option.splits)
  have sub: "set (owners (aw_rows w)) \<subseteq> set (owners (aw_rows ?w))" by (auto simp: owners_def)
  show "distinct (map fst (owners (aw_rows ?w)))"
    using D(1) fresh by (auto simp: owners_def)
  show "four_eyes (aw_thread ?w t) (owners (aw_rows ?w))" for t
    using four_eyes_mono [OF D(2) sub] by simp
  show "\<exists>q. (fst d, q) \<in> set (owners (aw_rows ?w)) \<and> snd d \<noteq> q" if "d \<in> set (aw_done ?w)" for d
    using D(3) [of d] that sub by auto
  show "state_of i (aw_rows ?w) = Some ''executing''" if "holds (aw_thread ?w t) i" for i t
    using D(4) that keep by simp
  show "state_of i (aw_rows ?w) = Some ''executing'' \<or> state_of i (aw_rows ?w) = Some ''approved''"
    if "runs_of i (aw_done ?w) \<noteq> 0" for i
    using D(8) [of i] that keep by auto
qed (use approvals_invD [OF inv] in auto)

lemma approvals_inv_read:
  assumes inv: "approvals_inv w" and chk: "decide_checks env i (Some decision) (aw_rows w) = Inr r"
  shows "approvals_inv (set_thread t (Some (Checked env r decision)) w)"
proof -
  from chk have "r \<in> set (aw_rows w)" "dv_actor env \<noteq> aq_requester r"
    by (auto simp: decide_checks_def dest!: select_one_Ok_D split: if_splits option.splits query.splits)
  then have "four_eyes (Some (Checked env r decision)) (owners (aw_rows w))" by (auto simp: owners_def)
  then show ?thesis
    by (intro approvals_invI) (use approvals_invD [OF inv] in \<open>auto split: if_splits\<close>)
qed

lemma approvals_inv_claim:
  assumes inv: "approvals_inv w" and th: "aw_thread w t = Some (Checked env r ''approved'')"
    and cl: "claim_approval err (dv_actor env) (aq_id r) now (aw_rows w) = (Inr n, rows)" and n: "n \<noteq> 0"
  shows "approvals_inv (set_thread t (Some (Running env r)) (w\<lparr>aw_rows := rows\<rparr>))"
proof (rule approvals_invI)
  note D = approvals_invD [OF inv]
  let ?w = "set_thread t (Some (Running env r)) (w\<lparr>aw_rows := rows\<rparr>)"
  have err: "err = None" using cl by (auto simp: claim_approval_def transition_def split: option.splits)
  have rows: "rows = snd (transition err (aq_id r) ''pending'' ''executing'' (Some (dv_actor env, now)) (aw_rows w))"
    using cl by (simp add: claim_approval_def)
  have was: "state_of (aq_id r) (aw_rows w) = Some ''pending''"
    using transition_count [OF D(1)] cl n unfolding claim_approval_def by blast
  have os: "owners rows = owners (aw_rows w)" unfolding rows by (rule transition_owners)
  have st: "state_of j rows = (if j = aq_id r then Some ''executing'' else state_of j (aw_rows w))" for j
    unfolding rows transition_state using err was by simp
  have free: "\<not> holds (aw_thread w t') (aq_id r)" for t' using D(4) [of t' "aq_id r"] was by auto
  have none: "runs_of (aq_id r) (aw_done w) = 0" using D(8) [of "aq_id r"] was by auto
  show "four_eyes (aw_thread ?w t') (owners (aw_rows ?w))" for t'
    using D(2) [of t'] D(2) [of t] th os by simp
  show "state_of i (aw_rows ?w) = Some ''executing''" if "holds (aw_thread ?w t') i" for i t'
    using that st D(4) [of t' i] by (auto split: if_splits)
  show "runs_of i (aw_done ?w) = 0" if "holds (aw_thread ?w t') i" "unpaid (aw_thread ?w t')" for i t'
    using that none D(5) [of t' i] by (auto split: if_splits)
  show "t'' = t'" if "holds (aw_thread ?w t') i" "holds (aw_thread ?w t'') i" for i t' t''
    using that free D(6) [of t' i t''] by (auto split: if_splits)
  show "state_of i (aw_rows ?w) = Some ''executing'' \<or> state_of i (aw_rows ?w) = Some ''approved''"
    if "runs_of i (aw_done ?w) \<noteq> 0" for i
    using that D(8) [of i] st by auto
  show "distinct (map fst (owners (aw_rows ?w)))" using D(1) os by simp
  show "\<exists>q. (fst d, q) \<in> set (owners (aw_rows ?w)) \<and> snd d \<noteq> q" if "d \<in> set (aw_done ?w)" for d
    using D(3) [of d] that os by simp
qed (use approvals_invD [OF inv] in auto)


lemma approvals_inv_sys [simp]: "approvals_inv (w\<lparr>aw_sys := sys\<rparr>) = approvals_inv w"
  by (simp add: approvals_inv_def)

lemma approvals_inv_execute:
  assumes inv: "approvals_inv w" and th: "aw_thread w t = Some (Running env r)"
  shows "approvals_inv (set_thread t (Some (Ran env r ok))
    (w\<lparr>aw_sys := sys, aw_done := aw_done w @ (if ok then [(aq_id r, dv_actor env)] else [])\<rparr>))" (is "approvals_inv ?w")
proof (rule approvals_invI)
  note D = approvals_invD [OF inv]
  have h: "holds (aw_thread w t) (aq_id r)" "unpaid (aw_thread w t)" by (simp_all add: th)
  have exec: "state_of (aq_id r) (aw_rows w) = Some ''executing''" using D(4) h(1) .
  have none: "runs_of (aq_id r) (aw_done w) = 0" using D(5) h .
  have eyes: "dv_actor env \<noteq> aq_requester r" "(aq_id r, aq_requester r) \<in> set (owners (aw_rows w))"
    using D(2) [of t] by (simp_all add: th)
  have same: "holds (aw_thread ?w t') i \<longleftrightarrow> holds (aw_thread w t') i" for t' i by (simp add: th)
  have runs: "runs_of i (aw_done ?w) = runs_of i (aw_done w) + (if ok \<and> i = aq_id r then 1 else 0)" for i
    by (simp add: runs_of_def)
  show "four_eyes (aw_thread ?w t') (owners (aw_rows ?w))" for t' using D(2) [of t'] eyes by simp
  show "\<exists>q. (fst d, q) \<in> set (owners (aw_rows ?w)) \<and> snd d \<noteq> q" if "d \<in> set (aw_done ?w)" for d
    using that D(3) [of d] eyes by (auto split: if_splits)
  show "state_of i (aw_rows ?w) = Some ''executing''" if "holds (aw_thread ?w t') i" for i t'
    using D(4) [of t' i] that unfolding same by simp
  show "runs_of i (aw_done ?w) = 0" if "holds (aw_thread ?w t') i" "unpaid (aw_thread ?w t')" for i t'
  proof (cases "i = aq_id r")
    case True
    then have "t' = t" using D(6) [OF h(1)] that(1) unfolding same by simp
    with that(2) none True show ?thesis by (simp add: runs)
  next
    case False
    then have "t' \<noteq> t" using that(1) by auto
    then show ?thesis unfolding runs using D(5) [of t' i] that False by simp
  qed
  show "t'' = t'" if "holds (aw_thread ?w t') i" "holds (aw_thread ?w t'') i" for i t' t''
    using D(6) that unfolding same by blast
  show "runs_of i (aw_done ?w) \<le> 1" for i using D(7) [of i] none unfolding runs by auto
  show "state_of i (aw_rows ?w) = Some ''executing'' \<or> state_of i (aw_rows ?w) = Some ''approved''"
    if "runs_of i (aw_done ?w) \<noteq> 0" for i
    using D(8) [of i] exec that unfolding runs by (auto split: if_splits)
qed (use approvals_invD(1) [OF inv] in simp)

text \<open>The releasing steps: a transition that only a holder makes from executing, or that finds the row pending.\<close>

lemma approvals_inv_transition:
  assumes inv: "approvals_inv w" and tr: "transition err i old new d (aw_rows w) = (n, rows)"
    and from_pending: "old = ''pending'' \<or> holds (aw_thread w t) i"
    and unpaid: "new = ''approved'' \<or> old = ''pending'' \<or> unpaid (aw_thread w t)"
  shows "approvals_inv (set_thread t None (w\<lparr>aw_rows := rows\<rparr>))"
proof (rule approvals_inv_release [OF inv])
  note D = approvals_invD [OF inv]
  have rows: "rows = snd (transition err i old new d (aw_rows w))" using tr by simp
  have st: "state_of j rows = (if err = None \<and> j = i \<and> state_of i (aw_rows w) = Some old then Some new else state_of j (aw_rows w))" for j
    unfolding rows by (rule transition_state)
  show "owners rows = owners (aw_rows w)" unfolding rows by (rule transition_owners)
  show "state_of j rows = state_of j (aw_rows w)" if "j \<noteq> i" for j using that st by simp
  show "state_of i rows = Some ''executing''" if "t' \<noteq> t" "holds (aw_thread w t') i" for t'
    using D(4) [OF that(2)] D(6) [OF that(2), of t] that from_pending st [of i] by auto
  show "state_of i rows = Some ''executing'' \<or> state_of i rows = Some ''approved''" if "runs_of i (aw_done w) \<noteq> 0"
    using D(8) [OF that] D(5) [of t i] that from_pending unpaid st [of i] by auto
qed

lemma approvals_inv_step:
  assumes "approval_step jt w w'" and inv: "approvals_inv w"
  shows "approvals_inv w'"
  using assms(1)
proof cases
  case (submit env body resp rows db)
  have "rows = aw_rows w \<or> (\<exists>r. rows = aw_rows w @ [r] \<and> aq_id r \<notin> aq_id ` set (aw_rows w))"
    using submit(2,3) by (auto simp: SubmitApproval_def Let_def split: option.splits sum.splits if_splits)
  then show ?thesis
    using inv approvals_inv_grow [OF inv] submit(1) by auto
next
  case (read t env i decision r)
  then show ?thesis using approvals_inv_read [OF inv] by simp
next
  case (claim t env r n rows)
  then show ?thesis using approvals_inv_claim [OF inv] by simp
next
  case (execute t env r err eff sys)
  then show ?thesis using approvals_inv_execute [OF inv, of t env r "err = None" sys] by simp
qed (auto intro!: approvals_inv_transition [OF inv] simp: reject_approval_def claim_approval_def reset_approval_def finish_approval_def)


interpretation approval_machine: step_machine "approval_step jt" approvals_inv for jt
  by unfold_locales (rule approvals_inv_step)

lemma start_world_inv: "distinct (map aq_id rows) \<Longrightarrow> approvals_inv (start_world rows sys)"
  by (intro approvals_invI) (simp_all add: start_world_def owners_def runs_of_def comp_def)

text \<open>C4. However many administrators decide at the same time, and wherever a statement or the action fails, an
  approved action succeeds at most once, and it was approved by somebody other than the one who asked for
  it.  Once it has succeeded, the request is never open again.\<close>

theorem approval_executed_once:
  assumes "distinct (map aq_id rows)" "(approval_step jt)\<^sup>*\<^sup>* (start_world rows sys) w"
  shows "runs_of i (aw_done w) \<le> 1
    \<and> ((i, a) \<in> set (aw_done w) \<longrightarrow>
         (state_of i (aw_rows w) = Some ''executing'' \<or> state_of i (aw_rows w) = Some ''approved'')
         \<and> (\<forall>r \<in> set (aw_rows w). aq_id r = i \<longrightarrow> aq_requester r \<noteq> a))"
proof (intro conjI impI)
  have inv: "approvals_inv w"
    using approval_machine.moves_inv [OF assms(2) start_world_inv [OF assms(1)]] .
  note D = approvals_invD [OF inv]
  show "runs_of i (aw_done w) \<le> 1" by (rule D)
  assume d: "(i, a) \<in> set (aw_done w)"
  then have "runs_of i (aw_done w) \<noteq> 0" by (force simp: runs_of_def filter_empty_conv)
  then show "state_of i (aw_rows w) = Some ''executing'' \<or> state_of i (aw_rows w) = Some ''approved''" by (rule D)
  obtain q where q: "(i, q) \<in> set (owners (aw_rows w))" "a \<noteq> q" using D(3) [OF d] by auto
  show "\<forall>r \<in> set (aw_rows w). aq_id r = i \<longrightarrow> aq_requester r \<noteq> a"
  proof (intro ballI impI)
    fix r assume "r \<in> set (aw_rows w)" "aq_id r = i"
    then have "(i, aq_requester r) \<in> set (owners (aw_rows w))" by (auto simp: owners_def)
    with q D(1) show "aq_requester r \<noteq> a" using eq_key_imp_eq_value by metis
  qed
qed

definition sample_exec :: exec_env where
  "sample_exec = \<lparr>xe_oc = Some \<lparr>oc_org = ''o1'', oc_role = ''admin''\<rparr>, xe_has_db = False, xe_onboard = oq_env sample_onboard,
     xe_find_err = None, xe_kc = sample_kc_env, xe_kc_logout = sample_kc_env, xe_local_err = None, xe_wipe = of_wipe sample_offboard,
     xe_audit = sample_write_env\<rparr>"

definition sample_decide :: decide_env where
  "sample_decide = \<lparr>dv_actor = ''admin'', dv_has_db = True, dv_oc = Some \<lparr>oc_org = ''o1'', oc_role = ''admin''\<rparr>, dv_read_err = None,
     dv_claim_err = None, dv_reset_err = None, dv_finish_err = None, dv_exec = sample_exec, dv_audit = sample_write_env, dv_now = 7000\<rparr>"

definition sample_request :: approval where
  "sample_request = \<lparr>aq_id = sample_uuid, aq_action = ''onboard'', aq_requester = ''helpdesk'', aq_payload = [(''email'', JStr ''a@b.co'')],
     aq_status = ''pending'', aq_decided = None, aq_org = ''o1'', aq_created = 6000\<rparr>"

lemma three_moves: "r a b \<Longrightarrow> r b c \<Longrightarrow> r c d \<Longrightarrow> r\<^sup>*\<^sup>* a d"
  by (meson converse_rtranclp_into_rtranclp r_into_rtranclp)

theorem approval_executed_once_witness:
  "\<exists>w. (approval_step (\<lambda>b. b))\<^sup>*\<^sup>* (start_world [sample_request] (\<lparr>kc_users = [], kc_members = []\<rparr>, empty_life)) w
     \<and> aw_done w = [(sample_uuid, ''admin'')] \<and> runs_of sample_uuid (aw_done w) \<le> 1"
proof -
  let ?w0 = "start_world [sample_request] (\<lparr>kc_users = [], kc_members = []\<rparr>, empty_life)"
  let ?w1 = "set_thread 0 (Some (Checked sample_decide sample_request ''approved'')) ?w0"
  have u: "ValidateUserID sample_uuid = None" unfolding sample_uuid_def by code_simp
  have s1: "approval_step (\<lambda>b. b) ?w0 ?w1"
    by (rule read [where i = sample_uuid])
      (simp_all add: start_world_def decide_checks_def u sample_decide_def sample_request_def select_one_def)
  obtain n rows where c: "claim_approval None ''admin'' sample_uuid 7000 [sample_request] = (Inr n, rows)" and n: "n \<noteq> 0"
    by (simp add: claim_approval_def transition_def rows_affected_def sample_request_def)
  let ?w2 = "set_thread 0 (Some (Running sample_decide sample_request)) (?w1\<lparr>aw_rows := rows\<rparr>)"
  have s2: "approval_step (\<lambda>b. b) ?w1 ?w2"
    by (rule claim [OF _ _ n]) (use c in \<open>simp_all add: sample_decide_def sample_request_def start_world_def\<close>)
  obtain eff sys where x: "executeApprovedAction (\<lambda>b. b) sample_exec ''admin'' ''onboard'' sample_uuid [(''email'', JStr ''a@b.co'')]
      (\<lparr>kc_users = [], kc_members = []\<rparr>, empty_life) = (None, eff, sys)"
    by (simp add: executeApprovedAction_def approved_onboard_def payload_str_def sample_exec_def CreateUser_def sample_onboard_def
        sample_kc_env_def)
  let ?w3 = "set_thread 0 (Some (Ran sample_decide sample_request True)) (?w2\<lparr>aw_sys := sys, aw_done := [(sample_uuid, ''admin'')]\<rparr>)"
  have s3: "approval_step (\<lambda>b. b) ?w2 ?w3"
    using execute [of ?w2 0 sample_decide sample_request "\<lambda>b. b" None eff sys] x
    by (simp add: sample_decide_def sample_request_def start_world_def set_thread_def)
  have "(approval_step (\<lambda>b. b))\<^sup>*\<^sup>* ?w0 ?w3" 
    using three_moves [where r = "approval_step (\<lambda>b. b)"] s1 s2 s3 by blast
  moreover have "distinct (map aq_id [sample_request])" by simp
  ultimately show ?thesis
    using approval_executed_once [of "[sample_request]" "\<lambda>b. b" _ ?w3 sample_uuid] by (intro exI [of _ ?w3]) simp
qed

text \<open>An offboarding that goes through an approval leaves the accounts in the provisioned applications as they
  are: it never calls a connector, unlike the direct endpoint.\<close>

lemma approved_offboard_keeps_remote_accounts:
  "fe_remote (fst (snd (approved_offboard jt env a i p s))) = [] \<and> l_prov (snd (snd (snd (approved_offboard jt env a i p s)))) = l_prov (snd s)"
  by (auto simp: approved_offboard_def no_effects_def Let_def disable_local_def audit_logged_def
      split: option.splits query.splits prod.splits)

text \<open>When the statement that ends a decision fails, the request stays executing; no handler takes it up again.\<close>

lemma executing_is_final:
  assumes "decide_checks env i body rows = Inr r"
  shows "aq_status r = ''pending''"
  using assms by (auto simp: decide_checks_def split: if_splits option.splits query.splits)

end
