(* ===== verification/Access_Review.thy ===== *)
theory Access_Review
  imports Org_Scope Validators Go_Time
begin

text \<open>
  Access reviews: \<open>handlers/access_review.go\<close> (campaigns and their decisions) and
  \<open>handlers/review_schedules.go\<close> (recurring campaigns).  A campaign takes a snapshot of the application
  assignments of an organisation; reviewers confirm or revoke each, and completing the campaign deletes the
  revoked assignments.  Identifiers are drawn by the database and are an argument.
\<close>

section \<open>Data\<close>

record campaign =
  cp_id :: string
  cp_name :: string
  cp_status :: string
  cp_by :: string
  cp_created :: time
  cp_closed :: "time option"
  cp_due :: "time option"
  cp_org :: string

record review_item =
  ri_id :: string
  ri_campaign :: string
  ri_user :: string
  ri_type :: string
  ri_resource :: string
  ri_name :: string
  ri_decision :: "string option"
  ri_by :: "string option"
  ri_at :: "time option"
  ri_created :: time

record schedule =
  sc_id :: string
  sc_name :: string
  sc_cadence :: string
  sc_day :: "int option"
  sc_next :: time
  sc_last :: "time option"
  sc_enabled :: bool
  sc_by :: string
  sc_created :: time
  sc_org :: string

record review_app =
  ra_id :: string
  ra_org :: string
  ra_name :: string

record review_db =
  rv_campaigns :: "campaign list"
  rv_items :: "review_item list"
  rv_apps :: "review_app list"
  rv_assign :: "(string \<times> string) list"
  rv_schedules :: "schedule list"
  rv_audit :: audit_db

definition campaign_rows :: "review_db \<Rightarrow> org_row list" where
  "campaign_rows db = map (\<lambda>c. \<lparr>or_table = ''review_campaigns'', or_id = cp_id c, or_org = cp_org c\<rparr>) (rv_campaigns db)"

definition schedule_rows :: "review_db \<Rightarrow> org_row list" where
  "schedule_rows db = map (\<lambda>s. \<lparr>or_table = ''review_schedules'', or_id = sc_id s, or_org = sc_org s\<rparr>) (rv_schedules db)"

text \<open>What a handler of this file depends on besides its arguments.\<close>

record review_env =
  re_has_db :: bool
  re_oc :: "org_context option"
  re_actor :: string
  re_gate_err :: "string option"
  re_begin :: "string option"
  re_insert :: "string + string"
  re_exec :: "string option"
  re_second :: "string option"
  re_commit :: "string option"
  re_rows_err :: "string option"
  re_item_id :: "nat \<Rightarrow> string"
  re_audit :: write_env
  re_now :: time
  re_clock :: time

section \<open>Campaigns\<close>

text \<open>The \<open>INSERT \<dots> SELECT\<close> of the snapshot: one item for each assignment of an application of the organisation.\<close>

definition assignments_of :: "string \<Rightarrow> review_db \<Rightarrow> (string \<times> string \<times> string) list" where
  "assignments_of org db =
     concat (map (\<lambda>(app, user). map (\<lambda>a. (user, app, ra_name a)) (filter (\<lambda>a. ra_id a = app \<and> ra_org a = org) (rv_apps db))) (rv_assign db))"

definition snapshot_items :: "(nat \<Rightarrow> string) \<Rightarrow> time \<Rightarrow> string \<Rightarrow> string \<Rightarrow> review_db \<Rightarrow> review_item list" where
  "snapshot_items ids now campaignID org db =
     map (\<lambda>(k, user, app, name). \<lparr>ri_id = ids k, ri_campaign = campaignID, ri_user = user, ri_type = ''app'', ri_resource = app,
            ri_name = name, ri_decision = None, ri_by = None, ri_at = None, ri_created = now\<rparr>)
       (enumerate 0 (assignments_of org db))"

definition new_campaign :: "string \<Rightarrow> string \<Rightarrow> string \<Rightarrow> time option \<Rightarrow> string \<Rightarrow> time \<Rightarrow> campaign" where
  "new_campaign i name by due org now = \<lparr>cp_id = i, cp_name = name, cp_status = ''open'', cp_by = by, cp_created = now,
     cp_closed = None, cp_due = due, cp_org = org\<rparr>"

text \<open>The body is the name and the due date, where the date is \<^const>\<open>None\<close> when it is empty or not RFC 3339.\<close>

definition CreateCampaign :: "review_env \<Rightarrow> (string \<times> time option) option \<Rightarrow> review_db \<Rightarrow> campaign response \<times> review_db" where
  "CreateCampaign env body db =
     (case body of None \<Rightarrow> (RespondError 400 ''name is required'', db) | Some (name, due) \<Rightarrow>
      if name = [] then (RespondError 400 ''name is required'', db)
      else if length name > 200 then (RespondError 400 (''name must be '' @ [CHR 0xE2, CHR 0x89, CHR 0xA4] @ '' 200 characters''), db)
      else if \<not> re_has_db env then (RespondError 500 ''database not available'', db)
      else case re_oc env of None \<Rightarrow> (RespondError 403 ''forbidden: no organization context'', db) | Some oc \<Rightarrow>
      if re_begin env \<noteq> None then (RespondError 500 ''failed to create campaign'', db)
      else case re_insert env of Inl _ \<Rightarrow> (RespondError 500 ''failed to create campaign'', db) | Inr i \<Rightarrow>
      (let c = new_campaign i name (re_actor env) due (oc_org oc) (re_now env) in
       if re_exec env \<noteq> None then (RespondError 500 ''failed to create campaign snapshot'', db)
       else if re_commit env \<noteq> None then (RespondError 500 ''failed to create campaign'', db)
       else (RespondJSON 201 c,
             db\<lparr>rv_campaigns := rv_campaigns db @ [c],
                rv_items := rv_items db @ snapshot_items (re_item_id env) (re_now env) i (oc_org oc) db\<rparr>)))"

definition ListCampaigns :: "review_env \<Rightarrow> review_db \<Rightarrow> campaign list response" where
  "ListCampaigns env db =
     (if \<not> re_has_db env then RespondError 500 ''database not available''
      else case re_oc env of None \<Rightarrow> RespondError 403 ''forbidden: no organization context'' | Some oc \<Rightarrow>
      if re_exec env \<noteq> None \<or> re_rows_err env \<noteq> None then RespondError 500 ''internal error''
      else RespondJSON 200 (take 100 (sort_key (\<lambda>c. - cp_created c) (select_where (\<lambda>c. cp_org c = oc_org oc) (rv_campaigns db)))))"

definition ListCampaignItems :: "review_env \<Rightarrow> string \<Rightarrow> review_db \<Rightarrow> review_item list response" where
  "ListCampaignItems env campaignID db =
     (if ValidateUserID campaignID \<noteq> None then RespondError 400 ''invalid campaign id''
      else if \<not> re_has_db env then RespondError 500 ''database not available''
      else case re_oc env of None \<Rightarrow> RespondError 403 ''forbidden: no organization context'' | Some oc \<Rightarrow>
      case requireCampaignInCallerOrg True (re_gate_err env) (campaign_rows db) (re_oc env) campaignID of Some r \<Rightarrow> r | None \<Rightarrow>
      if re_exec env \<noteq> None \<or> re_rows_err env \<noteq> None then RespondError 500 ''internal error''
      else RespondJSON 200 (sort_key ri_created (select_where (\<lambda>i. ri_campaign i = campaignID
             \<and> list_ex (\<lambda>c. cp_id c = campaignID \<and> cp_org c = oc_org oc) (rv_campaigns db)) (rv_items db))))"

definition undecided :: "string \<Rightarrow> string \<Rightarrow> review_item \<Rightarrow> bool" where
  "undecided itemID campaignID i \<longleftrightarrow> ri_id i = itemID \<and> ri_campaign i = campaignID \<and> ri_decision i = None"

definition DecideCampaignItem :: "review_env \<Rightarrow> string \<Rightarrow> string \<Rightarrow> string option \<Rightarrow> review_db \<Rightarrow> string response \<times> review_db" where
  "DecideCampaignItem env campaignID itemID body db =
     (if ValidateUserID campaignID \<noteq> None then (RespondError 400 ''invalid campaign id'', db)
      else if ValidateUserID itemID \<noteq> None then (RespondError 400 ''invalid item id'', db)
      else case body of None \<Rightarrow> (RespondError 400 ''invalid request body'', db) | Some decision \<Rightarrow>
      if decision \<noteq> ''confirm'' \<and> decision \<noteq> ''revoke''
      then (RespondError 400 (''decision must be 'confirm' or 'revoke'' @ [CHR 0x27]), db)
      else if \<not> re_has_db env then (RespondError 500 ''database not available'', db)
      else case requireCampaignInCallerOrg True (re_gate_err env) (campaign_rows db) (re_oc env) campaignID of Some r \<Rightarrow> (r, db) | None \<Rightarrow>
      if re_exec env \<noteq> None then (RespondError 500 ''internal error'', db)
      else if rows_affected (undecided itemID campaignID) (rv_items db) = 0
      then (RespondError 404 ''item not found, already decided, or wrong campaign'', db)
      else (RespondJSON 200 decision,
            db\<lparr>rv_items := update_where (undecided itemID campaignID)
                 (\<lambda>i. i\<lparr>ri_decision := Some decision, ri_by := Some (re_actor env), ri_at := Some (re_now env)\<rparr>) (rv_items db)\<rparr>))"

text \<open>The \<open>DELETE \<dots> USING review_items\<close> of the completion.\<close>

definition revoked :: "string \<Rightarrow> review_item list \<Rightarrow> string \<times> string \<Rightarrow> bool" where
  "revoked campaignID items a \<longleftrightarrow> list_ex (\<lambda>i. ri_campaign i = campaignID \<and> ri_decision i = Some ''revoke'' \<and> ri_type i = ''app''
     \<and> ri_resource i = fst a \<and> ri_user i = snd a) items"

definition open_campaign :: "string \<Rightarrow> campaign \<Rightarrow> bool" where
  "open_campaign i c \<longleftrightarrow> cp_id c = i \<and> cp_status c = ''open''"

definition CompleteCampaign :: "(string \<Rightarrow> string) \<Rightarrow> review_env \<Rightarrow> string \<Rightarrow> review_db \<Rightarrow> bool response \<times> review_db" where
  "CompleteCampaign jt env campaignID db =
     (if ValidateUserID campaignID \<noteq> None then (RespondError 400 ''invalid campaign id'', db)
      else if \<not> re_has_db env then (RespondError 500 ''database not available'', db)
      else case requireCampaignInCallerOrg True (re_gate_err env) (campaign_rows db) (re_oc env) campaignID of Some r \<Rightarrow> (r, db) | None \<Rightarrow>
      if re_begin env \<noteq> None then (RespondError 500 ''internal error'', db)
      else if re_exec env \<noteq> None then (RespondError 500 ''failed to apply revocations'', db)
      else if re_second env \<noteq> None then (RespondError 500 ''internal error'', db)
      else if rows_affected (open_campaign campaignID) (rv_campaigns db) = 0
      then (RespondError 404 ''campaign not found or already closed'', db)
      else if re_commit env \<noteq> None then (RespondError 500 ''internal error'', db)
      else (RespondJSON 200 True,
            db\<lparr>rv_assign := delete_where (revoked campaignID (rv_items db)) (rv_assign db),
               rv_campaigns := update_where (open_campaign campaignID)
                 (\<lambda>c. c\<lparr>cp_status := ''completed'', cp_closed := Some (re_now env)\<rparr>) (rv_campaigns db),
               rv_audit := log_best_effort jt (re_audit env) (re_oc env)
                 \<lparr>ac_actor = re_actor env, ac_action = ''complete_campaign'', ac_target_type = ''campaign'', ac_target_id = campaignID,
                  ac_details = Some (JObj [])\<rparr> (rv_audit db)\<rparr>))"

section \<open>Schedules\<close>

text \<open>\<open>re_clock\<close> is the clock of the process, \<open>re_now\<close> that of the database.\<close>

definition nextRunFromCadence :: "time \<Rightarrow> string \<Rightarrow> time" where
  "nextRunFromCadence now cadence =
     (if cadence = ''weekly'' then now + 7 * 24 * hour
      else if cadence = ''monthly'' then now + 30 * 24 * hour
      else if cadence = ''quarterly'' then now + 90 * 24 * hour
      else now + 30 * 24 * hour)"

definition schedule_audit :: "string \<Rightarrow> string \<Rightarrow> string \<Rightarrow> (string \<times> jval) list \<Rightarrow> audit_call" where
  "schedule_audit actorID act i details =
     \<lparr>ac_actor = actorID, ac_action = act, ac_target_type = ''schedule'', ac_target_id = i, ac_details = Some (JObj details)\<rparr>"

definition CreateReviewSchedule :: "(string \<Rightarrow> string) \<Rightarrow> review_env \<Rightarrow> (string \<times> string \<times> int) option \<Rightarrow> review_db
   \<Rightarrow> schedule response \<times> review_db" where
  "CreateReviewSchedule jt env body db =
     (case body of None \<Rightarrow> (RespondError 400 ''invalid request body'', db) | Some (raw, cadence, day) \<Rightarrow>
      (let name = trim_space raw in
       if name = [] then (RespondError 400 ''name is required'', db)
       else if length name > 200 then (RespondError 400 (''name must be '' @ [CHR 0xE2, CHR 0x89, CHR 0xA4] @ '' 200 characters''), db)
       else if cadence \<notin> {''weekly'', ''monthly'', ''quarterly''} then (RespondError 400 ''cadence must be weekly, monthly, or quarterly'', db)
       else if \<not> re_has_db env then (RespondError 500 ''database not available'', db)
       else case re_oc env of None \<Rightarrow> (RespondError 403 ''forbidden: no organization context'', db) | Some oc \<Rightarrow>
       (case re_insert env of Inl _ \<Rightarrow> (RespondError 500 ''failed to create schedule'', db) | Inr i \<Rightarrow>
        (let s = \<lparr>sc_id = i, sc_name = name, sc_cadence = cadence, sc_day = (if day > 0 then Some day else None),
                  sc_next = nextRunFromCadence (re_clock env) cadence, sc_last = None, sc_enabled = True, sc_by = re_actor env,
                  sc_created = re_now env, sc_org = oc_org oc\<rparr>
         in (RespondJSON 201 s,
             db\<lparr>rv_schedules := rv_schedules db @ [s],
                rv_audit := log_best_effort jt (re_audit env) (re_oc env)
                  (schedule_audit (re_actor env) ''review_schedule.create'' i [(''name'', JStr name), (''cadence'', JStr cadence)]) (rv_audit db)\<rparr>)))))"

definition ListReviewSchedules :: "review_env \<Rightarrow> review_db \<Rightarrow> schedule list response" where
  "ListReviewSchedules env db =
     (if \<not> re_has_db env then RespondError 500 ''database not available''
      else case re_oc env of None \<Rightarrow> RespondError 403 ''forbidden: no organization context'' | Some oc \<Rightarrow>
      if re_exec env \<noteq> None \<or> re_rows_err env \<noteq> None then RespondError 500 ''internal error''
      else RespondJSON 200 (sort_key (\<lambda>s. - sc_created s) (select_where (\<lambda>s. sc_org s = oc_org oc) (rv_schedules db))))"

definition UpdateReviewSchedule :: "(string \<Rightarrow> string) \<Rightarrow> review_env \<Rightarrow> string \<Rightarrow> (string option \<times> bool option) option \<Rightarrow> review_db
   \<Rightarrow> schedule response \<times> review_db" where
  "UpdateReviewSchedule jt env schedID body db =
     (if ValidateUserID schedID \<noteq> None then (RespondError 400 ''invalid schedule id'', db)
      else case body of None \<Rightarrow> (RespondError 400 ''invalid request body'', db) | Some (raw, enabled) \<Rightarrow>
      (let name = map_option trim_space raw in
       if name = Some [] then (RespondError 400 ''name must not be empty'', db)
       else if name \<noteq> None \<and> length (the name) > 200
       then (RespondError 400 (''name must be '' @ [CHR 0xE2, CHR 0x89, CHR 0xA4] @ '' 200 characters''), db)
       else if \<not> re_has_db env then (RespondError 500 ''database not available'', db)
       else case requireReviewScheduleInCallerOrg True (re_gate_err env) (schedule_rows db) (re_oc env) schedID of Some r \<Rightarrow> (r, db) | None \<Rightarrow>
       if re_exec env \<noteq> None then (RespondError 500 ''internal error'', db)
       else (let db = db\<lparr>rv_schedules := update_where (\<lambda>s. sc_id s = schedID)
                    (\<lambda>s. s\<lparr>sc_name := (case name of None \<Rightarrow> sc_name s | Some n \<Rightarrow> n),
                           sc_enabled := (case enabled of None \<Rightarrow> sc_enabled s | Some e \<Rightarrow> e)\<rparr>) (rv_schedules db)\<rparr>
             in case select_one (re_second env) (\<lambda>s. sc_id s = schedID) (rv_schedules db) of
                  Ok s \<Rightarrow> (RespondJSON 200 s, db\<lparr>rv_audit := log_best_effort jt (re_audit env) (re_oc env)
                             (schedule_audit (re_actor env) ''review_schedule.update'' schedID []) (rv_audit db)\<rparr>)
                | _ \<Rightarrow> (RespondError 500 ''internal error'', db))))"

definition DeleteReviewSchedule :: "(string \<Rightarrow> string) \<Rightarrow> review_env \<Rightarrow> string \<Rightarrow> review_db \<Rightarrow> bool response \<times> review_db" where
  "DeleteReviewSchedule jt env schedID db =
     (if ValidateUserID schedID \<noteq> None then (RespondError 400 ''invalid schedule id'', db)
      else if \<not> re_has_db env then (RespondError 500 ''database not available'', db)
      else case requireReviewScheduleInCallerOrg True (re_gate_err env) (schedule_rows db) (re_oc env) schedID of Some r \<Rightarrow> (r, db) | None \<Rightarrow>
      if re_exec env \<noteq> None then (RespondError 500 ''internal error'', db)
      else (RespondJSON 200 True,
            db\<lparr>rv_schedules := delete_where (\<lambda>s. sc_id s = schedID) (rv_schedules db),
               rv_audit := log_best_effort jt (re_audit env) (re_oc env)
                 (schedule_audit (re_actor env) ''review_schedule.delete'' schedID []) (rv_audit db)\<rparr>))"

section \<open>Firing schedules\<close>

definition maxDueReviewSchedules :: nat where
  "maxDueReviewSchedules = 50"

definition date_text :: "time \<Rightarrow> string" where
  "date_text t = take 10 (rfc3339 t)"

definition is_due :: "time \<Rightarrow> schedule \<Rightarrow> bool" where
  "is_due now s \<longleftrightarrow> sc_enabled s \<and> sc_next s \<le> now"

text \<open>\<open>fireReviewSchedule\<close>: one transaction.  The result is the error, the campaign that was created and the
  database; losing the race is no error.\<close>

definition fireReviewSchedule :: "review_env \<Rightarrow> schedule \<Rightarrow> review_db \<Rightarrow> string option \<times> campaign option \<times> review_db" where
  "fireReviewSchedule env s db =
     (case re_begin env of Some e \<Rightarrow> (Some e, None, db) | None \<Rightarrow>
      case re_exec env of Some e \<Rightarrow> (Some e, None, db) | None \<Rightarrow>
      if rows_affected (\<lambda>x. sc_id x = sc_id s \<and> is_due (re_now env) x) (rv_schedules db) = 0 then (None, None, db)
      else case re_insert env of Inl e \<Rightarrow> (Some e, None, db) | Inr i \<Rightarrow>
      case re_second env of Some e \<Rightarrow> (Some e, None, db) | None \<Rightarrow>
      case re_commit env of Some e \<Rightarrow> (Some e, None, db) | None \<Rightarrow>
      (let c = new_campaign i (sc_name s @ '' ('' @ date_text (re_clock env) @ '')'') (sc_by s) None (sc_org s) (re_now env)
       in (None, Some c,
           db\<lparr>rv_schedules := update_where (\<lambda>x. sc_id x = sc_id s \<and> is_due (re_now env) x)
                (\<lambda>x. x\<lparr>sc_last := Some (re_now env), sc_next := nextRunFromCadence (re_clock env) (sc_cadence s)\<rparr>) (rv_schedules db),
              rv_campaigns := rv_campaigns db @ [c],
              rv_items := rv_items db @ snapshot_items (re_item_id env) (re_now env) i (sc_org s) db\<rparr>)))"

fun fire_all :: "(nat \<Rightarrow> review_env) \<Rightarrow> schedule list \<Rightarrow> review_db \<Rightarrow> nat \<times> campaign list \<times> review_db" where
  "fire_all envs [] db = (0, [], db)"
| "fire_all envs (s # ss) db =
     (case fireReviewSchedule (envs 0) s db of (err, c, db) \<Rightarrow>
      case fire_all (\<lambda>k. envs (Suc k)) ss db of (n, cs, db) \<Rightarrow>
        ((if err = None then 1 else 0) + n, (case c of None \<Rightarrow> [] | Some x \<Rightarrow> [x]) @ cs, db))"

definition due_list :: "time \<Rightarrow> review_db \<Rightarrow> schedule list" where
  "due_list now db = take maxDueReviewSchedules (sort_key sc_next (select_where (is_due now) (rv_schedules db)))"

definition RunDueReviewSchedules :: "review_env \<Rightarrow> (nat \<Rightarrow> review_env) \<Rightarrow> review_db \<Rightarrow> nat \<times> campaign list \<times> review_db" where
  "RunDueReviewSchedules env envs db =
     (if \<not> re_has_db env \<or> re_exec env \<noteq> None \<or> re_rows_err env \<noteq> None then (0, [], db)
      else fire_all envs (due_list (re_now env) db) db)"

text \<open>A tick of \<open>StartReviewScheduleRunner\<close>.\<close>

definition schedule_tick :: "bool option \<Rightarrow> review_env \<Rightarrow> (nat \<Rightarrow> review_env) \<Rightarrow> review_db \<Rightarrow> nat \<times> campaign list \<times> review_db" where
  "schedule_tick isLeader env envs db = (if isLeader = Some False then (0, [], db) else RunDueReviewSchedules env envs db)"

section \<open>Snapshots\<close>

lemma set_assignments_of:
  "(user, app, name) \<in> set (assignments_of org db) \<longleftrightarrow>
     (app, user) \<in> set (rv_assign db) \<and> (\<exists>a \<in> set (rv_apps db). ra_id a = app \<and> ra_org a = org \<and> ra_name a = name)"
  by (auto simp: assignments_of_def)

lemma snapshot_exact:
  "(\<exists>i \<in> set (snapshot_items ids now c org db). ri_user i = user \<and> ri_resource i = app) \<longleftrightarrow>
     (app, user) \<in> set (rv_assign db) \<and> (\<exists>a \<in> set (rv_apps db). ra_id a = app \<and> ra_org a = org)"
proof -
  have "(\<exists>i \<in> set (snapshot_items ids now c org db). ri_user i = user \<and> ri_resource i = app) \<longleftrightarrow>
      (\<exists>name. (user, app, name) \<in> snd ` set (enumerate 0 (assignments_of org db)))"
    by (force simp: snapshot_items_def)
  also have "snd ` set (enumerate 0 (assignments_of org db)) = set (assignments_of org db)"
    by (metis list.set_map map_snd_enumerate)
  finally show ?thesis by (auto simp: set_assignments_of)
qed

lemma snapshot_undecided: "i \<in> set (snapshot_items ids now c org db) \<Longrightarrow> ri_campaign i = c \<and> ri_decision i = None \<and> ri_type i = ''app''"
  by (auto simp: snapshot_items_def)

section \<open>Reviews stay inside their organisation\<close>

text \<open>Every item belongs to a campaign, and the application it names to the organisation of the campaign.\<close>

definition item_scoped :: "campaign list \<Rightarrow> review_app list \<Rightarrow> review_item \<Rightarrow> bool" where
  "item_scoped cs apps i \<longleftrightarrow> list_ex (\<lambda>c. cp_id c = ri_campaign i \<and> list_all (\<lambda>a. ra_id a = ri_resource i \<longrightarrow> ra_org a = cp_org c) apps) cs"

definition review_inv :: "review_db \<Rightarrow> bool" where
  "review_inv db \<longleftrightarrow> distinct (map cp_id (rv_campaigns db)) \<and> distinct (map ra_id (rv_apps db))
     \<and> list_all (item_scoped (rv_campaigns db) (rv_apps db)) (rv_items db)"

lemma review_inv_items: "review_inv db \<Longrightarrow> i \<in> set (rv_items db) \<Longrightarrow> item_scoped (rv_campaigns db) (rv_apps db) i"
  by (simp add: review_inv_def list_all_iff)

lemma item_scoped_mono: "item_scoped cs apps i \<Longrightarrow> item_scoped (cs @ ds) apps i"
  by (auto simp: item_scoped_def)

lemma snapshot_scoped:
  assumes "distinct (map ra_id (rv_apps db))" "i \<in> set (snapshot_items ids now (cp_id c) (cp_org c) db)"
  shows "item_scoped (cs @ [c]) (rv_apps db) i"
proof -
  have "\<exists>a \<in> set (rv_apps db). ra_id a = ri_resource i \<and> ra_org a = cp_org c"
    using snapshot_exact [of ids now "cp_id c" "cp_org c" db "ri_user i" "ri_resource i"] assms(2) by blast
  then obtain a where a: "a \<in> set (rv_apps db)" "ra_id a = ri_resource i" "ra_org a = cp_org c" by blast
  have "ra_org b = cp_org c" if "b \<in> set (rv_apps db)" "ra_id b = ri_resource i" for b
    using assms(1) a that by (metis distinct_map inj_onD)
  then show ?thesis
    using snapshot_undecided [OF assms(2)] by (simp add: item_scoped_def list_all_iff)
qed

lemma review_inv_new_campaign:
  assumes "review_inv db" "cp_id c \<notin> cp_id ` set (rv_campaigns db)"
  shows "review_inv (db\<lparr>rv_campaigns := rv_campaigns db @ [c],
     rv_items := rv_items db @ snapshot_items ids now (cp_id c) (cp_org c) db\<rparr>)"
  using assms snapshot_scoped [of db _ ids now c]
  by (auto simp: review_inv_def list_all_iff intro: item_scoped_mono)

lemma review_inv_frame [simp]:
  "review_inv (db\<lparr>rv_schedules := x\<rparr>) = review_inv db" "review_inv (db\<lparr>rv_assign := y\<rparr>) = review_inv db"
  "review_inv (db\<lparr>rv_audit := z\<rparr>) = review_inv db"
  by (simp_all add: review_inv_def)

lemma CreateCampaign_inv:
  assumes "review_inv db" "\<And>i. re_insert env = Inr i \<Longrightarrow> i \<notin> cp_id ` set (rv_campaigns db)"
  shows "review_inv (snd (CreateCampaign env body db))"
proof -
  have "review_inv (db\<lparr>rv_campaigns := rv_campaigns db @ [new_campaign i n by' due org now],
      rv_items := rv_items db @ snapshot_items ids now i org db\<rparr>)" if "re_insert env = Inr i" for i n by' due org now ids
    using review_inv_new_campaign [of db "new_campaign i n by' due org now" ids now] assms that by (simp add: new_campaign_def)
  then show ?thesis
    using assms(1) by (simp add: CreateCampaign_def Let_def split: option.split sum.split)
qed

lemma DecideCampaignItem_inv:
  assumes "review_inv db"
  shows "review_inv (snd (DecideCampaignItem env c i body db))"
proof -
  have "item_scoped cs apps (x\<lparr>ri_decision := d, ri_by := b, ri_at := t\<rparr>) = item_scoped cs apps x" for cs apps x d b t
    by (simp add: item_scoped_def)
  then show ?thesis
    using assms by (auto simp: DecideCampaignItem_def review_inv_def update_where_def list_all_iff split: option.split)
qed

lemma fireReviewSchedule_inv:
  assumes "review_inv db" "\<And>i. re_insert env = Inr i \<Longrightarrow> i \<notin> cp_id ` set (rv_campaigns db)"
  shows "review_inv (snd (snd (fireReviewSchedule env s db)))"
proof -
  have "review_inv (db\<lparr>rv_schedules := x, rv_campaigns := rv_campaigns db @ [new_campaign i n by' due org now],
      rv_items := rv_items db @ snapshot_items ids now i org db\<rparr>)" if "re_insert env = Inr i" for i n by' due org now ids x
    using review_inv_new_campaign [of db "new_campaign i n by' due org now" ids now] assms that
    by (simp add: new_campaign_def review_inv_def)
  then show ?thesis
    using assms(1) by (simp add: fireReviewSchedule_def Let_def split: option.split sum.split)
qed

lemma CompleteCampaign_outcome:
  fixes jt env c db
  defines "R \<equiv> CompleteCampaign jt env c db"
  shows "snd R = db \<and> \<not> success (fst R) \<or>
     (\<exists>oc a'. re_oc env = Some oc \<and> org_owns ''review_campaigns'' (campaign_rows db) oc c
        \<and> rows_affected (open_campaign c) (rv_campaigns db) \<noteq> 0 \<and> success (fst R)
        \<and> snd R = db\<lparr>rv_assign := delete_where (revoked c (rv_items db)) (rv_assign db),
             rv_campaigns := update_where (open_campaign c) (\<lambda>x. x\<lparr>cp_status := ''completed'', cp_closed := Some (re_now env)\<rparr>) (rv_campaigns db),
             rv_audit := a'\<rparr>)"
proof (cases "requireCampaignInCallerOrg True (re_gate_err env) (campaign_rows db) (re_oc env) c :: bool response option")
  case None
  then obtain oc where "re_oc env = Some oc" "org_owns ''review_campaigns'' (campaign_rows db) oc c"
    using resource_gate.gate_owns unfolding requireCampaignInCallerOrg_def by blast
  with None show ?thesis by (simp add: R_def CompleteCampaign_def) blast
next
  case (Some r)
  then have "\<not> success r"
    by (auto simp: requireCampaignInCallerOrg_def RequireResourceInCallerOrg_def split: option.splits sum.splits if_splits)
  with Some show ?thesis by (simp add: R_def CompleteCampaign_def)
qed

lemma campaign_owner:
  assumes "review_inv db" "org_owns ''review_campaigns'' (campaign_rows db) oc c" "d \<in> set (rv_campaigns db)" "cp_id d = c"
  shows "cp_org d = oc_org oc"
proof -
  obtain e where "e \<in> set (rv_campaigns db)" "cp_id e = c" "cp_org e = oc_org oc"
    using assms(2) by (auto simp: org_owns_def campaign_rows_def list_ex_iff)
  with assms show ?thesis by (metis distinct_map inj_onD review_inv_def)
qed

text \<open>C32. Completing a campaign enforces its decisions, all of them or none, inside one organisation.  A
  completion that answers with success closes the open campaign and deletes exactly the assignments that
  were revoked in it, and each of them is of an application of the caller's own organisation; any other
  answer leaves the database as it was, and a closed campaign cannot be completed again.\<close>

theorem campaign_completion:
  assumes inv: "review_inv db" and run: "CompleteCampaign jt env c db = (resp, db')"
  shows "(\<not> success resp \<longrightarrow> db' = db)
    \<and> (success resp \<longrightarrow>
         (\<forall>a. a \<in> set (rv_assign db') \<longleftrightarrow> a \<in> set (rv_assign db) \<and> \<not> revoked c (rv_items db) a)
       \<and> (\<forall>a app. a \<in> set (rv_assign db) \<and> a \<notin> set (rv_assign db') \<and> app \<in> set (rv_apps db) \<and> ra_id app = fst a
             \<longrightarrow> (\<exists>oc. re_oc env = Some oc \<and> ra_org app = oc_org oc))
       \<and> (\<forall>x \<in> set (rv_campaigns db'). cp_id x = c \<longrightarrow> cp_status x \<noteq> ''open'')
       \<and> \<not> success (fst (CompleteCampaign jt env' c db')))"
proof (cases "success resp")
  case False
  then show ?thesis using CompleteCampaign_outcome [of jt env c db] run by auto
next
  case True
  then obtain oc a' where oc: "re_oc env = Some oc" "org_owns ''review_campaigns'' (campaign_rows db) oc c"
    and db': "db' = db\<lparr>rv_assign := delete_where (revoked c (rv_items db)) (rv_assign db),
             rv_campaigns := update_where (open_campaign c) (\<lambda>x. x\<lparr>cp_status := ''completed'', cp_closed := Some (re_now env)\<rparr>) (rv_campaigns db),
             rv_audit := a'\<rparr>"
    using CompleteCampaign_outcome [of jt env c db] run by auto
  have closed: "cp_status x \<noteq> ''open''" if x: "x \<in> set (rv_campaigns db')" "cp_id x = c" for x
  proof -
    from x(1) have "x \<in> (\<lambda>y. if open_campaign c y then y\<lparr>cp_status := ''completed'', cp_closed := Some (re_now env)\<rparr> else y) ` set (rv_campaigns db)"
      by (simp add: db' update_where_def)
    then obtain y where "x = (if open_campaign c y then y\<lparr>cp_status := ''completed'', cp_closed := Some (re_now env)\<rparr> else y)"
      by (rule imageE)
    then show ?thesis using x(2) by (cases "open_campaign c y") (auto simp: open_campaign_def)
  qed
  then have "rows_affected (open_campaign c) (rv_campaigns db') = 0"
    by (auto simp: rows_affected_def filter_empty_conv open_campaign_def)
  then have again: "\<not> success (fst (CompleteCampaign jt env' c db'))"
    using CompleteCampaign_outcome [of jt env' c db'] by auto
  have own: "ra_org app = oc_org oc"
    if a: "revoked c (rv_items db) a" and app: "app \<in> set (rv_apps db)" "ra_id app = fst a" for a app
  proof -
    obtain i where i: "i \<in> set (rv_items db)" "ri_campaign i = c" "ri_resource i = fst a"
      using a by (auto simp: revoked_def list_ex_iff)
    then obtain d where d: "d \<in> set (rv_campaigns db)" "cp_id d = c" "ra_org app = cp_org d"
      using review_inv_items [OF inv i(1)] app by (auto simp: item_scoped_def list_ex_iff list_all_iff)
    then show ?thesis using campaign_owner [OF inv oc(2)] by simp
  qed
  have kept: "a \<in> set (rv_assign db') \<longleftrightarrow> a \<in> set (rv_assign db) \<and> \<not> revoked c (rv_items db) a" for a
    by (simp add: db' delete_where_def)
  show ?thesis using True closed again own oc(1) kept by blast
qed


definition sample_review_env :: review_env where
  "sample_review_env = \<lparr>re_has_db = True, re_oc = Some \<lparr>oc_org = ''o1'', oc_role = ''admin''\<rparr>, re_actor = ''op'', re_gate_err = None,
     re_begin = None, re_insert = Inr ''c1'', re_exec = None, re_second = None, re_commit = None, re_rows_err = None,
     re_item_id = (\<lambda>k. show_nat k), re_audit = \<lparr>we_begin = None, we_lock = None, we_head = None, we_canonicalise = None,
       we_insert = None, we_commit = None, tx_now = 5000\<rparr>, re_now = 5000, re_clock = 5000\<rparr>"

definition sample_review :: review_db where
  "sample_review = \<lparr>rv_campaigns = [new_campaign ''3f2504e0-4f89-11d3-9a0c-0305e82c3301'' ''Q1'' ''op'' None ''o1'' 1000],
     rv_items = [\<lparr>ri_id = ''i1'', ri_campaign = ''3f2504e0-4f89-11d3-9a0c-0305e82c3301'', ri_user = ''u1'', ri_type = ''app'',
       ri_resource = ''a1'', ri_name = ''Wiki'', ri_decision = Some ''revoke'', ri_by = Some ''op'', ri_at = Some 2000, ri_created = 1000\<rparr>],
     rv_apps = [\<lparr>ra_id = ''a1'', ra_org = ''o1'', ra_name = ''Wiki''\<rparr>], rv_assign = [(''a1'', ''u1''), (''a1'', ''u2'')], rv_schedules = [],
     rv_audit = empty_audit_db\<rparr>"

theorem campaign_completion_witness:
  "\<exists>db'. snd (CompleteCampaign (\<lambda>b. b) sample_review_env ''3f2504e0-4f89-11d3-9a0c-0305e82c3301'' sample_review) = db'
     \<and> (''a1'', ''u1'') \<notin> set (rv_assign db') \<and> (''a1'', ''u2'') \<in> set (rv_assign db')"
proof -
  let ?c = "''3f2504e0-4f89-11d3-9a0c-0305e82c3301''"
  obtain resp db' where run: "CompleteCampaign (\<lambda>b. b) sample_review_env ?c sample_review = (resp, db')"
    by (metis prod.collapse)
  have inv: "review_inv sample_review"
    by (simp add: review_inv_def sample_review_def item_scoped_def new_campaign_def)
  have "ValidateUserID ?c = None" by code_simp
  then have "success resp"
    using run by (auto simp: CompleteCampaign_def sample_review_env_def sample_review_def campaign_rows_def new_campaign_def
        requireCampaignInCallerOrg_def RequireResourceInCallerOrg_def CheckResourceInOrg_def allowedOrgTables_def select_one_def
        rows_affected_def open_campaign_def)
  then have "a \<in> set (rv_assign db') \<longleftrightarrow> a \<in> set (rv_assign sample_review) \<and> \<not> revoked ?c (rv_items sample_review) a" for a
    using campaign_completion [OF inv run] by blast
  then show ?thesis using run by (simp add: sample_review_def revoked_def)
qed

section \<open>Schedules fire at their cadence\<close>

text \<open>The operations of any number of replicas on the schedules, with the campaigns a schedule has created.  A
  replica may fire from a list it read long ago; the clocks follow the order of the transactions.\<close>

datatype schedule_op = Fire review_env schedule | Edit "string \<Rightarrow> string" review_env string "(string option \<times> bool option) option"

type_synonym schedule_state = "review_db \<times> (string \<times> time) list"

fun schedule_step :: "schedule_op \<Rightarrow> schedule_state \<Rightarrow> schedule_state" where
  "schedule_step (Fire env s) (db, fired) =
     (case fireReviewSchedule env s db of (_, c, db) \<Rightarrow> (db, fired @ (case c of None \<Rightarrow> [] | Some _ \<Rightarrow> [(sc_id s, re_now env)])))"
| "schedule_step (Edit jt env i body) (db, fired) = (snd (UpdateReviewSchedule jt env i body db), fired)"

text \<open>The next run is computed from the clock of the process, and what is due is decided by the clock of the database: the clock of no replica
  is behind that of the database by more than a skew.\<close>

fun within_skew :: "duration \<Rightarrow> schedule_op \<Rightarrow> schedule_state \<Rightarrow> bool" where
  "within_skew skew (Fire env s) st = (re_now env \<le> re_clock env + skew)"
| "within_skew skew (Edit jt env i body) st = True"

definition week :: duration where
  "week = 7 * 24 * hour"

definition spaced :: "duration \<Rightarrow> (string \<times> time) list \<Rightarrow> bool" where
  "spaced gap fired \<longleftrightarrow> sorted_wrt (\<lambda>x y. fst x = fst y \<longrightarrow> snd x + gap \<le> snd y) fired"

definition schedule_inv :: "duration \<Rightarrow> schedule_state \<Rightarrow> bool" where
  "schedule_inv skew st \<longleftrightarrow> skew \<le> week \<and> distinct (map sc_id (rv_schedules (fst st))) \<and> spaced (week - skew) (snd st)
     \<and> (\<forall>x \<in> set (snd st). \<forall>s \<in> set (rv_schedules (fst st)). sc_id s = fst x \<longrightarrow> snd x + (week - skew) \<le> sc_next s)"

lemma nextRun_at_least_week: "now + week \<le> nextRunFromCadence now cadence"
  by (simp add: nextRunFromCadence_def week_def hour_def minute_def second_def)

lemma fire_outcome:
  fixes env s db
  defines "P \<equiv> \<lambda>x. sc_id x = sc_id s \<and> is_due (re_now env) x"
  shows "(\<exists>e. fireReviewSchedule env s db = (e, None, db))
    \<or> (\<exists>c db'. fireReviewSchedule env s db = (None, Some c, db') \<and> (\<exists>x \<in> set (rv_schedules db). P x)
        \<and> rv_schedules db' = update_where P (\<lambda>x. x\<lparr>sc_last := Some (re_now env),
             sc_next := nextRunFromCadence (re_clock env) (sc_cadence s)\<rparr>) (rv_schedules db))"
  by (simp add: fireReviewSchedule_def P_def rows_affected_def filter_empty_conv Let_def split: option.split sum.split)

lemma update_schedule_times:
  "map (\<lambda>s. (sc_id s, sc_next s)) (rv_schedules (snd (UpdateReviewSchedule jt env i body db))) = map (\<lambda>s. (sc_id s, sc_next s)) (rv_schedules db)"
  by (simp add: UpdateReviewSchedule_def Let_def update_where_def split: option.split query.split)

lemma schedule_inv_times:
  assumes "schedule_inv skew (db, fired)" "map (\<lambda>s. (sc_id s, sc_next s)) (rv_schedules db') = map (\<lambda>s. (sc_id s, sc_next s)) (rv_schedules db)"
  shows "schedule_inv skew (db', fired)"
proof -
  have "map sc_id (rv_schedules db') = map sc_id (rv_schedules db)"
    using arg_cong [OF assms(2), of "map fst"] by (simp add: comp_def)
  moreover have "\<exists>t \<in> set (rv_schedules db). sc_id t = sc_id s \<and> sc_next t = sc_next s" if "s \<in> set (rv_schedules db')" for s
  proof -
    have "(sc_id s, sc_next s) \<in> set (map (\<lambda>s. (sc_id s, sc_next s)) (rv_schedules db'))" using that by auto
    then show ?thesis unfolding assms(2) by auto
  qed
  ultimately show ?thesis using assms(1) unfolding schedule_inv_def by (metis fst_conv snd_conv)
qed

lemma schedule_inv_fire:
  assumes inv: "schedule_inv skew (db, fired)" and clk: "re_now env \<le> re_clock env + skew"
    and x: "x \<in> set (rv_schedules db)" "sc_id x = sc_id s" "is_due (re_now env) x"
    and db': "rv_schedules db' = update_where (\<lambda>x. sc_id x = sc_id s \<and> is_due (re_now env) x) (\<lambda>x. x\<lparr>sc_last := Some (re_now env),
             sc_next := nextRunFromCadence (re_clock env) (sc_cadence s)\<rparr>) (rv_schedules db)"
  shows "schedule_inv skew (db', fired @ [(sc_id s, re_now env)])"
proof -
  let ?P = "\<lambda>x. sc_id x = sc_id s \<and> is_due (re_now env) x"
  have D: "distinct (map sc_id (rv_schedules db))" "spaced (week - skew) fired" and gap: "skew \<le> week"
    and next_run: "\<And>y t. y \<in> set fired \<Longrightarrow> t \<in> set (rv_schedules db) \<Longrightarrow> sc_id t = fst y \<Longrightarrow> snd y + (week - skew) \<le> sc_next t"
    using inv by (auto simp: schedule_inv_def)
  have late: "snd y + (week - skew) \<le> re_now env" if "y \<in> set fired" "fst y = sc_id s" for y
    using next_run [OF that(1) x(1)] that(2) x(2, 3) by (simp add: is_due_def)
  have only: "t = x" if "t \<in> set (rv_schedules db)" "sc_id t = sc_id s" for t
    using D(1) x(1, 2) that by (metis distinct_map inj_onD)
  have week: "re_now env + (week - skew) \<le> nextRunFromCadence (re_clock env) (sc_cadence s)"
    using nextRun_at_least_week [of "re_clock env" "sc_cadence s"] clk by simp
  have "distinct (map sc_id (rv_schedules db'))"
  proof -
    have "map sc_id (rv_schedules db') = map sc_id (rv_schedules db)" by (simp add: db' update_where_def)
    then show ?thesis using D(1) by simp
  qed
  moreover have "spaced (week - skew) (fired @ [(sc_id s, re_now env)])"
    using D(2) late by (auto simp: spaced_def sorted_wrt_append)
  moreover have "snd y + (week - skew) \<le> sc_next t"
    if y: "y \<in> set (fired @ [(sc_id s, re_now env)])" and t: "t \<in> set (rv_schedules db')" "sc_id t = fst y" for y t
  proof -
    have "t \<in> (\<lambda>x. if ?P x then x\<lparr>sc_last := Some (re_now env), sc_next := nextRunFromCadence (re_clock env) (sc_cadence s)\<rparr> else x)
        ` set (rv_schedules db)" using t(1) by (simp add: db' update_where_def)
    then obtain u where u: "u \<in> set (rv_schedules db)"
      "t = (if ?P u then u\<lparr>sc_last := Some (re_now env), sc_next := nextRunFromCadence (re_clock env) (sc_cadence s)\<rparr> else u)" by blast
    show ?thesis
    proof (cases "sc_id u = sc_id s")
      case True
      then have "sc_next t = nextRunFromCadence (re_clock env) (sc_cadence s)" "sc_id t = sc_id s"
        using u(2) only [OF u(1)] x by simp_all
      then show ?thesis using y t(2) late [of y] week gap by auto
    next
      case False
      then have "t = u" using u(2) by simp
      then show ?thesis using y t(2) False next_run [of y u] u(1) by auto
    qed
  qed
  ultimately show ?thesis using gap by (simp add: schedule_inv_def)
qed

lemma schedule_step_inv: "schedule_inv skew st \<Longrightarrow> within_skew skew op st \<Longrightarrow> schedule_inv skew (schedule_step op st)"
proof (induction op st rule: schedule_step.induct)
  case (1 env s db fired)
  consider (kept) e where "fireReviewSchedule env s db = (e, None, db)"
    | (fired) c db' x where "fireReviewSchedule env s db = (None, Some c, db')" "x \<in> set (rv_schedules db)" "sc_id x = sc_id s"
        "is_due (re_now env) x" "rv_schedules db' = update_where (\<lambda>x. sc_id x = sc_id s \<and> is_due (re_now env) x)
           (\<lambda>x. x\<lparr>sc_last := Some (re_now env), sc_next := nextRunFromCadence (re_clock env) (sc_cadence s)\<rparr>) (rv_schedules db)"
    using fire_outcome [of env s db] by blast
  then show ?case
  proof cases
    case kept
    with 1 show ?thesis by simp
  next
    case fired
    with 1 schedule_inv_fire show ?thesis by simp
  qed
next
  case (2 jt env i body db fired)
  then show ?case using schedule_inv_times update_schedule_times by simp
qed

interpretation schedules: guarded_machine schedule_step "within_skew skew" "schedule_inv skew" for skew
  by unfold_locales (rule schedule_step_inv)


text \<open>C36. However many replicas run the schedules, from lists of due schedules that may be stale, and whatever
  statement fails: two campaigns of one schedule are at least a week apart, less the skew by which the clock of a replica may lag behind that of the database.
  With clocks that never lag the skew is nought and the distance a full week; without a bound on the skew there is none.\<close>

theorem schedule_never_double_fires:
  assumes "distinct (map sc_id (rv_schedules db))" and "skew \<le> week" and "legal_run schedule_step (within_skew skew) ops (db, [])"
  shows "sorted_wrt (\<lambda>x y. fst x = fst y \<longrightarrow> snd x + (week - skew) \<le> snd y) (snd (fold schedule_step ops (db, [])))"
proof -
  have "schedule_inv skew (db, [])" using assms(1,2) by (simp add: schedule_inv_def spaced_def)
  from schedules.run_inv [OF this assms(3)] show ?thesis by (simp add: schedule_inv_def spaced_def)
qed

definition sample_schedule :: schedule where
  "sample_schedule = \<lparr>sc_id = ''s1'', sc_name = ''Q'', sc_cadence = ''weekly'', sc_day = None, sc_next = 4000, sc_last = None,
     sc_enabled = True, sc_by = ''op'', sc_created = 1000, sc_org = ''o1''\<rparr>"

text \<open>Two replicas with a clock ten seconds behind: the second does not fire again.\<close>

definition lagging_env :: review_env where
  "lagging_env = sample_review_env\<lparr>re_now := 20 * second, re_clock := 10 * second\<rparr>"

theorem schedule_never_double_fires_witness:
  "snd (fold schedule_step [Fire lagging_env sample_schedule, Fire lagging_env sample_schedule]
      (sample_review\<lparr>rv_schedules := [sample_schedule]\<rparr>, [])) = [(''s1'', 20 * second)]
   \<and> sorted_wrt (\<lambda>x y. fst x \<noteq> fst y \<or> snd x + (week - 10 * second) \<le> snd y)
       (snd (fold schedule_step [Fire lagging_env sample_schedule, Fire lagging_env sample_schedule]
          (sample_review\<lparr>rv_schedules := [sample_schedule]\<rparr>, [])))"
proof
  let ?st = "(sample_review\<lparr>rv_schedules := [sample_schedule]\<rparr>, [])"
  let ?ops = "[Fire lagging_env sample_schedule, Fire lagging_env sample_schedule]"
  show "snd (fold schedule_step ?ops ?st) = [(''s1'', 20 * second)]"
    by (simp add: fireReviewSchedule_def lagging_env_def sample_review_env_def sample_schedule_def rows_affected_def is_due_def update_where_def
        nextRunFromCadence_def hour_def minute_def second_def Let_def)
  have "legal_run schedule_step (within_skew (10 * second)) ?ops ?st" by (simp add: lagging_env_def split: prod.split)
  moreover have "10 * second \<le> week" by (simp add: week_def hour_def minute_def second_def)
  moreover have "distinct (map sc_id (rv_schedules (sample_review\<lparr>rv_schedules := [sample_schedule]\<rparr>)))" by simp
  ultimately show "sorted_wrt (\<lambda>x y. fst x \<noteq> fst y \<or> snd x + (week - 10 * second) \<le> snd y) (snd (fold schedule_step ?ops ?st))"
    using schedule_never_double_fires [of "sample_review\<lparr>rv_schedules := [sample_schedule]\<rparr>" "10 * second" ?ops]
    unfolding imp_conv_disj by blast
qed

section \<open>Where the code falls short\<close>

text \<open>A decision on a campaign that is already completed is accepted, and no later completion applies it.\<close>

lemma decision_after_completion:
  assumes "ValidateUserID c = None" "ValidateUserID i = None" "re_has_db env" "re_exec env = None"
    "requireCampaignInCallerOrg True (re_gate_err env) (campaign_rows db) (re_oc env) c = (None :: string response option)"
    "rows_affected (undecided i c) (rv_items db) \<noteq> 0"
  shows "fst (DecideCampaignItem env c i (Some ''revoke'') db) = RespondJSON 200 ''revoke''"
  using assms by (simp add: DecideCampaignItem_def)

text \<open>A schedule that another replica has advanced counts as one that created a campaign.\<close>

lemma lost_race_is_counted:
  assumes "re_begin (envs 0) = None" "re_exec (envs 0) = None"
    "rows_affected (\<lambda>x. sc_id x = sc_id s \<and> is_due (re_now (envs 0)) x) (rv_schedules db) = 0"
  shows "fire_all envs [s] db = (1, [], db)"
  using assms by (simp add: fireReviewSchedule_def)

end
