(* ===== verification/API_Tokens.thy ===== *)
theory API_Tokens
  imports Org_Scope Validators
begin

text \<open>
  API tokens, \<open>handlers/api_tokens.go\<close>: creating, listing and revoking them.  The stored row extends the
  one the authentication middleware reads (\<open>Auth.handleAPIToken\<close>), so that the theorems can follow a token
  from its creation to the requests that carry it.  The random bytes of the token are an argument.
\<close>

section \<open>Data\<close>

record stored_token = api_token +
  tk_name :: string
  tk_by :: string
  tk_created :: time

record token_db =
  tk_rows :: "stored_token list"
  tk_audit :: audit_db

definition auth_view :: "token_db \<Rightarrow> api_token list" where
  "auth_view db = map api_token.truncate (tk_rows db)"

record token_request =
  tq_name :: string
  tq_role :: string
  tq_identity :: string
  tq_days :: int

record token_response =
  tr_id :: string
  tr_name :: string
  tr_token :: string
  tr_role :: string
  tr_identity :: string
  tr_created :: string
  tr_expires :: "string option"

record token_env =
  te_has_db :: bool
  te_oc :: "org_context option"
  te_actor :: string
  te_random :: "string + string"
  te_clock :: time
  te_now :: time
  te_begin :: "string option"
  te_query :: "string option"
  te_new_id :: string
  te_audit :: write_env
  te_commit :: "string option"
  te_rows_err :: "string option"

definition MaxAPITokenTTLDays :: int where "MaxAPITokenTTLDays = 365"
definition DefaultAPITokenTTLDays :: int where "DefaultAPITokenTTLDays = 90"

definition validTokenRoles :: "role list" where
  "validTokenRoles = [RoleSuperAdmin, RoleHelpdesk, RoleAuditor, RoleReadOnly]"

definition at_most :: "string \<Rightarrow> string \<Rightarrow> string" where
  "at_most field n = field @ '' must be '' @ [CHR 0xE2, CHR 0x89, CHR 0xA4] @ '' '' @ n"

definition token_role :: "string \<Rightarrow> role option" where
  "token_role s = (case RoleFromString s of Some r \<Rightarrow> if r \<in> set validTokenRoles then Some r else None | None \<Rightarrow> None)"

definition token_errors :: "token_request \<Rightarrow> (string \<times> string) list" where
  "token_errors rq =
     (if tq_name rq = [] then [(''name'', ''name is required'')]
      else if length (tq_name rq) > 100 then [(''name'', at_most ''name'' ''100 characters'')] else [])
   @ (if token_role (tq_role rq) = None then [(''role'', ''role must be super-admin, helpdesk, auditor, or read-only'')] else [])
   @ (if tq_identity rq = [] then [(''serviceIdentity'', ''serviceIdentity is required'')]
      else if length (tq_identity rq) > 100 then [(''serviceIdentity'', at_most ''serviceIdentity'' ''100 characters'')] else [])
   @ (if tq_days rq < 0 then [(''expiresInDays'', ''expiresInDays must be '' @ [CHR 0xE2, CHR 0x89, CHR 0xA5] @ '' 0'')]
      else if tq_days rq > MaxAPITokenTTLDays then [(''expiresInDays'', at_most ''expiresInDays'' (show_int MaxAPITokenTTLDays))] else [])"

text \<open>\<open>AddDate(0, 0, days)\<close> on a UTC time adds whole days.\<close>

definition token_expiry :: "time \<Rightarrow> role \<Rightarrow> int \<Rightarrow> time option" where
  "token_expiry now r days =
     (let days = (if days = 0 then (if r = RoleSuperAdmin then 0 else DefaultAPITokenTTLDays) else days)
      in if days > 0 then Some (now + days * (24 * hour)) else None)"

text \<open>\<open>time.Time\<close> as JSON: RFC 3339 with the fraction of the second, without trailing zeros.\<close>

definition strip_zeros :: "string \<Rightarrow> string" where
  "strip_zeros s = rev (dropWhile (\<lambda>c. c = CHR ''0'') (rev s))"

definition rfc3339_nano :: "time \<Rightarrow> string" where
  "rfc3339_nano t =
     (let frac = strip_zeros (pad_left 9 (show_nat (nat (t mod second)))) in
      butlast (rfc3339 t) @ (if t mod second = 0 then [] else CHR ''.'' # frac) @ ''Z'')"

section \<open>CreateAPIToken\<close>

definition mint_token :: "string \<Rightarrow> string" where
  "mint_token bytes = ''fc_'' @ hex_encode bytes"

definition token_audit :: "string \<Rightarrow> string \<Rightarrow> string \<Rightarrow> (string \<times> jval) list \<Rightarrow> audit_call" where
  "token_audit actorID act i details =
     \<lparr>ac_actor = actorID, ac_action = act, ac_target_type = ''api_token'', ac_target_id = i, ac_details = Some (JObj details)\<rparr>"

text \<open>The audit entry is written in the transaction of the change: when it fails, the change is undone.\<close>

definition with_audit :: "(string \<Rightarrow> string) \<Rightarrow> token_env \<Rightarrow> audit_call \<Rightarrow> string \<Rightarrow> 'b \<Rightarrow> nat \<Rightarrow> stored_token list \<Rightarrow> token_db
   \<Rightarrow> 'b response \<times> token_db" where
  "with_audit jt env call failure answer st rows db =
     (case writeAuditEntry jt (te_audit env) (map_option oc_org (te_oc env)) call (Some (tk_audit db)) of
        (Inl _, a) \<Rightarrow> (RespondError 500 failure, db\<lparr>tk_audit := rollback_to (tk_audit db) (the a)\<rparr>)
      | (Inr _, a) \<Rightarrow>
          if te_commit env \<noteq> None then (RespondError 500 failure, db\<lparr>tk_audit := rollback_to (tk_audit db) (the a)\<rparr>)
          else (RespondJSON st answer, \<lparr>tk_rows = rows, tk_audit = the a\<rparr>))"

definition new_token :: "token_env \<Rightarrow> org_context \<Rightarrow> token_request \<Rightarrow> role \<Rightarrow> string \<Rightarrow> stored_token" where
  "new_token env oc rq r plaintext = \<lparr>at_id = te_new_id env, at_hash = hex_sha256 plaintext, at_role = role_string r,
     at_identity = tq_identity rq, at_org = oc_org oc, at_revoked = None, at_expires = map_option pg_timestamp (token_expiry (te_clock env) r (tq_days rq)),
     tk_name = tq_name rq, tk_by = te_actor env, tk_created = te_now env\<rparr>"

definition CreateAPIToken :: "(string \<Rightarrow> string) \<Rightarrow> token_env \<Rightarrow> token_request option \<Rightarrow> token_db \<Rightarrow> token_response response \<times> token_db" where
  "CreateAPIToken jt env body db =
     (case body of None \<Rightarrow> (RespondError 400 ''invalid request body'', db) | Some rq \<Rightarrow>
      if token_errors rq \<noteq> [] then (RespondValidationErrors (token_errors rq), db)
      else if \<not> te_has_db env then (RespondError 500 ''database not available'', db)
      else case te_random env of Inl _ \<Rightarrow> (RespondError 500 ''failed to generate token'', db) | Inr bytes \<Rightarrow>
      case te_oc env of None \<Rightarrow> (RespondError 403 ''forbidden: no organization context'', db) | Some oc \<Rightarrow>
      (let plaintext = mint_token bytes;
           r = the (token_role (tq_role rq));
           t = new_token env oc rq r plaintext;
           expires = token_expiry (te_clock env) r (tq_days rq)
       in if te_begin env \<noteq> None then (RespondError 500 ''failed to create token'', db)
          else if te_query env \<noteq> None \<or> list_ex (\<lambda>x. at_hash x = at_hash t \<or> at_id x = at_id t) (tk_rows db)
          then (RespondError 500 ''failed to create token'', db)
          else with_audit jt env
                 (token_audit (te_actor env) ''api_token.create'' (at_id t)
                    [(''name'', JStr (tq_name rq)), (''role'', JStr (at_role t)), (''service_identity'', JStr (tq_identity rq)),
                     (''expires_at'', case expires of None \<Rightarrow> JNull | Some e \<Rightarrow> JStr (rfc3339_nano e))])
                 ''failed to create token''
                 \<lparr>tr_id = at_id t, tr_name = tq_name rq, tr_token = plaintext, tr_role = at_role t, tr_identity = tq_identity rq,
                  tr_created = rfc3339 (te_now env), tr_expires = map_option rfc3339 expires\<rparr>
                 201 (tk_rows db @ [t]) db))"

section \<open>ListAPITokens and RevokeAPIToken\<close>

definition listed_token :: "stored_token \<Rightarrow> token_response" where
  "listed_token t = \<lparr>tr_id = at_id t, tr_name = tk_name t, tr_token = [], tr_role = at_role t, tr_identity = at_identity t,
     tr_created = rfc3339 (tk_created t), tr_expires = map_option rfc3339 (at_expires t)\<rparr>"

definition ListAPITokens :: "token_env \<Rightarrow> token_db \<Rightarrow> token_response list response" where
  "ListAPITokens env db =
     (if \<not> te_has_db env then RespondError 500 ''database not available''
      else case te_oc env of None \<Rightarrow> RespondError 403 ''forbidden: no organization context'' | Some oc \<Rightarrow>
      if te_query env \<noteq> None \<or> te_rows_err env \<noteq> None then RespondError 500 ''internal error''
      else RespondJSON 200 (map listed_token (sort_key (\<lambda>t. - tk_created t)
             (select_where (\<lambda>t. at_org t = oc_org oc \<and> at_revoked t = None
                \<and> (at_expires t = None \<or> the (at_expires t) > te_now env)) (tk_rows db)))))"

definition revocable :: "string \<Rightarrow> string \<Rightarrow> stored_token \<Rightarrow> bool" where
  "revocable i org t \<longleftrightarrow> at_id t = i \<and> at_org t = org \<and> at_revoked t = None"

definition RevokeAPIToken :: "(string \<Rightarrow> string) \<Rightarrow> token_env \<Rightarrow> string \<Rightarrow> token_db \<Rightarrow> bool response \<times> token_db" where
  "RevokeAPIToken jt env i db =
     (if ValidateUserID i \<noteq> None then (RespondError 400 ''invalid token id'', db)
      else if \<not> te_has_db env then (RespondError 500 ''database not available'', db)
      else case te_oc env of None \<Rightarrow> (RespondError 403 ''forbidden: no organization context'', db) | Some oc \<Rightarrow>
      if te_begin env \<noteq> None then (RespondError 500 ''internal error'', db)
      else case select_one (te_query env) (revocable i (oc_org oc)) (tk_rows db) of
        No_rows \<Rightarrow> (RespondError 404 ''token not found or already revoked'', db)
      | Db_error _ \<Rightarrow> (RespondError 500 ''internal error'', db)
      | Ok t \<Rightarrow> with_audit jt env
          (token_audit (te_actor env) ''api_token.revoke'' i
             [(''name'', JStr (tk_name t)), (''role'', JStr (at_role t)), (''service_identity'', JStr (at_identity t))])
          ''internal error'' True 200
          (update_where (revocable i (oc_org oc)) (\<lambda>t. t\<lparr>at_revoked := Some (te_now env)\<rparr>) (tk_rows db)) db)"

section \<open>Runs of the handlers\<close>

datatype token_op = Create_token "string \<Rightarrow> string" token_env "token_request option" | Revoke_token "string \<Rightarrow> string" token_env string

fun token_step :: "token_op \<Rightarrow> token_db \<Rightarrow> token_db" where
  "token_step (Create_token jt env body) db = snd (CreateAPIToken jt env body db)"
| "token_step (Revoke_token jt env i) db = snd (RevokeAPIToken jt env i db)"

definition tokens_unique :: "token_db \<Rightarrow> bool" where
  "tokens_unique db \<longleftrightarrow> distinct (map at_hash (tk_rows db)) \<and> distinct (map at_id (tk_rows db))"

lemma with_audit_cases:
  "(\<exists>m n. with_audit jt env c f ans st rows db = (RespondError 500 m, db\<lparr>tk_audit := tk_audit db\<lparr>next_seq := n\<rparr>\<rparr>))
   \<or> (\<exists>a. with_audit jt env c f ans st rows db = (RespondJSON st ans, \<lparr>tk_rows = rows, tk_audit = a\<rparr>))"
  by (simp add: with_audit_def rollback_to_def split: prod.split sum.split) blast

lemma CreateAPIToken_outcome:
  fixes jt env body db
  defines "R \<equiv> CreateAPIToken jt env body db"
  shows "(tk_rows (snd R) = tk_rows db \<and> \<not> success (fst R))
    \<or> (\<exists>rq oc r bytes resp. body = Some rq \<and> te_oc env = Some oc \<and> te_random env = Inr bytes \<and> token_errors rq = []
         \<and> token_role (tq_role rq) = Some r \<and> fst R = RespondJSON 201 resp \<and> tr_token resp = mint_token bytes \<and> tr_id resp = te_new_id env
         \<and> tk_rows (snd R) = tk_rows db @ [new_token env oc rq r (mint_token bytes)]
         \<and> \<not> list_ex (\<lambda>x. at_hash x = hex_sha256 (mint_token bytes) \<or> at_id x = te_new_id env) (tk_rows db))"
proof (cases "\<exists>rq oc bytes. body = Some rq \<and> token_errors rq = [] \<and> te_has_db env \<and> te_random env = Inr bytes \<and> te_oc env = Some oc
    \<and> te_begin env = None \<and> te_query env = None \<and> \<not> list_ex (\<lambda>x. at_hash x = hex_sha256 (mint_token bytes) \<or> at_id x = te_new_id env) (tk_rows db)")
  case False
  then show ?thesis
    by (auto simp: R_def CreateAPIToken_def Let_def new_token_def split: option.split sum.split)
next
  case True
  then obtain rq oc bytes where h: "body = Some rq" "token_errors rq = []" "te_has_db env" "te_random env = Inr bytes" "te_oc env = Some oc"
    "te_begin env = None" "te_query env = None"
    "\<not> list_ex (\<lambda>x. at_hash x = hex_sha256 (mint_token bytes) \<or> at_id x = te_new_id env) (tk_rows db)" by blast
  then obtain r where r: "token_role (tq_role rq) = Some r" by (auto simp: token_errors_def split: if_splits)
  let ?t = "new_token env oc rq r (mint_token bytes)"
  obtain c ans where R: "R = with_audit jt env c ''failed to create token'' ans 201 (tk_rows db @ [?t]) db"
      and ans: "tr_token ans = mint_token bytes" "tr_id ans = te_new_id env"
    using h r unfolding R_def CreateAPIToken_def by (simp add: Let_def new_token_def)
  from with_audit_cases [of jt env c "''failed to create token''" ans 201 "tk_rows db @ [?t]" db]
  show ?thesis unfolding R using h r ans by auto
qed


lemma unique_append:
  assumes "tokens_unique db" "\<not> list_ex (\<lambda>x. at_hash x = at_hash t \<or> at_id x = at_id t) (tk_rows db)" "tk_rows db' = tk_rows db @ [t]"
  shows "tokens_unique db'"
proof -
  have "at_hash t \<notin> at_hash ` set (tk_rows db)" "at_id t \<notin> at_id ` set (tk_rows db)"
    using assms(2) by (auto simp: list_ex_iff image_iff)
  then show ?thesis using assms by (simp add: tokens_unique_def)
qed

definition revoke_row :: "token_env \<Rightarrow> string \<Rightarrow> string \<Rightarrow> token_db \<Rightarrow> stored_token list" where
  "revoke_row env i org db = update_where (revocable i org) (\<lambda>t. t\<lparr>at_revoked := Some (te_now env)\<rparr>) (tk_rows db)"

lemma RevokeAPIToken_outcome:
  fixes jt env i db
  defines "R \<equiv> RevokeAPIToken jt env i db"
  shows "(tk_rows (snd R) = tk_rows db \<and> \<not> success (fst R))
    \<or> (\<exists>oc t. te_oc env = Some oc \<and> t \<in> set (tk_rows db) \<and> revocable i (oc_org oc) t \<and> success (fst R)
         \<and> tk_rows (snd R) = revoke_row env i (oc_org oc) db)"
proof (cases "\<exists>oc t. ValidateUserID i = None \<and> te_has_db env \<and> te_oc env = Some oc \<and> te_begin env = None
    \<and> select_one (te_query env) (revocable i (oc_org oc)) (tk_rows db) = Ok t")
  case False
  then show ?thesis by (auto simp: R_def RevokeAPIToken_def split: option.split query.split)
next
  case True
  then obtain oc t where h: "ValidateUserID i = None" "te_has_db env" "te_oc env = Some oc" "te_begin env = None"
    "select_one (te_query env) (revocable i (oc_org oc)) (tk_rows db) = Ok t" by blast
  obtain c where R: "R = with_audit jt env c ''internal error'' True 200 (revoke_row env i (oc_org oc) db) db"
    using h unfolding R_def RevokeAPIToken_def by (simp add: revoke_row_def)
  from with_audit_cases [of jt env c "''internal error''" True 200 "revoke_row env i (oc_org oc) db" db]
  show ?thesis unfolding R using h select_one_Ok_D [OF h(5)] by auto
qed

lemma revoke_row_keys:
  "map at_hash (revoke_row env i org db) = map at_hash (tk_rows db)" "map at_id (revoke_row env i org db) = map at_id (tk_rows db)"
  by (simp_all add: revoke_row_def map_update_where)

lemma token_step_unique: "tokens_unique db \<Longrightarrow> tokens_unique (token_step op db)"
proof (induction op db rule: token_step.induct)
  case (1 jt env body db)
  from CreateAPIToken_outcome [of jt env body db] show ?case
  proof (elim disjE exE conjE)
    assume "tk_rows (snd (CreateAPIToken jt env body db)) = tk_rows db"
    then show ?thesis using 1 by (simp add: tokens_unique_def)
  next
    fix rq oc r bytes
    assume "\<not> list_ex (\<lambda>x. at_hash x = hex_sha256 (mint_token bytes) \<or> at_id x = te_new_id env) (tk_rows db)"
      "tk_rows (snd (CreateAPIToken jt env body db)) = tk_rows db @ [new_token env oc rq r (mint_token bytes)]"
    then show ?thesis
      by (intro unique_append [OF 1, of "new_token env oc rq r (mint_token bytes)"]) (simp_all add: new_token_def)
  qed
next
  case (2 jt env i db)
  from RevokeAPIToken_outcome [of jt env i db] 2 show ?case
    by (auto simp: tokens_unique_def revoke_row_keys)
qed

text \<open>The middleware finds the row of a token by its hash, which is unique.\<close>

lemma handleAPIToken_row:
  assumes "tokens_unique db" "t \<in> set (tk_rows db)" "at_hash t = hex_sha256 p"
  shows "handleAPIToken True None now (auth_view db) p =
     (if at_revoked t \<noteq> None then Reject 401 ''unauthorized: token has been revoked''
      else if (case at_expires t of Some e \<Rightarrow> now > e | None \<Rightarrow> False) then Reject 401 ''unauthorized: token has expired''
      else case RoleFromString (at_role t) of
        None \<Rightarrow> Reject 401 ''unauthorized: invalid API token role''
      | Some r \<Rightarrow> Pass (Some \<lparr>jc_sub = ''api-token:'' @ at_id t, jc_username = ''api-token:'' @ at_identity t, jc_email = [],
             jc_is_admin = (r = RoleSuperAdmin), jc_role = r\<rparr>)
          (Some \<lparr>oc_org = at_org t, oc_role = (if r = RoleSuperAdmin then OrgMembershipRoleAdmin else [])\<rparr>))"
proof -
  have "\<exists>rest. filter (\<lambda>x. at_hash x = hex_sha256 p) (auth_view db) = api_token.truncate t # rest"
  proof -
    have "at_hash (api_token.truncate x) = at_hash x" for x :: stored_token by (simp add: api_token.truncate_def)
    moreover have "filter (\<lambda>x. at_hash x = hex_sha256 p) (tk_rows db) = [t]"
      using assms
    proof (induction "tk_rows db" arbitrary: db)
      case (Cons x xs)
      let ?d = "\<lparr>tk_rows = xs, tk_audit = tk_audit db\<rparr>"
      have u: "tokens_unique ?d" "at_hash x \<notin> at_hash ` set xs"
        using Cons.prems(1) Cons.hyps(2) [symmetric] by (auto simp: tokens_unique_def)
      show ?case
      proof (cases "x = t")
        case True
        then have "filter (\<lambda>x. at_hash x = hex_sha256 p) xs = []"
          using u(2) assms(3) by (auto simp: filter_empty_conv image_iff)
        then show ?thesis using True assms(3) by (simp add: Cons.hyps(2) [symmetric])
      next
        case False
        then have "t \<in> set xs" using Cons.prems(2) Cons.hyps(2) [symmetric] by simp
        moreover from this have "at_hash x \<noteq> hex_sha256 p" using u(2) assms(3) by (metis image_eqI)
        ultimately show ?thesis using Cons.hyps(1) [of ?d] u(1) assms(3) by (simp add: Cons.hyps(2) [symmetric])
      qed
    qed simp
    ultimately show ?thesis by (simp add: auth_view_def filter_map comp_def)
  qed
  then obtain rest where f: "filter (\<lambda>x. at_hash x = hex_sha256 p) (auth_view db) = api_token.truncate t # rest" ..
  show ?thesis by (simp add: handleAPIToken_def select_one_def f) (simp add: api_token.truncate_def split: option.split)
qed

section \<open>The specification: a store of grants\<close>

text \<open>What the rest of the system may rely on: a hash is granted once, stays granted until it is revoked, and is
  never granted again.\<close>

record grant =
  gr_id :: string
  gr_identity :: string
  gr_role :: string
  gr_org :: string
  gr_expires :: "time option"

record token_store =
  st_live :: "string \<rightharpoonup> grant"
  st_used :: "string set"

text \<open>What happens to the store, as the callers see it: nothing, a hash is granted, or an organisation revokes the
  token with an id.\<close>

datatype store_event = Idle | Grant string grant | Revoke string string

inductive store_step :: "token_store \<Rightarrow> store_event \<Rightarrow> token_store \<Rightarrow> bool" where
  idle: "store_step s Idle s"
| grant: "h \<notin> st_used s \<Longrightarrow> store_step s (Grant h g) (s\<lparr>st_live := (st_live s)(h \<mapsto> g), st_used := insert h (st_used s)\<rparr>)"
| revoke: "st_live s h = Some g \<Longrightarrow> h \<in> st_used s \<Longrightarrow> gr_id g = i \<Longrightarrow> gr_org g = org
    \<Longrightarrow> store_step s (Revoke i org) (s\<lparr>st_live := (st_live s)(h := None)\<rparr>)"

inductive_cases store_stepE: "store_step s l s'"

definition dead :: "string \<Rightarrow> token_store \<Rightarrow> bool" where
  "dead h s \<longleftrightarrow> h \<in> st_used s \<and> st_live s h = None"

interpretation dead_hash: step_machine "\<lambda>s s'. \<exists>l. store_step s l s'" "dead h" for h
  by unfold_locales (auto simp: dead_def elim: store_stepE)

definition grant_of :: "stored_token \<Rightarrow> grant" where
  "grant_of t = \<lparr>gr_id = at_id t, gr_identity = at_identity t, gr_role = at_role t, gr_org = at_org t, gr_expires = at_expires t\<rparr>"

definition store_of :: "token_db \<Rightarrow> token_store" where
  "store_of db = \<lparr>st_live = map_of (map (\<lambda>t. (at_hash t, grant_of t)) (filter (\<lambda>t. at_revoked t = None) (tk_rows db))),
     st_used = at_hash ` set (tk_rows db)\<rparr>"

lemma store_live_iff:
  assumes "tokens_unique db"
  shows "st_live (store_of db) h = Some g \<longleftrightarrow> (\<exists>t \<in> set (tk_rows db). at_hash t = h \<and> at_revoked t = None \<and> g = grant_of t)"
proof -
  have "distinct (map at_hash (filter (\<lambda>t. at_revoked t = None) (tk_rows db)))"
    using assms by (simp add: tokens_unique_def distinct_map_filter)
  then have "distinct (map fst (map (\<lambda>t. (at_hash t, grant_of t)) (filter (\<lambda>t. at_revoked t = None) (tk_rows db))))"
    by (simp add: comp_def)
  from map_of_eq_Some_iff [OF this] show ?thesis by (auto simp: store_of_def)
qed

lemma store_step_create:
  assumes "tk_rows db' = tk_rows db @ [t]" "at_hash t \<notin> at_hash ` set (tk_rows db)" "at_revoked t = None"
  shows "store_step (store_of db) (Grant (at_hash t) (grant_of t)) (store_of db')"
proof -
  have "map_of (map (\<lambda>t. (at_hash t, grant_of t)) (filter (\<lambda>t. at_revoked t = None) (tk_rows db))) (at_hash t) = None"
    using assms(2) by (auto simp: map_of_eq_None_iff)
  then have "store_of db' = (store_of db)\<lparr>st_live := (st_live (store_of db))(at_hash t \<mapsto> grant_of t),
      st_used := insert (at_hash t) (st_used (store_of db))\<rparr>"
    using assms by (auto simp: store_of_def map_add_def fun_eq_iff split: option.split)
  then show ?thesis using grant [of "at_hash t" "store_of db" "grant_of t"] assms(2) by (simp add: store_of_def)
qed

lemma store_step_revoke:
  assumes u: "tokens_unique db" and t: "t \<in> set (tk_rows db)" "revocable i org t" and rows: "tk_rows db' = revoke_row env i org db"
  shows "store_step (store_of db) (Revoke i org) (store_of db')" "dead (at_hash t) (store_of db')"
proof -
  have u': "tokens_unique db'" using u rows by (simp add: tokens_unique_def revoke_row_keys)
  have only: "x = t" if "x \<in> set (tk_rows db)" "at_id x = i" for x
    using u t that by (auto simp: tokens_unique_def revocable_def distinct_map inj_on_def)
  have used: "st_used (store_of db') = st_used (store_of db)"
    using arg_cong [OF revoke_row_keys(1), of set env i org db] rows by (simp add: store_of_def)
  have mem: "x \<in> set (tk_rows db') \<and> at_revoked x = None \<longleftrightarrow> x \<in> set (tk_rows db) \<and> at_revoked x = None \<and> x \<noteq> t" for x
  proof -
    have "x \<in> set (tk_rows db') \<longleftrightarrow> (\<exists>q \<in> set (tk_rows db). x = (if revocable i org q then q\<lparr>at_revoked := Some (te_now env)\<rparr> else q))"
      by (simp add: rows revoke_row_def in_update_where)
    also have "\<dots> \<longleftrightarrow> (\<exists>q \<in> set (tk_rows db). x = (if q = t then t\<lparr>at_revoked := Some (te_now env)\<rparr> else q))"
    proof (rule bex_cong [OF refl])
      fix q assume "q \<in> set (tk_rows db)"
      then have "revocable i org q \<longleftrightarrow> q = t" using only t(2) by (auto simp: revocable_def)
      then show "(x = (if revocable i org q then q\<lparr>at_revoked := Some (te_now env)\<rparr> else q))
          = (x = (if q = t then t\<lparr>at_revoked := Some (te_now env)\<rparr> else q))" by simp
    qed
    finally have x: "x \<in> set (tk_rows db') \<longleftrightarrow> (\<exists>q \<in> set (tk_rows db). x = (if q = t then t\<lparr>at_revoked := Some (te_now env)\<rparr> else q))" .
    have "t \<noteq> t\<lparr>at_revoked := Some (te_now env)\<rparr>" using t(2) by (auto simp: revocable_def dest: arg_cong [of _ _ at_revoked])
    then show ?thesis unfolding x using t by (cases "x = t") (auto split: if_splits)
  qed
  have hash: "at_hash x \<noteq> at_hash t" if "x \<in> set (tk_rows db)" "x \<noteq> t" for x
    using u t that by (auto simp: tokens_unique_def distinct_map inj_on_def)
  have "st_live (store_of db') h = Some g \<longleftrightarrow> ((st_live (store_of db))(at_hash t := None)) h = Some g" for h g
  proof -
    have "st_live (store_of db') h = Some g \<longleftrightarrow> (\<exists>x \<in> set (tk_rows db). at_hash x = h \<and> at_revoked x = None \<and> x \<noteq> t \<and> g = grant_of x)"
      unfolding store_live_iff [OF u'] using mem by blast
    also have "\<dots> \<longleftrightarrow> h \<noteq> at_hash t \<and> st_live (store_of db) h = Some g"
      unfolding store_live_iff [OF u] using hash by blast
    finally show ?thesis by simp
  qed
  then have "st_live (store_of db') h = ((st_live (store_of db))(at_hash t := None)) h" for h
    by (metis option.exhaust)
  then have st: "store_of db' = (store_of db)\<lparr>st_live := (st_live (store_of db))(at_hash t := None)\<rparr>"
    using used by (simp add: fun_eq_iff)
  moreover have "at_hash t \<in> st_used (store_of db)" using t(1) by (simp add: store_of_def)
  moreover have "st_live (store_of db) (at_hash t) = Some (grant_of t)" "gr_id (grant_of t) = i" "gr_org (grant_of t) = org"
    using t store_live_iff [OF u] by (auto simp: revocable_def grant_of_def)
  ultimately show "store_step (store_of db) (Revoke i org) (store_of db')" "dead (at_hash t) (store_of db')"
    using revoke [of "store_of db" "at_hash t" "grant_of t" i org] by (simp_all add: dead_def)
qed

text \<open>The event of an operation, read off its answer: a token that was handed out is granted with what the
  request asked for in the organisation of the caller; a revocation that succeeded revokes the id in that
  organisation; everything else is nothing.\<close>

fun event_of :: "token_op \<Rightarrow> token_db \<Rightarrow> store_event" where
  "event_of (Create_token jt env body) db =
     (case (fst (CreateAPIToken jt env body db), body, te_oc env) of
        (RespondJSON st resp, Some rq, Some oc) \<Rightarrow>
          if st \<noteq> 201 then Idle
          else Grant (hex_sha256 (tr_token resp))
            \<lparr>gr_id = tr_id resp, gr_identity = tq_identity rq, gr_role = tq_role rq, gr_org = oc_org oc,
             gr_expires = map_option pg_timestamp (token_expiry (te_clock env) (the (token_role (tq_role rq))) (tq_days rq))\<rparr>
      | _ \<Rightarrow> Idle)"
| "event_of (Revoke_token jt env i) db =
     (case te_oc env of
        Some oc \<Rightarrow> if success (fst (RevokeAPIToken jt env i db)) then Revoke i (oc_org oc) else Idle
      | None \<Rightarrow> Idle)"

lemma token_role_string: "token_role s = Some r \<Longrightarrow> role_string r = s"
  by (auto simp: token_role_def RoleFromString_def find_Some_iff split: option.splits if_splits)

lemma token_step_sim:
  assumes u: "tokens_unique db"
  shows "store_step (store_of db) (event_of op db) (store_of (token_step op db))"
  using u
proof (induction op db rule: token_step.induct)
  case (1 jt env body db)
  from CreateAPIToken_outcome [of jt env body db] show ?case
  proof (elim disjE exE conjE)
    assume "tk_rows (snd (CreateAPIToken jt env body db)) = tk_rows db" "\<not> success (fst (CreateAPIToken jt env body db))"
    then show ?thesis by (cases "fst (CreateAPIToken jt env body db)") (auto simp: store_of_def idle split: option.split)
  next
    fix rq oc r bytes resp
    assume h: "body = Some rq" "te_oc env = Some oc" "token_role (tq_role rq) = Some r" "fst (CreateAPIToken jt env body db) = RespondJSON 201 resp"
        "tr_token resp = mint_token bytes" "tr_id resp = te_new_id env"
      and "\<not> list_ex (\<lambda>x. at_hash x = hex_sha256 (mint_token bytes) \<or> at_id x = te_new_id env) (tk_rows db)"
      and rows: "tk_rows (snd (CreateAPIToken jt env body db)) = tk_rows db @ [new_token env oc rq r (mint_token bytes)]"
    then have "at_hash (new_token env oc rq r (mint_token bytes)) \<notin> at_hash ` set (tk_rows db)"
      by (auto simp: new_token_def list_ex_iff image_iff)
    from store_step_create [OF rows this] h token_role_string [OF h(3)] show ?thesis by (simp add: new_token_def grant_of_def)
  qed
next
  case (2 jt env i db)
  from RevokeAPIToken_outcome [of jt env i db] show ?case
  proof (elim disjE exE conjE)
    assume "tk_rows (snd (RevokeAPIToken jt env i db)) = tk_rows db" "\<not> success (fst (RevokeAPIToken jt env i db))"
    then show ?thesis by (auto simp: store_of_def idle split: option.split)
  next
    fix oc t
    assume "t \<in> set (tk_rows db)" "revocable i (oc_org oc) t" "tk_rows (snd (RevokeAPIToken jt env i db)) = revoke_row env i (oc_org oc) db"
      and "te_oc env = Some oc" "success (fst (RevokeAPIToken jt env i db))"
    then show ?thesis using store_step_revoke(1) [OF 2] by simp
  qed
qed

interpretation token_table: simulation token_step event_of store_step store_of tokens_unique
  by unfold_locales (simp_all add: token_step_sim token_step_unique)

definition in_time :: "time \<Rightarrow> grant \<Rightarrow> bool" where
  "in_time now g = (case gr_expires g of None \<Rightarrow> True | Some e \<Rightarrow> now \<le> e)"

text \<open>The claims of a request that carries a token with this grant.\<close>

definition token_verdict :: "grant \<Rightarrow> role \<Rightarrow> verdict" where
  "token_verdict g r = Pass (Some \<lparr>jc_sub = ''api-token:'' @ gr_id g, jc_username = ''api-token:'' @ gr_identity g, jc_email = [],
     jc_is_admin = (r = RoleSuperAdmin), jc_role = r\<rparr>)
     (Some \<lparr>oc_org = gr_org g, oc_role = (if r = RoleSuperAdmin then OrgMembershipRoleAdmin else [])\<rparr>)"

lemma handleAPIToken_live:
  assumes u: "tokens_unique db" and g: "st_live (store_of db) (hex_sha256 p) = Some g" and "in_time now g" "RoleFromString (gr_role g) = Some r"
  shows "handleAPIToken True None now (auth_view db) p = token_verdict g r"
proof -
  obtain t where "t \<in> set (tk_rows db)" "at_hash t = hex_sha256 p" "at_revoked t = None" "g = grant_of t"
    using g store_live_iff [OF u] by blast
  then show ?thesis
    using handleAPIToken_row [OF u, of t p now] assms(3, 4)
    by (auto simp: token_verdict_def in_time_def grant_of_def split: option.splits)
qed

lemma handleAPIToken_dead:
  assumes u: "tokens_unique db" and d: "dead (hex_sha256 p) (store_of db)"
  shows "handleAPIToken True None now (auth_view db) p = Reject 401 ''unauthorized: token has been revoked''"
proof -
  obtain t where t: "t \<in> set (tk_rows db)" "at_hash t = hex_sha256 p" using d by (auto simp: dead_def store_of_def)
  then have "at_revoked t \<noteq> None" using d store_live_iff [OF u, of "hex_sha256 p"] by (auto simp: dead_def)
  then show ?thesis using handleAPIToken_row [OF u t] by simp
qed

text \<open>What the store says about a token at a time: nothing known, revoked, expired, of an unknown role, or the
  claims of its grant.\<close>

definition store_verdict :: "token_store \<Rightarrow> time \<Rightarrow> string \<Rightarrow> verdict" where
  "store_verdict s now h =
     (case st_live s h of
        None \<Rightarrow> Reject 401 (if h \<in> st_used s then ''unauthorized: token has been revoked'' else ''unauthorized: invalid API token'')
      | Some g \<Rightarrow>
          if \<not> in_time now g then Reject 401 ''unauthorized: token has expired''
          else (case RoleFromString (gr_role g) of
                  None \<Rightarrow> Reject 401 ''unauthorized: invalid API token role''
                | Some r \<Rightarrow> token_verdict g r))"

lemma handleAPIToken_unknown:
  assumes "hex_sha256 p \<notin> at_hash ` set (tk_rows db)"
  shows "handleAPIToken True None now (auth_view db) p = Reject 401 ''unauthorized: invalid API token''"
proof -
  have "at_hash (api_token.truncate x) = at_hash x" for x :: stored_token by (simp add: api_token.truncate_def)
  then have "filter (\<lambda>x. at_hash x = hex_sha256 p) (auth_view db) = []"
    using assms by (force simp: auth_view_def filter_empty_conv)
  then show ?thesis by (simp add: handleAPIToken_def select_one_def)
qed

lemma handleAPIToken_store:
  assumes u: "tokens_unique db"
  shows "handleAPIToken True None now (auth_view db) p = store_verdict (store_of db) now (hex_sha256 p)"
proof (cases "st_live (store_of db) (hex_sha256 p)")
  case None
  have used: "st_used (store_of db) = at_hash ` set (tk_rows db)" by (simp add: store_of_def)
  show ?thesis
  proof (cases "hex_sha256 p \<in> st_used (store_of db)")
    case True
    with None handleAPIToken_dead [OF u] show ?thesis by (simp add: store_verdict_def dead_def)
  next
    case False
    with None handleAPIToken_unknown [of p db now] used show ?thesis by (simp add: store_verdict_def)
  qed
next
  case (Some g)
  then obtain t where t: "t \<in> set (tk_rows db)" "at_hash t = hex_sha256 p" "at_revoked t = None" "g = grant_of t"
    using store_live_iff [OF u] by blast
  show ?thesis
    unfolding handleAPIToken_row [OF u t(1,2)]
    using t(3,4) Some by (auto simp: store_verdict_def token_verdict_def in_time_def grant_of_def split: option.splits)
qed

lemma token_role_known: "token_role s = Some r \<Longrightarrow> r \<in> set validTokenRoles"
  by (auto simp: token_role_def split: option.splits if_splits)

lemma RoleFromString_role_string: "RoleFromString (role_string r) = Some r"
  by (cases r) (simp_all add: RoleFromString_def)

text \<open>C20. The table of API tokens refines a store of grants, in which a hash is granted once, stays granted until it
  is revoked and never comes back.  Every run of the handlers is a run of the store, whatever statements
  fail, under the events of its answers: a creation answered with success grants the hash of the token that was handed out, for the identity,
  role and expiry of the request and the organisation of the caller; a revocation answered with success takes away a live token with that id
  in that organisation; everything else does nothing.  When the query is answered, the middleware accepts a token exactly when the store has
  a live grant of its hash that is in time and of a known role, and then with the role and the organisation of the grant; unknown, revoked and expired
  tokens are refused, a revoked one for ever.\<close>

theorem token_table_refines_store:
  assumes "tokens_unique db"
  shows "labelled_path store_step (store_of db) (labels_of event_of token_step ops db) (store_of (fold token_step ops db))
    \<and> (handleAPIToken True None now (auth_view (fold token_step ops db)) p = Pass c oc \<longleftrightarrow>
         (\<exists>g r. st_live (store_of (fold token_step ops db)) (hex_sha256 p) = Some g \<and> (\<forall>e. gr_expires g = Some e \<longrightarrow> now \<le> e)
            \<and> RoleFromString (gr_role g) = Some r \<and> Pass c oc = token_verdict g r))
    \<and> (dead (hex_sha256 p) (store_of db) \<longrightarrow>
         handleAPIToken True None now (auth_view (fold token_step ops db)) p = Reject 401 ''unauthorized: token has been revoked'')"
proof (intro conjI impI)
  have u: "tokens_unique (fold token_step ops db)" by (rule token_table.run_keeps [OF assms])
  show run: "labelled_path store_step (store_of db) (labels_of event_of token_step ops db) (store_of (fold token_step ops db))"
    by (rule token_table.run_refines [OF assms])
  show "handleAPIToken True None now (auth_view (fold token_step ops db)) p = Pass c oc \<longleftrightarrow>
      (\<exists>g r. st_live (store_of (fold token_step ops db)) (hex_sha256 p) = Some g \<and> (\<forall>e. gr_expires g = Some e \<longrightarrow> now \<le> e)
         \<and> RoleFromString (gr_role g) = Some r \<and> Pass c oc = token_verdict g r)"
    unfolding handleAPIToken_store [OF u]
    by (auto simp: store_verdict_def token_verdict_def in_time_def split: option.splits)
  show "handleAPIToken True None now (auth_view (fold token_step ops db)) p = Reject 401 ''unauthorized: token has been revoked''"
    if "dead (hex_sha256 p) (store_of db)"
    by (rule handleAPIToken_dead [OF u dead_hash.moves_inv [OF labelled_path_moves [OF run] that]])
qed

definition sample_token :: stored_token where
  "sample_token = \<lparr>at_id = ''t1'', at_hash = hex_sha256 ''fc_00'', at_role = ''auditor'', at_identity = ''ci'', at_org = ''o1'',
     at_revoked = Some 3000, at_expires = None, tk_name = ''ci'', tk_by = ''op'', tk_created = 1000\<rparr>"

theorem token_table_refines_store_witness:
  "handleAPIToken True None 9000 (auth_view \<lparr>tk_rows = [sample_token\<lparr>at_revoked := None\<rparr>], tk_audit = empty_audit_db\<rparr>) ''fc_00''
     = token_verdict (grant_of sample_token) RoleAuditor
   \<and> handleAPIToken True None 9000 (auth_view \<lparr>tk_rows = [sample_token], tk_audit = empty_audit_db\<rparr>) ''fc_00''
     = Reject 401 ''unauthorized: token has been revoked''"
proof
  let ?live = "\<lparr>tk_rows = [sample_token\<lparr>at_revoked := None\<rparr>], tk_audit = empty_audit_db\<rparr>"
  let ?dead = "\<lparr>tk_rows = [sample_token], tk_audit = empty_audit_db\<rparr>"
  have u: "tokens_unique ?live" "tokens_unique ?dead" by (simp_all add: tokens_unique_def)
  have "st_live (store_of ?live) (hex_sha256 ''fc_00'') = Some (grant_of sample_token)" "RoleFromString (gr_role (grant_of sample_token)) = Some RoleAuditor"
    "gr_expires (grant_of sample_token) = None"
    by (simp_all add: store_of_def sample_token_def grant_of_def RoleFromString_def)
  then show "handleAPIToken True None 9000 (auth_view ?live) ''fc_00'' = token_verdict (grant_of sample_token) RoleAuditor"
    using token_table_refines_store [OF u(1), of "[]" 9000 "''fc_00''"] by (simp add: token_verdict_def)
  have "dead (hex_sha256 ''fc_00'') (store_of ?dead)" by (simp add: dead_def store_of_def sample_token_def)
  with token_table_refines_store [OF u(2), of "[]"] show "handleAPIToken True None 9000 (auth_view ?dead) ''fc_00'' = Reject 401 ''unauthorized: token has been revoked''"
    by simp
qed

section \<open>Created and revoked tokens\<close>

lemma token_expiry_bound:
  assumes "0 \<le> days" "days \<le> MaxAPITokenTTLDays" "r \<noteq> RoleSuperAdmin \<or> days \<noteq> 0"
  shows "\<exists>e. token_expiry now r days = Some e \<and> now < e \<and> e \<le> now + 365 * (24 * hour)"
  using assms by (simp add: token_expiry_def MaxAPITokenTTLDays_def DefaultAPITokenTTLDays_def hour_def minute_def second_def)

lemma token_errors_days: "token_errors rq = [] \<Longrightarrow> 0 \<le> tq_days rq \<and> tq_days rq \<le> MaxAPITokenTTLDays"
  by (auto simp: token_errors_def split: if_splits)

text \<open>From creation to revocation: the token an administrator is shown opens requests with the role that was
  asked for, in the organisation of its creator, until it expires, and every token but a super-admin one
  expires within a year.  Once a revocation has answered with success, the token stays refused through
  everything the handlers do later.\<close>

theorem api_token_lifecycle:
  assumes u: "tokens_unique db"
    and cr: "CreateAPIToken jt env (Some rq) db = (RespondJSON 201 resp, db')"
  shows "\<exists>oc r. te_oc env = Some oc \<and> token_role (tq_role rq) = Some r
     \<and> (\<forall>now. (case map_option pg_timestamp (token_expiry (te_clock env) r (tq_days rq)) of Some e \<Rightarrow> now \<le> e | None \<Rightarrow> True) \<longrightarrow>
           handleAPIToken True None now (auth_view db') (tr_token resp)
             = token_verdict (grant_of (new_token env oc rq r (tr_token resp))) r)
     \<and> (r \<noteq> RoleSuperAdmin \<longrightarrow> (\<exists>e. token_expiry (te_clock env) r (tq_days rq) = Some e \<and> e \<le> te_clock env + 365 * (24 * hour)))
     \<and> (\<forall>jt' env' ops now. success (fst (RevokeAPIToken jt' env' (tr_id resp) db')) \<longrightarrow>
           handleAPIToken True None now (auth_view (fold token_step ops (snd (RevokeAPIToken jt' env' (tr_id resp) db')))) (tr_token resp)
             = Reject 401 ''unauthorized: token has been revoked'')"
proof -
  from CreateAPIToken_outcome [of jt env "Some rq" db] cr obtain oc r bytes where
    oc: "te_oc env = Some oc" and ok: "token_errors rq = []" and r: "token_role (tq_role rq) = Some r"
    and p: "tr_token resp = mint_token bytes" and i: "tr_id resp = te_new_id env"
    and rows: "tk_rows db' = tk_rows db @ [new_token env oc rq r (mint_token bytes)]"
    and fresh: "\<not> list_ex (\<lambda>x. at_hash x = hex_sha256 (mint_token bytes) \<or> at_id x = te_new_id env) (tk_rows db)"
    by auto
  let ?t = "new_token env oc rq r (mint_token bytes)"
  have u': "tokens_unique db'" using token_step_unique [OF u, of "Create_token jt env (Some rq)"] cr by simp
  have t: "?t \<in> set (tk_rows db')" "at_hash ?t = hex_sha256 (tr_token resp)" "at_id ?t = tr_id resp"
    by (simp_all add: rows p i new_token_def)
  have live: "st_live (store_of db') (hex_sha256 (tr_token resp)) = Some (grant_of ?t)"
  proof -
    have "at_revoked ?t = None" by (simp add: new_token_def)
    with t(1, 2) show ?thesis using store_live_iff [OF u'] by blast
  qed
  have role: "RoleFromString (gr_role (grant_of ?t)) = Some r" by (simp add: grant_of_def new_token_def RoleFromString_role_string)
  have opens: "handleAPIToken True None now (auth_view db') (tr_token resp) = token_verdict (grant_of ?t) r"
    if "case map_option pg_timestamp (token_expiry (te_clock env) r (tq_days rq)) of Some e \<Rightarrow> now \<le> e | None \<Rightarrow> True" for now
    by (rule handleAPIToken_live [OF u' live _ role]) (use that in \<open>auto simp: in_time_def grant_of_def new_token_def split: option.splits\<close>)
  have dead: "handleAPIToken True None now (auth_view (fold token_step ops (snd (RevokeAPIToken jt' env' (tr_id resp) db')))) (tr_token resp)
      = Reject 401 ''unauthorized: token has been revoked''" if ok: "success (fst (RevokeAPIToken jt' env' (tr_id resp) db'))" for jt' env' ops now
  proof -
    obtain oc' :: org_context and t' where t': "t' \<in> set (tk_rows db')" "revocable (tr_id resp) (oc_org oc') t'"
        "tk_rows (snd (RevokeAPIToken jt' env' (tr_id resp) db')) = revoke_row env' (tr_id resp) (oc_org oc') db'"
      using RevokeAPIToken_outcome [of jt' env' "tr_id resp" db'] ok by blast
    then have "t' = ?t" using u' t by (auto simp: tokens_unique_def revocable_def distinct_map inj_on_def)
    with store_step_revoke(2) [OF u' t'] t have "dead (hex_sha256 (tr_token resp)) (store_of (snd (RevokeAPIToken jt' env' (tr_id resp) db')))" by simp
    moreover have u2: "tokens_unique (snd (RevokeAPIToken jt' env' (tr_id resp) db'))"
      using token_step_unique [OF u', of "Revoke_token jt' env' (tr_id resp)"] by simp
    ultimately show ?thesis
      using handleAPIToken_dead [OF token_table.run_keeps [OF u2]] dead_hash.moves_inv [OF labelled_path_moves [OF token_table.run_refines [OF u2]]] by blast
  qed
  have bound: "\<exists>e. token_expiry (te_clock env) r (tq_days rq) = Some e \<and> e \<le> te_clock env + 365 * (24 * hour)" if "r \<noteq> RoleSuperAdmin"
    using token_expiry_bound [of "tq_days rq" r "te_clock env"] token_errors_days [OF ok] that by auto
  show ?thesis using oc r opens dead bound p by metis
qed


definition sample_token_env :: token_env where
  "sample_token_env = \<lparr>te_has_db = True, te_oc = Some \<lparr>oc_org = ''o1'', oc_role = ''org-admin''\<rparr>, te_actor = ''op'', te_random = Inr ''R'',
     te_clock = 5000, te_now = 5000, te_begin = None, te_query = None, te_new_id = ''t2'',
     te_audit = \<lparr>we_begin = None, we_lock = None, we_head = None, we_canonicalise = None, we_insert = None, we_commit = None, tx_now = 5000\<rparr>,
     te_commit = None, te_rows_err = None\<rparr>"

definition sample_token_request :: token_request where
  "sample_token_request = \<lparr>tq_name = ''ci'', tq_role = ''auditor'', tq_identity = ''ci'', tq_days = 30\<rparr>"

theorem api_token_lifecycle_witness:
  "\<exists>resp db'. CreateAPIToken (\<lambda>b. b) sample_token_env (Some sample_token_request) \<lparr>tk_rows = [], tk_audit = empty_audit_db\<rparr> = (RespondJSON 201 resp, db')
     \<and> (\<exists>c oc. handleAPIToken True None 6000 (auth_view db') (tr_token resp) = Pass c (Some oc) \<and> oc_org oc = ''o1'')"
proof -
  let ?db = "\<lparr>tk_rows = [], tk_audit = empty_audit_db\<rparr> :: token_db"
  have role: "token_role ''auditor'' = Some RoleAuditor" by code_simp
  have ok: "token_errors sample_token_request = []"
    by (simp add: token_errors_def sample_token_request_def role MaxAPITokenTTLDays_def)
  obtain resp db' where cr: "CreateAPIToken (\<lambda>b. b) sample_token_env (Some sample_token_request) ?db = (RespondJSON 201 resp, db')"
    using ok by (simp add: CreateAPIToken_def sample_token_env_def with_audit_def writeAuditEntry_def WriteEntry_def chainHead_def
        empty_audit_db_def order_by_seq_def auditOrgIDFromContext_def Let_def)
  have "tokens_unique ?db" by (simp add: tokens_unique_def)
  from api_token_lifecycle [OF this cr] obtain oc where oc: "te_oc sample_token_env = Some oc"
    and h: "(case map_option pg_timestamp (token_expiry (te_clock sample_token_env) RoleAuditor (tq_days sample_token_request)) of Some e \<Rightarrow> 6000 \<le> e | None \<Rightarrow> True) \<longrightarrow>
        handleAPIToken True None 6000 (auth_view db') (tr_token resp)
          = token_verdict (grant_of (new_token sample_token_env oc sample_token_request RoleAuditor (tr_token resp))) RoleAuditor"
    using role by (auto simp: sample_token_request_def)
  have "case map_option pg_timestamp (token_expiry (te_clock sample_token_env) RoleAuditor (tq_days sample_token_request)) of Some e \<Rightarrow> 6000 \<le> e | None \<Rightarrow> True"
    by (simp add: token_expiry_def sample_token_env_def sample_token_request_def pg_timestamp_def hour_def minute_def second_def)
  with h oc cr show ?thesis
    by (auto simp: token_verdict_def grant_of_def new_token_def sample_token_env_def)
qed

end
