(* ===== verification/Keycloak_Client.thy ===== *)
theory Keycloak_Client
  imports Lifecycle
begin

text \<open>
  The part of \<open>internal/keycloak/client.go\<close> behind the SCIM, group, user and application handlers: the
  cached admin token, profile updates, groups tagged with their organisation, client roles, and the
  configuration of SAML clients.  (User creation, deletion and logout are in \<open>Lifecycle\<close>.)

  The realm is the state of the server: the users and memberships of \<^typ>\<open>idp\<close>, what was last written to
  each profile, the groups and the client roles.  Whether a request is answered, and the text of the
  error when it is not, is a parameter; so is the result of the server's own group search.
\<close>

section \<open>The admin token\<close>

definition tokenExpiryBuffer :: duration where
  "tokenExpiryBuffer = 30 * second"

record kc_login_state =
  lg_token :: string
  lg_expiry :: time

text \<open>\<open>login\<close> at a time, with the server's answer to a fresh login: a token and its lifetime in seconds.\<close>

definition login :: "time \<Rightarrow> string + string \<times> int \<Rightarrow> kc_login_state \<Rightarrow> (string + string) \<times> kc_login_state" where
  "login now answer k =
     (if lg_token k \<noteq> [] \<and> now + tokenExpiryBuffer < lg_expiry k then (Inr (lg_token k), k)
      else case answer of
        Inl e \<Rightarrow> (Inl (''keycloak login: '' @ e), k)
      | Inr (tok, secs) \<Rightarrow> (Inr tok, \<lparr>lg_token = tok, lg_expiry = now + secs * second\<rparr>))"

section \<open>The realm\<close>

record kc_profile =
  kp_first :: string
  kp_last :: string
  kp_department :: string
  kp_enabled :: bool

record kc_group =
  gr_id :: "string option"
  gr_name :: "string option"
  gr_attrs :: "(string \<times> string list) list option"

record realm =
  rl_idp :: idp
  rl_profiles :: "string \<rightharpoonup> kc_profile"
  rl_groups :: "kc_group list"
  rl_client_roles :: "string list"
  rl_assigned :: "(string \<times> string) list"

section \<open>Profiles\<close>

definition UpdateUser :: "kc_env \<Rightarrow> string \<Rightarrow> string \<Rightarrow> string \<Rightarrow> string \<Rightarrow> bool \<Rightarrow> realm \<Rightarrow> string option \<times> realm" where
  "UpdateUser env userID firstName lastName department enabled rl =
     (case kc_login env of Some e \<Rightarrow> (Some e, rl) | None \<Rightarrow>
      case kc_get env of Some e \<Rightarrow> (Some (''get user '' @ userID @ '': '' @ e), rl) | None \<Rightarrow>
      case kc_update env of Some e \<Rightarrow> (Some (''update keycloak user '' @ userID @ '': '' @ e), rl)
      | None \<Rightarrow> (None, rl\<lparr>rl_idp := (rl_idp rl)\<lparr>kc_users := map (\<lambda>u. if fst u = userID then (userID, enabled) else u) (kc_users (rl_idp rl))\<rparr>,
           rl_profiles := (rl_profiles rl)(userID \<mapsto> \<lparr>kp_first = firstName, kp_last = lastName, kp_department = department, kp_enabled = enabled\<rparr>)\<rparr>))"

definition SendPasswordReset :: "kc_env \<Rightarrow> string \<Rightarrow> string option" where
  "SendPasswordReset env userID =
     (case kc_login env of Some e \<Rightarrow> Some e
      | None \<Rightarrow> map_option (\<lambda>e. ''execute actions email for user '' @ userID @ '': '' @ e) (kc_email env))"

section \<open>Groups\<close>

text \<open>The answers of the server to the requests of one group call: an error of the login or the request,
  the text with which it reports an unknown group, what its search returned, and the id of a new group.\<close>

record group_env =
  ge_login :: "string option"
  ge_call :: "string option"
  ge_missing :: string
  ge_found :: "kc_group list"
  ge_new_id :: string

definition GroupOrgAttribute :: string where
  "GroupOrgAttribute = ''org_id''"

definition GroupOrgID :: "kc_group \<Rightarrow> string" where
  "GroupOrgID g =
     (case gr_attrs g of None \<Rightarrow> []
      | Some attrs \<Rightarrow> (case map_of attrs GroupOrgAttribute of Some (v # _) \<Rightarrow> v | _ \<Rightarrow> []))"

definition ListGroupsByOrg :: "group_env \<Rightarrow> string \<Rightarrow> string + kc_group list" where
  "ListGroupsByOrg env orgID =
     (case ge_login env of Some e \<Rightarrow> Inl e | None \<Rightarrow>
      case ge_call env of Some e \<Rightarrow> Inl (''list groups for org '' @ orgID @ '': '' @ e)
      | None \<Rightarrow> Inr (filter (\<lambda>g. GroupOrgID g = orgID) (ge_found env)))"

definition ListGroups :: "group_env \<Rightarrow> realm \<Rightarrow> string + kc_group list" where
  "ListGroups env rl =
     (case ge_login env of Some e \<Rightarrow> Inl e | None \<Rightarrow>
      case ge_call env of Some e \<Rightarrow> Inl (''list groups: '' @ e) | None \<Rightarrow> Inr (rl_groups rl))"

definition CreateGroupWithOrgID :: "group_env \<Rightarrow> string \<Rightarrow> string \<Rightarrow> realm \<Rightarrow> (string + string) \<times> realm" where
  "CreateGroupWithOrgID env name orgID rl =
     (case ge_login env of Some e \<Rightarrow> (Inl e, rl) | None \<Rightarrow>
      case ge_call env of Some e \<Rightarrow> (Inl (''create group '' @ name @ '': '' @ e), rl)
      | None \<Rightarrow> (Inr (ge_new_id env), rl\<lparr>rl_groups := rl_groups rl @ [\<lparr>gr_id = Some (ge_new_id env), gr_name = Some name,
           gr_attrs = Some [(GroupOrgAttribute, [orgID])]\<rparr>]\<rparr>))"

definition AddUserToGroup :: "group_env \<Rightarrow> string \<Rightarrow> string \<Rightarrow> realm \<Rightarrow> string option \<times> realm" where
  "AddUserToGroup env userID groupID rl =
     (case ge_login env of Some e \<Rightarrow> (Some e, rl) | None \<Rightarrow>
      case ge_call env of Some e \<Rightarrow> (Some (''add user '' @ userID @ '' to group '' @ groupID @ '': '' @ e), rl)
      | None \<Rightarrow> (None, if (userID, groupID) \<in> set (kc_members (rl_idp rl)) then rl
                      else rl\<lparr>rl_idp := (rl_idp rl)\<lparr>kc_members := kc_members (rl_idp rl) @ [(userID, groupID)]\<rparr>\<rparr>))"

definition RemoveUserFromGroup :: "group_env \<Rightarrow> string \<Rightarrow> string \<Rightarrow> realm \<Rightarrow> string option \<times> realm" where
  "RemoveUserFromGroup env userID groupID rl =
     (case ge_login env of Some e \<Rightarrow> (Some e, rl) | None \<Rightarrow>
      case ge_call env of Some e \<Rightarrow> (Some (''remove user '' @ userID @ '' from group '' @ groupID @ '': '' @ e), rl)
      | None \<Rightarrow> (None, rl\<lparr>rl_idp := (rl_idp rl)\<lparr>kc_members := delete_where (\<lambda>m. m = (userID, groupID)) (kc_members (rl_idp rl))\<rparr>\<rparr>))"

definition GetGroupByID :: "group_env \<Rightarrow> string \<Rightarrow> realm \<Rightarrow> string + kc_group" where
  "GetGroupByID env groupID rl =
     (case ge_login env of Some e \<Rightarrow> Inl e | None \<Rightarrow>
      case ge_call env of Some e \<Rightarrow> Inl (''get group '' @ groupID @ '': '' @ e) | None \<Rightarrow>
      case find (\<lambda>g. gr_id g = Some groupID) (rl_groups rl) of
        None \<Rightarrow> Inl (''get group '' @ groupID @ '': '' @ ge_missing env)
      | Some g \<Rightarrow> Inr g)"

definition ListGroupMembers :: "group_env \<Rightarrow> string \<Rightarrow> realm \<Rightarrow> string + string list" where
  "ListGroupMembers env groupID rl =
     (case ge_login env of Some e \<Rightarrow> Inl e | None \<Rightarrow>
      case ge_call env of Some e \<Rightarrow> Inl (''list members of group '' @ groupID @ '': '' @ e)
      | None \<Rightarrow> Inr (map fst (filter (\<lambda>m. snd m = groupID) (kc_members (rl_idp rl)))))"

definition RenameGroup :: "group_env \<Rightarrow> string \<Rightarrow> string \<Rightarrow> realm \<Rightarrow> string option \<times> realm" where
  "RenameGroup env groupID newName rl =
     (case ge_login env of Some e \<Rightarrow> (Some e, rl) | None \<Rightarrow>
      case ge_call env of Some e \<Rightarrow> (Some (''rename group '' @ groupID @ '': '' @ e), rl)
      | None \<Rightarrow> (None, rl\<lparr>rl_groups := update_where (\<lambda>g. gr_id g = Some groupID) (\<lambda>g. g\<lparr>gr_name := Some newName\<rparr>) (rl_groups rl)\<rparr>))"

definition DeleteGroup :: "group_env \<Rightarrow> string \<Rightarrow> realm \<Rightarrow> string option \<times> realm" where
  "DeleteGroup env groupID rl =
     (case ge_login env of Some e \<Rightarrow> (Some e, rl) | None \<Rightarrow>
      case ge_call env of Some e \<Rightarrow> (Some (''delete group '' @ groupID @ '': '' @ e), rl)
      | None \<Rightarrow> (None, rl\<lparr>rl_groups := delete_where (\<lambda>g. gr_id g = Some groupID) (rl_groups rl),
           rl_idp := (rl_idp rl)\<lparr>kc_members := delete_where (\<lambda>m. snd m = groupID) (kc_members (rl_idp rl))\<rparr>\<rparr>))"

section \<open>Client roles\<close>

definition isNotFoundErr :: "string \<Rightarrow> bool" where
  "isNotFoundErr msg \<longleftrightarrow> str_contains ''404'' msg \<or> str_contains ''not found'' (to_lower msg) \<or> str_contains ''could not find'' (to_lower msg)"

definition isConflictErr :: "string \<Rightarrow> bool" where
  "isConflictErr msg \<longleftrightarrow> str_contains ''409'' msg \<or> str_contains ''conflict'' (to_lower msg)"

text \<open>The answers to the requests of \<open>AssignUserToClient\<close> and \<open>UnassignUserFromClient\<close>; the server says
  itself that a role exists or is missing, with the texts \<open>re_exists\<close> and \<open>re_absent\<close>.\<close>

record role_env =
  re_login :: "string option"
  re_create :: "string option"
  re_exists :: string
  re_get :: "string option"
  re_absent :: string
  re_map :: "string option"

definition AssignUserToClient :: "role_env \<Rightarrow> string \<Rightarrow> string \<Rightarrow> realm \<Rightarrow> string option \<times> realm" where
  "AssignUserToClient env userID clientID rl =
     (case re_login env of Some e \<Rightarrow> (Some e, rl) | None \<Rightarrow>
      (let present = clientID \<in> set (rl_client_roles rl);
           create_err = (case re_create env of Some e \<Rightarrow> Some e | None \<Rightarrow> if present then Some (re_exists env) else None);
           rl1 = (if create_err = None then rl\<lparr>rl_client_roles := rl_client_roles rl @ [clientID]\<rparr> else rl)
       in if create_err \<noteq> None \<and> \<not> isConflictErr (the create_err)
          then (Some (''create client role '' @ the create_err), rl1)
          else case (case re_get env of Some e \<Rightarrow> Some e
                     | None \<Rightarrow> if clientID \<in> set (rl_client_roles rl1) then None else Some (re_absent env)) of
            Some e \<Rightarrow> (Some (''get client role: '' @ e), rl1)
          | None \<Rightarrow>
              (case re_map env of
                 Some e \<Rightarrow> (Some (''assign user '' @ userID @ '' to client '' @ clientID @ '': '' @ e), rl1)
               | None \<Rightarrow> (None, if (clientID, userID) \<in> set (rl_assigned rl1) then rl1
                               else rl1\<lparr>rl_assigned := rl_assigned rl1 @ [(clientID, userID)]\<rparr>))))"

definition UnassignUserFromClient :: "role_env \<Rightarrow> string \<Rightarrow> string \<Rightarrow> realm \<Rightarrow> string option \<times> realm" where
  "UnassignUserFromClient env userID clientID rl =
     (case re_login env of Some e \<Rightarrow> (Some e, rl) | None \<Rightarrow>
      case (case re_get env of Some e \<Rightarrow> Some e
            | None \<Rightarrow> if clientID \<in> set (rl_client_roles rl) then None else Some (re_absent env)) of
        Some e \<Rightarrow> (if isNotFoundErr e then None else Some (''get client role: '' @ e), rl)
      | None \<Rightarrow>
          (case re_map env of
             Some e \<Rightarrow> (Some (''unassign user '' @ userID @ '' from client '' @ clientID @ '': '' @ e), rl)
           | None \<Rightarrow> (None, rl\<lparr>rl_assigned := delete_where (\<lambda>x. x = (clientID, userID)) (rl_assigned rl)\<rparr>)))"

section \<open>SAML clients\<close>

definition slug_byte :: "char \<Rightarrow> bool" where
  "slug_byte c \<longleftrightarrow> is_digit c \<or> 97 \<le> byte c \<and> byte c \<le> 122"

text \<open>\<open>nonAlphanumRe.ReplaceAllString\<close>: every maximal run of other bytes becomes one dash.\<close>

function dash_runs :: "string \<Rightarrow> string" where
  "dash_runs [] = []"
| "dash_runs (c # s) = (if slug_byte c then c # dash_runs s else CHR ''-'' # dash_runs (dropWhile (\<lambda>d. \<not> slug_byte d) s))"
  by pat_completeness auto
termination dash_runs
  by (relation "measure length") (auto simp: le_imp_less_Suc length_dropWhile_le)

definition trim_char :: "char \<Rightarrow> string \<Rightarrow> string" where
  "trim_char c s = rev (dropWhile (\<lambda>d. d = c) (rev (dropWhile (\<lambda>d. d = c) s)))"

definition samlSlug :: "string \<Rightarrow> string" where
  "samlSlug name = (let s = trim_char (CHR ''-'') (dash_runs (lower name)) in if s = [] then ''app'' else s)"

record saml_options =
  so_signing :: string
  so_encrypt :: bool
  so_name_id :: string
  so_mappings :: "(string \<times> string) list"

definition validSigningAlgorithms :: "string list" where
  "validSigningAlgorithms = [''RSA_SHA256'', ''RSA_SHA512'', ''RSA_SHA1'']"

definition validNameIDFormats :: "string list" where
  "validNameIDFormats = [''persistent'', ''transient'', ''email'', ''unspecified'']"

definition buildSAMLAttributes :: "string \<Rightarrow> string \<Rightarrow> string \<Rightarrow> saml_options option \<Rightarrow> (string \<times> string) list" where
  "buildSAMLAttributes name acsURL entityID opts =
     (let signingAlgo = (case opts of Some o' \<Rightarrow> if so_signing o' \<in> set validSigningAlgorithms then so_signing o' else ''RSA_SHA256''
                         | None \<Rightarrow> ''RSA_SHA256'');
          encryptAssertions = (case opts of Some o' \<Rightarrow> if so_encrypt o' then ''true'' else ''false'' | None \<Rightarrow> ''false'');
          nameIDFormat = (case opts of Some o' \<Rightarrow> if so_name_id o' \<in> set validNameIDFormats then so_name_id o' else ''persistent''
                          | None \<Rightarrow> ''persistent'')
      in [(''saml_name_id_format'', nameIDFormat), (''saml_sp_entity_id'', entityID),
          (''saml.assertion.consumer.service.post.binding.url'', acsURL), (''saml_assertion_consumer_url_post'', acsURL),
          (''saml.server.signature'', ''true''), (''saml.assertion.signature'', ''true''), (''saml.client.signature'', ''false''),
          (''saml.authnstatement'', ''true''), (''saml.onetimeuse.condition'', ''false''),
          (''saml.server.signature.keyinfo.ext'', ''false''), (''saml.force.post.binding'', ''true''),
          (''saml.multivalued.roles'', ''false''), (''saml.encrypt'', encryptAssertions), (''saml.server.signature.logout'', ''true''),
          (''saml_assertion_lifespan'', ''3600''), (''saml.signature.algorithm'', signingAlgo),
          (''saml.idp.initiated.sso.url.name'', samlSlug name)])"

record saml_mapper =
  sp_name :: string
  sp_mapper :: string
  sp_config :: "(string \<times> string) list"

definition x500_mapper :: "string \<Rightarrow> string \<Rightarrow> string \<Rightarrow> string \<Rightarrow> saml_mapper" where
  "x500_mapper name attribute oid friendly =
     \<lparr>sp_name = name, sp_mapper = ''saml-user-property-mapper'',
      sp_config = [(''attribute.nameformat'', ''URI Reference''), (''user.attribute'', attribute), (''attribute.name'', oid),
                   (''friendly.name'', friendly)]\<rparr>"

definition samlProtocolMappers :: "saml_options option \<Rightarrow> saml_mapper list" where
  "samlProtocolMappers opts =
     [x500_mapper ''X500 email'' ''email'' ''urn:oid:1.2.840.113549.1.9.1'' ''email'',
      x500_mapper ''X500 givenName'' ''firstName'' ''urn:oid:2.5.4.42'' ''givenName'',
      x500_mapper ''X500 surname'' ''lastName'' ''urn:oid:2.5.4.4'' ''sn'',
      \<lparr>sp_name = ''username'', sp_mapper = ''saml-user-property-mapper'',
       sp_config = [(''attribute.nameformat'', ''Basic''), (''user.attribute'', ''username''), (''attribute.name'', ''username'')]\<rparr>,
      \<lparr>sp_name = ''role list'', sp_mapper = ''saml-role-list-mapper'',
       sp_config = [(''single'', ''true''), (''attribute.name'', ''Role''), (''attribute.nameformat'', ''Basic'')]\<rparr>]
     @ (case opts of None \<Rightarrow> []
        | Some o' \<Rightarrow> map (\<lambda>(attribute, name). \<lparr>sp_name = name, sp_mapper = ''saml-user-attribute-mapper'',
             sp_config = [(''attribute.nameformat'', ''Basic''), (''user.attribute'', attribute), (''attribute.name'', name)]\<rparr>)
             (filter (\<lambda>(attribute, name). attribute \<noteq> [] \<and> name \<noteq> []) (so_mappings o')))"

text \<open>The client representation of \<open>CreateClient\<close>; the OIDC provider is \<open>openid-connect\<close> at Keycloak.\<close>

record kc_client =
  kl_name :: string
  kl_protocol :: string
  kl_redirects :: "string list"
  kl_base_url :: string
  kl_public :: bool
  kl_direct_grants :: bool
  kl_attrs :: "(string \<times> string) list option"
  kl_mappers :: "saml_mapper list option"

definition kc_protocol :: "string \<Rightarrow> string" where
  "kc_protocol p = (let q = to_lower p in if q = ''oidc'' then ''openid-connect'' else q)"

definition client_representation :: "string \<Rightarrow> string \<Rightarrow> string list \<Rightarrow> string \<Rightarrow> saml_options option \<Rightarrow> kc_client" where
  "client_representation name protocol redirectURIs baseURL opts =
     (let saml = (kc_protocol protocol = ''saml'');
          entityID = (if baseURL = [] then name else baseURL);
          acsURL = (case redirectURIs of [] \<Rightarrow> [] | u # _ \<Rightarrow> u)
      in \<lparr>kl_name = name, kl_protocol = kc_protocol protocol, kl_redirects = redirectURIs, kl_base_url = baseURL,
          kl_public = False, kl_direct_grants = False,
          kl_attrs = (if saml then Some (buildSAMLAttributes name acsURL entityID opts) else None),
          kl_mappers = (if saml then Some (samlProtocolMappers opts) else None)\<rparr>)"

definition CreateClient :: "string option \<Rightarrow> (kc_client \<Rightarrow> string + string) \<Rightarrow> string \<Rightarrow> string \<Rightarrow> string list \<Rightarrow> string \<Rightarrow> saml_options option
   \<Rightarrow> string + string" where
  "CreateClient login_err create name protocol redirectURIs baseURL opts =
     (case login_err of Some e \<Rightarrow> Inl e | None \<Rightarrow>
      case create (client_representation name protocol redirectURIs baseURL opts) of
        Inl e \<Rightarrow> Inl (''create keycloak client: '' @ e)
      | Inr i \<Rightarrow> Inr i)"

definition GetSAMLIdPInitiatedURL :: "string \<Rightarrow> string \<Rightarrow> string option \<Rightarrow> string + kc_client \<Rightarrow> string \<Rightarrow> string + string" where
  "GetSAMLIdPInitiatedURL baseURL realm login_err answer clientID =
     (case login_err of Some e \<Rightarrow> Inl e | None \<Rightarrow>
      case answer of Inl e \<Rightarrow> Inl (''get keycloak client '' @ clientID @ '': '' @ e) | Inr c \<Rightarrow>
      case kl_attrs c of None \<Rightarrow> Inr [] | Some attrs \<Rightarrow>
      (case map_of attrs ''saml.idp.initiated.sso.url.name'' of
         None \<Rightarrow> Inr []
       | Some u \<Rightarrow> Inr (if u = [] then [] else baseURL @ ''/realms/'' @ realm @ ''/protocol/saml/clients/'' @ u)))"

section \<open>Slugs\<close>

text \<open>A slug: letters, digits and single dashes between them.\<close>

fun slug_tail :: "string \<Rightarrow> bool" where
  "slug_tail [] = True"
| "slug_tail [c] = slug_byte c"
| "slug_tail (c # d # s) = (if slug_byte c then slug_tail (d # s) else c = CHR ''-'' \<and> slug_byte d \<and> slug_tail (d # s))"

definition is_slug :: "string \<Rightarrow> bool" where
  "is_slug s \<longleftrightarrow> s \<noteq> [] \<and> slug_byte (hd s) \<and> slug_tail s"

text \<open>Dashes alternate with runs of letters and digits; only the first and the last byte may be a stray dash.\<close>

fun dashed :: "string \<Rightarrow> bool" where
  "dashed [] = True"
| "dashed [c] = (slug_byte c \<or> c = CHR ''-'')"
| "dashed (c # d # s) = ((slug_byte c \<or> c = CHR ''-'' \<and> slug_byte d) \<and> dashed (d # s))"

lemma slug_byte_dash [simp]: "\<not> slug_byte (CHR ''-'')"
  by (simp add: slug_byte_def is_digit_def byte_def)

lemma dashed_Cons: "slug_byte c \<Longrightarrow> dashed (c # s) = dashed s"
  by (cases s) auto

lemma dashed_dash: "dashed (CHR ''-'' # s) \<longleftrightarrow> dashed s \<and> (s = [] \<or> slug_byte (hd s))"
  by (cases s) auto

lemma dash_runs_hd: "s = [] \<or> slug_byte (hd s) \<Longrightarrow> dash_runs s = [] \<or> slug_byte (hd (dash_runs s))"
  by (cases s) auto

lemma dash_runs_dashed: "dashed (dash_runs s)"
proof (induction s rule: dash_runs.induct)
  case (2 c s)
  have "dropWhile (\<lambda>d. \<not> slug_byte d) s = [] \<or> slug_byte (hd (dropWhile (\<lambda>d. \<not> slug_byte d) s))"
    using hd_dropWhile [of "\<lambda>d. \<not> slug_byte d" s] by blast
  with dash_runs_hd have "dash_runs (dropWhile (\<lambda>d. \<not> slug_byte d) s) = [] \<or> slug_byte (hd (dash_runs (dropWhile (\<lambda>d. \<not> slug_byte d) s)))"
    by blast
  with 2 show ?case by (simp add: dashed_Cons dashed_dash)
qed simp

lemma dashed_drop_left: "dashed s \<Longrightarrow> dashed (dropWhile (\<lambda>d. d = CHR ''-'') s)"
  by (induction s rule: dashed.induct) auto

lemma dashed_append: "dashed (s @ t) \<Longrightarrow> dashed s"
proof (induction s rule: dashed.induct)
  case (2 c)
  then show ?case by (cases t) auto
qed auto

lemma dashed_drop_right: "dashed s \<Longrightarrow> dashed (rev (dropWhile P (rev s)))"
  by (metis dashed_append rev_append rev_rev_ident takeWhile_dropWhile_id)

lemma dashed_no_end: "dashed s \<Longrightarrow> s = [] \<or> last s \<noteq> CHR ''-'' \<Longrightarrow> slug_tail s"
  by (induction s rule: dashed.induct) (auto split: if_splits)

lemma trim_char_ends:
  fixes c s
  defines "t \<equiv> trim_char c s"
  shows "t = [] \<or> hd t \<noteq> c \<and> last t \<noteq> c"
proof (cases "t = []")
  case False
  let ?l = "dropWhile (\<lambda>d. d = c) s" and ?r = "dropWhile (\<lambda>d. d = c) (rev (dropWhile (\<lambda>d. d = c) s))"
  have t: "t = rev ?r" by (simp add: t_def trim_char_def)
  with False have "?r \<noteq> []" by simp
  then have l: "last t \<noteq> c" using hd_dropWhile [of "\<lambda>d. d = c" "rev ?l"] by (simp add: t last_rev)
  obtain u where "?l = t @ u" by (metis rev_append rev_rev_ident t takeWhile_dropWhile_id)
  with False have "hd t = hd ?l" "?l \<noteq> []" by auto
  with hd_dropWhile [of "\<lambda>d. d = c" s] l show ?thesis by simp
qed simp

lemma dashed_hd: "dashed s \<Longrightarrow> s \<noteq> [] \<Longrightarrow> hd s \<noteq> CHR ''-'' \<Longrightarrow> slug_byte (hd s)"
  by (cases s rule: dashed.cases) auto

lemma trimmed_slug:
  assumes "dashed s" "trim_char (CHR ''-'') s \<noteq> []"
  shows "is_slug (trim_char (CHR ''-'') s)"
proof -
  let ?t = "trim_char (CHR ''-'') s"
  have d: "dashed ?t" unfolding trim_char_def by (intro dashed_drop_right dashed_drop_left assms(1))
  have "hd ?t \<noteq> CHR ''-''" "last ?t \<noteq> CHR ''-''" using trim_char_ends [of "CHR ''-''" s] assms(2) by auto
  with d assms(2) dashed_no_end [OF d] dashed_hd [OF d] show ?thesis by (simp add: is_slug_def)
qed

lemma slug_tail_fixed: "slug_tail s \<Longrightarrow> dash_runs s = s"
  by (induction s rule: slug_tail.induct) (auto split: if_splits)

lemma to_lower_slug_byte: "slug_byte c \<or> c = CHR ''-'' \<Longrightarrow> to_lower_char c = c"
  by (auto simp: to_lower_char_def slug_byte_def is_digit_def byte_def)

lemma slug_byte_ascii: "slug_byte c \<Longrightarrow> byte c < 128"
  by (auto simp: slug_byte_def is_digit_def)

lemma slug_tail_lower: "slug_tail s \<Longrightarrow> lower s = s"
proof (induction s rule: slug_tail.induct)
  case (3 c d s)
  then have c: "slug_byte c \<or> c = CHR ''-''" and "lower (d # s) = d # s" by (auto split: if_splits)
  moreover have "byte c < 128" using c slug_byte_ascii by (auto simp: byte_def)
  ultimately show ?case by (simp add: to_lower_slug_byte)
qed (auto simp: to_lower_slug_byte)

lemma slug_tail_last: "slug_tail s \<Longrightarrow> s \<noteq> [] \<Longrightarrow> last s \<noteq> CHR ''-''"
  by (induction s rule: slug_tail.induct) (auto split: if_splits)

lemma samlSlug_fixed:
  assumes "is_slug s"
  shows "samlSlug s = s"
proof -
  have s: "s \<noteq> []" "slug_tail s" "hd s \<noteq> CHR ''-''" using assms by (auto simp: is_slug_def)
  have "rev s \<noteq> []" "hd (rev s) \<noteq> CHR ''-''" using s slug_tail_last by (auto simp: hd_rev)
  then have "dropWhile (\<lambda>d. d = CHR ''-'') (rev s) = rev s" by (cases "rev s") auto
  moreover have "dropWhile (\<lambda>d. d = CHR ''-'') s = s" using s by (cases s) auto
  ultimately have "trim_char (CHR ''-'') s = s" by (simp add: trim_char_def)
  with s show ?thesis by (simp add: samlSlug_def slug_tail_fixed slug_tail_lower)
qed

text \<open>C35. The name under which a SAML application is reached in a URL is always a slug, whatever the
  application is called: not empty, letters and digits separated by single dashes.  Making a slug of
  a slug changes nothing, so the name read back from Keycloak is the one the code would compute.\<close>

theorem saml_slug_wellformed: "is_slug (samlSlug name) \<and> samlSlug (samlSlug name) = samlSlug name"
proof -
  have "is_slug (samlSlug name)"
  proof (cases "trim_char (CHR ''-'') (dash_runs (lower name)) = []")
    case True
    then show ?thesis by (simp add: samlSlug_def is_slug_def slug_byte_def is_digit_def)
  next
    case False
    then show ?thesis using trimmed_slug [OF dash_runs_dashed False] by (simp add: samlSlug_def)
  qed
  with samlSlug_fixed show ?thesis by blast
qed

section \<open>Groups and roles\<close>

lemma ListGroupsByOrg_own: "ListGroupsByOrg env org = Inr gs \<Longrightarrow> g \<in> set gs \<Longrightarrow> GroupOrgID g = org"
  by (auto simp: ListGroupsByOrg_def split: option.splits)

lemma GroupOrgID_created [simp]: "GroupOrgID \<lparr>gr_id = i, gr_name = n, gr_attrs = Some [(GroupOrgAttribute, [org])]\<rparr> = org"
  by (simp add: GroupOrgID_def)

lemma GetGroupByID_found:
  "GetGroupByID env groupID rl = Inr g \<Longrightarrow> g \<in> set (rl_groups rl) \<and> gr_id g = Some groupID"
  by (auto simp: GetGroupByID_def find_Some_iff split: option.splits)

lemma AddUserToGroup_members:
  "kc_members (rl_idp (snd (AddUserToGroup env u g rl))) = kc_members (rl_idp rl)
   \<or> kc_members (rl_idp (snd (AddUserToGroup env u g rl))) = kc_members (rl_idp rl) @ [(u, g)]"
  by (auto simp: AddUserToGroup_def split: option.splits)

lemma AddUserToGroup_groups [simp]: "rl_groups (snd (AddUserToGroup env u g rl)) = rl_groups rl"
  by (auto simp: AddUserToGroup_def split: option.splits)

lemma RemoveUserFromGroup_members:
  "set (kc_members (rl_idp (snd (RemoveUserFromGroup env u g rl)))) \<subseteq> set (kc_members (rl_idp rl))
   \<and> set (kc_members (rl_idp rl)) \<subseteq> insert (u, g) (set (kc_members (rl_idp (snd (RemoveUserFromGroup env u g rl)))))"
  by (auto simp: RemoveUserFromGroup_def delete_where_def split: option.splits)

lemma RemoveUserFromGroup_groups [simp]: "rl_groups (snd (RemoveUserFromGroup env u g rl)) = rl_groups rl"
  by (auto simp: RemoveUserFromGroup_def split: option.splits)

lemma Assign_ok:
  assumes "AssignUserToClient env u c rl = (None, rl')"
  shows "set (rl_assigned rl') = insert (c, u) (set (rl_assigned rl)) \<and> c \<in> set (rl_client_roles rl')"
  using assms
  by (cases "re_create env"; cases "re_get env"; cases "re_map env"; cases "c \<in> set (rl_client_roles rl)")
    (auto simp: AssignUserToClient_def Let_def split: option.splits if_splits)

definition roles_answer :: "role_env \<Rightarrow> bool" where
  "roles_answer env \<longleftrightarrow> re_login env = None \<and> re_create env = None \<and> re_get env = None \<and> re_map env = None
     \<and> isConflictErr (re_exists env)"

text \<open>Assigning a user to an application is idempotent and undone by unassigning.  After a successful
  assignment exactly this user has gained the client role; doing it again against a server that reports the
  existing role as a conflict succeeds and changes nothing; unassigning takes the role away from this
  user and client only.\<close>

theorem client_assignment_roundtrip:
  assumes "AssignUserToClient env u c rl = (None, rl')" and "roles_answer env'"
  shows "set (rl_assigned rl') = insert (c, u) (set (rl_assigned rl))
    \<and> AssignUserToClient env' u c rl' = (None, rl')
    \<and> fst (UnassignUserFromClient env' u c rl') = None
    \<and> set (rl_assigned (snd (UnassignUserFromClient env' u c rl'))) = set (rl_assigned rl) - {(c, u)}"
proof -
  note ok = Assign_ok [OF assms(1)]
  have again: "AssignUserToClient env' u c rl' = (None, rl')"
    using ok assms(2) by (simp add: AssignUserToClient_def roles_answer_def)
  have un: "UnassignUserFromClient env' u c rl' = (None, rl'\<lparr>rl_assigned := delete_where (\<lambda>x. x = (c, u)) (rl_assigned rl')\<rparr>)"
    using ok assms(2) by (simp add: UnassignUserFromClient_def roles_answer_def)
  from ok again un show ?thesis by (auto simp: delete_where_def)
qed

definition sample_role_env :: role_env where
  "sample_role_env = \<lparr>re_login = None, re_create = None, re_exists = ''409 Conflict'', re_get = None, re_absent = ''404 Not Found'', re_map = None\<rparr>"

definition sample_realm :: realm where
  "sample_realm = \<lparr>rl_idp = \<lparr>kc_users = [(''u1'', True)], kc_members = []\<rparr>, rl_profiles = Map.empty, rl_groups = [], rl_client_roles = [],
     rl_assigned = []\<rparr>"

theorem client_assignment_roundtrip_witness:
  "set (rl_assigned (snd (AssignUserToClient sample_role_env ''u1'' ''c1'' sample_realm))) = {(''c1'', ''u1'')}"
proof -
  have a: "AssignUserToClient sample_role_env ''u1'' ''c1'' sample_realm
      = (None, sample_realm\<lparr>rl_client_roles := [''c1''], rl_assigned := [(''c1'', ''u1'')]\<rparr>)"
    by (simp add: AssignUserToClient_def sample_role_env_def sample_realm_def)
  have "roles_answer sample_role_env" by (simp add: roles_answer_def sample_role_env_def isConflictErr_def)
  from client_assignment_roundtrip [OF a this] a show ?thesis by (simp add: sample_realm_def)
qed

section \<open>The cached token\<close>

text \<open>The admin token handed to a request is either fresh or has more than the buffer left: a cached token
  within thirty seconds of its expiry is never used, and a failed login leaves the cache as it was.\<close>

theorem login_token_fresh:
  "case login now answer k of
     (Inr tok, k') \<Rightarrow> lg_token k' = tok \<and>
        (k' = k \<and> tok \<noteq> [] \<and> now + tokenExpiryBuffer < lg_expiry k
         \<or> (\<exists>secs. answer = Inr (tok, secs) \<and> lg_expiry k' = now + secs * second))
   | (Inl _, k') \<Rightarrow> k' = k \<and> \<not> (lg_token k \<noteq> [] \<and> now + tokenExpiryBuffer < lg_expiry k)"
  by (auto simp: login_def split: sum.splits)

end
