(* ===== verification/Scim_Users.thy ===== *)
theory Scim_Users
  imports Keycloak_Client Scim_Filter
begin

text \<open>
  The SCIM endpoints for users, the first half of \<open>internal/handlers/scim.go\<close>: the two bearer
  middlewares, list, get, create, patch and delete, and the optimistic lock on the version of a
  resource (\<open>scim_resource_versions\<close>) that \<open>SCIMPatchUser\<close> takes.

  The handlers act on the realm of Keycloak, the local database, the columns \<open>created_at\<close> and
  \<open>updated_at\<close> of the users and the versions.  A body is what the JSON decoder made of it, \<^const>\<open>None\<close>
  when it failed.  \<open>SCIMPatchUser\<close> is cut at its database and Keycloak calls into steps, so that the
  steps of concurrent requests can be interleaved.
\<close>

section \<open>Data\<close>

record scim_meta =
  sm_type :: string
  sm_created :: string
  sm_modified :: string
  sm_version :: string

record scim_name =
  sn_formatted :: string
  sn_family :: string
  sn_given :: string

record scim_email =
  se_value :: string
  se_type :: string
  se_primary :: bool

record scim_user =
  su_id :: string
  su_user_name :: string
  su_name :: scim_name
  su_emails :: "scim_email list"
  su_active :: bool
  su_meta :: scim_meta

text \<open>\<open>scimRespond\<close> with the ETag header (empty when it is not set), \<open>scimRespondError\<close>, and an answer
  without a body.\<close>

datatype 'b scim_response =
    scimRespond nat string 'b
  | scimRespondError nat string string
  | scimNoContent

fun scim_status :: "'b scim_response \<Rightarrow> nat" where
  "scim_status (scimRespond n _ _) = n"
| "scim_status (scimRespondError n _ _) = n"
| "scim_status scimNoContent = 204"

record scim_state =
  sc_realm :: realm
  sc_db :: life_db
  sc_times :: "string \<Rightarrow> time \<times> time"
  sc_versions :: "(string \<times> int) list"

definition scim_etag :: "int \<Rightarrow> string" where
  "scim_etag v = ''W/'' @ [CHR 0x22] @ show_int v @ [CHR 0x22]"

definition scimUserFromRow :: "string \<Rightarrow> string \<Rightarrow> string \<Rightarrow> string \<Rightarrow> bool \<Rightarrow> time \<Rightarrow> time \<Rightarrow> int \<Rightarrow> scim_user" where
  "scimUserFromRow i email firstName lastName disabled createdAt updatedAt version =
     \<lparr>su_id = i, su_user_name = email,
      su_name = \<lparr>sn_formatted = firstName @ '' '' @ lastName, sn_family = lastName, sn_given = firstName\<rparr>,
      su_emails = [\<lparr>se_value = email, se_type = ''work'', se_primary = True\<rparr>], su_active = (\<not> disabled),
      su_meta = \<lparr>sm_type = ''User'', sm_created = rfc3339 createdAt, sm_modified = rfc3339 updatedAt, sm_version = scim_etag version\<rparr>\<rparr>"

text \<open>\<open>COALESCE(v.version, 1)\<close> over the left join.\<close>

definition version_of :: "string \<Rightarrow> scim_state \<Rightarrow> int" where
  "version_of i s = (case map_of (sc_versions s) i of None \<Rightarrow> 1 | Some v \<Rightarrow> v)"

definition scim_row :: "scim_state \<Rightarrow> life_user \<Rightarrow> scim_user" where
  "scim_row s u = scimUserFromRow (lu_id u) (lu_email u) (lu_first u) (lu_last u) (lu_disabled u)
     (fst (sc_times s (lu_id u))) (snd (sc_times s (lu_id u))) (version_of (lu_id u) s)"

section \<open>Bearer tokens\<close>

definition SCIMBearerMiddleware :: "string \<Rightarrow> string \<Rightarrow> 'b scim_response + org_context" where
  "SCIMBearerMiddleware token auth =
     (if token = [] then Inl (scimRespondError 503 ''SCIM provisioning is not configured'' [])
      else if \<not> has_prefix ''Bearer '' auth then Inl (scimRespondError 401 ''Bearer token required'' [])
      else if \<not> constantTimeStringEqual (trim_prefix ''Bearer '' auth) token then Inl (scimRespondError 401 ''Invalid bearer token'' [])
      else Inr \<lparr>oc_org = DefaultOrgID, oc_role = OrgMembershipRoleAdmin\<rparr>)"

record scim_token =
  stk_hash :: string
  stk_org :: string
  stk_revoked :: bool

definition SCIMOrgBearerMiddleware :: "bool \<Rightarrow> string option \<Rightarrow> scim_token list \<Rightarrow> string \<Rightarrow> string \<Rightarrow> 'b scim_response + org_context" where
  "SCIMOrgBearerMiddleware has_db err tokens pathOrgID auth =
     (if ValidateUserID pathOrgID \<noteq> None then Inl (scimRespondError 404 ''unknown organization'' [])
      else if \<not> has_prefix ''Bearer '' auth then Inl (scimRespondError 401 ''Bearer token required'' [])
      else if \<not> has_db then Inl (scimRespondError 503 ''SCIM provisioning is not configured'' [])
      else case select_one err (\<lambda>t. stk_hash t = hex_sha256 (trim_prefix ''Bearer '' auth) \<and> \<not> stk_revoked t) tokens of
        Ok t \<Rightarrow> if stk_org t \<noteq> pathOrgID then Inl (scimRespondError 401 ''Invalid bearer token'' [])
               else Inr \<lparr>oc_org = stk_org t, oc_role = OrgMembershipRoleAdmin\<rparr>
      | _ \<Rightarrow> Inl (scimRespondError 401 ''Invalid bearer token'' []))"

section \<open>Reading users\<close>

text \<open>\<open>ILIKE\<close> on ASCII: the percent sign matches anything, the underscore one byte, a backslash quotes.\<close>

fun sql_like :: "string \<Rightarrow> string \<Rightarrow> bool" where
  "sql_like [] t = (t = [])"
| "sql_like (c # p) t =
     (if c = CHR 0x25 then (if sql_like p t then True else if t = [] then False else sql_like (c # p) (tl t))
      else if t = [] then False
      else if c = CHR 0x5F then sql_like p (tl t)
      else if c = CHR 0x5C \<and> p \<noteq> [] then (if hd t = hd p then sql_like (tl p) (tl t) else False)
      else if hd t = c then sql_like p (tl t) else False)"

declare sql_like.simps [simp del]

definition ilike :: "string \<Rightarrow> string \<Rightarrow> bool" where
  "ilike pat t = sql_like (to_lower pat) (to_lower t)"

definition page_param :: "string \<Rightarrow> int \<Rightarrow> (int \<Rightarrow> bool) \<Rightarrow> int" where
  "page_param v d ok = (case parse_int64 v of Some n \<Rightarrow> if n > 0 \<and> ok n then n else d | None \<Rightarrow> d)"

definition scim_page :: "string \<Rightarrow> string \<Rightarrow> int \<times> int" where
  "scim_page start_param count_param = (page_param start_param 1 (\<lambda>_. True), page_param count_param 100 (\<lambda>n. n \<le> 1000))"

text \<open>The operator and value that reach the WHERE clause; both empty when the filter is not one of the two
  attributes.\<close>

definition user_filter :: "string \<Rightarrow> filter_error + string \<times> string" where
  "user_filter raw =
     (if raw = [] then Inr ([], [])
      else case parseSCIMFilterStrict raw of Inl e \<Rightarrow> Inl e
      | Inr None \<Rightarrow> Inr ([], [])
      | Inr (Some f) \<Rightarrow> if sf_attr f = ''username'' \<or> sf_attr f = ''emails.value'' then Inr (sf_op f, to_lower (sf_value f)) else Inr ([], []))"

definition user_where :: "string \<Rightarrow> string \<Rightarrow> string \<Rightarrow> bool" where
  "user_where op v email =
     (if op = ''eq'' then email = v
      else if op = ''co'' then ilike ([CHR 0x25] @ v @ [CHR 0x25]) email
      else if op = ''sw'' then ilike (v @ [CHR 0x25]) email
      else True)"

record list_env =
  li_has_db :: bool
  li_oc :: "org_context option"
  li_count_err :: "string option"
  li_query_err :: "string option"
  li_scans :: "string \<Rightarrow> bool"
  li_rows_err :: "string option"

record 'r scim_list =
  sl_total :: nat
  sl_start :: int
  sl_items :: nat
  sl_resources :: "'r list"

definition matching_users :: "string \<Rightarrow> string \<times> string \<Rightarrow> scim_state \<Rightarrow> life_user list" where
  "matching_users org f s = filter (\<lambda>u. lu_org u = org \<and> user_where (fst f) (snd f) (lu_email u)) (l_users (sc_db s))"

definition SCIMListUsers :: "list_env \<Rightarrow> string \<Rightarrow> string \<Rightarrow> string \<Rightarrow> scim_state \<Rightarrow> scim_user scim_list scim_response" where
  "SCIMListUsers env start_param count_param filterRaw s =
     (if \<not> li_has_db env then scimRespondError 503 ''database not available'' []
      else case li_oc env of None \<Rightarrow> scimRespondError 403 ''forbidden: no organization context'' [] | Some oc \<Rightarrow>
      (let (startIndex, max_items) = scim_page start_param count_param in
       case user_filter filterRaw of
         Inl _ \<Rightarrow> scimRespondError 400 ''filter: logical expressions (and/or/not) are not supported'' ''invalidFilter''
       | Inr f \<Rightarrow>
           (let all = matching_users (oc_org oc) f s;
                ordered = sort_key (\<lambda>u. fst (sc_times s (lu_id u))) all;
                page = take (nat max_items) (drop (nat (startIndex - 1)) ordered);
                users = map (scim_row s) (filter (\<lambda>u. li_scans env (lu_id u)) page)
            in if li_count_err env \<noteq> None \<or> li_query_err env \<noteq> None \<or> li_rows_err env \<noteq> None
               then scimRespondError 500 ''internal error'' []
               else scimRespond 200 [] \<lparr>sl_total = length all, sl_start = startIndex, sl_items = length users, sl_resources = users\<rparr>)))"

definition scim_load :: "string option \<Rightarrow> string \<Rightarrow> org_context \<Rightarrow> scim_state \<Rightarrow> life_user query" where
  "scim_load err userID oc s = select_one err (\<lambda>u. lu_id u = userID \<and> lu_org u = oc_org oc) (l_users (sc_db s))"

definition SCIMGetUser :: "bool \<Rightarrow> org_context option \<Rightarrow> string option \<Rightarrow> string \<Rightarrow> scim_state \<Rightarrow> scim_user scim_response" where
  "SCIMGetUser has_db oc err userID s =
     (if ValidateUserID userID \<noteq> None then scimRespondError 400 ''id is required'' ''invalidValue''
      else if \<not> has_db then scimRespondError 503 ''database not available'' []
      else case oc of None \<Rightarrow> scimRespondError 403 ''forbidden: no organization context'' [] | Some x \<Rightarrow>
      case scim_load err userID x s of
        No_rows \<Rightarrow> scimRespondError 404 ''user not found'' []
      | Db_error _ \<Rightarrow> scimRespondError 500 ''internal error'' []
      | Ok u \<Rightarrow> scimRespond 200 (scim_etag (version_of userID s)) (scim_row s u))"

section \<open>Creating users\<close>

record scim_create_env =
  cn_has_db :: bool
  cn_oc :: "org_context option"
  cn_lookup_err :: "string option"
  cn_kc :: kc_env
  cn_kc_delete :: kc_env
  cn_persist :: persist_env
  cn_version_err :: "string option"
  cn_fetch_err :: "string option"
  cn_now :: time

text \<open>The address: the user name, replaced by every primary email in turn, or by any email while it is empty.\<close>

definition scim_address :: "scim_user \<Rightarrow> string" where
  "scim_address req = fold (\<lambda>e email. if se_primary e \<or> email = [] then to_lower (trim_space (se_value e)) else email)
     (su_emails req) (to_lower (trim_space (su_user_name req)))"

definition name_or_unknown :: "string \<Rightarrow> string" where
  "name_or_unknown s = (let t = trim_space s in if t = [] then ''Unknown'' else t)"

definition insert_version :: "string option \<Rightarrow> string \<Rightarrow> (string \<times> int) list \<Rightarrow> (string \<times> int) list" where
  "insert_version err i vs = (if err \<noteq> None \<or> map_of vs i \<noteq> None then vs else (i, 1) # vs)"

text \<open>After the checks: create in Keycloak, persist on a detached context, and delete the Keycloak user when
  persisting fails.\<close>

definition scim_provision :: "(string \<Rightarrow> string) \<Rightarrow> scim_create_env \<Rightarrow> org_context \<Rightarrow> string \<Rightarrow> string \<Rightarrow> string \<Rightarrow> scim_state
   \<Rightarrow> scim_user scim_response \<times> scim_state" where
  "scim_provision jt env oc firstName lastName email s =
     (case CreateUser (cn_kc env) [] (rl_idp (sc_realm s)) of
        (Inl e, kc) \<Rightarrow> (scimRespondError 500 ''failed to create user in identity provider'' [],
                       s\<lparr>sc_realm := (sc_realm s)\<lparr>rl_idp := kc\<rparr>\<rparr>)
      | (Inr res, kc) \<Rightarrow>
          if cr_id res = [] then (scimRespondError 500 ''identity provider returned empty user ID'' [],
                                  s\<lparr>sc_realm := (sc_realm s)\<lparr>rl_idp := kc\<rparr>\<rparr>)
          else (case persistOnboard jt (cn_persist env) None (cr_id res)
                   \<lparr>ob_first = firstName, ob_last = lastName, ob_email = email, ob_department = [], ob_role = []\<rparr>
                   ''scim-provisioner'' (JObj [(''source'', JStr ''scim'')]) [] (oc_org oc) (sc_db s) of
              (Some e, db) \<Rightarrow> (scimRespondError 500 ''failed to persist user'' [],
                  s\<lparr>sc_realm := (sc_realm s)\<lparr>rl_idp := snd (DeleteUser (cn_kc_delete env) (cr_id res) kc)\<rparr>, sc_db := db\<rparr>)
            | (None, db) \<Rightarrow>
                (let i = cr_id res; t = pz_now (cn_persist env);
                     s' = s\<lparr>sc_realm := (sc_realm s)\<lparr>rl_idp := kc\<rparr>, sc_db := db, sc_times := (sc_times s)(i := (t, t)),
                            sc_versions := insert_version (cn_version_err env) i (sc_versions s)\<rparr>
                 in (scimRespond 201 (scim_etag 1)
                      (case select_one (cn_fetch_err env) (\<lambda>u. lu_id u = i) (l_users db) of
                         Ok u \<Rightarrow> scimUserFromRow (lu_id u) (lu_email u) (lu_first u) (lu_last u) (lu_disabled u) t t 1
                       | _ \<Rightarrow> scimUserFromRow i email firstName lastName False (cn_now env) (cn_now env) 1), s'))))"

definition SCIMCreateUser :: "(string \<Rightarrow> string) \<Rightarrow> scim_create_env \<Rightarrow> scim_user option \<Rightarrow> scim_state
   \<Rightarrow> scim_user scim_response \<times> scim_state" where
  "SCIMCreateUser jt env body s =
     (case body of None \<Rightarrow> (scimRespondError 400 ''invalid JSON'' ''invalidValue'', s) | Some req \<Rightarrow>
      (let email = scim_address req in
       if email = [] \<or> \<not> isValidEmail email then (scimRespondError 400 ''userName must be a valid email address'' ''invalidValue'', s)
       else if \<not> cn_has_db env then (scimRespondError 503 ''database not available'' [], s)
       else case cn_oc env of None \<Rightarrow> (scimRespondError 403 ''forbidden: no organization context'' [], s) | Some oc \<Rightarrow>
       (case select_one (cn_lookup_err env) (\<lambda>u. lu_email u = email) (l_users (sc_db s)) of
          Ok _ \<Rightarrow> (scimRespondError 409 ''user with this userName already exists'' ''uniqueness'', s)
        | Db_error _ \<Rightarrow> (scimRespondError 500 ''internal error'' [], s)
        | No_rows \<Rightarrow> scim_provision jt env oc (name_or_unknown (sn_given (su_name req))) (name_or_unknown (sn_family (su_name req))) email s)))"

section \<open>If-Match\<close>

text \<open>The version, whether the header is present, and whether it is well formed; a negative version stands for
  the wildcard.\<close>

definition scimIfMatchVersion :: "string \<Rightarrow> int \<times> bool \<times> bool" where
  "scimIfMatchVersion header =
     (let raw = trim_space header in
      if raw = [] then (0, False, True)
      else if raw = ''*'' then (- 1, True, True)
      else case parse_int64 (trim_char (CHR 0x22) (trim_prefix ''w/'' (trim_prefix ''W/'' raw))) of
        None \<Rightarrow> (0, True, False)
      | Some v \<Rightarrow> (v, True, True))"

section \<open>Patch operations\<close>

record scim_op =
  op_name :: string
  op_path :: string
  op_value :: jval

record patch_fields =
  pf_email :: string
  pf_first :: string
  pf_last :: string
  pf_disabled :: bool

text \<open>A decoded JSON object: the last of several equal keys counts.\<close>

definition obj_get :: "string \<Rightarrow> (string \<times> jval) list \<Rightarrow> jval option" where
  "obj_get k m = map_of (rev m) k"

definition plain_path :: "string \<Rightarrow> string" where
  "plain_path path =
     (let pathLow = to_lower path; base = fst (ParseSCIMFilterPath path);
          afterBracket = (case last_index_of (CHR '']'') pathLow of
             Some c \<Rightarrow> if c + 1 < length pathLow then trim_prefix ''.'' (drop (c + 1) pathLow) else []
           | None \<Rightarrow> [])
      in if CHR ''['' \<in> set pathLow \<and> base \<noteq> []
         then (if afterBracket \<noteq> [] then base @ ''.'' @ afterBracket else base)
         else pathLow)"

definition set_email :: "string \<Rightarrow> patch_fields \<Rightarrow> patch_fields" where
  "set_email v f = (let e = to_lower (trim_space v) in if e \<noteq> [] then f\<lparr>pf_email := e\<rparr> else f)"

text \<open>The address in a value of the attribute \<open>emails\<close>: a string, an object, or the first object of an array
  that has one.\<close>

definition object_email :: "jval \<Rightarrow> string" where
  "object_email v = (case v of JObj m \<Rightarrow> (case obj_get ''value'' m of Some (JStr s) \<Rightarrow> to_lower (trim_space s) | _ \<Rightarrow> []) | _ \<Rightarrow> [])"

definition email_value :: "jval \<Rightarrow> string" where
  "email_value v =
     (case v of JStr s \<Rightarrow> to_lower (trim_space s)
      | JArr vs \<Rightarrow> (case find (\<lambda>e. e \<noteq> []) (map object_email vs) of Some e \<Rightarrow> e | None \<Rightarrow> [])
      | _ \<Rightarrow> object_email v)"

definition merge_object :: "(string \<times> jval) list \<Rightarrow> patch_fields \<Rightarrow> patch_fields" where
  "merge_object m f =
     (let f1 = (case obj_get ''active'' m of Some (JBool b) \<Rightarrow> f\<lparr>pf_disabled := \<not> b\<rparr> | _ \<Rightarrow> f);
          f2 = (case obj_get ''name'' m of
                  Some (JObj n) \<Rightarrow>
                    (let g = (case obj_get ''givenName'' n of Some (JStr s) \<Rightarrow> f1\<lparr>pf_first := trim_space s\<rparr> | _ \<Rightarrow> f1)
                     in case obj_get ''familyName'' n of Some (JStr s) \<Rightarrow> g\<lparr>pf_last := trim_space s\<rparr> | _ \<Rightarrow> g)
                | _ \<Rightarrow> f1)
      in case obj_get ''userName'' m of Some (JStr s) \<Rightarrow> set_email s f2 | _ \<Rightarrow> f2)"

definition apply_replace :: "string \<Rightarrow> jval \<Rightarrow> patch_fields \<Rightarrow> patch_fields" where
  "apply_replace path v f =
     (if path = ''active'' then (case v of JBool b \<Rightarrow> f\<lparr>pf_disabled := \<not> b\<rparr> | _ \<Rightarrow> f)
      else if path = ''name.givenname'' then (case v of JStr s \<Rightarrow> f\<lparr>pf_first := trim_space s\<rparr> | _ \<Rightarrow> f)
      else if path = ''name.familyname'' then (case v of JStr s \<Rightarrow> f\<lparr>pf_last := trim_space s\<rparr> | _ \<Rightarrow> f)
      else if path = ''username'' then (case v of JStr s \<Rightarrow> set_email s f | _ \<Rightarrow> f)
      else if path = ''emails'' \<or> path = ''emails.value'' then (if email_value v \<noteq> [] then f\<lparr>pf_email := email_value v\<rparr> else f)
      else if path = [] then (case v of JObj m \<Rightarrow> merge_object m f | _ \<Rightarrow> f)
      else f)"

definition apply_op :: "scim_op \<Rightarrow> patch_fields \<Rightarrow> patch_fields" where
  "apply_op op f =
     (let opLow = to_lower (op_name op); path = plain_path (op_path op) in
      if opLow = ''replace'' \<or> opLow = ''add'' then apply_replace path (op_value op) f
      else if opLow = ''remove'' then (if path = ''active'' then f\<lparr>pf_disabled := True\<rparr> else f)
      else f)"

section \<open>The steps of a PATCH\<close>

record patch_call =
  pc_user :: string
  pc_has_db :: bool
  pc_body :: "scim_op list option"
  pc_oc :: "org_context option"
  pc_if_match :: string
  pc_load_err :: "string option"

record patch_job =
  pj_user :: string
  pj_version :: int
  pj_created :: time
  pj_orig :: patch_fields
  pj_new :: patch_fields

definition fields_of :: "life_user \<Rightarrow> patch_fields" where
  "fields_of u = \<lparr>pf_email = lu_email u, pf_first = lu_first u, pf_last = lu_last u, pf_disabled = lu_disabled u\<rparr>"

text \<open>Everything up to the version bump: no effect yet.\<close>

definition scim_patch_read :: "patch_call \<Rightarrow> scim_state \<Rightarrow> scim_user scim_response + patch_job" where
  "scim_patch_read c s =
     (if ValidateUserID (pc_user c) \<noteq> None then Inl (scimRespondError 400 ''id is required'' ''invalidValue'')
      else if \<not> pc_has_db c then Inl (scimRespondError 503 ''database not available'' [])
      else case pc_body c of None \<Rightarrow> Inl (scimRespondError 400 ''invalid JSON'' ''invalidValue'') | Some ops \<Rightarrow>
      case pc_oc c of None \<Rightarrow> Inl (scimRespondError 403 ''forbidden: no organization context'' []) | Some oc \<Rightarrow>
      (case scim_load (pc_load_err c) (pc_user c) oc s of
         No_rows \<Rightarrow> Inl (scimRespondError 404 ''user not found'' [])
       | Db_error _ \<Rightarrow> Inl (scimRespondError 500 ''internal error'' [])
       | Ok u \<Rightarrow>
           (case scimIfMatchVersion (pc_if_match c) of (ifMatch, present, ok) \<Rightarrow>
              if present \<and> \<not> ok then Inl (scimRespondError 400 ''If-Match header is malformed'' ''invalidValue'')
              else if present \<and> ifMatch \<ge> 0 \<and> ifMatch \<noteq> version_of (pc_user c) s
              then Inl (scimRespondError 412 ''resource version does not match If-Match'' [])
              else Inr \<lparr>pj_user = pc_user c, pj_version = version_of (pc_user c) s, pj_created = fst (sc_times s (pc_user c)),
                        pj_orig = fields_of u, pj_new = fold apply_op ops (fields_of u)\<rparr>)))"

definition set_version :: "string \<Rightarrow> int \<Rightarrow> (string \<times> int) list \<Rightarrow> (string \<times> int) list" where
  "set_version i v vs = update_where (\<lambda>x. fst x = i) (\<lambda>_. (i, v)) vs"

text \<open>The conditional upsert: insert when there is no row, bump when the stored version is the one that was
  read, 412 otherwise.\<close>

definition scim_patch_lock :: "string option \<Rightarrow> patch_job \<Rightarrow> scim_state \<Rightarrow> scim_user scim_response option \<times> scim_state" where
  "scim_patch_lock err j s =
     (if err \<noteq> None then (Some (scimRespondError 500 ''failed to update resource version'' []), s)
      else case map_of (sc_versions s) (pj_user j) of
        None \<Rightarrow> (None, s\<lparr>sc_versions := (pj_user j, pj_version j + 1) # sc_versions s\<rparr>)
      | Some cur \<Rightarrow>
          if cur = pj_version j then (None, s\<lparr>sc_versions := set_version (pj_user j) (pj_version j + 1) (sc_versions s)\<rparr>)
          else (Some (scimRespondError 412 ''resource was modified concurrently'' []), s))"

definition scimRestoreVersion :: "string option \<Rightarrow> string \<Rightarrow> int \<Rightarrow> int \<Rightarrow> scim_state \<Rightarrow> scim_state" where
  "scimRestoreVersion err userID prev attempted s =
     (if err \<noteq> None then s
      else s\<lparr>sc_versions := update_where (\<lambda>x. x = (userID, attempted)) (\<lambda>_. (userID, prev)) (sc_versions s)\<rparr>)"

definition scim_idp_write :: "kc_env \<Rightarrow> string \<Rightarrow> patch_fields \<Rightarrow> scim_state \<Rightarrow> string option \<times> scim_state" where
  "scim_idp_write env userID f s =
     (case UpdateUser env userID (pf_first f) (pf_last f) [] (\<not> pf_disabled f) (sc_realm s) of (r, rl) \<Rightarrow> (r, s\<lparr>sc_realm := rl\<rparr>))"

definition scimRestoreKeycloakUser :: "kc_env \<Rightarrow> string \<Rightarrow> patch_fields \<Rightarrow> scim_state \<Rightarrow> scim_state" where
  "scimRestoreKeycloakUser env userID orig s = snd (scim_idp_write env userID orig s)"

definition write_fields :: "patch_fields \<Rightarrow> patch_fields \<Rightarrow> life_user \<Rightarrow> life_user" where
  "write_fields orig f u = u\<lparr>lu_email := (if pf_email f \<noteq> pf_email orig then pf_email f else lu_email u),
     lu_first := pf_first f, lu_last := pf_last f, lu_disabled := pf_disabled f\<rparr>"

text \<open>The UPDATE of the user row, which a unique violation on the address makes fail.\<close>

definition scim_patch_persist :: "string option \<Rightarrow> time \<Rightarrow> patch_job \<Rightarrow> scim_state \<Rightarrow> bool \<times> scim_state" where
  "scim_patch_persist err now j s =
     (let users = l_users (sc_db s); i = pj_user j;
          taken = (pf_email (pj_new j) \<noteq> pf_email (pj_orig j) \<and> list_ex (\<lambda>u. lu_id u \<noteq> i \<and> lu_email u = pf_email (pj_new j)) users)
      in if err \<noteq> None \<or> taken then (False, s)
         else (True, s\<lparr>sc_db := (sc_db s)\<lparr>l_users := update_where (\<lambda>u. lu_id u = i) (write_fields (pj_orig j) (pj_new j)) users\<rparr>,
                       sc_times := (sc_times s)(i := (fst (sc_times s i), now))\<rparr>))"

definition scim_audit :: "(string \<Rightarrow> string) \<Rightarrow> write_env \<Rightarrow> org_context option \<Rightarrow> string \<Rightarrow> string \<Rightarrow> (string \<times> jval) list \<Rightarrow> scim_state \<Rightarrow> scim_state" where
  "scim_audit jt env oc action userID details s =
     s\<lparr>sc_db := (sc_db s)\<lparr>l_audit := log_best_effort jt env oc
        \<lparr>ac_actor = ''scim-provisioner'', ac_action = action, ac_target_type = ''user'', ac_target_id = userID,
         ac_details = Some (JObj details)\<rparr> (l_audit (sc_db s))\<rparr>\<rparr>"

record patch_env =
  pe_version_err :: "string option"
  pe_kc :: kc_env
  pe_db_err :: "string option"
  pe_restore_err :: "string option"
  pe_kc_restore :: kc_env
  pe_audit :: write_env
  pe_now :: time

definition patched_response :: "patch_job \<Rightarrow> time \<Rightarrow> scim_user scim_response" where
  "patched_response j now = scimRespond 200 (scim_etag (pj_version j + 1))
     (scimUserFromRow (pj_user j) (pf_email (pj_new j)) (pf_first (pj_new j)) (pf_last (pj_new j)) (pf_disabled (pj_new j))
        (pj_created j) now (pj_version j + 1))"

definition SCIMPatchUser :: "(string \<Rightarrow> string) \<Rightarrow> patch_env \<Rightarrow> patch_call \<Rightarrow> scim_state \<Rightarrow> scim_user scim_response \<times> scim_state" where
  "SCIMPatchUser jt env c s =
     (case scim_patch_read c s of Inl r \<Rightarrow> (r, s) | Inr j \<Rightarrow>
      case scim_patch_lock (pe_version_err env) j s of (Some r, s) \<Rightarrow> (r, s) | (None, s) \<Rightarrow>
      case scim_idp_write (pe_kc env) (pj_user j) (pj_new j) s of
        (Some e, s) \<Rightarrow> (scimRespondError 500 ''failed to update user in identity provider'' [],
                       scimRestoreVersion (pe_restore_err env) (pj_user j) (pj_version j) (pj_version j + 1) s)
      | (None, s) \<Rightarrow>
      (case scim_patch_persist (pe_db_err env) (pe_now env) j s of
         (False, s) \<Rightarrow> (scimRespondError 500 ''failed to persist user changes'' [],
            scimRestoreKeycloakUser (pe_kc_restore env) (pj_user j) (pj_orig j)
              (scimRestoreVersion (pe_restore_err env) (pj_user j) (pj_version j) (pj_version j + 1) s))
       | (True, s) \<Rightarrow> (patched_response j (pe_now env),
            scim_audit jt (pe_audit env) (pc_oc c) ''scim_patch_user'' (pj_user j) [(''disabled'', JBool (pf_disabled (pj_new j)))] s)))"

section \<open>Deleting users\<close>

record delete_env =
  de_has_db :: bool
  de_oc :: "org_context option"
  de_load_err :: "string option"
  de_kc :: kc_env
  de_local_err :: "string option"
  de_audit :: write_env

definition SCIMDeleteUser :: "(string \<Rightarrow> string) \<Rightarrow> delete_env \<Rightarrow> string \<Rightarrow> scim_state \<Rightarrow> unit scim_response \<times> scim_state" where
  "SCIMDeleteUser jt env userID s =
     (if ValidateUserID userID \<noteq> None then (scimRespondError 400 ''id is required'' ''invalidValue'', s)
      else if \<not> de_has_db env then (scimRespondError 503 ''database not available'' [], s)
      else case de_oc env of None \<Rightarrow> (scimRespondError 403 ''forbidden: no organization context'' [], s) | Some oc \<Rightarrow>
      (case scim_load (de_load_err env) userID oc s of
         No_rows \<Rightarrow> (scimRespondError 404 ''user not found'' [], s)
       | Db_error _ \<Rightarrow> (scimRespondError 500 ''internal error'' [], s)
       | Ok u \<Rightarrow>
           (case DisableUser (de_kc env) userID (rl_idp (sc_realm s)) of
              (Some e, kc) \<Rightarrow> (scimRespondError 500 ''failed to deactivate user'' [], s\<lparr>sc_realm := (sc_realm s)\<lparr>rl_idp := kc\<rparr>\<rparr>)
            | (None, kc) \<Rightarrow>
                (scimNoContent, scim_audit jt (de_audit env) (de_oc env) ''scim_delete_user'' userID [(''email'', JStr (lu_email u))]
                   (s\<lparr>sc_realm := (sc_realm s)\<lparr>rl_idp := kc\<rparr>, sc_db := disable_local (de_local_err env) userID (sc_db s)\<rparr>)))))"

section \<open>Concurrent requests\<close>

text \<open>How far a PATCH has come: it has read the row, bumped the version, written Keycloak, written the row
  (and answers 200); or a write failed and it still has to restore the version and then, when Keycloak
  had been written, the Keycloak user; or it has answered with an error.\<close>

datatype phase =
    Loaded patch_job
  | Locked patch_job
  | Propagated patch_job
  | Patched patch_job
  | Undoing patch_job bool
  | Restoring patch_job
  | Rejected

inductive patch_step :: "phase list \<times> scim_state \<Rightarrow> phase list \<times> scim_state \<Rightarrow> bool" where
  ps_read: "scim_patch_read c s = Inr j \<Longrightarrow> patch_step (ps, s) (ps @ [Loaded j], s)"
| ps_lock: "i < length ps \<Longrightarrow> ps ! i = Loaded j \<Longrightarrow> scim_patch_lock err j s = (r, s')
    \<Longrightarrow> patch_step (ps, s) (ps[i := if r = None then Locked j else Rejected], s')"
| ps_idp: "i < length ps \<Longrightarrow> ps ! i = Locked j \<Longrightarrow> scim_idp_write env (pj_user j) (pj_new j) s = (r, s')
    \<Longrightarrow> patch_step (ps, s) (ps[i := if r = None then Propagated j else Undoing j False], s')"
| ps_persist: "i < length ps \<Longrightarrow> ps ! i = Propagated j \<Longrightarrow> scim_patch_persist err now j s = (ok, s')
    \<Longrightarrow> patch_step (ps, s) (ps[i := if ok then Patched j else Undoing j True], s')"
| ps_undo: "i < length ps \<Longrightarrow> ps ! i = Undoing j b
    \<Longrightarrow> patch_step (ps, s) (ps[i := if b then Restoring j else Rejected],
          scimRestoreVersion err (pj_user j) (pj_version j) (pj_version j + 1) s)"
| ps_restore: "i < length ps \<Longrightarrow> ps ! i = Restoring j
    \<Longrightarrow> patch_step (ps, s) (ps[i := Rejected], scimRestoreKeycloakUser env (pj_user j) (pj_orig j) s)"
| ps_other: "sc_versions s' = sc_versions s \<or> sc_versions s' = insert_version err u (sc_versions s)
    \<Longrightarrow> patch_step (ps, s) (ps, s')"

section \<open>The version as a lock\<close>

text \<open>The requests that have bumped the version and have not given it back.\<close>

fun holder :: "phase \<Rightarrow> patch_job option" where
  "holder (Locked j) = Some j"
| "holder (Propagated j) = Some j"
| "holder (Patched j) = Some j"
| "holder (Undoing j _) = Some j"
| "holder _ = None"

text \<open>Every holder's bump is at or below the stored version, and no two holders bumped from the same one.\<close>

definition below :: "(string \<times> int) list \<Rightarrow> patch_job \<Rightarrow> bool" where
  "below vs j \<longleftrightarrow> (\<exists>v. map_of vs (pj_user j) = Some v \<and> pj_version j < v)"

definition apart :: "patch_job \<Rightarrow> patch_job \<Rightarrow> bool" where
  "apart a b \<longleftrightarrow> pj_user a = pj_user b \<longrightarrow> pj_version a \<noteq> pj_version b"

definition lock_inv :: "phase list \<times> scim_state \<Rightarrow> bool" where
  "lock_inv x \<longleftrightarrow>
     (\<forall>i < length (fst x). \<forall>a. holder (fst x ! i) = Some a \<longrightarrow> below (sc_versions (snd x)) a)
   \<and> (\<forall>i < length (fst x). \<forall>k < length (fst x). \<forall>a b. i \<noteq> k \<and> holder (fst x ! i) = Some a \<and> holder (fst x ! k) = Some b \<longrightarrow> apart a b)"

lemma lock_invI:
  assumes "\<And>i a. i < length ps \<Longrightarrow> holder (ps ! i) = Some a \<Longrightarrow> below (sc_versions s) a"
    and "\<And>i k a b. i < length ps \<Longrightarrow> k < length ps \<Longrightarrow> i \<noteq> k \<Longrightarrow> holder (ps ! i) = Some a \<Longrightarrow> holder (ps ! k) = Some b \<Longrightarrow> apart a b"
  shows "lock_inv (ps, s)"
  using assms unfolding lock_inv_def by simp

lemma lock_inv_below: "lock_inv (ps, s) \<Longrightarrow> i < length ps \<Longrightarrow> holder (ps ! i) = Some a \<Longrightarrow> below (sc_versions s) a"
  by (simp add: lock_inv_def)

lemma lock_inv_apart:
  "lock_inv (ps, s) \<Longrightarrow> i < length ps \<Longrightarrow> k < length ps \<Longrightarrow> i \<noteq> k \<Longrightarrow> holder (ps ! i) = Some a \<Longrightarrow> holder (ps ! k) = Some b \<Longrightarrow> apart a b"
  by (simp add: lock_inv_def)

lemma apart_sym: "apart a b \<longleftrightarrow> apart b a"
  by (auto simp: apart_def)

lemma map_of_set_version: "map_of (set_version i v vs) k = (if k = i \<and> map_of vs i \<noteq> None then Some v else map_of vs k)"
  by (induction vs) (auto simp: set_version_def update_where_def)

lemma map_of_restore:
  "map_of (update_where (\<lambda>x. x = (i, a)) (\<lambda>_. (i, p)) vs) k
     = (if k = i \<and> map_of vs i = Some a then Some p else map_of vs k)"
  by (induction vs) (auto simp: update_where_def)

lemma below_insert_version: "below vs a \<Longrightarrow> below (insert_version err u vs) a"
  by (auto simp: below_def insert_version_def)

text \<open>A step that changes no version and takes no lock keeps the invariant.\<close>

lemma lock_inv_update:
  assumes "lock_inv (ps, s)" "i < length ps" "holder p = holder (ps ! i) \<or> holder p = None"
    and "\<And>a. below (sc_versions s) a \<Longrightarrow> below (sc_versions s') a"
  shows "lock_inv (ps[i := p], s')"
proof (rule lock_invI)
  fix k a assume "k < length (ps[i := p])" "holder (ps[i := p] ! k) = Some a"
  then show "below (sc_versions s') a"
    using assms lock_inv_below [OF assms(1), of k a] by (cases "k = i") (auto simp: nth_list_update)
next
  fix k l a b
  assume "k < length (ps[i := p])" "l < length (ps[i := p])" "k \<noteq> l"
    "holder (ps[i := p] ! k) = Some a" "holder (ps[i := p] ! l) = Some b"
  then show "apart a b"
    using assms(2,3) lock_inv_apart [OF assms(1), of k l a b] by (auto simp: nth_list_update split: if_splits)
qed

lemma lock_inv_take:
  assumes "lock_inv (ps, s)" "i < length ps" "ps ! i = Loaded j" "scim_patch_lock err j s = (None, s')"
  shows "lock_inv (ps[i := Locked j], s')"
proof -
  let ?u = "pj_user j" and ?v = "pj_version j"
  have s': "map_of (sc_versions s') = (map_of (sc_versions s))(?u \<mapsto> ?v + 1)"
    and free: "map_of (sc_versions s) ?u = None \<or> map_of (sc_versions s) ?u = Some ?v"
    using assms(4) by (auto simp: scim_patch_lock_def map_of_set_version fun_eq_iff split: option.splits if_splits)
  have old: "pj_user a = ?u \<Longrightarrow> pj_version a < ?v" if "k < length ps" "holder (ps ! k) = Some a" for k a
    using lock_inv_below [OF assms(1) that] free by (auto simp: below_def)
  have key: "pj_user a = ?u \<Longrightarrow> pj_version a < ?v" if "k < length ps" "k \<noteq> i" "holder (ps[i := Locked j] ! k) = Some a" for k a
    using old that by simp
  show ?thesis
  proof (rule lock_invI)
    fix k a assume k: "k < length (ps[i := Locked j])" "holder (ps[i := Locked j] ! k) = Some a"
    show "below (sc_versions s') a"
    proof (cases "k = i")
      case True
      then show ?thesis using k s' by (simp add: below_def)
    next
      case False
      then show ?thesis using k s' key [of k a] lock_inv_below [OF assms(1), of k a] by (auto simp: below_def)
    qed
  next
    fix k l a b
    assume kl: "k < length (ps[i := Locked j])" "l < length (ps[i := Locked j])" "k \<noteq> l"
      "holder (ps[i := Locked j] ! k) = Some a" "holder (ps[i := Locked j] ! l) = Some b"
    show "apart a b"
      using assms(2) kl old [of k a] old [of l b] lock_inv_apart [OF assms(1), of k l a b]
      by (auto simp: nth_list_update apart_def split: if_splits)
  qed
qed

lemma lock_inv_release:
  assumes "lock_inv (ps, s)" "i < length ps" "ps ! i = Undoing j b" "holder p = None"
  shows "lock_inv (ps[i := p], scimRestoreVersion err (pj_user j) (pj_version j) (pj_version j + 1) s)"
proof (rule lock_invI)
  fix k a
  assume k: "k < length (ps[i := p])" "holder (ps[i := p] ! k) = Some a"
  then have ki: "k \<noteq> i" "holder (ps ! k) = Some a" using assms(2,4) by (auto simp: nth_list_update split: if_splits)
  have "apart a j" using lock_inv_apart [OF assms(1), of k i a j] ki k assms(2,3) by simp
  then show "below (sc_versions (scimRestoreVersion err (pj_user j) (pj_version j) (pj_version j + 1) s)) a"
    using lock_inv_below [OF assms(1), of k a] ki k
    by (auto simp: below_def apart_def scimRestoreVersion_def map_of_restore)
next
  fix k l a b
  assume "k < length (ps[i := p])" "l < length (ps[i := p])" "k \<noteq> l"
    "holder (ps[i := p] ! k) = Some a" "holder (ps[i := p] ! l) = Some b"
  then show "apart a b"
    using assms(2,4) lock_inv_apart [OF assms(1), of k l a b] by (auto simp: nth_list_update split: if_splits)
qed

lemma idp_write_versions: "scim_idp_write env u f s = (r, s') \<Longrightarrow> sc_versions s' = sc_versions s"
  by (auto simp: scim_idp_write_def split: prod.splits)

lemma persist_versions: "scim_patch_persist err now j s = (ok, s') \<Longrightarrow> sc_versions s' = sc_versions s"
  by (auto simp: scim_patch_persist_def Let_def split: if_splits)

lemma lock_refused: "scim_patch_lock err j s = (Some r, s') \<Longrightarrow> s' = s"
  by (auto simp: scim_patch_lock_def split: option.splits if_splits)

lemma patch_step_lock_inv: "patch_step x y \<Longrightarrow> lock_inv x \<Longrightarrow> lock_inv y"
proof (induction rule: patch_step.induct)
  case (ps_read c s j ps)
  then show ?case by (auto simp: lock_inv_def nth_append less_Suc_eq)
next
  case (ps_lock i ps j err s r s')
  show ?case
  proof (cases r)
    case None
    with ps_lock lock_inv_take show ?thesis by simp
  next
    case (Some r')
    with ps_lock lock_refused have "s' = s" by blast
    with Some ps_lock show ?thesis by (auto intro: lock_inv_update)
  qed
next
  case (ps_idp i ps j env s r s')
  then show ?case using idp_write_versions [OF ps_idp(3)] by (intro lock_inv_update) auto
next
  case (ps_persist i ps j err now s ok s')
  then show ?case using persist_versions [OF ps_persist(3)] by (intro lock_inv_update) auto
next
  case (ps_undo i ps j b s err)
  then show ?case by (intro lock_inv_release) auto
next
  case (ps_restore i ps j s env)
  have "sc_versions (scimRestoreKeycloakUser env (pj_user j) (pj_orig j) s) = sc_versions s"
    by (metis idp_write_versions prod.collapse scimRestoreKeycloakUser_def)
  with ps_restore show ?case by (intro lock_inv_update) auto
next
  case (ps_other s' s err u ps)
  then show ?case using below_insert_version by (auto simp: lock_inv_def)
qed

interpretation patch_machine: step_machine patch_step lock_inv
  by unfold_locales (rule patch_step_lock_inv)

section \<open>A run of two requests\<close>

text \<open>One request deactivates a user while another renames the user.  The second reads after the first has
  bumped the version and before it has written the row.\<close>

definition sample_scim :: scim_state where
  "sample_scim = \<lparr>sc_realm = sample_realm\<lparr>rl_idp := \<lparr>kc_users = [(sample_uuid, True)], kc_members = []\<rparr>\<rparr>, sc_db = sample_life,
     sc_times = (\<lambda>_. (0, 0)), sc_versions = []\<rparr>"

definition sample_patch :: "scim_op \<Rightarrow> patch_call" where
  "sample_patch op = \<lparr>pc_user = sample_uuid, pc_has_db = True, pc_body = Some [op], pc_oc = Some \<lparr>oc_org = ''o1'', oc_role = ''admin''\<rparr>,
     pc_if_match = [], pc_load_err = None\<rparr>"

definition deactivate_call :: patch_call where
  "deactivate_call = sample_patch \<lparr>op_name = ''replace'', op_path = ''active'', op_value = JBool False\<rparr>"

definition rename_call :: patch_call where
  "rename_call = sample_patch \<lparr>op_name = ''replace'', op_path = ''name.givenName'', op_value = JStr ''Bo''\<rparr>"

definition sample_fields :: patch_fields where
  "sample_fields = \<lparr>pf_email = ''a@b.co'', pf_first = ''A'', pf_last = ''L'', pf_disabled = False\<rparr>"

definition deactivate_job :: patch_job where
  "deactivate_job = \<lparr>pj_user = sample_uuid, pj_version = 1, pj_created = 0, pj_orig = sample_fields,
     pj_new = sample_fields\<lparr>pf_disabled := True\<rparr>\<rparr>"

definition rename_job :: patch_job where
  "rename_job = \<lparr>pj_user = sample_uuid, pj_version = 2, pj_created = 0, pj_orig = sample_fields,
     pj_new = sample_fields\<lparr>pf_first := ''Bo''\<rparr>\<rparr>"

definition after_bumps :: "int \<Rightarrow> scim_state" where
  "after_bumps v = sample_scim\<lparr>sc_versions := [(sample_uuid, v)]\<rparr>"

definition write_both :: "patch_job \<Rightarrow> scim_state \<Rightarrow> scim_state" where
  "write_both j s = snd (scim_patch_persist None 0 j (snd (scim_idp_write sample_kc_env (pj_user j) (pj_new j) s)))"

lemma uuid_ok: "ValidateUserID sample_uuid = None"
  unfolding sample_uuid_def by code_simp

lemma deactivate_read: "scim_patch_read deactivate_call sample_scim = Inr deactivate_job"
proof -
  have "plain_path ''active'' = ''active''" "to_lower ''replace'' = ''replace''" by code_simp+
  then show ?thesis
    by (simp add: scim_patch_read_def deactivate_call_def sample_patch_def uuid_ok scim_load_def sample_scim_def sample_life_def
        onboarded_user_def select_one_def scimIfMatchVersion_def version_of_def deactivate_job_def fields_of_def sample_fields_def
        apply_op_def apply_replace_def Let_def)
qed

lemma rename_read: "scim_patch_read rename_call (after_bumps 2) = Inr rename_job"
proof -
  have "plain_path ''name.givenName'' = ''name.givenname''" "to_lower ''replace'' = ''replace''" "trim_space ''Bo'' = ''Bo''"
    by code_simp+
  then show ?thesis
    by (simp add: scim_patch_read_def rename_call_def sample_patch_def uuid_ok scim_load_def after_bumps_def sample_scim_def sample_life_def
        onboarded_user_def select_one_def scimIfMatchVersion_def version_of_def rename_job_def fields_of_def sample_fields_def
        apply_op_def apply_replace_def Let_def)
qed

lemma write_both_steps:
  assumes "i < length ps" "ps ! i = Locked j" "\<not> list_ex (\<lambda>u. lu_id u \<noteq> pj_user j \<and> lu_email u = pf_email (pj_new j)) (l_users (sc_db s))"
  shows "patch_step\<^sup>*\<^sup>* (ps, s) (ps[i := Patched j], write_both j s)"
proof -
  let ?s = "snd (scim_idp_write sample_kc_env (pj_user j) (pj_new j) s)"
  have r: "scim_idp_write sample_kc_env (pj_user j) (pj_new j) s = (None, ?s)" and db: "sc_db ?s = sc_db s"
    by (simp_all add: scim_idp_write_def UpdateUser_def sample_kc_env_def)
  have ok: "scim_patch_persist None 0 j ?s = (True, write_both j s)"
    using assms(3) by (simp add: write_both_def scim_patch_persist_def Let_def db)
  have a: "patch_step (ps, s) (ps[i := Propagated j], ?s)" using ps_idp [OF assms(1,2) r] by simp
  have "patch_step (ps[i := Propagated j], ?s) (ps[i := Propagated j, i := Patched j], write_both j s)"
    using ps_persist [where ok = True, of i "ps[i := Propagated j]" j None 0 ?s] ok assms(1) by simp
  with a show ?thesis by (simp add: r_into_rtranclp converse_rtranclp_into_rtranclp)
qed

definition overwritten :: scim_state where
  "overwritten = write_both rename_job (write_both deactivate_job (after_bumps 3))"

lemma overwrite_run: "patch_step\<^sup>*\<^sup>* ([], sample_scim) ([Patched deactivate_job, Patched rename_job], overwritten)"
proof -
  have l1: "scim_patch_lock None deactivate_job sample_scim = (None, after_bumps 2)"
    by (simp add: scim_patch_lock_def sample_scim_def after_bumps_def deactivate_job_def)
  have l2: "scim_patch_lock None rename_job (after_bumps 2) = (None, after_bumps 3)"
    by (simp add: scim_patch_lock_def sample_scim_def after_bumps_def rename_job_def set_version_def update_where_def)
  have "patch_step\<^sup>*\<^sup>* ([], sample_scim) ([Loaded deactivate_job], sample_scim)"
    using ps_read [OF deactivate_read, of "[]"] by (simp add: r_into_rtranclp)
  also have "patch_step \<dots> ([Locked deactivate_job], after_bumps 2)"
    using ps_lock [of 0 "[Loaded deactivate_job]" deactivate_job, OF _ _ l1] by simp
  also have "patch_step \<dots> ([Locked deactivate_job, Loaded rename_job], after_bumps 2)"
    using ps_read [OF rename_read, of "[Locked deactivate_job]"] by simp
  also have "patch_step \<dots> ([Locked deactivate_job, Locked rename_job], after_bumps 3)"
    using ps_lock [of 1 "[Locked deactivate_job, Loaded rename_job]" rename_job, OF _ _ l2] by simp
  also have "patch_step\<^sup>*\<^sup>* \<dots> ([Patched deactivate_job, Locked rename_job], write_both deactivate_job (after_bumps 3))"
    using write_both_steps [of 0 "[Locked deactivate_job, Locked rename_job]" deactivate_job "after_bumps 3"]
    by (simp add: after_bumps_def sample_scim_def sample_life_def deactivate_job_def onboarded_user_def)
  also have "patch_step\<^sup>*\<^sup>* \<dots> ([Patched deactivate_job, Patched rename_job], overwritten)"
    using write_both_steps [of 1 "[Patched deactivate_job, Locked rename_job]" rename_job "write_both deactivate_job (after_bumps 3)"]
    by (simp add: overwritten_def after_bumps_def sample_scim_def sample_life_def deactivate_job_def rename_job_def onboarded_user_def
        write_both_def scim_patch_persist_def scim_idp_write_def UpdateUser_def sample_kc_env_def sample_fields_def update_where_def
        write_fields_def)
  finally show ?thesis .
qed

section \<open>Properties of the lock\<close>

text \<open>C11. Concurrent SCIM updates never claim the same version: however the reads, the version bumps, the writes
  to Keycloak and to the database and the compensations of any number of PATCH requests interleave, two
  requests for the same user that both succeed started from different versions.  A rolled back
  bump gives its version back without disturbing any other request.\<close>

theorem scim_version_claimed_once:
  assumes "patch_step\<^sup>*\<^sup>* ([], s\<^sub>0) (ps, s)" and "i < length ps" "k < length ps" "i \<noteq> k"
    and "ps ! i = Patched a" "ps ! k = Patched b" and "pj_user a = pj_user b"
  shows "pj_version a \<noteq> pj_version b"
proof -
  have "lock_inv ([], s\<^sub>0)" by (simp add: lock_inv_def)
  from patch_machine.moves_inv [OF assms(1) this] have "apart a b"
    using lock_inv_apart [of ps s i k a b] assms(2-6) by simp
  with assms(7) show ?thesis by (simp add: apart_def)
qed

theorem scim_version_claimed_once_witness: "pj_version deactivate_job \<noteq> pj_version rename_job"
  by (rule scim_version_claimed_once [OF overwrite_run, of 0 1]) (simp_all add: deactivate_job_def rename_job_def)

text \<open>The lock does not cover the writes it was taken for.  In the run above both requests answer 200; the second
  is the later version, started from a row without the first one's change and writes it back: the
  deactivated user is active again, locally and at Keycloak.\<close>

lemma scim_lost_deactivation:
  "pf_disabled (pj_new deactivate_job) \<and> pj_version deactivate_job < pj_version rename_job
   \<and> patch_step\<^sup>*\<^sup>* ([], sample_scim) ([Patched deactivate_job, Patched rename_job], overwritten)
   \<and> map lu_disabled (l_users (sc_db overwritten)) = [False]
   \<and> kc_users (rl_idp (sc_realm overwritten)) = [(sample_uuid, True)]"
  using overwrite_run
  by (simp add: overwritten_def after_bumps_def sample_scim_def sample_life_def deactivate_job_def rename_job_def onboarded_user_def
        write_both_def scim_patch_persist_def scim_idp_write_def UpdateUser_def sample_kc_env_def sample_fields_def update_where_def
        write_fields_def)

text \<open>The handler takes these steps in this order: what it leaves, apart from the audit log, is where a run of
  its own request ends.\<close>

lemma lock_then:
  assumes "scim_patch_read c s = Inr j" "scim_patch_lock err j s = (None, s1)"
  shows "patch_step\<^sup>*\<^sup>* (ps, s) (ps @ [Locked j], s1)"
proof -
  have "patch_step (ps, s) (ps @ [Loaded j], s)" by (rule ps_read [OF assms(1)])
  moreover have "patch_step (ps @ [Loaded j], s) (ps @ [Locked j], s1)"
    using ps_lock [of "length ps" "ps @ [Loaded j]" j, OF _ _ assms(2)] by simp
  ultimately show ?thesis by (meson r_into_rtranclp rtranclp.rtrancl_into_rtrancl)
qed

lemma SCIMPatchUser_run:
  assumes "scim_patch_read c s = Inr j" "scim_patch_lock (pe_version_err env) j s = (None, s1)"
    "scim_idp_write (pe_kc env) (pj_user j) (pj_new j) s1 = (None, s2)" "scim_patch_persist (pe_db_err env) (pe_now env) j s2 = (ok, s3)"
  shows "if ok then patch_step\<^sup>*\<^sup>* (ps, s) (ps @ [Patched j], s3)
          \<and> SCIMPatchUser jt env c s = (patched_response j (pe_now env),
               scim_audit jt (pe_audit env) (pc_oc c) ''scim_patch_user'' (pj_user j) [(''disabled'', JBool (pf_disabled (pj_new j)))] s3)
     else patch_step\<^sup>*\<^sup>* (ps, s) (ps @ [Rejected], snd (SCIMPatchUser jt env c s))"
proof -
  let ?n = "length ps"
  have run: "patch_step\<^sup>*\<^sup>* (ps, s) (ps @ [Locked j], s1)" by (rule lock_then [OF assms(1,2)])
  also have "patch_step \<dots> (ps @ [Propagated j], s2)"
    using ps_idp [of ?n "ps @ [Locked j]" j, OF _ _ assms(3)] by simp
  also have "patch_step \<dots> (ps @ [if ok then Patched j else Undoing j True], s3)"
    using ps_persist [of ?n "ps @ [Propagated j]" j, OF _ _ assms(4)] by simp
  finally have run: "patch_step\<^sup>*\<^sup>* (ps, s) (ps @ [if ok then Patched j else Undoing j True], s3)" .
  show ?thesis
  proof (cases ok)
    case True
    with run assms show ?thesis by (simp add: SCIMPatchUser_def)
  next
    case False
    let ?s4 = "scimRestoreVersion (pe_restore_err env) (pj_user j) (pj_version j) (pj_version j + 1) s3"
    let ?s5 = "scimRestoreKeycloakUser (pe_kc_restore env) (pj_user j) (pj_orig j) ?s4"
    have "patch_step (ps @ [Undoing j True], s3) (ps @ [Restoring j], ?s4)"
      using ps_undo [of ?n "ps @ [Undoing j True]" j True s3 "pe_restore_err env"] by simp
    moreover have "patch_step (ps @ [Restoring j], ?s4) (ps @ [Rejected], ?s5)"
      using ps_restore [of ?n "ps @ [Restoring j]" j ?s4 "pe_kc_restore env"] by simp
    moreover have "snd (SCIMPatchUser jt env c s) = ?s5" using assms False by (simp add: SCIMPatchUser_def)
    ultimately show ?thesis using run False by (simp add: rtranclp.rtrancl_into_rtrancl)
  qed
qed

section \<open>One PATCH on its own\<close>

text \<open>What a caller sees of a user in the two systems.\<close>

definition user_rows :: "string \<Rightarrow> scim_state \<Rightarrow> life_user list" where
  "user_rows i s = filter (\<lambda>u. lu_id u = i) (l_users (sc_db s))"

definition idp_flags :: "string \<Rightarrow> scim_state \<Rightarrow> bool set" where
  "idp_flags i s = snd ` set (filter (\<lambda>x. fst x = i) (kc_users (rl_idp (sc_realm s))))"

lemma scim_audit_fields [simp]:
  "l_users (sc_db (scim_audit jt env oc a i d s)) = l_users (sc_db s)" "sc_versions (scim_audit jt env oc a i d s) = sc_versions s"
  "sc_realm (scim_audit jt env oc a i d s) = sc_realm s"
  by (simp_all add: scim_audit_def)

lemma idp_write_ok:
  assumes "scim_idp_write env i f s = (None, s')"
  shows "idp_flags i s' \<subseteq> {\<not> pf_disabled f} \<and> sc_db s' = sc_db s \<and> sc_versions s' = sc_versions s
    \<and> rl_profiles (sc_realm s') i = Some \<lparr>kp_first = pf_first f, kp_last = pf_last f, kp_department = [], kp_enabled = (\<not> pf_disabled f)\<rparr>"
  using assms by (auto simp: scim_idp_write_def UpdateUser_def idp_flags_def split: option.splits)

lemma idp_write_err: "scim_idp_write env i f s = (Some e, s') \<Longrightarrow> s' = s"
  by (auto simp: scim_idp_write_def UpdateUser_def split: option.splits)

lemma lock_ok:
  "scim_patch_lock err j s = (None, s') \<Longrightarrow> version_of (pj_user j) s = pj_version j \<or> map_of (sc_versions s) (pj_user j) = None"
  "scim_patch_lock err j s = (None, s') \<Longrightarrow> sc_db s' = sc_db s \<and> sc_realm s' = sc_realm s \<and> map_of (sc_versions s') (pj_user j) = Some (pj_version j + 1)"
  by (auto simp: scim_patch_lock_def version_of_def map_of_set_version split: option.splits if_splits)

lemma read_ok:
  assumes "scim_patch_read c s = Inr j"
  shows "pj_user j = pc_user c \<and> pj_version j = version_of (pc_user c) s
    \<and> (\<exists>oc u ops. pc_oc c = Some oc \<and> pc_body c = Some ops \<and> u \<in> set (l_users (sc_db s)) \<and> lu_id u = pc_user c \<and> lu_org u = oc_org oc
        \<and> pj_orig j = fields_of u \<and> pj_new j = fold apply_op ops (fields_of u))"
  using assms unfolding scim_patch_read_def scim_load_def
  by (auto dest!: select_one_Ok_D split: if_splits option.splits query.splits prod.splits)

lemma persist_ok:
  "scim_patch_persist err now j s = (True, s') \<Longrightarrow> l_users (sc_db s') = update_where (\<lambda>u. lu_id u = pj_user j) (write_fields (pj_orig j) (pj_new j)) (l_users (sc_db s))
     \<and> sc_versions s' = sc_versions s \<and> sc_realm s' = sc_realm s"
  "scim_patch_persist err now j s = (False, s') \<Longrightarrow> s' = s"
  by (auto simp: scim_patch_persist_def Let_def split: if_splits)

lemma restore_version_of:
  assumes "map_of (sc_versions s) i = Some (v + 1)"
  shows "version_of i (scimRestoreVersion None i v (v + 1) s) = v"
    and "sc_db (scimRestoreVersion e i v w s) = sc_db s" and "sc_realm (scimRestoreVersion e i v w s) = sc_realm s"
  using assms by (simp_all add: version_of_def scimRestoreVersion_def map_of_restore)

text \<open>The account is enabled at Keycloak exactly when the local row says so.\<close>

definition in_sync :: "string \<Rightarrow> scim_state \<Rightarrow> bool" where
  "in_sync i s \<longleftrightarrow> (\<forall>u \<in> set (user_rows i s). idp_flags i s \<subseteq> {\<not> lu_disabled u})"

definition restores_answer :: "patch_env \<Rightarrow> bool" where
  "restores_answer env \<longleftrightarrow> pe_restore_err env = None \<and> kc_login (pe_kc_restore env) = None \<and> kc_get (pe_kc_restore env) = None
     \<and> kc_update (pe_kc_restore env) = None"

lemma read_refused: "scim_patch_read c s = Inl r \<Longrightarrow> scim_status r \<noteq> 200"
  unfolding scim_patch_read_def by (auto split: if_splits option.splits query.splits prod.splits)

lemma lock_refused_status: "scim_patch_lock err j s = (Some r, s') \<Longrightarrow> scim_status r \<noteq> 200"
  by (auto simp: scim_patch_lock_def split: option.splits if_splits)

text \<open>The ways a PATCH ends, with the restores answered.\<close>

lemma SCIMPatchUser_cases:
  assumes "SCIMPatchUser jt env c s = (resp, s')" "restores_answer env"
  obtains (refused) "s' = s" "scim_status resp \<noteq> 200"
  | (idp_failed) j s1 where "scim_patch_read c s = Inr j" "scim_patch_lock (pe_version_err env) j s = (None, s1)"
      "s' = scimRestoreVersion None (pj_user j) (pj_version j) (pj_version j + 1) s1" "scim_status resp \<noteq> 200"
  | (db_failed) j s1 s2 where "scim_patch_read c s = Inr j" "scim_patch_lock (pe_version_err env) j s = (None, s1)"
      "scim_idp_write (pe_kc env) (pj_user j) (pj_new j) s1 = (None, s2)"
      "scim_idp_write (pe_kc_restore env) (pj_user j) (pj_orig j) (scimRestoreVersion None (pj_user j) (pj_version j) (pj_version j + 1) s2) = (None, s')"
      "scim_status resp \<noteq> 200"
  | (patched) j s1 s2 s3 where "scim_patch_read c s = Inr j" "scim_patch_lock (pe_version_err env) j s = (None, s1)"
      "scim_idp_write (pe_kc env) (pj_user j) (pj_new j) s1 = (None, s2)" "scim_patch_persist (pe_db_err env) (pe_now env) j s2 = (True, s3)"
      "l_users (sc_db s') = l_users (sc_db s3)" "sc_versions s' = sc_versions s3" "sc_realm s' = sc_realm s3" "scim_status resp = 200"
proof (cases "scim_patch_read c s")
  case (Inl r)
  then show ?thesis using assms(1) refused read_refused by (auto simp: SCIMPatchUser_def)
next
  case j: (Inr j)
  obtain r1 s1 where lock: "scim_patch_lock (pe_version_err env) j s = (r1, s1)" by fastforce
  show ?thesis
  proof (cases r1)
    case (Some r)
    then show ?thesis using assms(1) j lock lock_refused lock_refused_status refused by (auto simp: SCIMPatchUser_def)
  next
    case None
    obtain r2 s2 where idp: "scim_idp_write (pe_kc env) (pj_user j) (pj_new j) s1 = (r2, s2)" by fastforce
    show ?thesis
    proof (cases r2)
      case (Some e)
      with idp idp_write_err have "s2 = s1" by blast
      then show ?thesis using assms j lock None Some idp idp_failed by (auto simp: SCIMPatchUser_def restores_answer_def)
    next
      case r2: None
      obtain ok s3 where per: "scim_patch_persist (pe_db_err env) (pe_now env) j s2 = (ok, s3)" by fastforce
      show ?thesis
      proof (cases ok)
        case True
        have "resp = patched_response j (pe_now env)" "s' = scim_audit jt (pe_audit env) (pc_oc c) ''scim_patch_user'' (pj_user j)
            [(''disabled'', JBool (pf_disabled (pj_new j)))] s3"
          using assms(1) j lock None idp r2 per True by (simp_all add: SCIMPatchUser_def)
        with patched [of j s1 s2 s3] j lock None idp r2 per True show ?thesis by (simp add: patched_response_def)
      next
        case False
        then have "s3 = s2" using per persist_ok(2) by simp
        then have "s' = scimRestoreKeycloakUser (pe_kc_restore env) (pj_user j) (pj_orig j)
            (scimRestoreVersion None (pj_user j) (pj_version j) (pj_version j + 1) s2)" "scim_status resp \<noteq> 200"
          using assms j lock None idp r2 per False by (auto simp: SCIMPatchUser_def restores_answer_def)
        moreover have "fst (scim_idp_write (pe_kc_restore env) i f x) = None" for i f x
          using assms(2) by (simp add: scim_idp_write_def UpdateUser_def restores_answer_def)
        ultimately show ?thesis using j lock None idp r2
          by (intro db_failed) (auto simp: scimRestoreKeycloakUser_def prod_eq_iff)
      qed
    qed
  qed
qed

lemma one_row:
  assumes "distinct (map lu_id xs)" "u \<in> set xs"
  shows "filter (\<lambda>x. lu_id x = lu_id u) xs = [u]"
  using assms
proof (induction xs)
  case (Cons x xs)
  then have "lu_id x \<noteq> lu_id y" if "y \<in> set xs" for y using that by force
  moreover from this have "filter (\<lambda>y. lu_id y = lu_id x) xs = []" by (simp add: filter_empty_conv) metis
  ultimately show ?case using Cons by auto
qed simp

lemma write_fields_id [simp]: "lu_id (write_fields o' f u) = lu_id u" "lu_disabled (write_fields o' f u) = pf_disabled f"
  by (simp_all add: write_fields_def)

lemma filter_written:
  assumes "filter (\<lambda>x. lu_id x = i) xs = [u]" "\<And>x. lu_id (f x) = lu_id x"
  shows "filter (\<lambda>x. lu_id x = i) (update_where (\<lambda>x. lu_id x = i) f xs) = [f u]"
proof -
  have "filter (\<lambda>x. lu_id x = i) (update_where (\<lambda>x. lu_id x = i) f xs) = map f (filter (\<lambda>x. lu_id x = i) xs)"
    using assms(2) by (induction xs) (auto simp: update_where_def)
  with assms(1) show ?thesis by simp
qed

text \<open>C14. One PATCH is all or nothing in both systems.  When it answers 200, the version of the user has gone up
  by exactly one and the row carries the result of the operations applied in order to what was there;
  with any other answer the rows and the version are as before, provided the compensating writes
  are answered.  In both cases, when user ids are unique and Keycloak and the local row agreed before on whether the account is active, they still agree on it.\<close>

theorem scim_patch_all_or_nothing:
  assumes "SCIMPatchUser jt env c s = (resp, s')" and "restores_answer env"
    and "distinct (map lu_id (l_users (sc_db s)))" and "in_sync (pc_user c) s"
  shows "in_sync (pc_user c) s' \<and>
    (if scim_status resp = 200
     then version_of (pc_user c) s' = version_of (pc_user c) s + 1 \<and>
       (\<exists>u ops. pc_body c = Some ops \<and> user_rows (pc_user c) s = [u]
          \<and> user_rows (pc_user c) s' = [write_fields (fields_of u) (fold apply_op ops (fields_of u)) u])
     else version_of (pc_user c) s' = version_of (pc_user c) s \<and> l_users (sc_db s') = l_users (sc_db s))"
  using assms(1,2)
proof (cases rule: SCIMPatchUser_cases)
  case refused
  with assms(4) show ?thesis by simp
next
  case (idp_failed j s1)
  note r = read_ok [OF idp_failed(1)] and l = lock_ok(2) [OF idp_failed(2)]
  have "sc_db s' = sc_db s" "sc_realm s' = sc_realm s" "version_of (pc_user c) s' = version_of (pc_user c) s"
    using l r restore_version_of [of s1 "pj_user j" "pj_version j"] by (auto simp: idp_failed(3))
  with assms(4) idp_failed(4) show ?thesis by (simp add: in_sync_def user_rows_def idp_flags_def)
next
  case (db_failed j s1 s2)
  note r = read_ok [OF db_failed(1)] and l = lock_ok(2) [OF db_failed(2)] and w = idp_write_ok [OF db_failed(3)] and w' = idp_write_ok [OF db_failed(4)]
  have v: "version_of (pc_user c) s' = version_of (pc_user c) s" and db: "sc_db s' = sc_db s"
    using w w' l r restore_version_of [of s2 "pj_user j" "pj_version j"] by (auto simp: version_of_def)
  from r obtain u where u: "u \<in> set (l_users (sc_db s))" "lu_id u = pc_user c" "pj_orig j = fields_of u" by auto
  with one_row [OF assms(3) u(1)] have "user_rows (pc_user c) s' = [u]" by (simp add: user_rows_def db)
  then have "in_sync (pc_user c) s'" using w' u r by (simp add: in_sync_def fields_of_def)
  with v db db_failed(5) show ?thesis by simp
next
  case (patched j s1 s2 s3)
  note r = read_ok [OF patched(1)] and l = lock_ok(2) [OF patched(2)] and w = idp_write_ok [OF patched(3)] and p = persist_ok(1) [OF patched(4)]
  from r obtain u ops where u: "u \<in> set (l_users (sc_db s))" "lu_id u = pc_user c" "pj_orig j = fields_of u"
    "pc_body c = Some ops" "pj_new j = fold apply_op ops (fields_of u)" by auto
  have one: "user_rows (pc_user c) s = [u]" using one_row [OF assms(3) u(1)] u(2) by (simp add: user_rows_def)
  have rows: "user_rows (pc_user c) s' = [write_fields (pj_orig j) (pj_new j) u]"
    using filter_written [OF one [unfolded user_rows_def], of "write_fields (pj_orig j) (pj_new j)"] p w l r patched(5)
    by (simp add: user_rows_def)
  have "idp_flags (pc_user c) s' = idp_flags (pc_user c) s2" using p patched(7) by (simp add: idp_flags_def)
  with w r rows have "in_sync (pc_user c) s'" by (simp add: in_sync_def)
  moreover have "version_of (pc_user c) s' = version_of (pc_user c) s + 1"
    using l w p r patched(6) by (simp add: version_of_def)
  ultimately show ?thesis using one rows u patched(8) by auto
qed

definition sample_patch_env :: patch_env where
  "sample_patch_env = \<lparr>pe_version_err = None, pe_kc = sample_kc_env, pe_db_err = None, pe_restore_err = None,
     pe_kc_restore = sample_kc_env, pe_audit = sample_write_env, pe_now = 0\<rparr>"

theorem scim_patch_all_or_nothing_witness:
  "in_sync sample_uuid (snd (SCIMPatchUser (\<lambda>b. b) sample_patch_env deactivate_call sample_scim))"
proof -
  obtain resp s' where run: "SCIMPatchUser (\<lambda>b. b) sample_patch_env deactivate_call sample_scim = (resp, s')" by fastforce
  have "restores_answer sample_patch_env" by (simp add: restores_answer_def sample_patch_env_def sample_kc_env_def)
  moreover have "distinct (map lu_id (l_users (sc_db sample_scim)))" by (simp add: sample_scim_def sample_life_def)
  moreover have "in_sync (pc_user deactivate_call) sample_scim"
    by (auto simp: in_sync_def user_rows_def idp_flags_def sample_scim_def sample_life_def sample_realm_def deactivate_call_def sample_patch_def
        onboarded_user_def)
  ultimately have "in_sync (pc_user deactivate_call) s'" using scim_patch_all_or_nothing [OF run] by blast
  with run show ?thesis by (simp add: deactivate_call_def sample_patch_def)
qed

section \<open>ETags and If-Match\<close>

lemma trim_char_quoted:
  assumes "s \<noteq> []" "hd s \<noteq> c" "last s \<noteq> c"
  shows "trim_char c ([c] @ s @ [c]) = s"
proof -
  have "dropWhile (\<lambda>d. d = c) ([c] @ s @ [c]) = s @ [c]" using assms by (cases s) auto
  moreover have "dropWhile (\<lambda>d. d = c) (rev (s @ [c])) = rev s" using assms by (cases "rev s") (auto simp: hd_rev [symmetric])
  ultimately show ?thesis by (simp add: trim_char_def)
qed

lemma digit_not_quote: "is_digit c \<Longrightarrow> c \<noteq> CHR 0x22"
  by (auto simp: is_digit_def byte_def)

text \<open>A client that sends back the ETag it was given makes the condition it means: the header is recognised as
  present and well formed and its version is the one that was emitted, so a PATCH guarded by it passes
  the precondition exactly while the stored version is still that one.\<close>

theorem scim_etag_roundtrip:
  assumes "0 \<le> v" "v < 2 ^ 63"
  shows "scimIfMatchVersion (scim_etag v) = (v, True, True)"
proof -
  let ?d = "show_nat (nat v)"
  have e: "scim_etag v = ''W/'' @ [CHR 0x22] @ ?d @ [CHR 0x22]" using assms(1) by (simp add: scim_etag_def show_int_def)
  have g: "graphic (CHR ''W'')" "graphic (CHR 0x22)" by (simp_all add: graphic_def byte_def)
  have t: "trim_space (scim_etag v) = scim_etag v"
    by (rule trim_space_graphic) (use g in \<open>simp_all add: e\<close>)
  have w: "trim_prefix ''w/'' ([CHR 0x22] @ ?d @ [CHR 0x22]) = [CHR 0x22] @ ?d @ [CHR 0x22]" by (simp add: trim_prefix_def)
  have q: "trim_char (CHR 0x22) ([CHR 0x22] @ ?d @ [CHR 0x22]) = ?d"
    using show_nat_digits [of "nat v"] digit_not_quote show_nat_head [of "nat v"]
    by (intro trim_char_quoted) auto
  have "trim_prefix ''w/'' (trim_prefix ''W/'' (scim_etag v)) = [CHR 0x22] @ ?d @ [CHR 0x22]"
    unfolding e trim_prefix_append by (rule w)
  then have "parse_int64 (trim_char (CHR 0x22) (trim_prefix ''w/'' (trim_prefix ''W/'' (scim_etag v)))) = Some v"
    using parse_int64_show_nat [of "nat v"] assms by (simp only: q) simp
  moreover have "scim_etag v \<noteq> []" "scim_etag v \<noteq> ''*''" by (simp_all add: e)
  ultimately show ?thesis by (simp add: scimIfMatchVersion_def t)
qed

theorem scim_etag_roundtrip_witness: "scimIfMatchVersion (scim_etag 7) = (7, True, True)"
  by (rule scim_etag_roundtrip) simp_all

text \<open>A negative number in quotes is taken for the wildcard: the precondition is not checked.\<close>

lemma negative_if_match_is_wildcard: "scimIfMatchVersion [CHR 0x22, CHR ''-'', CHR ''5'', CHR 0x22] = (- 5, True, True)"
  by code_simp

section \<open>Filtered lists\<close>

text \<open>Bytes that mean themselves in a LIKE pattern.\<close>

definition like_plain :: "string \<Rightarrow> bool" where
  "like_plain v \<longleftrightarrow> list_all (\<lambda>c. c \<noteq> CHR 0x25 \<and> c \<noteq> CHR 0x5F \<and> c \<noteq> CHR 0x5C) v"

lemma sql_like_Nil [simp]: "sql_like [] t \<longleftrightarrow> t = []"
  by (simp add: sql_like.simps)

lemma sql_like_percent [simp]:
  "sql_like (CHR 0x25 # p) [] \<longleftrightarrow> sql_like p []"
  "sql_like (CHR 0x25 # p) (d # t) \<longleftrightarrow> sql_like p (d # t) \<or> sql_like (CHR 0x25 # p) t"
  by (subst sql_like.simps, simp)+

lemma sql_like_literal:
  "c \<noteq> CHR 0x25 \<Longrightarrow> c \<noteq> CHR 0x5F \<Longrightarrow> c \<noteq> CHR 0x5C
    \<Longrightarrow> sql_like (c # p) t \<longleftrightarrow> (case t of [] \<Rightarrow> False | d # r \<Rightarrow> c = d \<and> sql_like p r)"
  by (subst sql_like.simps) (auto split: list.split)

lemma sql_like_any [simp]: "sql_like [CHR 0x25] t"
  by (induction t) auto

lemma sql_like_starts: "like_plain v \<Longrightarrow> sql_like (v @ [CHR 0x25]) t \<longleftrightarrow> has_prefix v t"
  by (induction v arbitrary: t) (auto simp: like_plain_def sql_like_literal split: list.split)

lemma sql_like_contains: "like_plain v \<Longrightarrow> sql_like (CHR 0x25 # v @ [CHR 0x25]) t \<longleftrightarrow> str_contains v t"
proof (induction t)
  case Nil
  then show ?case using sql_like_starts [of v "[]"] by (cases v) auto
next
  case (Cons c t)
  then show ?case using sql_like_starts [of v "c # t"] by (simp del: has_prefix_Cons)
qed

lemma to_lower_wild: "to_lower_char c \<in> {CHR 0x25, CHR 0x5F, CHR 0x5C} \<longleftrightarrow> c \<in> {CHR 0x25, CHR 0x5F, CHR 0x5C}"
  by (auto simp: to_lower_char_def simp flip: byte_inject)

lemma like_plain_lower: "like_plain v \<Longrightarrow> like_plain (to_lower v)"
  using to_lower_wild by (auto simp: like_plain_def to_lower_def list_all_iff)

lemma to_lower_percent [simp]: "to_lower [CHR 0x25] = [CHR 0x25]"
  by (simp add: to_lower_def to_lower_char_def)

lemma user_where_exact:
  assumes "op \<in> {scimOpEq, scimOpCo, scimOpSw}" "like_plain v" "to_lower email = email"
  shows "user_where (scimFilterOpString op) (to_lower v) email \<longleftrightarrow> Eval (SLeaf a op v) (\<lambda>_. email)"
proof -
  have w: "to_lower (to_lower v @ [CHR 0x25]) = to_lower v @ [CHR 0x25]"
    "to_lower ([CHR 0x25] @ to_lower v @ [CHR 0x25]) = CHR 0x25 # to_lower v @ [CHR 0x25]"
    by (simp_all only: to_lower_append to_lower_idem to_lower_percent) simp
  note plain = like_plain_lower [OF assms(2)]
  show ?thesis
    using assms(1,3) w sql_like_starts [OF plain] sql_like_contains [OF plain]
    by (auto simp: user_where_def ilike_def Let_def)
qed

definition list_answers :: "list_env \<Rightarrow> org_context \<Rightarrow> bool" where
  "list_answers env oc \<longleftrightarrow> li_has_db env \<and> li_oc env = Some oc \<and> li_count_err env = None \<and> li_query_err env = None
     \<and> li_rows_err env = None \<and> (\<forall>i. li_scans env i)"

text \<open>A filter on the user name or address with one of the operators \<open>eq\<close>, \<open>co\<close>, \<open>sw\<close> is answered by the meaning
  of the filter: the SQL predicate selects exactly the users of the caller's organisation for which the
  parsed filter evaluates to true, the total counts all of them, and the resources are the requested
  page of them, oldest first.  The value may not contain the wildcards of LIKE, and addresses are stored in
  lower case.\<close>

theorem scim_list_filter_exact:
  assumes "ParseSCIMFilter raw = Some (SLeaf a op v)" "a \<in> {''username'', ''emails.value''}" "op \<in> {scimOpEq, scimOpCo, scimOpSw}"
    and "like_plain v" and "\<forall>u \<in> set (l_users (sc_db s)). to_lower (lu_email u) = lu_email u"
    and "list_answers env oc" and "scim_page start_param count_param = (start, n)"
  defines "hits \<equiv> filter (\<lambda>u. lu_org u = oc_org oc \<and> Eval (SLeaf a op v) (\<lambda>_. lu_email u)) (l_users (sc_db s))"
  shows "1 \<le> start \<and> 1 \<le> n \<and> n \<le> 1000 \<and>
    (\<exists>l. SCIMListUsers env start_param count_param raw s = scimRespond 200 [] l
       \<and> sl_total l = length hits
       \<and> sl_resources l = map (scim_row s) (take (nat n) (drop (nat (start - 1)) (sort_key (\<lambda>u. fst (sc_times s (lu_id u))) hits))))"
proof -
  have "raw \<noteq> []" using assms(1) by (auto simp: ParseSCIMFilter_def)
  then have f: "user_filter raw = Inr (scimFilterOpString op, to_lower v)"
    using assms(1,2) by (auto simp: user_filter_def parseSCIMFilterStrict_def flat_filter_def)
  have m: "matching_users (oc_org oc) (scimFilterOpString op, to_lower v) s = hits"
    unfolding matching_users_def hits_def
    using user_where_exact [OF assms(3,4)] assms(5) by (intro filter_cong) (simp_all del: Eval.simps)
  have "1 \<le> start \<and> 1 \<le> n \<and> n \<le> 1000"
    using assms(7) by (auto simp: scim_page_def page_param_def split: option.splits if_splits)
  with assms(6,7) f m show ?thesis by (simp add: SCIMListUsers_def list_answers_def)
qed

definition sample_list_env :: list_env where
  "sample_list_env = \<lparr>li_has_db = True, li_oc = Some \<lparr>oc_org = ''o1'', oc_role = ''admin''\<rparr>, li_count_err = None, li_query_err = None,
     li_scans = (\<lambda>_. True), li_rows_err = None\<rparr>"

definition sample_filter :: string where
  "sample_filter = ''userName sw '' @ [CHR 0x22] @ ''A@'' @ [CHR 0x22]"

theorem scim_list_filter_exact_witness:
  "\<exists>l. SCIMListUsers sample_list_env [] [] sample_filter sample_scim = scimRespond 200 [] l \<and> sl_total l = 1"
proof -
  have p: "ParseSCIMFilter sample_filter = Some (SLeaf ''username'' scimOpSw ''A@'')" unfolding sample_filter_def by code_simp
  have pl: "like_plain ''A@''" by (simp add: like_plain_def)
  have low: "\<forall>u \<in> set (l_users (sc_db sample_scim)). to_lower (lu_email u) = lu_email u"
    by (simp add: sample_scim_def sample_life_def onboarded_user_def to_lower_def to_lower_char_def)
  have an: "list_answers sample_list_env \<lparr>oc_org = ''o1'', oc_role = ''admin''\<rparr>" by (simp add: list_answers_def sample_list_env_def)
  have pg: "scim_page [] [] = (1, 100)" by (simp add: scim_page_def page_param_def parse_int64_def)
  have h: "filter (\<lambda>u. lu_org u = ''o1'' \<and> Eval (SLeaf ''username'' scimOpSw ''A@'') (\<lambda>_. lu_email u)) (l_users (sc_db sample_scim))
      = l_users (sc_db sample_scim)"
  proof -
    have "Eval (SLeaf ''username'' scimOpSw ''A@'') (\<lambda>_. ''a@b.co'')" by code_simp
    then show ?thesis by (simp add: sample_scim_def sample_life_def onboarded_user_def del: Eval.simps)
  qed
  have one: "length (l_users (sc_db sample_scim)) = 1" by (simp add: sample_scim_def sample_life_def)
  have "\<exists>l. SCIMListUsers sample_list_env [] [] sample_filter sample_scim = scimRespond 200 [] l
      \<and> sl_total l = length (filter (\<lambda>u. lu_org u = ''o1'' \<and> Eval (SLeaf ''username'' scimOpSw ''A@'') (\<lambda>_. lu_email u)) (l_users (sc_db sample_scim)))"
    using scim_list_filter_exact [OF p _ _ pl low an pg] by (simp del: Eval.simps) blast
  then show ?thesis unfolding h one .
qed

text \<open>Any other attribute or operator is dropped from the query: the list is not filtered at all.\<close>

lemma unsupported_filter_returns_all:
  "ParseSCIMFilter raw = Some (SLeaf a op v) \<Longrightarrow> a \<notin> {''username'', ''emails.value''} \<or> op \<in> {scimOpNe, scimOpPr}
    \<Longrightarrow> \<exists>f. user_filter raw = Inr f \<and> matching_users org f s = filter (\<lambda>u. lu_org u = org) (l_users (sc_db s))"
  by (auto simp: user_filter_def parseSCIMFilterStrict_def flat_filter_def ParseSCIMFilter_def matching_users_def user_where_def split: if_splits)

section \<open>Organisations\<close>

text \<open>A SCIM token acts within its own organisation.  The token of an organisation passes only on the path of
  that organisation and only while it is not revoked, and a user of another organisation is "not found" for
  get, patch and delete, which leave both systems as they were.\<close>

theorem scim_token_confined:
  assumes "SCIMOrgBearerMiddleware has_db err tokens path auth = Inr oc"
    and "ValidateUserID userID = None" and "\<forall>u \<in> set (l_users (sc_db s)). lu_id u = userID \<longrightarrow> lu_org u \<noteq> oc_org oc"
  shows "oc_org oc = path
    \<and> (\<exists>t \<in> set tokens. stk_hash t = hex_sha256 (trim_prefix ''Bearer '' auth) \<and> \<not> stk_revoked t \<and> stk_org t = path)
    \<and> SCIMGetUser True (Some oc) None userID s = scimRespondError 404 ''user not found'' []
    \<and> (pc_user c = userID \<and> pc_oc c = Some oc \<longrightarrow> snd (SCIMPatchUser jt penv c s) = s)
    \<and> (de_oc denv = Some oc \<longrightarrow> snd (SCIMDeleteUser jt denv userID s) = s)"
proof -
  have tok: "oc_org oc = path \<and> (\<exists>t \<in> set tokens. stk_hash t = hex_sha256 (trim_prefix ''Bearer '' auth) \<and> \<not> stk_revoked t \<and> stk_org t = path)"
    using assms(1) by (auto simp: SCIMOrgBearerMiddleware_def dest!: select_one_Ok_D split: if_splits query.splits)
  have none: "scim_load e userID oc s \<noteq> Ok u" for e u
    using assms(3) by (auto simp: scim_load_def dest!: select_one_Ok_D)
  have get: "scim_load None userID oc s = No_rows" using assms(3) by (auto simp: scim_load_def sql_simps)
  have patch: "\<exists>r. scim_patch_read c s = Inl r" if "pc_user c = userID \<and> pc_oc c = Some oc"
  proof (cases "scim_patch_read c s")
    case (Inr j)
    with read_ok [OF Inr] that assms(3) show ?thesis by auto
  qed simp
  show ?thesis
    using tok get patch none assms(2)
    by (auto simp: SCIMGetUser_def SCIMPatchUser_def SCIMDeleteUser_def split: query.split)
qed

definition sample_scim_token :: scim_token where
  "sample_scim_token = \<lparr>stk_hash = hex_sha256 ''tok'', stk_org = sample_uuid, stk_revoked = False\<rparr>"

theorem scim_token_confined_witness:
  "SCIMGetUser True (Some \<lparr>oc_org = sample_uuid, oc_role = OrgMembershipRoleAdmin\<rparr>) None sample_uuid sample_scim
     = scimRespondError 404 ''user not found'' []"
proof -
  have "SCIMOrgBearerMiddleware True None [sample_scim_token] sample_uuid ''Bearer tok''
      = (Inr \<lparr>oc_org = sample_uuid, oc_role = OrgMembershipRoleAdmin\<rparr> :: unit scim_response + org_context)"
    by (simp add: SCIMOrgBearerMiddleware_def uuid_ok sample_scim_token_def select_one_def trim_prefix_def)
  from scim_token_confined [OF this uuid_ok, of sample_scim] show ?thesis
    by (simp add: sample_scim_def sample_life_def onboarded_user_def sample_uuid_def)
qed

section \<open>Creation\<close>

definition create_view :: "scim_create_env \<Rightarrow> onboard_env" where
  "create_view env = \<lparr>og_kc = cn_kc env, og_kc_delete = cn_kc_delete env, og_fleet = Inl [], og_has_db = True, og_persist = cn_persist env\<rparr>"

definition scim_request :: "string \<Rightarrow> string \<Rightarrow> string \<Rightarrow> onboard_request" where
  "scim_request firstName lastName email = \<lparr>ob_first = firstName, ob_last = lastName, ob_email = email, ob_department = [], ob_role = []\<rparr>"

lemma scim_provision_outcome:
  assumes "scim_provision jt env oc firstName lastName email s = (resp, s')" and "idp_cooperates (create_view env) (rl_idp (sc_realm s))"
  shows "if scim_status resp = 201
     then \<exists>i. onboarded i (oc_org oc) ''scim-provisioner'' (scim_request firstName lastName email) (sc_db s) (sc_db s')
        \<and> kc_users (rl_idp (sc_realm s')) = kc_users (rl_idp (sc_realm s)) @ [(i, True)]
     else sc_realm s' = sc_realm s \<and> same_data (sc_db s) (sc_db s') \<and> sc_versions s' = sc_versions s"
  using assms(2)
proof (cases rule: CreateUser_cases [where dept = "[]"])
  case (failed e)
  then show ?thesis using assms(1) by (auto simp: scim_provision_def create_view_def)
next
  case (created res kc1)
  let ?r = "scim_request firstName lastName email"
  obtain e db where p: "persistOnboard jt (cn_persist env) None (cr_id res) ?r ''scim-provisioner'' (JObj [(''source'', JStr ''scim'')]) []
      (oc_org oc) (sc_db s) = (e, db)" by fastforce
  note kc = created(1) [unfolded create_view_def, simplified]
  show ?thesis
  proof (cases e)
    case None
    have "scim_status resp = 201" "sc_db s' = db" "rl_idp (sc_realm s') = kc1"
      using assms(1) kc created(3) p None by (auto simp: scim_provision_def scim_request_def Let_def)
    with created(4) persistOnboard_ok [of jt "cn_persist env" None "cr_id res" ?r] p None show ?thesis by auto
  next
    case (Some x)
    have "scim_status resp = 500" "sc_db s' = db" "sc_versions s' = sc_versions s"
        "sc_realm s' = (sc_realm s)\<lparr>rl_idp := snd (DeleteUser (cn_kc_delete env) (cr_id res) kc1)\<rparr>"
      using assms(1) kc created(3) p Some by (auto simp: scim_provision_def scim_request_def)
    moreover have "snd (DeleteUser (cn_kc_delete env) (cr_id res) kc1) = rl_idp (sc_realm s)"
      using created(5) by (simp add: create_view_def)
    ultimately show ?thesis using persistOnboard_failed [of jt "cn_persist env" None "cr_id res" ?r] p Some by simp
  qed
qed

text \<open>Creating a user through SCIM is all or nothing and never duplicates an address.  A 201 means: the address is
  valid and was free, one account exists more at Keycloak, and the database has the user row in the
  token's organisation, the membership and the audit row.  With any other answer Keycloak, the tables and
  the versions are as before (the identity provider setting passwords and answering the compensating
  delete).\<close>

theorem scim_create_all_or_nothing:
  assumes "SCIMCreateUser jt env body s = (resp, s')" and "idp_cooperates (create_view env) (rl_idp (sc_realm s))"
  shows "if scim_status resp = 201
     then \<exists>req oc i. body = Some req \<and> cn_oc env = Some oc \<and> isValidEmail (scim_address req)
        \<and> (\<forall>u \<in> set (l_users (sc_db s)). lu_email u \<noteq> scim_address req)
        \<and> onboarded i (oc_org oc) ''scim-provisioner''
            (scim_request (name_or_unknown (sn_given (su_name req))) (name_or_unknown (sn_family (su_name req))) (scim_address req)) (sc_db s) (sc_db s')
        \<and> kc_users (rl_idp (sc_realm s')) = kc_users (rl_idp (sc_realm s)) @ [(i, True)]
     else sc_realm s' = sc_realm s \<and> same_data (sc_db s) (sc_db s') \<and> sc_versions s' = sc_versions s"
proof (cases "\<exists>req oc. body = Some req \<and> cn_oc env = Some oc \<and> scim_address req \<noteq> [] \<and> isValidEmail (scim_address req) \<and> cn_has_db env
    \<and> select_one (cn_lookup_err env) (\<lambda>u. lu_email u = scim_address req) (l_users (sc_db s)) = No_rows")
  case True
  then obtain req oc where h: "body = Some req" "cn_oc env = Some oc" "scim_address req \<noteq> []" "isValidEmail (scim_address req)" "cn_has_db env"
    "select_one (cn_lookup_err env) (\<lambda>u. lu_email u = scim_address req) (l_users (sc_db s)) = No_rows" by blast
  then have "scim_provision jt env oc (name_or_unknown (sn_given (su_name req))) (name_or_unknown (sn_family (su_name req)))
      (scim_address req) s = (resp, s')" using assms(1) by (simp add: SCIMCreateUser_def)
  from scim_provision_outcome [OF this assms(2)] h show ?thesis by (auto simp: sql_simps)
next
  case False
  then have "s' = s \<and> scim_status resp \<noteq> 201"
    using assms(1) unfolding SCIMCreateUser_def Let_def by (auto split: option.splits if_splits query.splits)
  then show ?thesis by simp
qed

definition sample_create_env :: scim_create_env where
  "sample_create_env = \<lparr>cn_has_db = True, cn_oc = Some \<lparr>oc_org = ''o1'', oc_role = ''admin''\<rparr>, cn_lookup_err = None, cn_kc = sample_kc_env,
     cn_kc_delete = sample_kc_env, cn_persist = sample_persist_env\<lparr>pz_user := Some ''down''\<rparr>, cn_version_err = None, cn_fetch_err = None, cn_now = 0\<rparr>"

theorem scim_create_all_or_nothing_witness:
  "\<exists>resp s'. SCIMCreateUser (\<lambda>b. b) sample_create_env (Some (scimUserFromRow [] ''c@d.co'' [] [] False 0 0 0)) sample_scim = (resp, s')
     \<and> (scim_status resp = 201 \<or> sc_realm s' = sc_realm sample_scim)"
proof -
  obtain resp s' where run: "SCIMCreateUser (\<lambda>b. b) sample_create_env (Some (scimUserFromRow [] ''c@d.co'' [] [] False 0 0 0)) sample_scim = (resp, s')"
    by fastforce
  have "idp_cooperates (create_view sample_create_env) (rl_idp (sc_realm sample_scim))"
    by (simp add: idp_cooperates_def create_view_def sample_create_env_def sample_kc_env_def sample_scim_def sample_uuid_def)
  from scim_create_all_or_nothing [OF run this] run show ?thesis by (auto split: if_splits)
qed

end
