(* ===== verification/Scim_Groups.thy ===== *)
theory Scim_Groups
  imports Scim_Users
begin

text \<open>
  The SCIM endpoints for groups, the second half of \<open>internal/handlers/scim.go\<close>.  Keycloak groups carry
  their organisation in an attribute; the handlers act only on groups of the caller's organisation
  and bind only its users.  Each call to Keycloak and each membership lookup has an answer of its own; a
  loop over users takes the answers by position.
\<close>

section \<open>Data\<close>

type_synonym scim_group_member = "string \<times> string"

record scim_group =
  sg_id :: string
  sg_name :: string
  sg_members :: "scim_group_member list"

definition scimGroupFromKC :: "string \<Rightarrow> string \<Rightarrow> scim_group_member list \<Rightarrow> scim_group" where
  "scimGroupFromKC i name members = \<lparr>sg_id = i, sg_name = name, sg_members = members\<rparr>"

text \<open>The members of a response: the ids with the addresses Keycloak has for them.\<close>

definition scim_members :: "(string \<Rightarrow> string) \<Rightarrow> string list \<Rightarrow> scim_group_member list" where
  "scim_members email ids = map (\<lambda>i. (i, email i)) ids"

definition group_missing :: "string \<Rightarrow> bool" where
  "group_missing msg \<longleftrightarrow> str_contains ''404'' msg \<or> str_contains ''not found'' msg"

section \<open>Reading groups\<close>

definition group_filter :: "string \<Rightarrow> filter_error + string" where
  "group_filter raw =
     (if raw = [] then Inr []
      else case parseSCIMFilterStrict raw of Inl e \<Rightarrow> Inl e
      | Inr None \<Rightarrow> Inr []
      | Inr (Some f) \<Rightarrow> Inr (if sf_op f = ''eq'' \<and> equal_fold (sf_attr f) ''displayname'' then sf_value f else []))"

definition maxOrgGroups :: nat where
  "maxOrgGroups = 5000"

definition listed_groups :: "string \<Rightarrow> kc_group list \<Rightarrow> scim_group list" where
  "listed_groups name gs = map (\<lambda>g. scimGroupFromKC (the (gr_id g)) (the (gr_name g)) [])
     (filter (\<lambda>g. gr_id g \<noteq> None \<and> gr_name g \<noteq> None \<and> (name = [] \<or> equal_fold (the (gr_name g)) name)) gs)"

definition SCIMListGroups :: "group_env \<Rightarrow> org_context option \<Rightarrow> string \<Rightarrow> string \<Rightarrow> string \<Rightarrow> scim_group scim_list scim_response" where
  "SCIMListGroups env oc start_param count_param filterRaw =
     (case oc of None \<Rightarrow> scimRespondError 403 ''forbidden: no organization context'' [] | Some x \<Rightarrow>
      (let (startIndex, max_items) = scim_page start_param count_param in
       case group_filter filterRaw of
         Inl _ \<Rightarrow> scimRespondError 400 ''filter: logical expressions (and/or/not) are not supported'' ''invalidFilter''
       | Inr name \<Rightarrow>
           (case ListGroupsByOrg env (oc_org x) of
              Inl _ \<Rightarrow> scimRespondError 500 ''internal error'' []
            | Inr kcGroups \<Rightarrow>
                (let groups = listed_groups name kcGroups;
                     page = take (nat max_items) (drop (nat (startIndex - 1)) groups)
                 in scimRespond 200 [] \<lparr>sl_total = length groups, sl_start = startIndex, sl_items = length page, sl_resources = page\<rparr>))))"

text \<open>The check in front of get, patch and delete: the group exists and carries the caller's organisation.  Get and
  patch (\<open>full\<close>) also refuse a group that came without its id or name.\<close>

definition scim_own_group :: "bool \<Rightarrow> group_env \<Rightarrow> org_context option \<Rightarrow> string \<Rightarrow> realm \<Rightarrow> 'b scim_response + org_context \<times> kc_group" where
  "scim_own_group full env oc groupID rl =
     (if ValidateOpaqueID groupID ''id'' \<noteq> None then Inl (scimRespondError 400 ''id is required'' ''invalidValue'')
      else case oc of None \<Rightarrow> Inl (scimRespondError 403 ''forbidden: no organization context'' []) | Some x \<Rightarrow>
      case GetGroupByID env groupID rl of
        Inl e \<Rightarrow> Inl (if group_missing e then scimRespondError 404 ''group not found'' [] else scimRespondError 500 ''internal error'' [])
      | Inr g \<Rightarrow>
          if full \<and> (gr_id g = None \<or> gr_name g = None) then Inl (scimRespondError 500 ''incomplete group data'' [])
          else if GroupOrgID g \<noteq> oc_org x then Inl (scimRespondError 404 ''group not found'' [])
          else Inr (x, g))"

definition SCIMGetGroup :: "group_env \<Rightarrow> group_env \<Rightarrow> (string \<Rightarrow> string) \<Rightarrow> org_context option \<Rightarrow> string \<Rightarrow> realm \<Rightarrow> scim_group scim_response" where
  "SCIMGetGroup env list_env email oc groupID rl =
     (case scim_own_group True env oc groupID rl of
        Inl r \<Rightarrow> r
      | Inr (x, g) \<Rightarrow>
          scimRespond 200 [] (scimGroupFromKC (the (gr_id g)) (the (gr_name g))
            (case ListGroupMembers list_env groupID rl of Inl _ \<Rightarrow> [] | Inr ids \<Rightarrow> scim_members email ids)))"

section \<open>Members of the caller's organisation\<close>

definition scimUserInOrg :: "bool \<Rightarrow> string option \<Rightarrow> org_row list \<Rightarrow> string \<Rightarrow> string \<Rightarrow> bool" where
  "scimUserInOrg has_db err rows userID orgID =
     (case CheckResourceInOrg has_db err rows ''users'' ''keycloak_user_id'' userID orgID of Inl _ \<Rightarrow> False | Inr ok \<Rightarrow> ok)"

definition scimFilterUserIDsInOrg :: "bool \<Rightarrow> (nat \<Rightarrow> string option) \<Rightarrow> org_row list \<Rightarrow> string \<Rightarrow> string list \<Rightarrow> string list" where
  "scimFilterUserIDsInOrg has_db err rows orgID uids =
     map snd (filter (\<lambda>x. scimUserInOrg has_db (err (fst x)) rows (snd x) orgID) (enumerate 0 uids))"

definition member_value :: "jval \<Rightarrow> string list" where
  "member_value v = (case v of JObj m \<Rightarrow> (case obj_get ''value'' m of Some (JStr uid) \<Rightarrow> if uid = [] then [] else [uid] | _ \<Rightarrow> []) | _ \<Rightarrow> [])"

definition extractMemberValues :: "jval \<Rightarrow> string list" where
  "extractMemberValues v = (case v of JArr items \<Rightarrow> concat (map member_value items) | _ \<Rightarrow> member_value v)"

section \<open>Creating groups\<close>

record group_create_env =
  gc_create :: group_env
  gc_has_db :: bool
  gc_db :: "nat \<Rightarrow> string option"
  gc_add :: "nat \<Rightarrow> group_env"

text \<open>The loop over the initial members: the added ones and the realm.\<close>

fun add_initial :: "group_create_env \<Rightarrow> org_row list \<Rightarrow> string \<Rightarrow> string \<Rightarrow> (nat \<times> scim_group_member) list \<Rightarrow> realm
   \<Rightarrow> scim_group_member list \<times> realm" where
  "add_initial env rows orgID groupID [] rl = ([], rl)"
| "add_initial env rows orgID groupID ((k, m) # ms) rl =
     (if fst m = [] \<or> \<not> scimUserInOrg (gc_has_db env) (gc_db env k) rows (fst m) orgID then add_initial env rows orgID groupID ms rl
      else case AddUserToGroup (gc_add env k) (fst m) groupID rl of
        (Some _, rl) \<Rightarrow> add_initial env rows orgID groupID ms rl
      | (None, rl) \<Rightarrow> (case add_initial env rows orgID groupID ms rl of (added, rl) \<Rightarrow> (m # added, rl)))"

definition SCIMCreateGroup :: "group_create_env \<Rightarrow> org_context option \<Rightarrow> scim_group option \<Rightarrow> org_row list \<Rightarrow> realm
   \<Rightarrow> scim_group scim_response \<times> realm" where
  "SCIMCreateGroup env oc body rows rl =
     (case body of None \<Rightarrow> (scimRespondError 400 ''invalid JSON'' ''invalidValue'', rl) | Some req \<Rightarrow>
      (let name = trim_space (sg_name req) in
       if name = [] then (scimRespondError 400 ''displayName is required'' ''invalidValue'', rl)
       else case oc of None \<Rightarrow> (scimRespondError 403 ''forbidden: no organization context'' [], rl) | Some x \<Rightarrow>
       case CreateGroupWithOrgID (gc_create env) name (oc_org x) rl of
         (Inl _, rl) \<Rightarrow> (scimRespondError 500 ''failed to create group'' [], rl)
       | (Inr groupID, rl) \<Rightarrow>
           (case add_initial env rows (oc_org x) groupID (enumerate 0 (sg_members req)) rl of (added, rl) \<Rightarrow>
              (scimRespond 201 [] (scimGroupFromKC groupID name added), rl))))"

section \<open>Patching groups\<close>

record group_op_env =
  go_has_db :: bool
  go_db :: "nat \<Rightarrow> string option"
  go_call :: "nat \<Rightarrow> group_env"
  go_list :: group_env
  go_remove :: "nat \<Rightarrow> group_env"

definition add_members :: "(nat \<Rightarrow> group_env) \<Rightarrow> string \<Rightarrow> string list \<Rightarrow> realm \<Rightarrow> realm" where
  "add_members env groupID uids rl = fold (\<lambda>x rl. snd (AddUserToGroup (env (fst x)) (snd x) groupID rl)) (enumerate 0 uids) rl"

definition remove_members :: "(nat \<Rightarrow> group_env) \<Rightarrow> string \<Rightarrow> string list \<Rightarrow> realm \<Rightarrow> realm" where
  "remove_members env groupID uids rl = fold (\<lambda>x rl. snd (RemoveUserFromGroup (env (fst x)) (snd x) groupID rl)) (enumerate 0 uids) rl"

text \<open>The path of an operation and the user id a filter-qualified path names.\<close>

definition group_path :: "string \<Rightarrow> string \<times> string" where
  "group_path path =
     (let pathLow = to_lower path in
      if CHR ''['' \<in> set pathLow then
        (case ParseSCIMFilterPath path of
           (base, Some inner) \<Rightarrow>
             if base = ''members''
             then (base, case inner of SLeaf a op v \<Rightarrow> if op = scimOpEq \<and> a = ''value'' then v else [] | _ \<Rightarrow> [])
             else (pathLow, [])
         | _ \<Rightarrow> (pathLow, []))
      else (pathLow, []))"

definition new_name :: "string \<Rightarrow> jval \<Rightarrow> string \<Rightarrow> string" where
  "new_name path v name =
     (if path = ''displayname'' then (case v of JStr s \<Rightarrow> trim_space s | _ \<Rightarrow> name)
      else (case v of JObj m \<Rightarrow> (case obj_get ''displayName'' m of Some (JStr s) \<Rightarrow> trim_space s | _ \<Rightarrow> name) | _ \<Rightarrow> name))"

text \<open>One operation: an answer that ends the request, the display name so far, and the realm.\<close>

definition group_op :: "group_op_env \<Rightarrow> org_row list \<Rightarrow> string \<Rightarrow> string \<Rightarrow> scim_op \<Rightarrow> string \<Rightarrow> realm
   \<Rightarrow> scim_group scim_response option \<times> string \<times> realm" where
  "group_op env rows orgID groupID op name rl =
     (let opLow = to_lower (op_name op); (path, uid) = group_path (op_path op);
          wanted = scimFilterUserIDsInOrg (go_has_db env) (go_db env) rows orgID (if uid \<noteq> [] then [uid] else extractMemberValues (op_value op))
      in if (opLow = ''replace'' \<or> opLow = ''add'') \<and> (path = ''displayname'' \<or> path = [])
         then (None, new_name path (op_value op) name, rl)
         else if opLow = ''add'' \<and> path = ''members'' then (None, name, add_members (go_call env) groupID wanted rl)
         else if opLow = ''remove'' \<and> path = ''members'' then (None, name, remove_members (go_call env) groupID wanted rl)
         else if opLow = ''replace'' \<and> path = ''members''
         then (case ListGroupMembers (go_list env) groupID rl of
                 Inl _ \<Rightarrow> (Some (scimRespondError 500 ''failed to list current group members'' []), name, rl)
               | Inr existing \<Rightarrow>
                   (None, name, add_members (go_call env) groupID
                      (scimFilterUserIDsInOrg (go_has_db env) (go_db env) rows orgID (extractMemberValues (op_value op)))
                      (remove_members (go_remove env) groupID existing rl)))
         else (None, name, rl))"

fun group_ops :: "org_row list \<Rightarrow> string \<Rightarrow> string \<Rightarrow> (group_op_env \<times> scim_op) list \<Rightarrow> string \<Rightarrow> realm
   \<Rightarrow> scim_group scim_response option \<times> string \<times> realm" where
  "group_ops rows orgID groupID [] name rl = (None, name, rl)"
| "group_ops rows orgID groupID ((env, op) # ops) name rl =
     (case group_op env rows orgID groupID op name rl of
        (Some r, name, rl) \<Rightarrow> (Some r, name, rl)
      | (None, name, rl) \<Rightarrow> group_ops rows orgID groupID ops name rl)"

record group_patch_env =
  gp_get :: group_env
  gp_rename :: group_env
  gp_members :: group_env
  gp_email :: "string \<Rightarrow> string"

definition SCIMPatchGroup :: "group_patch_env \<Rightarrow> org_context option \<Rightarrow> string \<Rightarrow> (group_op_env \<times> scim_op) list option \<Rightarrow> org_row list \<Rightarrow> realm
   \<Rightarrow> scim_group scim_response \<times> realm" where
  "SCIMPatchGroup env oc groupID body rows rl =
     (if ValidateOpaqueID groupID ''id'' \<noteq> None then (scimRespondError 400 ''id is required'' ''invalidValue'', rl)
      else case body of None \<Rightarrow> (scimRespondError 400 ''invalid JSON'' ''invalidValue'', rl) | Some ops \<Rightarrow>
      case scim_own_group True (gp_get env) oc groupID rl of Inl r \<Rightarrow> (r, rl) | Inr (x, g) \<Rightarrow>
      (let old = the (gr_name g) in
       case group_ops rows (oc_org x) groupID ops old rl of
         (Some r, _, rl) \<Rightarrow> (r, rl)
       | (None, name, rl) \<Rightarrow>
           (case (if name \<noteq> old \<and> name \<noteq> [] then RenameGroup (gp_rename env) groupID name rl else (None, rl)) of
              (Some _, rl) \<Rightarrow> (scimRespondError 500 ''failed to rename group'' [], rl)
            | (None, rl) \<Rightarrow>
                (case ListGroupMembers (gp_members env) groupID rl of
                   Inl _ \<Rightarrow> (scimRespondError 500 ''failed to list group members'' [], rl)
                 | Inr ids \<Rightarrow> (scimRespond 200 [] (scimGroupFromKC groupID name (scim_members (gp_email env) ids)), rl)))))"

definition SCIMDeleteGroup :: "group_env \<Rightarrow> group_env \<Rightarrow> org_context option \<Rightarrow> string \<Rightarrow> realm \<Rightarrow> unit scim_response \<times> realm" where
  "SCIMDeleteGroup env del_env oc groupID rl =
     (case scim_own_group False env oc groupID rl of Inl r \<Rightarrow> (r, rl)
      | Inr _ \<Rightarrow>
          (case DeleteGroup del_env groupID rl of
             (Some _, rl) \<Rightarrow> (scimRespondError 500 ''failed to delete group'' [], rl)
           | (None, rl) \<Rightarrow> (scimNoContent, rl)))"

section \<open>What a request may change\<close>

definition memberships :: "realm \<Rightarrow> (string \<times> string) set" where
  "memberships rl = set (kc_members (rl_idp rl))"

definition renamed :: "string \<Rightarrow> kc_group \<Rightarrow> kc_group \<Rightarrow> bool" where
  "renamed gid g g' \<longleftrightarrow> g' = g \<or> gr_id g = Some gid \<and> g' = g\<lparr>gr_name := gr_name g'\<rparr>"

text \<open>Between two realms nothing has changed but the memberships and the name of one group, and everyone who joined it
  satisfies a condition.\<close>

definition confined :: "(string \<Rightarrow> bool) \<Rightarrow> string \<Rightarrow> realm \<Rightarrow> realm \<Rightarrow> bool" where
  "confined P gid rl rl' \<longleftrightarrow>
     (\<forall>u g. (u, g) \<in> memberships rl' \<longrightarrow> (u, g) \<in> memberships rl \<or> g = gid \<and> P u)
   \<and> (\<forall>u g. (u, g) \<in> memberships rl \<and> g \<noteq> gid \<longrightarrow> (u, g) \<in> memberships rl')
   \<and> list_all2 (renamed gid) (rl_groups rl) (rl_groups rl')
   \<and> kc_users (rl_idp rl') = kc_users (rl_idp rl) \<and> rl_profiles rl' = rl_profiles rl
   \<and> rl_client_roles rl' = rl_client_roles rl \<and> rl_assigned rl' = rl_assigned rl"

lemma renamed_refl [simp]: "renamed gid g g"
  by (simp add: renamed_def)

lemma renamed_trans: "renamed gid a b \<Longrightarrow> renamed gid b c \<Longrightarrow> renamed gid a c"
  by (cases a; cases b; cases c) (auto simp: renamed_def)

lemma confined_refl [simp]: "confined P gid rl rl"
  by (simp add: confined_def list_all2_same)

lemma confined_trans:
  assumes "confined P gid a b" and "confined P gid b c"
  shows "confined P gid a c"
proof -
  have "list_all2 (renamed gid) (rl_groups a) (rl_groups c)"
    using assms list_all2_trans [of "renamed gid" "renamed gid" "renamed gid" "rl_groups a" "rl_groups b" "rl_groups c"] renamed_trans
    by (auto simp: confined_def)
  moreover have "(u, g) \<in> memberships a \<or> g = gid \<and> P u" if "(u, g) \<in> memberships c" for u g
    using assms that unfolding confined_def by blast
  moreover have "(u, g) \<in> memberships c" if "(u, g) \<in> memberships a" "g \<noteq> gid" for u g
    using assms that unfolding confined_def by blast
  ultimately show ?thesis using assms by (simp add: confined_def)
qed

lemma confined_fold: "(\<And>x rl. x \<in> set xs \<Longrightarrow> confined P gid rl (f x rl)) \<Longrightarrow> confined P gid rl (fold f xs rl)"
  by (induction xs arbitrary: rl) (auto intro: confined_trans)

lemma membership_calls_frame:
  "kc_users (rl_idp (snd (AddUserToGroup env u g rl))) = kc_users (rl_idp rl)" "rl_profiles (snd (AddUserToGroup env u g rl)) = rl_profiles rl"
  "rl_client_roles (snd (AddUserToGroup env u g rl)) = rl_client_roles rl" "rl_assigned (snd (AddUserToGroup env u g rl)) = rl_assigned rl"
  "kc_users (rl_idp (snd (RemoveUserFromGroup env u g rl))) = kc_users (rl_idp rl)" "rl_profiles (snd (RemoveUserFromGroup env u g rl)) = rl_profiles rl"
  "rl_client_roles (snd (RemoveUserFromGroup env u g rl)) = rl_client_roles rl" "rl_assigned (snd (RemoveUserFromGroup env u g rl)) = rl_assigned rl"
  by (simp_all add: AddUserToGroup_def RemoveUserFromGroup_def split: option.split)

lemma confined_add: "P u \<Longrightarrow> confined P gid rl (snd (AddUserToGroup env u gid rl))"
  using AddUserToGroup_members [of env u gid rl] by (auto simp: confined_def memberships_def membership_calls_frame list_all2_same)

lemma confined_remove: "confined P gid rl (snd (RemoveUserFromGroup env u gid rl))"
  using RemoveUserFromGroup_members [of env u gid rl] by (auto simp: confined_def memberships_def membership_calls_frame list_all2_same)

lemma confined_rename: "confined P gid rl (snd (RenameGroup env gid name rl))"
proof -
  have "list_all2 (renamed gid)
      gs (update_where (\<lambda>g. gr_id g = Some gid) (\<lambda>g. g\<lparr>gr_name := n\<rparr>) gs)" for n and gs :: "kc_group list"
    by (induction gs) (auto simp: update_where_def renamed_def)
  then show ?thesis
    by (auto simp: confined_def memberships_def RenameGroup_def list_all2_same split: option.split)
qed

lemma scimUserInOrg_row:
  "scimUserInOrg has_db err rows u org \<Longrightarrow> list_ex (\<lambda>r. or_table r = ''users'' \<and> or_id r = u \<and> or_org r = org) rows"
  by (auto simp: scimUserInOrg_def CheckResourceInOrg_def list_ex_iff dest!: select_one_Ok_D split: if_splits query.splits)

lemma filtered_in_org:
  "u \<in> set (scimFilterUserIDsInOrg has_db err rows org uids) \<Longrightarrow> list_ex (\<lambda>r. or_table r = ''users'' \<and> or_id r = u \<and> or_org r = org) rows"
  by (auto simp: scimFilterUserIDsInOrg_def intro: scimUserInOrg_row)

abbreviation in_org :: "org_row list \<Rightarrow> string \<Rightarrow> string \<Rightarrow> bool" where
  "in_org rows org u \<equiv> list_ex (\<lambda>r. or_table r = ''users'' \<and> or_id r = u \<and> or_org r = org) rows"

lemma in_enumerate_snd: "x \<in> set (enumerate 0 xs) \<Longrightarrow> snd x \<in> set xs"
  by (cases x) (auto simp: enumerate_eq_zip dest: set_zip_rightD)

lemma confined_add_members: "(\<And>u. u \<in> set uids \<Longrightarrow> P u) \<Longrightarrow> confined P gid rl (add_members env gid uids rl)"
  unfolding add_members_def by (intro confined_fold confined_add) (auto dest: in_enumerate_snd)

lemma confined_remove_members: "confined P gid rl (remove_members env gid uids rl)"
  unfolding remove_members_def by (intro confined_fold confined_remove)

lemma confined_group_op: "confined (in_org rows org) gid rl (snd (snd (group_op env rows org gid op name rl)))"
proof -
  have a: "confined (in_org rows org) gid rl (add_members e gid (scimFilterUserIDsInOrg d r rows org us) rl)" for e d r us rl
    by (intro confined_add_members filtered_in_org)
  have "confined (in_org rows org) gid rl (add_members e gid (scimFilterUserIDsInOrg d r rows org us) (remove_members e' gid ex rl))" for e d r us e' ex
    by (rule confined_trans [OF confined_remove_members a])
  then show ?thesis
    using a confined_remove_members by (auto simp: group_op_def Let_def split: prod.split sum.split)
qed

lemma confined_group_ops: "confined (in_org rows org) gid rl (snd (snd (group_ops rows org gid ops name rl)))"
proof (induction ops arbitrary: name rl)
  case (Cons x ops)
  obtain env op where x: "x = (env, op)" by fastforce
  obtain r name' rl' where g: "group_op env rows org gid op name rl = (r, name', rl')" using prod_cases3 by blast
  have c: "confined (in_org rows org) gid rl rl'" using confined_group_op [where rows = rows and org = org and gid = gid and rl = rl and env = env and op = op and name = name] g by simp
  show ?case using Cons.IH [where name = name' and rl = rl'] c by (cases r) (auto simp: x g intro: confined_trans)
qed simp

lemma own_group_owned:
  "scim_own_group full env oc gid rl = Inr (x, g) \<Longrightarrow> oc = Some x \<and> g \<in> set (rl_groups rl) \<and> gr_id g = Some gid \<and> GroupOrgID g = oc_org x"
  by (auto simp: scim_own_group_def dest: GetGroupByID_found split: if_splits option.splits sum.splits)

lemma confined_add_initial: "confined (in_org rows org) gid rl (snd (add_initial env rows org gid ms rl))"
proof (induction ms arbitrary: rl)
  case (Cons x ms)
  obtain k m where x: "x = (k, m)" by (cases x)
  show ?case
  proof (cases "fst m = [] \<or> \<not> scimUserInOrg (gc_has_db env) (gc_db env k) rows (fst m) org")
    case True
    then show ?thesis using Cons.IH [where rl = rl] by (simp add: x)
  next
    case False
    obtain e rl' where a: "AddUserToGroup (gc_add env k) (fst m) gid rl = (e, rl')" by fastforce
    have "in_org rows org (fst m)" using False scimUserInOrg_row by blast
    then have "confined (in_org rows org) gid rl rl'" using confined_add [of "in_org rows org" "fst m" gid rl "gc_add env k"] a by simp
    with Cons.IH [where rl = rl'] False a show ?thesis
      by (cases e) (auto simp: x split: prod.split intro: confined_trans)
  qed
qed simp

lemma add_initial_groups: "rl_groups (snd (add_initial env rows org gid ms rl)) = rl_groups rl"
proof (induction env rows org gid ms rl rule: add_initial.induct)
  case (2 env rows org gid k m ms rl)
  obtain e rl' where a: "AddUserToGroup (gc_add env k) (fst m) gid rl = (e, rl')" by fastforce
  then have g: "rl_groups rl' = rl_groups rl" by (metis AddUserToGroup_groups snd_conv)
  show ?case
  proof (cases "fst m = [] \<or> \<not> scimUserInOrg (gc_has_db env) (gc_db env k) rows (fst m) org")
    case True
    with 2(1) show ?thesis by simp
  next
    case False
    then show ?thesis using 2(2) [OF False a [symmetric]] 2(3) [OF False a [symmetric]] a g by (cases e) (auto simp: split_beta)
  qed
qed simp

lemma SCIMPatchGroup_cases:
  assumes "SCIMPatchGroup env oc gid body rows rl = (resp, rl')"
  obtains (refused) "rl' = rl" "scim_status resp \<noteq> 200"
  | (owned) x g where "oc = Some x" "g \<in> set (rl_groups rl)" "gr_id g = Some gid" "GroupOrgID g = oc_org x" "confined (in_org rows (oc_org x)) gid rl rl'"
proof (cases "\<exists>ops x g. body = Some ops \<and> ValidateOpaqueID gid ''id'' = None
    \<and> (scim_own_group True (gp_get env) oc gid rl :: scim_group scim_response + _) = Inr (x, g)")
  case False
  have "scim_own_group True (gp_get env) oc gid rl = Inl r \<Longrightarrow> scim_status r \<noteq> 200" for r :: "scim_group scim_response"
    by (auto simp: scim_own_group_def split: if_splits option.splits sum.splits)
  with False assms refused show ?thesis
    by (auto simp: SCIMPatchGroup_def split: if_splits option.splits sum.splits)
next
  case True
  then obtain ops x g where b: "body = Some ops" "ValidateOpaqueID gid ''id'' = None"
    and o: "(scim_own_group True (gp_get env) oc gid rl :: scim_group scim_response + _) = Inr (x, g)" by blast
  let ?P = "in_org rows (oc_org x)"
  obtain r name rl1 where ops: "group_ops rows (oc_org x) gid ops (the (gr_name g)) rl = (r, name, rl1)" using prod_cases3 by blast
  have c1: "confined ?P gid rl rl1"
    using confined_group_ops [where rows = rows and org = "oc_org x" and gid = gid and rl = rl and ops = ops and name = "the (gr_name g)"] ops by simp
  obtain e rl2 where ren: "(if name \<noteq> the (gr_name g) \<and> name \<noteq> [] then RenameGroup (gp_rename env) gid name rl1 else (None, rl1)) = (e, rl2)" by fastforce
  have c2: "confined ?P gid rl1 rl2"
    using confined_rename [of ?P gid rl1 "gp_rename env" name] ren by (auto split: if_splits)
  have "rl' = rl1 \<or> rl' = rl2"
    using assms b o ops ren by (auto simp: SCIMPatchGroup_def Let_def split: option.splits sum.splits if_splits)
  with c1 c2 confined_trans have "confined ?P gid rl rl'" by blast
  with owned own_group_owned [OF o] show ?thesis by blast
qed

text \<open>C22. SCIM group requests stay inside the caller's organisation.  A PATCH changes a realm at most by memberships
  and the name of the one group it addresses, only when that group carries the organisation of the
  caller, and everyone who newly joins has a user row in that organisation; other groups, the attributes of the group itself, the
  members of other groups, accounts, profiles and roles are untouched, whatever operations, paths and values the body has and whichever calls fail.
  Otherwise nothing changes.\<close>

theorem scim_group_patch_confined:
  assumes "SCIMPatchGroup env oc gid body rows rl = (resp, rl')"
  shows "rl' = rl \<or> (\<exists>x g. oc = Some x \<and> g \<in> set (rl_groups rl) \<and> gr_id g = Some gid \<and> GroupOrgID g = oc_org x
     \<and> confined (\<lambda>u. list_ex (\<lambda>r. or_table r = ''users'' \<and> or_id r = u \<and> or_org r = oc_org x) rows) gid rl rl')"
  using assms by (cases rule: SCIMPatchGroup_cases) auto

definition sample_group_env :: group_env where
  "sample_group_env = \<lparr>ge_login = None, ge_call = None, ge_missing = ''404 Not Found'', ge_found = [], ge_new_id = ''g1''\<rparr>"

definition two_groups :: realm where
  "two_groups = sample_realm\<lparr>rl_idp := \<lparr>kc_users = [(''u1'', True), (''u2'', True)], kc_members = [(''u2'', ''g2'')]\<rparr>,
     rl_groups := [\<lparr>gr_id = Some ''g1'', gr_name = Some ''dev'', gr_attrs = Some [(GroupOrgAttribute, [''o1''])]\<rparr>,
                   \<lparr>gr_id = Some ''g2'', gr_name = Some ''ops'', gr_attrs = Some [(GroupOrgAttribute, [''o2''])]\<rparr>]\<rparr>"

definition sample_group_op :: group_op_env where
  "sample_group_op = \<lparr>go_has_db = True, go_db = (\<lambda>_. None), go_call = (\<lambda>_. sample_group_env), go_list = sample_group_env, go_remove = (\<lambda>_. sample_group_env)\<rparr>"

definition join_and_rename :: "(group_op_env \<times> scim_op) list" where
  "join_and_rename =
     [(sample_group_op, \<lparr>op_name = ''add'', op_path = ''members'', op_value = JArr [JObj [(''value'', JStr ''u1'')], JObj [(''value'', JStr ''u2'')]]\<rparr>),
      (sample_group_op, \<lparr>op_name = ''replace'', op_path = ''displayName'', op_value = JStr ''devs''\<rparr>)]"

definition patched :: "scim_group scim_response \<times> realm" where
  "patched = SCIMPatchGroup \<lparr>gp_get = sample_group_env, gp_rename = sample_group_env, gp_members = sample_group_env, gp_email = (\<lambda>_. [])\<rparr>
     (Some \<lparr>oc_org = ''o1'', oc_role = ''admin''\<rparr>) ''g1'' (Some join_and_rename)
     [\<lparr>or_table = ''users'', or_id = ''u1'', or_org = ''o1''\<rparr>, \<lparr>or_table = ''users'', or_id = ''u2'', or_org = ''o2''\<rparr>] two_groups"

theorem scim_group_patch_confined_witness:
  "scim_status (fst patched) = 200 \<and> kc_members (rl_idp (snd patched)) = [(''u2'', ''g2''), (''u1'', ''g1'')]
   \<and> map gr_name (rl_groups (snd patched)) = [Some ''devs'', Some ''ops'']
   \<and> confined (\<lambda>u. u = ''u1'') ''g1'' two_groups (snd patched)"
proof -
  have run: "scim_status (fst patched) = 200 \<and> kc_members (rl_idp (snd patched)) = [(''u2'', ''g2''), (''u1'', ''g1'')]
      \<and> map gr_name (rl_groups (snd patched)) = [Some ''devs'', Some ''ops'']"
    by code_simp
  then have "snd patched \<noteq> two_groups" by (auto simp: two_groups_def)
  with scim_group_patch_confined [OF prod.collapse [of patched, unfolded patched_def, symmetric]]
  show ?thesis using run by (auto simp: patched_def [symmetric] confined_def)
qed

text \<open>A new group belongs to the caller's organisation, and so do its initial members.\<close>

lemma scim_create_group_confined:
  assumes "SCIMCreateGroup env (Some x) body rows rl = (scimRespond st tag g, rl')"
  shows "st = 201 \<and> (\<exists>n. \<lparr>gr_id = Some (sg_id g), gr_name = Some n, gr_attrs = Some [(GroupOrgAttribute, [oc_org x])]\<rparr> \<in> set (rl_groups rl'))
    \<and> (\<forall>u h. (u, h) \<in> memberships rl' \<longrightarrow> (u, h) \<in> memberships rl \<or> h = sg_id g \<and> in_org rows (oc_org x) u)"
proof -
  obtain req where req: "body = Some req" "trim_space (sg_name req) \<noteq> []"
    and c: "ge_login (gc_create env) = None" "ge_call (gc_create env) = None"
    using assms by (auto simp: SCIMCreateGroup_def CreateGroupWithOrgID_def Let_def split: option.splits if_splits)
  let ?gid = "ge_new_id (gc_create env)" and ?grp = "\<lparr>gr_id = Some (ge_new_id (gc_create env)), gr_name = Some (trim_space (sg_name req)), gr_attrs = Some [(GroupOrgAttribute, [oc_org x])]\<rparr>"
  let ?rl = "rl\<lparr>rl_groups := rl_groups rl @ [?grp]\<rparr>"
  obtain added rl2 where a: "add_initial env rows (oc_org x) ?gid (enumerate 0 (sg_members req)) ?rl = (added, rl2)" by fastforce
  have res: "st = 201" "g = scimGroupFromKC ?gid (trim_space (sg_name req)) added" "rl' = rl2"
    using assms req c a by (auto simp: SCIMCreateGroup_def CreateGroupWithOrgID_def)
  have cf: "confined (in_org rows (oc_org x)) ?gid ?rl rl2"
    using confined_add_initial [where rows = rows and org = "oc_org x" and gid = ?gid and rl = ?rl and env = env and ms = "enumerate 0 (sg_members req)"] a by simp
  have "rl_groups rl2 = rl_groups ?rl" by (metis a add_initial_groups snd_conv)
  with cf res show ?thesis by (auto simp: confined_def memberships_def scimGroupFromKC_def)
qed

text \<open>A list never contains a group of another organisation, whatever the server's search returned.\<close>

lemma scim_list_groups_own:
  assumes "SCIMListGroups env (Some x) a b raw = scimRespond st tag l" "g \<in> set (sl_resources l)"
  shows "\<exists>k \<in> set (ge_found env). gr_id k = Some (sg_id g) \<and> GroupOrgID k = oc_org x"
proof -
  obtain name gs start n where l: "ListGroupsByOrg env (oc_org x) = Inr gs" and r: "sl_resources l = take (nat n) (drop (nat (start - 1)) (listed_groups name gs))"
    using assms(1) by (auto simp: SCIMListGroups_def Let_def split: prod.splits sum.splits)
  from assms(2) r have "g \<in> set (listed_groups name gs)" by (metis in_set_dropD in_set_takeD)
  then obtain k where k: "k \<in> set gs" "gr_id k = Some (sg_id g)" by (auto simp: listed_groups_def scimGroupFromKC_def)
  have "k \<in> set (ge_found env)" using l k(1) by (auto simp: ListGroupsByOrg_def split: option.splits)
  with k ListGroupsByOrg_own [OF l k(1)] show ?thesis by blast
qed

end
