(* ===== verification/User_Admin.thy ===== *)
theory User_Admin
  imports Scim_Users "HOL-Library.Multiset"
begin

text \<open>
  The administration of users and groups: \<open>handlers/users.go\<close> (list and get, with the devices collected from a
  join), \<open>handlers/user_actions.go\<close> (profile update and password reset) and \<open>handlers/groups.go\<close>.  The
  state is that of \<open>Scim_Users\<close>; the devices are a table of their own.  How the database collates host
  names is a parameter.
\<close>

section \<open>Listing users\<close>

record device_info =
  di_id :: string
  di_hostname :: string
  di_os :: string
  di_seen :: string
  di_created :: string

record user_view =
  uv_user :: life_user
  uv_created :: string
  uv_updated :: string
  uv_devices :: "device_info list"
  uv_federation :: "string option"

definition user_page :: "string \<Rightarrow> int \<Rightarrow> int \<Rightarrow> scim_state \<Rightarrow> life_user list" where
  "user_page org limit offset s =
     take (nat limit) (drop (nat offset) (sort_key (\<lambda>u. - fst (sc_times s (lu_id u))) (filter (\<lambda>u. lu_org u = org) (l_users (sc_db s)))))"

text \<open>The two left joins: one row per mapped device, one without a device when there is none.\<close>

definition user_joins :: "(string \<times> string) list \<Rightarrow> device_info list \<Rightarrow> life_user \<Rightarrow> (life_user \<times> device_info option) list" where
  "user_joins mapping devs u =
     (let ms = filter (\<lambda>m. fst m = lu_id u) mapping in
      if ms = [] then [(u, None)] else map (\<lambda>m. (u, find (\<lambda>d. di_id d = snd m) devs)) ms)"

definition join_rows :: "(device_info option \<Rightarrow> string) \<Rightarrow> device_info list \<Rightarrow> scim_state \<Rightarrow> life_user list \<Rightarrow> (life_user \<times> device_info option) list" where
  "join_rows collation devs s page =
     sort_key (\<lambda>r. - fst (sc_times s (lu_id (fst r)))) (sort_key (\<lambda>r. collation (snd r))
       (concat (map (user_joins (l_mapping (sc_db s)) devs) page)))"

definition row_devices :: "device_info option \<Rightarrow> device_info list" where
  "row_devices d = (case d of None \<Rightarrow> [] | Some x \<Rightarrow> if di_id x = [] then [] else [x])"

definition view_id :: "user_view \<Rightarrow> string" where
  "view_id v = lu_id (uv_user v)"

definition new_view :: "scim_state \<Rightarrow> life_user \<Rightarrow> device_info list \<Rightarrow> user_view" where
  "new_view s u ds = \<lparr>uv_user = u, uv_created = rfc3339 (fst (sc_times s (lu_id u))), uv_updated = rfc3339 (snd (sc_times s (lu_id u))),
     uv_devices = ds, uv_federation = None\<rparr>"

text \<open>One row of the loop: the first row of a user opens the entry, every row adds its device.\<close>

definition collapse_row :: "scim_state \<Rightarrow> life_user \<times> device_info option \<Rightarrow> user_view list \<Rightarrow> user_view list" where
  "collapse_row s r acc =
     (if list_ex (\<lambda>v. view_id v = lu_id (fst r)) acc
      then map (\<lambda>v. if view_id v = lu_id (fst r) then v\<lparr>uv_devices := uv_devices v @ row_devices (snd r)\<rparr> else v) acc
      else acc @ [new_view s (fst r) (row_devices (snd r))])"

definition collapse :: "scim_state \<Rightarrow> (life_user \<times> device_info option) list \<Rightarrow> user_view list" where
  "collapse s rows = fold (collapse_row s) rows []"

record users_env =
  ue_has_db :: bool
  ue_oc :: "org_context option"
  ue_query_err :: "string option"
  ue_scan_fails :: "nat \<Rightarrow> bool"
  ue_rows_err :: "string option"
  ue_collation :: "device_info option \<Rightarrow> string"

definition ListUsers :: "users_env \<Rightarrow> string \<Rightarrow> string \<Rightarrow> device_info list \<Rightarrow> scim_state \<Rightarrow> user_view list response" where
  "ListUsers env limit_q offset_q devs s =
     (if \<not> ue_has_db env then RespondJSON 200 []
      else case ue_oc env of None \<Rightarrow> RespondError 403 ''forbidden: no organization context'' | Some oc \<Rightarrow>
      (let (limit, offset) = listPageParams limit_q offset_q maxListLimit in
       if ue_query_err env \<noteq> None \<or> ue_rows_err env \<noteq> None then RespondError 500 ''internal error''
       else RespondJSON 200 (collapse s (map snd (filter (\<lambda>x. \<not> ue_scan_fails env (fst x))
              (enumerate 0 (join_rows (ue_collation env) devs s (user_page (oc_org oc) limit offset s))))))))"

text \<open>The devices of one user, the inner join of \<open>GetUser\<close>.\<close>

definition devices_of :: "device_info list \<Rightarrow> scim_state \<Rightarrow> string \<Rightarrow> device_info list" where
  "devices_of devs s userID =
     concat (map (\<lambda>m. case find (\<lambda>d. di_id d = snd m) devs of None \<Rightarrow> [] | Some d \<Rightarrow> [d]) (filter (\<lambda>m. fst m = userID) (l_mapping (sc_db s))))"

record user_env =
  us_has_db :: bool
  us_oc :: "org_context option"
  us_load_err :: "string option"
  us_devices_err :: "string option"
  us_scan_fails :: "nat \<Rightarrow> bool"
  us_federation :: "string + string option"

definition federated :: "string + string option \<Rightarrow> string option" where
  "federated answer = (case answer of Inr (Some l) \<Rightarrow> if l = [] then None else Some l | _ \<Rightarrow> None)"

definition GetUser :: "user_env \<Rightarrow> string \<Rightarrow> device_info list \<Rightarrow> scim_state \<Rightarrow> user_view response" where
  "GetUser env userID devs s =
     (case ValidateUserID userID of Some e \<Rightarrow> RespondError 400 (id_error_text ''user id'' e) | None \<Rightarrow>
      if \<not> us_has_db env then RespondError 404 ''user not found''
      else case us_oc env of None \<Rightarrow> RespondError 403 ''forbidden: no organization context'' | Some oc \<Rightarrow>
      (case scim_load (us_load_err env) userID oc s of
         No_rows \<Rightarrow> RespondError 404 ''user not found''
       | Db_error _ \<Rightarrow> RespondError 500 ''internal error''
       | Ok u \<Rightarrow> RespondJSON 200
           ((new_view s u (if us_devices_err env \<noteq> None then []
                           else map snd (filter (\<lambda>x. \<not> us_scan_fails env (fst x)) (enumerate 0 (devices_of devs s userID)))))
             \<lparr>uv_federation := federated (us_federation env)\<rparr>)))"

section \<open>Profile updates\<close>

record patch_user_request =
  pr_first :: "string option"
  pr_last :: "string option"
  pr_department :: "string option"
  pr_role :: "string option"
  pr_enabled :: "bool option"

definition trim_request :: "patch_user_request \<Rightarrow> patch_user_request" where
  "trim_request r = r\<lparr>pr_first := map_option trim_space (pr_first r), pr_last := map_option trim_space (pr_last r),
     pr_department := map_option trim_space (pr_department r), pr_role := map_option trim_space (pr_role r)\<rparr>"

definition name_error :: "string \<Rightarrow> string option \<Rightarrow> (string \<times> string) list" where
  "name_error field v =
     (case v of None \<Rightarrow> []
      | Some n \<Rightarrow> if n = [] then [(field, field @ '' must not be empty'')]
                 else if length n > 100 then [(field, max_chars field ''100'')] else [])"

definition text_error :: "string \<Rightarrow> string option \<Rightarrow> (string \<times> string) list" where
  "text_error field v = (case v of None \<Rightarrow> [] | Some n \<Rightarrow> if length n > 100 then [(field, max_chars field ''100'')] else [])"

definition patch_user_errors :: "patch_user_request \<Rightarrow> (string \<times> string) list" where
  "patch_user_errors r = name_error ''firstName'' (pr_first r) @ name_error ''lastName'' (pr_last r)
     @ text_error ''department'' (pr_department r) @ text_error ''role'' (pr_role r)"

definition opt :: "'a option \<Rightarrow> 'a \<Rightarrow> 'a" where
  "opt v d = (case v of None \<Rightarrow> d | Some x \<Rightarrow> x)"

text \<open>The merge of the request onto the current row.\<close>

definition merge_user :: "patch_user_request \<Rightarrow> life_user \<Rightarrow> life_user" where
  "merge_user r u = u\<lparr>lu_first := opt (pr_first r) (lu_first u), lu_last := opt (pr_last r) (lu_last u),
     lu_department := opt (pr_department r) (lu_department u), lu_role := opt (pr_role r) (lu_role u),
     lu_disabled := (\<not> opt (pr_enabled r) (\<not> lu_disabled u))\<rparr>"

record patch_user_env =
  pn_has_db :: bool
  pn_oc :: "org_context option"
  pn_actor :: string
  pn_gate_err :: "string option"
  pn_federation :: "string + string option"
  pn_load_err :: "string option"
  pn_kc :: kc_env
  pn_db_err :: "string option"
  pn_kc_restore :: kc_env
  pn_audit :: write_env
  pn_now :: time

definition push_profile :: "kc_env \<Rightarrow> life_user \<Rightarrow> scim_state \<Rightarrow> string option \<times> scim_state" where
  "push_profile env u s =
     (case UpdateUser env (lu_id u) (lu_first u) (lu_last u) (lu_department u) (\<not> lu_disabled u) (sc_realm s) of (r, rl) \<Rightarrow> (r, s\<lparr>sc_realm := rl\<rparr>))"

definition user_audit :: "(string \<Rightarrow> string) \<Rightarrow> write_env \<Rightarrow> org_context option \<Rightarrow> string \<Rightarrow> string \<Rightarrow> string \<Rightarrow> (string \<times> jval) list
   \<Rightarrow> scim_state \<Rightarrow> scim_state" where
  "user_audit jt env oc actor action userID details s =
     s\<lparr>sc_db := (sc_db s)\<lparr>l_audit := log_best_effort jt env oc
        \<lparr>ac_actor = actor, ac_action = action, ac_target_type = ''user'', ac_target_id = userID, ac_details = Some (JObj details)\<rparr> (l_audit (sc_db s))\<rparr>\<rparr>"

text \<open>The write of the row.\<close>

definition overwrite :: "life_user \<Rightarrow> life_user \<Rightarrow> life_user" where
  "overwrite n u = u\<lparr>lu_first := lu_first n, lu_last := lu_last n, lu_department := lu_department n, lu_role := lu_role n, lu_disabled := lu_disabled n\<rparr>"

definition store_user :: "life_user \<Rightarrow> time \<Rightarrow> scim_state \<Rightarrow> scim_state" where
  "store_user n now s =
     s\<lparr>sc_db := (sc_db s)\<lparr>l_users := update_where (\<lambda>u. lu_id u = lu_id n) (overwrite n) (l_users (sc_db s))\<rparr>,
       sc_times := (sc_times s)(lu_id n := (fst (sc_times s (lu_id n)), now))\<rparr>"

text \<open>The answer carries no address: the field is never filled in.\<close>

definition PatchUser :: "(string \<Rightarrow> string) \<Rightarrow> patch_user_env \<Rightarrow> string \<Rightarrow> patch_user_request option \<Rightarrow> scim_state
   \<Rightarrow> user_view response \<times> scim_state" where
  "PatchUser jt env userID body s =
     (case ValidateUserID userID of Some e \<Rightarrow> (RespondError 400 (id_error_text ''user id'' e), s) | None \<Rightarrow>
      case body of None \<Rightarrow> (RespondError 400 ''invalid request body'', s) | Some raw \<Rightarrow>
      (let r = trim_request raw in
       if pr_first r = None \<and> pr_last r = None \<and> pr_department r = None \<and> pr_role r = None \<and> pr_enabled r = None
       then (RespondError 400 ''at least one field must be provided'', s)
       else if patch_user_errors r \<noteq> [] then (RespondValidationErrors (patch_user_errors r), s)
       else if \<not> pn_has_db env then (RespondError 500 ''database not available'', s)
       else case requireUserInCallerOrg True (pn_gate_err env) (org_rows_of (sc_db s)) (pn_oc env) userID of Some resp \<Rightarrow> (resp, s) | None \<Rightarrow>
       if (pr_first r \<noteq> None \<or> pr_last r \<noteq> None) \<and> federated (pn_federation env) \<noteq> None
       then (RespondError 409 ''cannot change name of a federated user; update the record in your directory instead'', s)
       else case select_one (pn_load_err env) (\<lambda>u. lu_id u = userID) (l_users (sc_db s)) of
         No_rows \<Rightarrow> (RespondError 404 ''user not found'', s)
       | Db_error _ \<Rightarrow> (RespondError 500 ''internal error'', s)
       | Ok cur \<Rightarrow>
           (let new = merge_user r cur in
            case push_profile (pn_kc env) new s of
              (Some _, s) \<Rightarrow> (RespondError 500 ''failed to update user in identity provider'', s)
            | (None, s) \<Rightarrow>
                if pn_db_err env \<noteq> None
                then (RespondError 500 ''failed to update user'', snd (push_profile (pn_kc_restore env) cur s))
                else (RespondJSON 200 ((new_view s (new\<lparr>lu_email := []\<rparr>) [])\<lparr>uv_updated := rfc3339 (pn_now env)\<rparr>),
                  user_audit jt (pn_audit env) (pn_oc env) (pn_actor env) ''user_update'' userID
                    [(''first_name'', JStr (lu_first new)), (''last_name'', JStr (lu_last new)), (''department'', JStr (lu_department new)),
                     (''role'', JStr (lu_role new)), (''enabled'', JBool (\<not> lu_disabled new))]
                    (store_user new (pn_now env) s)))))"

definition ResetPassword :: "(string \<Rightarrow> string) \<Rightarrow> patch_user_env \<Rightarrow> string \<Rightarrow> scim_state \<Rightarrow> bool response \<times> bool \<times> scim_state" where
  "ResetPassword jt env userID s =
     (case ValidateUserID userID of Some e \<Rightarrow> (RespondError 400 (id_error_text ''user id'' e), False, s) | None \<Rightarrow>
      case (if pn_has_db env then requireUserInCallerOrg True (pn_gate_err env) (org_rows_of (sc_db s)) (pn_oc env) userID else None) of
        Some resp \<Rightarrow> (resp, False, s)
      | None \<Rightarrow>
          if federated (pn_federation env) \<noteq> None
          then (RespondError 409 ''cannot reset password of a federated user; reset the password in your directory instead'', False, s)
          else case SendPasswordReset (pn_kc env) userID of
            Some _ \<Rightarrow> (RespondError 500 ''failed to send password reset email'', False, s)
          | None \<Rightarrow> (RespondJSON 200 True, True,
              if pn_has_db env then user_audit jt (pn_audit env) (pn_oc env) (pn_actor env) ''user_password_reset'' userID [(''triggered_by'', JStr (pn_actor env))] s
              else s))"

section \<open>Groups\<close>

record groups_env =
  gn_kc :: group_env
  gn_claims :: "jwt_claims option"
  gn_oc :: "org_context option"
  gn_actor :: string
  gn_has_db :: bool
  gn_gate_err :: "string option"
  gn_audit :: write_env

definition visible_group :: "jwt_claims option \<Rightarrow> org_context option \<Rightarrow> kc_group \<Rightarrow> bool" where
  "visible_group claims oc g \<longleftrightarrow>
     (let isAdmin = isSystemAdminCaller claims;
          callerOrgID = (if isAdmin then [] else case oc of Some x \<Rightarrow> oc_org x | None \<Rightarrow> [])
      in gr_id g \<noteq> None \<and> gr_name g \<noteq> None \<and> \<not> (\<not> isAdmin \<and> (callerOrgID = [] \<or> GroupOrgID g \<noteq> callerOrgID)))"

definition handle_ListGroups :: "groups_env \<Rightarrow> realm \<Rightarrow> (string \<times> string) list response" where
  "handle_ListGroups env rl =
     (case ListGroups (gn_kc env) rl of
        Inl _ \<Rightarrow> RespondError 500 ''failed to list groups''
      | Inr gs \<Rightarrow> RespondJSON 200 (map (\<lambda>g. (the (gr_id g), the (gr_name g))) (filter (visible_group (gn_claims env) (gn_oc env)) gs)))"

definition group_audit :: "(string \<Rightarrow> string) \<Rightarrow> groups_env \<Rightarrow> string \<Rightarrow> string \<Rightarrow> string \<Rightarrow> (string \<times> jval) list \<Rightarrow> scim_state \<Rightarrow> scim_state" where
  "group_audit jt env action kind target details s =
     (if \<not> gn_has_db env then s
      else s\<lparr>sc_db := (sc_db s)\<lparr>l_audit := log_best_effort jt (gn_audit env) (gn_oc env)
        \<lparr>ac_actor = gn_actor env, ac_action = action, ac_target_type = kind, ac_target_id = target, ac_details = Some (JObj details)\<rparr>
        (l_audit (sc_db s))\<rparr>\<rparr>)"

definition CreateGroup :: "(string \<Rightarrow> string) \<Rightarrow> groups_env \<Rightarrow> string option \<Rightarrow> scim_state \<Rightarrow> (string \<times> string) response \<times> scim_state" where
  "CreateGroup jt env body s =
     (case body of None \<Rightarrow> (RespondError 400 ''invalid request body'', s) | Some raw \<Rightarrow>
      (let name = trim_space raw in
       if name = [] then (RespondError 400 ''name is required'', s)
       else if length name > 100 then (RespondError 400 (max_chars ''name'' ''100''), s)
       else case gn_oc env of None \<Rightarrow> (RespondError 403 ''forbidden: no organization context'', s) | Some oc \<Rightarrow>
       (case CreateGroupWithOrgID (gn_kc env) name (oc_org oc) (sc_realm s) of
          (Inl _, rl) \<Rightarrow> (RespondError 500 ''failed to create group'', s\<lparr>sc_realm := rl\<rparr>)
        | (Inr groupID, rl) \<Rightarrow> (RespondJSON 201 (groupID, name),
            group_audit jt env ''group_create'' ''group'' groupID [(''name'', JStr name)] (s\<lparr>sc_realm := rl\<rparr>)))))"

text \<open>\<open>triggerGroupSyncForUser\<close>, in a goroutine of its own: the groups of the user go to every application the
  user is provisioned in.\<close>

record sync_env =
  sy_engine :: "engine option"
  sy_groups :: "string + string option list"
  sy_query_err :: "string option"
  sy_scans :: "string \<Rightarrow> bool"
  sy_prov :: "string \<Rightarrow> prov_env"

fun sync_apps :: "engine \<Rightarrow> (string \<Rightarrow> prov_env) \<Rightarrow> string \<Rightarrow> string list \<Rightarrow> string list \<Rightarrow> prov_db \<Rightarrow> prov_db \<times> remote_call list" where
  "sync_apps e env userID names [] pdb = (pdb, [])"
| "sync_apps e env userID names (app # apps) pdb =
     (case SyncGroupMembership e (env app) app userID names pdb of (_, pdb, calls) \<Rightarrow>
      case sync_apps e env userID names apps pdb of (pdb, rest) \<Rightarrow> (pdb, calls @ rest))"

definition triggerGroupSyncForUser :: "sync_env \<Rightarrow> bool \<Rightarrow> string \<Rightarrow> life_db \<Rightarrow> life_db \<times> remote_call list" where
  "triggerGroupSyncForUser env has_db userID db =
     (case sy_engine env of None \<Rightarrow> (db, []) | Some e \<Rightarrow>
      case sy_groups env of Inl _ \<Rightarrow> (db, []) | Inr gs \<Rightarrow>
      if \<not> has_db \<or> sy_query_err env \<noteq> None then (db, [])
      else (let names = map the (filter (\<lambda>g. g \<noteq> None) gs);
                apps = filter (sy_scans env) (map ps_app (filter (\<lambda>r. ps_user r = userID \<and> ps_status r = StatusProvisioned) (l_prov db)));
                (pdb, calls) = sync_apps e (sy_prov env) userID names apps (prov_view db)
            in (db\<lparr>l_prov := prov_rows pdb\<rparr>, calls)))"

definition sync_after :: "sync_env \<Rightarrow> groups_env \<Rightarrow> string \<Rightarrow> scim_state \<Rightarrow> scim_state \<times> remote_call list" where
  "sync_after sync env userID s =
     (case triggerGroupSyncForUser sync (gn_has_db env) userID (sc_db s) of (db, calls) \<Rightarrow> (s\<lparr>sc_db := db\<rparr>, calls))"

definition AssignUserToGroup :: "(string \<Rightarrow> string) \<Rightarrow> sync_env \<Rightarrow> groups_env \<Rightarrow> string \<Rightarrow> string option \<Rightarrow> scim_state
   \<Rightarrow> bool response \<times> scim_state \<times> remote_call list" where
  "AssignUserToGroup jt sync env userID body s =
     (case ValidateUserID userID of Some e \<Rightarrow> (RespondError 400 (id_error_text ''user id'' e), s, []) | None \<Rightarrow>
      case requireUserInCallerOrg (gn_has_db env) (gn_gate_err env) (org_rows_of (sc_db s)) (gn_oc env) userID of Some r \<Rightarrow> (r, s, []) | None \<Rightarrow>
      case body of None \<Rightarrow> (RespondError 400 ''invalid request body'', s, []) | Some raw \<Rightarrow>
      (let groupID = trim_space raw in
       case ValidateOpaqueID groupID ''groupId'' of Some (f, e) \<Rightarrow> (RespondError 400 (id_error_text f e), s, []) | None \<Rightarrow>
       case AddUserToGroup (gn_kc env) userID groupID (sc_realm s) of
         (Some _, rl) \<Rightarrow> (RespondError 500 ''failed to assign user to group'', s\<lparr>sc_realm := rl\<rparr>, [])
       | (None, rl) \<Rightarrow> (RespondJSON 200 True,
           sync_after sync env userID (group_audit jt env ''user_group_assign'' ''user'' userID [(''group_id'', JStr groupID)] (s\<lparr>sc_realm := rl\<rparr>)))))"

definition UnassignUserFromGroup :: "(string \<Rightarrow> string) \<Rightarrow> sync_env \<Rightarrow> groups_env \<Rightarrow> string \<Rightarrow> string \<Rightarrow> scim_state
   \<Rightarrow> bool response \<times> scim_state \<times> remote_call list" where
  "UnassignUserFromGroup jt sync env userID groupID s =
     (case ValidateUserID userID of Some e \<Rightarrow> (RespondError 400 (id_error_text ''user id'' e), s, []) | None \<Rightarrow>
      case ValidateOpaqueID groupID ''groupId'' of Some (f, e) \<Rightarrow> (RespondError 400 (id_error_text f e), s, []) | None \<Rightarrow>
      case requireUserInCallerOrg (gn_has_db env) (gn_gate_err env) (org_rows_of (sc_db s)) (gn_oc env) userID of Some r \<Rightarrow> (r, s, []) | None \<Rightarrow>
      case RemoveUserFromGroup (gn_kc env) userID groupID (sc_realm s) of
        (Some _, rl) \<Rightarrow> (RespondError 500 ''failed to remove user from group'', s\<lparr>sc_realm := rl\<rparr>, [])
      | (None, rl) \<Rightarrow> (RespondJSON 200 True,
          sync_after sync env userID (group_audit jt env ''user_group_unassign'' ''user'' userID [(''group_id'', JStr groupID)] (s\<lparr>sc_realm := rl\<rparr>))))"

text \<open>\<open>ListRealmRoles\<close>: the roles are for system administrators; everyone else gets an empty list.\<close>

definition ListRealmRoles :: "jwt_claims option \<Rightarrow> string + (string option \<times> string option) list \<Rightarrow> (string \<times> string) list response" where
  "ListRealmRoles claims answer =
     (case answer of Inl _ \<Rightarrow> RespondError 500 ''failed to list realm roles''
      | Inr roles \<Rightarrow> RespondJSON 200 (if isSystemAdminCaller claims
          then map (\<lambda>r. (the (fst r), the (snd r))) (filter (\<lambda>r. fst r \<noteq> None \<and> snd r \<noteq> None) roles) else []))"

definition AssignRealmRoleToUser :: "(string \<Rightarrow> string) \<Rightarrow> groups_env \<Rightarrow> string \<Rightarrow> (string \<times> string) option \<Rightarrow> scim_state
   \<Rightarrow> bool response \<times> (string \<times> string \<times> string) option \<times> scim_state" where
  "AssignRealmRoleToUser jt env userID body s =
     (case ValidateUserID userID of Some e \<Rightarrow> (RespondError 400 (id_error_text ''user id'' e), None, s) | None \<Rightarrow>
      case body of None \<Rightarrow> (RespondError 400 ''invalid request body'', None, s) | Some raw \<Rightarrow>
      (let roleID = trim_space (fst raw); roleName = trim_space (snd raw) in
       case ValidateOpaqueID roleID ''roleId'' of Some (f, e) \<Rightarrow> (RespondError 400 (id_error_text f e), None, s) | None \<Rightarrow>
       case ValidateOpaqueID roleName ''roleName'' of Some (f, e) \<Rightarrow> (RespondError 400 (id_error_text f e), None, s) | None \<Rightarrow>
       case requireUserInCallerOrg (gn_has_db env) (gn_gate_err env) (org_rows_of (sc_db s)) (gn_oc env) userID of Some r \<Rightarrow> (r, None, s) | None \<Rightarrow>
       if ge_login (gn_kc env) \<noteq> None \<or> ge_call (gn_kc env) \<noteq> None then (RespondError 500 ''failed to assign role to user'', None, s)
       else (RespondJSON 200 True, Some (userID, roleID, roleName),
         group_audit jt env ''user_role_assign'' ''user'' userID [(''role_id'', JStr roleID), (''role_name'', JStr roleName)] s)))"

section \<open>The list is the per-user answer\<close>

lemma view_id_simps [simp]: "view_id (new_view s u ds) = lu_id u" "view_id (v\<lparr>uv_devices := ds\<rparr>) = view_id v"
  "uv_devices (new_view s u ds) = ds" "uv_user (new_view s u ds) = u"
  by (simp_all add: view_id_def new_view_def)

text \<open>What the loop has built after some rows.\<close>

definition collapsed :: "(life_user \<times> device_info option) list \<Rightarrow> user_view list \<Rightarrow> bool" where
  "collapsed rows vs \<longleftrightarrow>
     distinct (map view_id vs) \<and> set (map view_id vs) = (\<lambda>r. lu_id (fst r)) ` set rows
   \<and> (\<forall>v \<in> set vs. uv_devices v = concat (map (\<lambda>r. row_devices (snd r)) (filter (\<lambda>r. lu_id (fst r) = view_id v) rows)))"

lemma collapsed_row:
  assumes "collapsed rows vs"
  shows "collapsed (rows @ [r]) (collapse_row s r vs)"
proof (cases "lu_id (fst r) \<in> view_id ` set vs")
  case True
  let ?f = "\<lambda>v. if view_id v = lu_id (fst r) then v\<lparr>uv_devices := uv_devices v @ row_devices (snd r)\<rparr> else v"
  have e: "collapse_row s r vs = map ?f vs" using True by (auto simp: collapse_row_def list_ex_iff)
  have i: "view_id \<circ> ?f = view_id" by (auto simp: fun_eq_iff)
  have m: "map view_id (map ?f vs) = map view_id vs" by (simp add: i)
  have d: "uv_devices (?f v) = concat (map (\<lambda>r. row_devices (snd r)) (filter (\<lambda>x. lu_id (fst x) = view_id (?f v)) (rows @ [r])))" if "v \<in> set vs" for v
    using assms that by (auto simp: collapsed_def)
  have s: "set (map view_id vs) = (\<lambda>r. lu_id (fst r)) ` set (rows @ [r])" using assms True by (auto simp: collapsed_def)
  have "distinct (map view_id vs)" using assms by (simp add: collapsed_def)
  moreover have "\<forall>v \<in> set (map ?f vs). uv_devices v = concat (map (\<lambda>r. row_devices (snd r)) (filter (\<lambda>x. lu_id (fst x) = view_id v) (rows @ [r])))"
    using d unfolding set_map by blast
  ultimately show ?thesis unfolding collapsed_def e m using s by blast
next
  case False
  have ne: "view_id v \<noteq> lu_id (fst r)" if "v \<in> set vs" for v using False that by (metis imageI)
  have e: "collapse_row s r vs = vs @ [new_view s (fst r) (row_devices (snd r))]" using ne by (auto simp: collapse_row_def list_ex_iff)
  have "lu_id (fst x) \<noteq> lu_id (fst r)" if "x \<in> set rows" for x
  proof -
    have "lu_id (fst x) \<in> set (map view_id vs)" using assms that unfolding collapsed_def by blast
    with False show ?thesis by (metis list.set_map)
  qed
  then have new: "filter (\<lambda>x. lu_id (fst x) = lu_id (fst r)) rows = []" by (simp add: filter_empty_conv)
  show ?thesis unfolding collapsed_def e using assms False new ne by (auto simp: collapsed_def)
qed

lemma collapse_collapsed: "collapsed rows (collapse s rows)"
proof (induction rows rule: rev_induct)
  case Nil
  then show ?case by (simp add: collapsed_def collapse_def)
next
  case (snoc r rows)
  then show ?case using collapsed_row by (simp add: collapse_def)
qed

lemma user_joins_user: "r \<in> set (user_joins mapping devs u) \<Longrightarrow> fst r = u"
  by (auto simp: user_joins_def Let_def split: if_splits)

lemma user_joins_nonempty: "user_joins mapping devs u \<noteq> []"
  by (simp add: user_joins_def Let_def)

lemma mset_concat_map: "mset (concat (map f xs)) = \<Sum>\<^sub># (image_mset (mset \<circ> f) (mset xs))"
  by (induction xs) auto

lemma mset_devices_perm:
  assumes "mset rows = mset rows'"
  shows "mset (concat (map (\<lambda>r. row_devices (snd r)) (filter P rows))) = mset (concat (map (\<lambda>r. row_devices (snd r)) (filter P rows')))"
proof -
  have "mset (filter P rows) = mset (filter P rows')" using assms by (metis mset_filter)
  then show ?thesis unfolding mset_concat_map by simp
qed

definition found_device :: "device_info list \<Rightarrow> string \<times> string \<Rightarrow> device_info list" where
  "found_device devs m = (case find (\<lambda>d. di_id d = snd m) devs of None \<Rightarrow> [] | Some d \<Rightarrow> [d])"

lemma row_devices_found:
  assumes "\<forall>d \<in> set devs. di_id d \<noteq> []"
  shows "row_devices (find (\<lambda>d. di_id d = snd m) devs) = found_device devs m"
proof (cases "find (\<lambda>d. di_id d = snd m) devs")
  case (Some d)
  then have "d \<in> set devs" by (auto simp: find_Some_iff)
  with Some assms show ?thesis by (simp add: row_devices_def found_device_def)
qed (simp add: row_devices_def found_device_def)

lemma joins_devices:
  assumes "\<forall>d \<in> set devs. di_id d \<noteq> []"
  shows "concat (map (\<lambda>r. row_devices (snd r)) (user_joins (l_mapping (sc_db s)) devs u)) = devices_of devs s (lu_id u)"
  using row_devices_found [OF assms]
  by (auto simp: user_joins_def devices_of_def found_device_def [symmetric] row_devices_def [of None] Let_def o_def)

lemma page_joins_devices:
  assumes "distinct (map lu_id page)" "u \<in> set page" "\<forall>d \<in> set devs. di_id d \<noteq> []"
  shows "concat (map (\<lambda>r. row_devices (snd r)) (filter (\<lambda>r. lu_id (fst r) = lu_id u)
      (concat (map (user_joins (l_mapping (sc_db s)) devs) page)))) = devices_of devs s (lu_id u)"
  using assms(1,2)
proof (induction page)
  case (Cons v page)
  let ?J = "user_joins (l_mapping (sc_db s)) devs"
  have same: "filter (\<lambda>r. lu_id (fst r) = lu_id v) (?J v) = ?J v" by (auto simp: filter_id_conv dest: user_joins_user)
  have other: "filter (\<lambda>r. lu_id (fst r) = i) (?J w) = []" if "lu_id w \<noteq> i" for i w
    using that by (auto simp: filter_empty_conv dest: user_joins_user)
  show ?case
  proof (cases "u = v")
    case True
    have "filter (\<lambda>r. lu_id (fst r) = lu_id v) (concat (map ?J page)) = []"
    proof -
      have "lu_id w \<noteq> lu_id v" if "w \<in> set page" for w
        using Cons.prems(1) imageI [OF that, of lu_id] by auto
      then have "filter (\<lambda>r. lu_id (fst r) = lu_id v) (concat (map ?J ws)) = []" if "set ws \<subseteq> set page" for ws
        using that other by (induction ws) auto
      then show ?thesis by blast
    qed
    with True same joins_devices [OF assms(3)] show ?thesis by simp
  next
    case False
    with Cons.prems have "lu_id v \<noteq> lu_id u" by force
    with False Cons other show ?thesis by simp
  qed
qed simp

definition users_answer :: "users_env \<Rightarrow> org_context \<Rightarrow> bool" where
  "users_answer env oc \<longleftrightarrow> ue_has_db env \<and> ue_oc env = Some oc \<and> ue_query_err env = None \<and> ue_rows_err env = None \<and> (\<forall>i. \<not> ue_scan_fails env i)"

lemma distinct_page: "distinct (map lu_id (l_users (sc_db s))) \<Longrightarrow> distinct (map lu_id (user_page org limit offset s))"
proof -
  assume d: "distinct (map lu_id (l_users (sc_db s)))"
  have "distinct (map lu_id (sort_key k (filter P xs)))" if "distinct (map lu_id xs)" for k :: "life_user \<Rightarrow> int" and P xs
    using that by (auto simp: distinct_map inj_on_def)
  with d show ?thesis unfolding user_page_def by (metis (no_types, lifting) distinct_drop distinct_take drop_map take_map)
qed

text \<open>The list of users is what asking for each user would give.  It names the users of the requested page of
  the caller's organisation, each exactly once and at most a thousand, and with each of them all
  the devices that are mapped to that user, however the rows of the join are interleaved and collated.\<close>

theorem list_users_complete:
  assumes "users_answer env oc" and "distinct (map lu_id (l_users (sc_db s)))" and "\<forall>d \<in> set devs. di_id d \<noteq> []"
    and "listPageParams limit_q offset_q maxListLimit = (limit, offset)"
  shows "\<exists>vs. ListUsers env limit_q offset_q devs s = RespondJSON 200 vs
     \<and> distinct (map view_id vs) \<and> length vs \<le> 1000
     \<and> set (map view_id vs) = lu_id ` set (user_page (oc_org oc) limit offset s)
     \<and> (\<forall>v \<in> set vs. mset (uv_devices v) = mset (devices_of devs s (view_id v)))"
proof -
  let ?page = "user_page (oc_org oc) limit offset s"
  let ?joins = "concat (map (user_joins (l_mapping (sc_db s)) devs) ?page)"
  let ?rows = "join_rows (ue_collation env) devs s ?page"
  have perm: "mset ?rows = mset ?joins" by (simp add: join_rows_def)
  have "map snd (filter (\<lambda>x. \<not> ue_scan_fails env (fst x)) (enumerate 0 ?rows)) = ?rows"
    using assms(1) by (simp add: users_answer_def enumerate_eq_zip)
  then have run: "ListUsers env limit_q offset_q devs s = RespondJSON 200 (collapse s ?rows)"
    using assms(1,4) by (simp add: ListUsers_def users_answer_def)
  note c = collapse_collapsed [of ?rows s, unfolded collapsed_def]
  have "set ?rows = set ?joins" using perm by (metis set_mset_mset)
  moreover have "(\<lambda>r. lu_id (fst r)) ` set ?joins = lu_id ` set ?page"
  proof
    show "(\<lambda>r. lu_id (fst r)) ` set ?joins \<subseteq> lu_id ` set ?page" by (auto dest: user_joins_user)
    show "lu_id ` set ?page \<subseteq> (\<lambda>r. lu_id (fst r)) ` set ?joins"
    proof
      fix i assume "i \<in> lu_id ` set ?page"
      then obtain u where u: "u \<in> set ?page" "i = lu_id u" by auto
      obtain r where r: "r \<in> set (user_joins (l_mapping (sc_db s)) devs u)" using user_joins_nonempty by (metis list.set_sel(1))
      with user_joins_user [OF r] u show "i \<in> (\<lambda>r. lu_id (fst r)) ` set ?joins" by force
    qed
  qed
  ultimately have ids: "set (map view_id (collapse s ?rows)) = lu_id ` set ?page" using c by simp
  have dev: "mset (uv_devices v) = mset (devices_of devs s (view_id v))" if v: "v \<in> set (collapse s ?rows)" for v
  proof -
    from v ids obtain u where u: "u \<in> set ?page" "lu_id u = view_id v" by (metis (no_types, lifting) imageE imageI list.set_map)
    have "mset (uv_devices v) = mset (concat (map (\<lambda>r. row_devices (snd r)) (filter (\<lambda>r. lu_id (fst r) = view_id v) ?rows)))" using c v by simp
    also have "\<dots> = mset (concat (map (\<lambda>r. row_devices (snd r)) (filter (\<lambda>r. lu_id (fst r) = view_id v) ?joins)))" by (rule mset_devices_perm [OF perm])
    finally show ?thesis using page_joins_devices [OF distinct_page [OF assms(2)] u(1) assms(3)] u(2) by simp
  qed
  have "length (collapse s ?rows) = card (lu_id ` set ?page)" using c ids by (metis distinct_card length_map)
  also have "\<dots> \<le> length ?page" using card_image_le [of "set ?page" lu_id] card_length [of ?page] by simp
  also have "\<dots> \<le> 1000" using assms(4) by (auto simp: user_page_def listPageParams_def maxListLimit_def)
  finally show ?thesis using run c ids dev by blast
qed

definition sample_users_env :: users_env where
  "sample_users_env = \<lparr>ue_has_db = True, ue_oc = Some \<lparr>oc_org = ''o1'', oc_role = ''admin''\<rparr>, ue_query_err = None, ue_scan_fails = (\<lambda>_. False),
     ue_rows_err = None, ue_collation = (\<lambda>_. [])\<rparr>"

theorem list_users_complete_witness:
  "\<exists>vs. ListUsers sample_users_env [] [] [\<lparr>di_id = ''host1'', di_hostname = [], di_os = [], di_seen = [], di_created = []\<rparr>] sample_scim = RespondJSON 200 vs
     \<and> length vs \<le> 1000"
proof -
  have "users_answer sample_users_env \<lparr>oc_org = ''o1'', oc_role = ''admin''\<rparr>" by (simp add: users_answer_def sample_users_env_def)
  moreover have "distinct (map lu_id (l_users (sc_db sample_scim)))" by (simp add: sample_scim_def sample_life_def)
  moreover have "listPageParams [] [] maxListLimit = (1000, 0)" by (simp add: listPageParams_def positive_param_def maxListLimit_def maxListOffset_def)
  ultimately show ?thesis
    using list_users_complete [of sample_users_env _ sample_scim "[\<lparr>di_id = ''host1'', di_hostname = [], di_os = [], di_seen = [], di_created = []\<rparr>]"] by fastforce
qed

section \<open>A profile update reaches both systems or none\<close>

lemma user_audit_fields [simp]:
  "l_users (sc_db (user_audit jt env oc actor a i d s)) = l_users (sc_db s)" "sc_realm (user_audit jt env oc actor a i d s) = sc_realm s"
  by (simp_all add: user_audit_def)

lemma push_profile_ok:
  assumes "push_profile env u s = (None, s')"
  shows "idp_flags (lu_id u) s' \<subseteq> {\<not> lu_disabled u} \<and> sc_db s' = sc_db s \<and> sc_times s' = sc_times s
    \<and> rl_profiles (sc_realm s') (lu_id u) = Some \<lparr>kp_first = lu_first u, kp_last = lu_last u, kp_department = lu_department u, kp_enabled = (\<not> lu_disabled u)\<rparr>"
  using assms by (auto simp: push_profile_def UpdateUser_def idp_flags_def split: option.splits)

lemma push_profile_err: "push_profile env u s = (Some e, s') \<Longrightarrow> s' = s"
  by (auto simp: push_profile_def UpdateUser_def split: option.splits)

lemma merge_user_id [simp]: "lu_id (merge_user r u) = lu_id u"
  by (simp add: merge_user_def)

lemma overwrite_simps [simp]: "lu_id (overwrite n u) = lu_id u" "overwrite (merge_user r u) u = merge_user r u"
  by (simp_all add: overwrite_def merge_user_def)

lemma store_user_rows:
  assumes "user_rows (lu_id n) s = [u]"
  shows "user_rows (lu_id n) (store_user n now s) = [overwrite n u]"
  using filter_written [of "lu_id n" "l_users (sc_db s)" u "overwrite n"] assms
  by (simp add: user_rows_def store_user_def)

lemma store_user_realm [simp]: "sc_realm (store_user n now s) = sc_realm s"
  by (simp add: store_user_def)

lemma PatchUser_cases:
  assumes "PatchUser jt env i body s = (resp, s')"
  obtains (refused) "s' = s" "status_of resp \<noteq> 200"
  | (db_failed) r cur s1 where "select_one (pn_load_err env) (\<lambda>u. lu_id u = i) (l_users (sc_db s)) = Ok cur"
      "push_profile (pn_kc env) (merge_user r cur) s = (None, s1)" "s' = snd (push_profile (pn_kc_restore env) cur s1)" "status_of resp \<noteq> 200"
  | (patched) raw cur s1 where "body = Some raw" "select_one (pn_load_err env) (\<lambda>u. lu_id u = i) (l_users (sc_db s)) = Ok cur"
      "requireUserInCallerOrg True (pn_gate_err env) (org_rows_of (sc_db s)) (pn_oc env) i = (None :: user_view response option)"
      "push_profile (pn_kc env) (merge_user (trim_request raw) cur) s = (None, s1)" "status_of resp = 200"
      "l_users (sc_db s') = l_users (sc_db (store_user (merge_user (trim_request raw) cur) (pn_now env) s1))" "sc_realm s' = sc_realm s1"
proof (cases "\<exists>raw cur. body = Some raw \<and> ValidateUserID i = None \<and> pn_has_db env
      \<and> requireUserInCallerOrg True (pn_gate_err env) (org_rows_of (sc_db s)) (pn_oc env) i = (None :: user_view response option)
      \<and> \<not> (pr_first (trim_request raw) = None \<and> pr_last (trim_request raw) = None \<and> pr_department (trim_request raw) = None
           \<and> pr_role (trim_request raw) = None \<and> pr_enabled (trim_request raw) = None)
      \<and> patch_user_errors (trim_request raw) = []
      \<and> \<not> ((pr_first (trim_request raw) \<noteq> None \<or> pr_last (trim_request raw) \<noteq> None) \<and> federated (pn_federation env) \<noteq> None)
      \<and> select_one (pn_load_err env) (\<lambda>u. lu_id u = i) (l_users (sc_db s)) = Ok cur")
  case False
  have "requireUserInCallerOrg True (pn_gate_err env) (org_rows_of (sc_db s)) (pn_oc env) i = Some x \<Longrightarrow> status_of x \<noteq> 200" for x :: "user_view response"
    by (auto simp: requireUserInCallerOrg_def RequireResourceInCallerOrg_def split: option.splits sum.splits if_splits)
  with False assms have "s' = s \<and> status_of resp \<noteq> 200"
    unfolding PatchUser_def Let_def by (auto split: option.splits if_splits query.splits)
  with refused show ?thesis by blast
next
  case True
  then obtain raw cur where h: "body = Some raw" "ValidateUserID i = None" "pn_has_db env"
      "requireUserInCallerOrg True (pn_gate_err env) (org_rows_of (sc_db s)) (pn_oc env) i = (None :: user_view response option)"
      "\<not> (pr_first (trim_request raw) = None \<and> pr_last (trim_request raw) = None \<and> pr_department (trim_request raw) = None
           \<and> pr_role (trim_request raw) = None \<and> pr_enabled (trim_request raw) = None)"
      "patch_user_errors (trim_request raw) = []"
      "\<not> ((pr_first (trim_request raw) \<noteq> None \<or> pr_last (trim_request raw) \<noteq> None) \<and> federated (pn_federation env) \<noteq> None)"
      "select_one (pn_load_err env) (\<lambda>u. lu_id u = i) (l_users (sc_db s)) = Ok cur" by blast
  obtain e s1 where p: "push_profile (pn_kc env) (merge_user (trim_request raw) cur) s = (e, s1)" by fastforce
  show ?thesis
  proof (cases e)
    case (Some x)
    with p push_profile_err have "s1 = s" by blast
    then show ?thesis using assms h p Some refused by (auto simp: PatchUser_def)
  next
    case None
    show ?thesis
    proof (cases "pn_db_err env")
      case (Some x)
      then show ?thesis using assms h p None db_failed by (auto simp: PatchUser_def)
    next
      case n: None
      then show ?thesis using assms h p None patched [OF h(1,8,4)] by (auto simp: PatchUser_def Let_def)
    qed
  qed
qed

text \<open>Updating a profile reaches Keycloak and the database or neither.  It succeeds only for a user of the caller's
  organisation; then the row is the merge of the request onto what was there and Keycloak has the
  same names and status.  When the database write fails the old values are written back to Keycloak.
  In every case both systems agree afterwards on whether the account is active.\<close>

theorem patch_user_all_or_nothing:
  assumes "PatchUser jt env i body s = (resp, s')" and "distinct (map lu_id (l_users (sc_db s)))" and "in_sync i s"
    and "kc_login (pn_kc_restore env) = None" "kc_get (pn_kc_restore env) = None" "kc_update (pn_kc_restore env) = None"
  shows "in_sync i s' \<and>
    (if status_of resp = 200
     then \<exists>raw u oc. body = Some raw \<and> pn_oc env = Some oc \<and> user_rows i s = [u] \<and> lu_org u = oc_org oc
        \<and> user_rows i s' = [merge_user (trim_request raw) u]
        \<and> rl_profiles (sc_realm s') i = (let n = merge_user (trim_request raw) u in
             Some \<lparr>kp_first = lu_first n, kp_last = lu_last n, kp_department = lu_department n, kp_enabled = (\<not> lu_disabled n)\<rparr>)
     else l_users (sc_db s') = l_users (sc_db s))"
  using assms(1)
proof (cases rule: PatchUser_cases)
  case refused
  with assms(3) show ?thesis by simp
next
  case (db_failed r cur s1)
  have cur: "cur \<in> set (l_users (sc_db s))" "lu_id cur = i" using select_one_Ok_D [OF db_failed(1)] by auto
  have "push_profile (pn_kc_restore env) cur s1 = (None, s')"
    using assms(4-6) db_failed(3) by (simp add: push_profile_def UpdateUser_def)
  note w = push_profile_ok [OF db_failed(2)] and w' = push_profile_ok [OF this]
  have "user_rows i s' = [cur]" using one_row [OF assms(2) cur(1)] cur(2) w w' by (simp add: user_rows_def)
  with w w' cur db_failed(4) show ?thesis by (simp add: in_sync_def)
next
  case (patched raw cur s1)
  have cur: "cur \<in> set (l_users (sc_db s))" "lu_id cur = i" using select_one_Ok_D [OF patched(2)] by auto
  let ?n = "merge_user (trim_request raw) cur"
  note w = push_profile_ok [OF patched(4)]
  have one: "user_rows i s = [cur]" using one_row [OF assms(2) cur(1)] cur(2) by (simp add: user_rows_def)
  then have "user_rows (lu_id ?n) s1 = [cur]" using w cur(2) by (simp add: user_rows_def)
  from store_user_rows [OF this] have rows: "user_rows i s' = [?n]" using patched(6) cur(2) by (simp add: user_rows_def)
  have flags: "idp_flags i s' \<subseteq> {\<not> lu_disabled ?n}" using w patched(7) cur(2) by (simp add: idp_flags_def)
  obtain oc where oc: "pn_oc env = Some oc" "org_owns ''users'' (org_rows_of (sc_db s)) oc i"
    using resource_gate.gate_owns [OF patched(3) [unfolded requireUserInCallerOrg_def]] by blast
  then obtain u where u: "u \<in> set (l_users (sc_db s))" "lu_id u = i" "lu_org u = oc_org oc" by (auto simp: org_owns_def org_rows_of_def list_ex_iff)
  then have "u \<in> set (user_rows i s)" by (simp add: user_rows_def)
  with one have "u = cur" by simp
  with u one rows flags w patched(1,5,7) cur oc(1) show ?thesis by (auto simp: in_sync_def Let_def)
qed

definition sample_patch_user :: patch_user_env where
  "sample_patch_user = \<lparr>pn_has_db = True, pn_oc = Some \<lparr>oc_org = ''o1'', oc_role = ''admin''\<rparr>, pn_actor = ''op'', pn_gate_err = None,
     pn_federation = Inr None, pn_load_err = None, pn_kc = sample_kc_env, pn_db_err = Some ''down'', pn_kc_restore = sample_kc_env,
     pn_audit = sample_write_env, pn_now = 0\<rparr>"

theorem patch_user_all_or_nothing_witness:
  "in_sync sample_uuid (snd (PatchUser (\<lambda>b. b) sample_patch_user sample_uuid
     (Some \<lparr>pr_first = None, pr_last = None, pr_department = None, pr_role = None, pr_enabled = Some False\<rparr>) sample_scim))"
proof -
  let ?b = "Some \<lparr>pr_first = None, pr_last = None, pr_department = None, pr_role = None, pr_enabled = Some False\<rparr>"
  obtain resp s' where run: "PatchUser (\<lambda>b. b) sample_patch_user sample_uuid ?b sample_scim = (resp, s')" by fastforce
  have "distinct (map lu_id (l_users (sc_db sample_scim)))" by (simp add: sample_scim_def sample_life_def)
  moreover have "in_sync sample_uuid sample_scim"
    by (auto simp: in_sync_def user_rows_def idp_flags_def sample_scim_def sample_life_def sample_realm_def onboarded_user_def)
  ultimately have "in_sync sample_uuid s'"
    using patch_user_all_or_nothing [OF run] by (simp add: sample_patch_user_def sample_kc_env_def)
  with run show ?thesis by simp
qed

text \<open>A successful update answers without the address of the user.\<close>

lemma patch_user_answer_has_no_email:
  assumes "PatchUser jt env i body s = (RespondJSON 200 v, s')"
  shows "lu_email (uv_user v) = []"
  using assms unfolding PatchUser_def Let_def requireUserInCallerOrg_def RequireResourceInCallerOrg_def
  by (auto simp: new_view_def split: option.splits if_splits query.splits prod.splits sum.splits)

end
