(* ===== verification/Orgs.thy ===== *)
theory Orgs
  imports Lifecycle
begin

text \<open>
  Organisations and their members, \<open>internal/handlers/orgs.go\<close>: creating and listing organisations, the
  answer of \<open>GET /me\<close>, and the membership endpoints with their gate.  The unique constraint on the slug
  and the primary key of the memberships are part of the tables.
\<close>

section \<open>Data\<close>

record organization =
  on_id :: string
  on_name :: string
  on_slug :: string
  on_created :: time

record org_db =
  od_orgs :: "organization list"
  od_life :: life_db

text \<open>A failing statement: the SQLSTATE of a structured server error, or an error without one.\<close>

datatype sql_error = Pg_error string | Other_error string

definition isUniqueViolation :: "sql_error option \<Rightarrow> bool" where
  "isUniqueViolation err = (case err of Some (Pg_error code) \<Rightarrow> code = ''23505'' | _ \<Rightarrow> False)"

record orgs_env =
  on_has_db :: bool
  on_claims :: "jwt_claims option"
  on_oc :: "org_context option"
  on_actor :: string
  on_exec :: "string option"
  on_lookup :: "string option"
  on_scan_fails :: bool
  on_new_id :: string
  on_now :: time
  on_audit :: write_env

definition org_audit :: "(string \<Rightarrow> string) \<Rightarrow> orgs_env \<Rightarrow> string \<Rightarrow> string \<Rightarrow> (string \<times> jval) list \<Rightarrow> org_db \<Rightarrow> org_db" where
  "org_audit jt env action target details db =
     db\<lparr>od_life := (od_life db)\<lparr>l_audit := log_best_effort jt (on_audit env) (on_oc env)
        \<lparr>ac_actor = on_actor env, ac_action = action, ac_target_type = ''organization'', ac_target_id = target,
         ac_details = Some (JObj details)\<rparr> (l_audit (od_life db))\<rparr>\<rparr>"

section \<open>Organisations\<close>

definition org_errors :: "string \<Rightarrow> string \<Rightarrow> (string \<times> string) list" where
  "org_errors name slug =
     (if name = [] then [(''name'', ''name is required'')]
      else if length name > 200 then [(''name'', max_chars ''name'' ''200'')] else [])
   @ (if slug = [] then [(''slug'', ''slug is required'')]
      else if length slug > 63 \<or> \<not> matches slugPattern slug
      then [(''slug'', ''slug must be lowercase alphanumeric with hyphens (e.g. acme-corp)'')] else [])"

text \<open>The INSERT: the statement may fail, and it fails with a unique violation on a slug in use.\<close>

definition insert_org :: "orgs_env \<Rightarrow> string \<Rightarrow> string \<Rightarrow> org_db \<Rightarrow> sql_error option \<times> org_db" where
  "insert_org env name slug db =
     (case on_exec env of Some e \<Rightarrow> (Some (Other_error e), db) | None \<Rightarrow>
      if list_ex (\<lambda>x. on_slug x = slug) (od_orgs db) then (Some (Pg_error ''23505''), db)
      else (None, db\<lparr>od_orgs := od_orgs db @ [\<lparr>on_id = on_new_id env, on_name = name, on_slug = slug, on_created = on_now env\<rparr>]\<rparr>))"

record org_response =
  or_resp_id :: string
  or_resp_name :: string
  or_resp_slug :: string
  or_resp_created :: string

definition CreateOrg :: "(string \<Rightarrow> string) \<Rightarrow> orgs_env \<Rightarrow> (string \<times> string) option \<Rightarrow> org_db \<Rightarrow> org_response response \<times> org_db" where
  "CreateOrg jt env body db =
     (case body of None \<Rightarrow> (RespondError 400 ''invalid request body'', db) | Some raw \<Rightarrow>
      (let name = trim_space (fst raw); slug = to_lower (trim_space (snd raw)) in
       if org_errors name slug \<noteq> [] then (RespondValidationErrors (org_errors name slug), db)
       else if \<not> on_has_db env then (RespondError 500 ''database not available'', db)
       else case insert_org env name slug db of
         (Some e, db) \<Rightarrow>
           if isUniqueViolation (Some e) then (RespondValidationErrors [(''slug'', ''slug is already in use'')], db)
           else (RespondError 500 ''failed to create organization'', db)
       | (None, db) \<Rightarrow>
           (RespondJSON 201 \<lparr>or_resp_id = on_new_id env, or_resp_name = name, or_resp_slug = slug, or_resp_created = rfc3339 (on_now env)\<rparr>,
            org_audit jt env ''org.create'' (on_new_id env) [(''name'', JStr name), (''slug'', JStr slug)] db)))"

definition ListOrgs :: "orgs_env \<Rightarrow> org_db \<Rightarrow> org_response list response" where
  "ListOrgs env db =
     (if \<not> on_has_db env then RespondJSON 200 []
      else if on_exec env \<noteq> None \<or> (on_scan_fails env \<and> od_orgs db \<noteq> []) then RespondError 500 ''internal error''
      else RespondJSON 200 (map (\<lambda>x. \<lparr>or_resp_id = on_id x, or_resp_name = on_name x, or_resp_slug = on_slug x, or_resp_created = rfc3339 (on_created x)\<rparr>)
             (sort_key on_created (od_orgs db))))"

record me_response =
  me_sub :: string
  me_email :: string
  me_role :: role
  me_active_org :: string
  me_active_role :: string
  me_orgs :: "(organization \<times> string) list"
  me_system_admin :: bool

definition me_memberships :: "(nat \<Rightarrow> bool) \<Rightarrow> string \<Rightarrow> org_db \<Rightarrow> (organization \<times> string) list" where
  "me_memberships scan_fails sub db =
     map snd (filter (\<lambda>x. \<not> scan_fails (fst x)) (enumerate 0 (sort_key (\<lambda>x. on_name (fst x))
       (concat (map (\<lambda>m. map (\<lambda>x. (x, mb_role m)) (filter (\<lambda>x. on_id x = mb_org m) (od_orgs db)))
          (filter (\<lambda>m. mb_user m = sub) (l_members (od_life db))))))))"

definition Me :: "orgs_env \<Rightarrow> (nat \<Rightarrow> bool) \<Rightarrow> org_db \<Rightarrow> me_response response" where
  "Me env scan_fails db =
     (case on_claims env of None \<Rightarrow> RespondError 401 ''unauthorized'' | Some c \<Rightarrow>
      RespondJSON 200 \<lparr>me_sub = jc_sub c, me_email = jc_email c, me_role = jc_role c,
        me_active_org = (case on_oc env of Some x \<Rightarrow> oc_org x | None \<Rightarrow> []), me_active_role = (case on_oc env of Some x \<Rightarrow> oc_role x | None \<Rightarrow> []),
        me_orgs = (if on_has_db env \<and> on_exec env = None then me_memberships scan_fails (jc_sub c) db else []),
        me_system_admin = (jc_role c = RoleSuperAdmin)\<rparr>)"

section \<open>Members\<close>

text \<open>\<^const>\<open>None\<close>: the caller may act on the organisation.\<close>

definition requireOwnOrgOrSystemAdmin :: "jwt_claims option \<Rightarrow> org_context option \<Rightarrow> string \<Rightarrow> 'b response option" where
  "requireOwnOrgOrSystemAdmin claims oc orgID =
     (if claims \<noteq> None \<and> jc_role (the claims) = RoleSuperAdmin then None
      else if oc \<noteq> None \<and> oc_role (the oc) = OrgMembershipRoleAdmin \<and> oc_org (the oc) = orgID then None
      else Some (RespondError 403 ''forbidden: not an admin of this organization''))"

record org_member =
  om_user :: string
  om_email :: string
  om_first :: string
  om_last :: string
  om_role :: string

definition members_of :: "string \<Rightarrow> life_db \<Rightarrow> org_member list" where
  "members_of orgID db =
     sort_key om_email (concat (map (\<lambda>m. map (\<lambda>u. \<lparr>om_user = lu_id u, om_email = lu_email u, om_first = lu_first u, om_last = lu_last u, om_role = mb_role m\<rparr>)
        (filter (\<lambda>u. lu_id u = mb_user m) (l_users db))) (filter (\<lambda>m. mb_org m = orgID) (l_members db))))"

definition ListOrgMembers :: "orgs_env \<Rightarrow> string \<Rightarrow> org_db \<Rightarrow> org_member list response" where
  "ListOrgMembers env orgID db =
     (if ValidateUserID orgID \<noteq> None then RespondError 400 ''invalid organization id''
      else case requireOwnOrgOrSystemAdmin (on_claims env) (on_oc env) orgID of Some r \<Rightarrow> r | None \<Rightarrow>
      if \<not> on_has_db env then RespondJSON 200 []
      else if on_exec env \<noteq> None \<or> (on_scan_fails env \<and> members_of orgID (od_life db) \<noteq> []) then RespondError 500 ''internal error''
      else RespondJSON 200 (members_of orgID (od_life db)))"

definition upsert_member :: "membership \<Rightarrow> membership list \<Rightarrow> membership list" where
  "upsert_member m ms =
     (if list_ex (\<lambda>x. mb_org x = mb_org m \<and> mb_user x = mb_user m) ms
      then update_where (\<lambda>x. mb_org x = mb_org m \<and> mb_user x = mb_user m) (\<lambda>x. x\<lparr>mb_role := mb_role m\<rparr>) ms
      else ms @ [m])"

definition member_errors :: "string \<Rightarrow> string \<Rightarrow> (string \<times> string) list" where
  "member_errors userID role =
     (case ValidateUserID userID of Some e \<Rightarrow> [(''userId'', id_error_text ''user id'' e)] | None \<Rightarrow> [])
   @ (if role \<noteq> ''org-admin'' \<and> role \<noteq> ''member'' then [(''role'', ''role must be org-admin or member'')] else [])"

definition member_role :: "string \<Rightarrow> string" where
  "member_role raw = (let r = trim_space raw in if r = [] then ''member'' else r)"

definition AddOrgMember :: "(string \<Rightarrow> string) \<Rightarrow> orgs_env \<Rightarrow> string \<Rightarrow> (string \<times> string) option \<Rightarrow> org_db \<Rightarrow> (string \<times> string) response \<times> org_db" where
  "AddOrgMember jt env orgID body db =
     (if ValidateUserID orgID \<noteq> None then (RespondError 400 ''invalid organization id'', db)
      else case requireOwnOrgOrSystemAdmin (on_claims env) (on_oc env) orgID of Some r \<Rightarrow> (r, db) | None \<Rightarrow>
      case body of None \<Rightarrow> (RespondError 400 ''invalid request body'', db) | Some (userID, raw) \<Rightarrow>
      (let role = member_role raw in
       if member_errors userID role \<noteq> [] then (RespondValidationErrors (member_errors userID role), db)
       else if \<not> on_has_db env then (RespondError 500 ''database not available'', db)
       else case select_one (on_lookup env) (\<lambda>u. lu_id u = userID \<and> lu_org u = orgID) (l_users (od_life db)) of
         No_rows \<Rightarrow> (RespondError 404 ''user not found'', db)
       | Db_error _ \<Rightarrow> (RespondError 500 ''internal error'', db)
       | Ok _ \<Rightarrow>
           if on_exec env \<noteq> None then (RespondError 500 ''failed to add member'', db)
           else (RespondJSON 200 (userID, role),
             org_audit jt env ''org.member_add'' orgID [(''user_id'', JStr userID), (''role'', JStr role)]
               (db\<lparr>od_life := (od_life db)\<lparr>l_members := upsert_member \<lparr>mb_user = userID, mb_org = orgID, mb_role = role\<rparr> (l_members (od_life db))\<rparr>\<rparr>))))"

definition RemoveOrgMember :: "(string \<Rightarrow> string) \<Rightarrow> orgs_env \<Rightarrow> string \<Rightarrow> string \<Rightarrow> org_db \<Rightarrow> bool response \<times> org_db" where
  "RemoveOrgMember jt env orgID userID db =
     (if ValidateUserID orgID \<noteq> None then (RespondError 400 ''invalid organization id'', db)
      else case ValidateUserID userID of Some e \<Rightarrow> (RespondError 400 (id_error_text ''user id'' e), db) | None \<Rightarrow>
      case requireOwnOrgOrSystemAdmin (on_claims env) (on_oc env) orgID of Some r \<Rightarrow> (r, db) | None \<Rightarrow>
      if \<not> on_has_db env then (RespondError 500 ''database not available'', db)
      else if on_exec env \<noteq> None then (RespondError 500 ''internal error'', db)
      else if rows_affected (\<lambda>m. mb_org m = orgID \<and> mb_user m = userID) (l_members (od_life db)) = 0
      then (RespondError 404 ''membership not found'', db)
      else (RespondJSON 200 True,
        org_audit jt env ''org.member_remove'' orgID [(''user_id'', JStr userID)]
          (db\<lparr>od_life := (od_life db)\<lparr>l_members := delete_where (\<lambda>m. mb_org m = orgID \<and> mb_user m = userID) (l_members (od_life db))\<rparr>\<rparr>)))"

section \<open>Well-formed directories\<close>

text \<open>Slugs are unique and valid, names are bounded, a user has one membership per organisation, only in the
  organisation the user belongs to, and with one of the two roles a member can have.\<close>

definition orgs_wf :: "organization list \<Rightarrow> bool" where
  "orgs_wf xs \<longleftrightarrow> distinct (map on_slug xs)
     \<and> (\<forall>x \<in> set xs. matches slugPattern (on_slug x) \<and> length (on_slug x) \<le> 63 \<and> on_name x \<noteq> [] \<and> length (on_name x) \<le> 200)"

definition member_key :: "membership \<Rightarrow> string \<times> string" where
  "member_key m = (mb_org m, mb_user m)"

definition at_home :: "life_user list \<Rightarrow> membership \<Rightarrow> bool" where
  "at_home us m \<longleftrightarrow> list_ex (\<lambda>u. lu_id u = mb_user m \<and> lu_org u = mb_org m) us \<and> mb_role m \<in> {''org-admin'', ''member''}"

definition members_wf :: "life_db \<Rightarrow> bool" where
  "members_wf db \<longleftrightarrow> distinct (map member_key (l_members db)) \<and> (\<forall>m \<in> set (l_members db). at_home (l_users db) m)"

definition directory_wf :: "org_db \<Rightarrow> bool" where
  "directory_wf db \<longleftrightarrow> orgs_wf (od_orgs db) \<and> members_wf (od_life db)"

datatype org_op =
    Op_create "string \<Rightarrow> string" orgs_env "(string \<times> string) option"
  | Op_add "string \<Rightarrow> string" orgs_env string "(string \<times> string) option"
  | Op_remove "string \<Rightarrow> string" orgs_env string string
  | Op_onboard "string \<Rightarrow> string" persist_env "string option" string onboard_request string jval string string

fun org_step :: "org_op \<Rightarrow> org_db \<Rightarrow> org_db" where
  "org_step (Op_create jt env body) db = snd (CreateOrg jt env body db)"
| "org_step (Op_add jt env orgID body) db = snd (AddOrgMember jt env orgID body db)"
| "org_step (Op_remove jt env orgID userID) db = snd (RemoveOrgMember jt env orgID userID db)"
| "org_step (Op_onboard jt env ctxOrg i req actor details token orgID) db =
     db\<lparr>od_life := snd (persistOnboard jt env ctxOrg i req actor details token orgID (od_life db))\<rparr>"

lemma org_audit_fields [simp]:
  "od_orgs (org_audit jt env a t d db) = od_orgs db" "l_members (od_life (org_audit jt env a t d db)) = l_members (od_life db)"
  "l_users (od_life (org_audit jt env a t d db)) = l_users (od_life db)"
  by (simp_all add: org_audit_def)

lemma member_key_simps [simp]: "member_key (m\<lparr>mb_role := r\<rparr>) = member_key m"
  by (simp add: member_key_def)

lemma upsert_member_wf:
  assumes "distinct (map member_key ms)" "\<forall>x \<in> set ms. at_home us x" "at_home us m"
  shows "distinct (map member_key (upsert_member m ms)) \<and> (\<forall>x \<in> set (upsert_member m ms). at_home us x)"
proof (cases "list_ex (\<lambda>x. mb_org x = mb_org m \<and> mb_user x = mb_user m) ms")
  case True
  have "at_home us (q\<lparr>mb_role := mb_role m\<rparr>)" if "at_home us q" for q using that assms(3) by (simp add: at_home_def)
  with True show ?thesis using assms(1,2) by (auto simp: upsert_member_def map_update_where in_update_where)
next
  case False
  then show ?thesis using assms by (auto simp: upsert_member_def list_ex_iff member_key_def)
qed

lemma persistOnboard_members:
  assumes "persistOnboard jt env oc i req actor d token org db = (None, db')"
  shows "l_members db' = (if list_ex (\<lambda>m. mb_org m = org \<and> mb_user m = i) (l_members db) then l_members db
     else l_members db @ [\<lparr>mb_user = i, mb_org = org, mb_role = ''member''\<rparr>])"
proof -
  let ?c = "\<lparr>ac_actor = actor, ac_action = ''onboard'', ac_target_type = ''user'', ac_target_id = i, ac_details = Some d\<rparr>"
  show ?thesis
    by (cases rule: writeAuditEntry_cases [of jt "pz_audit env" oc ?c "l_audit db"]; use assms in
      \<open>auto simp: persistOnboard_def Let_def split: option.splits if_splits\<close>)
qed

lemma at_home_append: "at_home us m \<Longrightarrow> at_home (us @ vs) m"
  by (simp add: at_home_def)

lemma persistOnboard_members_wf:
  assumes "members_wf db"
  shows "members_wf (snd (persistOnboard jt env oc i req actor d token org db))"
proof -
  obtain e db' where p: "persistOnboard jt env oc i req actor d token org db = (e, db')" by fastforce
  show ?thesis
  proof (cases e)
    case (Some x)
    then show ?thesis using same_data_fields [OF persistOnboard_failed] p assms by (fastforce simp: members_wf_def)
  next
    case None
    have u: "l_users db' = l_users db @ [onboarded_user i org req]" using persistOnboard_ok p None by (auto simp: onboarded_def)
    have new: "at_home (l_users db') \<lparr>mb_user = i, mb_org = org, mb_role = ''member''\<rparr>" by (simp add: u at_home_def onboarded_user_def)
    have "members_wf db'"
      using persistOnboard_members [of jt env oc i req actor d token org db db'] p None assms new
      by (auto simp: members_wf_def u list_ex_iff member_key_def intro: at_home_append)
    with p show ?thesis by simp
  qed
qed

lemma CreateOrg_wf: "directory_wf db \<Longrightarrow> directory_wf (snd (CreateOrg jt env body db))"
  by (auto simp: CreateOrg_def insert_org_def directory_wf_def orgs_wf_def members_wf_def org_errors_def list_ex_iff Let_def
      split: option.splits if_splits)

lemma AddOrgMember_cases:
  obtains (same) "od_orgs (snd (AddOrgMember jt env orgID body db)) = od_orgs db" "l_members (od_life (snd (AddOrgMember jt env orgID body db))) = l_members (od_life db)"
      "l_users (od_life (snd (AddOrgMember jt env orgID body db))) = l_users (od_life db)"
  | (added) u role where "requireOwnOrgOrSystemAdmin (on_claims env) (on_oc env) orgID = (None :: (string \<times> string) response option)"
      "u \<in> set (l_users (od_life db))" "lu_org u = orgID" "role \<in> {''org-admin'', ''member''}"
      "l_members (od_life (snd (AddOrgMember jt env orgID body db))) = upsert_member \<lparr>mb_user = lu_id u, mb_org = orgID, mb_role = role\<rparr> (l_members (od_life db))"
      "od_orgs (snd (AddOrgMember jt env orgID body db)) = od_orgs db" "l_users (od_life (snd (AddOrgMember jt env orgID body db))) = l_users (od_life db)"
proof -
  let ?c = "\<lambda>userID raw u. body = Some (userID, raw) \<and> requireOwnOrgOrSystemAdmin (on_claims env) (on_oc env) orgID = (None :: (string \<times> string) response option)
      \<and> ValidateUserID orgID = None \<and> member_errors userID (member_role raw) = [] \<and> on_has_db env \<and> on_exec env = None
      \<and> select_one (on_lookup env) (\<lambda>u. lu_id u = userID \<and> lu_org u = orgID) (l_users (od_life db)) = Ok u"
  show ?thesis
  proof (cases "\<exists>userID raw u. ?c userID raw u")
    case False
    have "snd (AddOrgMember jt env orgID body db) = db"
    proof (cases "ValidateUserID orgID = None \<and> requireOwnOrgOrSystemAdmin (on_claims env) (on_oc env) orgID = (None :: (string \<times> string) response option)")
      case True
      with False show ?thesis
        by (auto simp: AddOrgMember_def Let_def split: option.split if_splits query.split)
    qed (auto simp: AddOrgMember_def split: option.split)
    then show ?thesis using same by simp
  next
    case True
    then obtain userID raw u where 2: "?c userID raw u" by blast
    then have "select_one (on_lookup env) (\<lambda>u. lu_id u = userID \<and> lu_org u = orgID) (l_users (od_life db)) = Ok u" by simp
    from select_one_Ok_D [OF this] have u: "u \<in> set (l_users (od_life db))" "lu_id u = userID" "lu_org u = orgID" by auto
    have "member_role raw \<in> {''org-admin'', ''member''}" using 2 by (auto simp: member_errors_def split: if_splits option.splits)
    moreover have "snd (AddOrgMember jt env orgID body db) =
        org_audit jt env ''org.member_add'' orgID [(''user_id'', JStr userID), (''role'', JStr (member_role raw))]
          (db\<lparr>od_life := (od_life db)\<lparr>l_members := upsert_member \<lparr>mb_user = userID, mb_org = orgID, mb_role = member_role raw\<rparr> (l_members (od_life db))\<rparr>\<rparr>)"
      using 2 by (simp add: AddOrgMember_def Let_def)
    ultimately show ?thesis using 2 u added [of u "member_role raw"] by simp
  qed
qed

lemma AddOrgMember_wf: "directory_wf db \<Longrightarrow> directory_wf (snd (AddOrgMember jt env orgID body db))"
proof (cases rule: AddOrgMember_cases [of jt env orgID body db])
  case same
  then show "directory_wf db \<Longrightarrow> ?thesis" by (simp add: directory_wf_def members_wf_def)
next
  case (added u role)
  then have "at_home (l_users (od_life db)) \<lparr>mb_user = lu_id u, mb_org = orgID, mb_role = role\<rparr>" by (auto simp: at_home_def list_ex_iff)
  with added upsert_member_wf [of "l_members (od_life db)" "l_users (od_life db)" "\<lparr>mb_user = lu_id u, mb_org = orgID, mb_role = role\<rparr>"] show "directory_wf db \<Longrightarrow> ?thesis" by (simp add: directory_wf_def members_wf_def)
qed

lemma distinct_map_filter_key: "distinct (map f xs) \<Longrightarrow> distinct (map f (filter P xs))"
  by (simp add: distinct_map inj_on_def)

lemma RemoveOrgMember_wf: "directory_wf db \<Longrightarrow> directory_wf (snd (RemoveOrgMember jt env orgID userID db))"
  unfolding RemoveOrgMember_def requireOwnOrgOrSystemAdmin_def
  by (auto simp: directory_wf_def members_wf_def delete_where_def distinct_map_filter_key split: option.splits if_splits)

interpretation directory: guarded_machine org_step "\<lambda>_ _. True" directory_wf
proof
  fix db op assume "directory_wf db"
  then show "directory_wf (org_step op db)"
    using CreateOrg_wf AddOrgMember_wf RemoveOrgMember_wf persistOnboard_members_wf by (cases op) (auto simp: directory_wf_def)
qed

lemma any_run_legal [simp]: "legal_run step (\<lambda>_ _. True) ops s"
  by (induction ops arbitrary: s) auto

text \<open>C30. The directory of organisations stays well formed along every run of creations, membership changes and
  onboardings, with any answers of the database: slugs are unique and have the shape of a slug, names
  are not empty and bounded, nobody has two memberships in one organisation, and every member of an
  organisation is a user whose own organisation it is, with the role \<open>org-admin\<close> or \<open>member\<close>.\<close>

theorem org_directory_wf:
  assumes "directory_wf db"
  shows "directory_wf (fold org_step ops db)"
  by (rule directory.run_inv [OF assms]) simp

lemma own_org_or_admin:
  "requireOwnOrgOrSystemAdmin claims oc orgID = None \<Longrightarrow>
     (\<exists>c. claims = Some c \<and> jc_role c = RoleSuperAdmin) \<or> (\<exists>x. oc = Some x \<and> oc_role x = OrgMembershipRoleAdmin \<and> oc_org x = orgID)"
  by (auto simp: requireOwnOrgOrSystemAdmin_def split: if_splits)

text \<open>Membership requests act on one organisation: those of all others are as before, and anything changes only
  for a system administrator or an administrator of that very organisation.\<close>

theorem org_membership_confined:
  assumes "db' = snd (AddOrgMember jt env orgID body db) \<or> db' = snd (RemoveOrgMember jt env orgID userID db)"
  shows "filter (\<lambda>m. mb_org m \<noteq> orgID) (l_members (od_life db')) = filter (\<lambda>m. mb_org m \<noteq> orgID) (l_members (od_life db))
    \<and> l_users (od_life db') = l_users (od_life db) \<and> od_orgs db' = od_orgs db
    \<and> (l_members (od_life db') \<noteq> l_members (od_life db) \<longrightarrow>
         (\<exists>c. on_claims env = Some c \<and> jc_role c = RoleSuperAdmin)
       \<or> (\<exists>oc. on_oc env = Some oc \<and> oc_role oc = OrgMembershipRoleAdmin \<and> oc_org oc = orgID))"
proof -
  have up: "filter (\<lambda>m. mb_org m \<noteq> orgID) (upsert_member \<lparr>mb_user = u, mb_org = orgID, mb_role = r\<rparr> ms) = filter (\<lambda>m. mb_org m \<noteq> orgID) ms" for u r ms
  proof -
    have "filter (\<lambda>m. mb_org m \<noteq> orgID) (update_where (\<lambda>x. mb_org x = orgID \<and> mb_user x = u) (\<lambda>x. x\<lparr>mb_role := r\<rparr>) ms) = filter (\<lambda>m. mb_org m \<noteq> orgID) ms"
      by (induction ms) (auto simp: update_where_def)
    then show ?thesis by (simp add: upsert_member_def)
  qed
  have del: "filter (\<lambda>m. mb_org m \<noteq> orgID) (delete_where (\<lambda>m. mb_org m = orgID \<and> mb_user m = userID) ms) = filter (\<lambda>m. mb_org m \<noteq> orgID) ms" for ms
    by (auto simp: delete_where_def intro: filter_cong)
  from assms show ?thesis
  proof
    assume "db' = snd (AddOrgMember jt env orgID body db)"
    then show ?thesis
      by (cases rule: AddOrgMember_cases [of jt env orgID body db]) (simp_all add: up own_org_or_admin)
  next
    assume r: "db' = snd (RemoveOrgMember jt env orgID userID db)"
    show ?thesis
    proof (cases "requireOwnOrgOrSystemAdmin (on_claims env) (on_oc env) orgID :: bool response option")
      case (Some x)
      then show ?thesis by (auto simp: r RemoveOrgMember_def split: option.split)
    next
      case None
      from own_org_or_admin [OF this] None show ?thesis by (auto simp: r RemoveOrgMember_def del split: option.split)
    qed
  qed
qed

definition sample_orgs_env :: orgs_env where
  "sample_orgs_env = \<lparr>on_has_db = True, on_claims = None, on_oc = None, on_actor = [], on_exec = None, on_lookup = None,
     on_scan_fails = False, on_new_id = [], on_now = 0, on_audit = sample_write_env\<rparr>"

definition small_directory :: org_db where
  "small_directory = \<lparr>od_orgs = [\<lparr>on_id = sample_uuid, on_name = ''Acme'', on_slug = ''acme'', on_created = 0\<rparr>],
     od_life = empty_life\<lparr>l_users := [onboarded_user sample_uuid sample_uuid \<lparr>ob_first = ''A'', ob_last = ''L'', ob_email = ''a@b.co'', ob_department = [], ob_role = []\<rparr>]\<rparr>\<rparr>"

definition root_env :: orgs_env where
  "root_env = sample_orgs_env\<lparr>on_claims := Some \<lparr>jc_sub = ''kc1'', jc_username = ''root'', jc_email = [], jc_is_admin = True, jc_role = RoleSuperAdmin\<rparr>\<rparr>"

definition promote :: "org_op list" where
  "promote = [Op_add (\<lambda>b. b) root_env sample_uuid (Some (sample_uuid, [])), Op_add (\<lambda>b. b) root_env sample_uuid (Some (sample_uuid, ''owner'')),
     Op_add (\<lambda>b. b) root_env sample_uuid (Some (sample_uuid, ''org-admin''))]"

lemma add_member_step:
  assumes "member_errors sample_uuid (member_role raw) = []" and "l_users (od_life db) = l_users (od_life small_directory)"
  shows "l_members (od_life (org_step (Op_add jt root_env sample_uuid (Some (sample_uuid, raw))) db))
      = upsert_member \<lparr>mb_user = sample_uuid, mb_org = sample_uuid, mb_role = member_role raw\<rparr> (l_members (od_life db))"
    "l_users (od_life (org_step (Op_add jt root_env sample_uuid (Some (sample_uuid, raw))) db)) = l_users (od_life small_directory)"
proof -
  have "ValidateUserID sample_uuid = None" by code_simp
  moreover have "requireOwnOrgOrSystemAdmin (on_claims root_env) (on_oc root_env) sample_uuid = (None :: (string \<times> string) response option)" by code_simp
  moreover have "select_one (on_lookup root_env) (\<lambda>u. lu_id u = sample_uuid \<and> lu_org u = sample_uuid) (l_users (od_life db)) = Ok (hd (l_users (od_life small_directory)))"
    by (simp add: assms(2) select_one_def root_env_def sample_orgs_env_def small_directory_def onboarded_user_def)
  moreover have "on_has_db root_env" "on_exec root_env = None" by (simp_all add: root_env_def sample_orgs_env_def)
  ultimately show "l_members (od_life (org_step (Op_add jt root_env sample_uuid (Some (sample_uuid, raw))) db))
      = upsert_member \<lparr>mb_user = sample_uuid, mb_org = sample_uuid, mb_role = member_role raw\<rparr> (l_members (od_life db))"
    "l_users (od_life (org_step (Op_add jt root_env sample_uuid (Some (sample_uuid, raw))) db)) = l_users (od_life small_directory)"
    using assms by (simp_all add: AddOrgMember_def Let_def)
qed

lemma refused_member_step:
  assumes "member_errors sample_uuid (member_role raw) \<noteq> []"
  shows "org_step (Op_add jt root_env sample_uuid (Some (sample_uuid, raw))) db = db"
  using assms by (simp add: AddOrgMember_def Let_def split: option.split)

lemma promote_members:
  "l_members (od_life (fold org_step promote small_directory)) = [\<lparr>mb_user = sample_uuid, mb_org = sample_uuid, mb_role = ''org-admin''\<rparr>]"
proof -
  have r: "member_role [] = ''member''" "member_role ''owner'' = ''owner''" "member_role ''org-admin'' = ''org-admin''" by code_simp+
  have e: "member_errors sample_uuid ''member'' = []" "member_errors sample_uuid ''owner'' \<noteq> []" "member_errors sample_uuid ''org-admin'' = []" by code_simp+
  note 1 = add_member_step [of "[]" small_directory "\<lambda>b. b", unfolded r, OF e(1) refl]
  note 2 = refused_member_step [of "''owner''", unfolded r, OF e(2)]
  note 3 = add_member_step [of "''org-admin''" "org_step (Op_add (\<lambda>b. b) root_env sample_uuid (Some (sample_uuid, []))) small_directory" "\<lambda>b. b", unfolded r, OF e(3) 1(2)]
  show ?thesis
    unfolding promote_def fold.simps comp_def id_def 2 3(1) 1(1)
    by (simp add: upsert_member_def small_directory_def empty_life_def update_where_def)
qed

theorem org_directory_wf_witness:
  "directory_wf (fold org_step promote small_directory)
   \<and> l_members (od_life (fold org_step promote small_directory)) = [\<lparr>mb_user = sample_uuid, mb_org = sample_uuid, mb_role = ''org-admin''\<rparr>]"
proof
  have "MatchString slugPattern ''acme''" by code_simp
  then have "matches slugPattern ''acme''" by (simp add: MatchString_iff)
  then have "directory_wf small_directory"
    by (simp add: directory_wf_def orgs_wf_def members_wf_def small_directory_def empty_life_def)
  then show "directory_wf (fold org_step promote small_directory)" by (rule org_directory_wf)
qed (rule promote_members)

theorem org_membership_confined_witness:
  "l_members (od_life (snd (RemoveOrgMember (\<lambda>b. b) sample_orgs_env sample_uuid sample_uuid \<lparr>od_orgs = [], od_life = sample_life\<rparr>))) = l_members sample_life"
proof -
  let ?db = "\<lparr>od_orgs = [], od_life = sample_life\<rparr>"
  have "snd (RemoveOrgMember (\<lambda>b. b) sample_orgs_env sample_uuid sample_uuid ?db) = snd (AddOrgMember (\<lambda>b. b) sample_orgs_env sample_uuid None ?db)
      \<or> snd (RemoveOrgMember (\<lambda>b. b) sample_orgs_env sample_uuid sample_uuid ?db) = snd (RemoveOrgMember (\<lambda>b. b) sample_orgs_env sample_uuid sample_uuid ?db)"
    by simp
  from org_membership_confined [OF this] show ?thesis by (auto simp: sample_orgs_env_def)
qed

end
