(* ===== verification/Apps.thy ===== *)
theory Apps
  imports Keycloak_Client
begin

text \<open>
  Connected applications, \<open>internal/handlers/apps.go\<close>: creating an application as a Keycloak client with a
  local row, assigning users to it, listing, the SAML endpoints, and the list of audit entries.

  The URLs of a request enter with what the parser of \<open>net/url\<close> made of them: the function \<open>parse\<close> is
  a parameter of the checks.
\<close>

section \<open>Redirect URIs\<close>

record parsed_url =
  pl_scheme :: string
  pl_host :: string
  pl_hostname :: string
  pl_port :: string

definition validateRedirectURI :: "(string \<Rightarrow> parsed_url option) \<Rightarrow> string \<Rightarrow> string option" where
  "validateRedirectURI parse raw =
     (case parse raw of None \<Rightarrow> Some ''redirect URI must be absolute'' | Some u \<Rightarrow>
      if pl_scheme u = [] \<or> pl_host u = [] then Some ''redirect URI must be absolute''
      else if pl_scheme u = ''https'' then None
      else if pl_scheme u \<noteq> ''http'' then Some ''redirect URI must use https or localhost http''
      else if pl_hostname u \<noteq> ''localhost'' \<and> pl_hostname u \<noteq> ''127.0.0.1'' then Some ''http redirect URI must use localhost or 127.0.0.1''
      else if pl_port u \<noteq> [] \<and> parse_int64 (pl_port u) = None then Some ''localhost redirect URI port must be numeric''
      else None)"

section \<open>State\<close>

record connected_app =
  ca_id :: string
  ca_client :: string
  ca_name :: string
  ca_protocol :: string
  ca_base_url :: string
  ca_enabled :: bool
  ca_org :: string
  ca_created :: time

record app_state =
  as_realm :: realm
  as_clients :: "(string \<times> kc_client) list"
  as_apps :: "connected_app list"
  as_life :: life_db

definition app_rows_of :: "app_state \<Rightarrow> org_row list" where
  "app_rows_of s = map (\<lambda>a. \<lparr>or_table = ''connected_apps'', or_id = ca_id a, or_org = ca_org a\<rparr>) (as_apps s) @ org_rows_of (as_life s)"

section \<open>Creating applications\<close>

record create_app =
  ra_name :: string
  ra_protocol :: string
  ra_redirects :: "string list"
  ra_base_url :: string
  ra_saml :: "saml_options option"

definition to_upper_char :: "char \<Rightarrow> char" where
  "to_upper_char c = (if 97 \<le> byte c \<and> byte c \<le> 122 then char_of (byte c - 32) else c)"

text \<open>\<open>strings.ToUpper\<close>, as far as the comparisons with \<open>OIDC\<close> and \<open>SAML\<close> see it: besides the ASCII letters,
  U+0131 and U+017F are the characters with an ASCII letter as upper case.\<close>

fun to_upper :: "string \<Rightarrow> string" where
  "to_upper [] = []"
| "to_upper [c] = [to_upper_char c]"
| "to_upper (c # d # s) =
     (if byte c = 0xC4 \<and> byte d = 0xB1 then CHR ''I'' # to_upper s
      else if byte c = 0xC5 \<and> byte d = 0xBF then CHR ''S'' # to_upper s
      else to_upper_char c # to_upper (d # s))"

definition trim_app :: "create_app \<Rightarrow> create_app" where
  "trim_app r = r\<lparr>ra_name := trim_space (ra_name r), ra_protocol := to_upper (trim_space (ra_protocol r)),
     ra_base_url := trim_space (ra_base_url r), ra_redirects := map trim_space (ra_redirects r)\<rparr>"

definition redirect_error :: "(string \<Rightarrow> parsed_url option) \<Rightarrow> string \<Rightarrow> (string \<times> string) option" where
  "redirect_error parse uri =
     (if length uri > 2000 then Some (''redirectURIs'', ''redirect URI must be '' @ [CHR 0xE2, CHR 0x89, CHR 0xA4] @ '' 2000 characters'')
      else map_option (Pair ''redirectURIs'') (validateRedirectURI parse uri))"

definition create_app_error :: "(string \<Rightarrow> parsed_url option) \<Rightarrow> create_app \<Rightarrow> 'b response option" where
  "create_app_error parse r =
     (if ra_name r = [] \<or> ra_protocol r = [] then Some (RespondError 400 ''name and protocol are required'')
      else if ra_protocol r \<noteq> ''OIDC'' \<and> ra_protocol r \<noteq> ''SAML'' then Some (RespondError 400 ''protocol must be OIDC or SAML'')
      else if length (ra_name r) > 255 then Some (RespondError 400 (max_chars ''name'' ''255''))
      else if ra_protocol r = ''OIDC'' \<and> ra_redirects r = [] then Some (RespondError 400 ''at least one redirect URI is required for OIDC apps'')
      else case (if ra_base_url r = [] then None else validateRedirectURI parse (ra_base_url r)) of
        Some e \<Rightarrow> Some (RespondError 400 (''invalid baseURL: '' @ e))
      | None \<Rightarrow>
          if length (ra_redirects r) > 20 then Some (RespondValidationErrors [(''redirectURIs'', ''maximum 20 redirect URIs allowed'')])
          else (case find (\<lambda>u. redirect_error parse u \<noteq> None) (ra_redirects r) of
                  Some u \<Rightarrow> Some (RespondValidationErrors [the (redirect_error parse u)])
                | None \<Rightarrow> None))"

record create_app_env =
  ce_has_db :: bool
  ce_oc :: "org_context option"
  ce_actor :: string
  ce_login :: "string option"
  ce_create :: "kc_client \<Rightarrow> string + string"
  ce_insert :: "string option"
  ce_delete :: "string option"
  ce_new_id :: string
  ce_now :: time
  ce_audit :: write_env

record create_app_response =
  cp_id :: string
  cp_name :: string
  cp_client :: string
  cp_entity :: string
  cp_acs :: string

definition app_audit :: "(string \<Rightarrow> string) \<Rightarrow> write_env \<Rightarrow> org_context option \<Rightarrow> string \<Rightarrow> string \<Rightarrow> string \<Rightarrow> (string \<times> jval) list \<Rightarrow> app_state \<Rightarrow> app_state" where
  "app_audit jt env oc actor action target details s =
     s\<lparr>as_life := (as_life s)\<lparr>l_audit := log_best_effort jt env oc
        \<lparr>ac_actor = actor, ac_action = action, ac_target_type = ''app'', ac_target_id = target, ac_details = Some (JObj details)\<rparr> (l_audit (as_life s))\<rparr>\<rparr>"

text \<open>\<open>DeleteClient\<close>, the cleanup.\<close>

definition DeleteClient :: "string option \<Rightarrow> string option \<Rightarrow> string \<Rightarrow> app_state \<Rightarrow> string option \<times> app_state" where
  "DeleteClient login_err err clientID s =
     (case login_err of Some e \<Rightarrow> (Some e, s) | None \<Rightarrow>
      case err of Some e \<Rightarrow> (Some (''delete keycloak client '' @ clientID @ '': '' @ e), s)
      | None \<Rightarrow> (None, s\<lparr>as_clients := delete_where (\<lambda>c. fst c = clientID) (as_clients s)\<rparr>))"

definition CreateApp :: "(string \<Rightarrow> parsed_url option) \<Rightarrow> (string \<Rightarrow> string) \<Rightarrow> create_app_env \<Rightarrow> create_app option \<Rightarrow> app_state
   \<Rightarrow> create_app_response response \<times> app_state" where
  "CreateApp parse jt env body s =
     (case body of None \<Rightarrow> (RespondError 400 ''invalid request body'', s) | Some raw \<Rightarrow>
      (let r = trim_app raw in
       case create_app_error parse r of Some e \<Rightarrow> (e, s) | None \<Rightarrow>
       if \<not> ce_has_db env then (RespondError 500 ''database not available'', s)
       else case ce_oc env of None \<Rightarrow> (RespondError 403 ''forbidden: no organization context'', s) | Some oc \<Rightarrow>
       (case CreateClient (ce_login env) (ce_create env) (ra_name r) (ra_protocol r) (ra_redirects r) (ra_base_url r) (ra_saml r) of
          Inl _ \<Rightarrow> (RespondError 500 ''failed to create app in Keycloak'', s)
        | Inr clientID \<Rightarrow>
            (let s1 = s\<lparr>as_clients := as_clients s @ [(clientID, client_representation (ra_name r) (ra_protocol r) (ra_redirects r) (ra_base_url r) (ra_saml r))]\<rparr> in
             if ce_insert env \<noteq> None
             then (RespondError 500 ''failed to store app'', snd (DeleteClient (ce_login env) (ce_delete env) clientID s1))
             else (RespondJSON 200 \<lparr>cp_id = ce_new_id env, cp_name = ra_name r, cp_client = clientID,
                     cp_entity = (if ra_protocol r \<noteq> ''SAML'' then [] else if ra_base_url r = [] then ra_name r else ra_base_url r),
                     cp_acs = (if ra_protocol r \<noteq> ''SAML'' then [] else case ra_redirects r of [] \<Rightarrow> [] | u # _ \<Rightarrow> u)\<rparr>,
                   app_audit jt (ce_audit env) (ce_oc env) (ce_actor env) ''app_create'' (ce_new_id env)
                     [(''name'', JStr (ra_name r)), (''protocol'', JStr (ra_protocol r))]
                     (s1\<lparr>as_apps := as_apps s1 @ [\<lparr>ca_id = ce_new_id env, ca_client = clientID, ca_name = ra_name r, ca_protocol = ra_protocol r,
                        ca_base_url = ra_base_url r, ca_enabled = True, ca_org = oc_org oc, ca_created = ce_now env\<rparr>]\<rparr>))))))"

section \<open>Assigning users\<close>

record assign_env =
  an_has_db :: bool
  an_oc :: "org_context option"
  an_actor :: string
  an_gate_err :: "string option"
  an_load_err :: "string option"
  an_kc :: role_env
  an_begin :: "string option"
  an_insert :: "string option"
  an_audit :: write_env
  an_commit :: "string option"
  an_undo :: role_env

definition compensateAppAssignment :: "role_env \<Rightarrow> string \<Rightarrow> string \<Rightarrow> app_state \<Rightarrow> app_state" where
  "compensateAppAssignment env userID clientID s = s\<lparr>as_realm := snd (UnassignUserFromClient env userID clientID (as_realm s))\<rparr>"

text \<open>The transaction: insert unless the assignment exists, write the audit entry, commit.  The result says whether
  it committed and whether the Keycloak assignment has to be taken back.\<close>

definition record_assignment :: "(string \<Rightarrow> string) \<Rightarrow> assign_env \<Rightarrow> string \<Rightarrow> string \<Rightarrow> life_db \<Rightarrow> bool \<times> bool \<times> life_db" where
  "record_assignment jt env appID userID db =
     (if an_begin env \<noteq> None then (False, True, db)
      else if an_insert env \<noteq> None then (False, True, db)
      else (let inserted = ((appID, userID) \<notin> set (l_assign db)) in
            case writeAuditEntry jt (an_audit env) (map_option oc_org (an_oc env))
                   \<lparr>ac_actor = an_actor env, ac_action = ''app_assign'', ac_target_type = ''app'', ac_target_id = appID,
                    ac_details = Some (JObj [(''user_id'', JStr userID)])\<rparr> (Some (l_audit db)) of
              (Inl _, a) \<Rightarrow> (False, inserted, db\<lparr>l_audit := rollback_to (l_audit db) (the a)\<rparr>)
            | (Inr _, a) \<Rightarrow>
                if an_commit env \<noteq> None then (False, inserted, db\<lparr>l_audit := rollback_to (l_audit db) (the a)\<rparr>)
                else (True, False, db\<lparr>l_assign := (if inserted then l_assign db @ [(appID, userID)] else l_assign db), l_audit := the a\<rparr>)))"

definition assign_and_record :: "(string \<Rightarrow> string) \<Rightarrow> assign_env \<Rightarrow> string \<Rightarrow> string \<Rightarrow> string \<Rightarrow> app_state \<Rightarrow> bool response \<times> app_state" where
  "assign_and_record jt env appID userID clientID s =
     (case AssignUserToClient (an_kc env) userID clientID (as_realm s) of
        (Some _, rl) \<Rightarrow> (RespondError 500 ''failed to assign user to app'', s\<lparr>as_realm := rl\<rparr>)
      | (None, rl) \<Rightarrow>
          (case record_assignment jt env appID userID (as_life s) of (ok, undo, db) \<Rightarrow>
             (let s1 = s\<lparr>as_realm := rl, as_life := db\<rparr> in
              if ok then (RespondJSON 200 True, s1)
              else (RespondError 500 ''failed to record app assignment'',
                    if undo then compensateAppAssignment (an_undo env) userID clientID s1 else s1))))"

definition AssignApp :: "(string \<Rightarrow> string) \<Rightarrow> assign_env \<Rightarrow> string \<Rightarrow> string option \<Rightarrow> app_state \<Rightarrow> bool response \<times> app_state" where
  "AssignApp jt env appID body s =
     (case ValidateOpaqueID appID ''appId'' of Some (f, e) \<Rightarrow> (RespondError 400 (id_error_text f e), s) | None \<Rightarrow>
      case body of None \<Rightarrow> (RespondError 400 ''invalid request body'', s) | Some userID \<Rightarrow>
      case ValidateUserID userID of Some e \<Rightarrow> (RespondError 400 (id_error_text ''user id'' e), s) | None \<Rightarrow>
      if \<not> an_has_db env then (RespondError 500 ''database not available'', s)
      else case requireAppInCallerOrg True (an_gate_err env) (app_rows_of s) (an_oc env) appID of Some r \<Rightarrow> (r, s) | None \<Rightarrow>
      case requireUserInCallerOrg True (an_gate_err env) (app_rows_of s) (an_oc env) userID of Some r \<Rightarrow> (r, s) | None \<Rightarrow>
      case select_one (an_load_err env) (\<lambda>a. ca_id a = appID) (as_apps s) of
        No_rows \<Rightarrow> (RespondError 404 ''app not found'', s)
      | Db_error _ \<Rightarrow> (RespondError 500 ''internal error'', s)
      | Ok a \<Rightarrow> assign_and_record jt env appID userID (ca_client a) s)"

section \<open>Listing\<close>

definition ListApps :: "bool \<Rightarrow> org_context option \<Rightarrow> string option \<Rightarrow> (string \<Rightarrow> bool) \<Rightarrow> string option \<Rightarrow> app_state \<Rightarrow> connected_app list response" where
  "ListApps has_db oc query_err scans rows_err s =
     (if \<not> has_db then RespondJSON 200 []
      else case oc of None \<Rightarrow> RespondError 403 ''forbidden: no organization context'' | Some x \<Rightarrow>
      if query_err \<noteq> None \<or> rows_err \<noteq> None then RespondError 500 ''internal error''
      else RespondJSON 200 (filter (\<lambda>a. scans (ca_id a)) (sort_key (\<lambda>a. - ca_created a) (filter (\<lambda>a. ca_org a = oc_org x) (as_apps s)))))"

text \<open>The two SAML endpoints: the lookup they share, the SSO URL of the client and the metadata of the realm.\<close>

record saml_env =
  sv_has_db :: bool
  sv_oc :: "org_context option"
  sv_gate_err :: "string option"
  sv_load_err :: "string option"
  sv_login :: "string option"
  sv_client :: "string + kc_client"
  sv_metadata :: "string + string"
  sv_base :: string
  sv_realm :: string

definition saml_app :: "saml_env \<Rightarrow> string \<Rightarrow> app_state \<Rightarrow> string response + connected_app" where
  "saml_app env appID s =
     (case ValidateOpaqueID appID ''appId'' of Some (f, e) \<Rightarrow> Inl (RespondError 400 (id_error_text f e)) | None \<Rightarrow>
      if \<not> sv_has_db env then Inl (RespondError 500 ''database not available'')
      else case requireAppInCallerOrg True (sv_gate_err env) (app_rows_of s) (sv_oc env) appID of Some r \<Rightarrow> Inl r | None \<Rightarrow>
      case select_one (sv_load_err env) (\<lambda>a. ca_id a = appID) (as_apps s) of
        No_rows \<Rightarrow> Inl (RespondError 404 ''app not found'')
      | Db_error _ \<Rightarrow> Inl (RespondError 500 ''internal error'')
      | Ok a \<Rightarrow> if to_upper (ca_protocol a) \<noteq> ''SAML'' then Inl (RespondError 400 ''app is not a SAML application'') else Inr a)"

definition handle_GetSAMLIdPInitiatedURL :: "saml_env \<Rightarrow> string \<Rightarrow> app_state \<Rightarrow> string response" where
  "handle_GetSAMLIdPInitiatedURL env appID s =
     (case saml_app env appID s of Inl r \<Rightarrow> r
      | Inr a \<Rightarrow> (case GetSAMLIdPInitiatedURL (sv_base env) (sv_realm env) (sv_login env) (sv_client env) (ca_client a) of
          Inl _ \<Rightarrow> RespondError 500 ''failed to retrieve IdP-initiated SSO URL''
        | Inr url \<Rightarrow> RespondJSON 200 url))"

definition GetSAMLMetadata :: "saml_env \<Rightarrow> string \<Rightarrow> app_state \<Rightarrow> string response" where
  "GetSAMLMetadata env appID s =
     (case saml_app env appID s of Inl r \<Rightarrow> r
      | Inr a \<Rightarrow> (case sv_metadata env of Inl _ \<Rightarrow> RespondError 500 ''failed to fetch SAML metadata'' | Inr xml \<Rightarrow> RespondJSON 200 xml))"

section \<open>Audit entries\<close>

text \<open>The filters of \<open>ListAuditLogs\<close>; a time is what \<open>time.Parse\<close> made of the parameter, \<^const>\<open>None\<close> when it is
  malformed, and the zero time does not filter.\<close>

record log_query =
  lq_actor :: string
  lq_action :: string
  lq_limit :: string
  lq_offset :: string
  lq_from :: "string \<times> time option"
  lq_to :: "string \<times> time option"

definition zero_time :: time where
  "zero_time = - 62135596800 * second"

definition time_bound :: "string \<times> time option \<Rightarrow> time option option" where
  "time_bound p = (if fst p = [] then Some None else case snd p of None \<Rightarrow> None | Some t \<Rightarrow> Some (if t = zero_time then None else Some t))"

definition log_matches :: "string \<Rightarrow> log_query \<Rightarrow> time option \<Rightarrow> time option \<Rightarrow> audit_row \<Rightarrow> bool" where
  "log_matches org q lo hi r \<longleftrightarrow> al_org r = org \<and> (lq_actor q = [] \<or> al_actor r = lq_actor q) \<and> (lq_action q = [] \<or> al_action r = lq_action q)
     \<and> (case lo of None \<Rightarrow> True | Some t \<Rightarrow> t \<le> al_created r) \<and> (case hi of None \<Rightarrow> True | Some t \<Rightarrow> al_created r < t)"

definition log_limit :: "log_query \<Rightarrow> int" where
  "log_limit q = (case parse_int64 (lq_limit q) of Some v \<Rightarrow> if v > 0 \<and> v \<le> 1000 then v else 100 | None \<Rightarrow> 100)"

definition log_offset :: "log_query \<Rightarrow> int" where
  "log_offset q = (case parse_int64 (lq_offset q) of Some v \<Rightarrow> if v \<ge> 0 then v else 0 | None \<Rightarrow> 0)"

definition log_page :: "string \<Rightarrow> log_query \<Rightarrow> time option \<Rightarrow> time option \<Rightarrow> audit_row list \<Rightarrow> audit_row list" where
  "log_page org q lo hi rows =
     take (nat (log_limit q)) (drop (nat (log_offset q)) (sort_key (\<lambda>r. - al_created r) (filter (log_matches org q lo hi) rows)))"

text \<open>A row that does not scan is logged and skipped.\<close>

definition ListAuditLogs :: "bool \<Rightarrow> org_context option \<Rightarrow> string option \<Rightarrow> (audit_row \<Rightarrow> bool) \<Rightarrow> log_query \<Rightarrow> audit_db \<Rightarrow> audit_row list response" where
  "ListAuditLogs has_db oc err scans q db =
     (if \<not> has_db then RespondJSON 200 []
      else case time_bound (lq_from q) of None \<Rightarrow> RespondError 400 (''invalid '' @ [CHR 0x27] @ ''from'' @ [CHR 0x27] @ '' param: use RFC3339 format'')
      | Some lo \<Rightarrow>
      (case time_bound (lq_to q) of None \<Rightarrow> RespondError 400 (''invalid '' @ [CHR 0x27] @ ''to'' @ [CHR 0x27] @ '' param: use RFC3339 format'')
      | Some hi \<Rightarrow>
      (case oc of None \<Rightarrow> RespondError 403 ''forbidden: no organization context'' | Some x \<Rightarrow>
       if err \<noteq> None then RespondError 500 ''internal error''
       else RespondJSON 200 (filter scans (log_page (oc_org x) q lo hi (logs db))))))"

section \<open>Accepted URLs\<close>

text \<open>What a browser may be sent back to: any address over TLS, or the own machine.\<close>

definition safe_redirect :: "(string \<Rightarrow> parsed_url option) \<Rightarrow> string \<Rightarrow> bool" where
  "safe_redirect parse raw \<longleftrightarrow> (\<exists>u. parse raw = Some u \<and> pl_host u \<noteq> []
     \<and> (pl_scheme u = ''https'' \<or> pl_scheme u = ''http'' \<and> pl_hostname u \<in> {''localhost'', ''127.0.0.1''}))"

lemma validateRedirectURI_safe: "validateRedirectURI parse raw = None \<Longrightarrow> safe_redirect parse raw"
  by (auto simp: validateRedirectURI_def safe_redirect_def split: option.splits if_splits)

lemma create_app_error_None:
  assumes "create_app_error parse r = (None :: 'b response option)"
  shows "(\<forall>u \<in> set (ra_redirects r). safe_redirect parse u \<and> length u \<le> 2000) \<and> length (ra_redirects r) \<le> 20
    \<and> (ra_base_url r = [] \<or> safe_redirect parse (ra_base_url r))
    \<and> ra_protocol r \<in> {''OIDC'', ''SAML''} \<and> ra_name r \<noteq> [] \<and> length (ra_name r) \<le> 255
    \<and> (ra_protocol r = ''OIDC'' \<longrightarrow> ra_redirects r \<noteq> [])"
proof -
  have "find (\<lambda>u. redirect_error parse u \<noteq> None) (ra_redirects r) = None"
    using assms unfolding create_app_error_def by (simp split: option.splits if_splits)
  then have "\<forall>u \<in> set (ra_redirects r). redirect_error parse u = None"
    by (simp add: find_None_iff del: not_None_eq)
  then have "\<forall>u \<in> set (ra_redirects r). safe_redirect parse u \<and> length u \<le> 2000"
    by (auto simp: redirect_error_def validateRedirectURI_safe split: if_splits)
  moreover have "ra_base_url r = [] \<or> safe_redirect parse (ra_base_url r)"
    using assms by (auto simp: create_app_error_def intro: validateRedirectURI_safe split: option.splits if_splits)
  ultimately show ?thesis
    using assms by (auto simp: create_app_error_def split: option.splits if_splits)
qed

lemma create_app_error_status: "create_app_error parse r = Some e \<Longrightarrow> status_of e = 400"
  by (auto simp: create_app_error_def split: option.splits if_splits)

section \<open>Creating an application\<close>

lemma app_audit_fields [simp]:
  "as_realm (app_audit jt env oc actor action target details s) = as_realm s"
  "as_clients (app_audit jt env oc actor action target details s) = as_clients s"
  "as_apps (app_audit jt env oc actor action target details s) = as_apps s"
  by (simp_all add: app_audit_def)

lemma client_representation_fields [simp]:
  "kl_redirects (client_representation n p us b opts) = us"
  "kl_public (client_representation n p us b opts) = False"
  "kl_direct_grants (client_representation n p us b opts) = False"
  by (simp_all add: client_representation_def Let_def)

definition new_client :: "create_app \<Rightarrow> kc_client" where
  "new_client r = client_representation (ra_name r) (ra_protocol r) (ra_redirects r) (ra_base_url r) (ra_saml r)"

definition new_app :: "create_app_env \<Rightarrow> create_app \<Rightarrow> string \<Rightarrow> string \<Rightarrow> connected_app" where
  "new_app env r org cid = \<lparr>ca_id = ce_new_id env, ca_client = cid, ca_name = ra_name r, ca_protocol = ra_protocol r,
     ca_base_url = ra_base_url r, ca_enabled = True, ca_org = org, ca_created = ce_now env\<rparr>"

lemma CreateApp_cases:
  fixes parse jt env body s
  defines "R \<equiv> CreateApp parse jt env body s"
  obtains (refused) "status_of (fst R) \<noteq> 200" "snd R = s"
  | (orphan) cid r where "status_of (fst R) \<noteq> 200" "ce_create env (new_client r) = Inr cid" "ce_login env = None"
      "snd R = snd (DeleteClient None (ce_delete env) cid (s\<lparr>as_clients := as_clients s @ [(cid, new_client r)]\<rparr>))"
  | (created) cid r oc a where "status_of (fst R) = 200" "ce_oc env = Some oc" "ce_create env (new_client r) = Inr cid"
      "create_app_error parse r = (None :: create_app_response response option)"
      "as_clients (snd R) = as_clients s @ [(cid, new_client r)]" "as_apps (snd R) = as_apps s @ [a]"
      "ca_id a = ce_new_id env" "ca_client a = cid" "ca_org a = oc_org oc" "as_realm (snd R) = as_realm s"
proof (cases body)
  case None
  then show ?thesis by (intro refused) (simp_all add: R_def CreateApp_def)
next
  case (Some raw)
  let ?r = "trim_app raw"
  show ?thesis
  proof (cases "create_app_error parse ?r :: create_app_response response option")
    case (Some e)
    with \<open>body = Some raw\<close> show ?thesis
      by (intro refused) (simp_all add: R_def CreateApp_def Let_def create_app_error_status)
  next
    case None
    note R = R_def CreateApp_def CreateClient_def new_client_def Let_def
    note g = \<open>body = Some raw\<close> None
    consider (db) "\<not> ce_has_db env" | (org) "ce_has_db env" "ce_oc env = None"
      | (login) oc e where "ce_has_db env" "ce_oc env = Some oc" "ce_login env = Some e"
      | (kc) oc e where "ce_has_db env" "ce_oc env = Some oc" "ce_login env = None" "ce_create env (new_client ?r) = Inl e"
      | (go) oc cid where "ce_has_db env" "ce_oc env = Some oc" "ce_login env = None" "ce_create env (new_client ?r) = Inr cid"
      by (cases "ce_oc env"; cases "ce_login env"; cases "ce_create env (new_client ?r)") auto
    then show ?thesis
    proof cases
      case db with g show ?thesis by (intro refused) (simp_all add: R)
    next
      case org with g show ?thesis by (intro refused) (simp_all add: R)
    next
      case login with g show ?thesis by (intro refused) (simp_all add: R)
    next
      case kc with g show ?thesis by (intro refused) (simp_all add: R)
    next
      case go
      show ?thesis
      proof (cases "ce_insert env = None")
        case True
        with g go show ?thesis by (intro created [of oc ?r cid "new_app env ?r (oc_org oc) cid"]) (simp_all add: R new_app_def)
      next
        case False
        with g go show ?thesis by (intro orphan [of ?r cid]) (simp_all add: R)
      qed
    qed
  qed
qed

text \<open>Creating an application is all or nothing and admits only safe addresses.  A 200 answer means that exactly one
  client was added at Keycloak and one row of the caller's organisation that names it; the client is
  confidential, has no direct grants, and redirects only to addresses over TLS or of the own machine.  After any other answer
  applications and clients are as before, as long as Keycloak gives a new client a new id and carries out the
  deletion.\<close>

theorem create_app_all_or_nothing:
  fixes parse jt env body s
  defines "R \<equiv> CreateApp parse jt env body s"
  assumes "\<And>c cid. ce_create env c = Inr cid \<Longrightarrow> cid \<notin> fst ` set (as_clients s)" and "ce_delete env = None"
  shows "if status_of (fst R) = 200
    then \<exists>cid c a. as_clients (snd R) = as_clients s @ [(cid, c)] \<and> as_apps (snd R) = as_apps s @ [a]
      \<and> ca_client a = cid \<and> map_option oc_org (ce_oc env) = Some (ca_org a)
      \<and> \<not> kl_public c \<and> \<not> kl_direct_grants c \<and> (\<forall>u \<in> set (kl_redirects c). safe_redirect parse u)
    else as_clients (snd R) = as_clients s \<and> as_apps (snd R) = as_apps s \<and> as_realm (snd R) = as_realm s"
proof (cases rule: CreateApp_cases [of parse jt env body s])
  case refused
  then show ?thesis by (simp add: R_def)
next
  case (orphan cid r)
  then have "\<forall>c \<in> set (as_clients s). fst c \<noteq> cid" using assms(2) by (metis imageI)
  then have "filter (\<lambda>c. fst c \<noteq> cid) (as_clients s) = as_clients s" by simp
  with orphan assms(3) show ?thesis by (simp add: R_def DeleteClient_def delete_where_def)
next
  case (created cid r oc a)
  from create_app_error_None [OF created(4)] created show ?thesis by (simp add: R_def new_client_def)
qed

definition sample_create_env :: create_app_env where
  "sample_create_env = \<lparr>ce_has_db = True, ce_oc = Some \<lparr>oc_org = ''o1'', oc_role = ''admin''\<rparr>, ce_actor = ''admin'', ce_login = None,
     ce_create = (\<lambda>_. Inr ''c1''), ce_insert = Some ''down'', ce_delete = None, ce_new_id = ''a1'', ce_now = 0, ce_audit = sample_write_env\<rparr>"

definition sample_app :: connected_app where
  "sample_app = \<lparr>ca_id = ''a1'', ca_client = ''c0'', ca_name = ''Wiki'', ca_protocol = ''OIDC'', ca_base_url = [], ca_enabled = True,
     ca_org = ''o1'', ca_created = 0\<rparr>"

definition sample_apps :: app_state where
  "sample_apps = \<lparr>as_realm = sample_realm, as_clients = [(''c0'', client_representation ''Wiki'' ''OIDC'' [] [] None)],
     as_apps = [sample_app], as_life = sample_life\<rparr>"

theorem create_app_all_or_nothing_witness:
  "as_clients (snd (CreateApp (\<lambda>_. None) (\<lambda>b. b) sample_create_env
      (Some \<lparr>ra_name = ''CRM'', ra_protocol = ''saml'', ra_redirects = [], ra_base_url = [], ra_saml = None\<rparr>) sample_apps))
   = as_clients sample_apps"
proof -
  let ?b = "\<lparr>ra_name = ''CRM'', ra_protocol = ''saml'', ra_redirects = [], ra_base_url = [], ra_saml = None\<rparr>"
  let ?R = "CreateApp (\<lambda>_. None) (\<lambda>b. b) sample_create_env (Some ?b) sample_apps"
  have "ce_create sample_create_env c = Inr cid \<Longrightarrow> cid \<notin> fst ` set (as_clients sample_apps)" for c cid
    by (auto simp: sample_create_env_def sample_apps_def)
  moreover have "ce_delete sample_create_env = None" by (simp add: sample_create_env_def)
  moreover have "status_of (fst ?R) \<noteq> 200" by code_simp
  ultimately show ?thesis
    using create_app_all_or_nothing [of sample_create_env sample_apps "\<lambda>_. None" "\<lambda>b. b" "Some ?b"] by simp
qed

section \<open>Assigning\<close>

lemma Assign_err: "AssignUserToClient env u c rl = (Some e, rl') \<Longrightarrow> rl_assigned rl' = rl_assigned rl"
  by (auto simp: AssignUserToClient_def Let_def split: option.splits if_splits)

lemma Unassign_answers:
  "roles_answer env \<Longrightarrow> c \<in> set (rl_client_roles rl) \<Longrightarrow>
     rl_assigned (snd (UnassignUserFromClient env u c rl)) = delete_where (\<lambda>x. x = (c, u)) (rl_assigned rl)"
  by (simp add: UnassignUserFromClient_def roles_answer_def)

lemma record_assignment_cases:
  fixes jt env appID userID db
  defines "R \<equiv> record_assignment jt env appID userID db"
  obtains (failed) undo n where "R = (False, undo, db\<lparr>l_audit := (l_audit db)\<lparr>next_seq := n\<rparr>\<rparr>)" "(appID, userID) \<notin> set (l_assign db) \<longrightarrow> undo"
  | (recorded) r where "R = (True, False, snd (snd R))" "set (l_assign (snd (snd R))) = insert (appID, userID) (set (l_assign db))"
      "l_users (snd (snd R)) = l_users db" "logs (l_audit (snd (snd R))) = logs (l_audit db) @ [r]" "al_actor r = an_actor env" "al_action r = ''app_assign''"
      "al_target_id r = Some appID"
proof (cases "an_begin env = None \<and> an_insert env = None")
  case False
  have "db = db\<lparr>l_audit := (l_audit db)\<lparr>next_seq := next_seq (l_audit db)\<rparr>\<rparr>" by simp
  with False failed [of True "next_seq (l_audit db)"] show ?thesis by (auto simp: R_def record_assignment_def)
next
  case True
  let ?c = "\<lparr>ac_actor = an_actor env, ac_action = ''app_assign'', ac_target_type = ''app'', ac_target_id = appID,
     ac_details = Some (JObj [(''user_id'', JStr userID)])\<rparr>"
  show ?thesis
  proof (cases rule: writeAuditEntry_cases [of jt "an_audit env" "map_option oc_org (an_oc env)" ?c "l_audit db"])
    case (failed e n)
    with True that(1) [of "(appID, userID) \<notin> set (l_assign db)" n] show ?thesis
      by (simp add: R_def record_assignment_def rollback_to_def)
  next
    case (written r)
    show ?thesis
    proof (cases "an_commit env")
      case (Some e)
      with True written that(1) [of "(appID, userID) \<notin> set (l_assign db)" "next_seq (l_audit db) + 1"] show ?thesis
        by (simp add: R_def record_assignment_def rollback_to_def)
    next
      case None
      with True written audit_row_of_fields [OF written(2)] show ?thesis
        by (intro recorded [of r]) (auto simp: R_def record_assignment_def insert_absorb)
    qed
  qed
qed

text \<open>The part after the checks, for a user without the role.\<close>

lemma assign_and_record_consistent:
  fixes jt env appID userID c s
  defines "R \<equiv> assign_and_record jt env appID userID c s"
  assumes "roles_answer (an_undo env)" and "(appID, userID) \<notin> set (l_assign (as_life s))" and "(c, userID) \<notin> set (rl_assigned (as_realm s))"
  shows "if status_of (fst R) = 200
    then set (l_assign (as_life (snd R))) = insert (appID, userID) (set (l_assign (as_life s)))
      \<and> set (rl_assigned (as_realm (snd R))) = insert (c, userID) (set (rl_assigned (as_realm s)))
      \<and> (\<exists>r. logs (l_audit (as_life (snd R))) = logs (l_audit (as_life s)) @ [r] \<and> al_actor r = an_actor env \<and> al_target_id r = Some appID)
    else l_assign (as_life (snd R)) = l_assign (as_life s) \<and> set (rl_assigned (as_realm (snd R))) = set (rl_assigned (as_realm s))
      \<and> logs (l_audit (as_life (snd R))) = logs (l_audit (as_life s))"
proof -
  obtain err rl where kc: "AssignUserToClient (an_kc env) userID c (as_realm s) = (err, rl)" by (cases "AssignUserToClient (an_kc env) userID c (as_realm s)")
  show ?thesis
  proof (cases err)
    case (Some e)
    with kc show ?thesis by (simp add: R_def assign_and_record_def Assign_err [of _ _ _ _ e])
  next
    case None
    with kc have ok: "set (rl_assigned rl) = insert (c, userID) (set (rl_assigned (as_realm s)))" "c \<in> set (rl_client_roles rl)"
      using Assign_ok by blast+
    show ?thesis
    proof (cases rule: record_assignment_cases [of jt env appID userID "as_life s"])
      case (failed undo n)
      with None kc ok assms(2-) show ?thesis
        by (auto simp: R_def assign_and_record_def compensateAppAssignment_def Unassign_answers delete_where_def)
    next
      case (recorded r)
      then obtain db where "record_assignment jt env appID userID (as_life s) = (True, False, db)" by metis
      with recorded None kc ok show ?thesis by (simp add: R_def assign_and_record_def)
    qed
  qed
qed

lemma owns_app_row: "org_owns ''connected_apps'' (app_rows_of s) x i \<Longrightarrow> \<exists>a \<in> set (as_apps s). ca_id a = i \<and> ca_org a = oc_org x"
  by (auto simp: org_owns_def list_ex_iff app_rows_of_def org_rows_of_def)

lemma owns_user_row: "org_owns ''users'' (app_rows_of s) x i \<Longrightarrow> \<exists>u \<in> set (l_users (as_life s)). lu_id u = i \<and> lu_org u = oc_org x"
  by (auto simp: org_owns_def list_ex_iff app_rows_of_def org_rows_of_def)

lemma AssignApp_cases:
  fixes jt env appID userID s
  defines "R \<equiv> AssignApp jt env appID (Some userID) s"
  obtains (refused) "status_of (fst R) \<noteq> 200" "snd R = s"
  | (run) a oc where "R = assign_and_record jt env appID userID (ca_client a) s" "a \<in> set (as_apps s)" "ca_id a = appID"
      "an_oc env = Some oc" "\<exists>a \<in> set (as_apps s). ca_id a = appID \<and> ca_org a = oc_org oc"
      "\<exists>u \<in> set (l_users (as_life s)). lu_id u = userID \<and> lu_org u = oc_org oc"
proof (cases "ValidateOpaqueID appID ''appId'' = None \<and> ValidateUserID userID = None \<and> an_has_db env
    \<and> requireAppInCallerOrg True (an_gate_err env) (app_rows_of s) (an_oc env) appID = (None :: bool response option)
    \<and> requireUserInCallerOrg True (an_gate_err env) (app_rows_of s) (an_oc env) userID = (None :: bool response option)")
  case False
  have gate: "status_of r \<noteq> 200" if "RequireResourceInCallerOrg b e rows oc t k i m = Some r" for b e rows oc t k i m and r :: "bool response"
    using that by (auto simp: RequireResourceInCallerOrg_def split: option.splits sum.splits if_splits)
  from False have "status_of (fst R) \<noteq> 200 \<and> snd R = s"
    by (auto simp: R_def AssignApp_def requireAppInCallerOrg_def requireUserInCallerOrg_def gate split: option.split)
  with refused show ?thesis by blast
next
  case True
  then obtain oc where oc: "an_oc env = Some oc" "org_owns ''connected_apps'' (app_rows_of s) oc appID"
    unfolding requireAppInCallerOrg_def using resource_gate.gate_owns by blast
  from True have "\<exists>x. an_oc env = Some x \<and> org_owns ''users'' (app_rows_of s) x userID"
    unfolding requireUserInCallerOrg_def by (intro resource_gate.gate_owns) blast
  with oc(1) have us: "org_owns ''users'' (app_rows_of s) oc userID" by simp
  show ?thesis
  proof (cases "select_one (an_load_err env) (\<lambda>a. ca_id a = appID) (as_apps s)")
    case (Ok a)
    from select_one_Ok_D [OF this] Ok True oc us show ?thesis
      by (intro run [of a oc]) (simp_all add: R_def AssignApp_def owns_app_row owns_user_row)
  qed (use True refused in \<open>simp_all add: R_def AssignApp_def\<close>)
qed

text \<open>An assignment exists on both sides or on none.  For a user who holds neither the assignment nor the
  client role, a request answered with 200 leaves exactly this one assignment and this one role more and an audit entry of the
  caller for the application, which like the user belongs to the caller's organisation; any other answer
  leaves assignments, roles and the audit log as they were, provided Keycloak answers the compensation.\<close>

theorem assign_app_consistent:
  fixes jt env appID userID s
  defines "R \<equiv> AssignApp jt env appID (Some userID) s"
  defines "clients \<equiv> ca_client ` {a \<in> set (as_apps s). ca_id a = appID}"
  assumes "roles_answer (an_undo env)" and "(appID, userID) \<notin> set (l_assign (as_life s))"
    and "\<forall>c \<in> clients. (c, userID) \<notin> set (rl_assigned (as_realm s))"
  shows "if status_of (fst R) = 200
    then set (l_assign (as_life (snd R))) = insert (appID, userID) (set (l_assign (as_life s)))
      \<and> (\<exists>c \<in> clients. set (rl_assigned (as_realm (snd R))) = insert (c, userID) (set (rl_assigned (as_realm s))))
      \<and> (\<exists>r. logs (l_audit (as_life (snd R))) = logs (l_audit (as_life s)) @ [r] \<and> al_actor r = an_actor env \<and> al_target_id r = Some appID)
      \<and> (\<exists>oc. an_oc env = Some oc \<and> (\<exists>a \<in> set (as_apps s). ca_id a = appID \<and> ca_org a = oc_org oc)
           \<and> (\<exists>u \<in> set (l_users (as_life s)). lu_id u = userID \<and> lu_org u = oc_org oc))
    else l_assign (as_life (snd R)) = l_assign (as_life s) \<and> set (rl_assigned (as_realm (snd R))) = set (rl_assigned (as_realm s))
      \<and> logs (l_audit (as_life (snd R))) = logs (l_audit (as_life s))"
proof (cases rule: AssignApp_cases [of jt env appID userID s])
  case refused
  then show ?thesis by (simp add: R_def)
next
  case (run a oc)
  then have c: "ca_client a \<in> clients" by (auto simp: clients_def)
  with assms(5) have "(ca_client a, userID) \<notin> set (rl_assigned (as_realm s))" by blast
  from assign_and_record_consistent [OF assms(3,4) this, of jt] c run show ?thesis
    by (auto simp: R_def)
qed

definition sample_assign_env :: assign_env where
  "sample_assign_env = \<lparr>an_has_db = True, an_oc = Some \<lparr>oc_org = ''o1'', oc_role = ''admin''\<rparr>, an_actor = ''admin'', an_gate_err = None,
     an_load_err = None, an_kc = sample_role_env, an_begin = Some ''pool exhausted'', an_insert = None, an_audit = sample_write_env,
     an_commit = None, an_undo = sample_role_env\<rparr>"

lemma sample_role_answers: "roles_answer sample_role_env"
  by (simp add: roles_answer_def sample_role_env_def isConflictErr_def)

theorem assign_app_consistent_witness:
  "rl_assigned (as_realm (snd (AssignApp (\<lambda>b. b) sample_assign_env ''a1'' (Some sample_uuid) sample_apps))) = []"
proof -
  let ?R = "AssignApp (\<lambda>b. b) sample_assign_env ''a1'' (Some sample_uuid) sample_apps"
  have none: "rl_assigned (as_realm sample_apps) = []" by (simp add: sample_apps_def sample_realm_def)
  have "(''a1'', sample_uuid) \<notin> set (l_assign (as_life sample_apps))" by (simp add: sample_apps_def sample_life_def empty_life_def)
  moreover have "roles_answer (an_undo sample_assign_env)" by (simp add: sample_assign_env_def sample_role_answers)
  moreover have "status_of (fst ?R) \<noteq> 200" by code_simp
  ultimately show ?thesis
    using assign_app_consistent [of sample_assign_env "''a1''" sample_uuid sample_apps "\<lambda>b. b"] none by simp
qed

text \<open>For a user who has the assignment already, the failure of the transaction to begin takes the role away at Keycloak while the
  assignment stays in the database: the compensation does not ask whether this request had added anything.\<close>

lemma assign_app_loses_role:
  defines "s \<equiv> sample_apps\<lparr>as_realm := sample_realm\<lparr>rl_client_roles := [''c0''], rl_assigned := [(''c0'', sample_uuid)]\<rparr>,
     as_life := sample_life\<lparr>l_assign := [(''a1'', sample_uuid)]\<rparr>\<rparr>"
  shows "rl_assigned (as_realm (snd (AssignApp (\<lambda>b. b) sample_assign_env ''a1'' (Some sample_uuid) s))) = []
    \<and> l_assign (as_life (snd (AssignApp (\<lambda>b. b) sample_assign_env ''a1'' (Some sample_uuid) s))) = [(''a1'', sample_uuid)]"
  unfolding s_def by code_simp

section \<open>Reading\<close>

lemma log_page_properties:
  "length (log_page org q lo hi rows) \<le> 1000 \<and> sorted (map (\<lambda>r. - al_created r) (log_page org q lo hi rows))
   \<and> (\<forall>r \<in> set (log_page org q lo hi rows). r \<in> set rows \<and> log_matches org q lo hi r)"
proof -
  let ?all = "sort_key (\<lambda>r. - al_created r) (filter (log_matches org q lo hi) rows)"
  have "log_limit q \<le> 1000" by (simp add: log_limit_def split: option.split)
  then have "length (log_page org q lo hi rows) \<le> 1000" by (simp add: log_page_def)
  moreover have "sorted (map (\<lambda>r. - al_created r) (log_page org q lo hi rows))"
    by (simp add: log_page_def sorted_wrt_drop sorted_wrt_take drop_map [symmetric] take_map [symmetric])
  moreover have "set (log_page org q lo hi rows) \<subseteq> set ?all"
    unfolding log_page_def by (metis set_take_subset set_drop_subset subset_trans)
  ultimately show ?thesis by auto
qed

text \<open>The audit listing shows the caller's organisation only, at most a thousand entries at a time, newest first, and nothing a
  filter excludes.\<close>

theorem audit_listing_confined:
  assumes "ListAuditLogs has_db oc err scans q db = RespondJSON st rows"
  shows "length rows \<le> 1000 \<and> sorted (map (\<lambda>r. - al_created r) rows)
    \<and> (\<forall>r \<in> set rows. r \<in> set (logs db) \<and> map_option oc_org oc = Some (al_org r)
         \<and> (lq_actor q = [] \<or> al_actor r = lq_actor q) \<and> (lq_action q = [] \<or> al_action r = lq_action q))"
proof (cases "rows = []")
  case False
  with assms obtain x lo hi where oc: "oc = Some x" and rows: "rows = filter scans (log_page (oc_org x) q lo hi (logs db))"
    by (auto simp: ListAuditLogs_def split: if_splits option.splits)
  note page = log_page_properties [of "oc_org x" q lo hi "logs db"]
  have "length rows \<le> 1000" unfolding rows using page by (meson length_filter_le order_trans)
  moreover have "sorted (map (\<lambda>r. - al_created r) rows)" unfolding rows using page by (simp add: sorted_filter)
  moreover have "\<forall>r \<in> set rows. r \<in> set (logs db) \<and> log_matches (oc_org x) q lo hi r" unfolding rows using page by simp
  ultimately show ?thesis using oc by (simp add: log_matches_def)
qed simp

definition sample_log_query :: log_query where
  "sample_log_query = \<lparr>lq_actor = [], lq_action = [], lq_limit = ''5000'', lq_offset = [], lq_from = ([], None), lq_to = ([], None)\<rparr>"

theorem audit_listing_confined_witness:
  "\<exists>rows. ListAuditLogs True (Some \<lparr>oc_org = ''o1'', oc_role = ''admin''\<rparr>) None (\<lambda>_. True) sample_log_query (l_audit sample_life)
       = RespondJSON 200 rows \<and> length rows \<le> 1000"
proof -
  let ?L = "ListAuditLogs True (Some \<lparr>oc_org = ''o1'', oc_role = ''admin''\<rparr>) None (\<lambda>_. True) sample_log_query (l_audit sample_life)"
  obtain rows where "?L = RespondJSON 200 rows"
    by (simp add: ListAuditLogs_def time_bound_def sample_log_query_def)
  with audit_listing_confined [OF this] show ?thesis by blast
qed

end
