(* ===== verification/Go_Aead.thy ===== *)
theory Go_Aead
  imports Go_Crypto
begin

text \<open>
  What the sources use of \<open>encoding/base64\<close> (the padded standard alphabet), \<open>crypto/aes\<close> with keys of 32 bytes
  and \<open>crypto/cipher\<close> (GCM with nonces of 12 and tags of 16 bytes, no additional data).  All of it computes.
  Proved are the round trips; secrecy is a matter of cryptography.
\<close>

unbundle bit_operations_syntax

section \<open>Base64, standard alphabet with padding\<close>

definition to_std :: "char \<Rightarrow> char" where
  "to_std c = (if c = CHR ''-'' then CHR ''+'' else if c = CHR ''_'' then CHR ''/'' else c)"

definition of_std :: "char \<Rightarrow> char" where
  "of_std c = (if c = CHR ''+'' then CHR ''-'' else if c = CHR ''/'' then CHR ''_'' else if c = CHR ''-'' \<or> c = CHR ''_'' then CHR ''='' else c)"

definition StdEncode :: "string \<Rightarrow> string" where
  "StdEncode s = (let b = map to_std (b64_encode s) in b @ replicate ((4 - length b mod 4) mod 4) (CHR ''=''))"

text \<open>Line breaks are skipped; the rest comes in groups of four, the last with up to two padding characters.  A
  padding character anywhere else is no letter of the alphabet.\<close>

definition drop_pad :: "string \<Rightarrow> string" where
  "drop_pad s = (case rev s of
       c # d # r \<Rightarrow> if c = CHR ''='' \<and> d = CHR ''='' then rev r else if c = CHR ''='' then rev (d # r) else s
     | _ \<Rightarrow> s)"

definition StdDecode :: "string \<Rightarrow> string option" where
  "StdDecode s =
     (let b = filter (\<lambda>c. c \<noteq> CHR 0x0A \<and> c \<noteq> CHR 0x0D) s in
      if length b mod 4 \<noteq> 0 then None else b64_decode (map of_std (drop_pad b)))"

section \<open>AES with a key of 32 bytes\<close>

definition xtime :: "nat \<Rightarrow> nat" where
  "xtime b = (if b < 128 then 2 * b else (2 * b - 256) XOR 27)"

definition field_mul :: "nat \<Rightarrow> nat \<Rightarrow> nat" where
  "field_mul a b = fst (fold (\<lambda>i (z, v). (if bit a i then z XOR v else z, xtime v)) [0..<8] (0, b))"

text \<open>The inverse of the field is the power 254.\<close>

definition field_inv :: "nat \<Rightarrow> nat" where
  "field_inv a = (let a2 = field_mul a a; a4 = field_mul a2 a2; a8 = field_mul a4 a4; a16 = field_mul a8 a8;
      a32 = field_mul a16 a16; a64 = field_mul a32 a32; a128 = field_mul a64 a64
    in field_mul a2 (field_mul a4 (field_mul a8 (field_mul a16 (field_mul a32 (field_mul a64 a128))))))"

definition rot8 :: "nat \<Rightarrow> nat \<Rightarrow> nat" where
  "rot8 k b = (b * 2 ^ k) mod 256 + b div 2 ^ (8 - k)"

definition sbox :: "nat \<Rightarrow> nat" where
  "sbox a = (let b = field_inv a in b XOR rot8 1 b XOR rot8 2 b XOR rot8 3 b XOR rot8 4 b XOR 99)"

definition xor_list :: "nat list \<Rightarrow> nat list \<Rightarrow> nat list" where
  "xor_list a b = map2 (\<lambda>x y. x XOR y) a b"

definition rcon :: "nat \<Rightarrow> nat" where
  "rcon i = (xtime ^^ (i - 1)) 1"

definition next_word :: "nat \<Rightarrow> nat list list \<Rightarrow> nat list" where
  "next_word i w =
     (let t = w ! (i - 1);
          t' = (if i mod 8 = 0 then xor_list (map sbox (rotate1 t)) [rcon (i div 8), 0, 0, 0]
                else if i mod 8 = 4 then map sbox t else t)
      in xor_list (w ! (i - 8)) t')"

definition round_words :: "string \<Rightarrow> nat list list" where
  "round_words key = fold (\<lambda>i w. w @ [next_word i w]) [8..<60] (map (\<lambda>i. map byte (take 4 (drop (4 * i) key))) [0..<8])"

definition round_key :: "nat list list \<Rightarrow> nat \<Rightarrow> nat list" where
  "round_key w r = concat (take 4 (drop (4 * r) w))"

text \<open>The state by columns: byte \<open>i\<close> is in row \<open>i mod 4\<close>.\<close>

definition shift_rows :: "nat list \<Rightarrow> nat list" where
  "shift_rows s = map (\<lambda>i. s ! ((i + 4 * (i mod 4)) mod 16)) [0..<16]"

fun mix_columns :: "nat list \<Rightarrow> nat list" where
  "mix_columns (a # b # c # d # s) =
     (xtime a XOR (xtime b XOR b) XOR c XOR d) # (a XOR xtime b XOR (xtime c XOR c) XOR d)
     # (a XOR b XOR xtime c XOR (xtime d XOR d)) # ((xtime a XOR a) XOR b XOR c XOR xtime d) # mix_columns s"
| "mix_columns _ = []"

definition aes_block :: "string \<Rightarrow> nat list \<Rightarrow> nat list" where
  "aes_block key s =
     (let w = round_words key;
          s = xor_list s (round_key w 0);
          s = fold (\<lambda>r s. xor_list (mix_columns (shift_rows (map sbox s))) (round_key w r)) [1..<14] s
      in xor_list (shift_rows (map sbox s)) (round_key w 14))"

section \<open>GCM\<close>

definition block_word :: "nat list \<Rightarrow> 128 word" where
  "block_word b = foldl (\<lambda>n x. n * 256 + of_nat x) 0 b"

definition word_block :: "128 word \<Rightarrow> nat list" where
  "word_block w = map (\<lambda>i. unat (drop_bit (120 - 8 * i) w) mod 256) [0..<16]"

definition ghash_mul :: "128 word \<Rightarrow> 128 word \<Rightarrow> 128 word" where
  "ghash_mul x y = fst (fold (\<lambda>i (z, v). (if bit x (127 - i) then z XOR v else z,
       if bit v 0 then drop_bit 1 v XOR push_bit 120 0xE1 else drop_bit 1 v)) [0..<128] (0, y))"

function blocks16 :: "nat list \<Rightarrow> nat list list" where
  "blocks16 s = (if s = [] then [] else take 16 (s @ replicate 15 0) # blocks16 (drop 16 s))"
  by pat_completeness auto
termination blocks16
  by (relation "measure length") auto

definition ghash :: "128 word \<Rightarrow> nat list \<Rightarrow> 128 word" where
  "ghash h c = ghash_mul (fold (\<lambda>b y. ghash_mul (y XOR block_word b) h) (blocks16 c) 0 XOR of_nat (8 * length c)) h"

text \<open>The counter is in the last four bytes and wraps there.\<close>

definition counter_block :: "string \<Rightarrow> nat \<Rightarrow> nat list" where
  "counter_block nonce i = map byte nonce @ map (\<lambda>k. (i mod 2 ^ 32) div 256 ^ (3 - k) mod 256) [0..<4]"

definition keystream :: "string \<Rightarrow> string \<Rightarrow> nat \<Rightarrow> nat list" where
  "keystream key nonce n = take n (concat (map (\<lambda>i. aes_block key (counter_block nonce (i + 2))) [0..<(n + 15) div 16]))"

definition xor_stream :: "string \<Rightarrow> nat list \<Rightarrow> string" where
  "xor_stream s ks = map2 (\<lambda>c k. char_of (byte c XOR (k mod 256))) s ks"

definition gcm_tag :: "string \<Rightarrow> string \<Rightarrow> string \<Rightarrow> string" where
  "gcm_tag key nonce c =
     map char_of (xor_list (aes_block key (counter_block nonce 1)) (word_block (ghash (block_word (aes_block key (replicate 16 0))) (map byte c))))"

definition gcm_Seal :: "string \<Rightarrow> string \<Rightarrow> string \<Rightarrow> string" where
  "gcm_Seal key nonce plaintext =
     (let c = xor_stream plaintext (keystream key nonce (length plaintext)) in c @ gcm_tag key nonce c)"

definition gcm_Open :: "string \<Rightarrow> string \<Rightarrow> string \<Rightarrow> string option" where
  "gcm_Open key nonce sealed =
     (if length sealed < 16 then None
      else let c = take (length sealed - 16) sealed in
           if drop (length sealed - 16) sealed = gcm_tag key nonce c then Some (xor_stream c (keystream key nonce (length c))) else None)"

section \<open>Round trips\<close>

lemma xor_byte_less: "m < 256 \<Longrightarrow> n < 256 \<Longrightarrow> m XOR n < (256::nat)"
proof -
  assume "m < 256" "n < 256"
  then have "take_bit 8 m = m" "take_bit 8 n = n" by (simp_all add: take_bit_nat_eq_self)
  then have "take_bit 8 (m XOR n) = m XOR n" by (simp add: take_bit_xor)
  then show ?thesis using take_bit_nat_less_exp [of 8 "m XOR n"] by simp
qed

lemma xor_twice: "(m XOR n) XOR n = (m::nat)"
  by (simp add: xor.assoc)

lemma xor_stream_twice: "length ks = length s \<Longrightarrow> xor_stream (xor_stream s ks) ks = s"
  by (induction s ks rule: list_induct2') (auto simp: xor_stream_def xor_byte_less xor_twice)

lemma length_xor_list [simp]: "length (xor_list a b) = min (length a) (length b)"
  by (simp add: xor_list_def)

lemma length_shift_rows [simp]: "length (shift_rows s) = 16"
  by (simp add: shift_rows_def)

lemma fold_words:
  fixes w m
  defines "W \<equiv> fold (\<lambda>i w. w @ [next_word i w]) [length w..<length w + m] w"
  assumes "\<forall>x \<in> set w. length x = 4" and "8 \<le> length w"
  shows "(\<forall>x \<in> set W. length x = 4) \<and> length W = length w + m"
  unfolding W_def
proof (induction m)
  case 0
  then show ?case using assms(2) by simp
next
  case (Suc m)
  let ?V = "fold (\<lambda>i w. w @ [next_word i w]) [length w..<length w + m] w"
  have m: "length (?V ! (length w + m - 1)) = 4" "length (?V ! (length w + m - 8)) = 4"
    using Suc assms(3) by simp_all
  then have "length (next_word (length w + m) ?V) = 4" by (simp add: next_word_def Let_def)
  with Suc show ?case by simp
qed

lemma round_words_shape:
  assumes "length key = 32"
  shows "(\<forall>x \<in> set (round_words key). length x = 4) \<and> length (round_words key) = 60"
proof -
  define w where "w = map (\<lambda>i. map byte (take 4 (drop (4 * i) key))) [0..<8]"
  have "\<forall>x \<in> set w. length x = 4" and n: "length w = 8" using assms by (auto simp: w_def)
  have sixty: "8 + 52 = (60::nat)" by simp
  have "8 \<le> length w" using n by simp
  from fold_words [OF \<open>\<forall>x \<in> set w. length x = 4\<close> this, of 52] show ?thesis
    unfolding round_words_def w_def [symmetric] n sixty .
qed

lemma length_round_key:
  assumes "length key = 32" and "r \<le> 14"
  shows "length (round_key (round_words key) r) = 16"
proof -
  note shape = round_words_shape [OF assms(1)]
  have "\<forall>x \<in> set (take 4 (drop (4 * r) (round_words key))). length x = 4"
    using shape by (meson in_set_takeD in_set_dropD)
  moreover have "length (take 4 (drop (4 * r) (round_words key))) = 4" using shape assms(2) by simp
  ultimately show ?thesis by (simp add: round_key_def length_concat sum_list_triv map_idI cong: map_cong)
qed

lemma length_mix_columns: "length s = 16 \<Longrightarrow> length (mix_columns s) = 16"
proof -
  have "length s = 4 * n \<Longrightarrow> length (mix_columns s) = 4 * n" for n
  proof (induction s arbitrary: n rule: mix_columns.induct)
    case (1 a b c d s)
    then obtain m where "n = Suc m" by (cases n) auto
    with 1 show ?case by simp
  qed auto
  from this [of 4] show "length s = 16 \<Longrightarrow> length (mix_columns s) = 16" by simp
qed

lemma length_aes_block:
  assumes "length key = 32" and "length s = 16"
  shows "length (aes_block key s) = 16"
proof -
  have "length (fold (\<lambda>r s. xor_list (mix_columns (shift_rows (map sbox s))) (round_key (round_words key) r)) rs t) = 16"
    if "\<forall>r \<in> set rs. r \<le> 14" "length t = 16" for rs t
    using that by (induction rs arbitrary: t) (simp_all add: length_mix_columns length_round_key assms(1))
  then show ?thesis using assms by (simp add: aes_block_def Let_def length_round_key)
qed

lemma length_keystream:
  assumes "length key = 32" and "length nonce = 12"
  shows "length (keystream key nonce n) = n"
proof -
  have "length (counter_block nonce i) = 16" for i using assms(2) by (simp add: counter_block_def)
  then have "length (concat (map (\<lambda>i. aes_block key (counter_block nonce (i + 2))) [0..<k])) = 16 * k" for k
    by (simp add: length_concat length_aes_block assms(1) sum_list_triv o_def)
  moreover have "n \<le> 16 * ((n + 15) div 16)" by presburger
  ultimately show ?thesis by (simp add: keystream_def)
qed

lemma length_gcm_tag:
  assumes "length key = 32" and "length nonce = 12"
  shows "length (gcm_tag key nonce c) = 16"
  using assms by (simp add: gcm_tag_def length_aes_block counter_block_def word_block_def)

lemma gcm_Open_Seal:
  assumes "length key = 32" and "length nonce = 12"
  shows "gcm_Open key nonce (gcm_Seal key nonce p) = Some p"
proof -
  let ?c = "xor_stream p (keystream key nonce (length p))"
  have "length ?c = length p" by (simp add: xor_stream_def length_keystream assms)
  then show ?thesis
    by (simp add: gcm_Seal_def gcm_Open_def Let_def length_gcm_tag length_keystream assms xor_stream_twice)
qed

text \<open>A text opens only if it carries the tag of its own contents.\<close>

lemma gcm_Open_tagged:
  "gcm_Open key nonce sealed = Some p \<Longrightarrow> \<exists>c. sealed = c @ gcm_tag key nonce c"
  unfolding gcm_Open_def Let_def by (metis append_take_drop_id option.distinct(1))

lemma b64_char_image:
  assumes "c \<in> b64_char ` {..<64}"
  shows "c \<noteq> CHR ''='' \<and> c \<noteq> CHR ''+'' \<and> c \<noteq> CHR ''/'' \<and> c \<noteq> CHR 0x0A \<and> c \<noteq> CHR 0x0D"
proof -
  from assms have "b64_val c \<noteq> None" by auto
  then show ?thesis by (auto simp: b64_val_def)
qed

lemma of_to_std: "c \<in> b64_char ` {..<64} \<Longrightarrow> of_std (to_std c) = c"
  using b64_char_image [of c] by (simp add: of_std_def to_std_def)

lemma b64_encode_chars: "c \<in> set (b64_encode s) \<Longrightarrow> c \<in> b64_char ` {..<64}"
  by (auto simp: b64_encode_def dest: sextets_less)

lemma std_alphabet: "c \<in> b64_char ` {..<64} \<Longrightarrow> to_std c \<noteq> CHR ''='' \<and> to_std c \<noteq> CHR 0x0A \<and> to_std c \<noteq> CHR 0x0D"
  using b64_char_image [of c] by (simp add: to_std_def)

lemma sextets_length: "length (sextets s) mod 4 \<noteq> 1"
  by (induction s rule: sextets.induct) simp_all

lemma drop_pad_append:
  assumes "\<forall>c \<in> set b. c \<noteq> CHR ''=''" "k \<le> 2" "b = [] \<longrightarrow> k = 0"
  shows "drop_pad (b @ replicate k (CHR ''='')) = b"
proof (cases b rule: rev_cases)
  case Nil
  with assms show ?thesis by (simp add: drop_pad_def)
next
  case (snoc b' c)
  with assms(1) have c: "c \<noteq> CHR ''=''" by simp
  have two: "replicate 2 (CHR ''='') = [CHR ''='', CHR ''='']" by (simp add: numeral_2_eq_2)
  consider "k = 0" | "k = 1" | "k = 2" using assms(2) by linarith
  then show ?thesis using c two by cases (simp_all add: drop_pad_def snoc split: list.split)
qed

lemma pad_count:
  fixes x :: nat
  shows "x mod 4 \<noteq> 1 \<Longrightarrow> (4 - x mod 4) mod 4 \<le> 2" and "(x + (4 - x mod 4) mod 4) mod 4 = 0"
proof -
  define r where "r = x mod 4"
  have "r < 4" by (simp add: r_def)
  then have "r = 0 \<or> r = 1 \<or> r = 2 \<or> r = 3" by linarith
  then have "(r \<noteq> 1 \<longrightarrow> (4 - r) mod 4 \<le> 2) \<and> (r + (4 - r) mod 4) mod 4 = 0" by auto
  then show "x mod 4 \<noteq> 1 \<Longrightarrow> (4 - x mod 4) mod 4 \<le> 2" and "(x + (4 - x mod 4) mod 4) mod 4 = 0"
    by (simp_all add: r_def mod_add_left_eq)
qed

lemma StdDecode_StdEncode [simp]: "StdDecode (StdEncode s) = Some s"
proof -
  let ?b = "map to_std (b64_encode s)"
  let ?k = "(4 - length ?b mod 4) mod 4"
  have al: "\<forall>c \<in> set ?b. c \<noteq> CHR ''='' \<and> c \<noteq> CHR 0x0A \<and> c \<noteq> CHR 0x0D"
    using b64_encode_chars std_alphabet by auto
  then have keep: "filter (\<lambda>c. c \<noteq> CHR 0x0A \<and> c \<noteq> CHR 0x0D) (StdEncode s) = ?b @ replicate ?k (CHR ''='')"
    by (simp add: StdEncode_def Let_def)
  have n: "length ?b mod 4 \<noteq> 1" using sextets_length [of s] by (simp add: b64_encode_def)
  have "?k \<le> 2" using n by (rule pad_count)
  moreover have "?b = [] \<longrightarrow> ?k = 0" by (metis diff_zero list.size(3) mod_0 mod_self)
  ultimately have pad: "drop_pad (?b @ replicate ?k (CHR ''='')) = ?b" using al by (intro drop_pad_append) auto
  have "map of_std ?b = b64_encode s"
    using b64_encode_chars of_to_std by (auto simp: map_idI)
  moreover have "(length ?b + ?k) mod 4 = 0" by (rule pad_count)
  ultimately show ?thesis by (simp add: StdDecode_def keep pad del: length_map map_map)
qed

end
