(* ===== verification/Outbound.thy ===== *)
theory Outbound
  imports Apps Net_Addr Go_Aead
begin

text \<open>
  The two guards that \<open>handlers/provisioning.go\<close> shares with the other configuration endpoints: the check of
  addresses the backend is told to connect to, and the sealing of stored credentials.  The
  parser of \<open>net/url\<close> and the answers of the resolver are parameters.
\<close>

section \<open>Classes of addresses\<close>

text \<open>The predicates of \<open>net.IP\<close>; an address has 4 or 16 bytes.\<close>

definition IPv6loopback :: ip where
  "IPv6loopback = replicate 15 0 @ [1]"

definition IPv6unspecified :: ip where
  "IPv6unspecified = replicate 16 0"

definition IPv4zero :: ip where
  "IPv4zero = v4InV6Prefix @ [0, 0, 0, 0]"

definition IsUnspecified :: "ip \<Rightarrow> bool" where
  "IsUnspecified x \<longleftrightarrow> ip_equal x IPv4zero \<or> ip_equal x IPv6unspecified"

definition IsLoopback :: "ip \<Rightarrow> bool" where
  "IsLoopback x = (case To4 x of Some y \<Rightarrow> y ! 0 = 127 | None \<Rightarrow> ip_equal x IPv6loopback)"

definition IsPrivate :: "ip \<Rightarrow> bool" where
  "IsPrivate x = (case To4 x of
       Some y \<Rightarrow> y ! 0 = 10 \<or> (y ! 0 = 172 \<and> y ! 1 AND 240 = 16) \<or> (y ! 0 = 192 \<and> y ! 1 = 168)
     | None \<Rightarrow> length x = 16 \<and> x ! 0 AND 254 = 252)"

definition IsMulticast :: "ip \<Rightarrow> bool" where
  "IsMulticast x = (case To4 x of Some y \<Rightarrow> y ! 0 AND 240 = 224 | None \<Rightarrow> length x = 16 \<and> x ! 0 = 255)"

definition IsLinkLocalMulticast :: "ip \<Rightarrow> bool" where
  "IsLinkLocalMulticast x = (case To4 x of
       Some y \<Rightarrow> y ! 0 = 224 \<and> y ! 1 = 0 \<and> y ! 2 = 0
     | None \<Rightarrow> length x = 16 \<and> x ! 0 = 255 \<and> x ! 1 AND 15 = 2)"

definition IsLinkLocalUnicast :: "ip \<Rightarrow> bool" where
  "IsLinkLocalUnicast x = (case To4 x of
       Some y \<Rightarrow> y ! 0 = 169 \<and> y ! 1 = 254
     | None \<Rightarrow> length x = 16 \<and> x ! 0 = 254 \<and> x ! 1 AND 192 = 128)"

section \<open>Outbound addresses\<close>

definition dev_or_test :: "string \<Rightarrow> bool" where
  "dev_or_test app_env \<longleftrightarrow> app_env = ''development'' \<or> app_env = ''test''"

definition isBlockedOutboundIP :: "string \<Rightarrow> ip \<Rightarrow> bool" where
  "isBlockedOutboundIP app_env x \<longleftrightarrow>
     (if IsLoopback x \<or> IsPrivate x \<or> IsLinkLocalUnicast x \<or> IsLinkLocalMulticast x \<or> IsUnspecified x \<or> IsMulticast x
      then \<not> (dev_or_test app_env \<and> (IsLoopback x \<or> IsPrivate x))
      else case To4 x of Some y \<Rightarrow> y ! 0 = 100 \<and> 64 \<le> y ! 1 \<and> y ! 1 \<le> 127 | None \<Rightarrow> False)"

record outbound_env =
  oe_app_env :: string
  oe_parse :: "string \<Rightarrow> parsed_url option"
  oe_lookup :: "string \<Rightarrow> ip list option"

definition has_suffix :: "string \<Rightarrow> string \<Rightarrow> bool" where
  "has_suffix suf s \<longleftrightarrow> has_prefix (rev suf) (rev s)"

definition internal_host :: "string \<Rightarrow> bool" where
  "internal_host h \<longleftrightarrow> h = ''metadata.google.internal'' \<or> has_suffix ''.internal'' h \<or> h = ''metadata''"

definition validateOutboundURL :: "outbound_env \<Rightarrow> string \<Rightarrow> string \<Rightarrow> string option" where
  "validateOutboundURL env field raw =
     (case oe_parse env raw of None \<Rightarrow> Some (field @ '' must be a valid absolute URL'') | Some u \<Rightarrow>
      if pl_host u = [] then Some (field @ '' must be a valid absolute URL'')
      else if pl_hostname u = [] then Some (field @ '' must include a host'')
      else if to_lower (pl_scheme u) \<noteq> ''https'' \<and> to_lower (pl_scheme u) \<noteq> ''http'' then Some (field @ '' scheme must be https'')
      else if to_lower (pl_scheme u) = ''http'' \<and> \<not> dev_or_test (oe_app_env env) then Some (field @ '' must use https'')
      else if internal_host (to_lower (pl_hostname u)) then Some (field @ '' host is not allowed'')
      else case ParseIP (pl_hostname u) of
        Some x \<Rightarrow> if isBlockedOutboundIP (oe_app_env env) x then Some (field @ '' must not target a private or link-local address'') else None
      | None \<Rightarrow>
          (case oe_lookup env (pl_hostname u) of
             None \<Rightarrow> Some (field @ '' host could not be resolved'')
           | Some xs \<Rightarrow>
               if list_ex (isBlockedOutboundIP (oe_app_env env)) xs then Some (field @ '' must not target a private or link-local address'') else None))"

definition validateOutboundEndpointURL :: "outbound_env \<Rightarrow> string \<Rightarrow> string option" where
  "validateOutboundEndpointURL env raw = validateOutboundURL env ''endpointUrl'' raw"

section \<open>Sealed credentials\<close>

text \<open>The injected key, \<^const>\<open>None\<close> before \<open>SetProvisioningMasterKey\<close>, and the two environment variables.\<close>

record key_env =
  kv_injected :: "string option"
  kv_var :: string
  kv_app_env :: string

definition SetProvisioningMasterKey :: "string \<Rightarrow> key_env \<Rightarrow> key_env" where
  "SetProvisioningMasterKey k env = env\<lparr>kv_injected := Some k\<rparr>"

definition resolvedProvisioningMasterKey :: "key_env \<Rightarrow> string" where
  "resolvedProvisioningMasterKey env = (case kv_injected env of Some k \<Rightarrow> if k \<noteq> [] then k else kv_var env | None \<Rightarrow> kv_var env)"

text \<open>\<open>Inr None\<close> is the mode without encryption.\<close>

definition provisioningMasterKey :: "key_env \<Rightarrow> string + string option" where
  "provisioningMasterKey env =
     (let keyB64 = resolvedProvisioningMasterKey env in
      if keyB64 = [] then
        (if dev_or_test (kv_app_env env) then Inr None else Inl ''PROVISIONING_MASTER_KEY must be set outside development/test'')
      else case StdDecode keyB64 of
        Some key \<Rightarrow> if length key = 32 then Inr (Some key) else Inl ''PROVISIONING_MASTER_KEY must be a base64-encoded 32-byte key''
      | None \<Rightarrow> Inl ''PROVISIONING_MASTER_KEY must be a base64-encoded 32-byte key'')"

text \<open>The nonce is the answer of the random source: 12 bytes or an error.\<close>

definition encryptProvisioningToken :: "key_env \<Rightarrow> string + string \<Rightarrow> string \<Rightarrow> string + string" where
  "encryptProvisioningToken env random plaintext =
     (case provisioningMasterKey env of Inl e \<Rightarrow> Inl e
      | Inr None \<Rightarrow> Inr (StdEncode plaintext)
      | Inr (Some key) \<Rightarrow>
          (case random of Inl e \<Rightarrow> Inl e | Inr nonce \<Rightarrow> Inr (StdEncode (nonce @ gcm_Seal key nonce plaintext))))"

definition decryptProvisioningToken :: "key_env \<Rightarrow> string \<Rightarrow> string + string" where
  "decryptProvisioningToken env ciphertext =
     (case StdDecode ciphertext of None \<Rightarrow> Inl ''decode ciphertext'' | Some raw \<Rightarrow>
      case provisioningMasterKey env of Inl e \<Rightarrow> Inl e
      | Inr None \<Rightarrow> Inr raw
      | Inr (Some key) \<Rightarrow>
          if length raw < 12 then Inl ''ciphertext too short''
          else (case gcm_Open key (take 12 raw) (drop 12 raw) of None \<Rightarrow> Inl ''decrypt: cipher: message authentication failed'' | Some p \<Rightarrow> Inr p))"

definition tokenSHA256 :: "string \<Rightarrow> string" where
  "tokenSHA256 plaintext = hex_sha256 plaintext"

section \<open>The blocked ranges\<close>

text \<open>What the comments of the code name, as networks: unspecified, private, shared (CGNAT), loopback, link-local and
  multicast addresses of both families.\<close>

definition network :: "ip \<Rightarrow> nat \<Rightarrow> ip_net" where
  "network a n = \<lparr>net_ip = a, net_mask = CIDRMask n (8 * length a)\<rparr>"

definition reserved_nets :: "ip_net list" where
  "reserved_nets = [network [0, 0, 0, 0] 32, network [10, 0, 0, 0] 8, network [100, 64, 0, 0] 10, network [127, 0, 0, 0] 8,
     network [169, 254, 0, 0] 16, network [172, 16, 0, 0] 12, network [192, 168, 0, 0] 16, network [224, 0, 0, 0] 4,
     network IPv6unspecified 128, network IPv6loopback 128, network (0xFC # replicate 15 0) 7,
     network (0xFE # 0x80 # replicate 14 0) 10, network (0xFF # replicate 15 0) 8]"

lemma masks:
  "CIDRMask 32 32 = [255, 255, 255, 255]" "CIDRMask 8 32 = [255, 0, 0, 0]" "CIDRMask 10 32 = [255, 192, 0, 0]"
  "CIDRMask 16 32 = [255, 255, 0, 0]" "CIDRMask 12 32 = [255, 240, 0, 0]" "CIDRMask 4 32 = [240, 0, 0, 0]"
  "CIDRMask 128 128 = replicate 16 255" "CIDRMask 7 128 = 254 # replicate 15 0" "CIDRMask 10 128 = 255 # 192 # replicate 14 0"
  "CIDRMask 8 128 = 255 # replicate 15 0"
  by code_simp+

definition is_ip :: "ip \<Rightarrow> bool" where
  "is_ip x \<longleftrightarrow> (length x = 4 \<or> length x = 16) \<and> (\<forall>b \<in> set x. b < 256)"

lemma and_255: "a < 256 \<Longrightarrow> a AND 255 = (a::nat)"
  using take_bit_nat_eq_self [of a 8] by (simp add: take_bit_eq_mask mask_eq_exp_minus_1)

lemma and_192: "a < 256 \<Longrightarrow> a AND 192 = (64::nat) \<longleftrightarrow> 64 \<le> a \<and> a \<le> 127"
  using and_mask_byte [of a 2] by (auto simp: mask_byte_def push_bit_eq_mult drop_bit_eq_div)

lemma Contains_v4:
  "To4 x = Some [a, b, c, d] \<Longrightarrow> CIDRMask n 32 = [m0, m1, m2, m3] \<Longrightarrow>
     Contains (network [n0, n1, n2, n3] n) x
       \<longleftrightarrow> n0 AND m0 = a AND m0 \<and> n1 AND m1 = b AND m1 \<and> n2 AND m2 = c AND m2 \<and> n3 AND m3 = d AND m3"
  by (simp add: Contains_def network_def networkNumberAndMask_def To4_def [of "[n0, n1, n2, n3]"] and_bytes_def)

lemma Contains_other_family:
  "To4 x = Some y \<Longrightarrow> length y = 4 \<Longrightarrow> length a = 16 \<Longrightarrow> To4 a = None \<Longrightarrow> length (CIDRMask n 128) = 16 \<Longrightarrow> \<not> Contains (network a n) x"
  "To4 x = None \<Longrightarrow> length x = 16 \<Longrightarrow> length a = 4 \<Longrightarrow> \<not> Contains (network a n) x"
  by (simp_all add: Contains_def network_def networkNumberAndMask_def To4_def [of a] split: option.split)

lemma To4_bytes:
  assumes "is_ip x" and "To4 x = Some y"
  obtains a b c d where "y = [a, b, c, d]" "a < 256" "b < 256" "c < 256" "d < 256"
proof -
  from assms have n: "length y = 4" and sub: "\<forall>v \<in> set y. v < 256"
    by (auto simp: is_ip_def To4_def split: if_splits dest: in_set_dropD)
  then obtain a b c d where "y = [a, b, c, d]" by (auto simp: numeral_eq_Suc length_Suc_conv)
  with sub that show ?thesis by auto
qed

lemma reserved_v6_families: "To4 IPv6unspecified = None" "To4 IPv6loopback = None" "To4 (0xFC # replicate 15 0) = None"
  "To4 (0xFE # 0x80 # replicate 14 0) = None" "To4 (0xFF # replicate 15 0) = None"
  by code_simp+

lemma length_v6 [simp]: "length IPv6unspecified = 16" "length IPv6loopback = 16"
  by (simp_all add: IPv6unspecified_def IPv6loopback_def)

lemma v4_not_v6: "To4 x = Some y \<Longrightarrow> \<not> ip_equal x IPv6unspecified"
proof -
  assume "To4 x = Some y"
  have differ: "take 12 IPv6unspecified \<noteq> v4InV6Prefix" by code_simp
  have "take 12 (v4InV6Prefix @ z) = v4InV6Prefix" for z by (simp add: v4InV6Prefix_def)
  then have "take 12 x \<noteq> v4InV6Prefix \<or> x \<noteq> IPv6unspecified" "v4InV6Prefix @ z \<noteq> IPv6unspecified" for z
    using differ by metis+
  then show ?thesis using \<open>To4 x = Some y\<close> by (auto simp: To4_def ip_equal_def split: if_splits)
qed

lemma v4_zero: "To4 x = Some y \<Longrightarrow> ip_equal x IPv4zero \<longleftrightarrow> y = [0, 0, 0, 0]"
proof -
  assume to: "To4 x = Some y"
  have pre: "length v4InV6Prefix = 12" by (simp add: v4InV6Prefix_def)
  show ?thesis
  proof (cases "length x = 4")
    case True
    with to pre show ?thesis by (auto simp: To4_def ip_equal_def IPv4zero_def)
  next
    case False
    with to have "x = v4InV6Prefix @ y" "length y = 4" by (auto simp: To4_def split: if_splits) (metis append_take_drop_id)
    with pre show ?thesis by (auto simp: ip_equal_def IPv4zero_def)
  qed
qed

lemma blocked_v4:
  assumes "is_ip x" and "To4 x = Some y" and "\<not> dev_or_test app_env"
  shows "isBlockedOutboundIP app_env x \<longleftrightarrow> list_ex (\<lambda>n. Contains n x) reserved_nets"
proof -
  obtain a b c d where y: "y = [a, b, c, d]" and lt: "a < 256" "b < 256" "c < 256" "d < 256" using To4_bytes [OF assms(1,2)] .
  have f: "To4 x = Some [a, b, c, d]" using assms(2) y by simp
  have no6: "\<not> Contains (network z n) x" if "length z = 16" "To4 z = None" "length (CIDRMask n 128) = 16" for z n
    using Contains_other_family(1) [OF f _ that] by simp
  have "\<not> Contains (network IPv6unspecified 128) x" "\<not> Contains (network IPv6loopback 128) x"
    "\<not> Contains (network (0xFC # replicate 15 0) 7) x" "\<not> Contains (network (0xFE # 0x80 # replicate 14 0) 10) x"
    "\<not> Contains (network (0xFF # replicate 15 0) 8) x"
    by (simp_all add: no6 reserved_v6_families masks)
  then have "list_ex (\<lambda>n. Contains n x) reserved_nets \<longleftrightarrow>
      (a = 0 \<and> b = 0 \<and> c = 0 \<and> d = 0) \<or> a = 10 \<or> (a = 100 \<and> 64 \<le> b \<and> b \<le> 127) \<or> a = 127 \<or> (a = 169 \<and> b = 254)
      \<or> (a = 172 \<and> b AND 240 = 16) \<or> (a = 192 \<and> b = 168) \<or> a AND 240 = 224"
    using lt by (auto simp: reserved_nets_def Contains_v4 [OF f] masks and_255 and_192 [symmetric])
  moreover have "isBlockedOutboundIP app_env x \<longleftrightarrow>
      (a = 0 \<and> b = 0 \<and> c = 0 \<and> d = 0) \<or> a = 10 \<or> (a = 100 \<and> 64 \<le> b \<and> b \<le> 127) \<or> a = 127 \<or> (a = 169 \<and> b = 254)
      \<or> (a = 172 \<and> b AND 240 = 16) \<or> (a = 192 \<and> b = 168) \<or> a AND 240 = 224"
    using assms(3) v4_not_v6 [OF f] v4_zero [OF f]
    by (auto simp: isBlockedOutboundIP_def f IsLoopback_def IsPrivate_def IsLinkLocalUnicast_def IsLinkLocalMulticast_def IsUnspecified_def IsMulticast_def)
  ultimately show ?thesis by simp
qed

lemma Contains_v6:
  "To4 x = None \<Longrightarrow> length x = 16 \<Longrightarrow> To4 z = None \<Longrightarrow> length z = 16 \<Longrightarrow> length (CIDRMask n 128) = 16 \<Longrightarrow>
     Contains (network z n) x \<longleftrightarrow> and_bytes z (CIDRMask n 128) = and_bytes x (CIDRMask n 128)"
  by (simp add: Contains_def network_def networkNumberAndMask_def)

lemma and_bytes_full: "length x = k \<Longrightarrow> \<forall>b \<in> set x. b < 256 \<Longrightarrow> and_bytes x (replicate k 255) = x"
  by (induction x arbitrary: k) (auto simp: and_bytes_def and_255)

lemma and_bytes_zero: "length x = k \<Longrightarrow> and_bytes x (replicate k 0) = replicate k 0"
  by (induction x arbitrary: k) (auto simp: and_bytes_def)

lemma and_bytes_Cons: "and_bytes (a # x) (b # y) = (a AND b) # and_bytes x y"
  by (simp add: and_bytes_def)

lemma blocked_v6:
  assumes "is_ip x" and "To4 x = None" and "\<not> dev_or_test app_env"
  shows "isBlockedOutboundIP app_env x \<longleftrightarrow> list_ex (\<lambda>n. Contains n x) reserved_nets"
proof -
  from assms have n: "length x = 16" and lt: "\<forall>b \<in> set x. b < 256" by (auto simp: is_ip_def To4_def)
  then obtain a b r where x: "x = a # b # r" "length r = 14" by (auto simp: numeral_eq_Suc length_Suc_conv)
  with lt have ab: "a < 256" "b < 256" by auto
  have no4: "\<not> Contains (network z k) x" if "length z = 4" for z k using Contains_other_family(2) [OF assms(2) n that] .
  note c6 = Contains_v6 [OF assms(2) n]
  have tail: "and_bytes (b # r) (replicate 15 0) = replicate 15 0" "and_bytes r (replicate 14 0) = replicate 14 0"
    using x(2) by (simp_all add: and_bytes_zero)
  have full: "and_bytes IPv6unspecified (replicate 16 255) = IPv6unspecified" "and_bytes IPv6loopback (replicate 16 255) = IPv6loopback"
    by code_simp+
  have "Contains (network IPv6unspecified 128) x \<longleftrightarrow> x = IPv6unspecified"
    using lt n full by (auto simp: c6 reserved_v6_families masks and_bytes_full)
  moreover have "Contains (network IPv6loopback 128) x \<longleftrightarrow> x = IPv6loopback"
    using lt n full by (auto simp: c6 reserved_v6_families masks and_bytes_full)
  moreover have "Contains (network (0xFC # replicate 15 0) 7) x \<longleftrightarrow> a AND 254 = 252"
    using tail by (auto simp: c6 [unfolded x(1)] reserved_v6_families masks x(1) and_bytes_Cons and_bytes_zero)
  moreover have "Contains (network (0xFE # 0x80 # replicate 14 0) 10) x \<longleftrightarrow> a = 254 \<and> b AND 192 = 128"
    using tail ab by (auto simp: c6 [unfolded x(1)] reserved_v6_families masks x(1) and_bytes_Cons and_bytes_zero and_255)
  moreover have "Contains (network (0xFF # replicate 15 0) 8) x \<longleftrightarrow> a = 255"
    using tail ab by (auto simp: c6 [unfolded x(1)] reserved_v6_families masks x(1) and_bytes_Cons and_bytes_zero and_255)
  ultimately have "list_ex (\<lambda>n. Contains n x) reserved_nets \<longleftrightarrow>
      x = IPv6unspecified \<or> x = IPv6loopback \<or> a AND 254 = 252 \<or> (a = 254 \<and> b AND 192 = 128) \<or> a = 255"
    by (simp add: reserved_nets_def no4)
  moreover have "\<not> ip_equal x IPv4zero" using assms(2) n by (auto simp: ip_equal_def IPv4zero_def To4_def v4InV6Prefix_def)
  moreover have "ip_equal x IPv6unspecified \<longleftrightarrow> x = IPv6unspecified" "ip_equal x IPv6loopback \<longleftrightarrow> x = IPv6loopback"
    using n by (simp_all add: ip_equal_def)
  moreover have "x ! 0 = a" "x ! 1 = b" by (simp_all add: x(1))
  ultimately show ?thesis
    using assms(2,3) n unfolding isBlockedOutboundIP_def IsLoopback_def IsPrivate_def IsLinkLocalUnicast_def IsLinkLocalMulticast_def
      IsUnspecified_def IsMulticast_def by simp
qed

text \<open>The addresses a URL leads to: the literal, or what the resolver says.\<close>

definition destinations :: "outbound_env \<Rightarrow> parsed_url \<Rightarrow> ip set" where
  "destinations env u = (case ParseIP (pl_hostname u) of
       Some x \<Rightarrow> {x}
     | None \<Rightarrow> (case oe_lookup env (pl_hostname u) of Some xs \<Rightarrow> set xs | None \<Rightarrow> {}))"

text \<open>C10. In production an accepted outbound address leads out.  The scheme is https, the host is not one of the internal
  names, it resolved, and none of the addresses it stands for, as a literal or by any answer of the resolver, lies
  in a network that is unspecified, private, shared, loopback, link-local or multicast, in IPv4, IPv6 or
  IPv4 written as IPv6.  Conversely exactly these addresses are turned away.\<close>

theorem outbound_url_leaves:
  assumes "\<not> dev_or_test (oe_app_env env)"
  shows "(validateOutboundURL env field raw = None \<longrightarrow>
      (\<exists>u. oe_parse env raw = Some u \<and> to_lower (pl_scheme u) = ''https'' \<and> \<not> internal_host (to_lower (pl_hostname u))
         \<and> (ParseIP (pl_hostname u) \<noteq> None \<or> oe_lookup env (pl_hostname u) \<noteq> None)
         \<and> (\<forall>x \<in> destinations env u. is_ip x \<longrightarrow> \<not> list_ex (\<lambda>n. Contains n x) reserved_nets)))
    \<and> (is_ip x \<longrightarrow> isBlockedOutboundIP (oe_app_env env) x = list_ex (\<lambda>n. Contains n x) reserved_nets)"
proof -
  have blocked: "isBlockedOutboundIP (oe_app_env env) y = list_ex (\<lambda>n. Contains n y) reserved_nets" if "is_ip y" for y
    using blocked_v4 [OF that _ assms] blocked_v6 [OF that _ assms] by (cases "To4 y") auto
  have "\<exists>u. oe_parse env raw = Some u \<and> to_lower (pl_scheme u) = ''https'' \<and> \<not> internal_host (to_lower (pl_hostname u))
         \<and> (ParseIP (pl_hostname u) \<noteq> None \<or> oe_lookup env (pl_hostname u) \<noteq> None)
         \<and> (\<forall>x \<in> destinations env u. \<not> isBlockedOutboundIP (oe_app_env env) x)"
    if "validateOutboundURL env field raw = None"
  proof -
    from that obtain u where u: "oe_parse env raw = Some u" by (auto simp: validateOutboundURL_def split: option.splits)
    with that assms show ?thesis
      by (intro exI [of _ u]) (auto simp: validateOutboundURL_def destinations_def list_ex_iff split: option.splits if_splits)
  qed
  with blocked show ?thesis by blast
qed

definition sample_outbound :: outbound_env where
  "sample_outbound = \<lparr>oe_app_env = ''production'',
     oe_parse = (\<lambda>s. if s = ''https://a.co/scim'' then Some \<lparr>pl_scheme = ''https'', pl_host = ''a.co'', pl_hostname = ''a.co'', pl_port = []\<rparr> else None),
     oe_lookup = (\<lambda>h. if h = ''a.co'' then Some [[93, 184, 216, 34], v4InV6Prefix @ [10, 0, 0, 5]] else None)\<rparr>"

theorem outbound_url_leaves_witness:
  "\<not> dev_or_test (oe_app_env sample_outbound) \<and> isBlockedOutboundIP ''production'' (v4InV6Prefix @ [10, 0, 0, 5])
   \<and> validateOutboundURL sample_outbound ''endpointUrl'' ''https://a.co/scim'' \<noteq> None"
proof -
  have prod: "\<not> dev_or_test (oe_app_env sample_outbound)" by (simp add: sample_outbound_def dev_or_test_def)
  let ?x = "v4InV6Prefix @ [10, 0, 0, 5]"
  have "is_ip ?x" by (auto simp: is_ip_def v4InV6Prefix_def)
  moreover have "Contains (network [10, 0, 0, 0] 8) ?x" by code_simp
  ultimately have b: "isBlockedOutboundIP (oe_app_env sample_outbound) ?x"
    using outbound_url_leaves [OF prod, of f r ?x] by (auto simp: reserved_nets_def)
  have "ParseIP ''a.co'' = None" by code_simp
  with b have "validateOutboundURL sample_outbound ''endpointUrl'' ''https://a.co/scim'' \<noteq> None"
    by (simp add: validateOutboundURL_def sample_outbound_def dev_or_test_def internal_host_def has_suffix_def to_lower_def to_lower_char_def)
  with prod b show ?thesis by (simp add: sample_outbound_def)
qed

section \<open>Sealing\<close>

lemma master_key_valid:
  "provisioningMasterKey env = Inr (Some key) \<Longrightarrow> StdDecode (resolvedProvisioningMasterKey env) = Some key \<and> length key = 32"
  by (auto simp: provisioningMasterKey_def Let_def split: if_splits option.splits)

lemma no_key_only_in_dev: "provisioningMasterKey env = Inr None \<Longrightarrow> dev_or_test (kv_app_env env)"
  by (auto simp: provisioningMasterKey_def Let_def split: if_splits option.splits)

lemma encrypt_cases:
  assumes "encryptProvisioningToken env random plaintext = Inr sealed"
  obtains (clear) "provisioningMasterKey env = Inr None" "sealed = StdEncode plaintext"
  | (sealed) key nonce where "provisioningMasterKey env = Inr (Some key)" "random = Inr nonce"
      "sealed = StdEncode (nonce @ gcm_Seal key nonce plaintext)"
  using assms by (auto simp: encryptProvisioningToken_def split: sum.splits option.splits)

lemma decrypt_encrypt:
  assumes "\<And>n. random = Inr n \<Longrightarrow> length n = 12" and "encryptProvisioningToken env random plaintext = Inr sealed"
  shows "decryptProvisioningToken env sealed = Inr plaintext"
  using assms(2)
proof (cases rule: encrypt_cases)
  case clear
  then show ?thesis by (simp add: decryptProvisioningToken_def)
next
  case (sealed key nonce)
  then have n: "length nonce = 12" using assms(1) by simp
  from master_key_valid [OF sealed(1)] gcm_Open_Seal [OF _ n] sealed n show ?thesis by (simp add: decryptProvisioningToken_def)
qed

lemma StdEncode_Nil_iff: "StdEncode s = [] \<longleftrightarrow> s = []"
proof
  assume "StdEncode s = []"
  then have "StdDecode [] = Some s" by (metis StdDecode_StdEncode)
  then show "s = []" by (simp add: StdDecode_def drop_pad_def b64_decode_def)
qed (simp add: StdEncode_def b64_encode_def)

lemma sealed_nonempty:
  assumes "\<And>n. random = Inr n \<Longrightarrow> length n = 12" and "encryptProvisioningToken env random plaintext = Inr sealed" and "plaintext \<noteq> []"
  shows "sealed \<noteq> []"
  using assms(2) by (cases rule: encrypt_cases) (use assms(1,3) in \<open>auto simp: StdEncode_Nil_iff\<close>)

text \<open>A stored credential can be read back, and outside development nothing is stored in the clear.  What is encrypted under
  some key decrypts to the same text under the same key, for every credential and every nonce of twelve bytes; without a
  valid key encryption fails in production.\<close>

theorem sealed_token_roundtrip:
  assumes "\<And>n. random = Inr n \<Longrightarrow> length n = 12" and "encryptProvisioningToken env random plaintext = Inr sealed"
  shows "decryptProvisioningToken env sealed = Inr plaintext
    \<and> (\<not> dev_or_test (kv_app_env env) \<longrightarrow>
         (\<exists>key nonce. StdDecode (resolvedProvisioningMasterKey env) = Some key \<and> length key = 32 \<and> random = Inr nonce
            \<and> sealed = StdEncode (nonce @ gcm_Seal key nonce plaintext)))"
proof (intro conjI impI)
  show "decryptProvisioningToken env sealed = Inr plaintext" using assms by (rule decrypt_encrypt)
  assume prod: "\<not> dev_or_test (kv_app_env env)"
  from assms(2) show "\<exists>key nonce. StdDecode (resolvedProvisioningMasterKey env) = Some key \<and> length key = 32 \<and> random = Inr nonce
      \<and> sealed = StdEncode (nonce @ gcm_Seal key nonce plaintext)"
    by (cases rule: encrypt_cases) (use prod no_key_only_in_dev master_key_valid in blast)+
qed

definition sample_key_env :: key_env where
  "sample_key_env = \<lparr>kv_injected = Some (StdEncode (replicate 32 (CHR ''k''))), kv_var = [], kv_app_env = ''production''\<rparr>"

lemma sample_master_key: "provisioningMasterKey sample_key_env = Inr (Some (replicate 32 (CHR ''k'')))"
  by (simp add: provisioningMasterKey_def resolvedProvisioningMasterKey_def sample_key_env_def StdEncode_Nil_iff)

theorem sealed_token_roundtrip_witness:
  "\<exists>sealed. encryptProvisioningToken sample_key_env (Inr ''twelve bytes'') ''s3cret'' = Inr sealed
     \<and> decryptProvisioningToken sample_key_env sealed = Inr ''s3cret''"
proof -
  obtain sealed where s: "encryptProvisioningToken sample_key_env (Inr ''twelve bytes'') ''s3cret'' = Inr sealed"
    by (simp add: encryptProvisioningToken_def sample_master_key)
  have "(Inr ''twelve bytes'' :: string + string) = Inr n \<Longrightarrow> length n = 12" for n by auto
  from sealed_token_roundtrip [OF this s] s show ?thesis by blast
qed

end
