(* ===== verification/Provisioning_Admin.thy ===== *)
theory Provisioning_Admin
  imports Outbound
begin

text \<open>
  The provisioning endpoints: \<open>handlers/provisioning.go\<close> (configuration of an application, state, resync, dry run,
  reconcile) and \<open>handlers/provisioning_connectors.go\<close> (the registry of connectors built from the configuration).

  The conversation of a connector with its remote side is a parameter, a function from its
  configuration to the calls of the engine.  The attribute map is kept decoded; the
  column \<open>l_enabled\<close> of the lifecycle tables is the view of this table the assignments are joined with.
\<close>

section \<open>Connectors\<close>

datatype connector_spec = NewSCIMConnector string string | NewSlackConnector string | NewGitHubConnector string string

definition buildProvisioningConnector :: "string \<Rightarrow> string \<Rightarrow> string \<Rightarrow> connector_spec option" where
  "buildProvisioningConnector connectorType endpoint token =
     (let connectorType = trim_space connectorType; endpoint = trim_space endpoint; token = trim_space token in
      if connectorType = ''scim'' then (if endpoint = [] \<or> token = [] then None else Some (NewSCIMConnector endpoint token))
      else if connectorType = ''slack'' then (if token = [] then None else Some (NewSlackConnector token))
      else if connectorType = ''github'' then (if endpoint = [] \<or> token = [] then None else Some (NewGitHubConnector endpoint token))
      else None)"

record prov_config =
  pc_app :: string
  pc_enabled :: bool
  pc_type :: string
  pc_endpoint :: "string option"
  pc_hash :: "string option"
  pc_enc :: "string option"
  pc_attrs :: "(string \<times> string) list"
  pc_org :: string

record load_env =
  le_query :: "string option"
  le_scans :: "string \<Rightarrow> bool"
  le_rows :: "string option"
  le_keys :: key_env

definition column_text :: "string option \<Rightarrow> string" where
  "column_text v = (case v of None \<Rightarrow> [] | Some x \<Rightarrow> x)"

text \<open>The token of a row, empty when there is none; \<^const>\<open>None\<close> when it cannot be decrypted.\<close>

definition stored_token :: "key_env \<Rightarrow> prov_config \<Rightarrow> string option" where
  "stored_token keys c = (if column_text (pc_enc c) = [] then Some []
     else case decryptProvisioningToken keys (column_text (pc_enc c)) of Inl _ \<Rightarrow> None | Inr p \<Rightarrow> Some p)"

definition row_connector :: "load_env \<Rightarrow> prov_config \<Rightarrow> connector_spec option" where
  "row_connector env c =
     (if \<not> pc_enabled c \<or> \<not> le_scans env (pc_app c) then None
      else case stored_token (le_keys env) c of None \<Rightarrow> None
      | Some token \<Rightarrow> buildProvisioningConnector (pc_type c) (column_text (pc_endpoint c)) token)"

definition LoadProvisioningConnectors :: "load_env \<Rightarrow> prov_config list \<Rightarrow> string + (string \<times> connector_spec) list" where
  "LoadProvisioningConnectors env configs =
     (case le_query env of Some e \<Rightarrow> Inl e | None \<Rightarrow>
      case le_rows env of Some e \<Rightarrow> Inl e | None \<Rightarrow>
      Inr (List.map_filter (\<lambda>c. map_option (Pair (pc_app c)) (row_connector env c)) configs))"

definition ReloadProvisioningConnectors :: "(connector_spec \<Rightarrow> connector) \<Rightarrow> load_env \<Rightarrow> prov_config list \<Rightarrow> engine \<Rightarrow> string option \<times> engine" where
  "ReloadProvisioningConnectors dial env configs e =
     (case LoadProvisioningConnectors env configs of Inl x \<Rightarrow> (Some x, e)
      | Inr cs \<Rightarrow> (None, ReplaceConnectors (map (\<lambda>(a, c). (a, dial c)) cs) e))"

section \<open>Configuration\<close>

record pa_state =
  pa_apps :: app_state
  pa_configs :: "prov_config list"
  pa_engine :: "engine option"

record config_request =
  cq_enabled :: bool
  cq_type :: string
  cq_endpoint :: string
  cq_token :: string
  cq_clear :: bool
  cq_attrs :: "(string \<times> string) list option"

record config_response =
  cr_app :: string
  cr_enabled :: bool
  cr_type :: string
  cr_endpoint :: string
  cr_token_configured :: bool
  cr_attrs :: "(string \<times> string) list"

record pa_env =
  pv_has_db :: bool
  pv_oc :: "org_context option"
  pv_actor :: string
  pv_gate_err :: "string option"
  pv_read_err :: "string option"
  pv_exec_err :: "string option"
  pv_user_err :: "string option"
  pv_outbound :: outbound_env
  pv_random :: "string + string"
  pv_load :: load_env
  pv_dial :: "connector_spec \<Rightarrow> connector"
  pv_audit :: write_env

definition gate_app :: "pa_env \<Rightarrow> string \<Rightarrow> pa_state \<Rightarrow> 'b response option" where
  "gate_app env appID s =
     (if ValidateUserID appID \<noteq> None then Some (RespondError 400 ''invalid appId'')
      else if \<not> pv_has_db env then Some (RespondError 500 ''database not available'')
      else requireAppInCallerOrg True (pv_gate_err env) (app_rows_of (pa_apps s)) (pv_oc env) appID)"

definition configured :: "string option \<Rightarrow> bool" where
  "configured h \<longleftrightarrow> (case h of None \<Rightarrow> False | Some x \<Rightarrow> x \<noteq> [])"

definition GetProvisioningConfig :: "pa_env \<Rightarrow> string \<Rightarrow> pa_state \<Rightarrow> config_response response" where
  "GetProvisioningConfig env appID s =
     (case gate_app env appID s of Some r \<Rightarrow> r | None \<Rightarrow>
      case select_one (pv_read_err env) (\<lambda>c. pc_app c = appID) (pa_configs s) of
        No_rows \<Rightarrow> RespondJSON 200 \<lparr>cr_app = appID, cr_enabled = False, cr_type = ''scim'', cr_endpoint = [], cr_token_configured = False, cr_attrs = []\<rparr>
      | Db_error _ \<Rightarrow> RespondError 500 ''internal error''
      | Ok c \<Rightarrow> RespondJSON 200 \<lparr>cr_app = appID, cr_enabled = pc_enabled c, cr_type = pc_type c, cr_endpoint = column_text (pc_endpoint c),
                cr_token_configured = configured (pc_hash c), cr_attrs = pc_attrs c\<rparr>)"

definition normalise_config :: "config_request \<Rightarrow> config_request" where
  "normalise_config r = r\<lparr>cq_type := (let t = trim_space (cq_type r) in if t = [] then ''scim'' else t), cq_endpoint := trim_space (cq_endpoint r)\<rparr>"

definition config_error :: "outbound_env \<Rightarrow> config_request \<Rightarrow> string option" where
  "config_error env r =
     (if cq_type r \<notin> {''scim'', ''slack'', ''github''} then Some ''connectorType must be scim, slack, or github''
      else case (if cq_endpoint r = [] then None else validateOutboundEndpointURL env (cq_endpoint r)) of
        Some e \<Rightarrow> Some e
      | None \<Rightarrow> if cq_clear r \<and> cq_token r \<noteq> [] then Some ''bearerToken and clearBearerToken are mutually exclusive'' else None)"

definition sealed_token :: "pa_env \<Rightarrow> config_request \<Rightarrow> string + string option" where
  "sealed_token env r =
     (if cq_token r = [] then Inr None
      else case encryptProvisioningToken (le_keys (pv_load env)) (pv_random env) (cq_token r) of Inl e \<Rightarrow> Inl e | Inr x \<Rightarrow> Inr (Some x))"

definition token_hash :: "config_request \<Rightarrow> string option" where
  "token_hash r = (if cq_token r = [] then None else Some (hex_sha256 (cq_token r)))"

definition nullif :: "string \<Rightarrow> string option" where
  "nullif s = (if s = [] then None else Some s)"

definition first_of :: "'a option \<Rightarrow> 'a option \<Rightarrow> 'a option" where
  "first_of a b = (case a of Some x \<Rightarrow> Some x | None \<Rightarrow> b)"

text \<open>The two upserts: clearing, or keeping what the request does not replace.\<close>

definition upsert_config :: "config_request \<Rightarrow> string \<Rightarrow> string \<Rightarrow> string option \<Rightarrow> string option \<Rightarrow> prov_config list \<Rightarrow> prov_config list" where
  "upsert_config r appID org hash enc configs =
     (let new = \<lparr>pc_app = appID, pc_enabled = cq_enabled r, pc_type = cq_type r, pc_endpoint = nullif (cq_endpoint r),
                 pc_hash = (if cq_clear r then None else hash), pc_enc = (if cq_clear r then None else enc),
                 pc_attrs = (case cq_attrs r of None \<Rightarrow> [] | Some m \<Rightarrow> m), pc_org = org\<rparr>
      in if list_ex (\<lambda>c. pc_app c = appID) configs
         then update_where (\<lambda>c. pc_app c = appID)
                (\<lambda>c. new\<lparr>pc_org := pc_org c, pc_hash := (if cq_clear r then None else first_of hash (pc_hash c)),
                         pc_enc := (if cq_clear r then None else first_of enc (pc_enc c))\<rparr>) configs
         else configs @ [new])"

definition audit_state :: "(string \<Rightarrow> string) \<Rightarrow> pa_env \<Rightarrow> string \<Rightarrow> string \<Rightarrow> string \<Rightarrow> (string \<times> jval) list \<Rightarrow> pa_state \<Rightarrow> pa_state" where
  "audit_state jt env action target_type target details s =
     s\<lparr>pa_apps := (pa_apps s)\<lparr>as_life := (as_life (pa_apps s))\<lparr>l_audit := log_best_effort jt (pv_audit env) (pv_oc env)
        \<lparr>ac_actor = pv_actor env, ac_action = action, ac_target_type = target_type, ac_target_id = target, ac_details = Some (JObj details)\<rparr>
        (l_audit (as_life (pa_apps s)))\<rparr>\<rparr>\<rparr>"

definition reload_state :: "pa_env \<Rightarrow> pa_state \<Rightarrow> pa_state" where
  "reload_state env s = s\<lparr>pa_engine := map_option (\<lambda>e. snd (ReloadProvisioningConnectors (pv_dial env) (pv_load env) (pa_configs s) e)) (pa_engine s)\<rparr>"

definition set_configs :: "prov_config list \<Rightarrow> pa_state \<Rightarrow> pa_state" where
  "set_configs cs s = s\<lparr>pa_configs := cs, pa_apps := (pa_apps s)\<lparr>as_life := (as_life (pa_apps s))\<lparr>l_enabled := map pc_app (filter pc_enabled cs)\<rparr>\<rparr>\<rparr>"

definition token_configured :: "pa_env \<Rightarrow> string \<Rightarrow> config_request \<Rightarrow> prov_config list \<Rightarrow> bool" where
  "token_configured env appID r configs \<longleftrightarrow> cq_token r \<noteq> [] \<or>
     \<not> cq_clear r \<and> (case select_one (pv_read_err env) (\<lambda>c. pc_app c = appID) configs of Ok c \<Rightarrow> configured (pc_hash c) | _ \<Rightarrow> False)"

definition UpsertProvisioningConfig :: "(string \<Rightarrow> string) \<Rightarrow> pa_env \<Rightarrow> string \<Rightarrow> config_request option \<Rightarrow> pa_state
   \<Rightarrow> config_response response \<times> pa_state" where
  "UpsertProvisioningConfig jt env appID body s =
     (case gate_app env appID s of Some r \<Rightarrow> (r, s) | None \<Rightarrow>
      case body of None \<Rightarrow> (RespondError 400 ''invalid request body'', s) | Some raw \<Rightarrow>
      (let r = normalise_config raw in
       case config_error (pv_outbound env) r of Some e \<Rightarrow> (RespondError 400 e, s) | None \<Rightarrow>
       case sealed_token env r of Inl _ \<Rightarrow> (RespondError 500 ''failed to encrypt bearer token'', s) | Inr enc \<Rightarrow>
       case pv_oc env of None \<Rightarrow> (RespondError 403 ''forbidden: no organization context'', s) | Some oc \<Rightarrow>
       if pv_exec_err env \<noteq> None then (RespondError 500 ''failed to save provisioning config'', s)
       else (let configs = upsert_config r appID (oc_org oc) (token_hash r) enc (pa_configs s);
                 s1 = reload_state env (audit_state jt env ''provisioning_config.upsert'' ''app'' appID
                        [(''connector_type'', JStr (cq_type r)), (''enabled'', JBool (cq_enabled r)), (''token_changed'', JBool (cq_token r \<noteq> [])),
                         (''token_cleared'', JBool (cq_clear r))] (set_configs configs s))
             in (RespondJSON 200 \<lparr>cr_app = appID, cr_enabled = cq_enabled r, cr_type = cq_type r, cr_endpoint = cq_endpoint r,
                   cr_token_configured = token_configured env appID r configs,
                   cr_attrs = (case cq_attrs r of None \<Rightarrow> [] | Some m \<Rightarrow> m)\<rparr>, s1))))"

section \<open>State of the users\<close>

text \<open>The generated id of a row is not modelled; times are formatted when they are set.\<close>

record state_entry =
  se_user :: string
  se_email :: string
  se_remote :: string
  se_status :: prov_status
  se_last_sync :: "string option"
  se_error :: string
  se_retries :: int
  se_next :: "string option"

definition state_entry_of :: "life_user list \<Rightarrow> prov_row \<Rightarrow> state_entry" where
  "state_entry_of us r = \<lparr>se_user = ps_user r,
     se_email = (case find (\<lambda>u. lu_id u = ps_user r) us of None \<Rightarrow> [] | Some u \<Rightarrow> lu_email u), se_remote = column_text (ps_remote r),
     se_status = ps_status r, se_last_sync = map_option rfc3339 (ps_last_sync r), se_error = column_text (ps_last_error r),
     se_retries = ps_retries r, se_next = map_option rfc3339 (ps_next_retry r)\<rparr>"

definition ListProvisioningState :: "pa_env \<Rightarrow> (string \<Rightarrow> bool) \<Rightarrow> string \<Rightarrow> string \<Rightarrow> string \<Rightarrow> pa_state \<Rightarrow> state_entry list response" where
  "ListProvisioningState env scans limit_q offset_q appID s =
     (case gate_app env appID s of Some r \<Rightarrow> r | None \<Rightarrow>
      (let (limit, offset) = listPageParams limit_q offset_q maxListLimit; db = as_life (pa_apps s) in
       if pv_read_err env \<noteq> None then RespondError 500 ''internal error''
       else RespondJSON 200 (map (state_entry_of (l_users db)) (filter (\<lambda>r. scans (ps_user r))
              (take (nat limit) (drop (nat offset) (sort_key (\<lambda>r. - ps_updated r) (filter (\<lambda>r. ps_app r = appID) (l_prov db)))))))))"

definition with_prov :: "prov_db \<Rightarrow> pa_state \<Rightarrow> pa_state" where
  "with_prov pdb s = s\<lparr>pa_apps := (pa_apps s)\<lparr>as_life := (as_life (pa_apps s))\<lparr>l_prov := prov_rows pdb\<rparr>\<rparr>\<rparr>"

definition gate_engine :: "string \<Rightarrow> pa_state \<Rightarrow> bool response + engine" where
  "gate_engine appID s =
     (case pa_engine s of None \<Rightarrow> Inl (RespondError 503 ''provisioning engine not configured'') | Some e \<Rightarrow>
      if \<not> HasConnector e appID then Inl (RespondError 503 ''provisioning connector not configured'') else Inr e)"

definition profile_of :: "life_user \<Rightarrow> prov_user" where
  "profile_of u = \<lparr>pu_id = lu_id u, pu_email = lu_email u, pu_first = lu_first u, pu_last = lu_last u, pu_department = lu_department u, pu_groups = []\<rparr>"

definition load_profile :: "pa_env \<Rightarrow> string \<Rightarrow> pa_state \<Rightarrow> 'b response + prov_user" where
  "load_profile env userID s =
     (case select_one (pv_user_err env) (\<lambda>u. lu_id u = userID) (l_users (as_life (pa_apps s))) of
        No_rows \<Rightarrow> Inl (RespondError 404 ''user not found'')
      | Db_error _ \<Rightarrow> Inl (RespondError 500 ''internal error'')
      | Ok u \<Rightarrow> Inr (profile_of u))"

text \<open>The goroutine of \<open>ResyncUser\<close> runs after the answer; its effect is part of the result.\<close>

definition ResyncUser :: "(string \<Rightarrow> string) \<Rightarrow> pa_env \<Rightarrow> prov_env \<Rightarrow> string \<Rightarrow> string \<Rightarrow> pa_state \<Rightarrow> bool response \<times> pa_state \<times> remote_call list" where
  "ResyncUser jt env run appID userID s =
     (if ValidateUserID appID \<noteq> None then (RespondError 400 ''invalid appId'', s, [])
      else if ValidateUserID userID \<noteq> None then (RespondError 400 ''invalid userId'', s, [])
      else if \<not> pv_has_db env then (RespondError 500 ''database not available'', s, [])
      else case requireAppInCallerOrg True (pv_gate_err env) (app_rows_of (pa_apps s)) (pv_oc env) appID of Some r \<Rightarrow> (r, s, []) | None \<Rightarrow>
      case requireUserInCallerOrg True (pv_gate_err env) (app_rows_of (pa_apps s)) (pv_oc env) userID of Some r \<Rightarrow> (r, s, []) | None \<Rightarrow>
      case gate_engine appID s of Inl r \<Rightarrow> (r, s, []) | Inr e \<Rightarrow>
      case load_profile env userID s of Inl r \<Rightarrow> (r, s, []) | Inr user \<Rightarrow>
      (let s1 = audit_state jt env ''provisioning.resync'' ''user'' userID [(''app_id'', JStr appID)] s in
       case ProvisionUser e run appID user (prov_view (as_life (pa_apps s1))) of (_, pdb, calls) \<Rightarrow>
         (RespondJSON 202 True, with_prov pdb s1, calls)))"

record dry_run_response =
  dy_user :: string
  dy_type :: string
  dy_endpoint :: string
  dy_payload :: "string \<rightharpoonup> string"
  dy_attrs :: "(string \<times> string) list"

definition DryRunProvisioning :: "(string \<Rightarrow> string) \<Rightarrow> pa_env \<Rightarrow> string \<Rightarrow> string option \<Rightarrow> pa_state \<Rightarrow> dry_run_response response \<times> pa_state" where
  "DryRunProvisioning jt env appID body s =
     (if ValidateUserID appID \<noteq> None then (RespondError 400 ''invalid appId'', s)
      else case body of None \<Rightarrow> (RespondError 400 ''invalid request body'', s) | Some userID \<Rightarrow>
      if ValidateUserID userID \<noteq> None then (RespondError 400 ''invalid userId'', s)
      else if \<not> pv_has_db env then (RespondError 500 ''database not available'', s)
      else case requireAppInCallerOrg True (pv_gate_err env) (app_rows_of (pa_apps s)) (pv_oc env) appID of Some r \<Rightarrow> (r, s) | None \<Rightarrow>
      case requireUserInCallerOrg True (pv_gate_err env) (app_rows_of (pa_apps s)) (pv_oc env) userID of Some r \<Rightarrow> (r, s) | None \<Rightarrow>
      case select_one (pv_read_err env) (\<lambda>c. pc_app c = appID) (pa_configs s) of
        No_rows \<Rightarrow> (RespondError 404 ''provisioning config not found for this app'', s)
      | Db_error _ \<Rightarrow> (RespondError 500 ''internal error'', s)
      | Ok c \<Rightarrow>
          (case load_profile env userID s of Inl r \<Rightarrow> (r, s) | Inr user \<Rightarrow>
            (RespondJSON 200 \<lparr>dy_user = userID, dy_type = pc_type c, dy_endpoint = column_text (pc_endpoint c),
               dy_payload = ApplyAttributeMap user (map_of (pc_attrs c)), dy_attrs = pc_attrs c\<rparr>,
             audit_state jt env ''provisioning.dry_run'' ''app'' appID [(''user_id'', JStr userID)] s)))"

definition reset_retries :: "string \<Rightarrow> pa_state \<Rightarrow> pa_state" where
  "reset_retries appID s = s\<lparr>pa_apps := (pa_apps s)\<lparr>as_life := (as_life (pa_apps s))\<lparr>l_prov :=
     update_where (\<lambda>r. ps_app r = appID \<and> ps_status r \<in> {StatusError, StatusPending}) (\<lambda>r. r\<lparr>ps_next_retry := None\<rparr>) (l_prov (as_life (pa_apps s)))\<rparr>\<rparr>\<rparr>"

definition ReconcileAllHandler :: "(string \<Rightarrow> string) \<Rightarrow> pa_env \<Rightarrow> pass_env \<Rightarrow> string \<Rightarrow> pa_state \<Rightarrow> bool response \<times> pa_state \<times> remote_call list" where
  "ReconcileAllHandler jt env run appID s =
     (case gate_app env appID s of Some r \<Rightarrow> (r, s, []) | None \<Rightarrow>
      case gate_engine appID s of Inl r \<Rightarrow> (r, s, []) | Inr e \<Rightarrow>
      if pv_exec_err env \<noteq> None then (RespondError 500 ''internal error'', s, [])
      else (let s1 = audit_state jt env ''provisioning.reconcile_all'' ''app'' appID [] (reset_retries appID s) in
            case ReconcileAll e run (prov_view (as_life (pa_apps s1))) of (_, pdb, calls) \<Rightarrow>
              (RespondJSON 202 True, with_prov pdb s1, calls)))"

section \<open>The registry\<close>

text \<open>After a load the registry holds exactly the complete configurations that are enabled.\<close>

lemma loaded_connectors:
  assumes "LoadProvisioningConnectors env configs = Inr cs" and "distinct (map pc_app configs)"
  shows "map_of cs app = Some spec \<longleftrightarrow> (\<exists>c \<in> set configs. pc_app c = app \<and> row_connector env c = Some spec)"
proof -
  have "map_of (List.map_filter (\<lambda>c. map_option (Pair (pc_app c)) (row_connector env c)) configs) app = Some spec
      \<longleftrightarrow> (\<exists>c \<in> set configs. pc_app c = app \<and> row_connector env c = Some spec)"
    using assms(2)
  proof (induction configs)
    case (Cons c configs)
    then show ?case by (cases "row_connector env c") (auto simp: List.map_filter_simps rev_image_eqI)
  qed (simp add: List.map_filter_simps)
  with assms(1) show ?thesis by (simp add: LoadProvisioningConnectors_def split: option.splits)
qed

section \<open>Saving and reading a configuration\<close>

lemma filter_update_where:
  "(\<And>x. P x \<Longrightarrow> P (f x)) \<Longrightarrow> filter P (update_where P f xs) = map f (filter P xs)"
  "(\<And>x. P x \<Longrightarrow> P (f x)) \<Longrightarrow> filter (\<lambda>x. \<not> P x) (update_where P f xs) = filter (\<lambda>x. \<not> P x) xs"
  by (induction xs) (auto simp: update_where_def)

definition config_of :: "string \<Rightarrow> prov_config list \<Rightarrow> prov_config option" where
  "config_of appID configs = find (\<lambda>c. pc_app c = appID) configs"

lemma select_config:
  "select_one None (\<lambda>c. pc_app c = appID) configs = (case config_of appID configs of None \<Rightarrow> No_rows | Some c \<Rightarrow> Ok c)"
  by (induction configs) (auto simp: select_one_def config_of_def)

lemma config_of_update:
  assumes "\<And>c. pc_app c = appID \<Longrightarrow> pc_app (f c) = appID"
  shows "config_of appID (update_where (\<lambda>c. pc_app c = appID) f configs) = map_option f (config_of appID configs)"
  using assms by (induction configs) (auto simp: config_of_def update_where_def)

text \<open>The row a request leaves, given the one before it.\<close>

definition saved_row :: "config_request \<Rightarrow> string option \<Rightarrow> string option \<Rightarrow> prov_config option \<Rightarrow> prov_config \<Rightarrow> bool" where
  "saved_row r hash enc old c \<longleftrightarrow> pc_enabled c = cq_enabled r \<and> pc_type c = cq_type r \<and> column_text (pc_endpoint c) = cq_endpoint r
     \<and> pc_attrs c = (case cq_attrs r of None \<Rightarrow> [] | Some m \<Rightarrow> m)
     \<and> pc_enc c = (if cq_clear r then None else first_of enc (Option.bind old pc_enc))
     \<and> pc_hash c = (if cq_clear r then None else first_of hash (Option.bind old pc_hash))"

lemma upserted_row:
  "\<exists>c. config_of appID (upsert_config r appID org hash enc configs) = Some c \<and> saved_row r hash enc (config_of appID configs) c"
proof (cases "config_of appID configs")
  case None
  then have "\<not> list_ex (\<lambda>c. pc_app c = appID) configs" by (simp add: config_of_def find_None_list_ex)
  with None show ?thesis
    by (auto simp: upsert_config_def config_of_def find_append saved_row_def column_text_def nullif_def first_of_def Let_def split: option.split)
next
  case (Some o')
  then have "list_ex (\<lambda>c. pc_app c = appID) configs" by (auto simp: config_of_def list_ex_iff find_Some_iff)
  with Some show ?thesis
    by (auto simp: upsert_config_def config_of_update saved_row_def column_text_def nullif_def)
qed

lemma upsert_others:
  "filter (\<lambda>c. pc_app c \<noteq> appID) (upsert_config r appID org hash enc configs) = filter (\<lambda>c. pc_app c \<noteq> appID) configs"
  by (simp add: upsert_config_def filter_update_where Let_def)

lemma unchanged_gate [simp]:
  "gate_app env appID (reload_state env' s) = gate_app env appID s"
  "gate_app env appID (audit_state jt env' a t i d s) = gate_app env appID s"
  "gate_app env appID (set_configs cs s) = gate_app env appID s"
  by (simp_all add: gate_app_def reload_state_def audit_state_def set_configs_def app_rows_of_def org_rows_of_def)

lemma state_fields [simp]:
  "pa_configs (reload_state env s) = pa_configs s" "pa_configs (audit_state jt env a t i d s) = pa_configs s"
  "pa_configs (set_configs cs s) = cs"
  by (simp_all add: reload_state_def audit_state_def set_configs_def)

lemma UpsertProvisioningConfig_ok:
  assumes "UpsertProvisioningConfig jt env appID (Some raw) s = (RespondJSON st resp, s')"
  obtains enc and oc :: org_context where "gate_app env appID s = (None :: config_response response option)" "config_error (pv_outbound env) (normalise_config raw) = None"
    "sealed_token env (normalise_config raw) = Inr enc"
    "pa_configs s' = upsert_config (normalise_config raw) appID (oc_org oc) (token_hash raw) enc (pa_configs s)"
    "resp = \<lparr>cr_app = appID, cr_enabled = cq_enabled raw, cr_type = cq_type (normalise_config raw), cr_endpoint = cq_endpoint (normalise_config raw),
       cr_token_configured = token_configured env appID (normalise_config raw) (pa_configs s'),
       cr_attrs = (case cq_attrs raw of None \<Rightarrow> [] | Some m \<Rightarrow> m)\<rparr>"
    "(gate_app env appID s' :: config_response response option) = None"
proof -
  have gate: "r \<noteq> RespondJSON st resp" if "gate_app env appID s = Some r" for r
    using that by (auto simp: gate_app_def requireAppInCallerOrg_def RequireResourceInCallerOrg_def split: if_splits option.splits sum.splits)
  have n: "cq_enabled (normalise_config raw) = cq_enabled raw" "cq_token (normalise_config raw) = cq_token raw"
    "cq_attrs (normalise_config raw) = cq_attrs raw" "token_hash (normalise_config raw) = token_hash raw"
    by (simp_all add: normalise_config_def token_hash_def)
  from assms gate obtain enc oc where g: "gate_app env appID s = (None :: config_response response option)"
    "config_error (pv_outbound env) (normalise_config raw) = None" "sealed_token env (normalise_config raw) = Inr enc"
    "pv_oc env = Some oc" "pv_exec_err env = None"
    by (simp add: UpsertProvisioningConfig_def Let_def split: option.splits sum.splits if_splits)
  with assms show ?thesis
    by (intro that [of enc oc]) (auto simp: UpsertProvisioningConfig_def Let_def n)
qed

lemma normalise_fields:
  "cq_enabled (normalise_config r) = cq_enabled r" "cq_token (normalise_config r) = cq_token r"
  "cq_clear (normalise_config r) = cq_clear r" "cq_attrs (normalise_config r) = cq_attrs r"
  by (simp_all add: normalise_config_def)

lemma saved_token:
  assumes "sealed_token env (normalise_config raw) = Inr enc" and "cq_token raw \<noteq> []" and "pc_enc c = first_of enc old"
    and "\<And>n. pv_random env = Inr n \<Longrightarrow> length n = 12"
  shows "stored_token (le_keys (pv_load env)) c = Some (cq_token raw)"
proof -
  from assms(1,2) obtain x where x: "encryptProvisioningToken (le_keys (pv_load env)) (pv_random env) (cq_token raw) = Inr x" "enc = Some x"
    by (auto simp: sealed_token_def normalise_fields split: sum.splits)
  with assms(3) have "pc_enc c = Some x" by (simp add: first_of_def)
  with decrypt_encrypt [OF assms(4) x(1)] sealed_nonempty [OF assms(4) x(1) assms(2)] show ?thesis
    by (simp add: stored_token_def column_text_def)
qed

text \<open>A saved provisioning configuration is what the next read returns.  After a 200 answer to PUT, GET gives the same
  answer, whether a token is configured included; the stored token is the one sent, or none when the request clears it, or
  the one from before when it says nothing; and the configurations of other applications are as they were.\<close>

theorem provisioning_config_roundtrip:
  assumes "UpsertProvisioningConfig jt env appID (Some raw) s = (RespondJSON st resp, s')"
    and "pv_read_err env = None" and "\<And>n. pv_random env = Inr n \<Longrightarrow> length n = 12"
  shows "GetProvisioningConfig env appID s' = RespondJSON 200 resp
    \<and> (\<exists>c. select_one None (\<lambda>c. pc_app c = appID) (pa_configs s') = Ok c
         \<and> (cq_token raw \<noteq> [] \<longrightarrow> stored_token (le_keys (pv_load env)) c = Some (cq_token raw))
         \<and> (cq_clear raw \<longrightarrow> pc_enc c = None)
         \<and> (cq_token raw = [] \<and> \<not> cq_clear raw \<longrightarrow>
              pc_enc c = (case select_one None (\<lambda>c. pc_app c = appID) (pa_configs s) of Ok o' \<Rightarrow> pc_enc o' | _ \<Rightarrow> None)))
    \<and> filter (\<lambda>c. pc_app c \<noteq> appID) (pa_configs s') = filter (\<lambda>c. pc_app c \<noteq> appID) (pa_configs s)"
proof -
  let ?r = "normalise_config raw" and ?P = "\<lambda>c. pc_app c = appID"
  obtain enc and oc :: org_context where ok: "config_error (pv_outbound env) ?r = None" "sealed_token env ?r = Inr enc"
    "pa_configs s' = upsert_config ?r appID (oc_org oc) (token_hash raw) enc (pa_configs s)"
    "resp = \<lparr>cr_app = appID, cr_enabled = cq_enabled raw, cr_type = cq_type ?r, cr_endpoint = cq_endpoint ?r,
       cr_token_configured = token_configured env appID ?r (pa_configs s'), cr_attrs = (case cq_attrs raw of None \<Rightarrow> [] | Some m \<Rightarrow> m)\<rparr>"
    "(gate_app env appID s' :: config_response response option) = None"
    by (rule UpsertProvisioningConfig_ok [OF assms(1)]; rule that; assumption)
  then obtain c where c: "config_of appID (pa_configs s') = Some c" "saved_row ?r (token_hash raw) enc (config_of appID (pa_configs s)) c"
    using upserted_row by metis
  have sel: "select_one None ?P (pa_configs s') = Ok c" by (simp add: select_config c(1))
  have excl: "cq_token raw \<noteq> [] \<Longrightarrow> \<not> cq_clear raw"
    using ok(1) by (auto simp: config_error_def normalise_fields split: if_splits option.splits)
  then have "cq_token raw \<noteq> [] \<longrightarrow> configured (pc_hash c)"
    using c(2) by (auto simp: saved_row_def normalise_fields token_hash_def first_of_def configured_def)
  then have "token_configured env appID ?r (pa_configs s') = configured (pc_hash c)"
    using sel c(2) assms(2) by (auto simp: token_configured_def normalise_fields configured_def saved_row_def)
  then have "GetProvisioningConfig env appID s' = RespondJSON 200 resp"
    using ok(4,5) sel c(2) assms(2) by (simp add: GetProvisioningConfig_def saved_row_def normalise_fields)
  moreover have "cq_token raw \<noteq> [] \<longrightarrow> stored_token (le_keys (pv_load env)) c = Some (cq_token raw)"
    using saved_token [OF ok(2) _ _ assms(3)] c(2) excl by (auto simp: saved_row_def normalise_fields)
  moreover have "cq_clear raw \<longrightarrow> pc_enc c = None" using c(2) by (simp add: saved_row_def normalise_fields)
  moreover have "cq_token raw = [] \<and> \<not> cq_clear raw \<longrightarrow>
      pc_enc c = (case select_one None ?P (pa_configs s) of Ok o' \<Rightarrow> pc_enc o' | _ \<Rightarrow> None)"
    using c(2) ok(2) by (auto simp: sealed_token_def normalise_fields first_of_def saved_row_def select_config split: option.split)
  ultimately show ?thesis using sel upsert_others [of appID] ok(3) by auto
qed

definition sample_pa_env :: pa_env where
  "sample_pa_env = \<lparr>pv_has_db = True, pv_oc = Some \<lparr>oc_org = ''o1'', oc_role = ''admin''\<rparr>, pv_actor = ''admin'', pv_gate_err = None,
     pv_read_err = None, pv_exec_err = None, pv_user_err = None, pv_outbound = sample_outbound, pv_random = Inr ''twelve bytes'',
     pv_load = \<lparr>le_query = None, le_scans = (\<lambda>_. True), le_rows = None, le_keys = sample_key_env\<rparr>, pv_dial = (\<lambda>_. working),
     pv_audit = sample_write_env\<rparr>"

definition sample_pa :: pa_state where
  "sample_pa = \<lparr>pa_apps = sample_apps\<lparr>as_apps := [sample_app\<lparr>ca_id := sample_uuid\<rparr>]\<rparr>, pa_configs = [], pa_engine = Some []\<rparr>"

definition sample_config :: config_request where
  "sample_config = \<lparr>cq_enabled = True, cq_type = '' slack'', cq_endpoint = [], cq_token = ''xoxb-1'', cq_clear = False, cq_attrs = None\<rparr>"

theorem provisioning_config_roundtrip_witness:
  "\<exists>resp s'. UpsertProvisioningConfig (\<lambda>b. b) sample_pa_env sample_uuid (Some sample_config) sample_pa = (RespondJSON 200 resp, s')
     \<and> GetProvisioningConfig sample_pa_env sample_uuid s' = RespondJSON 200 resp"
proof -
  have "ValidateUserID sample_uuid = None" unfolding sample_uuid_def by code_simp
  then have g: "gate_app sample_pa_env sample_uuid sample_pa = (None :: config_response response option)"
    by (simp add: gate_app_def sample_pa_env_def requireAppInCallerOrg_def RequireResourceInCallerOrg_def CheckResourceInOrg_def
        allowedOrgTables_def select_one_def app_rows_of_def sample_pa_def sample_app_def)
  have n: "normalise_config sample_config = sample_config\<lparr>cq_type := ''slack''\<rparr>" unfolding normalise_config_def sample_config_def by code_simp
  then have "config_error (pv_outbound sample_pa_env) (normalise_config sample_config) = None"
    by (simp add: config_error_def sample_config_def)
  moreover obtain enc where "sealed_token sample_pa_env (normalise_config sample_config) = Inr enc"
    unfolding n by (simp add: sealed_token_def sample_config_def sample_pa_env_def encryptProvisioningToken_def sample_master_key)
  ultimately obtain resp s' where u: "UpsertProvisioningConfig (\<lambda>b. b) sample_pa_env sample_uuid (Some sample_config) sample_pa = (RespondJSON 200 resp, s')"
    using g by (simp add: UpsertProvisioningConfig_def Let_def sample_pa_env_def)
  have "pv_read_err sample_pa_env = None" "pv_random sample_pa_env = Inr n \<Longrightarrow> length n = 12" for n by (auto simp: sample_pa_env_def)
  from provisioning_config_roundtrip [OF u this] u show ?thesis by blast
qed

section \<open>Pending rows\<close>

text \<open>\<open>ReconcileAllHandler\<close> resets rows in error and pending rows; the pass of the engine it starts takes no pending row up.\<close>

lemma reconcile_all_skips_pending: "(r, u) \<in> set (stale_entries now pdb) \<Longrightarrow> ps_status r \<noteq> StatusPending"
  by (auto simp: stale_entries_def due_def)

end
