(* ===== verification/Routes.thy ===== *)
theory Routes
  imports Org_Scope
begin

text \<open>
  The route table, \<open>handlers/routes.go\<close>: every endpoint with the middlewares in front of its handler, in the order in
  which the groups of \<open>SetupRoutes\<close> nest, and beside them the metrics endpoint that \<open>cmd/server/main.go\<close> mounts.  The router itself, which chooses an entry of the table for a request, is
  the library \<open>chi\<close>; the theorems hold for every entry.  \<open>Auth\<close> and \<open>Org_Scope\<close> model the middlewares.
\<close>

section \<open>The table\<close>

datatype http_method = GET | POST | PUT | PATCH | DELETE | HEAD | OPTIONS | CONNECT | TRACE

datatype guard =
    Limiter int string
  | AuthMW
  | ActorIDMW
  | OrgContextMW
  | Permission permission
  | OrgAdminOrSystemAdmin
  | ScimBearerMW
  | ScimOrgBearerMW
  | AccessEvalBearerMW

record route =
  ro_method :: http_method
  ro_pattern :: string
  ro_handler :: string
  ro_guards :: "guard list"

definition endpoint :: "http_method \<Rightarrow> string \<Rightarrow> string \<Rightarrow> route" where
  "endpoint m p h = \<lparr>ro_method = m, ro_pattern = p, ro_handler = h, ro_guards = []\<rparr>"

definition group :: "guard list \<Rightarrow> route list \<Rightarrow> route list" where
  "group gs rs = map (\<lambda>r. r\<lparr>ro_guards := gs @ ro_guards r\<rparr>) rs"

definition With :: "permission \<Rightarrow> route \<Rightarrow> route" where
  "With p r = r\<lparr>ro_guards := Permission p # ro_guards r\<rparr>"

definition under :: "string \<Rightarrow> route list \<Rightarrow> route list" where
  "under prefix rs = map (\<lambda>r. r\<lparr>ro_pattern := prefix @ ro_pattern r\<rparr>) rs"

definition probe_routes :: "route list" where
  "probe_routes =
     [endpoint GET ''/healthz'' ''Healthz'', endpoint GET ''/readyz'' ''Readyz'', endpoint GET ''/api/v1/health'' ''Health'']
   @ group [Limiter 30 ''health'']
       [endpoint GET ''/api/v1/health/keycloak'' ''HealthKeycloak'', endpoint GET ''/api/v1/health/fleetdm'' ''HealthFleet'']"

definition enrollment_routes :: "route list" where
  "enrollment_routes =
     group [Limiter 60 ''enrollment_callback''] [endpoint POST ''/api/v1/fleet/enrollment-callback'' ''FleetEnrollmentCallback'']
   @ group [Limiter 20 ''device_cookie''] [endpoint POST ''/api/v1/enrollment/device-identity'' ''SetDeviceIdentityCookie'']"

definition scim_resources :: "route list" where
  "scim_resources =
     [endpoint GET ''/Users'' ''SCIMListUsers'', endpoint POST ''/Users'' ''SCIMCreateUser'',
      endpoint GET ''/Users/{id}'' ''SCIMGetUser'', endpoint PATCH ''/Users/{id}'' ''SCIMPatchUser'',
      endpoint DELETE ''/Users/{id}'' ''SCIMDeleteUser'',
      endpoint GET ''/Groups'' ''SCIMListGroups'', endpoint POST ''/Groups'' ''SCIMCreateGroup'',
      endpoint GET ''/Groups/{id}'' ''SCIMGetGroup'', endpoint PATCH ''/Groups/{id}'' ''SCIMPatchGroup'',
      endpoint DELETE ''/Groups/{id}'' ''SCIMDeleteGroup'']"

definition scim_routes :: "route list" where
  "scim_routes =
     [endpoint GET ''/scim/v2/ServiceProviderConfig'' ''SCIMServiceProviderConfig'',
      endpoint GET ''/scim/v2/ResourceTypes'' ''SCIMResourceTypes'', endpoint GET ''/scim/v2/Schemas'' ''SCIMSchemas'']
   @ group [ScimBearerMW] (under ''/scim/v2'' scim_resources)
   @ under ''/scim/v2/orgs/{orgID}'' (group [ScimOrgBearerMW] scim_resources)"

definition service_routes :: "route list" where
  "service_routes =
     group [AccessEvalBearerMW] [endpoint POST ''/api/v1/access/evaluate'' ''EvaluateAccess'']
   @ group [Limiter 10 ''forgot_password''] [endpoint POST ''/api/v1/auth/forgot-password'' ''ForgotPassword'']
   @ group [Limiter 10 ''setup''] [endpoint GET ''/api/v1/setup/status'' ''SetupStatus'', endpoint POST ''/api/v1/setup'' ''Setup'']"

definition org_routes :: "route list" where
  "org_routes =
     group [Permission PermManageOrgs] [endpoint POST ''/api/v1/orgs'' ''CreateOrg'', endpoint GET ''/api/v1/orgs'' ''ListOrgs'']
   @ [With PermSelfService (endpoint GET ''/api/v1/me'' ''Me'')]
   @ group [OrgAdminOrSystemAdmin]
       [endpoint GET ''/api/v1/orgs/{orgId}/members'' ''ListOrgMembers'',
        endpoint POST ''/api/v1/orgs/{orgId}/members'' ''AddOrgMember'',
        endpoint DELETE ''/api/v1/orgs/{orgId}/members/{userId}'' ''RemoveOrgMember'']"

definition mutate_routes :: "route list" where
  "mutate_routes = group [Limiter 20 ''mutate'']
     [With PermOnboardOffboard (endpoint POST ''/api/v1/onboard'' ''Onboard''),
      With PermOnboardOffboard (endpoint POST ''/api/v1/onboard/bulk'' ''BulkOnboard''),
      With PermOnboardOffboard (endpoint POST ''/api/v1/offboard/{userId}'' ''Offboard''),
      With PermManageApps (endpoint POST ''/api/v1/apps/create'' ''CreateApp''),
      With PermManageApps (endpoint POST ''/api/v1/apps/{appId}/assign'' ''AssignApp''),
      With PermManageApps (endpoint POST ''/api/v1/apps/templates/{templateId}/create'' ''CreateAppFromTemplate''),
      With PermManageUsers (endpoint PATCH ''/api/v1/users/{id}'' ''PatchUser''),
      With PermManageUsers (endpoint POST ''/api/v1/users/{id}/reset-password'' ''ResetPassword''),
      With PermManageGroups (endpoint POST ''/api/v1/groups'' ''CreateGroup''),
      With PermManageGroups (endpoint POST ''/api/v1/users/{id}/groups'' ''AssignUserToGroup''),
      With PermManageGroups (endpoint DELETE ''/api/v1/users/{id}/groups/{groupId}'' ''UnassignUserFromGroup''),
      With PermManageUsers (endpoint POST ''/api/v1/users/{id}/roles'' ''AssignRealmRoleToUser''),
      With PermManageMFA (endpoint POST ''/api/v1/users/{id}/require-mfa'' ''RequireMFA''),
      With PermManageDevices (endpoint POST ''/api/v1/devices/{id}/lock'' ''RemoteLock''),
      With PermManageDevices (endpoint POST ''/api/v1/devices/{id}/restart'' ''RemoteRestart''),
      With PermManageDevices (endpoint POST ''/api/v1/devices/{id}/lock-message'' ''RemoteLockWithMessage''),
      With PermManageDevices (endpoint POST ''/api/v1/devices/{id}/clear-passcode'' ''RemoteClearPasscode''),
      With PermManagePolicies (endpoint PUT ''/api/v1/apps/{appId}/policy'' ''UpsertAppAccessPolicy''),
      With PermManagePolicies (endpoint POST ''/api/v1/apps/{appId}/policy/preview'' ''PreviewAppPolicy''),
      With PermManagePolicies (endpoint POST ''/api/v1/teams'' ''CreateTeam''),
      With PermManagePolicies (endpoint POST ''/api/v1/teams/{id}/policies'' ''AssignTeamPolicy''),
      With PermManageDevices (endpoint POST ''/api/v1/teams/{id}/hosts'' ''MoveHostToTeam''),
      With PermManageApps (endpoint PUT ''/api/v1/apps/{appId}/provisioning'' ''UpsertProvisioningConfig''),
      With PermManageApps (endpoint POST ''/api/v1/apps/{appId}/provisioning/resync/{userId}'' ''ResyncUser''),
      With PermManageApps (endpoint POST ''/api/v1/apps/{appId}/provisioning/dry-run'' ''DryRunProvisioning''),
      With PermManageApps (endpoint POST ''/api/v1/apps/{appId}/provisioning/reconcile-all'' ''ReconcileAllHandler''),
      With PermManageCampaigns (endpoint POST ''/api/v1/review-schedules'' ''CreateReviewSchedule''),
      With PermManageCampaigns (endpoint PATCH ''/api/v1/review-schedules/{id}'' ''UpdateReviewSchedule''),
      With PermManageCampaigns (endpoint DELETE ''/api/v1/review-schedules/{id}'' ''DeleteReviewSchedule''),
      With PermManageUsers (endpoint POST ''/api/v1/federation/sources'' ''CreateFederationSource''),
      With PermManageUsers (endpoint PATCH ''/api/v1/federation/sources/{id}'' ''UpdateFederationSource''),
      With PermManageUsers (endpoint DELETE ''/api/v1/federation/sources/{id}'' ''DeleteFederationSource''),
      With PermManageUsers (endpoint POST ''/api/v1/federation/sources/{id}/test'' ''TestFederationConnection''),
      With PermManageUsers (endpoint POST ''/api/v1/federation/sources/{id}/sync'' ''TriggerFederationSync'')]"

definition read_routes :: "route list" where
  "read_routes =
     [With PermSelfService (endpoint POST ''/api/v1/auth/device-check'' ''DeviceCheck''),
      With PermReadApps (endpoint GET ''/api/v1/apps'' ''ListApps''),
      With PermReadApps (endpoint GET ''/api/v1/apps/{appId}/saml/idp-url'' ''GetSAMLIdPInitiatedURL''),
      With PermReadApps (endpoint GET ''/api/v1/apps/{appId}/saml/metadata'' ''GetSAMLMetadata''),
      With PermReadApps (endpoint GET ''/api/v1/apps/templates'' ''ListAppTemplates''),
      With PermReadApps (endpoint GET ''/api/v1/apps/{appId}/policy'' ''GetAppAccessPolicy''),
      With PermManageApps (endpoint GET ''/api/v1/apps/{appId}/provisioning'' ''GetProvisioningConfig''),
      With PermManageApps (endpoint GET ''/api/v1/apps/{appId}/provisioning/state'' ''ListProvisioningState''),
      With PermReadAuditLogs (endpoint GET ''/api/v1/audit-logs'' ''ListAuditLogs''),
      With PermExportAuditLogs (endpoint GET ''/api/v1/audit-logs/export'' ''ExportAuditLogs''),
      With PermReadAuditLogs (endpoint GET ''/api/v1/audit-logs/verify'' ''VerifyAuditChain''),
      With PermReadAuditLogs (endpoint GET ''/api/v1/audit-logs/integrity'' ''GetAuditIntegrity''),
      With PermExportAuditLogs (endpoint GET ''/api/v1/reports'' ''DownloadReport''),
      With PermReadUsers (endpoint GET ''/api/v1/users'' ''ListUsers''),
      With PermReadUsers (endpoint GET ''/api/v1/users/{id}'' ''GetUser''),
      With PermReadGroups (endpoint GET ''/api/v1/groups'' ''ListGroups''),
      With PermReadGroups (endpoint GET ''/api/v1/roles'' ''ListRealmRoles''),
      With PermReadUsers (endpoint GET ''/api/v1/users/{id}/mfa-status'' ''GetMFAStatus''),
      With PermReadCompliance (endpoint GET ''/api/v1/users/{id}/devices/software'' ''GetDeviceSoftware''),
      With PermReadCompliance (endpoint GET ''/api/v1/users/{id}/devices/compliance'' ''GetUserCompliance''),
      With PermReadCompliance (endpoint GET ''/api/v1/compliance'' ''GetOrgCompliance''),
      With PermReadCompliance (endpoint GET ''/api/v1/devices/{id}/commands'' ''GetDeviceCommandHistory''),
      With PermReadCompliance (endpoint GET ''/api/v1/policies'' ''ListPolicies''),
      With PermReadCompliance (endpoint GET ''/api/v1/teams'' ''ListTeams''),
      With PermManageUsers (endpoint GET ''/api/v1/admin/drift'' ''GetDrift'')]"

definition governance_routes :: "route list" where
  "governance_routes =
     group [Permission PermManageAPITokens]
       [endpoint POST ''/api/v1/api-tokens'' ''CreateAPIToken'', endpoint GET ''/api/v1/api-tokens'' ''ListAPITokens'',
        endpoint DELETE ''/api/v1/api-tokens/{id}'' ''RevokeAPIToken'']
   @ group [Permission PermReviewCampaigns]
       [endpoint GET ''/api/v1/campaigns'' ''ListCampaigns'', endpoint GET ''/api/v1/campaigns/{id}/items'' ''ListCampaignItems'',
        endpoint POST ''/api/v1/campaigns/{id}/items/{itemId}/decide'' ''DecideCampaignItem'']
   @ group [Permission PermManageCampaigns]
       [endpoint POST ''/api/v1/campaigns'' ''CreateCampaign'', endpoint POST ''/api/v1/campaigns/{id}/complete'' ''CompleteCampaign'']
   @ [With PermReviewCampaigns (endpoint GET ''/api/v1/review-schedules'' ''ListReviewSchedules''),
      With PermReviewCampaigns (endpoint GET ''/api/v1/campaigns/{id}/export'' ''ExportCampaign'')]"

definition portal_routes :: "route list" where
  "portal_routes =
     group [Permission PermSelfService]
       [endpoint GET ''/api/v1/portal/me/devices'' ''PortalMyDevices'', endpoint GET ''/api/v1/portal/me/apps'' ''PortalMyApps'',
        endpoint GET ''/api/v1/portal/me/compliance'' ''PortalMyCompliance'',
        endpoint POST ''/api/v1/portal/access-requests'' ''PortalRequestAccess'',
        endpoint GET ''/api/v1/portal/me/mfa/factors'' ''PortalMyMFAFactors'',
        endpoint POST ''/api/v1/portal/me/mfa/totp/enroll'' ''PortalEnrollTOTP'',
        endpoint POST ''/api/v1/portal/me/mfa/webauthn/enroll'' ''PortalEnrollWebAuthn'',
        endpoint DELETE ''/api/v1/portal/me/mfa/factors/{credId}'' ''PortalRemoveMFAFactor'',
        endpoint GET ''/api/v1/portal/me/recovery-codes'' ''PortalRecoveryCodesStatus'',
        endpoint POST ''/api/v1/portal/me/recovery-codes'' ''PortalGenerateRecoveryCodes'']
   @ group [Permission PermManageUsers]
       [endpoint GET ''/api/v1/portal/access-requests'' ''AdminListAccessRequests'',
        endpoint PATCH ''/api/v1/portal/access-requests/{id}'' ''AdminDecideAccessRequest'']
   @ [With PermReadCompliance (endpoint GET ''/api/v1/analytics/snapshots'' ''GetAnalyticsSnapshots'')]"

definition settings_routes :: "route list" where
  "settings_routes = map (With PermManageAccountPolicy)
     [endpoint GET ''/api/v1/account-policy'' ''GetAccountPolicy'', endpoint PUT ''/api/v1/account-policy'' ''UpdateAccountPolicy'',
      endpoint GET ''/api/v1/settings/fleet'' ''GetFleetConfig'', endpoint PUT ''/api/v1/settings/fleet'' ''UpsertFleetConfig'',
      endpoint POST ''/api/v1/settings/fleet/test'' ''TestFleetConfig'',
      endpoint GET ''/api/v1/settings/smtp'' ''GetSMTPConfig'', endpoint PUT ''/api/v1/settings/smtp'' ''UpsertSMTPConfig'',
      endpoint POST ''/api/v1/settings/smtp/test'' ''TestSMTPEmail'',
      endpoint GET ''/api/v1/settings/identity-providers'' ''ListIdentityProviders'',
      endpoint POST ''/api/v1/settings/identity-providers'' ''CreateIdentityProvider'',
      endpoint PUT ''/api/v1/settings/identity-providers/{alias}'' ''UpdateIdentityProvider'',
      endpoint DELETE ''/api/v1/settings/identity-providers/{alias}'' ''DeleteIdentityProvider'']"

definition approval_routes :: "route list" where
  "approval_routes =
     [With PermSubmitApprovals (endpoint POST ''/api/v1/approval-requests'' ''SubmitApproval'')]
   @ group [Permission PermApproveRequests]
       [endpoint GET ''/api/v1/approval-requests'' ''ListApprovalRequests'',
        endpoint PATCH ''/api/v1/approval-requests/{id}'' ''DecideApproval'']
   @ [With PermManageUsers (endpoint GET ''/api/v1/federation/sources'' ''ListFederationSources''),
      With PermManageUsers (endpoint GET ''/api/v1/federation/sources/{id}'' ''GetFederationSource'')]"

definition e2e_routes :: "string \<Rightarrow> route list" where
  "e2e_routes app_env =
     (if app_env = ''test'' then group [ScimBearerMW]
        [endpoint POST ''/api/v1/e2e/enrollment-token'' ''E2ECreateEnrollmentToken'',
         endpoint POST ''/api/v1/e2e/seed-org'' ''E2ESeedOrgWithAdminToken'']
      else [])"

definition public_routes :: "route list" where
  "public_routes = probe_routes @ enrollment_routes @ scim_routes @ service_routes"

definition user_routes :: "route list" where
  "user_routes = group [AuthMW, ActorIDMW, OrgContextMW]
     (org_routes @ mutate_routes @ read_routes @ governance_routes @ portal_routes @ settings_routes @ approval_routes)"

definition SetupRoutes :: "string \<Rightarrow> route list" where
  "SetupRoutes app_env = public_routes @ user_routes @ e2e_routes app_env"

text \<open>The router of the server: the scrape target of the metrics, mounted for every method and without any check, and
  the routes above.\<close>

definition metrics_routes :: "route list" where
  "metrics_routes = map (\<lambda>m. endpoint m ''/metrics'' ''promhttp.Handler'') [GET, POST, PUT, PATCH, DELETE, HEAD, OPTIONS, CONNECT, TRACE]"

definition server_routes :: "string \<Rightarrow> route list" where
  "server_routes app_env = metrics_routes @ SetupRoutes app_env"

section \<open>Running the middlewares\<close>

text \<open>What the middlewares with a state of their own decide about the request; the others are the functions of
  \<open>Auth\<close> and \<open>Org_Scope\<close>.\<close>

record guard_env =
  ge_limit :: "string \<Rightarrow> bool"
  ge_auth :: verdict
  ge_org :: org_env
  ge_scim :: verdict
  ge_scim_org :: verdict
  ge_access :: verdict

fun run_guard :: "guard_env \<Rightarrow> guard \<Rightarrow> jwt_claims option \<Rightarrow> org_context option \<Rightarrow> verdict" where
  "run_guard env (Limiter n name) c oc = (if ge_limit env name then Pass c oc else Reject 429 ''rate limit exceeded'')"
| "run_guard env AuthMW c oc = ge_auth env"
| "run_guard env ActorIDMW c oc = Pass c oc"
| "run_guard env OrgContextMW c oc = OrgContextMiddleware (ge_org env) c oc"
| "run_guard env (Permission p) c oc = RequirePermission p c oc"
| "run_guard env OrgAdminOrSystemAdmin c oc = RequireOrgAdminOrSystemAdmin c oc"
| "run_guard env ScimBearerMW c oc = ge_scim env"
| "run_guard env ScimOrgBearerMW c oc = ge_scim_org env"
| "run_guard env AccessEvalBearerMW c oc = ge_access env"

fun run_guards :: "guard_env \<Rightarrow> guard list \<Rightarrow> jwt_claims option \<Rightarrow> org_context option \<Rightarrow> verdict" where
  "run_guards env [] c oc = Pass c oc"
| "run_guards env (g # gs) c oc = (case run_guard env g c oc of Reject st m \<Rightarrow> Reject st m | Pass c oc \<Rightarrow> run_guards env gs c oc)"

definition serve :: "guard_env \<Rightarrow> route \<Rightarrow> verdict" where
  "serve env r = run_guards env (ro_guards r) None None"

section \<open>Checks that only pass or reject\<close>

fun pure_check :: "guard \<Rightarrow> bool" where
  "pure_check (Limiter _ _) = True"
| "pure_check (Permission _) = True"
| "pure_check OrgAdminOrSystemAdmin = True"
| "pure_check _ = False"

lemma pure_check_keeps: "pure_check g \<Longrightarrow> run_guard env g c oc = Pass c' oc' \<Longrightarrow> c' = c \<and> oc' = oc"
  by (cases g) (auto simp: RequirePermission_def RequireOrgAdminOrSystemAdmin_def split: if_splits)

lemma run_checks:
  "list_all pure_check gs \<Longrightarrow> run_guards env gs c oc = Pass c' oc' \<longleftrightarrow> c' = c \<and> oc' = oc \<and> (\<forall>g \<in> set gs. run_guard env g c oc = Pass c oc)"
proof (induction gs arbitrary: c oc)
  case (Cons g gs)
  show ?case
  proof (cases "run_guard env g c oc")
    case (Pass c1 oc1)
    with pure_check_keeps [of g env c oc c1 oc1] Cons show ?thesis by auto
  qed simp
qed auto

lemma org_context_some:
  "OrgContextMiddleware env c oc = Pass c' oc' \<Longrightarrow> \<exists>jc x. c = Some jc \<and> c' = Some jc \<and> oc' = Some x"
  by (auto simp: OrgContextMiddleware_def Let_def split: option.splits sum.splits if_splits list.splits)

text \<open>The routes for users: signed in, then in an organisation, then checked.\<close>

definition user_checks :: "route \<Rightarrow> guard list" where
  "user_checks r = drop 3 (ro_guards r)"

lemma permission_case: "(case g of Permission p \<Rightarrow> P p | _ \<Rightarrow> False) \<longleftrightarrow> (\<exists>p. g = Permission p \<and> P p)"
  by (cases g) auto

lemma user_routes_shape:
  assumes "r \<in> set user_routes"
  shows "ro_guards r = [AuthMW, ActorIDMW, OrgContextMW] @ user_checks r"
    and "list_all pure_check (user_checks r)"
    and "OrgAdminOrSystemAdmin \<in> set (user_checks r) \<or> (\<exists>p. Permission p \<in> set (user_checks r))"
proof -
  have "list_all (\<lambda>r. take 3 (ro_guards r) = [AuthMW, ActorIDMW, OrgContextMW] \<and> list_all pure_check (user_checks r)
      \<and> list_ex (\<lambda>g. g = OrgAdminOrSystemAdmin \<or> (case g of Permission p \<Rightarrow> True | _ \<Rightarrow> False)) (user_checks r)) user_routes"
    by code_simp
  with assms have a: "take 3 (ro_guards r) = [AuthMW, ActorIDMW, OrgContextMW]" "list_all pure_check (user_checks r)"
    "list_ex (\<lambda>g. g = OrgAdminOrSystemAdmin \<or> (case g of Permission p \<Rightarrow> True | _ \<Rightarrow> False)) (user_checks r)"
    unfolding list_all_iff by blast+
  from a(1) show "ro_guards r = [AuthMW, ActorIDMW, OrgContextMW] @ user_checks r"
    unfolding user_checks_def by (metis append_take_drop_id)
  show "list_all pure_check (user_checks r)" by fact
  from a(3) show "OrgAdminOrSystemAdmin \<in> set (user_checks r) \<or> (\<exists>p. Permission p \<in> set (user_checks r))"
    by (auto simp: list_ex_iff permission_case)
qed

lemma served_user:
  assumes "r \<in> set user_routes" and "serve env r = Pass c oc"
  obtains jc x oc0 where "c = Some jc" "oc = Some x" "ge_auth env = Pass (Some jc) oc0"
    "OrgContextMiddleware (ge_org env) (Some jc) oc0 = Pass (Some jc) (Some x)"
    "\<And>p. Permission p \<in> set (user_checks r) \<Longrightarrow> roleHasPermission (jc_role jc) p"
    "OrgAdminOrSystemAdmin \<in> set (user_checks r) \<Longrightarrow> jc_role jc = RoleSuperAdmin \<or> oc_role x = OrgMembershipRoleAdmin"
proof -
  note shape = user_routes_shape [OF assms(1)]
  from assms(2) obtain c0 oc0 where a: "ge_auth env = Pass c0 oc0"
    by (auto simp: serve_def shape(1) split: verdict.splits)
  with assms(2) obtain c1 oc1 where o: "OrgContextMiddleware (ge_org env) c0 oc0 = Pass c1 oc1"
    by (auto simp: serve_def shape(1) split: verdict.splits)
  with a assms(2) have run: "run_guards env (user_checks r) c1 oc1 = Pass c oc" by (simp add: serve_def shape(1))
  then have eq: "c = c1" "oc = oc1" and all: "\<forall>g \<in> set (user_checks r). run_guard env g c1 oc1 = Pass c1 oc1"
    using run_checks [OF shape(2)] by auto
  from org_context_some [OF o] obtain jc x where j: "c0 = Some jc" "c1 = Some jc" "oc1 = Some x" by blast
  show ?thesis
  proof (rule that [of jc x oc0])
    show "roleHasPermission (jc_role jc) p" if "Permission p \<in> set (user_checks r)" for p
      using all that j by (force simp: RequirePermission_def HasPermission_def split: if_splits)
    show "jc_role jc = RoleSuperAdmin \<or> oc_role x = OrgMembershipRoleAdmin" if "OrgAdminOrSystemAdmin \<in> set (user_checks r)"
      using all that j by (force simp: RequireOrgAdminOrSystemAdmin_def split: if_splits)
  qed (use a o j eq in auto)
qed

text \<open>What is open to everyone, by design: probes, discovery, the callback that checks a signature of its own, and the
  endpoints in front of a login.\<close>

fun rate_limited :: "guard list \<Rightarrow> bool" where
  "rate_limited [Limiter _ _] = True"
| "rate_limited _ = False"

lemma rate_limited_run:
  "rate_limited gs \<Longrightarrow> run_guards env gs c oc = Pass c' oc' \<Longrightarrow> \<exists>n name. Limiter n name \<in> set gs \<and> ge_limit env name"
  by (induction gs rule: rate_limited.induct) (auto split: if_splits)

definition open_handlers :: "string list" where
  "open_handlers = [''Healthz'', ''Readyz'', ''Health'', ''HealthKeycloak'', ''HealthFleet'', ''FleetEnrollmentCallback'',
     ''SetDeviceIdentityCookie'', ''SCIMServiceProviderConfig'', ''SCIMResourceTypes'', ''SCIMSchemas'', ''ForgotPassword'', ''SetupStatus'', ''Setup'']"

lemma public_routes_shape:
  assumes "r \<in> set public_routes"
  shows "ro_guards r \<in> {[ScimBearerMW], [ScimOrgBearerMW], [AccessEvalBearerMW]}
    \<or> ro_handler r \<in> set open_handlers \<and> (ro_method r = GET \<or> rate_limited (ro_guards r))"
proof -
  have "list_all (\<lambda>r. (ro_guards r = [ScimBearerMW] \<or> ro_guards r = [ScimOrgBearerMW] \<or> ro_guards r = [AccessEvalBearerMW])
      \<or> ro_handler r \<in> set open_handlers \<and> (ro_method r = GET \<or> rate_limited (ro_guards r))) public_routes"
    by code_simp
  with assms show ?thesis unfolding list_all_iff by blast
qed

text \<open>C6. No handler runs unauthorised.  In every environment but the test stack, a request that reaches the handler of
  any route of the server was let in by one of these: a signed-in user, in an organisation resolved for that user, whose role has the
  permission of the route or who administers the organisation; a bearer token of SCIM or of the access evaluation; or the route is open by
  design: one of thirteen handlers of the API, and then it only reads or is rate limited, or, as the fourteenth, the scrape of the
  metrics.\<close>

theorem every_route_guarded:
  assumes "app_env \<noteq> ''test''" and "r \<in> set (server_routes app_env)" and "serve env r = Pass c oc"
  shows "(\<exists>jc x oc0. c = Some jc \<and> oc = Some x \<and> ge_auth env = Pass (Some jc) oc0
       \<and> OrgContextMiddleware (ge_org env) (Some jc) oc0 = Pass (Some jc) (Some x)
       \<and> ((\<exists>p. Permission p \<in> set (ro_guards r) \<and> roleHasPermission (jc_role jc) p)
          \<or> OrgAdminOrSystemAdmin \<in> set (ro_guards r) \<and> (jc_role jc = RoleSuperAdmin \<or> oc_role x = OrgMembershipRoleAdmin)))
    \<or> ScimBearerMW \<in> set (ro_guards r) \<and> ge_scim env = Pass c oc
    \<or> ScimOrgBearerMW \<in> set (ro_guards r) \<and> ge_scim_org env = Pass c oc
    \<or> AccessEvalBearerMW \<in> set (ro_guards r) \<and> ge_access env = Pass c oc
    \<or> ro_handler r \<in> set open_handlers \<and> (ro_method r = GET \<or> (\<exists>n name. Limiter n name \<in> set (ro_guards r) \<and> ge_limit env name))
    \<or> ro_pattern r = ''/metrics'' \<and> ro_handler r = ''promhttp.Handler''"
proof (cases "r \<in> set user_routes")
  case True
  note shape = user_routes_shape [OF True]
  from True assms(3) show ?thesis
  proof (rule served_user)
    fix jc x oc0
    assume h: "c = Some jc" "oc = Some x" "ge_auth env = Pass (Some jc) oc0"
      "OrgContextMiddleware (ge_org env) (Some jc) oc0 = Pass (Some jc) (Some x)"
      "\<And>p. Permission p \<in> set (user_checks r) \<Longrightarrow> roleHasPermission (jc_role jc) p"
      "OrgAdminOrSystemAdmin \<in> set (user_checks r) \<Longrightarrow> jc_role jc = RoleSuperAdmin \<or> oc_role x = OrgMembershipRoleAdmin"
    have "set (user_checks r) \<subseteq> set (ro_guards r)" unfolding user_checks_def by (rule set_drop_subset)
    with h shape(3) show ?thesis by blast
  qed
next
  case False
  with assms(1,2) consider "r \<in> set metrics_routes" | "r \<in> set public_routes"
    by (auto simp: server_routes_def SetupRoutes_def e2e_routes_def)
  then consider "ro_pattern r = ''/metrics'' \<and> ro_handler r = ''promhttp.Handler''"
    | "ro_guards r \<in> {[ScimBearerMW], [ScimOrgBearerMW], [AccessEvalBearerMW]}"
    | "ro_handler r \<in> set open_handlers \<and> (ro_method r = GET \<or> rate_limited (ro_guards r))"
    using public_routes_shape [of r] by cases (auto simp: metrics_routes_def endpoint_def)
  then show ?thesis
  proof cases
    case 1
    then show ?thesis by blast
  next
    case 2
    with assms(3) show ?thesis by (auto simp: serve_def split: verdict.splits)
  next
    case 3
    with assms(3) rate_limited_run [of "ro_guards r" env None None c oc] show ?thesis by (auto simp: serve_def)
  qed
qed

text \<open>What each role may change through the API besides its own account, apart from the members of an organisation it
  administers.\<close>

definition own_account_handlers :: "string list" where
  "own_account_handlers = [''DeviceCheck'', ''PortalRequestAccess'', ''PortalEnrollTOTP'', ''PortalEnrollWebAuthn'', ''PortalRemoveMFAFactor'',
     ''PortalGenerateRecoveryCodes'']"

fun role_handlers :: "role \<Rightarrow> string list" where
  "role_handlers RoleHelpdesk = [''RequireMFA'', ''RemoteLock'', ''RemoteRestart'', ''RemoteLockWithMessage'', ''RemoteClearPasscode'',
     ''UpsertAppAccessPolicy'', ''PreviewAppPolicy'', ''CreateTeam'', ''AssignTeamPolicy'', ''MoveHostToTeam'', ''SubmitApproval'']"
| "role_handlers RoleAuditor = [''DecideCampaignItem'']"
| "role_handlers _ = []"

lemma changing_handlers:
  assumes "r \<in> set user_routes" and "ro_method r \<noteq> GET" and "OrgAdminOrSystemAdmin \<notin> set (user_checks r)"
    and "\<And>p. Permission p \<in> set (user_checks r) \<Longrightarrow> roleHasPermission q p" and "q \<noteq> RoleSuperAdmin"
  shows "ro_handler r \<in> set (own_account_handlers @ role_handlers q)"
proof -
  have "list_all (\<lambda>r. ro_method r = GET \<or> list_ex (\<lambda>g. g = OrgAdminOrSystemAdmin) (user_checks r)
      \<or> list_all (\<lambda>q. list_ex (\<lambda>g. case g of Permission p \<Rightarrow> \<not> roleHasPermission q p | _ \<Rightarrow> False) (user_checks r)
           \<or> ro_handler r \<in> set (own_account_handlers @ role_handlers q)) [RoleHelpdesk, RoleAuditor, RoleReadOnly, RoleEndUser]) user_routes"
    by code_simp
  with assms(1-3) have q: "\<forall>q \<in> set [RoleHelpdesk, RoleAuditor, RoleReadOnly, RoleEndUser].
      list_ex (\<lambda>g. case g of Permission p \<Rightarrow> \<not> roleHasPermission q p | _ \<Rightarrow> False) (user_checks r)
      \<or> ro_handler r \<in> set (own_account_handlers @ role_handlers q)"
    unfolding list_all_iff by (auto simp: list_ex_iff)
  have "q \<in> set [RoleHelpdesk, RoleAuditor, RoleReadOnly, RoleEndUser]" using assms(5) by (cases q) auto
  with q have "list_ex (\<lambda>g. case g of Permission p \<Rightarrow> \<not> roleHasPermission q p | _ \<Rightarrow> False) (user_checks r)
      \<or> ro_handler r \<in> set (own_account_handlers @ role_handlers q)" by blast
  with assms(4) show ?thesis by (auto simp: list_ex_iff permission_case)
qed


section \<open>A helpdesk request\<close>

definition helpdesk_env :: guard_env where
  "helpdesk_env = \<lparr>ge_limit = (\<lambda>name. True),
     ge_auth = Pass (Some \<lparr>jc_sub = ''kc1'', jc_username = ''ada'', jc_email = [], jc_is_admin = False, jc_role = RoleHelpdesk\<rparr>) None,
     ge_org = \<lparr>oe_has_db = True, oe_members_err = None, oe_exists_err = None,
       oe_memberships = [\<lparr>mb_user = ''kc1'', mb_org = ''o1'', mb_role = ''member''\<rparr>], oe_orgs = [''o1''], oe_header = []\<rparr>,
     ge_scim = Reject 401 [], ge_scim_org = Reject 401 [], ge_access = Reject 401 []\<rparr>"

definition lock_route :: route where
  "lock_route = hd (filter (\<lambda>r. ro_handler r = ''RemoteLock'') user_routes)"

lemma lock_route_eq:
  "lock_route = \<lparr>ro_method = POST, ro_pattern = ''/api/v1/devices/{id}/lock'', ro_handler = ''RemoteLock'',
     ro_guards = [AuthMW, ActorIDMW, OrgContextMW, Limiter 20 ''mutate'', Permission PermManageDevices]\<rparr>"
  by code_simp

lemma lock_route_in: "lock_route \<in> set user_routes"
  by code_simp

lemma serve_lock:
  "serve helpdesk_env lock_route = Pass (Some \<lparr>jc_sub = ''kc1'', jc_username = ''ada'', jc_email = [], jc_is_admin = False, jc_role = RoleHelpdesk\<rparr>)
     (Some \<lparr>oc_org = ''o1'', oc_role = ''member''\<rparr>)"
  by code_simp

theorem every_route_guarded_witness:
  "roleHasPermission RoleHelpdesk PermManageDevices \<and> ge_auth helpdesk_env \<noteq> Reject 401 []"
proof -
  have "lock_route \<in> set (server_routes ''production'')" using lock_route_in by (simp add: server_routes_def SetupRoutes_def)
  from every_route_guarded [OF _ this serve_lock] show ?thesis
    by (auto simp: lock_route_eq open_handlers_def OrgMembershipRoleAdmin_def)
qed


end
