(* ===== verification/Fleet_Client.thy ===== *)
theory Fleet_Client
  imports Access_Eval
begin

text \<open>
  The client of the FleetDM API, \<open>internal/fleet/client.go\<close>.  An operation returns its result and the requests it sent.
  The Fleet server is the parameter \<open>srv\<close>, which may answer anything or nothing; what \<open>encoding/json\<close> makes of a body
  is the record \<open>fleet_json\<close> of decoders, one for each type the client reads.

  \<open>GetHostSecurityState\<close> is the function \<open>fleet\<close> that the access evaluation of \<open>Access_Eval\<close> asks.
\<close>

section \<open>Data\<close>

record host =
  ho_id :: string
  ho_hostname :: string
  ho_os_version :: string
  ho_status :: string

record software =
  so_name :: string
  so_version :: string
  so_vulns :: "string list"

record fleet_policy =
  fp_id :: string
  fp_name :: string
  fp_query :: string
  fp_description :: string
  fp_resolution :: string
  fp_team_id :: string

record team =
  tm_id :: int
  tm_name :: string
  tm_description :: string

record os_posture =
  op_os_version :: string
  op_needs_update :: bool

text \<open>The two views of the host detail that the client decodes.\<close>

record host_security =
  hd_disk_encryption :: bool
  hd_firewall :: bool

record host_os =
  hd_os_version :: string
  hd_failing_policies :: int

record fleet_json =
  fj_token :: "string \<Rightarrow> string + string"
  fj_hosts :: "string \<Rightarrow> string + host list"
  fj_software :: "string \<Rightarrow> string + software list"
  fj_host :: "string \<Rightarrow> string + host_security"
  fj_os :: "string \<Rightarrow> string + host_os"
  fj_policies :: "string \<Rightarrow> string + fleet_policy list"
  fj_teams :: "string \<Rightarrow> string + team list"
  fj_team :: "string \<Rightarrow> string + team"

record fleet_client =
  fc_base_url :: string
  fc_api_token :: string
  fc_json :: fleet_json

record fleet_request =
  fr_method :: string
  fr_url :: string
  fr_authorization :: string
  fr_content_type :: string
  fr_body :: "jval option"

text \<open>A request that cannot be built or sent, or the status with the body or the error of reading it.\<close>

datatype fleet_answer = Not_created string | Not_sent string | Answered nat "string + string"

type_synonym fleet_server = "fleet_request \<Rightarrow> fleet_answer"
type_synonym 'a sent = "(string + 'a) \<times> fleet_request list"

section \<open>Requests\<close>

definition maxFleetResponseBytes :: int where
  "maxFleetResponseBytes = 10 * 2 ^ 20"

definition doRequest :: "fleet_server \<Rightarrow> fleet_client \<Rightarrow> string \<Rightarrow> string \<Rightarrow> jval option \<Rightarrow> string sent" where
  "doRequest srv f method path body =
     (let rq = \<lparr>fr_method = method, fr_url = fc_base_url f @ path, fr_authorization = ''Bearer '' @ fc_api_token f,
        fr_content_type = ''application/json'', fr_body = body\<rparr> in
      case srv rq of
        Not_created e \<Rightarrow> (Inl (''create request: '' @ e), [])
      | Not_sent e \<Rightarrow> (Inl (''fleet request failed: '' @ e), [rq])
      | Answered status (Inl e) \<Rightarrow> (Inl (''read response body: '' @ e), [rq])
      | Answered status (Inr resp) \<Rightarrow>
          if int (length resp) > maxFleetResponseBytes
          then (Inl (''fleet response too large (> '' @ show_int maxFleetResponseBytes @ '' bytes)''), [rq])
          else if status < 200 \<or> status \<ge> 300
          then (Inl (''fleet API error: status '' @ show_nat status @ '', body: '' @ resp), [rq])
          else (Inr resp, [rq]))"

text \<open>The pattern of the operations: send, wrap the error, decode.\<close>

definition fetch :: "fleet_server \<Rightarrow> fleet_client \<Rightarrow> string \<Rightarrow> string \<Rightarrow> jval option \<Rightarrow> string \<Rightarrow> string \<Rightarrow> (string \<Rightarrow> string + 'a) \<Rightarrow> 'a sent" where
  "fetch srv f method path body err parse_err decode =
     (case doRequest srv f method path body of
        (Inl e, rs) \<Rightarrow> (Inl (err @ e), rs)
      | (Inr b, rs) \<Rightarrow> (case decode b of Inl e \<Rightarrow> (Inl (parse_err @ e), rs) | Inr x \<Rightarrow> (Inr x, rs)))"

definition hosts_path :: string where
  "hosts_path = ''/api/v1/fleet/hosts''"

definition CreateEnrollmentToken :: "fleet_server \<Rightarrow> fleet_client \<Rightarrow> string sent" where
  "CreateEnrollmentToken srv f =
     fetch srv f ''POST'' ''/api/v1/fleet/setup_experience/enrollment_tokens'' None
       ''fleetdm enrollment token creation failed: '' ''fleetdm enrollment token parse failed: '' (fj_token (fc_json f))"

text \<open>\<open>url.QueryEscape\<close>.\<close>

definition upper_hex :: "nat \<Rightarrow> char" where
  "upper_hex n = (if n < 10 then char_of (48 + n) else char_of (55 + n))"

definition is_letter :: "char \<Rightarrow> bool" where
  "is_letter c \<longleftrightarrow> 65 \<le> byte c \<and> byte c \<le> 90 \<or> 97 \<le> byte c \<and> byte c \<le> 122"

definition query_escape_char :: "char \<Rightarrow> string" where
  "query_escape_char c =
     (if is_letter c \<or> is_digit c \<or> c \<in> set ''-_.~'' then [c]
      else if c = CHR '' '' then ''+''
      else [CHR ''%'', upper_hex (byte c div 16), upper_hex (byte c mod 16)])"

definition query_escape :: "string \<Rightarrow> string" where
  "query_escape s = concat (map query_escape_char s)"

definition GetHosts :: "fleet_server \<Rightarrow> fleet_client \<Rightarrow> string \<Rightarrow> host list sent" where
  "GetHosts srv f query =
     fetch srv f ''GET'' (if query = [] then hosts_path else hosts_path @ ''?query='' @ query_escape query) None
       ''fleet hosts: '' ''fleet parse hosts: '' (fj_hosts (fc_json f))"

definition host_id_char :: "char \<Rightarrow> bool" where
  "host_id_char c \<longleftrightarrow> is_letter c \<or> is_digit c \<or> c = CHR ''_'' \<or> c = CHR ''-''"

definition hostIDPattern :: regex where
  "hostIDPattern = Plus (Cls host_id_char)"

definition validateHostID :: "string \<Rightarrow> string option" where
  "validateHostID hostID =
     (if hostID = [] then Some ''hostID is empty''
      else if \<not> MatchString hostIDPattern hostID then Some ''invalid hostID format''
      else None)"

definition host_path :: "string \<Rightarrow> string \<Rightarrow> string" where
  "host_path hostID suffix = hosts_path @ ''/'' @ hostID @ suffix"

section \<open>Reading hosts\<close>

definition MaxSoftwarePerHost :: nat where
  "MaxSoftwarePerHost = 1000"

definition GetHostSoftware :: "fleet_server \<Rightarrow> fleet_client \<Rightarrow> string \<Rightarrow> software list sent" where
  "GetHostSoftware srv f hostID =
     (case validateHostID hostID of Some e \<Rightarrow> (Inl e, []) | None \<Rightarrow>
      case fetch srv f ''GET'' (host_path hostID ''/software'') None ''fleet host software: '' ''fleet parse software: ''
             (fj_software (fc_json f)) of
        (Inl e, rs) \<Rightarrow> (Inl e, rs)
      | (Inr sw, rs) \<Rightarrow> (Inr (if length sw > MaxSoftwarePerHost then take MaxSoftwarePerHost sw else sw), rs))"

definition software_vulns :: "software list \<Rightarrow> string list" where
  "software_vulns sw = concat (map (\<lambda>s. map (\<lambda>v. so_name s @ '' '' @ so_version s @ '': '' @ v) (so_vulns s)) sw)"

definition GetHostSecurityState :: "fleet_server \<Rightarrow> fleet_client \<Rightarrow> string \<Rightarrow> host_state sent" where
  "GetHostSecurityState srv f hostID =
     (case validateHostID hostID of Some e \<Rightarrow> (Inl e, []) | None \<Rightarrow>
      case fetch srv f ''GET'' (host_path hostID []) None ''fleetdm unreachable: '' ''fleetdm parse error: '' (fj_host (fc_json f)) of
        (Inl e, rs) \<Rightarrow> (Inl e, rs)
      | (Inr h, rs) \<Rightarrow>
          (case GetHostSoftware srv f hostID of (sw, rs') \<Rightarrow>
             (Inr \<lparr>hs_firewall = hd_firewall h, hs_disk = hd_disk_encryption h,
                hs_vulns = (case sw of Inl _ \<Rightarrow> [] | Inr sw \<Rightarrow> software_vulns sw),
                hs_unknown_vulns = (case sw of Inl _ \<Rightarrow> True | Inr _ \<Rightarrow> False)\<rparr>, rs @ rs')))"

definition GetHostOSPosture :: "fleet_server \<Rightarrow> fleet_client \<Rightarrow> string \<Rightarrow> os_posture sent" where
  "GetHostOSPosture srv f hostID =
     (case validateHostID hostID of Some e \<Rightarrow> (Inl e, []) | None \<Rightarrow>
      case fetch srv f ''GET'' (host_path hostID []) None ''fleet GetHostOSPosture: '' ''fleet GetHostOSPosture parse: '' (fj_os (fc_json f)) of
        (Inl e, rs) \<Rightarrow> (Inl e, rs)
      | (Inr h, rs) \<Rightarrow> (Inr \<lparr>op_os_version = hd_os_version h, op_needs_update = hd_failing_policies h > 0\<rparr>, rs))"

definition fleet_Ping :: "fleet_server \<Rightarrow> fleet_client \<Rightarrow> string option \<times> fleet_request list" where
  "fleet_Ping srv f =
     (case doRequest srv f ''GET'' ''/api/v1/fleet/status'' None of (Inl e, rs) \<Rightarrow> (Some e, rs) | (Inr _, rs) \<Rightarrow> (None, rs))"

section \<open>Commands to hosts\<close>

definition host_command ::
  "fleet_server \<Rightarrow> fleet_client \<Rightarrow> string \<Rightarrow> string \<Rightarrow> jval option \<Rightarrow> string \<Rightarrow> string option \<times> fleet_request list" where
  "host_command srv f hostID suffix body what =
     (case validateHostID hostID of Some e \<Rightarrow> (Some e, []) | None \<Rightarrow>
      case doRequest srv f ''POST'' (host_path hostID suffix) body of
        (Inl e, rs) \<Rightarrow> (Some (what @ '' failed for host '' @ hostID @ '': '' @ e), rs)
      | (Inr _, rs) \<Rightarrow> (None, rs))"

definition IssueRemoteLock :: "fleet_server \<Rightarrow> fleet_client \<Rightarrow> string \<Rightarrow> string option \<times> fleet_request list" where
  "IssueRemoteLock srv f hostID = host_command srv f hostID ''/lock'' None ''remote lock''"

definition IssueRemoteWipe :: "fleet_server \<Rightarrow> fleet_client \<Rightarrow> string \<Rightarrow> string option \<times> fleet_request list" where
  "IssueRemoteWipe srv f hostID = host_command srv f hostID ''/wipe'' None ''remote wipe''"

definition IssueRestart :: "fleet_server \<Rightarrow> fleet_client \<Rightarrow> string \<Rightarrow> string option \<times> fleet_request list" where
  "IssueRestart srv f hostID = host_command srv f hostID ''/restart'' None ''remote restart''"

definition IssueLockWithMessage :: "fleet_server \<Rightarrow> fleet_client \<Rightarrow> string \<Rightarrow> string \<Rightarrow> string option \<times> fleet_request list" where
  "IssueLockWithMessage srv f hostID message =
     host_command srv f hostID ''/lock'' (Some (JObj [(''message'', JStr message)])) ''remote lock-with-message''"

definition IssueClearPasscode :: "fleet_server \<Rightarrow> fleet_client \<Rightarrow> string \<Rightarrow> string option \<times> fleet_request list" where
  "IssueClearPasscode srv f hostID = host_command srv f hostID ''/clear_passcode'' None ''clear passcode''"

section \<open>Policies and teams\<close>

definition fleet_ListPolicies :: "fleet_server \<Rightarrow> fleet_client \<Rightarrow> fleet_policy list sent" where
  "fleet_ListPolicies srv f =
     fetch srv f ''GET'' ''/api/v1/fleet/policies'' None ''fleet list policies: '' ''fleet parse policies: '' (fj_policies (fc_json f))"

definition fleet_ListTeams :: "fleet_server \<Rightarrow> fleet_client \<Rightarrow> team list sent" where
  "fleet_ListTeams srv f =
     fetch srv f ''GET'' ''/api/v1/fleet/teams'' None ''fleet list teams: '' ''fleet parse teams: '' (fj_teams (fc_json f))"

definition fleet_CreateTeam :: "fleet_server \<Rightarrow> fleet_client \<Rightarrow> string \<Rightarrow> string \<Rightarrow> team sent" where
  "fleet_CreateTeam srv f name description =
     fetch srv f ''POST'' ''/api/v1/fleet/teams'' (Some (JObj [(''name'', JStr name), (''description'', JStr description)]))
       ''fleet create team: '' ''fleet parse create team: '' (fj_team (fc_json f))"

definition AssignPolicyToTeam :: "fleet_server \<Rightarrow> fleet_client \<Rightarrow> int \<Rightarrow> string \<Rightarrow> string option \<times> fleet_request list" where
  "AssignPolicyToTeam srv f teamID policyID =
     (case validateHostID policyID of Some e \<Rightarrow> (Some (''invalid policyID: '' @ e), []) | None \<Rightarrow>
      case doRequest srv f ''POST'' (''/api/v1/fleet/teams/'' @ show_int teamID @ ''/policies'') (Some (JObj [(''policy_id'', JStr policyID)])) of
        (Inl e, rs) \<Rightarrow> (Some (''assign policy '' @ policyID @ '' to team '' @ show_int teamID @ '': '' @ e), rs)
      | (Inr _, rs) \<Rightarrow> (None, rs))"

text \<open>The id in the first message is quoted as \<open>%q\<close> does for printable text.\<close>

definition fleet_MoveHostToTeam :: "fleet_server \<Rightarrow> fleet_client \<Rightarrow> int \<Rightarrow> string list \<Rightarrow> string option \<times> fleet_request list" where
  "fleet_MoveHostToTeam srv f teamID hostIDs =
     (if hostIDs = [] then (None, [])
      else case find (\<lambda>i. validateHostID i \<noteq> None) hostIDs of
        Some i \<Rightarrow> (Some (''invalid host id '' @ [CHR 0x22] @ i @ [CHR 0x22] @ '': '' @ the (validateHostID i)), [])
      | None \<Rightarrow>
          (case doRequest srv f ''POST'' (hosts_path @ ''/transfer/teams'')
                  (Some (JObj [(''team_id'', JInt teamID), (''host_ids'', JArr (map JStr hostIDs))])) of
             (Inl e, rs) \<Rightarrow> (Some (''move hosts to team '' @ show_int teamID @ '': '' @ e), rs)
           | (Inr _, rs) \<Rightarrow> (None, rs)))"

section \<open>What a request looks like\<close>

lemma validateHostID_None: "validateHostID i = None \<longleftrightarrow> i \<noteq> [] \<and> list_all host_id_char i"
  by (auto simp: validateHostID_def hostIDPattern_def MatchString_iff matches_Plus_Cls)

text \<open>The parts of the URL of a request: the address of the server, the path of the hosts, the id and what follows.\<close>

definition host_request :: "fleet_client \<Rightarrow> string \<Rightarrow> string \<Rightarrow> string \<Rightarrow> fleet_request \<Rightarrow> bool" where
  "host_request f hostID method suffix rq \<longleftrightarrow>
     fr_method rq = method \<and> fr_url rq = fc_base_url f @ host_path hostID suffix \<and> fr_authorization rq = ''Bearer '' @ fc_api_token f
     \<and> hostID \<noteq> [] \<and> list_all host_id_char hostID"

lemma doRequest_sent: "rq \<in> set (snd (doRequest srv f m p b)) \<Longrightarrow>
    fr_method rq = m \<and> fr_url rq = fc_base_url f @ p \<and> fr_authorization rq = ''Bearer '' @ fc_api_token f \<and> fr_body rq = b"
  by (auto simp: doRequest_def Let_def split: fleet_answer.splits sum.splits if_splits)

lemma doRequest_Inr: "fst (doRequest srv f m p b) = Inr r \<Longrightarrow> snd (doRequest srv f m p b) \<noteq> []"
  by (auto simp: doRequest_def Let_def split: fleet_answer.splits sum.splits if_splits)

lemma fetch_sent: "snd (fetch srv f m p b e pe d) = snd (doRequest srv f m p b)"
  by (auto simp: fetch_def split: prod.splits sum.splits)

lemma host_command_requests:
  "snd (host_command srv f i suffix b what) = (if validateHostID i = None then snd (doRequest srv f ''POST'' (host_path i suffix) b) else [])"
  by (auto simp: host_command_def split: option.splits prod.splits sum.splits)

lemma GetHostSoftware_requests:
  "snd (GetHostSoftware srv f i) = (if validateHostID i = None then snd (doRequest srv f ''GET'' (host_path i ''/software'') None) else [])"
  unfolding GetHostSoftware_def
  by (auto split: option.splits prod.splits sum.splits) (metis fetch_sent snd_conv)+

lemma host_command_sent:
  "rq \<in> set (snd (host_command srv f i suffix b what)) \<Longrightarrow> host_request f i ''POST'' suffix rq \<and> fr_body rq = b"
  using doRequest_sent [of rq srv f "''POST''" "host_path i suffix" b]
  by (auto simp: host_command_requests host_request_def validateHostID_None split: if_splits)

lemma host_command_None:
  "fst (host_command srv f i suffix b what) = None \<Longrightarrow> snd (host_command srv f i suffix b what) \<noteq> []"
  using doRequest_Inr [of srv f "''POST''" "host_path i suffix" b]
  by (auto simp: host_command_def split: option.splits prod.splits sum.splits)

lemma GetHostSoftware_sent: "rq \<in> set (snd (GetHostSoftware srv f i)) \<Longrightarrow> host_request f i ''GET'' ''/software'' rq"
  using doRequest_sent [of rq srv f "''GET''" "host_path i ''/software''" None]
  by (auto simp: GetHostSoftware_requests host_request_def validateHostID_None split: if_splits)

lemma host_id_char_plain: "host_id_char c \<Longrightarrow> c \<notin> set ''/?#%.:@''"
  by (auto simp: host_id_char_def is_letter_def is_digit_def)

section \<open>The posture the access evaluation sees\<close>

definition fleet_posture :: "fleet_server \<Rightarrow> fleet_client \<Rightarrow> fleet" where
  "fleet_posture srv f = (\<lambda>hostID. fst (GetHostSecurityState srv f hostID))"

text \<open>What Fleet said about the host and its software.\<close>

definition host_answer :: "fleet_server \<Rightarrow> fleet_client \<Rightarrow> string \<Rightarrow> string + host_security" where
  "host_answer srv f hostID = fst (fetch srv f ''GET'' (host_path hostID []) None ''fleetdm unreachable: '' ''fleetdm parse error: '' (fj_host (fc_json f)))"

definition software_answer :: "fleet_server \<Rightarrow> fleet_client \<Rightarrow> string \<Rightarrow> string + software list" where
  "software_answer srv f hostID = fst (fetch srv f ''GET'' (host_path hostID ''/software'') None ''fleet host software: '' ''fleet parse software: ''
     (fj_software (fc_json f)))"

lemma GetHostSoftware_result:
  "validateHostID i = None \<Longrightarrow>
     fst (GetHostSoftware srv f i) = (case software_answer srv f i of Inl e \<Rightarrow> Inl e | Inr sw \<Rightarrow> Inr (take MaxSoftwarePerHost sw))"
  by (auto simp: GetHostSoftware_def software_answer_def split: prod.splits sum.splits)

lemma GetHostSecurityState_result:
  "validateHostID i = None \<Longrightarrow>
     fst (GetHostSecurityState srv f i) = (case host_answer srv f i of Inl e \<Rightarrow> Inl e | Inr h \<Rightarrow>
       Inr \<lparr>hs_firewall = hd_firewall h, hs_disk = hd_disk_encryption h,
         hs_vulns = (case fst (GetHostSoftware srv f i) of Inl _ \<Rightarrow> [] | Inr sw \<Rightarrow> software_vulns sw),
         hs_unknown_vulns = (case fst (GetHostSoftware srv f i) of Inl _ \<Rightarrow> True | Inr _ \<Rightarrow> False)\<rparr>)"
  by (simp add: GetHostSecurityState_def host_answer_def case_prod_beta split: sum.split)

lemma software_vulns_Nil: "software_vulns sw = [] \<longleftrightarrow> list_all (\<lambda>s. so_vulns s = []) sw"
  by (auto simp: software_vulns_def list_all_iff)

text \<open>C31. The gate in front of the applications trusts nothing but Fleet.  A device counts as compliant exactly when its id is a
  plain token, both requests about it succeed and decode, Fleet reports an encrypted disk and a running firewall, and none of the
  first thousand packages of its inventory has a known vulnerability; an error of either request, or an answer that is too large or has another
  status, makes the device not compliant.\<close>

theorem posture_needs_fleet:
  "compliant (fleet_posture srv f) d \<longleftrightarrow>
     validateHostID d = None
     \<and> (case host_answer srv f d of Inl _ \<Rightarrow> False | Inr h \<Rightarrow> hd_disk_encryption h \<and> hd_firewall h)
     \<and> (case software_answer srv f d of Inl _ \<Rightarrow> False | Inr sw \<Rightarrow> list_all (\<lambda>s. so_vulns s = []) (take MaxSoftwarePerHost sw))"
proof (cases "validateHostID d")
  case None
  then show ?thesis
    by (simp add: compliant_def fleet_posture_def GetHostSecurityState_result GetHostSoftware_result software_vulns_Nil
        split: sum.split) blast
next
  case (Some e)
  then show ?thesis by (simp add: compliant_def fleet_posture_def GetHostSecurityState_def)
qed

text \<open>The truncation is silent: with more packages than the bound, a vulnerable one behind it is not seen, and the
  flag for incomplete data stays off.\<close>

lemma truncation_hides_vulnerability:
  assumes "validateHostID d = None" and "host_answer srv f d = Inr h" and "hd_disk_encryption h" and "hd_firewall h"
    and "software_answer srv f d = Inr (replicate MaxSoftwarePerHost clean @ [bad])" and "so_vulns clean = []" and "so_vulns bad \<noteq> []"
  shows "compliant (fleet_posture srv f) d"
  using assms
  by (simp add: compliant_def fleet_posture_def GetHostSecurityState_result GetHostSoftware_result software_vulns_Nil list_all_iff)

end
