(* ===== verification/Devices.thy ===== *)
theory Devices
  imports Fleet_Client Lifecycle
begin

text \<open>
  Devices: remote commands, software, compliance and the command history, \<open>internal/handlers/device_actions.go\<close>.

  A command goes to Fleet through the client of \<open>Fleet_Client\<close>, so a handler returns the HTTP requests it sent.  The
  reads take the answers of the Fleet interface as functions of the host id, which may differ from call to call.  The
  columns \<open>hostname\<close> and \<open>os_version\<close> of a device are texts, NULL being the empty one that \<open>COALESCE\<close> makes of it.
\<close>

section \<open>State\<close>

record command_row =
  cm_id :: string
  cm_host :: string
  cm_type :: string
  cm_status :: string
  cm_requested_by :: string
  cm_requested_at :: time
  cm_updated_at :: time
  cm_fleet_uuid :: "string option"
  cm_result :: "string option"
  cm_org :: string

record device_state =
  ds_life :: life_db
  ds_devices :: "device_row list"
  ds_commands :: "command_row list"

definition device_rows_of :: "device_state \<Rightarrow> org_row list" where
  "device_rows_of s = map (\<lambda>d. \<lparr>or_table = ''devices'', or_id = dv_host d, or_org = dv_org d\<rparr>) (ds_devices s) @ org_rows_of (ds_life s)"

section \<open>The gates\<close>

definition requireDeviceInCallerOrg ::
  "bool \<Rightarrow> string option \<Rightarrow> org_row list \<Rightarrow> org_context option \<Rightarrow> string \<Rightarrow> 'b response option" where
  "requireDeviceInCallerOrg has_db err rows oc deviceID =
     RequireResourceInCallerOrg has_db err rows oc ''devices'' ''fleet_host_id'' deviceID ''device not found''"

text \<open>The ids in the order of their first occurrence.\<close>

definition dedupe :: "string list \<Rightarrow> string list" where
  "dedupe ids = fold (\<lambda>i unique. if i \<in> set unique then unique else unique @ [i]) ids []"

record rows_env =
  rw_query_err :: "string option"
  rw_scan_fails :: "nat \<Rightarrow> bool"
  rw_err :: "string option"

text \<open>The rows a loop over a result sees, without those that fail to scan.\<close>

definition scan_rows :: "rows_env \<Rightarrow> 'r list \<Rightarrow> 'r list" where
  "scan_rows env rows = map snd (filter (\<lambda>x. \<not> rw_scan_fails env (fst x)) (enumerate 0 rows))"

definition requireDevicesInCallerOrg :: "bool \<Rightarrow> rows_env \<Rightarrow> device_row list \<Rightarrow> org_context option \<Rightarrow> string list \<Rightarrow> 'b response option" where
  "requireDevicesInCallerOrg has_db env devs oc deviceIDs =
     (case oc of None \<Rightarrow> Some (RespondError 403 ''forbidden: no organization context'') | Some x \<Rightarrow>
      if \<not> has_db then Some (RespondError 500 ''database not available'')
      else if deviceIDs = [] then None
      else let unique = dedupe deviceIDs in
      if rw_query_err env \<noteq> None then Some (RespondError 500 ''internal error'')
      else let found = length (scan_rows env (filter (\<lambda>d. dv_org d = oc_org x \<and> dv_host d \<in> set unique) devs)) in
      if rw_err env \<noteq> None then Some (RespondError 500 ''internal error'')
      else if found \<noteq> length unique then Some (RespondError 404 ''device not found'')
      else None)"

section \<open>Remote commands\<close>

record command_env =
  de_has_db :: bool
  de_oc :: "org_context option"
  de_actor :: string
  de_gate_err :: "string option"
  de_srv :: fleet_server
  de_client :: fleet_client
  de_audit :: write_env
  de_insert_err :: "string option"
  de_new_id :: string
  de_now :: time

definition persistDeviceCommand :: "command_env \<Rightarrow> string \<Rightarrow> string \<Rightarrow> string \<Rightarrow> device_state \<Rightarrow> device_state" where
  "persistDeviceCommand env hostID commandType requestedBy s =
     (if \<not> de_has_db env then s
      else case de_oc env of None \<Rightarrow> s | Some x \<Rightarrow>
      case de_insert_err env of Some _ \<Rightarrow> s
      | None \<Rightarrow> s\<lparr>ds_commands := ds_commands s @
          [\<lparr>cm_id = de_new_id env, cm_host = hostID, cm_type = commandType, cm_status = ''sent'', cm_requested_by = requestedBy,
            cm_requested_at = pg_timestamp (de_now env), cm_updated_at = pg_timestamp (de_now env),
            cm_fleet_uuid = None, cm_result = None, cm_org = oc_org x\<rparr>]\<rparr>)"

definition device_audit :: "(string \<Rightarrow> string) \<Rightarrow> command_env \<Rightarrow> string \<Rightarrow> string \<Rightarrow> (string \<times> jval) list \<Rightarrow> device_state \<Rightarrow> device_state" where
  "device_audit jt env action deviceID details s =
     s\<lparr>ds_life := (ds_life s)\<lparr>l_audit := log_best_effort jt (de_audit env) (de_oc env)
        \<lparr>ac_actor = de_actor env, ac_action = action, ac_target_type = ''device'', ac_target_id = deviceID, ac_details = Some (JObj details)\<rparr>
        (l_audit (ds_life s))\<rparr>\<rparr>"

text \<open>What every command checks first, and what it does once the client has answered.\<close>

definition command_gate :: "command_env \<Rightarrow> string \<Rightarrow> device_state \<Rightarrow> 'b response option" where
  "command_gate env deviceID s =
     (case ValidateHostID deviceID of Some e \<Rightarrow> Some (RespondError 400 (id_error_text ''host id'' e)) | None \<Rightarrow>
      requireDeviceInCallerOrg (de_has_db env) (de_gate_err env) (device_rows_of s) (de_oc env) deviceID)"

definition command_sent :: "(string \<Rightarrow> string) \<Rightarrow> command_env \<Rightarrow> string \<Rightarrow> string option \<times> fleet_request list \<Rightarrow> string \<Rightarrow> string
   \<Rightarrow> (string \<times> jval) list \<Rightarrow> string \<Rightarrow> 'b \<Rightarrow> device_state \<Rightarrow> 'b response \<times> fleet_request list \<times> device_state" where
  "command_sent jt env deviceID issued failure action details commandType answer s =
     (case issued of
        (Some e, rs) \<Rightarrow> (RespondError 502 failure, rs, s)
      | (None, rs) \<Rightarrow>
          (RespondJSON 200 answer, rs,
           if de_has_db env
           then persistDeviceCommand env deviceID commandType (de_actor env) (device_audit jt env action deviceID details s) else s))"

record lock_response =
  rl_device :: string
  rl_locked :: bool

definition RemoteLock :: "(string \<Rightarrow> string) \<Rightarrow> command_env \<Rightarrow> string \<Rightarrow> device_state \<Rightarrow> lock_response response \<times> fleet_request list \<times> device_state" where
  "RemoteLock jt env deviceID s =
     (case command_gate env deviceID s of Some r \<Rightarrow> (r, [], s) | None \<Rightarrow>
      command_sent jt env deviceID (IssueRemoteLock (de_srv env) (de_client env) deviceID) ''remote lock command failed''
        ''device_lock'' [(''device_id'', JStr deviceID)] ''lock'' \<lparr>rl_device = deviceID, rl_locked = True\<rparr> s)"

record restart_response =
  rr_device :: string
  rr_restarted :: bool

definition RemoteRestart :: "(string \<Rightarrow> string) \<Rightarrow> command_env \<Rightarrow> string \<Rightarrow> device_state \<Rightarrow> restart_response response \<times> fleet_request list \<times> device_state" where
  "RemoteRestart jt env deviceID s =
     (case command_gate env deviceID s of Some r \<Rightarrow> (r, [], s) | None \<Rightarrow>
      command_sent jt env deviceID (IssueRestart (de_srv env) (de_client env) deviceID) ''remote restart command failed''
        ''device_restart'' [(''device_id'', JStr deviceID)] ''restart'' \<lparr>rr_device = deviceID, rr_restarted = True\<rparr> s)"

definition maxLockMessageLen :: nat where
  "maxLockMessageLen = 500"

record lock_message_response =
  lm_device :: string
  lm_locked :: bool
  lm_message :: string

definition RemoteLockWithMessage :: "(string \<Rightarrow> string) \<Rightarrow> command_env \<Rightarrow> string \<Rightarrow> string option \<Rightarrow> device_state
   \<Rightarrow> lock_message_response response \<times> fleet_request list \<times> device_state" where
  "RemoteLockWithMessage jt env deviceID body s =
     (case command_gate env deviceID s of Some r \<Rightarrow> (r, [], s) | None \<Rightarrow>
      case body of None \<Rightarrow> (RespondError 400 ''invalid request body'', [], s) | Some message \<Rightarrow>
      if length message > maxLockMessageLen
      then (RespondError 400 (max_chars ''message'' ''500''), [], s)
      else if list_ex is_control message then (RespondError 400 ''message must not contain control characters'', [], s)
      else command_sent jt env deviceID (IssueLockWithMessage (de_srv env) (de_client env) deviceID message) ''remote lock command failed''
        ''device_lock_message'' [(''device_id'', JStr deviceID), (''message'', JStr message)] ''lock_message''
        \<lparr>lm_device = deviceID, lm_locked = True, lm_message = message\<rparr> s)"

record clear_response =
  rc_device :: string
  rc_cleared :: bool

definition RemoteClearPasscode :: "(string \<Rightarrow> string) \<Rightarrow> command_env \<Rightarrow> string \<Rightarrow> device_state \<Rightarrow> clear_response response \<times> fleet_request list \<times> device_state" where
  "RemoteClearPasscode jt env deviceID s =
     (case command_gate env deviceID s of Some r \<Rightarrow> (r, [], s) | None \<Rightarrow>
      command_sent jt env deviceID (IssueClearPasscode (de_srv env) (de_client env) deviceID) ''clear passcode command failed''
        ''device_clear_passcode'' [(''device_id'', JStr deviceID)] ''clear_passcode'' \<lparr>rc_device = deviceID, rc_cleared = True\<rparr> s)"

section \<open>The history\<close>

record history_env =
  hy_has_db :: bool
  hy_oc :: "org_context option"
  hy_gate_err :: "string option"
  hy_rows :: rows_env

record device_command =
  vc_id :: string
  vc_host :: string
  vc_type :: string
  vc_status :: string
  vc_requested_by :: string
  vc_requested_at :: string
  vc_updated_at :: string
  vc_fleet_uuid :: string
  vc_result :: string

definition text_or_empty :: "string option \<Rightarrow> string" where
  "text_or_empty x = (case x of None \<Rightarrow> [] | Some t \<Rightarrow> t)"

definition command_of :: "command_row \<Rightarrow> device_command" where
  "command_of r = \<lparr>vc_id = cm_id r, vc_host = cm_host r, vc_type = cm_type r, vc_status = cm_status r, vc_requested_by = cm_requested_by r,
     vc_requested_at = rfc3339 (cm_requested_at r), vc_updated_at = rfc3339 (cm_updated_at r),
     vc_fleet_uuid = text_or_empty (cm_fleet_uuid r), vc_result = text_or_empty (cm_result r)\<rparr>"

definition maxDeviceCommandHistory :: nat where
  "maxDeviceCommandHistory = 50"

text \<open>Behind the gate there is an organisation; without one the dereference would panic.\<close>

definition GetDeviceCommandHistory :: "history_env \<Rightarrow> string \<Rightarrow> device_state \<Rightarrow> device_command list response" where
  "GetDeviceCommandHistory env deviceID s =
     (case ValidateHostID deviceID of Some e \<Rightarrow> RespondError 400 (id_error_text ''host id'' e) | None \<Rightarrow>
      case requireDeviceInCallerOrg (hy_has_db env) (hy_gate_err env) (device_rows_of s) (hy_oc env) deviceID of Some r \<Rightarrow> r | None \<Rightarrow>
      if \<not> hy_has_db env then RespondError 500 ''database not available''
      else case hy_oc env of None \<Rightarrow> RespondError 500 [] | Some x \<Rightarrow>
      if rw_query_err (hy_rows env) \<noteq> None then RespondError 500 ''internal error''
      else if rw_err (hy_rows env) \<noteq> None then RespondError 500 ''internal error''
      else RespondJSON 200 (map command_of (scan_rows (hy_rows env)
        (take maxDeviceCommandHistory (sort_key (\<lambda>r. - cm_requested_at r)
          (filter (\<lambda>r. cm_host r = deviceID \<and> cm_org r = oc_org x) (ds_commands s)))))))"

section \<open>Software\<close>

record read_env =
  rd_has_db :: bool
  rd_oc :: "org_context option"
  rd_gate_err :: "string option"
  rd_rows :: rows_env
  rd_software :: "string \<Rightarrow> string + software list"
  rd_state :: fleet
  rd_os :: "string \<Rightarrow> string + os_posture"
  rd_by_hostname :: "device_row list \<Rightarrow> device_row list"
  rd_snapshotter :: bool
  rd_needs_update :: string

definition user_devices :: "string \<Rightarrow> device_state \<Rightarrow> device_row list" where
  "user_devices userID s =
     concat (map (\<lambda>d. map (\<lambda>m. d) (filter (\<lambda>m. snd m = dv_host d \<and> fst m = userID) (l_mapping (ds_life s)))) (ds_devices s))"

record device_software =
  dw_device :: string
  dw_hostname :: string
  dw_software :: "software list"

definition GetDeviceSoftware :: "read_env \<Rightarrow> string \<Rightarrow> device_state \<Rightarrow> (string \<times> device_software list) response" where
  "GetDeviceSoftware env userID s =
     (case ValidateUserID userID of Some e \<Rightarrow> RespondError 400 (id_error_text ''user id'' e) | None \<Rightarrow>
      case requireUserInCallerOrg (rd_has_db env) (rd_gate_err env) (device_rows_of s) (rd_oc env) userID of Some r \<Rightarrow> r | None \<Rightarrow>
      if \<not> rd_has_db env then RespondError 500 ''database not available''
      else if rw_query_err (rd_rows env) \<noteq> None then RespondError 500 ''internal error''
      else let deviceList = scan_rows (rd_rows env) (user_devices userID s) in
      if rw_err (rd_rows env) \<noteq> None then RespondError 500 ''internal error''
      else RespondJSON 200 (userID, map (\<lambda>d. \<lparr>dw_device = dv_host d, dw_hostname = dv_hostname d,
             dw_software = (case rd_software env (dv_host d) of Inl _ \<Rightarrow> [] | Inr sw \<Rightarrow> sw)\<rparr>) deviceList))"

section \<open>Compliance\<close>

record compliance_device =
  cd_id :: string
  cd_hostname :: string
  cd_os_version :: string

record host_posture =
  hp_device :: string
  hp_hostname :: string
  hp_os_version :: string
  hp_disk :: bool
  hp_firewall :: bool
  hp_mdm :: bool
  hp_vulns :: "string list"
  hp_unknown_vulns :: bool
  hp_compliant :: bool
  hp_needs_update :: bool

record compliance_summary =
  cs_total :: nat
  cs_compliant :: nat
  cs_encrypted :: nat
  cs_firewall :: nat
  cs_vulns :: nat
  cs_needs_update :: nat

record compliance_response =
  cy_user :: string
  cy_summary :: compliance_summary
  cy_devices :: "host_posture list"

definition scanComplianceDevices :: "rows_env \<Rightarrow> device_row list \<Rightarrow> string + compliance_device list" where
  "scanComplianceDevices env rows =
     (let list = map (\<lambda>d. \<lparr>cd_id = dv_host d, cd_hostname = dv_hostname d, cd_os_version = dv_os_version d\<rparr>) (scan_rows env rows)
      in case rw_err env of Some e \<Rightarrow> Inl e | None \<Rightarrow> Inr list)"

definition tick :: "bool \<Rightarrow> nat \<Rightarrow> nat" where
  "tick b n = (if b then n + 1 else n)"

definition posture_step :: "fleet \<Rightarrow> (string \<Rightarrow> string + os_posture) \<Rightarrow> compliance_device \<Rightarrow> host_posture list \<times> compliance_summary
   \<Rightarrow> host_posture list \<times> compliance_summary" where
  "posture_step state_of os_of dr acc =
     (case acc of (postures, summary) \<Rightarrow>
      case state_of (cd_id dr) of
        Inl e \<Rightarrow>
          (postures @ [\<lparr>hp_device = cd_id dr, hp_hostname = cd_hostname dr, hp_os_version = cd_os_version dr, hp_disk = False, hp_firewall = False,
             hp_mdm = False, hp_vulns = [], hp_unknown_vulns = True, hp_compliant = False, hp_needs_update = False\<rparr>], summary)
      | Inr st \<Rightarrow>
          (let vulns = hs_vulns st;
               compliant = (hs_disk st \<and> hs_firewall st \<and> vulns = [] \<and> \<not> hs_unknown_vulns st);
               (osVersion, needsUpdate) =
                 (case os_of (cd_id dr) of
                    Inl _ \<Rightarrow> (cd_os_version dr, False)
                  | Inr os \<Rightarrow> (if cd_os_version dr = [] \<and> op_os_version os \<noteq> [] then op_os_version os else cd_os_version dr, op_needs_update os))
           in (postures @ [\<lparr>hp_device = cd_id dr, hp_hostname = cd_hostname dr, hp_os_version = osVersion, hp_disk = hs_disk st,
                 hp_firewall = hs_firewall st, hp_mdm = True, hp_vulns = vulns, hp_unknown_vulns = hs_unknown_vulns st,
                 hp_compliant = compliant, hp_needs_update = needsUpdate\<rparr>],
               summary\<lparr>cs_compliant := tick compliant (cs_compliant summary), cs_encrypted := tick (hs_disk st) (cs_encrypted summary),
                 cs_firewall := tick (hs_firewall st) (cs_firewall summary), cs_vulns := tick (length vulns > 0) (cs_vulns summary),
                 cs_needs_update := tick needsUpdate (cs_needs_update summary)\<rparr>)))"

definition buildCompliancePostures :: "fleet \<Rightarrow> (string \<Rightarrow> string + os_posture) \<Rightarrow> compliance_device list
   \<Rightarrow> host_posture list \<times> compliance_summary" where
  "buildCompliancePostures state_of os_of deviceList =
     fold (posture_step state_of os_of) deviceList
       ([], \<lparr>cs_total = length deviceList, cs_compliant = 0, cs_encrypted = 0, cs_firewall = 0, cs_vulns = 0, cs_needs_update = 0\<rparr>)"

definition GetUserCompliance :: "read_env \<Rightarrow> string \<Rightarrow> device_state \<Rightarrow> compliance_response response" where
  "GetUserCompliance env userID s =
     (case ValidateUserID userID of Some e \<Rightarrow> RespondError 400 (id_error_text ''user id'' e) | None \<Rightarrow>
      case requireUserInCallerOrg (rd_has_db env) (rd_gate_err env) (device_rows_of s) (rd_oc env) userID of Some r \<Rightarrow> r | None \<Rightarrow>
      if \<not> rd_has_db env then RespondError 500 ''database not available''
      else if rw_query_err (rd_rows env) \<noteq> None then RespondError 500 ''internal error''
      else case scanComplianceDevices (rd_rows env) (user_devices userID s) of Inl _ \<Rightarrow> RespondError 500 ''internal error'' | Inr deviceList \<Rightarrow>
      (case buildCompliancePostures (rd_state env) (rd_os env) deviceList of (postures, summary) \<Rightarrow>
         RespondJSON 200 \<lparr>cy_user = userID, cy_summary = summary, cy_devices = postures\<rparr>))"

text \<open>\<open>snapshot.PostureEntry\<close>, what the dashboard puts into the cache of the snapshots.\<close>

record posture_entry =
  pe_host :: string
  pe_compliant :: bool
  pe_disk :: bool
  pe_os_up_to_date :: bool
  pe_needs_update :: bool
  pe_firewall :: bool

definition cache_entry :: "host_posture \<Rightarrow> posture_entry" where
  "cache_entry p = \<lparr>pe_host = hp_device p, pe_compliant = hp_compliant p, pe_disk = hp_disk p, pe_os_up_to_date = (\<not> hp_needs_update p),
     pe_needs_update = hp_needs_update p, pe_firewall = hp_firewall p\<rparr>"

text \<open>The second result is the argument of \<open>SyncPostureCache\<close>, if it is called; its failure is only logged.\<close>

definition GetOrgCompliance :: "read_env \<Rightarrow> device_state \<Rightarrow> compliance_response response \<times> posture_entry list option" where
  "GetOrgCompliance env s =
     (if \<not> rd_has_db env then (RespondError 500 ''database not available'', None)
      else case rd_oc env of None \<Rightarrow> (RespondError 403 ''forbidden: no organization context'', None) | Some x \<Rightarrow>
      if rw_query_err (rd_rows env) \<noteq> None then (RespondError 500 ''internal error'', None)
      else case scanComplianceDevices (rd_rows env) (rd_by_hostname env (filter (\<lambda>d. dv_org d = oc_org x) (ds_devices s))) of
        Inl _ \<Rightarrow> (RespondError 500 ''internal error'', None)
      | Inr deviceList \<Rightarrow>
         (case buildCompliancePostures (rd_state env) (rd_os env) deviceList of (postures, summary) \<Rightarrow>
            (RespondJSON 200 \<lparr>cy_user = [], cy_summary = summary,
               cy_devices = (if rd_needs_update env = ''true'' then filter hp_needs_update postures else postures)\<rparr>,
             if rd_snapshotter env then Some (map cache_entry postures) else None)))"

section \<open>Scanning and counting\<close>

lemma scan_rows_subset: "set (scan_rows env rows) \<subseteq> set rows"
  by (auto simp: scan_rows_def in_set_enumerate_eq)

lemma length_scan_rows: "length (scan_rows env rows) \<le> length rows"
proof -
  have "length (scan_rows env rows) \<le> length (enumerate 0 rows)" by (simp add: scan_rows_def del: length_enumerate)
  then show ?thesis by simp
qed

lemma scan_rows_all: "(\<And>k. \<not> rw_scan_fails env k) \<Longrightarrow> scan_rows env rows = rows"
  by (simp add: scan_rows_def)

lemma dedupe_facts: "set (dedupe ids) = set ids" "distinct (dedupe ids)"
proof -
  have "set (fold (\<lambda>i unique. if i \<in> set unique then unique else unique @ [i]) ids acc) = set ids \<union> set acc
      \<and> (distinct acc \<longrightarrow> distinct (fold (\<lambda>i unique. if i \<in> set unique then unique else unique @ [i]) ids acc))" for acc
    by (induction ids arbitrary: acc) auto
  from this [of "[]"] show "set (dedupe ids) = set ids" "distinct (dedupe ids)" by (simp_all add: dedupe_def)
qed

text \<open>The comparison of the two lengths: rows with distinct keys, all of them wanted, are as many as the wanted ones
  exactly when none is missing.\<close>

lemma all_found_iff:
  assumes "distinct (map key rows)" and "set (map key rows) \<subseteq> set wanted" and "distinct wanted"
  shows "length rows = length wanted \<longleftrightarrow> set wanted \<subseteq> set (map key rows)"
proof -
  have l: "length rows = card (set (map key rows))" "length wanted = card (set wanted)"
    using distinct_card [OF assms(1)] distinct_card [OF assms(3)] by simp_all
  show ?thesis
  proof
    assume "length rows = length wanted"
    with l assms(2) have "set (map key rows) = set wanted" by (intro card_subset_eq) auto
    then show "set wanted \<subseteq> set (map key rows)" by simp
  next
    assume "set wanted \<subseteq> set (map key rows)"
    with assms(2) have "set (map key rows) = set wanted" by blast
    with l show "length rows = length wanted" by simp
  qed
qed

definition org_devices :: "device_row list \<Rightarrow> org_context \<Rightarrow> string list \<Rightarrow> device_row list" where
  "org_devices devs x ids = filter (\<lambda>d. dv_org d = oc_org x \<and> dv_host d \<in> set ids) devs"

lemma org_devices_all:
  assumes "distinct (map dv_host devs)"
  shows "length (org_devices devs x ids) = length (dedupe ids)
    \<longleftrightarrow> (\<forall>i \<in> set ids. \<exists>d \<in> set devs. dv_host d = i \<and> dv_org d = oc_org x)"
proof -
  have d: "distinct (map dv_host (org_devices devs x ids))"
    unfolding org_devices_def using assms by (simp add: distinct_map_filter)
  have sub: "set (map dv_host (org_devices devs x ids)) \<subseteq> set (dedupe ids)"
    by (auto simp: org_devices_def dedupe_facts)
  show ?thesis
    unfolding all_found_iff [OF d sub dedupe_facts(2)] by (auto simp: org_devices_def dedupe_facts)
qed

lemma length_org_devices:
  assumes "distinct (map dv_host devs)"
  shows "length (org_devices devs x ids) \<le> length (dedupe ids)"
proof -
  have d: "distinct (map dv_host (org_devices devs x ids))"
    unfolding org_devices_def using assms by (simp add: distinct_map_filter)
  have "length (org_devices devs x ids) = card (set (map dv_host (org_devices devs x ids)))"
    using distinct_card [OF d] by simp
  also have "\<dots> \<le> card (set (dedupe ids))" by (rule card_mono) (auto simp: org_devices_def dedupe_facts)
  finally show ?thesis using distinct_card [OF dedupe_facts(2)] by metis
qed

lemma requireDevices_None:
  "requireDevicesInCallerOrg has_db env devs (Some x) ids = None \<longleftrightarrow>
     has_db \<and> (ids = [] \<or> rw_query_err env = None \<and> rw_err env = None \<and> length (scan_rows env (org_devices devs x ids)) = length (dedupe ids))"
  by (auto simp: requireDevicesInCallerOrg_def Let_def org_devices_def dedupe_facts)

lemma requireDevices_owned:
  assumes "requireDevicesInCallerOrg has_db env devs oc ids = None" and "distinct (map dv_host devs)" and "i \<in> set ids"
  obtains x d where "oc = Some x" "d \<in> set devs" "dv_host d = i" "dv_org d = oc_org x"
proof -
  from assms(1) obtain x where x: "oc = Some x" by (auto simp: requireDevicesInCallerOrg_def split: option.splits)
  with assms(1,3) have "length (scan_rows env (org_devices devs x ids)) = length (dedupe ids)"
    by (auto simp: requireDevices_None)
  with length_scan_rows [of env "org_devices devs x ids"] length_org_devices [OF assms(2), of x ids]
  have "length (org_devices devs x ids) = length (dedupe ids)" by simp
  with org_devices_all [OF assms(2)] assms(3) x that show ?thesis by blast
qed

text \<open>The batched check is a gate as \<open>Org_Scope\<close> describes it: it passes only what the organisation owns, and its answer
  depends on the devices of that organisation alone.\<close>

definition owns_all :: "device_row list \<Rightarrow> org_context \<Rightarrow> string list \<Rightarrow> bool" where
  "owns_all devs x ids \<longleftrightarrow> (distinct (map dv_host devs) \<longrightarrow> (\<forall>i \<in> set ids. \<exists>d \<in> set devs. dv_host d = i \<and> dv_org d = oc_org x))"

definition device_view :: "org_context \<Rightarrow> device_row list \<Rightarrow> device_row list" where
  "device_view x devs = filter (\<lambda>d. dv_org d = oc_org x) devs"

interpretation batch_gate: org_gate "\<lambda>devs oc ids. requireDevicesInCallerOrg has_db env devs oc ids" owns_all device_view
  for has_db env
proof
  fix devs oc ids
  assume g: "requireDevicesInCallerOrg has_db env devs oc ids = None"
  then obtain x where "oc = Some x" by (auto simp: requireDevicesInCallerOrg_def split: option.splits)
  moreover have "owns_all devs x ids"
    unfolding owns_all_def using requireDevices_owned [OF g] \<open>oc = Some x\<close> by (metis option.inject)
  ultimately show "\<exists>x. oc = Some x \<and> owns_all devs x ids" by blast
next
  fix devs x ids
  show "requireDevicesInCallerOrg has_db env devs (Some x) ids = requireDevicesInCallerOrg has_db env (device_view x devs) (Some x) ids"
    by (simp add: requireDevicesInCallerOrg_def device_view_def conj_ac Let_def)
qed

lemma requireDevice_None:
  "requireDeviceInCallerOrg True None rows (Some x) i = None \<longleftrightarrow> org_owns ''devices'' rows x i"
  by (auto simp: requireDeviceInCallerOrg_def RequireResourceInCallerOrg_def CheckResourceInOrg_def allowedOrgTables_def org_owns_def
      list_ex_iff sql_simps split: query.splits dest!: select_one_Ok_D)

lemma device_rows_own: "org_owns ''devices'' (device_rows_of s) x i \<longleftrightarrow> (\<exists>d \<in> set (ds_devices s). dv_host d = i \<and> dv_org d = oc_org x)"
  by (auto simp: org_owns_def device_rows_of_def org_rows_of_def list_ex_iff bex_Un)

text \<open>The batched check of a list of hosts is the check of each.  With the host id as the key of the table and a
  query that succeeds, the single query with its comparison of two counts passes exactly when the check of a single device passes for every host of
  the list, however often a host is repeated; it answers 404 otherwise.\<close>

theorem batched_gate_is_each:
  assumes "distinct (map dv_host (ds_devices s))" and "rw_query_err env = None" and "rw_err env = None" and "\<And>k. \<not> rw_scan_fails env k"
  shows "requireDevicesInCallerOrg True env (ds_devices s) (Some x) ids =
    (if list_all (\<lambda>i. requireDeviceInCallerOrg True None (device_rows_of s) (Some x) i = (None :: bool response option)) ids
     then (None :: bool response option) else Some (RespondError 404 ''device not found''))"
proof -
  have len: "length (scan_rows env (org_devices (ds_devices s) x ids)) = length (dedupe ids)
      \<longleftrightarrow> list_all (\<lambda>i. requireDeviceInCallerOrg True None (device_rows_of s) (Some x) i = (None :: bool response option)) ids"
    unfolding scan_rows_all [OF assms(4)] org_devices_all [OF assms(1)] by (auto simp: list_all_iff requireDevice_None device_rows_own)
  show ?thesis
    using len assms(2,3) by (auto simp: requireDevicesInCallerOrg_def Let_def org_devices_def dedupe_facts)
qed

section \<open>Remote commands, end to end\<close>

text \<open>The four handlers as one operation, with the status of the answer.\<close>

datatype remote_command = Lock | Restart | Lock_with_message "string option" | Clear_passcode

definition run_remote :: "(string \<Rightarrow> string) \<Rightarrow> command_env \<Rightarrow> remote_command \<Rightarrow> string \<Rightarrow> device_state \<Rightarrow> nat \<times> fleet_request list \<times> device_state" where
  "run_remote jt env cmd deviceID s =
     (case cmd of
        Lock \<Rightarrow> (case RemoteLock jt env deviceID s of (r, out) \<Rightarrow> (status_of r, out))
      | Restart \<Rightarrow> (case RemoteRestart jt env deviceID s of (r, out) \<Rightarrow> (status_of r, out))
      | Lock_with_message body \<Rightarrow> (case RemoteLockWithMessage jt env deviceID body s of (r, out) \<Rightarrow> (status_of r, out))
      | Clear_passcode \<Rightarrow> (case RemoteClearPasscode jt env deviceID s of (r, out) \<Rightarrow> (status_of r, out)))"

fun command_suffix :: "remote_command \<Rightarrow> string" where
  "command_suffix Lock = ''/lock''"
| "command_suffix Restart = ''/restart''"
| "command_suffix (Lock_with_message _) = ''/lock''"
| "command_suffix Clear_passcode = ''/clear_passcode''"

fun command_type :: "remote_command \<Rightarrow> string" where
  "command_type Lock = ''lock''"
| "command_type Restart = ''restart''"
| "command_type (Lock_with_message _) = ''lock_message''"
| "command_type Clear_passcode = ''clear_passcode''"

fun command_action :: "remote_command \<Rightarrow> string" where
  "command_action Lock = ''device_lock''"
| "command_action Restart = ''device_restart''"
| "command_action (Lock_with_message _) = ''device_lock_message''"
| "command_action Clear_passcode = ''device_clear_passcode''"

fun command_message :: "remote_command \<Rightarrow> (string \<times> jval) list" where
  "command_message (Lock_with_message (Some m)) = [(''message'', JStr m)]"
| "command_message _ = []"

definition command_body :: "remote_command \<Rightarrow> jval option" where
  "command_body cmd = (if command_message cmd = [] then None else Some (JObj (command_message cmd)))"

lemma command_gate_owned:
  assumes "command_gate env i s = (None :: 'b response option)"
  shows "ValidateHostID i = None" "\<exists>x d. de_oc env = Some x \<and> d \<in> set (ds_devices s) \<and> dv_host d = i \<and> dv_org d = oc_org x" "de_has_db env"
proof -
  from assms have g: "ValidateHostID i = None"
    "RequireResourceInCallerOrg (de_has_db env) (de_gate_err env) (device_rows_of s) (de_oc env) ''devices'' ''fleet_host_id'' i ''device not found'' = (None :: 'b response option)"
    by (auto simp: command_gate_def requireDeviceInCallerOrg_def split: option.splits)
  show "ValidateHostID i = None" by fact
  from resource_gate.gate_owns [OF g(2)] show "\<exists>x d. de_oc env = Some x \<and> d \<in> set (ds_devices s) \<and> dv_host d = i \<and> dv_org d = oc_org x"
    using device_rows_own by blast
  from g(2) show "de_has_db env"
    by (auto simp: RequireResourceInCallerOrg_def CheckResourceInOrg_def split: option.splits if_splits)
qed

text \<open>What the shared tail guarantees for a command of the client.\<close>

definition command_effect :: "(string \<Rightarrow> string) \<Rightarrow> command_env \<Rightarrow> string \<Rightarrow> remote_command \<Rightarrow> device_state \<Rightarrow> nat \<times> fleet_request list \<times> device_state \<Rightarrow> bool" where
  "command_effect jt env i cmd s out =
     (case out of (status, rs, s') \<Rightarrow>
        list_all (host_request (de_client env) i ''POST'' (command_suffix cmd)) rs
        \<and> (rs \<noteq> [] \<longrightarrow> (\<exists>x d. de_oc env = Some x \<and> d \<in> set (ds_devices s) \<and> dv_host d = i \<and> dv_org d = oc_org x))
        \<and> (if status = 200
           then (\<exists>rq code answer. rs = [rq] \<and> fr_body rq = command_body cmd \<and> de_srv env rq = Answered code (Inr answer) \<and> 200 \<le> code \<and> code < 300)
             \<and> ds_devices s' = ds_devices s
             \<and> l_audit (ds_life s') = log_best_effort jt (de_audit env) (de_oc env)
                  \<lparr>ac_actor = de_actor env, ac_action = command_action cmd, ac_target_type = ''device'', ac_target_id = i,
                   ac_details = Some (JObj ((''device_id'', JStr i) # command_message cmd))\<rparr> (l_audit (ds_life s))
             \<and> (if de_insert_err env = None
                then \<exists>c. ds_commands s' = ds_commands s @ [c] \<and> cm_host c = i \<and> cm_type c = command_type cmd \<and> cm_requested_by c = de_actor env
                     \<and> Some (cm_org c) = map_option oc_org (de_oc env)
                else ds_commands s' = ds_commands s)
           else s' = s))"

lemma command_effect_refused: "status \<noteq> 200 \<Longrightarrow> command_effect jt env i cmd s (status, [], s)"
  by (simp add: command_effect_def)

lemma doRequest_accepted:
  "doRequest srv f m p b = (Inr r, rs) \<Longrightarrow> \<exists>rq code. rs = [rq] \<and> srv rq = Answered code (Inr r) \<and> 200 \<le> code \<and> code < 300"
  by (auto simp: doRequest_def Let_def split: fleet_answer.splits sum.splits if_splits)

lemma host_command_accepted:
  assumes "host_command srv f i suffix b what = (None, rs)"
  shows "\<exists>rq code answer. rs = [rq] \<and> fr_body rq = b \<and> srv rq = Answered code (Inr answer) \<and> 200 \<le> code \<and> code < 300"
proof -
  from assms obtain r where "doRequest srv f ''POST'' (host_path i suffix) b = (Inr r, rs)"
    by (auto simp: host_command_def split: option.splits prod.splits sum.splits)
  from doRequest_accepted [OF this] show ?thesis
    using host_command_sent [of _ srv f i suffix b what] assms by auto
qed

lemma command_effect_sent:
  assumes "command_gate env i s = (None :: 'b response option)"
    and "command_sent jt env i (host_command (de_srv env) (de_client env) i (command_suffix cmd) (command_body cmd) what) failure
      (command_action cmd) ((''device_id'', JStr i) # command_message cmd) (command_type cmd) answer s = (r, out)"
  shows "command_effect jt env i cmd s (status_of r, out)"
proof -
  note gate = command_gate_owned [OF assms(1)]
  obtain e rs where hc: "host_command (de_srv env) (de_client env) i (command_suffix cmd) (command_body cmd) what = (e, rs)" by fastforce
  have rq: "list_all (host_request (de_client env) i ''POST'' (command_suffix cmd)) rs"
    using host_command_sent [of _ "de_srv env" "de_client env" i "command_suffix cmd" "command_body cmd" what] hc by (auto simp: list_all_iff)
  show ?thesis
  proof (cases e)
    case None
    have "r = RespondJSON 200 answer" "out = (rs, persistDeviceCommand env i (command_type cmd) (de_actor env)
        (device_audit jt env (command_action cmd) i ((''device_id'', JStr i) # command_message cmd) s))"
      using assms(2) hc None gate(3) by (auto simp: command_sent_def)
    with host_command_accepted [OF hc [unfolded None]] show ?thesis
      using gate rq by (auto simp: command_effect_def persistDeviceCommand_def device_audit_def split: option.splits)
  next
    case (Some m)
    with assms(2) hc have "r = RespondError 502 failure" "out = (rs, s)" by (auto simp: command_sent_def)
    with gate rq show ?thesis by (simp add: command_effect_def)
  qed
qed

lemma command_gate_status: "command_gate env i s = Some r \<Longrightarrow> status_of r \<noteq> 200"
  by (auto simp: command_gate_def requireDeviceInCallerOrg_def RequireResourceInCallerOrg_def split: option.splits sum.splits if_splits)

lemma command_handler_of:
  assumes "(case command_gate env i s of Some r \<Rightarrow> (r, [], s) | None \<Rightarrow>
      command_sent jt env i (host_command (de_srv env) (de_client env) i (command_suffix cmd) (command_body cmd) what) failure
        (command_action cmd) ((''device_id'', JStr i) # command_message cmd) (command_type cmd) answer s) = (r, out)"
  shows "command_effect jt env i cmd s (status_of r, out)"
proof (cases "command_gate env i s :: 'a response option")
  case None
  with assms show ?thesis by (auto intro: command_effect_sent [OF None])
next
  case (Some q)
  with assms command_gate_status [OF Some] show ?thesis by (auto intro: command_effect_refused)
qed

lemma plain_body: "command_message cmd = [] \<Longrightarrow> command_body cmd = None"
  by (simp add: command_body_def)

lemmas command_spec = command_suffix.simps command_action.simps command_type.simps command_message.simps
  plain_body [of Lock, OF command_message.simps(2)] plain_body [of Restart, OF command_message.simps(3)]
  plain_body [of Clear_passcode, OF command_message.simps(5)]

lemma run_remote_effect: "command_effect jt env i cmd s (run_remote jt env cmd i s)"
proof (cases cmd)
  case Lock
  obtain r out where r: "RemoteLock jt env i s = (r, out)" by (metis surj_pair)
  from command_handler_of [where cmd = Lock, unfolded command_spec, OF r [unfolded RemoteLock_def IssueRemoteLock_def]] Lock r
  show ?thesis by (simp add: run_remote_def)
next
  case Restart
  obtain r out where r: "RemoteRestart jt env i s = (r, out)" by (metis surj_pair)
  from command_handler_of [where cmd = Restart, unfolded command_spec, OF r [unfolded RemoteRestart_def IssueRestart_def]] Restart r
  show ?thesis by (simp add: run_remote_def)
next
  case Clear_passcode
  obtain r out where r: "RemoteClearPasscode jt env i s = (r, out)" by (metis surj_pair)
  from command_handler_of [where cmd = Clear_passcode, unfolded command_spec, OF r [unfolded RemoteClearPasscode_def IssueClearPasscode_def]] Clear_passcode r
  show ?thesis by (simp add: run_remote_def)
next
  case (Lock_with_message body)
  obtain r out where r: "RemoteLockWithMessage jt env i body s = (r, out)" by (metis surj_pair)
  have "command_effect jt env i (Lock_with_message body) s (status_of r, out)"
  proof (cases "command_gate env i s :: lock_message_response response option")
    case None
    with r show ?thesis
      by (auto simp: RemoteLockWithMessage_def IssueLockWithMessage_def command_body_def intro!: command_effect_refused
          intro: command_effect_sent [OF None, where cmd = "Lock_with_message (Some m)" for m, unfolded command_body_def, simplified]
          split: option.splits if_splits)
  next
    case (Some q)
    with r command_gate_status [OF Some] show ?thesis
      by (auto simp: RemoteLockWithMessage_def intro!: command_effect_refused)
  qed
  with Lock_with_message r show ?thesis by (simp add: run_remote_def)
qed

text \<open>C13. A remote command reaches only a device of the organisation of the caller.  Every request one of the four
  handlers sends to Fleet is a POST to the command of exactly the host of the route, whose id is a plain token, and is sent only when that
  host is a device of the organisation.  The answer is 200 only when exactly one such request was sent, with the message of the command as its body, and Fleet
  answered it with a status of the 200s; the entry of that command with the caller as actor is then handed to the audit log, which takes it as far as it can, and the
  command is added to the history of the organisation, unless the insert fails.  Any other answer changes nothing.\<close>

theorem remote_command_confined:
  assumes "run_remote jt env cmd i s = (status, rs, s')"
  shows "(\<forall>rq \<in> set rs. host_request (de_client env) i ''POST'' (command_suffix cmd) rq)
    \<and> (rs \<noteq> [] \<longrightarrow> (\<exists>x d. de_oc env = Some x \<and> d \<in> set (ds_devices s) \<and> dv_host d = i \<and> dv_org d = oc_org x))
    \<and> (status = 200 \<longrightarrow>
         (\<exists>rq code answer. rs = [rq] \<and> fr_body rq = command_body cmd \<and> de_srv env rq = Answered code (Inr answer) \<and> 200 \<le> code \<and> code < 300)
         \<and> ds_devices s' = ds_devices s
         \<and> l_audit (ds_life s') = log_best_effort jt (de_audit env) (de_oc env)
              \<lparr>ac_actor = de_actor env, ac_action = command_action cmd, ac_target_type = ''device'', ac_target_id = i,
               ac_details = Some (JObj ((''device_id'', JStr i) # command_message cmd))\<rparr> (l_audit (ds_life s))
         \<and> (if de_insert_err env = None
            then \<exists>c. ds_commands s' = ds_commands s @ [c] \<and> cm_host c = i \<and> cm_type c = command_type cmd \<and> cm_requested_by c = de_actor env
                 \<and> Some (cm_org c) = map_option oc_org (de_oc env)
            else ds_commands s' = ds_commands s))
    \<and> (status \<noteq> 200 \<longrightarrow> s' = s)"
proof -
  have "command_effect jt env i cmd s (status, rs, s')"
    using run_remote_effect [of jt env i cmd s] assms by simp
  then show ?thesis unfolding command_effect_def list_all_iff by (cases "status = 200") auto
qed

section \<open>The dashboard\<close>

definition posture_of :: "fleet \<Rightarrow> (string \<Rightarrow> string + os_posture) \<Rightarrow> compliance_device \<Rightarrow> host_posture" where
  "posture_of state_of os_of dr = hd (fst (posture_step state_of os_of dr ([], undefined)))"

definition counts :: "host_posture list \<Rightarrow> compliance_summary" where
  "counts ps = \<lparr>cs_total = length ps, cs_compliant = length (filter hp_compliant ps), cs_encrypted = length (filter hp_disk ps),
     cs_firewall = length (filter hp_firewall ps), cs_vulns = length (filter (\<lambda>p. hp_vulns p \<noteq> []) ps),
     cs_needs_update = length (filter hp_needs_update ps)\<rparr>"

lemma length_filter_snoc: "length (filter P (ps @ [p])) = tick (P p) (length (filter P ps))"
  by (simp add: tick_def)

lemma posture_step_eq:
  "posture_step state_of os_of dr (ps, (counts ps)\<lparr>cs_total := n\<rparr>)
     = (ps @ [posture_of state_of os_of dr], (counts (ps @ [posture_of state_of os_of dr]))\<lparr>cs_total := n\<rparr>)"
proof (cases "state_of (cd_id dr)")
  case (Inl e)
  then show ?thesis by (simp add: posture_step_def posture_of_def counts_def)
next
  case (Inr st)
  then show ?thesis
    unfolding counts_def length_filter_snoc
    by (cases "os_of (cd_id dr)") (simp_all add: posture_step_def posture_of_def Let_def)
qed

lemma buildCompliancePostures_eq:
  "buildCompliancePostures state_of os_of devs = (map (posture_of state_of os_of) devs, counts (map (posture_of state_of os_of) devs))"
proof -
  have fold: "fold (posture_step state_of os_of) devs (ps, (counts ps)\<lparr>cs_total := n\<rparr>)
      = (ps @ map (posture_of state_of os_of) devs, (counts (ps @ map (posture_of state_of os_of) devs))\<lparr>cs_total := n\<rparr>)" for ps n
    by (induction devs arbitrary: ps) (simp_all add: posture_step_eq)
  show ?thesis
    using fold [of "[]" "length devs"] by (simp add: buildCompliancePostures_def counts_def)
qed

lemma posture_of_device [simp]: "hp_device (posture_of state_of os_of dr) = cd_id dr"
  by (auto simp: posture_of_def posture_step_def Let_def split: sum.split prod.split)

lemma posture_of_compliant: "hp_compliant (posture_of state_of os_of dr) \<longleftrightarrow> compliant state_of (cd_id dr)"
  by (auto simp: posture_of_def posture_step_def compliant_def Let_def split: sum.split prod.split)

text \<open>The compliance dashboard of an organisation shows its own devices and agrees with the access decision.  Every device
  shown is one of the organisation, all of them are when every row could be read and no filter is set; a device is shown as compliant exactly
  when the posture check in front of every application finds nothing against it; the summary counts all devices that were read, with or
  without the filter; and the posture cache receives the same devices.  The database may order the rows as it likes.\<close>

theorem compliance_dashboard_exact:
  assumes "\<And>ds. set (rd_by_hostname env ds) = set ds" and "GetOrgCompliance env s = (RespondJSON 200 r, cache)"
  shows "\<exists>x ps. rd_oc env = Some x
    \<and> hp_device ` set ps \<subseteq> {dv_host d | d. d \<in> set (ds_devices s) \<and> dv_org d = oc_org x}
    \<and> ((\<forall>k. \<not> rw_scan_fails (rd_rows env) k) \<longrightarrow> hp_device ` set ps = {dv_host d | d. d \<in> set (ds_devices s) \<and> dv_org d = oc_org x})
    \<and> (\<forall>p \<in> set ps. hp_compliant p \<longleftrightarrow> (\<forall>q. evaluateDevicePosture (rd_state env) q (hp_device p) = []))
    \<and> cy_summary r = counts ps
    \<and> cy_devices r = (if rd_needs_update env = ''true'' then filter hp_needs_update ps else ps)
    \<and> cache = (if rd_snapshotter env then Some (map cache_entry ps) else None)"
proof -
  from assms(2) obtain x where x: "rd_oc env = Some x"
    by (auto simp: GetOrgCompliance_def split: if_splits option.splits)
  define rows where "rows = rd_by_hostname env (filter (\<lambda>d. dv_org d = oc_org x) (ds_devices s))"
  from assms(2) x obtain dl where dl: "scanComplianceDevices (rd_rows env) rows = Inr dl"
    by (auto simp: GetOrgCompliance_def rows_def split: if_splits sum.splits)
  define ps where "ps = map (posture_of (rd_state env) (rd_os env)) dl"
  have ids: "hp_device ` set ps = dv_host ` set (scan_rows (rd_rows env) rows)"
    using dl by (auto simp: ps_def scanComplianceDevices_def image_image split: option.splits)
  have set_rows: "set rows = {d \<in> set (ds_devices s). dv_org d = oc_org x}" unfolding rows_def assms(1) by auto
  have "hp_device ` set ps \<subseteq> {dv_host d | d. d \<in> set (ds_devices s) \<and> dv_org d = oc_org x}"
    using ids scan_rows_subset [of "rd_rows env" rows] set_rows by auto
  moreover have "hp_device ` set ps = {dv_host d | d. d \<in> set (ds_devices s) \<and> dv_org d = oc_org x}"
    if "\<forall>k. \<not> rw_scan_fails (rd_rows env) k"
    using ids scan_rows_all [of "rd_rows env" rows] that set_rows by auto
  moreover have "\<forall>p \<in> set ps. hp_compliant p \<longleftrightarrow> (\<forall>q. evaluateDevicePosture (rd_state env) q (hp_device p) = [])"
    by (auto simp: ps_def posture_of_compliant posture_Nil_iff)
  moreover have "cy_summary r = counts ps \<and> cy_devices r = (if rd_needs_update env = ''true'' then filter hp_needs_update ps else ps)
      \<and> cache = (if rd_snapshotter env then Some (map cache_entry ps) else None)"
    using assms(2) x dl by (auto simp: GetOrgCompliance_def rows_def [symmetric] buildCompliancePostures_eq ps_def [symmetric] split: if_splits)
  ultimately show ?thesis using x by blast
qed

section \<open>A small organisation\<close>

definition laptops :: device_state where
  "laptops = \<lparr>ds_life = \<lparr>l_users = [], l_members = [], l_tokens = [], l_mapping = [], l_prov = [], l_assign = [], l_enabled = [], l_audit = empty_audit_db\<rparr>,
     ds_devices = [\<lparr>dv_host = ''h1'', dv_hostname = ''ada'', dv_os_version = [], dv_org = ''o1'', dv_last_seen = 0\<rparr>,
       \<lparr>dv_host = ''h2'', dv_hostname = ''bob'', dv_os_version = [], dv_org = ''o2'', dv_last_seen = 0\<rparr>], ds_commands = []\<rparr>"

definition calm_rows :: rows_env where
  "calm_rows = \<lparr>rw_query_err = None, rw_scan_fails = (\<lambda>_. False), rw_err = None\<rparr>"

definition o1_context :: org_context where
  "o1_context = \<lparr>oc_org = ''o1'', oc_role = ''member''\<rparr>"

definition silent_json :: fleet_json where
  "silent_json = \<lparr>fj_token = Inl, fj_hosts = Inl, fj_software = Inl, fj_host = Inl, fj_os = Inl, fj_policies = Inl, fj_teams = Inl, fj_team = Inl\<rparr>"

definition helpdesk_commands :: command_env where
  "helpdesk_commands = \<lparr>de_has_db = True, de_oc = Some o1_context, de_actor = ''kc1'', de_gate_err = None,
     de_srv = (\<lambda>rq. Answered 200 (Inr ''{}'')), de_client = \<lparr>fc_base_url = ''https://fleet'', fc_api_token = ''t'', fc_json = silent_json\<rparr>,
     de_audit = \<lparr>we_begin = None, we_lock = None, we_head = None, we_canonicalise = None, we_insert = None, we_commit = None, tx_now = 0\<rparr>,
     de_insert_err = None, de_new_id = ''c1'', de_now = 0\<rparr>"

definition helpdesk_reads :: read_env where
  "helpdesk_reads = \<lparr>rd_has_db = True, rd_oc = Some o1_context, rd_gate_err = None, rd_rows = calm_rows, rd_software = Inl,
     rd_state = (\<lambda>i. Inr \<lparr>hs_firewall = True, hs_disk = True, hs_vulns = [], hs_unknown_vulns = False\<rparr>), rd_os = Inl,
     rd_by_hostname = id, rd_snapshotter = False, rd_needs_update = []\<rparr>"

lemmas small_simps = laptops_def calm_rows_def o1_context_def helpdesk_reads_def

theorem batched_gate_is_each_witness:
  "requireDevicesInCallerOrg True calm_rows (ds_devices laptops) (Some o1_context) [''h1'', ''h2''] = (Some (RespondError 404 ''device not found'') :: bool response option)"
proof -
  have "distinct (map dv_host (ds_devices laptops))" "rw_query_err calm_rows = None" "rw_err calm_rows = None"
    by (simp_all add: small_simps)
  moreover have "\<not> rw_scan_fails calm_rows k" for k by (simp add: small_simps)
  ultimately have "requireDevicesInCallerOrg True calm_rows (ds_devices laptops) (Some o1_context) [''h1'', ''h2''] =
    (if list_all (\<lambda>i. requireDeviceInCallerOrg True None (device_rows_of laptops) (Some o1_context) i = (None :: bool response option)) [''h1'', ''h2'']
     then (None :: bool response option) else Some (RespondError 404 ''device not found''))"
    by (rule batched_gate_is_each)
  then show ?thesis by (simp add: requireDevice_None device_rows_own small_simps)
qed

lemma lock_h1: "\<exists>s' rq. run_remote id helpdesk_commands Lock ''h1'' laptops = (200, [rq], s')"
proof -
  have "command_gate helpdesk_commands ''h1'' laptops = (None :: lock_response response option)" by code_simp
  moreover have "IssueRemoteLock (de_srv helpdesk_commands) (de_client helpdesk_commands) ''h1''
      = (None, [\<lparr>fr_method = ''POST'', fr_url = ''https://fleet/api/v1/fleet/hosts/h1/lock'', fr_authorization = ''Bearer t'',
          fr_content_type = ''application/json'', fr_body = None\<rparr>])"
    by code_simp
  ultimately show ?thesis by (simp add: run_remote_def RemoteLock_def command_sent_def)
qed

theorem remote_command_confined_witness:
  "\<exists>rq code answer. host_request (de_client helpdesk_commands) ''h1'' ''POST'' ''/lock'' rq \<and> fr_body rq = None
     \<and> de_srv helpdesk_commands rq = Answered code (Inr answer) \<and> 200 \<le> code \<and> code < 300"
proof -
  obtain s' rq where "run_remote id helpdesk_commands Lock ''h1'' laptops = (200, [rq], s')" using lock_h1 by blast
  from remote_command_confined [OF this] show ?thesis by (auto simp: command_body_def)
qed

lemma dashboard_o1: "\<exists>r. GetOrgCompliance helpdesk_reads laptops = (RespondJSON 200 r, None) \<and> map hp_device (cy_devices r) = [''h1'']"
  by (simp add: GetOrgCompliance_def small_simps scanComplianceDevices_def scan_rows_def buildCompliancePostures_eq)

theorem compliance_dashboard_exact_witness:
  "\<exists>r ps. GetOrgCompliance helpdesk_reads laptops = (RespondJSON 200 r, None) \<and> cy_summary r = counts ps \<and> hp_device ` set ps = {''h1''}"
proof -
  from dashboard_o1 obtain r where r: "GetOrgCompliance helpdesk_reads laptops = (RespondJSON 200 r, None)" by blast
  have order: "set (rd_by_hostname helpdesk_reads ds) = set ds" for ds by (simp add: small_simps)
  have "{dv_host d | d. d \<in> set (ds_devices laptops) \<and> dv_org d = ''o1''} = {''h1''}" by (force simp: small_simps)
  with compliance_dashboard_exact [OF order r] r show ?thesis by (auto simp: small_simps)
qed

end
