(* ===== verification/Fleet_Teams.thy ===== *)
theory Fleet_Teams
  imports Devices Outbound
begin

text \<open>
  The settings of the Fleet server, \<open>internal/handlers/fleet_config.go\<close>, and teams and policies,
  \<open>internal/handlers/device_policy.go\<close>.  Fleet itself knows no organisations: the table \<open>fleet_team_orgs\<close> says which team belongs to
  which organisation, and the handlers enforce it.
\<close>

section \<open>State\<close>

record fleet_config_row =
  fg_url :: string
  fg_enc :: "string option"
  fg_hash :: "string option"
  fg_updated :: time

record team_org =
  to_team :: int
  to_org :: string
  to_name :: string

record team_state =
  ts_dev :: device_state
  ts_teams :: "team_org list"
  ts_config :: "fleet_config_row option"

section \<open>The settings\<close>

record settings_env =
  se_has_db :: bool
  se_oc :: "org_context option"
  se_actor :: string
  se_read_err :: "string option"
  se_exec_err :: "string option"
  se_outbound :: outbound_env
  se_keys :: key_env
  se_random :: "string + string"
  se_now :: time
  se_audit :: write_env
  se_srv :: fleet_server
  se_json :: fleet_json
  se_fleet_url :: string
  se_fleet_token :: string

definition read_config :: "settings_env \<Rightarrow> team_state \<Rightarrow> fleet_config_row query" where
  "read_config env s = (case se_read_err env of Some e \<Rightarrow> Db_error e | None \<Rightarrow> (case ts_config s of None \<Rightarrow> No_rows | Some c \<Rightarrow> Ok c))"

record fleet_config_response =
  fv_url :: string
  fv_token_configured :: bool
  fv_updated :: time

definition present :: "string option \<Rightarrow> bool" where
  "present x \<longleftrightarrow> x \<noteq> None \<and> x \<noteq> Some []"

text \<open>The zero \<open>time.Time\<close> of an empty answer is the first instant of year 1.\<close>

definition zero_time :: time where
  "zero_time = - 62135596800 * second"

definition GetFleetConfig :: "settings_env \<Rightarrow> team_state \<Rightarrow> fleet_config_response response" where
  "GetFleetConfig env s =
     (if \<not> se_has_db env then RespondError 500 ''database not available''
      else case read_config env s of
        No_rows \<Rightarrow> RespondJSON 200 \<lparr>fv_url = [], fv_token_configured = False, fv_updated = zero_time\<rparr>
      | Db_error _ \<Rightarrow> RespondError 500 ''internal error''
      | Ok c \<Rightarrow> RespondJSON 200 \<lparr>fv_url = fg_url c, fv_token_configured = present (fg_hash c), fv_updated = fg_updated c\<rparr>)"

definition fleet_config_upsert :: "string \<Rightarrow> (string \<times> string) option \<Rightarrow> time \<Rightarrow> fleet_config_row option \<Rightarrow> fleet_config_row" where
  "fleet_config_upsert url token now old =
     (case token of
        Some (enc, hash) \<Rightarrow> \<lparr>fg_url = url, fg_enc = Some enc, fg_hash = Some hash, fg_updated = now\<rparr>
      | None \<Rightarrow> (case old of None \<Rightarrow> \<lparr>fg_url = url, fg_enc = None, fg_hash = None, fg_updated = now\<rparr>
                 | Some c \<Rightarrow> c\<lparr>fg_url := url, fg_updated := now\<rparr>))"

definition settings_audit :: "(string \<Rightarrow> string) \<Rightarrow> write_env \<Rightarrow> org_context option \<Rightarrow> audit_call \<Rightarrow> team_state \<Rightarrow> team_state" where
  "settings_audit jt env oc call s =
     s\<lparr>ts_dev := (ts_dev s)\<lparr>ds_life := (ds_life (ts_dev s))\<lparr>l_audit := log_best_effort jt env oc call (l_audit (ds_life (ts_dev s)))\<rparr>\<rparr>\<rparr>"

text \<open>The body is the address and the token.\<close>

definition UpsertFleetConfig :: "(string \<Rightarrow> string) \<Rightarrow> settings_env \<Rightarrow> (string \<times> string) option \<Rightarrow> team_state \<Rightarrow> bool response \<times> team_state" where
  "UpsertFleetConfig jt env body s =
     (if \<not> se_has_db env then (RespondError 500 ''database not available'', s)
      else case body of None \<Rightarrow> (RespondError 400 ''invalid request body'', s) | Some (raw, token) \<Rightarrow>
      (let url = trim_space raw in
       case (if url \<noteq> [] then validateOutboundURL (se_outbound env) ''serverUrl'' url else None) of Some e \<Rightarrow> (RespondError 400 e, s) | None \<Rightarrow>
       case (if token \<noteq> [] then (case encryptProvisioningToken (se_keys env) (se_random env) token of
               Inl e \<Rightarrow> Inl e | Inr enc \<Rightarrow> Inr (Some (enc, tokenSHA256 token))) else Inr None) of
         Inl _ \<Rightarrow> (RespondError 500 ''failed to encrypt API token'', s)
       | Inr sealed \<Rightarrow>
         if se_exec_err env \<noteq> None then (RespondError 500 ''internal error'', s)
         else (RespondJSON 200 True,
               settings_audit jt (se_audit env) (se_oc env)
                 \<lparr>ac_actor = se_actor env, ac_action = ''fleet_config.upsert'', ac_target_type = ''fleet_config'', ac_target_id = ''1'',
                  ac_details = Some (JObj [(''server_url'', JStr url), (''token_updated'', JBool (token \<noteq> []))])\<rparr>
                 (s\<lparr>ts_config := Some (fleet_config_upsert url sealed (pg_timestamp (se_now env)) (ts_config s))\<rparr>))))"

definition trim_right_slash :: "string \<Rightarrow> string" where
  "trim_right_slash s = rev (dropWhile (\<lambda>c. c = CHR 0x2F) (rev s))"

definition fleetEndpointCredentials :: "settings_env \<Rightarrow> team_state \<Rightarrow> string + string \<times> string" where
  "fleetEndpointCredentials env s =
     (let url = trim_space (se_fleet_url env); token = trim_space (se_fleet_token env) in
      case (if \<not> se_has_db env then Inr (url, token)
            else case read_config env s of
              Ok c \<Rightarrow> Inr (if trim_space (fg_url c) \<noteq> [] then trim_space (fg_url c) else url,
                        if present (fg_enc c)
                        then (case decryptProvisioningToken (se_keys env) (the (fg_enc c)) of Inl _ \<Rightarrow> token | Inr plain \<Rightarrow> plain)
                        else token)
            | No_rows \<Rightarrow> Inr (url, token)
            | Db_error e \<Rightarrow> Inl (''read fleet config: '' @ e)) of
        Inl e \<Rightarrow> Inl e
      | Inr (url, token) \<Rightarrow> if url = [] then Inl ''no fleet server URL configured'' else Inr (trim_right_slash url, token))"

definition deleteFleetTeam :: "settings_env \<Rightarrow> int \<Rightarrow> team_state \<Rightarrow> string option \<times> fleet_request list" where
  "deleteFleetTeam env teamID s =
     (case fleetEndpointCredentials env s of Inl e \<Rightarrow> (Some e, []) | Inr (url, token) \<Rightarrow>
      (let rq = \<lparr>fr_method = ''DELETE'', fr_url = url @ ''/api/v1/fleet/teams/'' @ show_int teamID,
             fr_authorization = (if token \<noteq> [] then ''Bearer '' @ token else []), fr_content_type = [], fr_body = None\<rparr> in
       case se_srv env rq of
         Not_created e \<Rightarrow> (Some (''build fleet delete request: '' @ e), [])
       | Not_sent e \<Rightarrow> (Some (''fleet delete team request failed: '' @ e), [rq])
       | Answered status _ \<Rightarrow>
           (if status < 200 \<or> status \<ge> 300 then Some (''fleet delete team returned '' @ show_nat status) else None, [rq])))"

text \<open>The answer is \<open>ok\<close> and the error text.\<close>

definition TestFleetConfig :: "settings_env \<Rightarrow> team_state \<Rightarrow> (bool \<times> string) response \<times> fleet_request list" where
  "TestFleetConfig env s =
     (if \<not> se_has_db env then (RespondError 500 ''database not available'', [])
      else case read_config env s of Db_error _ \<Rightarrow> (RespondError 500 ''internal error'', []) | q \<Rightarrow>
      (let (url, enc) = (case q of Ok c \<Rightarrow> (fg_url c, fg_enc c) | _ \<Rightarrow> ([], None));
           token = (if present enc then (case decryptProvisioningToken (se_keys env) (the enc) of Inl _ \<Rightarrow> [] | Inr t \<Rightarrow> t) else [])
       in if url = [] then (RespondJSON 200 (False, ''no fleet server URL configured''), [])
          else (case fleet_Ping (se_srv env) \<lparr>fc_base_url = url, fc_api_token = token, fc_json = se_json env\<rparr> of
                  (Some e, rs) \<Rightarrow> (RespondJSON 200 (False, ''fleet server is unreachable''), rs)
                | (None, rs) \<Rightarrow> (RespondJSON 200 (True, []), rs))))"

section \<open>Teams\<close>

record team_env =
  tv_cmd :: command_env
  tv_claims :: "jwt_claims option"
  tv_rows :: rows_env
  tv_team_err :: "string option"
  tv_map_err :: "string option"
  tv_settings :: settings_env

definition ListPolicies :: "team_env \<Rightarrow> fleet_policy list response" where
  "ListPolicies env =
     (if \<not> isSystemAdminCaller (tv_claims env) then RespondJSON 200 []
      else case fst (fleet_ListPolicies (de_srv (tv_cmd env)) (de_client (tv_cmd env))) of
        Inl _ \<Rightarrow> RespondError 502 ''failed to retrieve policies from Fleet'' | Inr ps \<Rightarrow> RespondJSON 200 ps)"

definition fleetTeamIDsForOrg :: "bool \<Rightarrow> rows_env \<Rightarrow> string \<Rightarrow> team_org list \<Rightarrow> string + int list" where
  "fleetTeamIDsForOrg has_db env orgID rows =
     (if \<not> has_db then Inr []
      else case rw_query_err env of Some e \<Rightarrow> Inl e | None \<Rightarrow>
      (let hits = filter (\<lambda>t. to_org t = orgID) rows in
       if list_ex (rw_scan_fails env) [0..<length hits] then Inl ''scan''
       else case rw_err env of Some e \<Rightarrow> Inl e | None \<Rightarrow> Inr (map to_team hits)))"

definition ListTeams :: "team_env \<Rightarrow> team_state \<Rightarrow> team list response" where
  "ListTeams env s =
     (case fst (fleet_ListTeams (de_srv (tv_cmd env)) (de_client (tv_cmd env))) of
        Inl _ \<Rightarrow> RespondError 502 ''failed to retrieve teams from Fleet''
      | Inr teams \<Rightarrow>
          if isSystemAdminCaller (tv_claims env) then RespondJSON 200 (sort_key tm_id teams)
          else case de_oc (tv_cmd env) of None \<Rightarrow> RespondError 403 ''forbidden: no organization context'' | Some x \<Rightarrow>
          if \<not> de_has_db (tv_cmd env) then RespondError 500 ''database not available''
          else case fleetTeamIDsForOrg (de_has_db (tv_cmd env)) (tv_rows env) (oc_org x) (ts_teams s) of
            Inl _ \<Rightarrow> RespondError 500 ''internal error''
          | Inr allowed \<Rightarrow> RespondJSON 200 (sort_key tm_id (filter (\<lambda>t. tm_id t \<in> set allowed) teams)))"

definition requireFleetTeamInCallerOrg :: "team_env \<Rightarrow> int \<Rightarrow> team_state \<Rightarrow> 'b response option" where
  "requireFleetTeamInCallerOrg env teamID s =
     (if isSystemAdminCaller (tv_claims env) then None
      else case de_oc (tv_cmd env) of None \<Rightarrow> Some (RespondError 403 ''forbidden: no organization context'') | Some x \<Rightarrow>
      if \<not> de_has_db (tv_cmd env) then Some (RespondError 500 ''database not available'')
      else case select_one (tv_team_err env) (\<lambda>t. to_team t = teamID \<and> to_org t = oc_org x) (ts_teams s) of
        No_rows \<Rightarrow> Some (RespondError 404 ''team not found'')
      | Db_error _ \<Rightarrow> Some (RespondError 500 ''internal error'')
      | Ok _ \<Rightarrow> None)"

record create_team =
  ct_name :: string
  ct_description :: string

definition maxTeamDisplayNameLen :: nat where
  "maxTeamDisplayNameLen = 120"

definition team_name_text :: "string \<Rightarrow> id_error \<Rightarrow> string" where
  "team_name_text name e =
     (case e of
        Id_path_like \<Rightarrow> if contains_any [CHR 0x2F, CHR 0x5C] name then ''name must not contain path separators''
                        else ''name must not contain '' @ [CHR 0x27] @ ''..'' @ [CHR 0x27]
      | _ \<Rightarrow> id_error_text ''name'' e)"

definition create_team_error :: "create_team \<Rightarrow> string option" where
  "create_team_error r =
     (if ct_name r = [] then Some ''name is required''
      else if length (ct_name r) > maxTeamDisplayNameLen then Some (max_chars ''name'' ''120'')
      else case ValidateFleetTeamDisplayName (ct_name r) of Some e \<Rightarrow> Some (team_name_text (ct_name r) e) | None \<Rightarrow>
      case ValidateTeamDescription (ct_description r) of
        Some Id_too_long \<Rightarrow> Some (max_chars ''description'' ''500'')
      | Some e \<Rightarrow> Some (id_error_text ''description'' e)
      | None \<Rightarrow> None)"

definition upsert_team_org :: "team_org \<Rightarrow> team_org list \<Rightarrow> team_org list" where
  "upsert_team_org t rows =
     (if list_ex (\<lambda>r. to_team r = to_team t) rows then update_where (\<lambda>r. to_team r = to_team t) (\<lambda>_. t) rows else rows @ [t])"

definition CreateTeam :: "(string \<Rightarrow> string) \<Rightarrow> team_env \<Rightarrow> create_team option \<Rightarrow> team_state \<Rightarrow> team response \<times> fleet_request list \<times> team_state" where
  "CreateTeam jt env body s =
     (case body of None \<Rightarrow> (RespondError 400 ''invalid request body'', [], s) | Some raw \<Rightarrow>
      (let r = \<lparr>ct_name = trim_space (ct_name raw), ct_description = trim_space (ct_description raw)\<rparr>; c = tv_cmd env in
       case create_team_error r of Some e \<Rightarrow> (RespondError 400 e, [], s) | None \<Rightarrow>
       case de_oc c of None \<Rightarrow> (RespondError 403 ''forbidden: no organization context'', [], s) | Some x \<Rightarrow>
       (let fleetName = oc_org x @ ''/'' @ ct_name r in
        case fleet_CreateTeam (de_srv c) (de_client c) fleetName (ct_description r) of
          (Inl e, rs) \<Rightarrow> (RespondError 502 ''failed to create team in Fleet'', rs, s)
        | (Inr team, rs) \<Rightarrow>
            if \<not> de_has_db c then (RespondJSON 201 team, rs, s)
            else if tv_map_err env \<noteq> None
            then (RespondError 500 ''team created in Fleet but org mapping failed'', rs @ snd (deleteFleetTeam (tv_settings env) (tm_id team) s), s)
            else (RespondJSON 201 team, rs,
                  settings_audit jt (de_audit c) (de_oc c)
                    \<lparr>ac_actor = de_actor c, ac_action = ''fleet_team_create'', ac_target_type = ''team'', ac_target_id = tm_name team,
                     ac_details = Some (JObj [(''team_name'', JStr (tm_name team)), (''team_id'', JInt (tm_id team)), (''org_id'', JStr (oc_org x))])\<rparr>
                    (s\<lparr>ts_teams := upsert_team_org \<lparr>to_team = tm_id team, to_org = oc_org x, to_name = tm_name team\<rparr> (ts_teams s)\<rparr>)))))"

definition team_gate :: "team_env \<Rightarrow> string \<Rightarrow> team_state \<Rightarrow> 'b response + int" where
  "team_gate env raw s =
     (case ParsePositiveTeamID raw of Inl e \<Rightarrow> Inl (RespondError 400 (id_error_text ''team id'' e)) | Inr n \<Rightarrow>
      case requireFleetTeamInCallerOrg env (int n) s of Some r \<Rightarrow> Inl r | None \<Rightarrow> Inr (int n))"

definition policy_id_text :: "id_error \<Rightarrow> string" where
  "policy_id_text e = (case e of Id_too_long \<Rightarrow> max_chars ''policyId'' ''128'' | _ \<Rightarrow> id_error_text ''policyId'' e)"

definition AssignTeamPolicy :: "(string \<Rightarrow> string) \<Rightarrow> team_env \<Rightarrow> string \<Rightarrow> string option \<Rightarrow> team_state
   \<Rightarrow> (int \<times> string) response \<times> fleet_request list \<times> team_state" where
  "AssignTeamPolicy jt env rawID body s =
     (case team_gate env rawID s of Inl r \<Rightarrow> (r, [], s) | Inr teamID \<Rightarrow>
      case body of None \<Rightarrow> (RespondError 400 ''invalid request body'', [], s) | Some raw \<Rightarrow>
      (let policyID = trim_space raw; c = tv_cmd env in
       case ValidatePolicyID policyID of Some e \<Rightarrow> (RespondError 400 (policy_id_text e), [], s) | None \<Rightarrow>
       case AssignPolicyToTeam (de_srv c) (de_client c) teamID policyID of
         (Some e, rs) \<Rightarrow> (RespondError 502 ''failed to assign policy via Fleet'', rs, s)
       | (None, rs) \<Rightarrow>
           (RespondJSON 200 (teamID, policyID), rs,
            if de_has_db c then settings_audit jt (de_audit c) (de_oc c)
              \<lparr>ac_actor = de_actor c, ac_action = ''fleet_team_policy_assign'', ac_target_type = ''team'', ac_target_id = show_int teamID,
               ac_details = Some (JObj [(''team_id'', JInt teamID), (''policy_id'', JStr policyID)])\<rparr> s
            else s)))"

fun clean_hosts :: "string list \<Rightarrow> id_error + string list" where
  "clean_hosts [] = Inr []"
| "clean_hosts (raw # ids) =
     (let i = trim_space raw in
      if i = [] then clean_hosts ids
      else case ValidateHostID i of Some e \<Rightarrow> Inl e | None \<Rightarrow>
      case clean_hosts ids of Inl e \<Rightarrow> Inl e | Inr rest \<Rightarrow> Inr (i # rest))"

definition maxHostIDsPerMove :: nat where
  "maxHostIDsPerMove = 500"

definition MoveHostToTeam :: "(string \<Rightarrow> string) \<Rightarrow> team_env \<Rightarrow> string \<Rightarrow> string list option \<Rightarrow> team_state
   \<Rightarrow> (int \<times> nat) response \<times> fleet_request list \<times> team_state" where
  "MoveHostToTeam jt env rawID body s =
     (case team_gate env rawID s of Inl r \<Rightarrow> (r, [], s) | Inr teamID \<Rightarrow>
      case body of None \<Rightarrow> (RespondError 400 ''invalid request body'', [], s) | Some raw \<Rightarrow>
      case clean_hosts raw of Inl e \<Rightarrow> (RespondError 400 (id_error_text ''host id'' e), [], s) | Inr hosts \<Rightarrow>
      if hosts = [] then (RespondError 400 ''hostIds must not be empty'', [], s)
      else if length hosts > maxHostIDsPerMove then (RespondError 400 ''too many host IDs (max 500)'', [], s)
      else let c = tv_cmd env in
      case requireDevicesInCallerOrg (de_has_db c) (tv_rows env) (ds_devices (ts_dev s)) (de_oc c) hosts of Some r \<Rightarrow> (r, [], s) | None \<Rightarrow>
      case fleet_MoveHostToTeam (de_srv c) (de_client c) teamID hosts of
        (Some e, rs) \<Rightarrow> (RespondError 502 ''failed to move hosts via Fleet'', rs, s)
      | (None, rs) \<Rightarrow>
          (RespondJSON 200 (teamID, length hosts), rs,
           if de_has_db c then settings_audit jt (de_audit c) (de_oc c)
             \<lparr>ac_actor = de_actor c, ac_action = ''fleet_host_move_team'', ac_target_type = ''team'', ac_target_id = show_int teamID,
              ac_details = Some (JObj [(''team_id'', JInt teamID), (''host_ids'', JArr (map JStr hosts))])\<rparr> s
           else s))"

section \<open>What the gates let through\<close>

definition owns_team :: "team_env \<Rightarrow> int \<Rightarrow> team_state \<Rightarrow> bool" where
  "owns_team env teamID s \<longleftrightarrow> isSystemAdminCaller (tv_claims env)
     \<or> (\<exists>x t. de_oc (tv_cmd env) = Some x \<and> t \<in> set (ts_teams s) \<and> to_team t = teamID \<and> to_org t = oc_org x)"

lemma team_gate_owned: "team_gate env raw s = Inr n \<Longrightarrow> owns_team env n s \<and> 0 < n"
  by (auto simp: team_gate_def requireFleetTeamInCallerOrg_def owns_team_def ParsePositiveTeamID_def Let_def
      split: sum.splits option.splits if_splits query.splits dest!: select_one_Ok_D)

lemma move_requests:
  assumes "rq \<in> set (snd (fleet_MoveHostToTeam srv f n hosts))"
  shows "fr_body rq = Some (JObj [(''team_id'', JInt n), (''host_ids'', JArr (map JStr hosts))])"
    and "fr_url rq = fc_base_url f @ hosts_path @ ''/transfer/teams''"
proof -
  have "snd (fleet_MoveHostToTeam srv f n hosts) = [] \<or> snd (fleet_MoveHostToTeam srv f n hosts)
      = snd (doRequest srv f ''POST'' (hosts_path @ ''/transfer/teams'') (Some (JObj [(''team_id'', JInt n), (''host_ids'', JArr (map JStr hosts))])))"
    by (auto simp: fleet_MoveHostToTeam_def split: option.split prod.split sum.split)
  with assms show "fr_body rq = Some (JObj [(''team_id'', JInt n), (''host_ids'', JArr (map JStr hosts))])"
    "fr_url rq = fc_base_url f @ hosts_path @ ''/transfer/teams''"
    by (auto dest: doRequest_sent)
qed

lemma clean_hosts_names: "clean_hosts raw = Inr hosts \<Longrightarrow> hosts = filter (\<lambda>i. i \<noteq> []) (map trim_space raw)"
  by (induction raw arbitrary: hosts) (auto simp: Let_def split: if_splits option.splits sum.splits)

lemma move_sent:
  assumes "fleet_MoveHostToTeam srv f n hosts = (e, rs)" and "hosts \<noteq> []"
  shows "rs = [] \<and> e \<noteq> None \<or> (\<exists>rq. rs = [rq] \<and> (e = None \<longrightarrow> (\<exists>code answer. srv rq = Answered code (Inr answer) \<and> 200 \<le> code \<and> code < 300)))"
proof -
  have "length (snd (doRequest srv f m p b)) \<le> 1" for m p b
    by (auto simp: doRequest_def Let_def split: fleet_answer.splits sum.splits)
  then have len: "doRequest srv f m p b = (x, qs) \<Longrightarrow> qs = [] \<or> (\<exists>q. qs = [q])" for m p b x qs
    by (metis One_nat_def Suc_length_conv le_Suc_eq le_zero_eq length_0_conv snd_conv)
  show ?thesis
    using assms by (auto simp: fleet_MoveHostToTeam_def split: option.splits prod.splits sum.splits dest: len dest!: doRequest_accepted)
qed

lemma MoveHostToTeam_cases:
  assumes "MoveHostToTeam jt env rawID body s = (resp, rs, s')"
  obtains (nothing) "rs = []" "\<not> success resp" "s' = s"
  | (sent) n raw hosts e where "ParsePositiveTeamID rawID = Inr n" "owns_team env (int n) s" "body = Some raw"
      "hosts = filter (\<lambda>i. i \<noteq> []) (map trim_space raw)" "hosts \<noteq> []" "length hosts \<le> 500"
      "requireDevicesInCallerOrg (de_has_db (tv_cmd env)) (tv_rows env) (ds_devices (ts_dev s)) (de_oc (tv_cmd env)) hosts = (None :: (int \<times> nat) response option)"
      "fleet_MoveHostToTeam (de_srv (tv_cmd env)) (de_client (tv_cmd env)) (int n) hosts = (e, rs)"
      "success resp \<longleftrightarrow> e = None" "ts_dev s' = ts_dev s\<lparr>ds_life := ds_life (ts_dev s')\<rparr>" "e \<noteq> None \<longrightarrow> s' = s"
proof (cases "team_gate env rawID s :: (int \<times> nat) response + int")
  case (Inl r)
  then have "\<not> success r"
    by (auto simp: team_gate_def requireFleetTeamInCallerOrg_def split: sum.splits option.splits if_splits query.splits)
  moreover have "rs = []" "resp = r" "s' = s" using Inl assms by (auto simp: MoveHostToTeam_def)
  ultimately show ?thesis by (intro that(1)) simp_all
next
  case (Inr m)
  then obtain n where n: "ParsePositiveTeamID rawID = Inr n" "m = int n" by (auto simp: team_gate_def split: sum.splits option.splits)
  have refused: "requireDevicesInCallerOrg b rw ds oc hs = Some (r :: (int \<times> nat) response) \<Longrightarrow> \<not> success r" for b rw ds oc hs r
    by (auto simp: requireDevicesInCallerOrg_def Let_def split: option.splits if_splits)
  have ok: "\<not> success (RespondError 400 x :: (int \<times> nat) response)" "\<not> success (RespondError 502 x :: (int \<times> nat) response)"
    "success (RespondJSON 200 y)" for x and y :: "int \<times> nat" by simp_all
  have "rs = [] \<and> \<not> success resp \<and> s' = s
    \<or> (\<exists>raw hosts e. body = Some raw \<and> clean_hosts raw = Inr hosts \<and> hosts \<noteq> [] \<and> length hosts \<le> 500
        \<and> requireDevicesInCallerOrg (de_has_db (tv_cmd env)) (tv_rows env) (ds_devices (ts_dev s)) (de_oc (tv_cmd env)) hosts = (None :: (int \<times> nat) response option)
        \<and> fleet_MoveHostToTeam (de_srv (tv_cmd env)) (de_client (tv_cmd env)) (int n) hosts = (e, rs)
        \<and> (success resp \<longleftrightarrow> e = None) \<and> ts_dev s' = ts_dev s\<lparr>ds_life := ds_life (ts_dev s')\<rparr> \<and> (e \<noteq> None \<longrightarrow> s' = s))"
    using assms by (auto simp: MoveHostToTeam_def Inr n(2) ok settings_audit_def maxHostIDsPerMove_def Let_def
        split: sum.splits option.splits if_splits prod.splits dest!: refused)
  then show ?thesis
  proof (elim disjE exE conjE)
    assume "rs = []" "\<not> success resp" "s' = s"
    then show ?thesis by (rule nothing)
  next
    fix raw hosts e
    assume "body = Some raw" "clean_hosts raw = Inr hosts" "hosts \<noteq> []" "length hosts \<le> 500"
      "requireDevicesInCallerOrg (de_has_db (tv_cmd env)) (tv_rows env) (ds_devices (ts_dev s)) (de_oc (tv_cmd env)) hosts = (None :: (int \<times> nat) response option)"
      "fleet_MoveHostToTeam (de_srv (tv_cmd env)) (de_client (tv_cmd env)) (int n) hosts = (e, rs)"
      "success resp \<longleftrightarrow> e = None" "ts_dev s' = ts_dev s\<lparr>ds_life := ds_life (ts_dev s')\<rparr>" "e \<noteq> None \<longrightarrow> s' = s"
    then show ?thesis using team_gate_owned [OF Inr] n clean_hosts_names by (intro sent [of n raw hosts e]) simp_all
  qed
qed

text \<open>C21. Hosts move only inside an organisation, all or none.  When a request to move hosts sends anything to Fleet, it sends one request, for the team of the
  route and exactly the hosts of the body, blank entries left out: the caller is a system administrator or the team belongs to the organisation of the caller, and every one of
  the hosts is a device of that organisation, for system administrators too; they are between one and five hundred.  So a body that mentions one foreign or unknown
  host moves none.  The answer is a success only when Fleet answered that request with a status of the 200s; and no handler of its own changes a device.\<close>

theorem host_moves_confined:
  assumes "distinct (map dv_host (ds_devices (ts_dev s)))" and "MoveHostToTeam jt env rawID body s = (resp, rs, s')"
  shows "rs = [] \<and> \<not> success resp \<and> ts_dev s' = ts_dev s
    \<or> (\<exists>n raw hosts x rq. ParsePositiveTeamID rawID = Inr n \<and> owns_team env (int n) s \<and> body = Some raw
        \<and> hosts = filter (\<lambda>i. i \<noteq> []) (map trim_space raw) \<and> hosts \<noteq> [] \<and> length hosts \<le> 500
        \<and> de_oc (tv_cmd env) = Some x \<and> (\<forall>i \<in> set hosts. \<exists>d \<in> set (ds_devices (ts_dev s)). dv_host d = i \<and> dv_org d = oc_org x)
        \<and> rs = [rq] \<and> fr_body rq = Some (JObj [(''team_id'', JInt (int n)), (''host_ids'', JArr (map JStr hosts))])
        \<and> (success resp \<longrightarrow> (\<exists>code answer. de_srv (tv_cmd env) rq = Answered code (Inr answer) \<and> 200 \<le> code \<and> code < 300))
        \<and> ds_devices (ts_dev s') = ds_devices (ts_dev s))"
  using assms(2)
proof (cases rule: MoveHostToTeam_cases)
  case nothing
  then show ?thesis by simp
next
  case (sent n raw hosts e)
  from batch_gate.gate_owns [OF sent(7)] assms(1) obtain x where x: "de_oc (tv_cmd env) = Some x"
    "\<forall>i \<in> set hosts. \<exists>d \<in> set (ds_devices (ts_dev s)). dv_host d = i \<and> dv_org d = oc_org x"
    by (auto simp: owns_all_def)
  from move_sent [OF sent(8,5)] show ?thesis
  proof (elim disjE exE conjE)
    assume "rs = []" "e \<noteq> None"
    with sent(9,11) show ?thesis by simp
  next
    fix rq
    assume rq: "rs = [rq]" "e = None \<longrightarrow> (\<exists>code answer. de_srv (tv_cmd env) rq = Answered code (Inr answer) \<and> 200 \<le> code \<and> code < 300)"
    have "fr_body rq = Some (JObj [(''team_id'', JInt (int n)), (''host_ids'', JArr (map JStr hosts))])"
      using move_requests(1) [of rq "de_srv (tv_cmd env)" "de_client (tv_cmd env)" "int n" hosts] sent(8) rq(1) by simp
    moreover have "ds_devices (ts_dev s') = ds_devices (ts_dev s)" by (subst sent(10)) simp
    ultimately show ?thesis using sent(1-6,9) x rq by blast
  qed
qed

section \<open>Creating teams\<close>

text \<open>Without a slash in the parts, the name of a team in Fleet determines the organisation and the displayed name.\<close>

lemma team_name_inject:
  assumes "CHR 0x2F \<notin> set o1" and "CHR 0x2F \<notin> set o2" and "o1 @ ''/'' @ n1 = o2 @ ''/'' @ n2"
  shows "o1 = o2 \<and> n1 = n2"
proof -
  have "takeWhile (\<lambda>c. c \<noteq> CHR 0x2F) (o1 @ ''/'' @ n1) = o1" "takeWhile (\<lambda>c. c \<noteq> CHR 0x2F) (o2 @ ''/'' @ n2) = o2"
    using assms(1,2) by (auto simp: takeWhile_append)
  with assms(3) have "o1 = o2" by simp
  with assms(3) show ?thesis by simp
qed

lemma create_team_error_None:
  "create_team_error r = None \<Longrightarrow> ct_name r \<noteq> [] \<and> length (ct_name r) \<le> 120 \<and> CHR 0x2F \<notin> set (ct_name r)"
  by (auto simp: create_team_error_def maxTeamDisplayNameLen_def ValidateFleetTeamDisplayName_def contains_any_def list_ex_iff
      split: if_splits option.splits)

lemma CreateTeam_sent: "rq \<in> set (snd (fleet_CreateTeam srv f name d)) \<Longrightarrow>
    fr_method rq = ''POST'' \<and> fr_body rq = Some (JObj [(''name'', JStr name), (''description'', JStr d)])"
  using doRequest_sent [of rq srv f "''POST''"] by (auto simp: fleet_CreateTeam_def fetch_sent)

lemma in_upsert_team_org:
  "t \<in> set (upsert_team_org t rows)" "q \<in> set (upsert_team_org t rows) \<Longrightarrow> q = t \<or> q \<in> set rows \<and> to_team q \<noteq> to_team t"
  "q \<in> set rows \<Longrightarrow> to_team q \<noteq> to_team t \<Longrightarrow> q \<in> set (upsert_team_org t rows)"
  by (auto simp: upsert_team_org_def sql_simps list_ex_iff split: if_splits)

lemma settings_audit_teams [simp]: "ts_teams (settings_audit jt env oc call s) = ts_teams s"
  by (simp add: settings_audit_def)

text \<open>The two outcomes once the request is well-formed and has reached Fleet.\<close>

lemma deleteFleetTeam_sent: "rq \<in> set (snd (deleteFleetTeam env n s)) \<Longrightarrow> fr_method rq = ''DELETE''"
  by (auto simp: deleteFleetTeam_def Let_def split: sum.splits prod.splits fleet_answer.splits)

lemma deleteFleetTeam_url:
  "fleetEndpointCredentials env s = Inr (url, token) \<Longrightarrow> (\<And>rq e. se_srv env rq \<noteq> Not_created e) \<Longrightarrow>
     \<exists>rq. snd (deleteFleetTeam env n s) = [rq] \<and> fr_url rq = url @ ''/api/v1/fleet/teams/'' @ show_int n"
  by (auto simp: deleteFleetTeam_def Let_def split: fleet_answer.split)

lemma CreateTeam_cases:
  assumes "CreateTeam jt env body s = (resp, rs, s')" and "de_oc (tv_cmd env) = Some x" and "de_has_db (tv_cmd env)"
  obtains (refused) "\<not> success resp" "rs = []" "s' = s"
  | (failed) r where "create_team_error r = None" "\<not> success resp" "s' = s"
      "rs = snd (fleet_CreateTeam (de_srv (tv_cmd env)) (de_client (tv_cmd env)) (oc_org x @ ''/'' @ ct_name r) (ct_description r))"
      "\<exists>e. fst (fleet_CreateTeam (de_srv (tv_cmd env)) (de_client (tv_cmd env)) (oc_org x @ ''/'' @ ct_name r) (ct_description r)) = Inl e"
  | (undone) r team where "create_team_error r = None" "\<not> success resp" "s' = s" "tv_map_err env \<noteq> None"
      "fst (fleet_CreateTeam (de_srv (tv_cmd env)) (de_client (tv_cmd env)) (oc_org x @ ''/'' @ ct_name r) (ct_description r)) = Inr team"
      "rs = snd (fleet_CreateTeam (de_srv (tv_cmd env)) (de_client (tv_cmd env)) (oc_org x @ ''/'' @ ct_name r) (ct_description r))
          @ snd (deleteFleetTeam (tv_settings env) (tm_id team) s)"
  | (created) r team where "create_team_error r = None" "resp = RespondJSON 201 team" "tv_map_err env = None"
      "fst (fleet_CreateTeam (de_srv (tv_cmd env)) (de_client (tv_cmd env)) (oc_org x @ ''/'' @ ct_name r) (ct_description r)) = Inr team"
      "rs = snd (fleet_CreateTeam (de_srv (tv_cmd env)) (de_client (tv_cmd env)) (oc_org x @ ''/'' @ ct_name r) (ct_description r))"
      "ts_teams s' = upsert_team_org \<lparr>to_team = tm_id team, to_org = oc_org x, to_name = tm_name team\<rparr> (ts_teams s)"
proof (cases body)
  case None
  with assms(1) show ?thesis by (intro refused) (auto simp: CreateTeam_def)
next
  case (Some raw)
  define r where "r = \<lparr>ct_name = trim_space (ct_name raw), ct_description = trim_space (ct_description raw)\<rparr>"
  let ?c = "fleet_CreateTeam (de_srv (tv_cmd env)) (de_client (tv_cmd env)) (oc_org x @ ''/'' @ ct_name r) (ct_description r)"
  note run = assms(1) [unfolded CreateTeam_def Some option.case Let_def, folded r_def]
  show ?thesis
  proof (cases "create_team_error r")
    case (Some e)
    with run show ?thesis by (intro refused) auto
  next
    case None
    obtain res rs1 where c: "?c = (res, rs1)" by (metis surj_pair)
    show ?thesis
    proof (cases res)
      case (Inl e)
      with run None assms(2) c show ?thesis by (intro failed [OF None]) auto
    next
      case (Inr team)
      show ?thesis
      proof (cases "tv_map_err env")
        case None': None
        with run None assms(2,3) c Inr show ?thesis by (intro created [OF None, of team]) auto
      next
        case (Some e)
        with run None assms(2,3) c Inr show ?thesis by (intro undone [OF None, of team]) auto
      qed
    qed
  qed
qed

text \<open>A team belongs to the organisation that created it.  A success means that Fleet created a team whose name starts
  with the id of the organisation of the caller and a slash, followed by a name without one, and that the table maps this team, and no other
  than before, to the organisation.  Any failure leaves the table alone; if it was the table that failed, the team is deleted in Fleet again,
  with the address the settings give, and nothing is ever deleted otherwise.\<close>

theorem team_belongs_to_creator:
  assumes "CreateTeam jt env body s = (resp, rs, s')" and "de_oc (tv_cmd env) = Some x" and "de_has_db (tv_cmd env)"
  shows "(success resp \<longrightarrow> tv_map_err env = None \<and> (\<exists>team. resp = RespondJSON 201 team
       \<and> \<lparr>to_team = tm_id team, to_org = oc_org x, to_name = tm_name team\<rparr> \<in> set (ts_teams s')
       \<and> (\<forall>q. to_team q \<noteq> tm_id team \<longrightarrow> q \<in> set (ts_teams s') \<longleftrightarrow> q \<in> set (ts_teams s))))
    \<and> (\<not> success resp \<longrightarrow> s' = s)
    \<and> (\<forall>rq \<in> set rs.
         (\<exists>n d. fr_method rq = ''POST'' \<and> fr_body rq = Some (JObj [(''name'', JStr (oc_org x @ ''/'' @ n)), (''description'', JStr d)])
            \<and> n \<noteq> [] \<and> CHR 0x2F \<notin> set n)
         \<or> fr_method rq = ''DELETE'' \<and> \<not> success resp \<and> tv_map_err env \<noteq> None)"
proof -
  have post: "\<exists>n d. fr_method rq = ''POST'' \<and> fr_body rq = Some (JObj [(''name'', JStr (oc_org x @ ''/'' @ n)), (''description'', JStr d)])
      \<and> n \<noteq> [] \<and> CHR 0x2F \<notin> set n"
    if "rq \<in> set (snd (fleet_CreateTeam srv f (oc_org x @ ''/'' @ ct_name r) (ct_description r)))" "create_team_error r = None" for rq srv f r
    using CreateTeam_sent [OF that(1)] create_team_error_None [OF that(2)] by blast
  from assms show ?thesis
  proof (cases rule: CreateTeam_cases)
    case refused
    then show ?thesis by simp
  next
    case (failed r)
    then show ?thesis using post by auto
  next
    case (undone r team)
    then show ?thesis using post [OF _ undone(1)] deleteFleetTeam_sent by fastforce
  next
    case (created r team)
    note row = in_upsert_team_org [where t = "\<lparr>to_team = tm_id team, to_org = oc_org x, to_name = tm_name team\<rparr>"]
    have "\<lparr>to_team = tm_id team, to_org = oc_org x, to_name = tm_name team\<rparr> \<in> set (ts_teams s')"
      unfolding created(6) by (rule row(1))
    moreover have "q \<in> set (ts_teams s') \<longleftrightarrow> q \<in> set (ts_teams s)" if "to_team q \<noteq> tm_id team" for q
      unfolding created(6) using row(2,3) that by fastforce
    ultimately show ?thesis using created(1-5) post by simp
  qed
qed

section \<open>Settings take effect\<close>

text \<open>The saved settings are the ones that are used.  After a token and an address have been saved, the code that builds its own requests
  to Fleet resolves exactly this address, without a trailing slash, and this token, whatever the environment says; the address passed the
  check for outbound addresses, the stored token is sealed, and the page of the settings shows that a token is configured.\<close>

theorem fleet_settings_take_effect:
  assumes "UpsertFleetConfig jt env (Some (raw, token)) s = (RespondJSON 200 ok, s')" and "token \<noteq> []" and "trim_space raw \<noteq> []"
    and "\<And>n. se_random env = Inr n \<Longrightarrow> length n = 12" and "se_read_err env = None"
  shows "fleetEndpointCredentials env s' = Inr (trim_right_slash (trim_space raw), token)
    \<and> validateOutboundURL (se_outbound env) ''serverUrl'' (trim_space raw) = None
    \<and> (\<exists>v. GetFleetConfig env s' = RespondJSON 200 v \<and> fv_url v = trim_space raw \<and> fv_token_configured v)"
proof -
  from assms(1,2,3) obtain enc where enc: "encryptProvisioningToken (se_keys env) (se_random env) token = Inr enc"
    and db: "se_has_db env" and ok: "validateOutboundURL (se_outbound env) ''serverUrl'' (trim_space raw) = None"
    and cfg: "ts_config s' = Some \<lparr>fg_url = trim_space raw, fg_enc = Some enc, fg_hash = Some (tokenSHA256 token), fg_updated = pg_timestamp (se_now env)\<rparr>"
    by (auto simp: UpsertFleetConfig_def Let_def fleet_config_upsert_def settings_audit_def split: if_splits option.splits sum.splits)
  have "decryptProvisioningToken (se_keys env) enc = Inr token" by (rule decrypt_encrypt [OF assms(4) enc])
  moreover have "enc \<noteq> []" by (rule sealed_nonempty [OF assms(4) enc assms(2)])
  moreover have "tokenSHA256 token \<noteq> []" using length_hex_sha256 [of token] by (auto simp: tokenSHA256_def)
  ultimately show ?thesis
    using ok db cfg assms(3,5)
    by (simp add: trim_space_idem fleetEndpointCredentials_def GetFleetConfig_def read_config_def present_def)
qed

section \<open>Two organisations\<close>

definition admin_settings :: settings_env where
  "admin_settings = \<lparr>se_has_db = True, se_oc = Some o1_context, se_actor = ''kc1'', se_read_err = None, se_exec_err = None,
     se_outbound = \<lparr>oe_app_env = ''production'', oe_parse = (\<lambda>u. Some \<lparr>pl_scheme = ''https'', pl_host = ''9.9.9.9'', pl_hostname = ''9.9.9.9'', pl_port = []\<rparr>),
       oe_lookup = (\<lambda>h. None)\<rparr>,
     se_keys = \<lparr>kv_injected = None, kv_var = StdEncode (replicate 32 (CHR ''k'')), kv_app_env = ''production''\<rparr>,
     se_random = Inr ''twelve bytes'', se_now = 0,
     se_audit = \<lparr>we_begin = None, we_lock = None, we_head = None, we_canonicalise = None, we_insert = None, we_commit = None, tx_now = 0\<rparr>,
     se_srv = (\<lambda>rq. Answered 200 (Inr ''{}'')), se_json = silent_json, se_fleet_url = ''https://other'', se_fleet_token = ''env''\<rparr>"

definition teams :: team_state where
  "teams = \<lparr>ts_dev = laptops, ts_teams = [\<lparr>to_team = 7, to_org = ''o1'', to_name = ''o1/sales''\<rparr>], ts_config = None\<rparr>"

definition helpdesk_teams :: team_env where
  "helpdesk_teams = \<lparr>tv_cmd = helpdesk_commands\<lparr>de_client := (de_client helpdesk_commands)\<lparr>fc_json := silent_json\<lparr>fj_team :=
       (\<lambda>b. Inr \<lparr>tm_id = 8, tm_name = ''o1/dev'', tm_description = []\<rparr>)\<rparr>\<rparr>\<rparr>,
     tv_claims = None, tv_rows = calm_rows, tv_team_err = None, tv_map_err = None, tv_settings = admin_settings\<rparr>"

lemma move_h1:
  "\<exists>rq s'. MoveHostToTeam id helpdesk_teams ''7'' (Some [''h1'']) teams = (RespondJSON 200 (7, 1), [rq], s')"
proof -
  have "team_gate helpdesk_teams ''7'' teams = (Inr 7 :: (int \<times> nat) response + int)" by code_simp
  moreover have "clean_hosts [''h1''] = Inr [''h1'']" by code_simp
  moreover have "requireDevicesInCallerOrg (de_has_db (tv_cmd helpdesk_teams)) (tv_rows helpdesk_teams) (ds_devices (ts_dev teams)) (de_oc (tv_cmd helpdesk_teams)) [''h1'']
      = (None :: (int \<times> nat) response option)" by code_simp
  moreover have "validateHostID ''h1'' = None" by code_simp
  then obtain rq where "fleet_MoveHostToTeam (de_srv (tv_cmd helpdesk_teams)) (de_client (tv_cmd helpdesk_teams)) 7 [''h1''] = (None, [rq])"
    by (simp add: fleet_MoveHostToTeam_def doRequest_def maxFleetResponseBytes_def helpdesk_teams_def helpdesk_commands_def)
  ultimately show ?thesis unfolding MoveHostToTeam_def Let_def maxHostIDsPerMove_def by simp
qed

theorem host_moves_confined_witness:
  "\<exists>rq s'. MoveHostToTeam id helpdesk_teams ''7'' (Some [''h1'']) teams = (RespondJSON 200 (7, 1), [rq], s')
     \<and> fr_body rq = Some (JObj [(''team_id'', JInt 7), (''host_ids'', JArr [JStr ''h1''])])"
proof -
  from move_h1 obtain rq s' where run: "MoveHostToTeam id helpdesk_teams ''7'' (Some [''h1'']) teams = (RespondJSON 200 (7, 1), [rq], s')" by blast
  have keys: "distinct (map dv_host (ds_devices (ts_dev teams)))" by (simp add: teams_def laptops_def)
  have "trim_space ''h1'' = ''h1''" "ParsePositiveTeamID ''7'' = Inr 7" by code_simp+
  with host_moves_confined [OF keys run] run show ?thesis by auto
qed

lemma create_dev: "\<exists>rs s'. CreateTeam id helpdesk_teams (Some \<lparr>ct_name = ''dev'', ct_description = []\<rparr>) teams
    = (RespondJSON 201 \<lparr>tm_id = 8, tm_name = ''o1/dev'', tm_description = []\<rparr>, rs, s')"
proof -
  have "trim_space ''dev'' = ''dev''" "trim_space [] = []" by code_simp+
  moreover have "create_team_error \<lparr>ct_name = ''dev'', ct_description = []\<rparr> = None" by code_simp
  moreover obtain rs where "fleet_CreateTeam (de_srv (tv_cmd helpdesk_teams)) (de_client (tv_cmd helpdesk_teams)) ''o1/dev'' []
      = (Inr \<lparr>tm_id = 8, tm_name = ''o1/dev'', tm_description = []\<rparr>, rs)"
    by (simp add: fleet_CreateTeam_def fetch_def doRequest_def maxFleetResponseBytes_def helpdesk_teams_def helpdesk_commands_def)
  moreover have "de_oc (tv_cmd helpdesk_teams) = Some o1_context" "tv_map_err helpdesk_teams = None"
    by (simp_all add: helpdesk_teams_def helpdesk_commands_def)
  ultimately show ?thesis by (auto simp: CreateTeam_def o1_context_def Let_def)
qed

theorem team_belongs_to_creator_witness:
  "\<exists>s' :: team_state. \<lparr>to_team = 8, to_org = ''o1'', to_name = ''o1/dev''\<rparr> \<in> set (ts_teams s')
     \<and> \<lparr>to_team = 7, to_org = ''o1'', to_name = ''o1/sales''\<rparr> \<in> set (ts_teams s')"
proof -
  from create_dev obtain rs s' where run: "CreateTeam id helpdesk_teams (Some \<lparr>ct_name = ''dev'', ct_description = []\<rparr>) teams
    = (RespondJSON 201 \<lparr>tm_id = 8, tm_name = ''o1/dev'', tm_description = []\<rparr>, rs, s')" by blast
  have oc: "de_oc (tv_cmd helpdesk_teams) = Some o1_context" and db: "de_has_db (tv_cmd helpdesk_teams)"
    by (simp_all add: helpdesk_teams_def helpdesk_commands_def)
  from team_belongs_to_creator [OF run oc db]
  have "\<lparr>to_team = 8, to_org = ''o1'', to_name = ''o1/dev''\<rparr> \<in> set (ts_teams s')"
    "\<forall>q. to_team q \<noteq> 8 \<longrightarrow> q \<in> set (ts_teams s') \<longleftrightarrow> q \<in> set (ts_teams teams)"
    by (simp_all add: o1_context_def)
  moreover have "\<lparr>to_team = 7, to_org = ''o1'', to_name = ''o1/sales''\<rparr> \<in> set (ts_teams teams)" by (simp add: teams_def)
  ultimately show ?thesis by (intro exI [of _ s']) simp
qed

lemma save_settings: "\<exists>s'. UpsertFleetConfig id admin_settings (Some (''https://9.9.9.9'', ''tok'')) teams = (RespondJSON 200 True, s')"
proof -
  have "trim_space ''https://9.9.9.9'' = ''https://9.9.9.9''" by code_simp
  moreover have "validateOutboundURL (se_outbound admin_settings) ''serverUrl'' ''https://9.9.9.9'' = None" by code_simp
  moreover obtain enc where "encryptProvisioningToken (se_keys admin_settings) (se_random admin_settings) ''tok'' = Inr enc"
    by (simp add: encryptProvisioningToken_def provisioningMasterKey_def resolvedProvisioningMasterKey_def admin_settings_def StdEncode_Nil_iff)
  moreover have "se_has_db admin_settings" "se_exec_err admin_settings = None" by (simp_all add: admin_settings_def)
  ultimately show ?thesis by (simp add: UpsertFleetConfig_def Let_def)
qed

theorem fleet_settings_take_effect_witness:
  "\<exists>s' :: team_state. fleetEndpointCredentials admin_settings s' = Inr (''https://9.9.9.9'', ''tok'')"
proof -
  from save_settings obtain s' where run: "UpsertFleetConfig id admin_settings (Some (''https://9.9.9.9'', ''tok'')) teams = (RespondJSON 200 True, s')" by blast
  have t: "trim_space ''https://9.9.9.9'' = ''https://9.9.9.9''" "trim_right_slash ''https://9.9.9.9'' = ''https://9.9.9.9''" by code_simp+
  have "se_random admin_settings = Inr n \<Longrightarrow> length n = 12" for n by (auto simp: admin_settings_def)
  with fleet_settings_take_effect [OF run] t show ?thesis by (auto simp: admin_settings_def)
qed

end
