(* ===== verification/Mfa.thy ===== *)
theory Mfa
  imports Lifecycle
begin

text \<open>
  Second factors: the administrator's view of \<open>internal/handlers/mfa.go\<close>, the self-service endpoints of \<open>mfa_self.go\<close> with
  the recovery codes, and the credential operations of the Keycloak client.  The bytes of a recovery code come from the random source, a
  parameter; codes are stored as their SHA-256 hash.
\<close>

section \<open>State\<close>

record kc_credential =
  kr_id :: "string option"
  kr_type :: "string option"
  kr_created :: "int option"

record code_row =
  cw_user :: string
  cw_hash :: string
  cw_used :: "time option"

text \<open>Keycloak keeps the credentials and the required actions of each user; a user without an entry does not exist.\<close>

record mfa_state =
  mf_credentials :: "(string \<times> kc_credential) list"
  mf_actions :: "(string \<times> string list) list"
  mf_codes :: "code_row list"
  mf_coverage :: "(string \<times> bool) list"
  mf_life :: life_db

section \<open>The Keycloak client\<close>

record cred_env =
  mk_login :: "string option"
  mk_list :: "string option"
  mk_get :: "string option"
  mk_change :: "string option"

definition GetUserCredentialsFull :: "cred_env \<Rightarrow> string \<Rightarrow> mfa_state \<Rightarrow> string + kc_credential list" where
  "GetUserCredentialsFull env userID s =
     (case mk_login env of Some e \<Rightarrow> Inl e | None \<Rightarrow>
      case mk_list env of Some e \<Rightarrow> Inl (''get credentials (full) for user '' @ userID @ '': '' @ e)
      | None \<Rightarrow> Inr (map snd (filter (\<lambda>c. fst c = userID) (mf_credentials s))))"

text \<open>\<open>GetUserCredentials\<close>: the types of the credentials that have one.\<close>

definition GetUserCredentials :: "cred_env \<Rightarrow> string \<Rightarrow> mfa_state \<Rightarrow> string + string list" where
  "GetUserCredentials env userID s =
     (case mk_login env of Some e \<Rightarrow> Inl e | None \<Rightarrow>
      case mk_list env of Some e \<Rightarrow> Inl (''get credentials for user '' @ userID @ '': '' @ e)
      | None \<Rightarrow> Inr (map (\<lambda>c. the (kr_type c)) (filter (\<lambda>c. kr_type c \<noteq> None) (map snd (filter (\<lambda>c. fst c = userID) (mf_credentials s))))))"

definition DeleteCredential :: "cred_env \<Rightarrow> string \<Rightarrow> string \<Rightarrow> mfa_state \<Rightarrow> string option \<times> mfa_state" where
  "DeleteCredential env userID credentialID s =
     (case mk_login env of Some e \<Rightarrow> (Some e, s) | None \<Rightarrow>
      case mk_change env of Some e \<Rightarrow> (Some (''delete credential '' @ credentialID @ '' for user '' @ userID @ '': '' @ e), s)
      | None \<Rightarrow> (None, s\<lparr>mf_credentials := delete_where (\<lambda>c. fst c = userID \<and> kr_id (snd c) = Some credentialID) (mf_credentials s)\<rparr>))"

definition required_actions :: "cred_env \<Rightarrow> string \<Rightarrow> mfa_state \<Rightarrow> string + string list" where
  "required_actions env userID s =
     (case mk_get env of Some e \<Rightarrow> Inl (''get user '' @ userID @ '': '' @ e)
      | None \<Rightarrow> (case map_of (mf_actions s) userID of None \<Rightarrow> Inl (''get user '' @ userID @ '': 404 Not Found'') | Some as \<Rightarrow> Inr as))"

definition GetUserRequiredActions :: "cred_env \<Rightarrow> string \<Rightarrow> mfa_state \<Rightarrow> string + string list" where
  "GetUserRequiredActions env userID s = (case mk_login env of Some e \<Rightarrow> Inl e | None \<Rightarrow> required_actions env userID s)"

definition SetRequiredAction :: "cred_env \<Rightarrow> string \<Rightarrow> string \<Rightarrow> mfa_state \<Rightarrow> string option \<times> mfa_state" where
  "SetRequiredAction env userID action s =
     (case mk_login env of Some e \<Rightarrow> (Some e, s) | None \<Rightarrow>
      case required_actions env userID s of Inl e \<Rightarrow> (Some e, s) | Inr existing \<Rightarrow>
      if action \<in> set existing then (None, s)
      else case mk_change env of
        Some e \<Rightarrow> (Some (''set required action '' @ [CHR 0x22] @ action @ [CHR 0x22] @ '' for user '' @ userID @ '': '' @ e), s)
      | None \<Rightarrow> (None, s\<lparr>mf_actions := map (\<lambda>(u, as). (u, if u = userID then existing @ [action] else as)) (mf_actions s)\<rparr>))"

section \<open>The administrator\<close>

record mfa_env =
  mv_has_db :: bool
  mv_oc :: "org_context option"
  mv_actor :: string
  mv_claims :: "jwt_claims option"
  mv_gate_err :: "string option"
  mv_kc :: cred_env
  mv_audit :: write_env
  mv_cache_err :: "string option"

definition mfa_log :: "(string \<Rightarrow> string) \<Rightarrow> mfa_env \<Rightarrow> string \<Rightarrow> string \<Rightarrow> (string \<times> jval) list \<Rightarrow> mfa_state \<Rightarrow> mfa_state" where
  "mfa_log jt env action userID details s =
     (if \<not> mv_has_db env then s
      else s\<lparr>mf_life := (mf_life s)\<lparr>l_audit := log_best_effort jt (mv_audit env) (mv_oc env)
        \<lparr>ac_actor = mv_actor env, ac_action = action, ac_target_type = ''user'', ac_target_id = userID, ac_details = Some (JObj details)\<rparr>
        (l_audit (mf_life s))\<rparr>\<rparr>)"

record mfa_status =
  ms_user :: string
  ms_otp :: bool
  ms_otp_pending :: bool
  ms_webauthn :: bool

definition mfa_gate :: "mfa_env \<Rightarrow> string \<Rightarrow> mfa_state \<Rightarrow> 'b response option" where
  "mfa_gate env userID s =
     (case ValidateUserID userID of Some e \<Rightarrow> Some (RespondError 400 (id_error_text ''user id'' e)) | None \<Rightarrow>
      requireUserInCallerOrg (mv_has_db env) (mv_gate_err env) (org_rows_of (mf_life s)) (mv_oc env) userID)"

definition GetMFAStatus :: "mfa_env \<Rightarrow> string \<Rightarrow> mfa_state \<Rightarrow> mfa_status response" where
  "GetMFAStatus env userID s =
     (case mfa_gate env userID s of Some r \<Rightarrow> r | None \<Rightarrow>
      case GetUserCredentials (mv_kc env) userID s of
        Inl _ \<Rightarrow> RespondError 500 ''failed to retrieve MFA status''
      | Inr creds \<Rightarrow>
          RespondJSON 200 \<lparr>ms_user = userID, ms_otp = (''otp'' \<in> set creds),
            ms_otp_pending = (case GetUserRequiredActions (mv_kc env) userID s of Inl _ \<Rightarrow> False | Inr as \<Rightarrow> ''CONFIGURE_TOTP'' \<in> set as),
            ms_webauthn = (''webauthn'' \<in> set creds)\<rparr>)"

definition mfa_action :: "string \<Rightarrow> string option" where
  "mfa_action type = (if type = ''totp'' then Some ''CONFIGURE_TOTP'' else if type = ''webauthn'' then Some ''webauthn-register'' else None)"

definition RequireMFA :: "(string \<Rightarrow> string) \<Rightarrow> mfa_env \<Rightarrow> string \<Rightarrow> string option \<Rightarrow> mfa_state \<Rightarrow> (string \<times> string) response \<times> mfa_state" where
  "RequireMFA jt env userID body s =
     (case mfa_gate env userID s of Some r \<Rightarrow> (r, s) | None \<Rightarrow>
      case body of None \<Rightarrow> (RespondError 400 ''invalid request body'', s) | Some type \<Rightarrow>
      case mfa_action type of
        None \<Rightarrow> (RespondError 400 (''type must be '' @ [CHR 0x27] @ ''totp'' @ [CHR 0x27] @ '' or '' @ [CHR 0x27] @ ''webauthn'' @ [CHR 0x27]), s)
      | Some action \<Rightarrow>
          (case SetRequiredAction (mv_kc env) userID action s of
             (Some _, s1) \<Rightarrow> (RespondError 500 ''failed to set MFA requirement'', s1)
           | (None, s1) \<Rightarrow> (RespondJSON 200 (userID, action),
               mfa_log jt env ''require_mfa'' userID [(''mfa_type'', JStr type), (''action'', JStr action)] s1)))"

section \<open>Self-service\<close>

definition portalUserID :: "jwt_claims option \<Rightarrow> string" where
  "portalUserID claims = (case claims of None \<Rightarrow> [] | Some c \<Rightarrow> jc_sub c)"

abbreviation caller :: "mfa_env \<Rightarrow> string" where
  "caller env \<equiv> portalUserID (mv_claims env)"

record mfa_factor =
  mg_id :: string
  mg_type :: string
  mg_created :: int

definition is_factor :: "kc_credential \<Rightarrow> bool" where
  "is_factor c \<longleftrightarrow> kr_type c = Some ''otp'' \<or> kr_type c = Some ''webauthn''"

definition factor_of :: "kc_credential \<Rightarrow> mfa_factor" where
  "factor_of c = \<lparr>mg_id = (case kr_id c of None \<Rightarrow> [] | Some i \<Rightarrow> i), mg_type = the (kr_type c),
     mg_created = (case kr_created c of None \<Rightarrow> 0 | Some t \<Rightarrow> t)\<rparr>"

text \<open>The goroutine that records whether the user has a factor.\<close>

definition updateMFACoverageCache :: "string option \<Rightarrow> string \<Rightarrow> bool \<Rightarrow> mfa_state \<Rightarrow> mfa_state" where
  "updateMFACoverageCache err userID hasMFA s =
     (case err of Some _ \<Rightarrow> s
      | None \<Rightarrow> s\<lparr>mf_coverage := (if userID \<in> fst ` set (mf_coverage s)
            then map (\<lambda>(u, b). (u, if u = userID then hasMFA else b)) (mf_coverage s) else mf_coverage s @ [(userID, hasMFA)])\<rparr>)"

definition PortalMyMFAFactors :: "mfa_env \<Rightarrow> mfa_state \<Rightarrow> mfa_factor list response \<times> mfa_state" where
  "PortalMyMFAFactors env s =
     (let uid = caller env in
      if uid = [] then (RespondError 401 ''unauthorized: valid JWT required'', s)
      else case GetUserCredentialsFull (mv_kc env) uid s of
        Inl _ \<Rightarrow> (RespondError 500 ''failed to list MFA factors'', s)
      | Inr creds \<Rightarrow>
          (let factors = map factor_of (filter is_factor creds) in
           (RespondJSON 200 factors, if mv_has_db env then updateMFACoverageCache (mv_cache_err env) uid (factors \<noteq> []) s else s)))"

definition enroll :: "(string \<Rightarrow> string) \<Rightarrow> mfa_env \<Rightarrow> string \<Rightarrow> string \<Rightarrow> string \<Rightarrow> mfa_state \<Rightarrow> (string \<times> string) response \<times> mfa_state" where
  "enroll jt env action failure audit_action s =
     (let uid = caller env in
      if uid = [] then (RespondError 401 ''unauthorized: valid JWT required'', s)
      else case SetRequiredAction (mv_kc env) uid action s of
        (Some _, s1) \<Rightarrow> (RespondError 500 failure, s1)
      | (None, s1) \<Rightarrow> (RespondJSON 200 (uid, action), mfa_log jt env audit_action uid [(''action'', JStr action)] s1))"

definition PortalEnrollTOTP :: "(string \<Rightarrow> string) \<Rightarrow> mfa_env \<Rightarrow> mfa_state \<Rightarrow> (string \<times> string) response \<times> mfa_state" where
  "PortalEnrollTOTP jt env s = enroll jt env ''CONFIGURE_TOTP'' ''failed to initiate TOTP enrollment'' ''mfa_totp_enroll_requested'' s"

definition PortalEnrollWebAuthn :: "(string \<Rightarrow> string) \<Rightarrow> mfa_env \<Rightarrow> mfa_state \<Rightarrow> (string \<times> string) response \<times> mfa_state" where
  "PortalEnrollWebAuthn jt env s = enroll jt env ''webauthn-register'' ''failed to initiate WebAuthn enrollment'' ''mfa_webauthn_enroll_requested'' s"

definition PortalRemoveMFAFactor :: "(string \<Rightarrow> string) \<Rightarrow> mfa_env \<Rightarrow> string \<Rightarrow> mfa_state \<Rightarrow> string response \<times> mfa_state" where
  "PortalRemoveMFAFactor jt env credID s =
     (let uid = caller env in
      if uid = [] then (RespondError 401 ''unauthorized: valid JWT required'', s)
      else case ValidateOpaqueID credID ''credId'' of Some (f, e) \<Rightarrow> (RespondError 400 (id_error_text f e), s) | None \<Rightarrow>
      case GetUserCredentialsFull (mv_kc env) uid s of
        Inl _ \<Rightarrow> (RespondError 500 ''failed to verify credential'', s)
      | Inr creds \<Rightarrow>
          (let found = list_ex (\<lambda>c. kr_id c = Some credID \<and> is_factor c) creds;
               remainingAfter = length (filter (\<lambda>c. kr_id c \<noteq> Some credID \<and> is_factor c) creds) in
           if \<not> found then (RespondError 404 ''MFA credential not found'', s)
           else case DeleteCredential (mv_kc env) uid credID s of
             (Some _, s1) \<Rightarrow> (RespondError 500 ''failed to remove MFA factor'', s1)
           | (None, s1) \<Rightarrow> (RespondJSON 200 credID,
               if mv_has_db env
               then updateMFACoverageCache (mv_cache_err env) uid (remainingAfter > 0)
                      (mfa_log jt env ''mfa_factor_removed'' uid [(''credential_id'', JStr credID)] s1)
               else s1)))"

section \<open>Recovery codes\<close>

definition generateRecoveryCode :: "string + string \<Rightarrow> string + string" where
  "generateRecoveryCode random = (case random of Inl e \<Rightarrow> Inl (''rand.Read: '' @ e) | Inr b \<Rightarrow> Inr (hex_encode b))"

definition hashRecoveryCode :: "string \<Rightarrow> string" where
  "hashRecoveryCode code = hex_sha256 code"

definition codeCount :: nat where
  "codeCount = 10"

text \<open>The random bytes of the codes, and the failures of the transaction.\<close>

record codes_env =
  ge_random :: "nat \<Rightarrow> string + string"
  ge_begin :: "string option"
  ge_delete :: "string option"
  ge_insert :: "nat \<Rightarrow> string option"
  ge_commit :: "string option"
  ge_now :: time

fun draw_codes :: "(nat \<Rightarrow> string + string) \<Rightarrow> nat \<Rightarrow> string + string list" where
  "draw_codes random 0 = Inr []"
| "draw_codes random (Suc n) =
     (case draw_codes random n of Inl e \<Rightarrow> Inl e | Inr cs \<Rightarrow>
      case generateRecoveryCode (random n) of Inl e \<Rightarrow> Inl e | Inr c \<Rightarrow> Inr (cs @ [c]))"

definition replace_codes :: "string \<Rightarrow> string list \<Rightarrow> code_row list \<Rightarrow> code_row list" where
  "replace_codes uid hashed rows =
     delete_where (\<lambda>r. cw_user r = uid) rows @ map (\<lambda>h. \<lparr>cw_user = uid, cw_hash = h, cw_used = None\<rparr>) hashed"

definition PortalGenerateRecoveryCodes :: "(string \<Rightarrow> string) \<Rightarrow> mfa_env \<Rightarrow> codes_env \<Rightarrow> mfa_state \<Rightarrow> (string list \<times> string) response \<times> mfa_state" where
  "PortalGenerateRecoveryCodes jt env g s =
     (let uid = caller env in
      if uid = [] then (RespondError 401 ''unauthorized: valid JWT required'', s)
      else if \<not> mv_has_db env then (RespondError 500 ''database not available'', s)
      else case draw_codes (ge_random g) codeCount of
        Inl _ \<Rightarrow> (RespondError 500 ''failed to generate recovery codes'', s)
      | Inr plain \<Rightarrow>
          if ge_begin g \<noteq> None \<or> ge_delete g \<noteq> None \<or> list_ex (\<lambda>i. ge_insert g i \<noteq> None) [0..<codeCount] \<or> ge_commit g \<noteq> None
          then (RespondError 500 ''internal error'', s)
          else (RespondJSON 200 (plain, rfc3339 (ge_now g)),
                mfa_log jt env ''mfa_recovery_codes_generated'' uid [(''count'', JInt (int codeCount))]
                  (s\<lparr>mf_codes := replace_codes uid (map hashRecoveryCode plain) (mf_codes s)\<rparr>)))"

definition unused :: "string \<Rightarrow> code_row list \<Rightarrow> code_row list" where
  "unused uid rows = filter (\<lambda>r. cw_user r = uid \<and> cw_used r = None) rows"

definition PortalRecoveryCodesStatus :: "mfa_env \<Rightarrow> string option \<Rightarrow> mfa_state \<Rightarrow> (bool \<times> nat) response" where
  "PortalRecoveryCodesStatus env err s =
     (let uid = caller env in
      if uid = [] then RespondError 401 ''unauthorized: valid JWT required''
      else if \<not> mv_has_db env then RespondError 500 ''database not available''
      else case err of Some _ \<Rightarrow> RespondError 500 ''internal error''
        | None \<Rightarrow> RespondJSON 200 (unused uid (mf_codes s) \<noteq> [], length (unused uid (mf_codes s))))"

definition CheckAndConsumeRecoveryCode :: "string option \<Rightarrow> time \<Rightarrow> string \<Rightarrow> string \<Rightarrow> mfa_state \<Rightarrow> (string + bool) \<times> mfa_state" where
  "CheckAndConsumeRecoveryCode err now userID code s =
     (let hash = hashRecoveryCode code; hit = (\<lambda>r. cw_user r = userID \<and> cw_hash r = hash \<and> cw_used r = None) in
      case err of Some e \<Rightarrow> (Inl e, s) | None \<Rightarrow>
      if rows_affected hit (mf_codes s) = 0 then (Inr False, s)
      else (Inr True, s\<lparr>mf_codes := update_where hit (\<lambda>r. r\<lparr>cw_used := Some (pg_timestamp now)\<rparr>) (mf_codes s)\<rparr>))"

section \<open>Single use\<close>

text \<open>The contract of a store of one-time codes: a code becomes valid only by being issued, only a valid one is spent, and
  spending ends its validity.  Then it is spent once for each time it is issued.\<close>

locale one_time_codes =
  fixes step :: "'op \<Rightarrow> 's \<Rightarrow> 's"
    and valid :: "'s \<Rightarrow> 'u \<Rightarrow> 'c set"
    and issues :: "'op \<Rightarrow> 's \<Rightarrow> 'u \<Rightarrow> 'c set"
    and spends :: "'op \<Rightarrow> 's \<Rightarrow> 'u \<Rightarrow> 'c \<Rightarrow> bool"
  assumes valid_step: "valid (step op s) u \<subseteq> valid s u \<union> issues op s u"
    and spend_valid: "spends op s u c \<Longrightarrow> c \<in> valid s u"
    and spend_ends: "spends op s u c \<Longrightarrow> c \<notin> valid (step op s) u"
begin

primrec issued_again :: "'u \<Rightarrow> 'c \<Rightarrow> 'op list \<Rightarrow> 's \<Rightarrow> bool" where
  "issued_again u c [] s = False"
| "issued_again u c (op # ops) s = (c \<in> issues op s u \<or> issued_again u c ops (step op s))"

lemma not_valid_run: "c \<notin> valid s u \<Longrightarrow> \<not> issued_again u c ops s \<Longrightarrow> c \<notin> valid (fold step ops s) u"
proof (induction ops arbitrary: s)
  case (Cons op ops)
  then have "c \<notin> valid (step op s) u" using valid_step [of op s u] by auto
  with Cons show ?case by simp
qed simp

lemma single_use:
  assumes "spends op s u c" and "\<not> issued_again u c ops (step op s)"
  shows "\<not> spends op' (fold step ops (step op s)) u c"
  using not_valid_run [OF spend_ends [OF assms(1)] assms(2)] spend_valid by blast

end

datatype code_op =
    Generate mfa_env codes_env
  | Consume "string option" time string string

fun code_step :: "(string \<Rightarrow> string) \<Rightarrow> code_op \<Rightarrow> mfa_state \<Rightarrow> mfa_state" where
  "code_step jt (Generate env g) s = snd (PortalGenerateRecoveryCodes jt env g s)"
| "code_step jt (Consume err now u code) s = snd (CheckAndConsumeRecoveryCode err now u code s)"

text \<open>The hashes of the codes a user can still use.\<close>

definition valid_codes :: "mfa_state \<Rightarrow> string \<Rightarrow> string set" where
  "valid_codes s u = cw_hash ` set (unused u (mf_codes s))"

fun issued_codes :: "(string \<Rightarrow> string) \<Rightarrow> code_op \<Rightarrow> mfa_state \<Rightarrow> string \<Rightarrow> string set" where
  "issued_codes jt (Generate env g) s u =
     (case fst (PortalGenerateRecoveryCodes jt env g s) of
        RespondJSON _ (plain, _) \<Rightarrow> if u = caller env then hashRecoveryCode ` set plain else {}
      | _ \<Rightarrow> {})"
| "issued_codes jt (Consume err now u' code) s u = {}"

fun spends_code :: "code_op \<Rightarrow> mfa_state \<Rightarrow> string \<Rightarrow> string \<Rightarrow> bool" where
  "spends_code (Generate env g) s u h = False"
| "spends_code (Consume err now u' code) s u h \<longleftrightarrow>
     u = u' \<and> h = hashRecoveryCode code \<and> fst (CheckAndConsumeRecoveryCode err now u' code s) = Inr True"

lemma mfa_log_codes [simp]: "mf_codes (mfa_log jt env action u details s) = mf_codes s"
  by (simp add: mfa_log_def)

lemma in_valid_codes: "h \<in> valid_codes s u \<longleftrightarrow> (\<exists>r \<in> set (mf_codes s). cw_user r = u \<and> cw_hash r = h \<and> cw_used r = None)"
  by (auto simp: valid_codes_def unused_def)

lemma valid_codes_replaced:
  "valid_codes (s\<lparr>mf_codes := replace_codes u hs (mf_codes s)\<rparr>) u' = (if u' = u then set hs else valid_codes s u')"
  by (rule set_eqI) (auto simp: in_valid_codes replace_codes_def delete_where_def bex_Un)

lemma generate_valid:
  "valid_codes (snd (PortalGenerateRecoveryCodes jt env g s)) u =
     (case fst (PortalGenerateRecoveryCodes jt env g s) of
        RespondJSON _ (plain, _) \<Rightarrow> if u = caller env then hashRecoveryCode ` set plain else valid_codes s u
      | _ \<Rightarrow> valid_codes s u)"
proof -
  have log: "valid_codes (mfa_log jt env a w d s') v = valid_codes s' v" for a w d s' v by (simp add: valid_codes_def)
  show ?thesis by (simp add: PortalGenerateRecoveryCodes_def Let_def log valid_codes_replaced split: sum.split)
qed

lemma bex_update_where: "(\<exists>r \<in> set (update_where P f rows). Q r) \<longleftrightarrow> (\<exists>q \<in> set rows. if P q then Q (f q) else Q q)"
  by (induction rows) (auto simp: update_where_def)

lemma consume_valid:
  assumes "CheckAndConsumeRecoveryCode None now u code s = (res, s')"
  shows "res = Inr (hashRecoveryCode code \<in> valid_codes s u)" "valid_codes s' v = (if v = u then valid_codes s v - {hashRecoveryCode code} else valid_codes s v)"
proof -
  let ?hit = "\<lambda>r. cw_user r = u \<and> cw_hash r = hashRecoveryCode code \<and> cw_used r = None"
  have hit: "rows_affected ?hit (mf_codes s) = 0 \<longleftrightarrow> hashRecoveryCode code \<notin> valid_codes s u"
    by (auto simp: rows_affected_0_iff in_valid_codes)
  with assms show "res = Inr (hashRecoveryCode code \<in> valid_codes s u)"
    by (auto simp: CheckAndConsumeRecoveryCode_def Let_def split: if_splits)
  have "valid_codes (s\<lparr>mf_codes := update_where ?hit (\<lambda>r. r\<lparr>cw_used := Some t\<rparr>) (mf_codes s)\<rparr>) v
      = (if v = u then valid_codes s v - {hashRecoveryCode code} else valid_codes s v)" for t
  proof (rule set_eqI)
    fix h
    have "h \<in> valid_codes (s\<lparr>mf_codes := update_where ?hit (\<lambda>r. r\<lparr>cw_used := Some t\<rparr>) (mf_codes s)\<rparr>) v
        \<longleftrightarrow> (\<exists>r \<in> set (update_where ?hit (\<lambda>r. r\<lparr>cw_used := Some t\<rparr>) (mf_codes s)). cw_user r = v \<and> cw_hash r = h \<and> cw_used r = None)"
      by (simp add: in_valid_codes)
    also have "\<dots> \<longleftrightarrow> (\<exists>q \<in> set (mf_codes s). \<not> ?hit q \<and> cw_user q = v \<and> cw_hash q = h \<and> cw_used q = None)"
      unfolding bex_update_where by (intro bex_cong) auto
    finally have "h \<in> valid_codes (s\<lparr>mf_codes := update_where ?hit (\<lambda>r. r\<lparr>cw_used := Some t\<rparr>) (mf_codes s)\<rparr>) v
        \<longleftrightarrow> (\<exists>q \<in> set (mf_codes s). \<not> ?hit q \<and> cw_user q = v \<and> cw_hash q = h \<and> cw_used q = None)" .
    then show "h \<in> valid_codes (s\<lparr>mf_codes := update_where ?hit (\<lambda>r. r\<lparr>cw_used := Some t\<rparr>) (mf_codes s)\<rparr>) v
        \<longleftrightarrow> h \<in> (if v = u then valid_codes s v - {hashRecoveryCode code} else valid_codes s v)"
      by (auto simp: in_valid_codes)
  qed
  with assms hit show "valid_codes s' v = (if v = u then valid_codes s v - {hashRecoveryCode code} else valid_codes s v)"
    by (auto simp: CheckAndConsumeRecoveryCode_def Let_def split: if_splits)
qed

lemma consume_error: "CheckAndConsumeRecoveryCode (Some e) now u code s = (Inl e, s)"
  by (simp add: CheckAndConsumeRecoveryCode_def Let_def)

interpretation recovery_codes: one_time_codes "code_step jt" valid_codes "issued_codes jt" spends_code for jt
proof
  fix op s u c
  obtain res s' where run: "\<And>now w code. op = Consume None now w code \<Longrightarrow> CheckAndConsumeRecoveryCode None now w code s = (res, s')"
    by (cases op) (auto, metis surj_pair)
  show "valid_codes (code_step jt op s) u \<subseteq> valid_codes s u \<union> issued_codes jt op s u"
  proof (cases op)
    case (Generate env g)
    then show ?thesis by (auto simp: generate_valid split: response.splits if_splits)
  next
    case (Consume err now w code)
    then show ?thesis
      by (cases err) (use consume_valid(2) [OF run] in \<open>auto simp: consume_error run split: if_splits\<close>)
  qed
  assume sp: "spends_code op s u c"
  then obtain now code where op: "op = Consume None now u code" "c = hashRecoveryCode code"
    by (cases op; cases "case op of Consume err _ _ _ \<Rightarrow> err | _ \<Rightarrow> None") (auto simp: consume_error)
  from sp op run [OF op(1)] have "res = Inr True" by simp
  with consume_valid(1) [OF run [OF op(1)]] op show "c \<in> valid_codes s u" by simp
  from consume_valid(2) [OF run [OF op(1)], of u] op run [OF op(1)] show "c \<notin> valid_codes (code_step jt op s) u" by simp
qed

primrec reissued :: "(string \<Rightarrow> string) \<Rightarrow> string \<Rightarrow> string \<Rightarrow> code_op list \<Rightarrow> mfa_state \<Rightarrow> bool" where
  "reissued jt u h [] s = False"
| "reissued jt u h (op # ops) s = (h \<in> issued_codes jt op s u \<or> reissued jt u h ops (code_step jt op s))"

lemma reissued_eq: "reissued jt u h ops s = recovery_codes.issued_again jt u h ops s"
  by (induction ops arbitrary: s) simp_all

text \<open>C19. A recovery code works once.  It is accepted exactly when its hash is among the unused ones of this user; generating
  codes replaces all earlier ones of the caller, and of nobody else, by those in the answer; and once a code has been accepted no later attempt
  with it succeeds, whatever else happens, unless the same code is drawn and issued to the user again.\<close>

theorem recovery_code_single_use:
  assumes "fst (CheckAndConsumeRecoveryCode None now u code s) = Inr True"
    and "\<not> reissued jt u (hashRecoveryCode code) ops (snd (CheckAndConsumeRecoveryCode None now u code s))"
  shows "hashRecoveryCode code \<in> valid_codes s u
    \<and> fst (CheckAndConsumeRecoveryCode err now' u code (fold (code_step jt) ops (snd (CheckAndConsumeRecoveryCode None now u code s)))) \<noteq> Inr True"
proof -
  have sp: "spends_code (Consume None now u code) s u (hashRecoveryCode code)" using assms(1) by simp
  have "\<not> spends_code (Consume err now' u code) (fold (code_step jt) ops (code_step jt (Consume None now u code) s)) u (hashRecoveryCode code)"
    by (rule recovery_codes.single_use [OF sp]) (use assms(2) in \<open>simp add: reissued_eq\<close>)
  with recovery_codes.spend_valid [OF sp] show ?thesis by simp
qed

definition one_code :: mfa_state where
  "one_code = \<lparr>mf_credentials = [], mf_actions = [], mf_codes = [\<lparr>cw_user = ''u1'', cw_hash = hashRecoveryCode ''c0ffee'', cw_used = None\<rparr>],
     mf_coverage = [], mf_life = empty_life\<rparr>"

theorem recovery_code_single_use_witness:
  "fst (CheckAndConsumeRecoveryCode None 2 ''u1'' ''c0ffee'' (snd (CheckAndConsumeRecoveryCode None 1 ''u1'' ''c0ffee'' one_code))) \<noteq> Inr True"
proof -
  have "fst (CheckAndConsumeRecoveryCode None 1 ''u1'' ''c0ffee'' one_code) = Inr True"
    by (simp add: CheckAndConsumeRecoveryCode_def one_code_def rows_affected_def Let_def)
  from recovery_code_single_use [OF this, of id "[]"] show ?thesis by simp
qed

end
