(* ===== verification/Portal.thy ===== *)
theory Portal
  imports Apps Devices Mfa
begin

text \<open>
  The self-service portal, \<open>internal/handlers/portal.go\<close>: what users see of their own devices and applications, and requests for
  access with their decision.

  The table \<open>access_requests\<close> has the constraint \<open>UNIQUE (requester_id, app_id, status)\<close> of \<open>internal/db/schema.go\<close>, on which the insert of a
  request relies and which an update can violate.
\<close>

section \<open>Access requests\<close>

record access_row =
  aw_id :: string
  aw_requester :: string
  aw_app :: string
  aw_status :: string
  aw_reason :: string
  aw_decided_by :: string
  aw_created :: time
  aw_org :: string

record portal_state =
  po_apps :: app_state
  po_devices :: "device_row list"
  po_requests :: "access_row list"

definition devices_view :: "portal_state \<Rightarrow> device_state" where
  "devices_view s = \<lparr>ds_life = as_life (po_apps s), ds_devices = po_devices s, ds_commands = []\<rparr>"

record portal_env =
  pt_has_db :: bool
  pt_claims :: "jwt_claims option"
  pt_oc :: "org_context option"
  pt_rows :: rows_env
  pt_created_at :: "string \<Rightarrow> time"

record portal_device =
  vd_host :: string
  vd_hostname :: string
  vd_os_version :: string
  vd_last_seen :: string
  vd_created_at :: string

text \<open>Only the enrollment inserts devices, always with \<open>last_seen_at\<close>, so the time is never absent.\<close>

definition portal_device_of :: "portal_env \<Rightarrow> device_row \<Rightarrow> portal_device" where
  "portal_device_of env d = \<lparr>vd_host = dv_host d, vd_hostname = dv_hostname d, vd_os_version = dv_os_version d,
     vd_last_seen = rfc3339 (dv_last_seen d), vd_created_at = rfc3339 (pt_created_at env (dv_host d))\<rparr>"

text \<open>A list whose rows must all be read: an error of the query, of a row or of the iteration is a 500.\<close>

definition read_all :: "rows_env \<Rightarrow> 'r list \<Rightarrow> 'r list option" where
  "read_all env rows =
     (if rw_query_err env \<noteq> None \<or> list_ex (rw_scan_fails env) [0..<length rows] \<or> rw_err env \<noteq> None then None else Some rows)"

definition PortalMyDevices :: "portal_env \<Rightarrow> portal_state \<Rightarrow> portal_device list response" where
  "PortalMyDevices env s =
     (let uid = portalUserID (pt_claims env) in
      if uid = [] then RespondError 401 ''unauthorized: valid JWT required''
      else if \<not> pt_has_db env then RespondError 500 ''database not available''
      else case read_all (pt_rows env) (user_devices uid (devices_view s)) of
        None \<Rightarrow> RespondError 500 ''internal error'' | Some ds \<Rightarrow> RespondJSON 200 (map (portal_device_of env) ds))"

definition user_apps :: "string \<Rightarrow> app_state \<Rightarrow> connected_app list" where
  "user_apps uid s =
     concat (map (\<lambda>a. map (\<lambda>x. a) (filter (\<lambda>x. fst x = ca_id a \<and> snd x = uid) (l_assign (as_life s)))) (filter ca_enabled (as_apps s)))"

record portal_app =
  ap_id :: string
  ap_name :: string
  ap_base_url :: string
  ap_protocol :: string
  ap_enabled :: bool

definition portal_app_of :: "connected_app \<Rightarrow> portal_app" where
  "portal_app_of a = \<lparr>ap_id = ca_id a, ap_name = ca_name a, ap_base_url = ca_base_url a, ap_protocol = ca_protocol a, ap_enabled = ca_enabled a\<rparr>"

definition PortalMyApps :: "portal_env \<Rightarrow> portal_state \<Rightarrow> portal_app list response" where
  "PortalMyApps env s =
     (let uid = portalUserID (pt_claims env) in
      if uid = [] then RespondError 401 ''unauthorized: valid JWT required''
      else if \<not> pt_has_db env then RespondError 500 ''database not available''
      else case read_all (pt_rows env) (user_apps uid (po_apps s)) of
        None \<Rightarrow> RespondError 500 ''internal error'' | Some as \<Rightarrow> RespondJSON 200 (map portal_app_of as))"

definition PortalMyCompliance :: "jwt_claims option \<Rightarrow> read_env \<Rightarrow> portal_state \<Rightarrow> compliance_response response" where
  "PortalMyCompliance claims env s =
     (let uid = portalUserID claims in
      if uid = [] then RespondError 401 ''unauthorized: valid JWT required'' else GetUserCompliance env uid (devices_view s))"

record access_payload =
  ay_app :: string
  ay_reason :: string

text \<open>The insert fails with a violated foreign key, SQLSTATE 23503, or otherwise.\<close>

datatype insert_failure = Foreign_key | Other_failure string

record request_env =
  rt_has_db :: bool
  rt_claims :: "jwt_claims option"
  rt_oc :: "org_context option"
  rt_gate_err :: "string option"
  rt_insert_err :: "insert_failure option"
  rt_new_id :: string
  rt_now :: time

definition same_request :: "access_row \<Rightarrow> access_row \<Rightarrow> bool" where
  "same_request a b \<longleftrightarrow> aw_requester a = aw_requester b \<and> aw_app a = aw_app b \<and> aw_status a = aw_status b"

definition PortalRequestAccess :: "request_env \<Rightarrow> access_payload option \<Rightarrow> portal_state \<Rightarrow> string response \<times> portal_state" where
  "PortalRequestAccess env body s =
     (let uid = portalUserID (rt_claims env) in
      if uid = [] then (RespondError 401 ''unauthorized: valid JWT required'', s)
      else case body of None \<Rightarrow> (RespondError 400 ''invalid request body'', s) | Some r \<Rightarrow>
      if ValidateUserID (ay_app r) \<noteq> None then (RespondError 400 ''appId must be a valid UUID'', s)
      else if \<not> rt_has_db env then (RespondError 500 ''database not available'', s)
      else case rt_oc env of None \<Rightarrow> (RespondError 403 ''forbidden: no organization context'', s) | Some x \<Rightarrow>
      case requireAppInCallerOrg True (rt_gate_err env) (app_rows_of (po_apps s)) (rt_oc env) (ay_app r) of Some resp \<Rightarrow> (resp, s) | None \<Rightarrow>
      (let new = \<lparr>aw_id = rt_new_id env, aw_requester = uid, aw_app = ay_app r, aw_status = ''pending'', aw_reason = ay_reason r,
             aw_decided_by = [], aw_created = pg_timestamp (rt_now env), aw_org = oc_org x\<rparr> in
       case rt_insert_err env of
         Some Foreign_key \<Rightarrow> (RespondError 404 ''app or requester not found'', s)
       | Some (Other_failure _) \<Rightarrow> (RespondError 500 ''internal error'', s)
       | None \<Rightarrow>
           if list_ex (same_request new) (po_requests s) then (RespondError 409 ''a pending request for this app already exists'', s)
           else (RespondJSON 201 (aw_id new), s\<lparr>po_requests := po_requests s @ [new]\<rparr>)))"

record access_req =
  av_id :: string
  av_requester :: string
  av_app :: string
  av_status :: string
  av_reason :: string
  av_decided_by :: string
  av_created :: string

definition access_req_of :: "access_row \<Rightarrow> access_req" where
  "access_req_of r = \<lparr>av_id = aw_id r, av_requester = aw_requester r, av_app = aw_app r, av_status = aw_status r, av_reason = aw_reason r,
     av_decided_by = aw_decided_by r, av_created = rfc3339 (aw_created r)\<rparr>"

definition AdminListAccessRequests :: "portal_env \<Rightarrow> portal_state \<Rightarrow> access_req list response" where
  "AdminListAccessRequests env s =
     (if \<not> pt_has_db env then RespondError 500 ''database not available''
      else case pt_oc env of None \<Rightarrow> RespondError 403 ''forbidden: no organization context'' | Some x \<Rightarrow>
      case read_all (pt_rows env) (sort_key aw_created (filter (\<lambda>r. aw_status r = ''pending'' \<and> aw_org r = oc_org x) (po_requests s))) of
        None \<Rightarrow> RespondError 500 ''internal error'' | Some rs \<Rightarrow> RespondJSON 200 (map access_req_of rs))"

record decide_env =
  dq_has_db :: bool
  dq_oc :: "org_context option"
  dq_actor :: string
  dq_begin :: "string option"
  dq_update_err :: "string option"
  dq_app_err :: "string option"
  dq_kc :: role_env
  dq_assign_err :: "string option"
  dq_commit :: "string option"
  dq_undo :: role_env

text \<open>The update of the one pending row.  It fails when another row of the same requester and application has the decision as its
  status already, by the constraint; \<open>None\<close> stands for every failure, which the handler answers alike.\<close>

definition decide_row :: "decide_env \<Rightarrow> string \<Rightarrow> string \<Rightarrow> string \<Rightarrow> access_row list \<Rightarrow> (access_row \<times> access_row list) option" where
  "decide_row env decision reqID org rows =
     (if dq_update_err env \<noteq> None then None
      else case find (\<lambda>r. aw_id r = reqID \<and> aw_status r = ''pending'' \<and> aw_org r = org) rows of
        None \<Rightarrow> None
      | Some r \<Rightarrow>
          (let new = r\<lparr>aw_status := decision, aw_decided_by := dq_actor env\<rparr> in
           if list_ex (\<lambda>q. aw_id q \<noteq> reqID \<and> same_request new q) rows then None
           else Some (r, map (\<lambda>q. if aw_id q = reqID then new else q) rows)))"

text \<open>The part of an approval after the application was found: the grant at Keycloak, the assignment, the commit.\<close>

definition grant_access :: "decide_env \<Rightarrow> connected_app \<Rightarrow> access_row \<Rightarrow> access_row list \<Rightarrow> portal_state \<Rightarrow> string response \<times> portal_state" where
  "grant_access env a r rows s =
     (case AssignUserToClient (dq_kc env) (aw_requester r) (ca_client a) (as_realm (po_apps s)) of
        (Some _, rl) \<Rightarrow> (RespondError 500 ''failed to grant requested access'', s\<lparr>po_apps := (po_apps s)\<lparr>as_realm := rl\<rparr>\<rparr>)
      | (None, rl) \<Rightarrow>
          (let granted = (po_apps s)\<lparr>as_realm := rl\<rparr>; undone = compensateAppAssignment (dq_undo env) (aw_requester r) (ca_client a) granted in
           if dq_assign_err env \<noteq> None then (RespondError 500 ''failed to grant requested access'', s\<lparr>po_apps := undone\<rparr>)
           else if dq_commit env \<noteq> None
           then (RespondError 500 ''internal error'', s\<lparr>po_apps := if ca_client a \<noteq> [] then undone else granted\<rparr>)
           else (RespondJSON 200 ''approved'',
                 s\<lparr>po_requests := rows,
                   po_apps := granted\<lparr>as_life := (as_life granted)\<lparr>l_assign :=
                     (if (aw_app r, aw_requester r) \<in> set (l_assign (as_life granted)) then l_assign (as_life granted)
                      else l_assign (as_life granted) @ [(aw_app r, aw_requester r)])\<rparr>\<rparr>\<rparr>)))"

definition AdminDecideAccessRequest :: "decide_env \<Rightarrow> string \<Rightarrow> string option \<Rightarrow> portal_state \<Rightarrow> string response \<times> portal_state" where
  "AdminDecideAccessRequest env reqID body s =
     (if ValidateUserID reqID \<noteq> None then (RespondError 400 ''invalid id'', s)
      else case body of None \<Rightarrow> (RespondError 400 ''invalid request body'', s) | Some decision \<Rightarrow>
      if decision \<noteq> ''approved'' \<and> decision \<noteq> ''rejected''
      then (RespondError 400 (''decision must be '' @ [CHR 0x27] @ ''approved'' @ [CHR 0x27] @ '' or '' @ [CHR 0x27] @ ''rejected'' @ [CHR 0x27]), s)
      else if \<not> dq_has_db env then (RespondError 500 ''database not available'', s)
      else case dq_oc env of None \<Rightarrow> (RespondError 403 ''forbidden: no organization context'', s) | Some x \<Rightarrow>
      if dq_begin env \<noteq> None then (RespondError 500 ''internal error'', s)
      else case decide_row env decision reqID (oc_org x) (po_requests s) of
        None \<Rightarrow> (RespondError 404 ''request not found or already decided'', s)
      | Some (r, rows) \<Rightarrow>
          if decision = ''approved''
          then (case select_one (dq_app_err env) (\<lambda>a. ca_id a = aw_app r) (as_apps (po_apps s)) of
                  Ok a \<Rightarrow> if ca_org a \<noteq> oc_org x then (RespondError 404 ''app not found'', s) else grant_access env a r rows s
                | _ \<Rightarrow> (RespondError 404 ''app not found'', s))
          else if dq_commit env \<noteq> None then (RespondError 500 ''internal error'', s)
          else (RespondJSON 200 decision, s\<lparr>po_requests := rows\<rparr>))"

section \<open>Decisions\<close>

lemma decide_row_Some:
  assumes "decide_row env decision i org rows = Some (r, rows')"
  shows "r \<in> set rows" "aw_id r = i" "aw_status r = ''pending''" "aw_org r = org"
    "rows' = map (\<lambda>q. if aw_id q = i then r\<lparr>aw_status := decision, aw_decided_by := dq_actor env\<rparr> else q) rows"
    "\<forall>q \<in> set rows. aw_id q \<noteq> i \<longrightarrow> \<not> same_request (r\<lparr>aw_status := decision, aw_decided_by := dq_actor env\<rparr>) q"
  using assms by (auto simp: decide_row_def Let_def find_Some_iff list_ex_iff split: if_splits option.splits)

lemma decide_cases:
  assumes "AdminDecideAccessRequest env i body s = (resp, s')"
  obtains (refused) "\<not> success resp" "s' = s"
  | (rejected) x r rows where "resp = RespondJSON 200 ''rejected''" "body = Some ''rejected''" "dq_oc env = Some x"
      "decide_row env ''rejected'' i (oc_org x) (po_requests s) = Some (r, rows)" "s' = s\<lparr>po_requests := rows\<rparr>"
  | (granting) x r rows a where "body = Some ''approved''" "dq_oc env = Some x"
      "decide_row env ''approved'' i (oc_org x) (po_requests s) = Some (r, rows)"
      "a \<in> set (as_apps (po_apps s))" "ca_id a = aw_app r" "ca_org a = oc_org x" "grant_access env a r rows s = (resp, s')"
proof -
  consider (bad) "\<not> success resp" "s' = s"
    | (run) decision x r rows where "body = Some decision" "decision = ''approved'' \<or> decision = ''rejected''" "dq_oc env = Some x"
        "decide_row env decision i (oc_org x) (po_requests s) = Some (r, rows)" "ValidateUserID i = None" "dq_has_db env" "dq_begin env = None"
    using assms by (auto simp: AdminDecideAccessRequest_def split: if_splits option.splits)
  then show ?thesis
  proof cases
    case bad
    then show ?thesis by (rule refused)
  next
    case (run decision x r rows)
    note go = assms [unfolded AdminDecideAccessRequest_def]
    show ?thesis
    proof (cases "decision = ''approved''")
      case True
      show ?thesis
      proof (cases "select_one (dq_app_err env) (\<lambda>a. ca_id a = aw_app r) (as_apps (po_apps s))")
        case (Ok a)
        then show ?thesis
          using go run True select_one_Ok_D [OF Ok] refused granting [of x r rows a] by (cases "ca_org a = oc_org x") auto
      qed (use go run True refused in auto)
    next
      case False
      then show ?thesis using go run refused rejected [of x r rows] by (cases "dq_commit env") auto
    qed
  qed
qed

text \<open>A grant: either everything is written, or no table changes and the role at Keycloak is taken back.\<close>

lemma grant_cases:
  assumes "grant_access env a r rows s = (resp, s')"
  obtains (failed) "\<not> success resp" "po_requests s' = po_requests s" "as_life (po_apps s') = as_life (po_apps s)" "as_apps (po_apps s') = as_apps (po_apps s)"
      "roles_answer (dq_undo env) \<and> ca_client a \<noteq> [] \<and> (ca_client a, aw_requester r) \<notin> set (rl_assigned (as_realm (po_apps s)))
         \<longrightarrow> set (rl_assigned (as_realm (po_apps s'))) = set (rl_assigned (as_realm (po_apps s)))"
  | (granted) "resp = RespondJSON 200 ''approved''" "po_requests s' = rows" "as_apps (po_apps s') = as_apps (po_apps s)"
      "set (rl_assigned (as_realm (po_apps s'))) = insert (ca_client a, aw_requester r) (set (rl_assigned (as_realm (po_apps s))))"
      "set (l_assign (as_life (po_apps s'))) = insert (aw_app r, aw_requester r) (set (l_assign (as_life (po_apps s))))"
proof -
  obtain err rl where kc: "AssignUserToClient (dq_kc env) (aw_requester r) (ca_client a) (as_realm (po_apps s)) = (err, rl)" by (metis surj_pair)
  show ?thesis
  proof (cases err)
    case (Some e)
    with assms kc Assign_err [of "dq_kc env" "aw_requester r" "ca_client a" "as_realm (po_apps s)" e rl] show ?thesis
      by (intro failed) (auto simp: grant_access_def)
  next
    case None
    with kc have ok: "set (rl_assigned rl) = insert (ca_client a, aw_requester r) (set (rl_assigned (as_realm (po_apps s))))" "ca_client a \<in> set (rl_client_roles rl)"
      using Assign_ok by blast+
    show ?thesis
    proof (cases "dq_assign_err env = None \<and> dq_commit env = None")
      case True
      with assms kc None ok show ?thesis by (intro granted) (auto simp: grant_access_def Let_def insert_absorb split: if_splits)
    next
      case False
      with assms kc None ok show ?thesis
        by (intro failed) (auto simp: grant_access_def Let_def compensateAppAssignment_def Unassign_answers delete_where_def split: if_splits)
    qed
  qed
qed

text \<open>C15. A decision on an access request is complete.  With 200 exactly the addressed request, which was pending and of the
  organisation of the administrator, has the decision and its author; an approval has granted the requester the role of the
  application at Keycloak and the assignment in the database, for an application of the same organisation, and a rejection has granted nothing.  With any other
  answer no request and no assignment changes, and neither do the roles at Keycloak: a role that was granted is taken back, provided Keycloak answers the calls that
  take it back, the requested application has a client at Keycloak, and the requester did not have its role before.\<close>

theorem access_decision_complete:
  assumes "AdminDecideAccessRequest env i body s = (resp, s')"
  shows "if success resp
    then \<exists>x r decision. body = Some decision \<and> dq_oc env = Some x \<and> r \<in> set (po_requests s) \<and> aw_id r = i \<and> aw_status r = ''pending'' \<and> aw_org r = oc_org x
      \<and> po_requests s' = map (\<lambda>q. if aw_id q = i then r\<lparr>aw_status := decision, aw_decided_by := dq_actor env\<rparr> else q) (po_requests s)
      \<and> (decision = ''rejected'' \<and> po_apps s' = po_apps s
         \<or> decision = ''approved'' \<and> set (l_assign (as_life (po_apps s'))) = insert (aw_app r, aw_requester r) (set (l_assign (as_life (po_apps s))))
           \<and> (\<exists>a \<in> set (as_apps (po_apps s)). ca_id a = aw_app r \<and> ca_org a = oc_org x
                \<and> set (rl_assigned (as_realm (po_apps s'))) = insert (ca_client a, aw_requester r) (set (rl_assigned (as_realm (po_apps s))))))
    else po_requests s' = po_requests s \<and> l_assign (as_life (po_apps s')) = l_assign (as_life (po_apps s))
      \<and> (roles_answer (dq_undo env) \<and> (\<forall>r \<in> set (po_requests s). \<forall>a \<in> set (as_apps (po_apps s)). aw_id r = i \<and> ca_id a = aw_app r
             \<longrightarrow> ca_client a \<noteq> [] \<and> (ca_client a, aw_requester r) \<notin> set (rl_assigned (as_realm (po_apps s))))
         \<longrightarrow> set (rl_assigned (as_realm (po_apps s'))) = set (rl_assigned (as_realm (po_apps s))))"
  using assms
proof (cases rule: decide_cases)
  case refused
  then show ?thesis by simp
next
  case (rejected x r rows)
  with decide_row_Some [OF rejected(4)] show ?thesis by auto
next
  case (granting x r rows a)
  note row = decide_row_Some [OF granting(3)]
  from granting(7) show ?thesis
  proof (cases rule: grant_cases)
    case failed
    with granting row show ?thesis by (simp; blast)
  next
    case granted
    have "po_requests s' = map (\<lambda>q. if aw_id q = i then r\<lparr>aw_status := ''approved'', aw_decided_by := dq_actor env\<rparr> else q) (po_requests s)"
      using granted(2) row(5) by simp
    with granted granting row(1-4) show ?thesis by (simp; blast)
  qed
qed

section \<open>The table of requests\<close>

datatype request_op =
    Request_access request_env "access_payload option"
  | Decide decide_env string "string option"

fun request_step :: "request_op \<Rightarrow> portal_state \<Rightarrow> portal_state" where
  "request_step (Request_access env body) s = snd (PortalRequestAccess env body s)"
| "request_step (Decide env i body) s = snd (AdminDecideAccessRequest env i body s)"

text \<open>A new row gets an id that no row has.\<close>

fun request_legal :: "request_op \<Rightarrow> portal_state \<Rightarrow> bool" where
  "request_legal (Request_access env body) s = (rt_new_id env \<notin> aw_id ` set (po_requests s))"
| "request_legal (Decide env i body) s = True"

definition requests_wf :: "portal_state \<Rightarrow> bool" where
  "requests_wf s \<longleftrightarrow> distinct (map aw_id (po_requests s))
     \<and> (\<forall>a \<in> set (po_requests s). \<forall>b \<in> set (po_requests s). same_request a b \<longrightarrow> aw_id a = aw_id b)
     \<and> (\<forall>a \<in> set (po_requests s). aw_status a \<in> {''pending'', ''approved'', ''rejected''})"

lemma same_request_sym: "same_request a b \<longleftrightarrow> same_request b a"
  by (auto simp: same_request_def)

lemma request_access_rows:
  "po_requests (snd (PortalRequestAccess env body s)) = po_requests s
   \<or> (\<exists>new. po_requests (snd (PortalRequestAccess env body s)) = po_requests s @ [new] \<and> aw_id new = rt_new_id env \<and> aw_status new = ''pending''
        \<and> (\<forall>q \<in> set (po_requests s). \<not> same_request new q))"
  by (auto simp: PortalRequestAccess_def Let_def list_ex_iff split: option.split insert_failure.split)

lemma decide_rows:
  assumes "AdminDecideAccessRequest env i body s = (resp, s')"
  shows "po_requests s' = po_requests s
    \<or> (\<exists>org decision r. decision \<in> {''approved'', ''rejected''} \<and> decide_row env decision i org (po_requests s) = Some (r, po_requests s'))"
  using assms
proof (cases rule: decide_cases)
  case (granting x r rows a)
  from granting(7) show ?thesis
  proof (cases rule: grant_cases)
    case granted
    with granting(3) show ?thesis by blast
  qed simp
qed auto

lemma map_update_id: "map aw_id (map (\<lambda>q. if aw_id q = i then r\<lparr>aw_status := d, aw_decided_by := b\<rparr> else q) rows) = map aw_id rows" if "aw_id r = i"
  using that by auto

lemma requests_wf_decided:
  assumes "requests_wf s" and "decision \<in> {''approved'', ''rejected''}" and "decide_row env decision i org (po_requests s) = Some (r, po_requests s')"
  shows "requests_wf s'"
proof -
  note row = decide_row_Some [OF assms(3)]
  define new where "new = r\<lparr>aw_status := decision, aw_decided_by := dq_actor env\<rparr>"
  have rows: "q \<in> set (po_requests s') \<Longrightarrow> q = new \<or> q \<in> set (po_requests s) \<and> aw_id q \<noteq> i" for q
    unfolding row(5) new_def by auto
  have new: "aw_id new = i" "\<And>q. q \<in> set (po_requests s) \<Longrightarrow> aw_id q \<noteq> i \<Longrightarrow> \<not> same_request new q" using row(2,6) by (auto simp: new_def)
  have "aw_id a = aw_id b" if "a \<in> set (po_requests s')" "b \<in> set (po_requests s')" "same_request a b" for a b
    using rows [OF that(1)] rows [OF that(2)] new that(3) same_request_sym assms(1) unfolding requests_wf_def by metis
  moreover have "distinct (map aw_id (po_requests s'))"
    using assms(1) map_update_id [OF row(2)] unfolding row(5) requests_wf_def by metis
  moreover have "aw_status a \<in> {''pending'', ''approved'', ''rejected''}" if "a \<in> set (po_requests s')" for a
    using rows [OF that] assms(1,2) unfolding requests_wf_def new_def by auto
  ultimately show ?thesis unfolding requests_wf_def by blast
qed

interpretation access_requests: guarded_machine request_step request_legal requests_wf
proof
  fix s :: portal_state and op
  assume wf: "requests_wf s" and legal: "request_legal op s"
  show "requests_wf (request_step op s)"
  proof (cases op)
    case (Request_access env body)
    from request_access_rows [of env body s] show ?thesis
    proof (elim disjE exE conjE)
      fix new
      assume n: "po_requests (snd (PortalRequestAccess env body s)) = po_requests s @ [new]" "aw_id new = rt_new_id env"
        "aw_status new = ''pending''" "\<forall>q \<in> set (po_requests s). \<not> same_request new q"
      from n(4) have "\<not> same_request new q \<and> \<not> same_request q new" if "q \<in> set (po_requests s)" for q
        using that same_request_sym by blast
      with n(1-3) wf legal Request_access show ?thesis unfolding requests_wf_def by auto
    qed (use wf Request_access in \<open>simp add: requests_wf_def\<close>)
  next
    case (Decide env i body)
    obtain resp s' where run: "AdminDecideAccessRequest env i body s = (resp, s')" by (metis surj_pair)
    from decide_rows [OF run] have "requests_wf s'"
    proof (elim disjE exE conjE)
      show "requests_wf s'" if "po_requests s' = po_requests s" using wf that by (simp add: requests_wf_def)
    qed (rule requests_wf_decided [OF wf])
    with Decide run show ?thesis by simp
  qed
qed

text \<open>However requests and decisions follow each other, a user has at most one pending request for an application, ids stay unique
  and every request is pending, approved or rejected.\<close>

theorem one_pending_request:
  assumes "requests_wf s" and "legal_run request_step request_legal ops s"
    and "a \<in> set (po_requests (fold request_step ops s))" and "b \<in> set (po_requests (fold request_step ops s))"
    and "aw_status a = ''pending''" and "aw_status b = ''pending''" and "aw_requester a = aw_requester b" and "aw_app a = aw_app b"
  shows "a = b"
proof -
  have wf: "requests_wf (fold request_step ops s)" by (rule access_requests.run_inv [OF assms(1,2)])
  have "same_request a b" using assms(5-) by (simp add: same_request_def)
  with wf assms(3,4) have "aw_id a = aw_id b" unfolding requests_wf_def by blast
  moreover have "inj_on aw_id (set (po_requests (fold request_step ops s)))" using wf by (simp add: requests_wf_def distinct_map)
  ultimately show ?thesis using assms(3,4) by (auto dest: inj_onD)
qed

text \<open>The constraint that keeps pending requests unique also covers the decided ones: once a request of a user for an application was rejected,
  a second one can never be rejected, and stays pending.\<close>

lemma second_rejection_impossible:
  assumes "q \<in> set (po_requests s)" and "aw_id q \<noteq> i" and "aw_status q = ''rejected''"
    and "\<And>r. r \<in> set (po_requests s) \<Longrightarrow> aw_id r = i \<Longrightarrow> aw_requester r = aw_requester q \<and> aw_app r = aw_app q"
  shows "\<not> success (fst (AdminDecideAccessRequest env i (Some ''rejected'') s)) \<and> snd (AdminDecideAccessRequest env i (Some ''rejected'') s) = s"
proof -
  have "decide_row env ''rejected'' i org (po_requests s) = None" for org
  proof (rule ccontr)
    assume "decide_row env ''rejected'' i org (po_requests s) \<noteq> None"
    then obtain r rows where d: "decide_row env ''rejected'' i org (po_requests s) = Some (r, rows)" by auto
    from decide_row_Some(6) [OF d] decide_row_Some(1,2) [OF d] assms show False by (auto simp: same_request_def)
  qed
  then show ?thesis by (auto simp: AdminDecideAccessRequest_def split: option.split)
qed

section \<open>Two requests\<close>

definition open_requests :: portal_state where
  "open_requests = \<lparr>po_apps = sample_apps, po_devices = [],
     po_requests = [\<lparr>aw_id = sample_uuid, aw_requester = ''u9'', aw_app = ''a1'', aw_status = ''pending'', aw_reason = [], aw_decided_by = [],
       aw_created = 0, aw_org = ''o1''\<rparr>]\<rparr>"

definition portal_admin :: decide_env where
  "portal_admin = \<lparr>dq_has_db = True, dq_oc = Some \<lparr>oc_org = ''o1'', oc_role = ''org-admin''\<rparr>, dq_actor = ''kc1'', dq_begin = None, dq_update_err = None,
     dq_app_err = None, dq_kc = sample_role_env, dq_assign_err = None, dq_commit = None, dq_undo = sample_role_env\<rparr>"

theorem access_decision_complete_witness:
  "(''a1'', ''u9'') \<in> set (l_assign (as_life (po_apps (snd (AdminDecideAccessRequest portal_admin sample_uuid (Some ''approved'') open_requests)))))"
proof -
  obtain resp s' where run: "AdminDecideAccessRequest portal_admin sample_uuid (Some ''approved'') open_requests = (resp, s')" by (metis surj_pair)
  have "success (fst (AdminDecideAccessRequest portal_admin sample_uuid (Some ''approved'') open_requests))" by code_simp
  with run access_decision_complete [OF run] show ?thesis by (auto simp: open_requests_def)
qed

theorem one_pending_request_witness:
  "\<forall>b \<in> set (po_requests (request_step (Decide portal_admin sample_uuid (Some ''other'')) open_requests)).
     aw_status b = ''pending'' \<and> aw_requester b = ''u9'' \<and> aw_app b = ''a1'' \<longrightarrow> b = hd (po_requests open_requests)"
proof -
  let ?ops = "[Decide portal_admin sample_uuid (Some ''other'')]"
  have same: "request_step (Decide portal_admin sample_uuid (Some ''other'')) open_requests = open_requests"
    by (simp add: AdminDecideAccessRequest_def)
  have "requests_wf open_requests" by (simp add: requests_wf_def open_requests_def)
  moreover have "legal_run request_step request_legal ?ops open_requests" by simp
  ultimately have "a = b" if "a \<in> set (po_requests open_requests)" "b \<in> set (po_requests open_requests)" "aw_status a = ''pending''" "aw_status b = ''pending''"
    "aw_requester a = aw_requester b" "aw_app a = aw_app b" for a b
    using one_pending_request [of open_requests ?ops a b] that same by simp
  then show ?thesis unfolding same by (auto simp: open_requests_def)
qed

end
