(* ===== verification/Siem.thy ===== *)
theory Siem
  imports Audit_Chain
begin

text \<open>
  Streaming of the audit log to a SIEM, \<open>internal/siem/siem.go\<close>: the sinks and what they put on the wire, the poll that reads
  behind a durable cursor and advances it only after every entry was delivered, and the ticker behind the leader gate.

  The state is the audit log of \<open>Audit_Chain\<close>, the row of \<open>siem_cursor\<close> and the entries that a sink has accepted.  The network is a parameter: the
  answer of the syslog writer and of the HTTP client to each send.  The id of a row, a UUID the database draws, is a function of its sequence
  number.
\<close>

section \<open>Sinks\<close>

record audit_entry =
  sg_id :: string
  sg_seq :: int
  sg_actor :: string
  sg_action :: string
  sg_target_type :: string
  sg_target_id :: string
  sg_details :: string
  sg_created :: string

datatype sink = noopSink | SyslogSink | HTTPSink string string

definition IsNoop :: "sink \<Rightarrow> bool" where
  "IsNoop k \<longleftrightarrow> k = noopSink"

definition sink_name :: "sink \<Rightarrow> string" where
  "sink_name k = (case k of noopSink \<Rightarrow> ''noop'' | SyslogSink \<Rightarrow> ''syslog'' | HTTPSink _ _ \<Rightarrow> ''http'')"

text \<open>The JSON of a struct keeps the order of its fields.\<close>

definition json_struct :: "(string \<times> jval) list \<Rightarrow> string" where
  "json_struct kvs = ''{'' @ join_with '','' (map (\<lambda>(k, v). json_string k @ '':'' @ json_marshal v) kvs) @ ''}''"

definition entry_json :: "audit_entry \<Rightarrow> string" where
  "entry_json e = json_struct [(''id'', JStr (sg_id e)), (''seq'', JInt (sg_seq e)), (''actorId'', JStr (sg_actor e)), (''action'', JStr (sg_action e)),
     (''targetType'', JStr (sg_target_type e)), (''targetId'', JStr (sg_target_id e)), (''details'', JStr (sg_details e)), (''createdAt'', JStr (sg_created e))]"

definition syslog_message :: "audit_entry \<Rightarrow> string" where
  "syslog_message e = ''audit seq='' @ show_int (sg_seq e) @ '' id='' @ sg_id e @ '' actor='' @ sg_actor e @ '' action='' @ sg_action e
     @ '' target_type='' @ sg_target_type e @ '' target_id='' @ sg_target_id e @ '' details='' @ sg_details e @ '' ts='' @ sg_created e"

record http_post =
  hp_url :: string
  hp_authorization :: "string option"
  hp_body :: string

datatype http_result = Not_built string | Not_sent string | Status int

text \<open>The network during one send: the error of the syslog writer for a message, the result of the HTTP client for a request.\<close>

record wire =
  wi_syslog :: "string \<Rightarrow> string option"
  wi_http :: "http_post \<Rightarrow> http_result"

definition http_request :: "string \<Rightarrow> string \<Rightarrow> audit_entry \<Rightarrow> http_post" where
  "http_request url token e = \<lparr>hp_url = url, hp_authorization = (if token \<noteq> [] then Some (''Bearer '' @ token) else None), hp_body = entry_json e\<rparr>"

definition Send :: "wire \<Rightarrow> sink \<Rightarrow> audit_entry \<Rightarrow> string option" where
  "Send w k e =
     (case k of noopSink \<Rightarrow> None
      | SyslogSink \<Rightarrow> wi_syslog w (syslog_message e)
      | HTTPSink url token \<Rightarrow>
          (case wi_http w (http_request url token e) of
             Not_built err \<Rightarrow> Some (''siem: http sink build request: '' @ err)
           | Not_sent err \<Rightarrow> Some (''siem: http sink send: '' @ err)
           | Status n \<Rightarrow> if n \<ge> 300 then Some (''siem: http sink unexpected status '' @ show_int n) else None))"

text \<open>\<open>dial\<close> is what \<open>syslog.Dial\<close> answers for a network and an address.\<close>

definition NewSyslogSink :: "(string \<Rightarrow> string \<Rightarrow> string option) \<Rightarrow> string \<Rightarrow> string \<Rightarrow> string + sink" where
  "NewSyslogSink dial network addr =
     (case dial network addr of Some e \<Rightarrow> Inl (''siem: syslog dial '' @ network @ '' '' @ addr @ '': '' @ e) | None \<Rightarrow> Inr SyslogSink)"

definition BuildSink :: "(string \<Rightarrow> string \<Rightarrow> string option) \<Rightarrow> string \<Rightarrow> string \<Rightarrow> string \<Rightarrow> string \<Rightarrow> string + sink" where
  "BuildSink dial syslogNet syslogAddr httpURL httpToken =
     (if syslogAddr \<noteq> [] then
        (case NewSyslogSink dial (if syslogNet = [] then ''udp'' else syslogNet) syslogAddr of
           Inl e \<Rightarrow> Inl (''siem: syslog sink at '' @ syslogAddr @ '' could not be initialised: '' @ e) | Inr k \<Rightarrow> Inr k)
      else if httpURL \<noteq> [] then Inr (HTTPSink httpURL httpToken)
      else Inl ''siem: no sink configured (set SIEM_SYSLOG_ADDR or SIEM_HTTP_URL)'')"

text \<open>\<open>main.go\<close> streams into the sink that discards when none could be built.\<close>

definition active_sink :: "string + sink \<Rightarrow> sink" where
  "active_sink r = (case r of Inl _ \<Rightarrow> noopSink | Inr k \<Rightarrow> k)"

section \<open>The poll\<close>

record siem_state =
  si_log :: audit_db
  si_cursor :: int
  si_sent :: "audit_entry list"

record poll_env =
  pn_cursor_err :: "string option"
  pn_query_err :: "string option"
  pn_scan_fails :: "nat \<Rightarrow> bool"
  pn_rows_err :: "string option"
  pn_wire :: "nat \<Rightarrow> wire"
  pn_update_err :: "string option"

definition pollBatchSize :: nat where
  "pollBatchSize = 100"

text \<open>The columns of a row as an entry; \<open>details\<close> is read without \<open>COALESCE\<close>, so a row without details does not scan.\<close>

definition entry_of :: "(string \<Rightarrow> string) \<Rightarrow> (int \<Rightarrow> string) \<Rightarrow> audit_row \<Rightarrow> audit_entry" where
  "entry_of jt ids r = \<lparr>sg_id = ids (al_seq r), sg_seq = al_seq r, sg_actor = al_actor r, sg_action = al_action r,
     sg_target_type = coalesce [] (al_target_type r), sg_target_id = coalesce [] (al_target_id r),
     sg_details = (case al_details r of None \<Rightarrow> [] | Some b \<Rightarrow> jt b), sg_created = rfc3339 (al_created r)\<rparr>"

definition scans :: "poll_env \<Rightarrow> nat \<times> audit_row \<Rightarrow> bool" where
  "scans env x \<longleftrightarrow> \<not> pn_scan_fails env (fst x) \<and> al_details (snd x) \<noteq> None"

definition new_rows :: "int \<Rightarrow> audit_db \<Rightarrow> audit_row list" where
  "new_rows lastSeq db = filter (\<lambda>r. lastSeq < al_seq r) (order_by_seq (logs db))"

text \<open>The loop over the entries: what the sink accepted before the first error, and whether there was one.\<close>

fun send_all :: "(nat \<Rightarrow> wire) \<Rightarrow> sink \<Rightarrow> nat \<Rightarrow> audit_entry list \<Rightarrow> audit_entry list \<times> bool" where
  "send_all w k i [] = ([], True)"
| "send_all w k i (e # es) =
     (case Send (w i) k e of Some _ \<Rightarrow> ([], False) | None \<Rightarrow> (case send_all w k (i + 1) es of (sent, ok) \<Rightarrow> (e # sent, ok)))"

definition poll :: "(string \<Rightarrow> string) \<Rightarrow> (int \<Rightarrow> string) \<Rightarrow> sink \<Rightarrow> poll_env \<Rightarrow> siem_state \<Rightarrow> siem_state" where
  "poll jt ids k env s =
     (if IsNoop k then s
      else if pn_cursor_err env \<noteq> None then s
      else if pn_query_err env \<noteq> None then s
      else let lastSeq = si_cursor s;
               entries = map (\<lambda>x. entry_of jt ids (snd x)) (filter (scans env) (enumerate 0 (take pollBatchSize (new_rows lastSeq (si_log s)))));
               maxSeq = fold (\<lambda>e m. if sg_seq e > m then sg_seq e else m) entries lastSeq in
      if pn_rows_err env \<noteq> None then s
      else if entries = [] then s
      else case send_all (pn_wire env) k 0 entries of
        (sent, False) \<Rightarrow> s\<lparr>si_sent := si_sent s @ sent\<rparr>
      | (sent, True) \<Rightarrow>
          (if pn_update_err env \<noteq> None then s\<lparr>si_sent := si_sent s @ sent\<rparr>
           else s\<lparr>si_sent := si_sent s @ sent, si_cursor := maxSeq\<rparr>))"

text \<open>One tick: without a gate every replica polls, with it only the leader; \<open>Start\<close> does not start the ticker for a sink that discards or an
  interval that is not positive.\<close>

definition siem_tick :: "(string \<Rightarrow> string) \<Rightarrow> (int \<Rightarrow> string) \<Rightarrow> sink \<Rightarrow> duration \<Rightarrow> bool option \<Rightarrow> poll_env \<Rightarrow> siem_state \<Rightarrow> siem_state" where
  "siem_tick jt ids k interval isLeader env s =
     (if interval \<le> 0 then s else if IsNoop k then s else if isLeader = Some False then s else poll jt ids k env s)"

section \<open>Delivery\<close>

lemma send_all_prefix: "send_all w k i es = (sent, ok) \<Longrightarrow> \<exists>n. sent = take n es \<and> (ok \<longrightarrow> sent = es)"
proof (induction es arbitrary: i sent ok)
  case (Cons e es)
  obtain sent' ok' where rec: "send_all w k (i + 1) es = (sent', ok')" by (metis surj_pair)
  from Cons.IH [OF rec] Cons.prems rec obtain n where n: "sent' = take n es" "ok' \<longrightarrow> sent' = es" by blast
  show ?case
  proof (cases "Send (w i) k e")
    case None
    with Cons.prems rec n have "sent = take (Suc n) (e # es)" "ok \<longrightarrow> sent = e # es" by auto
    then show ?thesis by blast
  next
    case (Some _)
    with Cons.prems show ?thesis by (auto intro: exI [of _ 0])
  qed
qed simp

lemma fold_max_entries: "fold (\<lambda>e m. if sg_seq e > m then sg_seq e else m) es m = fold max (map sg_seq es) m"
  by (induction es arbitrary: m) (auto simp: max_def)

lemma fold_max_ge: "m \<le> fold max xs (m :: int) \<and> (\<forall>x \<in> set xs. x \<le> fold max xs m) \<and> (fold max xs m = m \<or> fold max xs m \<in> set xs)"
proof (induction xs arbitrary: m)
  case (Cons x xs)
  from Cons.IH [of "max x m"] show ?case by (auto simp: max_def split: if_splits)
qed simp

text \<open>In an increasing list, whatever is not above an element of a prefix is in the prefix.\<close>

lemma in_prefix: "sorted_wrt (\<lambda>a b. f a < (f b :: int)) xs \<Longrightarrow> x \<in> set xs \<Longrightarrow> y \<in> set (take n xs) \<Longrightarrow> f x \<le> f y \<Longrightarrow> x \<in> set (take n xs)"
proof (rule ccontr)
  assume *: "sorted_wrt (\<lambda>a b. f a < f b) xs" "x \<in> set xs" "y \<in> set (take n xs)" "f x \<le> f y" "x \<notin> set (take n xs)"
  have "x \<in> set (drop n xs)" using *(2,5) by (metis Un_iff append_take_drop_id set_append)
  with *(1,3) have "f y < f x" by (metis append_take_drop_id sorted_wrt_append)
  with *(4) show False by simp
qed

text \<open>The rows of the log lie in the order of their sequence numbers, below the next one; the times of the rows do not matter.\<close>

definition in_sequence :: "audit_db \<Rightarrow> bool" where
  "in_sequence db \<longleftrightarrow> sorted_wrt (\<lambda>a b. al_seq a < al_seq b) (logs db) \<and> (\<forall>r \<in> set (logs db). al_seq r < next_seq db)"

lemma in_sequence_order: "in_sequence db \<Longrightarrow> order_by_seq (logs db) = logs db"
  unfolding in_sequence_def by (intro order_by_seq_sorted strict_sorted_imp_sorted) (simp add: sorted_wrt_map)

lemma new_rows_sorted: "in_sequence db \<Longrightarrow> sorted_wrt (\<lambda>a b. al_seq a < al_seq b) (new_rows c db)"
  by (simp add: new_rows_def in_sequence_order) (simp add: in_sequence_def sorted_wrt_filter)

lemma set_new_rows [simp]: "r \<in> set (new_rows c db) \<longleftrightarrow> r \<in> set (logs db) \<and> c < al_seq r"
  by (auto simp: new_rows_def)

definition all_scan :: "poll_env \<Rightarrow> bool" where
  "all_scan env \<longleftrightarrow> (\<forall>i < pollBatchSize. \<not> pn_scan_fails env i)"

text \<open>The entries of a poll in which every row scans are the first rows behind the cursor.\<close>

lemma scanned_all:
  assumes "all_scan env" and "\<forall>r \<in> set (logs db). al_details r \<noteq> None"
  shows "map (\<lambda>x. entry_of jt ids (snd x)) (filter (scans env) (enumerate 0 (take pollBatchSize (new_rows c db))))
    = map (entry_of jt ids) (take pollBatchSize (new_rows c db))"
proof -
  let ?rows = "take pollBatchSize (new_rows c db)"
  have "scans env x" if "x \<in> set (enumerate 0 ?rows)" for x
  proof -
    from that have i: "fst x < length ?rows" "?rows ! fst x = snd x" by (auto simp: in_set_enumerate_eq)
    then have "fst x < pollBatchSize" by simp
    moreover from i have "snd x \<in> set ?rows" by (metis nth_mem)
    then have "snd x \<in> set (logs db)" using in_set_takeD by fastforce
    ultimately show ?thesis using assms by (auto simp: scans_def all_scan_def)
  qed
  then have "filter (scans env) (enumerate 0 ?rows) = enumerate 0 ?rows" by simp
  then have "map (\<lambda>x. entry_of jt ids (snd x)) (filter (scans env) (enumerate 0 ?rows)) = map (entry_of jt ids) (map snd (enumerate 0 ?rows))"
    by (simp only: list.map_comp comp_def)
  then show ?thesis by (simp only: map_snd_enumerate)
qed

lemma poll_cases:
  assumes "all_scan env" and "\<forall>r \<in> set (logs (si_log s)). al_details r \<noteq> None"
  obtains (resend) n where "poll jt ids k env s = s\<lparr>si_sent := si_sent s @ take n (map (entry_of jt ids) (take pollBatchSize (new_rows (si_cursor s) (si_log s))))\<rparr>"
  | (advance) "take pollBatchSize (new_rows (si_cursor s) (si_log s)) \<noteq> []"
      "poll jt ids k env s = s\<lparr>si_sent := si_sent s @ map (entry_of jt ids) (take pollBatchSize (new_rows (si_cursor s) (si_log s))),
         si_cursor := fold max (map al_seq (take pollBatchSize (new_rows (si_cursor s) (si_log s)))) (si_cursor s)\<rparr>"
proof -
  let ?es = "map (entry_of jt ids) (take pollBatchSize (new_rows (si_cursor s) (si_log s)))"
  have seqs: "map sg_seq ?es = map al_seq (take pollBatchSize (new_rows (si_cursor s) (si_log s)))" by (simp add: entry_of_def)
  obtain sent ok where go: "send_all (pn_wire env) k 0 ?es = (sent, ok)" by (metis surj_pair)
  note run = poll_def [of jt ids k env s, unfolded Let_def scanned_all [OF assms] go fold_max_entries seqs, simplified]
  from send_all_prefix [OF go] obtain n where n: "sent = take n ?es" "ok \<longrightarrow> sent = ?es" by metis
  consider "poll jt ids k env s = s" | "poll jt ids k env s = s\<lparr>si_sent := si_sent s @ sent\<rparr>"
    | "ok" "?es \<noteq> []" "poll jt ids k env s = s\<lparr>si_sent := si_sent s @ sent,
         si_cursor := fold max (map al_seq (take pollBatchSize (new_rows (si_cursor s) (si_log s)))) (si_cursor s)\<rparr>"
    using run by (cases ok) (auto split: if_splits)
  then show ?thesis
  proof cases
    case 1
    then show ?thesis by (intro resend [of 0]) simp
  next
    case 2
    then show ?thesis using n(1) by (intro resend [of n]) simp
  next
    case 3
    then show ?thesis using n(2) by (intro advance) auto
  qed
qed

section \<open>No entry is lost\<close>

datatype siem_op = Log audit_op | Tick sink duration "bool option" poll_env

fun siem_step :: "(string \<Rightarrow> string) \<Rightarrow> (int \<Rightarrow> string) \<Rightarrow> siem_op \<Rightarrow> siem_state \<Rightarrow> siem_state" where
  "siem_step jt ids (Log op) s = s\<lparr>si_log := audit_step jt op (si_log s)\<rparr>"
| "siem_step jt ids (Tick k interval isLeader env) s = siem_tick jt ids k interval isLeader env s"

fun siem_legal :: "siem_op \<Rightarrow> siem_state \<Rightarrow> bool" where
  "siem_legal (Log op) s = True"
| "siem_legal (Tick k interval isLeader env) s = all_scan env"

definition siem_inv :: "(string \<Rightarrow> string) \<Rightarrow> (int \<Rightarrow> string) \<Rightarrow> siem_state \<Rightarrow> bool" where
  "siem_inv jt ids s \<longleftrightarrow> in_sequence (si_log s) \<and> si_cursor s < next_seq (si_log s)
     \<and> (\<forall>r \<in> set (logs (si_log s)). al_details r \<noteq> None \<and> (al_seq r \<le> si_cursor s \<longrightarrow> entry_of jt ids r \<in> set (si_sent s)))"

text \<open>An operation on the log keeps rows or adds one with details and a new sequence number.\<close>

lemma written_fresh:
  assumes "r \<in> set (logs (snd (WriteEntry jt env o' a ac tt ti d db)))"
  shows "r \<in> set (logs db) \<or> next_seq db \<le> al_seq r \<and> al_details r \<noteq> None"
  using assms WriteEntry_outcome [of jt env o' a ac tt ti d db] by (auto simp: written_row_def)

lemma audit_step_rows:
  assumes "r \<in> set (logs (audit_step jt op db))"
  shows "r \<in> set (logs db) \<or> next_seq db \<le> al_seq r \<and> al_details r \<noteq> None"
proof (cases op)
  case (Op_prune env keep)
  let ?c = "pe_clock env - keep"
  from Prune_outcome [of jt env keep db] obtain n where
    "snd (Prune jt env keep db) \<in> {db, snd (prune_entry jt env n ?c (pruned_db (pg_timestamp ?c) db)), rollback_to db (snd (prune_entry jt env n ?c (pruned_db (pg_timestamp ?c) db)))}"
    by auto
  moreover have "r' \<in> set (logs db) \<or> next_seq db \<le> al_seq r' \<and> al_details r' \<noteq> None"
    if "r' \<in> set (logs (snd (prune_entry jt env n ?c (pruned_db (pg_timestamp ?c) db))))" for r'
    using written_fresh [OF that [unfolded prune_entry_def]] by (auto simp: pruned_db_def delete_where_def)
  ultimately show ?thesis using assms Op_prune by (elim insertE emptyE) (simp_all add: rollback_to_def)
qed (use assms written_fresh in simp)

lemma audit_step_next_seq: "next_seq db \<le> next_seq (audit_step jt op db)"
proof (cases op)
  case (Op_prune env keep)
  have "next_seq db \<le> next_seq (snd (prune_entry jt env n c (pruned_db x db)))" for n c x
    unfolding prune_entry_def using WriteEntry_next_seq [of "pruned_db x db"] by simp
  with Op_prune Prune_outcome [of jt env keep db] show ?thesis by (auto simp: rollback_to_def)
qed (simp add: WriteEntry_next_seq)

lemma WriteEntry_in_sequence: "in_sequence db \<Longrightarrow> in_sequence (snd (WriteEntry jt env o' a ac tt ti d db))"
  using WriteEntry_outcome [of jt env o' a ac tt ti d db] by (fastforce simp: in_sequence_def sorted_wrt_append written_row_def)

lemma audit_step_in_sequence:
  assumes "in_sequence db"
  shows "in_sequence (audit_step jt op db)"
proof (cases op)
  case (Op_prune env keep)
  have pruned: "in_sequence (pruned_db x db)" for x
    using assms by (auto simp: in_sequence_def pruned_db_def delete_where_def intro: sorted_wrt_filter)
  then have entry: "in_sequence (snd (prune_entry jt env n c (pruned_db x db)))" for n c x
    unfolding prune_entry_def by (rule WriteEntry_in_sequence)
  have "in_sequence (rollback_to db (snd (prune_entry jt env n c (pruned_db x db))))" for n c x
    using assms WriteEntry_next_seq [of "pruned_db x db"]
    by (fastforce simp: in_sequence_def rollback_to_def prune_entry_def pruned_db_def intro: order.strict_trans2)
  with entry assms Prune_outcome [of jt env keep db] Op_prune show ?thesis by auto
qed (use WriteEntry_in_sequence [OF assms] in simp)

lemma poll_inv:
  assumes inv: "siem_inv jt ids s" and scan: "all_scan env"
  shows "siem_inv jt ids (poll jt ids k env s)"
proof -
  let ?rows = "take pollBatchSize (new_rows (si_cursor s) (si_log s))"
  have det: "\<forall>r \<in> set (logs (si_log s)). al_details r \<noteq> None" using inv by (simp add: siem_inv_def)
  have seq: "in_sequence (si_log s)" using inv by (simp add: siem_inv_def)
  from scan det show ?thesis
  proof (cases rule: poll_cases [where k = k and jt = jt and ids = ids])
    case (resend n)
    with inv show ?thesis by (simp add: siem_inv_def)
  next
    case advance
    let ?c = "fold max (map al_seq ?rows) (si_cursor s)"
    note top = fold_max_ge [of "si_cursor s" "map al_seq ?rows"]
    have mem: "r \<in> set (logs (si_log s))" if "r \<in> set ?rows" for r using in_set_takeD [OF that] by simp
    have "?c < next_seq (si_log s)"
      using top mem inv seq by (auto simp: siem_inv_def in_sequence_def)
    moreover have "r \<in> set ?rows" if r: "r \<in> set (logs (si_log s))" "al_seq r \<le> ?c" "\<not> al_seq r \<le> si_cursor s" for r
    proof -
      from top r(2,3) obtain y where "y \<in> set ?rows" "al_seq r \<le> al_seq y" by auto
      with r show ?thesis by (intro in_prefix [OF new_rows_sorted [OF seq], of r]) auto
    qed
    ultimately show ?thesis using inv advance by (auto simp: siem_inv_def)
  qed
qed

interpretation siem: guarded_machine "siem_step jt ids" siem_legal "siem_inv jt ids" for jt ids
proof
  fix s op
  assume inv: "siem_inv jt ids s" and legal: "siem_legal op s"
  show "siem_inv jt ids (siem_step jt ids op s)"
  proof (cases op)
    case (Log o')
    from inv have "in_sequence (audit_step jt o' (si_log s))" by (simp add: siem_inv_def audit_step_in_sequence)
    with inv Log audit_step_next_seq [of "si_log s" jt o'] audit_step_rows [of _ jt o' "si_log s"]
    show ?thesis unfolding siem_inv_def by (auto simp: siem_inv_def) fastforce+
  next
    case (Tick k interval isLeader env)
    with inv legal poll_inv show ?thesis by (simp add: siem_tick_def)
  qed
qed

definition siem_start :: siem_state where
  "siem_start = \<lparr>si_log = empty_audit_db, si_cursor = 0, si_sent = []\<rparr>"

lemma siem_inv_start: "siem_inv jt ids siem_start"
  by (simp add: siem_inv_def siem_start_def in_sequence_def empty_audit_db_def)

text \<open>C26. No audit event is lost on the way to the SIEM: however writes, pruning and polls follow each other, with whatever failures of the
  database, the network and the sink, whatever the clocks say, and through any change of sink, every row of the log up to the cursor was accepted by
  a sink, as long as the rows of each poll can be scanned.\<close>

theorem siem_delivers_before_cursor:
  assumes "legal_run (siem_step jt ids) siem_legal ops siem_start" and "s = fold (siem_step jt ids) ops siem_start"
    and "r \<in> set (logs (si_log s))" and "al_seq r \<le> si_cursor s"
  shows "entry_of jt ids r \<in> set (si_sent s)"
  using siem.run_inv [OF siem_inv_start assms(1)] assms(2-) by (auto simp: siem_inv_def)

text \<open>The rows that still wait for delivery, and a network that accepts everything.\<close>

abbreviation waiting :: "siem_state \<Rightarrow> audit_row list" where
  "waiting s \<equiv> new_rows (si_cursor s) (si_log s)"

definition healthy :: "sink \<Rightarrow> poll_env \<Rightarrow> bool" where
  "healthy k env \<longleftrightarrow> k \<noteq> noopSink \<and> all_scan env \<and> pn_cursor_err env = None \<and> pn_query_err env = None \<and> pn_rows_err env = None \<and> pn_update_err env = None
     \<and> (\<forall>i m. wi_syslog (pn_wire env i) m = None) \<and> (\<forall>i q. \<exists>n. wi_http (pn_wire env i) q = Status n \<and> n < 300)"

lemma healthy_send: "healthy k env \<Longrightarrow> Send (pn_wire env i) k e = None"
  by (cases k) (auto simp: Send_def healthy_def split: http_result.split, (metis http_result.distinct http_result.inject not_le)+)

lemma healthy_send_all: "healthy k env \<Longrightarrow> send_all (pn_wire env) k i es = (es, True)"
  by (induction es arbitrary: i) (auto simp: healthy_send)

lemma new_rows_drop:
  assumes "in_sequence db"
  shows "new_rows (fold max (map al_seq (take n (new_rows c db))) c) db = drop n (new_rows c db)"
proof -
  let ?xs = "new_rows c db" and ?m = "fold max (map al_seq (take n (new_rows c db))) c"
  note top = fold_max_ge [of c "map al_seq (take n ?xs)"]
  have "new_rows ?m db = filter (\<lambda>r. ?m < al_seq r) ?xs" using top by (auto simp: new_rows_def intro!: filter_cong)
  also have "\<dots> = filter (\<lambda>r. ?m < al_seq r) (take n ?xs) @ filter (\<lambda>r. ?m < al_seq r) (drop n ?xs)"
    by (metis append_take_drop_id filter_append)
  also have "filter (\<lambda>r. ?m < al_seq r) (take n ?xs) = []" using top by (fastforce simp: filter_empty_conv)
  also have "filter (\<lambda>r. ?m < al_seq r) (drop n ?xs) = drop n ?xs"
  proof -
    have "\<forall>a \<in> set (take n ?xs). \<forall>b \<in> set (drop n ?xs). al_seq a < al_seq b"
      using new_rows_sorted [OF assms, of c] by (metis append_take_drop_id sorted_wrt_append)
    moreover have "c < al_seq b" if "b \<in> set (drop n ?xs)" for b using in_set_dropD [OF that] by simp
    ultimately show ?thesis using top by (auto simp: filter_id_conv)
  qed
  finally show ?thesis by simp
qed

lemma healthy_poll:
  assumes "siem_inv jt ids s" and "healthy k env"
  shows "waiting (poll jt ids k env s) = drop pollBatchSize (waiting s)" "si_log (poll jt ids k env s) = si_log s"
    "si_sent (poll jt ids k env s) = si_sent s @ map (entry_of jt ids) (take pollBatchSize (waiting s))"
proof -
  let ?es = "map (entry_of jt ids) (take pollBatchSize (waiting s))"
  have det: "\<forall>r \<in> set (logs (si_log s)). al_details r \<noteq> None" and seq: "in_sequence (si_log s)"
    using assms(1) by (simp_all add: siem_inv_def)
  have seqs: "map sg_seq ?es = map al_seq (take pollBatchSize (waiting s))" by (simp add: entry_of_def)
  have scan: "all_scan env" using assms(2) by (simp add: healthy_def)
  note run = poll_def [of jt ids k env s, unfolded Let_def scanned_all [OF scan det] healthy_send_all [OF assms(2)] fold_max_entries seqs, simplified]
  show "waiting (poll jt ids k env s) = drop pollBatchSize (waiting s)" "si_log (poll jt ids k env s) = si_log s"
    "si_sent (poll jt ids k env s) = si_sent s @ ?es"
    using run assms(2) new_rows_drop [OF seq, of pollBatchSize "si_cursor s"] by (auto simp: healthy_def IsNoop_def pollBatchSize_def)
qed

text \<open>A backlog is worked off: after any history, when the sink and the database answer and nothing new is written, n polls deliver the oldest
  100 n waiting entries, each once and in the order of the log, and with enough polls nothing waits.\<close>

theorem siem_catches_up:
  assumes "legal_run (siem_step jt ids) siem_legal ops siem_start" and "s = fold (siem_step jt ids) ops siem_start" and "\<forall>env \<in> set envs. healthy k env"
  shows "si_sent (fold (poll jt ids k) envs s) = si_sent s @ map (entry_of jt ids) (take (100 * length envs) (waiting s))
    \<and> waiting (fold (poll jt ids k) envs s) = drop (100 * length envs) (waiting s)"
proof -
  have "siem_inv jt ids s" using siem.run_inv [OF siem_inv_start assms(1)] assms(2) by simp
  then show ?thesis using assms(3)
  proof (induction envs arbitrary: s)
    case (Cons env envs)
    then have h: "healthy k env" and scan: "all_scan env" by (auto simp: healthy_def)
    note one = healthy_poll [OF Cons.prems(1) h]
    show ?case using Cons.IH [OF poll_inv [OF Cons.prems(1) scan]] Cons.prems(2) one
      by (simp add: pollBatchSize_def add.commute [of 100] flip: take_add map_append)
  qed simp
qed

section \<open>A row that does not scan\<close>

text \<open>A row that cannot be read is skipped, and the cursor passes it with the next one: it is never delivered.\<close>

definition quiet_wire :: wire where
  "quiet_wire = \<lparr>wi_syslog = (\<lambda>_. None), wi_http = (\<lambda>_. Status 200)\<rparr>"

definition siem_env :: "(nat \<Rightarrow> bool) \<Rightarrow> poll_env" where
  "siem_env fails = \<lparr>pn_cursor_err = None, pn_query_err = None, pn_scan_fails = fails, pn_rows_err = None, pn_wire = (\<lambda>_. quiet_wire), pn_update_err = None\<rparr>"

definition two_writes :: "siem_op list" where
  "two_writes = [Log (sample_write ''o1'' 1000), Log (sample_write ''o1'' 5000)]"

abbreviation streamed :: "(nat \<Rightarrow> bool) \<Rightarrow> siem_state" where
  "streamed fails \<equiv> fold (siem_step (\<lambda>b. b) show_int) (two_writes @ [Tick SyslogSink 5 None (siem_env fails)]) siem_start"

lemmas siem_run_simps = two_writes_def siem_start_def sample_simps siem_tick_def poll_def IsNoop_def siem_env_def pollBatchSize_def new_rows_def scans_def
  entry_of_def Send_def quiet_wire_def

lemma unscanned_row_dropped:
  "map al_seq (logs (si_log (streamed (\<lambda>i. i = 0)))) = [1, 2] \<and> si_cursor (streamed (\<lambda>i. i = 0)) = 2
   \<and> map sg_seq (si_sent (streamed (\<lambda>i. i = 0))) = [2]"
  by (simp add: siem_run_simps)

section \<open>A run\<close>

lemma streamed_legal: "legal_run (siem_step (\<lambda>b. b) show_int) siem_legal (two_writes @ [Tick SyslogSink 5 None (siem_env (\<lambda>_. False))]) siem_start"
  by (simp add: siem_run_simps all_scan_def)

theorem siem_delivers_before_cursor_witness:
  "entry_of (\<lambda>b. b) show_int ` set (logs (si_log (streamed (\<lambda>_. False)))) \<subseteq> set (si_sent (streamed (\<lambda>_. False)))
   \<and> length (logs (si_log (streamed (\<lambda>_. False)))) = 2"
proof -
  have "si_cursor (streamed (\<lambda>_. False)) = 2" and "\<forall>r \<in> set (logs (si_log (streamed (\<lambda>_. False)))). al_seq r \<le> 2" by (simp_all add: siem_run_simps)
  with siem_delivers_before_cursor [OF streamed_legal refl]
  have "entry_of (\<lambda>b. b) show_int ` set (logs (si_log (streamed (\<lambda>_. False)))) \<subseteq> set (si_sent (streamed (\<lambda>_. False)))" by auto
  moreover have "length (logs (si_log (streamed (\<lambda>_. False)))) = 2" by (simp add: siem_run_simps)
  ultimately show ?thesis by blast
qed

theorem siem_catches_up_witness:
  "length (si_sent (poll (\<lambda>b. b) show_int SyslogSink (siem_env (\<lambda>_. False)) (fold (siem_step (\<lambda>b. b) show_int) two_writes siem_start))) = 2"
proof -
  have legal: "legal_run (siem_step (\<lambda>b. b) show_int) siem_legal two_writes siem_start" by (simp add: siem_run_simps)
  have "\<forall>env \<in> set [siem_env (\<lambda>_. False)]. healthy SyslogSink env" by (simp add: healthy_def siem_env_def all_scan_def quiet_wire_def)
  from siem_catches_up [OF legal refl this]
  have "length (si_sent (poll (\<lambda>b. b) show_int SyslogSink (siem_env (\<lambda>_. False)) (fold (siem_step (\<lambda>b. b) show_int) two_writes siem_start)))
    = length (si_sent (fold (siem_step (\<lambda>b. b) show_int) two_writes siem_start))
      + min (length (waiting (fold (siem_step (\<lambda>b. b) show_int) two_writes siem_start))) 100" by simp
  then show ?thesis by (simp add: siem_run_simps)
qed

end
