(* ===== verification/Reports.thy ===== *)
theory Reports
  imports Apps Devices Access_Review Siem
begin

text \<open>
  What auditors take out of the system: the audit export of \<open>internal/handlers/audit_export.go\<close>, the reports of \<open>audit_reports.go\<close>, the export of
  a campaign of \<open>review_export.go\<close>, and the verification endpoints of \<open>audit_integrity.go\<close> and \<open>GetAuditIntegrity\<close>.

  The files are modelled as text, written by \<open>encoding/csv\<close> and \<open>encoding/json\<close>.  Parameters are the UUID of an audit row by its sequence number,
  what \<open>json.Unmarshal\<close> makes of its details, and the text of a duration.
\<close>

section \<open>The CSV writer\<close>

abbreviation quote_mark :: char where
  "quote_mark \<equiv> CHR 0x22"

abbreviation newline :: char where
  "newline \<equiv> CHR 0x0A"

definition csv_special :: "char \<Rightarrow> bool" where
  "csv_special c \<longleftrightarrow> c = newline \<or> c = CHR 0x0D \<or> c = quote_mark \<or> c = CHR '',''"

definition fieldNeedsQuotes :: "string \<Rightarrow> bool" where
  "fieldNeedsQuotes f \<longleftrightarrow> f \<noteq> [] \<and> (f = [CHR 0x5C, CHR ''.''] \<or> list_ex csv_special f \<or> list_ex (\<lambda>r. has_prefix r f) space_runes)"

definition csv_escape :: "string \<Rightarrow> string" where
  "csv_escape f = concat (map (\<lambda>c. if c = quote_mark then [quote_mark, quote_mark] else [c]) f)"

definition csv_quoted :: "string \<Rightarrow> string" where
  "csv_quoted f = (if fieldNeedsQuotes f then quote_mark # csv_escape f @ [quote_mark] else f)"

fun csv_record :: "string list \<Rightarrow> string" where
  "csv_record [] = [newline]"
| "csv_record [f] = csv_quoted f @ [newline]"
| "csv_record (f # g # fs) = csv_quoted f @ CHR '','' # csv_record (g # fs)"

definition csv_text :: "string list list \<Rightarrow> string" where
  "csv_text rows = concat (map csv_record rows)"

section \<open>The audit export\<close>

definition maxAuditExportRows :: nat where
  "maxAuditExportRows = 100000"

datatype export_format = Csv | Json

definition export_format_of :: "string \<Rightarrow> string \<Rightarrow> export_format option" where
  "export_format_of fallback f =
     (let f = (if f = [] then fallback else f) in if f = ''csv'' then Some Csv else if f = ''json'' then Some Json else None)"

record exported_file =
  ef_truncated :: bool
  ef_body :: string

record export_env =
  xp_has_db :: bool
  xp_oc :: "org_context option"
  xp_probe_err :: "string option"
  xp_rows :: rows_env
  xp_cut :: "nat option"
  xp_ids :: "int \<Rightarrow> string"
  xp_unmarshal :: "string \<Rightarrow> (string \<times> jval) list option"

record log_entry =
  le_id :: string
  le_actor :: string
  le_action :: string
  le_target_type :: string
  le_target_id :: string
  le_details :: "(string \<times> jval) list"
  le_created :: string

text \<open>\<open>scanAuditExportRow\<close>: details that are absent or not an object become the empty one.\<close>

definition scanAuditExportRow :: "export_env \<Rightarrow> audit_row \<Rightarrow> log_entry" where
  "scanAuditExportRow env r =
     \<lparr>le_id = xp_ids env (al_seq r), le_actor = al_actor r, le_action = al_action r,
      le_target_type = coalesce [] (al_target_type r), le_target_id = coalesce [] (al_target_id r),
      le_details = (case al_details r of None \<Rightarrow> [] | Some b \<Rightarrow> if b = [] then [] else (case xp_unmarshal env b of None \<Rightarrow> [] | Some kvs \<Rightarrow> kvs)),
      le_created = rfc3339 (al_created r)\<rparr>"

definition log_header :: "string list" where
  "log_header = [''id'', ''actor_id'', ''action'', ''target_type'', ''target_id'', ''details'', ''created_at'']"

definition log_record :: "log_entry \<Rightarrow> string list" where
  "log_record e = [le_id e, le_actor e, le_action e, le_target_type e, le_target_id e, json_marshal (JObj (le_details e)), le_created e]"

definition omit_empty :: "string \<Rightarrow> string \<Rightarrow> (string \<times> jval) list" where
  "omit_empty k v = (if v = [] then [] else [(k, JStr v)])"

definition log_json :: "log_entry \<Rightarrow> string" where
  "log_json e = json_struct ([(''id'', JStr (le_id e)), (''actorId'', JStr (le_actor e)), (''action'', JStr (le_action e))]
     @ omit_empty ''targetType'' (le_target_type e) @ omit_empty ''targetId'' (le_target_id e)
     @ [(''details'', JObj (le_details e))] @ omit_empty ''createdAt'' (le_created e))"

text \<open>The rows the query selects, and those that the loop sees: an error of the iteration ends the loop, and a row that does not scan is skipped.\<close>

definition export_rows :: "string \<Rightarrow> log_query \<Rightarrow> time option \<Rightarrow> time option \<Rightarrow> audit_db \<Rightarrow> audit_row list" where
  "export_rows org q lo hi db = take maxAuditExportRows (sort_key (\<lambda>r. - al_created r) (filter (log_matches org q lo hi) (logs db)))"

definition seen_rows :: "export_env \<Rightarrow> audit_row list \<Rightarrow> audit_row list" where
  "seen_rows env rows = scan_rows (xp_rows env) (case xp_cut env of None \<Rightarrow> rows | Some n \<Rightarrow> take n rows)"

definition export_body :: "export_format \<Rightarrow> log_entry list \<Rightarrow> string" where
  "export_body f es = (case f of
       Csv \<Rightarrow> csv_text (log_header # map log_record es)
     | Json \<Rightarrow> ''['' @ join_with '','' (map (\<lambda>e. log_json e @ [newline]) es) @ '']'')"

definition ExportAuditLogs :: "export_env \<Rightarrow> string \<Rightarrow> log_query \<Rightarrow> audit_db \<Rightarrow> exported_file response" where
  "ExportAuditLogs env format q db =
     (if \<not> xp_has_db env then RespondError 500 ''database not available''
      else case export_format_of ''csv'' format of
        None \<Rightarrow> RespondError 400 (''format must be '' @ [CHR 0x27] @ ''csv'' @ [CHR 0x27] @ '' or '' @ [CHR 0x27] @ ''json'' @ [CHR 0x27])
      | Some f \<Rightarrow>
      (case time_bound (lq_from q) of None \<Rightarrow> RespondError 400 (''invalid '' @ [CHR 0x27] @ ''from'' @ [CHR 0x27] @ '' param: use RFC3339 format'')
      | Some lo \<Rightarrow>
      (case time_bound (lq_to q) of None \<Rightarrow> RespondError 400 (''invalid '' @ [CHR 0x27] @ ''to'' @ [CHR 0x27] @ '' param: use RFC3339 format'')
      | Some hi \<Rightarrow>
      (case xp_oc env of None \<Rightarrow> RespondError 403 ''forbidden: no organization context'' | Some x \<Rightarrow>
       (let truncated = (xp_probe_err env = None \<and> maxAuditExportRows < length (filter (log_matches (oc_org x) q lo hi) (logs db))) in
        if rw_query_err (xp_rows env) \<noteq> None then RespondError 500 ''internal error''
        else RespondJSON 200 \<lparr>ef_truncated = truncated,
               ef_body = export_body f (map (scanAuditExportRow env) (seen_rows env (export_rows (oc_org x) q lo hi db)))\<rparr>)))))"

section \<open>Reports\<close>

record compliance_report_row =
  cr_device :: string
  cr_hostname :: string
  cr_os_version :: string
  cr_disk :: bool
  cr_firewall :: bool
  cr_mdm :: bool
  cr_vulns :: nat
  cr_compliant :: bool
  cr_needs_update :: bool

record review_report_row =
  vw_campaign :: string
  vw_name :: string
  vw_status :: string
  vw_created :: string
  vw_closed :: string
  vw_total :: nat
  vw_confirmed :: nat
  vw_revoked :: nat
  vw_pending :: nat

definition show_bool :: "bool \<Rightarrow> string" where
  "show_bool b = (if b then ''true'' else ''false'')"

text \<open>\<open>streamReport\<close>; the JSON variant is kept as the list of objects, which \<open>SetIndent\<close> lays out over several lines.\<close>

datatype 'r report_file = Csv_report string | Json_report "'r list"

definition streamReport :: "export_format \<Rightarrow> 'r list \<Rightarrow> string list \<Rightarrow> ('r \<Rightarrow> string list) \<Rightarrow> 'r report_file" where
  "streamReport f rows headers rowFn = (case f of Json \<Rightarrow> Json_report rows | Csv \<Rightarrow> Csv_report (csv_text (headers # map rowFn rows)))"

datatype report = Compliance_report "compliance_report_row report_file" | Review_report "review_report_row report_file"

definition report_audit :: "(string \<Rightarrow> string) \<Rightarrow> write_env \<Rightarrow> org_context option \<Rightarrow> string \<Rightarrow> string \<Rightarrow> string \<Rightarrow> nat \<Rightarrow> audit_db \<Rightarrow> audit_db" where
  "report_audit jt w oc actor type format n a = log_best_effort jt w oc
     \<lparr>ac_actor = actor, ac_action = ''report.download'', ac_target_type = ''report'', ac_target_id = type,
      ac_details = Some (JObj [(''format'', JStr format), (''rows'', JInt (int n))])\<rparr> a"

definition compliance_row_of :: "host_posture \<Rightarrow> compliance_report_row" where
  "compliance_row_of p = \<lparr>cr_device = hp_device p, cr_hostname = hp_hostname p, cr_os_version = hp_os_version p, cr_disk = hp_disk p,
     cr_firewall = hp_firewall p, cr_mdm = hp_mdm p, cr_vulns = length (hp_vulns p), cr_compliant = hp_compliant p, cr_needs_update = hp_needs_update p\<rparr>"

definition compliance_header :: "string list" where
  "compliance_header = [''device_id'', ''hostname'', ''os_version'', ''disk_encrypted'', ''firewall_enabled'', ''mdm_enrolled'', ''vuln_count'', ''compliant'', ''needs_update'']"

definition compliance_record :: "compliance_report_row \<Rightarrow> string list" where
  "compliance_record r = [cr_device r, cr_hostname r, cr_os_version r, show_bool (cr_disk r), show_bool (cr_firewall r), show_bool (cr_mdm r),
     show_nat (cr_vulns r), show_bool (cr_compliant r), show_bool (cr_needs_update r)]"

record report_env =
  rp_has_db :: bool
  rp_oc :: "org_context option"
  rp_actor :: string
  rp_rows :: rows_env
  rp_state :: fleet
  rp_os :: "string \<Rightarrow> string + os_posture"
  rp_by_hostname :: "device_row list \<Rightarrow> device_row list"
  rp_audit :: write_env

definition downloadComplianceReport :: "(string \<Rightarrow> string) \<Rightarrow> report_env \<Rightarrow> export_format \<Rightarrow> string \<Rightarrow> device_row list \<Rightarrow> audit_db
   \<Rightarrow> report response \<times> audit_db" where
  "downloadComplianceReport jt env f format devs a =
     (case rp_oc env of None \<Rightarrow> (RespondError 403 ''forbidden: no organization context'', a) | Some x \<Rightarrow>
      if rw_query_err (rp_rows env) \<noteq> None then (RespondError 500 ''internal error'', a)
      else case scanComplianceDevices (rp_rows env) (rp_by_hostname env (filter (\<lambda>d. dv_org d = oc_org x) devs)) of
        Inl _ \<Rightarrow> (RespondError 500 ''internal error'', a)
      | Inr deviceList \<Rightarrow>
          (let rows = map compliance_row_of (fst (buildCompliancePostures (rp_state env) (rp_os env) deviceList)) in
           (RespondJSON 200 (Compliance_report (streamReport f rows compliance_header compliance_record)),
            report_audit jt (rp_audit env) (rp_oc env) (rp_actor env) ''compliance'' format (length rows) a)))"

definition count_items :: "(review_item \<Rightarrow> bool) \<Rightarrow> string \<Rightarrow> review_db \<Rightarrow> nat" where
  "count_items P c db = length (filter (\<lambda>i. ri_campaign i = c \<and> P i) (rv_items db))"

definition review_row_of :: "review_db \<Rightarrow> campaign \<Rightarrow> review_report_row" where
  "review_row_of db c = \<lparr>vw_campaign = cp_id c, vw_name = cp_name c, vw_status = cp_status c, vw_created = rfc3339 (cp_created c),
     vw_closed = (case cp_closed c of None \<Rightarrow> [] | Some t \<Rightarrow> rfc3339 t), vw_total = count_items (\<lambda>i. True) (cp_id c) db,
     vw_confirmed = count_items (\<lambda>i. ri_decision i = Some ''confirm'') (cp_id c) db,
     vw_revoked = count_items (\<lambda>i. ri_decision i = Some ''revoke'') (cp_id c) db,
     vw_pending = count_items (\<lambda>i. ri_decision i = None) (cp_id c) db\<rparr>"

definition review_header :: "string list" where
  "review_header = [''campaign_id'', ''campaign_name'', ''status'', ''created_at'', ''closed_at'', ''total_items'', ''confirmed'', ''revoked'', ''pending'']"

definition review_record :: "review_report_row \<Rightarrow> string list" where
  "review_record r = [vw_campaign r, vw_name r, vw_status r, vw_created r, vw_closed r, show_nat (vw_total r), show_nat (vw_confirmed r),
     show_nat (vw_revoked r), show_nat (vw_pending r)]"

definition report_campaigns :: "string \<Rightarrow> time option \<Rightarrow> time option \<Rightarrow> review_db \<Rightarrow> campaign list" where
  "report_campaigns org lo hi db = sort_key (\<lambda>c. - cp_created c) (filter (\<lambda>c. cp_org c = org
     \<and> (case lo of None \<Rightarrow> True | Some t \<Rightarrow> t \<le> cp_created c) \<and> (case hi of None \<Rightarrow> True | Some t \<Rightarrow> cp_created c < t)) (rv_campaigns db))"

definition downloadAccessReviewReport :: "(string \<Rightarrow> string) \<Rightarrow> report_env \<Rightarrow> export_format \<Rightarrow> string \<Rightarrow> time option \<Rightarrow> time option \<Rightarrow> review_db \<Rightarrow> audit_db
   \<Rightarrow> report response \<times> audit_db" where
  "downloadAccessReviewReport jt env f format lo hi db a =
     (case rp_oc env of None \<Rightarrow> (RespondError 403 ''forbidden: no organization context'', a) | Some x \<Rightarrow>
      (let rows = map (review_row_of db) (report_campaigns (oc_org x) lo hi db) in
       if rw_query_err (rp_rows env) \<noteq> None \<or> list_ex (rw_scan_fails (rp_rows env)) [0..<length rows] \<or> rw_err (rp_rows env) \<noteq> None
       then (RespondError 500 ''internal error'', a)
       else (RespondJSON 200 (Review_report (streamReport f rows review_header review_record)),
             report_audit jt (rp_audit env) (rp_oc env) (rp_actor env) ''access-review'' format (length rows) a)))"

definition DownloadReport :: "(string \<Rightarrow> string) \<Rightarrow> report_env \<Rightarrow> string \<Rightarrow> string \<Rightarrow> string \<times> time option \<Rightarrow> string \<times> time option
   \<Rightarrow> device_row list \<Rightarrow> review_db \<Rightarrow> audit_db \<Rightarrow> report response \<times> audit_db" where
  "DownloadReport jt env type format fromStr toStr devs db a =
     (if \<not> rp_has_db env then (RespondError 500 ''database not available'', a)
      else if type = [] then (RespondError 400 ''type is required: compliance or access-review'', a)
      else if type \<noteq> ''compliance'' \<and> type \<noteq> ''access-review''
      then (RespondError 400 (''type must be '' @ [CHR 0x27] @ ''compliance'' @ [CHR 0x27] @ '' or '' @ [CHR 0x27] @ ''access-review'' @ [CHR 0x27]), a)
      else case export_format_of ''csv'' format of
        None \<Rightarrow> (RespondError 400 (''format must be '' @ [CHR 0x27] @ ''csv'' @ [CHR 0x27] @ '' or '' @ [CHR 0x27] @ ''json'' @ [CHR 0x27]), a)
      | Some f \<Rightarrow>
      (case time_bound fromStr of None \<Rightarrow> (RespondError 400 (''invalid '' @ [CHR 0x27] @ ''from'' @ [CHR 0x27] @ '' param: use RFC3339 format''), a)
      | Some lo \<Rightarrow>
      (case time_bound toStr of None \<Rightarrow> (RespondError 400 (''invalid '' @ [CHR 0x27] @ ''to'' @ [CHR 0x27] @ '' param: use RFC3339 format''), a)
      | Some hi \<Rightarrow>
       let format = (if format = [] then ''csv'' else format) in
       if type = ''compliance'' then downloadComplianceReport jt env f format devs a
       else downloadAccessReviewReport jt env f format lo hi db a)))"

section \<open>The export of a campaign\<close>

definition campaign_header :: "string list" where
  "campaign_header = [''itemId'', ''campaignId'', ''userEmail'', ''userId'', ''resourceType'', ''resourceId'', ''resourceName'', ''decision'', ''decidedBy'', ''decidedAt'', ''createdAt'']"

text \<open>\<open>exportItem\<close> in the order of its fields; the address is that of the user, or empty when the user is gone.\<close>

definition export_item :: "life_user list \<Rightarrow> review_item \<Rightarrow> string list" where
  "export_item users i =
     [ri_id i, ri_campaign i, (case find (\<lambda>u. lu_id u = ri_user i) users of None \<Rightarrow> [] | Some u \<Rightarrow> lu_email u), ri_user i, ri_type i, ri_resource i, ri_name i,
      coalesce [] (ri_decision i), coalesce [] (ri_by i), (case ri_at i of None \<Rightarrow> [] | Some t \<Rightarrow> rfc3339 t), rfc3339 (ri_created i)]"

definition campaign_json :: "string list \<Rightarrow> string" where
  "campaign_json r = json_struct (zip campaign_header (map JStr r))"

definition ExportCampaign :: "review_env \<Rightarrow> rows_env \<Rightarrow> string \<Rightarrow> string \<Rightarrow> string \<Rightarrow> string \<Rightarrow> life_user list \<Rightarrow> review_db \<Rightarrow> string response" where
  "ExportCampaign env rows campaignID format limit_q offset_q users db =
     (if ValidateUserID campaignID \<noteq> None then RespondError 400 ''invalid campaign id''
      else case export_format_of ''json'' format of None \<Rightarrow> RespondError 400 ''format must be csv or json'' | Some f \<Rightarrow>
      if \<not> re_has_db env then RespondError 500 ''database not available''
      else case requireCampaignInCallerOrg True (re_gate_err env) (campaign_rows db) (re_oc env) campaignID of Some r \<Rightarrow> r | None \<Rightarrow>
      if rw_query_err rows \<noteq> None then RespondError 500 ''internal error''
      else case listPageParams limit_q offset_q maxListLimit of (limit, offset) \<Rightarrow>
      (let items = map (export_item users) (scan_rows rows (take (nat limit) (drop (nat offset) (sort_key ri_created (filter (\<lambda>i. ri_campaign i = campaignID) (rv_items db)))))) in
       if rw_err rows \<noteq> None then RespondError 500 ''internal error''
       else RespondJSON 200 (case f of Csv \<Rightarrow> csv_text (campaign_header # items)
              | Json \<Rightarrow> ''['' @ join_with '','' (map campaign_json items) @ '']'' @ [newline])))"

section \<open>Verification endpoints\<close>

definition VerifyAuditChain :: "(string \<Rightarrow> string) \<Rightarrow> jwt_claims option \<Rightarrow> bool \<Rightarrow> verify_env \<Rightarrow> audit_db \<Rightarrow> verify_result response" where
  "VerifyAuditChain jt claims has_db env db =
     (case claims of None \<Rightarrow> RespondError 403 ''forbidden: audit chain verification requires system-admin'' | Some c \<Rightarrow>
      if jc_role c \<noteq> RoleSuperAdmin then RespondError 403 ''forbidden: audit chain verification requires system-admin''
      else if \<not> has_db then RespondError 500 ''database not available''
      else case VerifyChain jt env db of
        (_, Some _) \<Rightarrow> RespondError 500 ''internal error''
      | (result, None) \<Rightarrow> RespondJSON (if vr_ok result then 200 else 422) result)"

record integrity_response =
  it_ok :: bool
  it_rows :: nat
  it_first_break :: int
  it_error :: break_reason
  it_retain :: duration
  it_retain_human :: string

definition GetAuditIntegrity :: "(string \<Rightarrow> string) \<Rightarrow> (duration \<Rightarrow> string) \<Rightarrow> duration \<Rightarrow> bool \<Rightarrow> verify_env \<Rightarrow> audit_db \<Rightarrow> integrity_response response" where
  "GetAuditIntegrity jt text retain has_db env db =
     (if \<not> has_db then RespondError 500 ''database not available''
      else case VerifyChain jt env db of
        (_, Some _) \<Rightarrow> RespondError 500 ''internal error''
      | (result, None) \<Rightarrow> RespondJSON 200 \<lparr>it_ok = vr_ok result, it_rows = vr_rows_checked result, it_first_break = vr_first_break_seq result,
          it_error = vr_error result, it_retain = retain, it_retain_human = (if retain > 0 then text retain else ''keep forever'')\<rparr>)"

section \<open>Reading a file back\<close>

text \<open>A reader of RFC 4180 with line feeds, for what a program on the other side makes of a file: cells with the flag whether they end their record,
  then records.  The fuel is the length of the text, and every cell takes at least its separator.\<close>

fun read_quoted :: "string \<Rightarrow> (string \<times> string) option" where
  "read_quoted [] = None"
| "read_quoted (c # s) =
     (if c \<noteq> quote_mark then map_option (\<lambda>(f, rest). (c # f, rest)) (read_quoted s)
      else case s of
        d # s' \<Rightarrow> if d = quote_mark then map_option (\<lambda>(f, rest). (quote_mark # f, rest)) (read_quoted s') else Some ([], s)
      | [] \<Rightarrow> Some ([], []))"

definition read_field :: "string \<Rightarrow> (string \<times> string) option" where
  "read_field s = (case s of
       c # s' \<Rightarrow> if c = quote_mark then read_quoted s' else Some (takeWhile (\<lambda>c. c \<noteq> CHR '','' \<and> c \<noteq> newline) s, dropWhile (\<lambda>c. c \<noteq> CHR '','' \<and> c \<noteq> newline) s)
     | [] \<Rightarrow> Some ([], []))"

definition read_cell :: "string \<Rightarrow> ((string \<times> bool) \<times> string) option" where
  "read_cell s = (case read_field s of Some (f, c # rest) \<Rightarrow>
       if c = CHR '','' then Some ((f, False), rest) else if c = newline then Some ((f, True), rest) else None | _ \<Rightarrow> None)"

fun read_cells :: "nat \<Rightarrow> string \<Rightarrow> (string \<times> bool) list option" where
  "read_cells n [] = Some []"
| "read_cells 0 (c # s) = None"
| "read_cells (Suc n) (c # s) = (case read_cell (c # s) of None \<Rightarrow> None | Some (x, rest) \<Rightarrow> map_option ((#) x) (read_cells n rest))"

fun records :: "string list \<Rightarrow> (string \<times> bool) list \<Rightarrow> string list list" where
  "records acc [] = []"
| "records acc ((f, end) # cs) = (if end then (acc @ [f]) # records [] cs else records (acc @ [f]) cs)"

definition read_csv :: "string \<Rightarrow> string list list option" where
  "read_csv s = map_option (records []) (read_cells (length s) s)"

text \<open>The same cells on the side of the writer.\<close>

definition csv_cell :: "string \<times> bool \<Rightarrow> string" where
  "csv_cell x = csv_quoted (fst x) @ [if snd x then newline else CHR '','']"

fun cells_of :: "string list \<Rightarrow> (string \<times> bool) list" where
  "cells_of [] = []"
| "cells_of [f] = [(f, True)]"
| "cells_of (f # g # fs) = (f, False) # cells_of (g # fs)"

lemma csv_record_cells: "fs \<noteq> [] \<Longrightarrow> csv_record fs = concat (map csv_cell (cells_of fs))"
  by (induction fs rule: cells_of.induct) (auto simp: csv_cell_def)

lemma csv_text_cells: "\<forall>r \<in> set rows. r \<noteq> [] \<Longrightarrow> csv_text rows = concat (map csv_cell (concat (map cells_of rows)))"
  by (induction rows) (auto simp: csv_text_def csv_record_cells)

lemma read_quoted_escape: "s = [] \<or> hd s \<noteq> quote_mark \<Longrightarrow> read_quoted (csv_escape f @ quote_mark # s) = Some (f, s)"
  by (induction f) (auto simp: csv_escape_def split: list.split)

lemma unquoted_plain: "\<not> fieldNeedsQuotes f \<Longrightarrow> c \<in> set f \<Longrightarrow> c \<noteq> quote_mark \<and> c \<noteq> CHR '','' \<and> c \<noteq> newline"
  by (auto simp: fieldNeedsQuotes_def list_ex_iff csv_special_def)

lemma read_cell_csv: "read_cell (csv_cell x @ s) = Some (x, s)"
proof (cases "fieldNeedsQuotes (fst x)")
  case True
  then show ?thesis
    using read_quoted_escape [of "(if snd x then newline else CHR '','') # s" "fst x"]
    by (cases x) (auto simp: read_cell_def read_field_def csv_cell_def csv_quoted_def)
next
  case False
  note plain = unquoted_plain [OF False]
  have tw: "takeWhile (\<lambda>c. c \<noteq> CHR '','' \<and> c \<noteq> newline) (fst x @ e # s) = fst x" "dropWhile (\<lambda>c. c \<noteq> CHR '','' \<and> c \<noteq> newline) (fst x @ e # s) = e # s"
    if "e \<in> {CHR '','', newline}" for e using plain that by (auto simp: takeWhile_append dropWhile_append)
  have "read_field (fst x @ e # s) = Some (fst x, e # s)" if "e \<in> {CHR '','', newline}" for e
    using tw [OF that] plain that by (cases "fst x") (auto simp: read_field_def)
  with False show ?thesis by (cases x) (auto simp: read_cell_def csv_cell_def csv_quoted_def)
qed

lemma csv_cell_nonempty: "csv_cell x \<noteq> []"
  by (simp add: csv_cell_def)

interpretation csv_framing: prefix_code csv_cell
proof
  fix x y :: "string \<times> bool" and u v
  assume "csv_cell x @ u = csv_cell y @ v"
  then have "read_cell (csv_cell x @ u) = read_cell (csv_cell y @ v)" by simp
  then show "x = y \<and> u = v" by (simp add: read_cell_csv)
qed

lemma read_cells_csv: "length (concat (map csv_cell cs)) \<le> n \<Longrightarrow> read_cells n (concat (map csv_cell cs)) = Some cs"
proof (induction cs arbitrary: n)
  case (Cons x cs)
  obtain c t where ct: "csv_cell x @ concat (map csv_cell cs) = c # t" using csv_cell_nonempty [of x] by (cases "csv_cell x") auto
  from Cons.prems csv_cell_nonempty [of x] obtain m where m: "n = Suc m" "length (concat (map csv_cell cs)) \<le> m"
    by (cases n) (auto simp: Suc_le_eq simp flip: length_greater_0_conv)
  from Cons.IH [OF m(2)] m(1) ct read_cell_csv [of x "concat (map csv_cell cs)"] show ?case by simp
qed simp

lemma records_cells: "fs \<noteq> [] \<Longrightarrow> records acc (cells_of fs @ cs) = (acc @ fs) # records [] cs"
  by (induction fs arbitrary: acc rule: cells_of.induct) auto

lemma read_csv_text: "\<forall>r \<in> set rows. r \<noteq> [] \<Longrightarrow> read_csv (csv_text rows) = Some rows"
proof -
  assume rows: "\<forall>r \<in> set rows. r \<noteq> []"
  have "records [] (concat (map cells_of rows)) = rows" using rows by (induction rows) (auto simp: records_cells)
  with rows show ?thesis by (simp add: read_csv_def csv_text_cells read_cells_csv)
qed

section \<open>Exports\<close>

lemma ExportAuditLogs_file:
  assumes "ExportAuditLogs env format q db = RespondJSON st file"
  obtains f lo hi x where "export_format_of ''csv'' format = Some f" "time_bound (lq_from q) = Some lo" "time_bound (lq_to q) = Some hi" "xp_oc env = Some x" "st = 200"
    "file = \<lparr>ef_truncated = (xp_probe_err env = None \<and> maxAuditExportRows < length (filter (log_matches (oc_org x) q lo hi) (logs db))),
       ef_body = export_body f (map (scanAuditExportRow env) (seen_rows env (export_rows (oc_org x) q lo hi db)))\<rparr>"
  using assms that by (auto simp: ExportAuditLogs_def Let_def split: if_splits option.splits)

text \<open>C29. The audit export says what the log says: read back, the CSV file of an export whose rows could all be read is the header and, newest first, one record
  for each row of the organisation of the caller that matches the filters, up to 100000; and unless the probe for more failed, the file is marked as
  truncated exactly when there were more.\<close>

theorem audit_export_exact:
  assumes "ExportAuditLogs env format q db = RespondJSON st file" and "export_format_of ''csv'' format = Some Csv"
    and "xp_cut env = None" and "\<forall>i. \<not> rw_scan_fails (xp_rows env) i"
  shows "\<exists>x lo hi. xp_oc env = Some x \<and> time_bound (lq_from q) = Some lo \<and> time_bound (lq_to q) = Some hi
    \<and> read_csv (ef_body file) = Some (log_header # map (log_record \<circ> scanAuditExportRow env)
        (take 100000 (sort_key (\<lambda>r. - al_created r) (filter (log_matches (oc_org x) q lo hi) (logs db)))))
    \<and> (xp_probe_err env = None \<longrightarrow> ef_truncated file = (100000 < length (filter (log_matches (oc_org x) q lo hi) (logs db))))"
proof -
  from ExportAuditLogs_file [OF assms(1)] obtain f lo hi x where
    f: "export_format_of ''csv'' format = Some f" and b: "time_bound (lq_from q) = Some lo" "time_bound (lq_to q) = Some hi" "xp_oc env = Some x"
    and out: "file = \<lparr>ef_truncated = (xp_probe_err env = None \<and> maxAuditExportRows < length (filter (log_matches (oc_org x) q lo hi) (logs db))),
      ef_body = export_body f (map (scanAuditExportRow env) (seen_rows env (export_rows (oc_org x) q lo hi db)))\<rparr>" by metis
  have "seen_rows env rows = rows" for rows using assms(3,4) by (simp add: seen_rows_def scan_rows_all)
  moreover have "read_csv (csv_text (log_header # map (log_record \<circ> g) es)) = Some (log_header # map (log_record \<circ> g) es)" for g :: "audit_row \<Rightarrow> log_entry" and es
    by (rule read_csv_text) (auto simp: log_header_def log_record_def)
  ultimately show ?thesis using f b assms(2) by (simp add: out export_body_def export_rows_def maxAuditExportRows_def)
qed

text \<open>An export that the database breaks off looks like a complete one: the answer is 200, it is not marked as truncated, and the rest is missing.\<close>

lemma broken_export_unmarked:
  assumes "ExportAuditLogs env format q db = RespondJSON st file" and "length (logs db) \<le> 100000" and "xp_cut env = Some 0" and "export_format_of ''csv'' format = Some Csv"
  shows "st = 200 \<and> \<not> ef_truncated file \<and> read_csv (ef_body file) = Some [log_header]"
  using assms(1)
proof (rule ExportAuditLogs_file)
  fix f lo hi x
  assume f: "export_format_of ''csv'' format = Some f" and st: "st = 200"
    and out: "file = \<lparr>ef_truncated = (xp_probe_err env = None \<and> maxAuditExportRows < length (filter (log_matches (oc_org x) q lo hi) (logs db))),
      ef_body = export_body f (map (scanAuditExportRow env) (seen_rows env (export_rows (oc_org x) q lo hi db)))\<rparr>"
  have "length (filter (log_matches (oc_org x) q lo hi) (logs db)) \<le> 100000" using assms(2) length_filter_le order_trans by blast
  then have "\<not> ef_truncated file" by (simp add: out maxAuditExportRows_def not_less)
  moreover have "ef_body file = csv_text [log_header]" using f assms(3,4) by (simp add: out export_body_def seen_rows_def scan_rows_def)
  moreover have "read_csv (csv_text [log_header]) = Some [log_header]" by (rule read_csv_text) (simp add: log_header_def)
  ultimately show ?thesis using st by simp
qed

section \<open>Who sees the chain\<close>

text \<open>Only a system administrator learns anything about the global chain from the verification endpoint: to everybody else its answer
  is the same whatever the log holds.\<close>

theorem chain_verification_private:
  assumes "\<forall>c. claims = Some c \<longrightarrow> jc_role c \<noteq> RoleSuperAdmin"
  shows "VerifyAuditChain jt claims has_db env db = VerifyAuditChain jt' claims has_db' env' db' \<and> \<not> success (VerifyAuditChain jt claims has_db env db)"
  using assms by (cases claims) (simp_all add: VerifyAuditChain_def)

text \<open>The other endpoint for the same result, open to everybody with \<open>PermReadAuditLogs\<close>, does not ask: an auditor of any organisation is shown
  the first broken link of the global chain with its hashes.\<close>

lemma integrity_shows_break:
  assumes "VerifyChain jt env db = (result, None)"
  shows "roleHasPermission RoleAuditor PermReadAuditLogs
    \<and> (\<exists>r. GetAuditIntegrity jt text retain True env db = RespondJSON 200 r \<and> it_first_break r = vr_first_break_seq result \<and> it_error r = vr_error result)"
  using assms by (simp add: GetAuditIntegrity_def roleHasPermission_def)

section \<open>An export\<close>

definition sample_export :: export_env where
  "sample_export = \<lparr>xp_has_db = True, xp_oc = Some \<lparr>oc_org = ''o1'', oc_role = ''auditor''\<rparr>, xp_probe_err = None,
     xp_rows = \<lparr>rw_query_err = None, rw_scan_fails = (\<lambda>_. False), rw_err = None\<rparr>, xp_cut = None, xp_ids = show_int, xp_unmarshal = (\<lambda>_. Some [])\<rparr>"

theorem audit_export_exact_witness:
  "\<exists>file. ExportAuditLogs sample_export [] sample_log_query (sample_log ''o1'') = RespondJSON 200 file
     \<and> map_option (map hd) (read_csv (ef_body file)) = Some [''id'', ''2'', ''1'']"
proof -
  obtain "file" where run: "ExportAuditLogs sample_export [] sample_log_query (sample_log ''o1'') = RespondJSON 200 file"
    by (simp add: ExportAuditLogs_def sample_export_def export_format_of_def sample_log_query_def time_bound_def)
  have csv: "export_format_of ''csv'' [] = Some Csv" "xp_cut sample_export = None" "\<forall>i. \<not> rw_scan_fails (xp_rows sample_export) i"
    by (simp_all add: export_format_of_def sample_export_def)
  have rows: "map al_seq (take 100000 (sort_key (\<lambda>r. - al_created r) (filter (log_matches ''o1'' sample_log_query None None) (logs (sample_log ''o1''))))) = [2, 1]"
    by (simp add: sample_simps log_matches_def sample_log_query_def)
  have hd: "map hd (map (log_record \<circ> scanAuditExportRow sample_export) rs) = map show_int (map al_seq rs)" for rs
    by (simp add: log_record_def scanAuditExportRow_def sample_export_def)
  from audit_export_exact [OF run csv]
  have "map_option (map hd) (read_csv (ef_body file)) = Some (''id'' # map show_int [2, 1])"
    using hd [of "take 100000 (sort_key (\<lambda>r. - al_created r) (filter (log_matches ''o1'' sample_log_query None None) (logs (sample_log ''o1''))))"] rows
    by (auto simp: sample_export_def sample_log_query_def time_bound_def log_header_def)
  moreover have "map show_int [2, 1] = [''2'', ''1'']" by code_simp
  ultimately show ?thesis using run by auto
qed

theorem chain_verification_private_witness:
  "VerifyAuditChain (\<lambda>b. b) None True no_verify_faults empty_audit_db = VerifyAuditChain (\<lambda>b. b) None True no_verify_faults (sample_log ''o1'')
   \<and> \<not> success (VerifyAuditChain (\<lambda>b. b) None True no_verify_faults empty_audit_db)"
  using chain_verification_private [of None "\<lambda>b. b" True no_verify_faults empty_audit_db "\<lambda>b. b" True no_verify_faults "sample_log ''o1''"] by auto

end
