(* ===== verification/Migrations.thy ===== *)
theory Migrations
  imports Leader
begin

text \<open>
  The runner of the schema migrations, \<open>internal/db/schema.go\<close>: the ordered list with its ids and names, \<open>RunMigrations\<close>, the version of the schema and
  the wait of a starting server for it.

  What the SQL of a migration does is not modelled; the state records which statements were committed and in which order, beside the table
  \<open>schema_migrations\<close>.  Runs exclude each other by an advisory lock, so a history is a sequence of runs; every call of each can fail.
\<close>

section \<open>The list\<close>

record migration =
  mg_id :: int
  mg_name :: string

definition migrations :: "migration list" where
  "migrations = map (\<lambda>(i, n). \<lparr>mg_id = i, mg_name = n\<rparr>)
    [(1, ''initial_schema''), (2, ''user_disabled_flag''), (3, ''device_text_ids_and_enrollment_tokens''),
     (4, ''scim_resource_versions''), (5, ''app_access_policies''), (15, ''api_tokens''),
     (16, ''review_campaigns''), (17, ''access_requests''), (20, ''analytics_snapshots''),
     (21, ''siem_cursor''), (22, ''audit_logs_seq''), (23, ''enrollment_tokens_used_by_host_id''),
     (28, ''audit_logs_hash_chain''), (29, ''approval_requests''), (30, ''approval_requests_payload''),
     (31, ''approval_requests_indexes''), (32, ''approval_requests_executing_status''), (33, ''audit_chain_anchors''),
     (34, ''device_commands''), (35, ''mfa_self_service''), (36, ''provisioning_state_and_config''),
     (37, ''federation_sources''), (38, ''device_posture_cache''), (39, ''access_policy_conditions''),
     (40, ''review_schedules_and_due_dates''), (41, ''fleet_config''), (42, ''smtp_config''),
     (43, ''multi_tenant_organizations''), (44, ''enrollment_tokens_org_id''), (45, ''enrollment_tokens_hash''),
     (46, ''fleet_team_orgs''), (47, ''mfa_recovery_codes_lookup_index''), (48, ''analytics_snapshots_units_and_org_index'')]"

definition LatestMigrationID :: int where
  "LatestMigrationID = fold (\<lambda>m mx. if mg_id m > mx then mg_id m else mx) migrations 0"

section \<open>RunMigrations\<close>

record schema_state =
  sd_table :: "(int \<times> string) list option"
  sd_ran :: "int list"

record migrate_env =
  mr_acquire :: "string option"
  mr_lock :: "string option"
  mr_create :: "string option"
  mr_query :: "string option"
  mr_scan :: "nat \<Rightarrow> string option"
  mr_rows :: "string option"
  mr_begin :: "int \<Rightarrow> string option"
  mr_statement :: "int \<Rightarrow> string option"
  mr_record :: "int \<Rightarrow> string option"
  mr_commit :: "int \<Rightarrow> string option"

definition ensure_table :: "schema_state \<Rightarrow> schema_state" where
  "ensure_table s = (case sd_table s of None \<Rightarrow> s\<lparr>sd_table := Some []\<rparr> | Some _ \<Rightarrow> s)"

definition applied_rows :: "schema_state \<Rightarrow> (int \<times> string) list" where
  "applied_rows s = (case sd_table s of None \<Rightarrow> [] | Some t \<Rightarrow> t)"

definition applied_ids :: "migrate_env \<Rightarrow> schema_state \<Rightarrow> string + int list" where
  "applied_ids env s =
     (case mr_query env of Some e \<Rightarrow> Inl (''query applied migrations: '' @ e) | None \<Rightarrow>
      case find (\<lambda>i. mr_scan env i \<noteq> None) [0..<length (applied_rows s)] of
        Some i \<Rightarrow> Inl (''scan migration id: '' @ the (mr_scan env i))
      | None \<Rightarrow> (case mr_rows env of Some e \<Rightarrow> Inl (''iterate applied migrations: '' @ e) | None \<Rightarrow> Inr (map fst (applied_rows s))))"

text \<open>One migration in its transaction: the statement and its row in the table, or neither.\<close>

definition apply_migration :: "migrate_env \<Rightarrow> migration \<Rightarrow> schema_state \<Rightarrow> string option \<times> schema_state" where
  "apply_migration env m s =
     (let i = mg_id m in
      case mr_begin env i of Some e \<Rightarrow> (Some (''begin tx for migration '' @ show_int i @ '': '' @ e), s) | None \<Rightarrow>
      case mr_statement env i of Some e \<Rightarrow> (Some (''migration '' @ show_int i @ '' ('' @ mg_name m @ '') failed: '' @ e), s) | None \<Rightarrow>
      case mr_record env i of Some e \<Rightarrow> (Some (''record migration '' @ show_int i @ '': '' @ e), s) | None \<Rightarrow>
      case mr_commit env i of Some e \<Rightarrow> (Some (''commit migration '' @ show_int i @ '': '' @ e), s)
      | None \<Rightarrow> (None, s\<lparr>sd_table := Some (applied_rows s @ [(i, mg_name m)]), sd_ran := sd_ran s @ [i]\<rparr>))"

fun apply_pending :: "migrate_env \<Rightarrow> int list \<Rightarrow> migration list \<Rightarrow> schema_state \<Rightarrow> string option \<times> schema_state" where
  "apply_pending env applied [] s = (None, s)"
| "apply_pending env applied (m # ms) s =
     (if mg_id m \<in> set applied then apply_pending env applied ms s
      else case apply_migration env m s of (Some e, s1) \<Rightarrow> (Some e, s1) | (None, s1) \<Rightarrow> apply_pending env applied ms s1)"

definition RunMigrations :: "migrate_env \<Rightarrow> schema_state \<Rightarrow> string option \<times> schema_state" where
  "RunMigrations env s =
     (case mr_acquire env of Some e \<Rightarrow> (Some (''acquire connection for migration lock: '' @ e), s) | None \<Rightarrow>
      case mr_lock env of Some e \<Rightarrow> (Some (''acquire migration advisory lock: '' @ e), s) | None \<Rightarrow>
      case mr_create env of Some e \<Rightarrow> (Some (''create schema_migrations table: '' @ e), s) | None \<Rightarrow>
      (let s1 = ensure_table s in
       case applied_ids env s1 of Inl e \<Rightarrow> (Some e, s1) | Inr applied \<Rightarrow> apply_pending env applied migrations s1))"

section \<open>Waiting for the schema\<close>

text \<open>\<open>AppliedSchemaVersion\<close>: a missing table, SQLSTATE 42P01, is version 0.\<close>

definition AppliedSchemaVersion :: "string option \<Rightarrow> schema_state \<Rightarrow> string + int" where
  "AppliedSchemaVersion err s =
     (case err of Some e \<Rightarrow> Inl (''query schema version: '' @ e)
      | None \<Rightarrow> Inr (case applied_rows s of [] \<Rightarrow> 0 | rows \<Rightarrow> Max (set (map fst rows))))"

text \<open>The database, the clock and the context at each poll.\<close>

record wait_env =
  wt_err :: "nat \<Rightarrow> string option"
  wt_state :: "nat \<Rightarrow> schema_state"
  wt_now :: "nat \<Rightarrow> time"
  wt_done :: "nat \<Rightarrow> string option"

definition behind_error :: "int \<Rightarrow> string" where
  "behind_error version = ''schema version '' @ show_int version @ '' is behind the required version '' @ show_int LatestMigrationID @ ''; run `server migrate`''"

definition timeout_error :: "string \<Rightarrow> int \<Rightarrow> string" where
  "timeout_error timeout version = ''timed out after '' @ timeout @ '' waiting for schema version '' @ show_int LatestMigrationID @ '' (currently ''
     @ show_int version @ ''); run `server migrate`''"

text \<open>The loop from poll \<open>i\<close> on; its value is \<open>None\<close> while it does not return, and otherwise the error it returns.\<close>

partial_function (option) wait_loop :: "wait_env \<Rightarrow> string \<Rightarrow> time \<Rightarrow> nat \<Rightarrow> string option option" where
  "wait_loop env timeout deadline i =
     (case AppliedSchemaVersion (wt_err env i) (wt_state env i) of
        Inl e \<Rightarrow> Some (Some e)
      | Inr version \<Rightarrow>
          if version \<ge> LatestMigrationID then Some None
          else if wt_now env i > deadline then Some (Some (timeout_error timeout version))
          else (case wt_done env i of Some e \<Rightarrow> Some (Some e) | None \<Rightarrow> wait_loop env timeout deadline (i + 1)))"

definition WaitForSchema :: "wait_env \<Rightarrow> time \<Rightarrow> duration \<Rightarrow> string \<Rightarrow> string option option" where
  "WaitForSchema env start timeout timeoutText =
     (if timeout \<le> 0 then
        (case AppliedSchemaVersion (wt_err env 0) (wt_state env 0) of
           Inl e \<Rightarrow> Some (Some e)
         | Inr version \<Rightarrow> if version < LatestMigrationID then Some (Some (behind_error version)) else Some None)
      else wait_loop env timeoutText (start + timeout) 0)"

section \<open>Each migration once and in order\<close>

definition migration_ids :: "int list" where
  "migration_ids = map mg_id migrations"

lemma migration_ids_increasing: "sorted_wrt (<) migration_ids"
  by code_simp

lemma LatestMigrationID_last: "LatestMigrationID = last migration_ids"
  by code_simp

text \<open>What is recorded is what was run, a prefix of the list.\<close>

definition schema_inv :: "schema_state \<Rightarrow> bool" where
  "schema_inv s \<longleftrightarrow> sd_ran s = map fst (applied_rows s) \<and> (\<exists>k. sd_ran s = take k migration_ids)"

lemma apply_pending_skip:
  "apply_pending env applied ms s = apply_pending env applied (filter (\<lambda>m. mg_id m \<notin> set applied) ms) s"
  by (induction ms arbitrary: s) (auto split: option.splits prod.splits)

lemma apply_pending_runs:
  assumes "apply_pending env applied ms s = (err, s')" and "\<forall>m \<in> set ms. mg_id m \<notin> set applied" and "sd_ran s = map fst (applied_rows s)"
  shows "\<exists>n. sd_ran s' = sd_ran s @ map mg_id (take n ms) \<and> sd_ran s' = map fst (applied_rows s') \<and> (err = None \<longrightarrow> n \<ge> length ms)"
  using assms
proof (induction ms arbitrary: s)
  case (Cons m ms)
  obtain e s1 where step: "apply_migration env m s = (e, s1)" by (metis surj_pair)
  then consider "e \<noteq> None" "s1 = s" | "e = None" "sd_ran s1 = sd_ran s @ [mg_id m]" "sd_ran s1 = map fst (applied_rows s1)"
    using Cons.prems(3) by (auto simp: apply_migration_def applied_rows_def Let_def split: option.splits)
  then show ?case
  proof cases
    case 1
    with step Cons.prems show ?thesis by (auto intro: exI [of _ 0])
  next
    case 2
    with step Cons.prems have run: "apply_pending env applied ms s1 = (err, s')" and rest: "\<forall>m \<in> set ms. mg_id m \<notin> set applied" by simp_all
    from Cons.IH [OF run rest 2(3)] obtain n where
      n: "sd_ran s' = sd_ran s1 @ map mg_id (take n ms)" "sd_ran s' = map fst (applied_rows s')" "err = None \<longrightarrow> length ms \<le> n" by metis
    have "sd_ran s' = sd_ran s @ map mg_id (take (Suc n) (m # ms))" "err = None \<longrightarrow> length (m # ms) \<le> Suc n" using n(1,3) 2(2) by simp_all
    with n(2) show ?thesis by metis
  qed
qed simp

lemma pending_drop:
  assumes "xs = take k migration_ids"
  shows "filter (\<lambda>m. mg_id m \<notin> set xs) migrations = drop k migrations"
proof -
  have d: "distinct migration_ids" using migration_ids_increasing by (auto simp: strict_sorted_iff)
  have "filter (\<lambda>m. mg_id m \<notin> set xs) (take k migrations) = []" unfolding assms migration_ids_def by (auto simp: filter_empty_conv take_map)
  moreover have "set (take k migration_ids) \<inter> set (drop k migration_ids) = {}" using d by (metis append_take_drop_id distinct_append)
  then have "filter (\<lambda>m. mg_id m \<notin> set xs) (drop k migrations) = drop k migrations"
    unfolding assms migration_ids_def by (auto simp: filter_id_conv drop_map)
  ultimately show ?thesis by (metis append_Nil append_take_drop_id filter_append)
qed

lemma applied_ids_all: "applied_ids env s = Inr xs \<Longrightarrow> xs = map fst (applied_rows s)"
  by (auto simp: applied_ids_def split: option.splits)

lemma RunMigrations_inv:
  assumes "schema_inv s"
  shows "schema_inv (snd (RunMigrations env s))"
    and "fst (RunMigrations env s) = None \<Longrightarrow> sd_ran (snd (RunMigrations env s)) = migration_ids"
proof -
  have rows: "applied_rows (ensure_table s) = applied_rows s" "sd_ran (ensure_table s) = sd_ran s"
    by (auto simp: applied_rows_def ensure_table_def split: option.split)
  obtain err s' where run: "RunMigrations env s = (err, s')" by (metis surj_pair)
  have both: "schema_inv s' \<and> (err = None \<longrightarrow> sd_ran s' = migration_ids)"
  proof (cases "(\<exists>e. err = Some e) \<and> (s' = s \<or> s' = ensure_table s)")
    case True
    with assms have "schema_inv s'" unfolding schema_inv_def using rows by metis
    with True show ?thesis by auto
  next
    case False
    with run obtain xs where xs: "applied_ids env (ensure_table s) = Inr xs" and go: "apply_pending env xs migrations (ensure_table s) = (err, s')"
      by (auto simp: RunMigrations_def Let_def split: option.splits sum.splits)
    from assms obtain k where k: "sd_ran s = take k migration_ids" "sd_ran s = map fst (applied_rows s)" unfolding schema_inv_def by blast
    have "xs = take k migration_ids" using applied_ids_all [OF xs] rows k by simp
    from pending_drop [OF this] go have "apply_pending env xs (drop k migrations) (ensure_table s) = (err, s')" using apply_pending_skip by metis
    moreover have "\<forall>m \<in> set (drop k migrations). mg_id m \<notin> set xs" using pending_drop [OF \<open>xs = take k migration_ids\<close>] by (auto dest!: arg_cong [where f = set])
    moreover have "sd_ran (ensure_table s) = map fst (applied_rows (ensure_table s))" using rows k by simp
    ultimately obtain n where n: "sd_ran s' = sd_ran s @ map mg_id (take n (drop k migrations))" "sd_ran s' = map fst (applied_rows s')"
      "err = None \<longrightarrow> length (drop k migrations) \<le> n" using apply_pending_runs rows by metis
    have "sd_ran s' = take (k + n) migration_ids" using n(1) k(1) by (simp add: migration_ids_def take_add take_map drop_map)
    moreover have "err = None \<longrightarrow> take (k + n) migration_ids = migration_ids" using n(3) by (auto simp: migration_ids_def)
    ultimately show ?thesis using n(2) by (auto simp: schema_inv_def)
  qed
  then show "schema_inv (snd (RunMigrations env s))" "fst (RunMigrations env s) = None \<Longrightarrow> sd_ran (snd (RunMigrations env s)) = migration_ids"
    using run by auto
qed

interpretation schema: guarded_machine "\<lambda>env s. snd (RunMigrations env s)" "\<lambda>_ _. True" schema_inv
  by unfold_locales (rule RunMigrations_inv)

definition fresh_database :: schema_state where
  "fresh_database = \<lparr>sd_table = None, sd_ran = []\<rparr>"

lemma fresh_inv: "schema_inv fresh_database"
  by (auto simp: schema_inv_def fresh_database_def applied_rows_def intro: exI [of _ 0])

lemma any_legal: "legal_run step (\<lambda>_ _. True) ops s"
  by (induction ops arbitrary: s) auto

text \<open>C28. Whatever fails in however many runs on a new database, the migrations that took effect are a beginning of the list in its order, each
  once; a run that reports success has completed the list, and the servers waiting for the schema start.\<close>

theorem migrations_once_in_order:
  assumes "s = fold (\<lambda>env s. snd (RunMigrations env s)) envs fresh_database"
  shows "(\<exists>k. sd_ran s = take k (map mg_id migrations)) \<and> distinct (sd_ran s)
    \<and> (RunMigrations env s = (None, s') \<longrightarrow> sd_ran s' = map mg_id migrations \<and> AppliedSchemaVersion None s' = Inr LatestMigrationID
        \<and> (\<forall>w start timeout text. wt_state w 0 = s' \<and> wt_err w 0 = None \<longrightarrow> WaitForSchema w start timeout text = Some None))"
proof -
  have inv: "schema_inv s" unfolding assms by (rule schema.run_inv [OF fresh_inv any_legal])
  have d: "distinct migration_ids" using migration_ids_increasing by (auto simp: strict_sorted_iff)
  have "sd_ran s' = migration_ids \<and> AppliedSchemaVersion None s' = Inr LatestMigrationID" if "RunMigrations env s = (None, s')"
  proof
    show all: "sd_ran s' = migration_ids" using RunMigrations_inv(2) [OF inv, of env] that by simp
    have rows: "map fst (applied_rows s') = migration_ids" using RunMigrations_inv(1) [OF inv, of env] that all by (simp add: schema_inv_def)
    have "Max (set migration_ids) = last migration_ids" "migration_ids \<noteq> []" by code_simp+
    with rows show "AppliedSchemaVersion None s' = Inr LatestMigrationID"
      by (cases "applied_rows s'") (simp_all add: AppliedSchemaVersion_def LatestMigrationID_last flip: rows)
  qed
  moreover have "WaitForSchema w start timeout msg = Some None" if "AppliedSchemaVersion None s' = Inr LatestMigrationID" "wt_state w 0 = s'" "wt_err w 0 = None"
    for w start timeout msg using that by (simp add: WaitForSchema_def wait_loop.simps)
  moreover from inv obtain k where "sd_ran s = take k migration_ids" unfolding schema_inv_def by blast
  then have "(\<exists>k. sd_ran s = take k migration_ids) \<and> distinct (sd_ran s)" using d by auto
  ultimately show ?thesis unfolding migration_ids_def by blast
qed

section \<open>The wait ends\<close>

text \<open>A server that waits for the schema always returns: when the clock has passed the deadline at some poll, the wait returns at that poll or before,
  and it returns without an error only if a poll saw the latest version.\<close>

theorem wait_for_schema_returns:
  assumes "0 < timeout" and "wt_now env n > start + timeout"
  shows "\<exists>r. WaitForSchema env start timeout text = Some r
    \<and> (r = None \<longrightarrow> (\<exists>i \<le> n. \<exists>v \<ge> LatestMigrationID. AppliedSchemaVersion (wt_err env i) (wt_state env i) = Inr v))"
proof -
  have "\<exists>r. wait_loop env text (start + timeout) i = Some r
      \<and> (r = None \<longrightarrow> (\<exists>j \<le> n. \<exists>v \<ge> LatestMigrationID. AppliedSchemaVersion (wt_err env j) (wt_state env j) = Inr v))" if "i \<le> n" for i
    using that
  proof (induction "n - i" arbitrary: i)
    case 0
    with assms(2) show ?case by (subst wait_loop.simps) (auto split: sum.split option.split)
  next
    case (Suc m)
    then have "i + 1 \<le> n" "m = n - (i + 1)" by auto
    from Suc.hyps(1) [OF this(2) this(1)] Suc.prems show ?case by (subst wait_loop.simps) (auto split: sum.split option.split)
  qed
  from this [of 0] assms(1) show ?thesis by (simp add: WaitForSchema_def)
qed

section \<open>An interrupted upgrade\<close>

definition migrate_ok :: migrate_env where
  "migrate_ok = \<lparr>mr_acquire = None, mr_lock = None, mr_create = None, mr_query = None, mr_scan = (\<lambda>_. None), mr_rows = None,
     mr_begin = (\<lambda>_. None), mr_statement = (\<lambda>_. None), mr_record = (\<lambda>_. None), mr_commit = (\<lambda>_. None)\<rparr>"

abbreviation interrupted :: schema_state where
  "interrupted \<equiv> fold (\<lambda>env s. snd (RunMigrations env s)) [migrate_ok\<lparr>mr_statement := (\<lambda>i. if i = 5 then Some ''disk full'' else None)\<rparr>] fresh_database"

lemma migrate_ok_succeeds: "fst (RunMigrations migrate_ok s) = None"
proof -
  have "fst (apply_pending migrate_ok applied ms s) = None" for applied ms s
    by (induction ms arbitrary: s) (simp_all add: apply_migration_def migrate_ok_def Let_def)
  moreover have "applied_ids migrate_ok t = Inr (map fst (applied_rows t))" for t
    by (auto simp: applied_ids_def migrate_ok_def find_None_iff split: option.split simp: find_Some_iff)
  moreover have "mr_acquire migrate_ok = None" "mr_lock migrate_ok = None" "mr_create migrate_ok = None" by (simp_all add: migrate_ok_def)
  ultimately show ?thesis by (simp add: RunMigrations_def Let_def)
qed

theorem migrations_once_in_order_witness:
  "sd_ran interrupted = [1, 2, 3, 4] \<and> fst (RunMigrations migrate_ok interrupted) = None \<and> sd_ran (snd (RunMigrations migrate_ok interrupted)) = map mg_id migrations"
proof -
  have ok: "fst (RunMigrations migrate_ok interrupted) = None" by (rule migrate_ok_succeeds)
  moreover have "sd_ran interrupted = [1, 2, 3, 4]"
    by (simp add: RunMigrations_def migrate_ok_def fresh_database_def ensure_table_def applied_ids_def applied_rows_def apply_migration_def migrations_def Let_def)
  moreover have "RunMigrations migrate_ok interrupted = (None, snd (RunMigrations migrate_ok interrupted))" using ok by (metis prod.collapse)
  with migrations_once_in_order [OF refl] have "sd_ran (snd (RunMigrations migrate_ok interrupted)) = map mg_id migrations" by blast
  ultimately show ?thesis by blast
qed

definition stale_replica :: wait_env where
  "stale_replica = \<lparr>wt_err = (\<lambda>_. None), wt_state = (\<lambda>_. fresh_database), wt_now = int, wt_done = (\<lambda>_. None)\<rparr>"

theorem wait_for_schema_returns_witness: "\<exists>e. WaitForSchema stale_replica 0 2 ''2s'' = Some (Some e)"
proof -
  from wait_for_schema_returns [of 2 0 stale_replica 3 "''2s''"] obtain r where r: "WaitForSchema stale_replica 0 2 ''2s'' = Some r"
    and none: "r = None \<longrightarrow> (\<exists>i \<le> 3. \<exists>v \<ge> LatestMigrationID. AppliedSchemaVersion (wt_err stale_replica i) (wt_state stale_replica i) = Inr v)"
    by (auto simp: stale_replica_def)
  have "LatestMigrationID = 48" by code_simp
  with none have "r \<noteq> None" by (auto simp: stale_replica_def AppliedSchemaVersion_def fresh_database_def applied_rows_def)
  with r show ?thesis by auto
qed

end
