(* ===== verification/Account_Policy.thy ===== *)
theory Account_Policy
  imports Org_Scope
begin

text \<open>
  The password and lockout policy of the realm, \<open>internal/handlers/account_policy.go\<close>, with the two operations of the Keycloak client it uses.
  Keycloak stores the policy of passwords as text such as \<open>length(12) and digits(1)\<close>; the handlers write that text from structured fields and read the fields
  back with a regular expression, of which \<open>\<backslash>b\<close> and the case folding are modelled for ASCII.
\<close>

section \<open>The realm\<close>

record realm_policy =
  rl_password_policy :: "string option"
  rl_brute_force :: "bool option"
  rl_failure_factor :: "int option"
  rl_wait_increment :: "int option"
  rl_max_wait :: "int option"
  rl_quick_login :: "int option"
  rl_min_quick_wait :: "int option"
  rl_max_delta :: "int option"

record policy_result =
  pr_password_policy :: string
  pr_brute_force :: bool
  pr_failure_factor :: int
  pr_wait_increment :: int
  pr_max_wait :: int
  pr_quick_login :: int
  pr_min_quick_wait :: int
  pr_max_delta :: int

record realm_env =
  rg_login :: "string option"
  rg_get :: "string option"
  rg_update :: "string option"

definition or_zero :: "int option \<Rightarrow> int" where
  "or_zero v = (case v of None \<Rightarrow> 0 | Some n \<Rightarrow> n)"

definition GetRealmPolicy :: "realm_env \<Rightarrow> string \<Rightarrow> realm_policy \<Rightarrow> string + policy_result" where
  "GetRealmPolicy env name r =
     (case rg_login env of Some e \<Rightarrow> Inl e | None \<Rightarrow>
      case rg_get env of Some e \<Rightarrow> Inl (''get realm '' @ name @ '': '' @ e)
      | None \<Rightarrow> Inr \<lparr>pr_password_policy = (case rl_password_policy r of None \<Rightarrow> [] | Some p \<Rightarrow> p), pr_brute_force = (rl_brute_force r = Some True),
          pr_failure_factor = or_zero (rl_failure_factor r), pr_wait_increment = or_zero (rl_wait_increment r), pr_max_wait = or_zero (rl_max_wait r),
          pr_quick_login = or_zero (rl_quick_login r), pr_min_quick_wait = or_zero (rl_min_quick_wait r), pr_max_delta = or_zero (rl_max_delta r)\<rparr>)"

definition UpdateRealmPolicy :: "realm_env \<Rightarrow> string \<Rightarrow> policy_result \<Rightarrow> realm_policy \<Rightarrow> string option \<times> realm_policy" where
  "UpdateRealmPolicy env name q r =
     (case rg_login env of Some e \<Rightarrow> (Some e, r) | None \<Rightarrow>
      case rg_get env of Some e \<Rightarrow> (Some (''get realm '' @ name @ '' before update: '' @ e), r) | None \<Rightarrow>
      case rg_update env of Some e \<Rightarrow> (Some (''update realm '' @ name @ '' policy: '' @ e), r)
      | None \<Rightarrow> (None, r\<lparr>rl_password_policy := Some (pr_password_policy q), rl_brute_force := Some (pr_brute_force q),
          rl_failure_factor := Some (pr_failure_factor q), rl_wait_increment := Some (pr_wait_increment q), rl_max_wait := Some (pr_max_wait q),
          rl_quick_login := Some (pr_quick_login q), rl_min_quick_wait := Some (pr_min_quick_wait q), rl_max_delta := Some (pr_max_delta q)\<rparr>))"

section \<open>The text of a policy\<close>

record policy_request =
  pq_min_length :: int
  pq_upper :: int
  pq_lower :: int
  pq_digits :: int
  pq_special :: int
  pq_history :: int
  pq_expire_days :: int
  pq_brute_force :: bool
  pq_failure_factor :: int
  pq_wait_increment :: int
  pq_max_wait :: int
  pq_quick_login :: int
  pq_min_quick_wait :: int
  pq_max_delta :: int

definition ascii_letter :: "char \<Rightarrow> bool" where
  "ascii_letter c \<longleftrightarrow> 65 \<le> byte c \<and> byte c \<le> 90 \<or> 97 \<le> byte c \<and> byte c \<le> 122"

definition policy_word_char :: "char \<Rightarrow> bool" where
  "policy_word_char c \<longleftrightarrow> ascii_letter c \<or> is_digit c \<or> c = CHR ''_''"

text \<open>The pattern without its boundary at the head of a text: the name in any case, then digits in parentheses.\<close>

definition param_here :: "string \<Rightarrow> string \<Rightarrow> string option" where
  "param_here name s =
     (if to_lower (take (length name) s) \<noteq> to_lower name then None
      else case drop (length name) s of
        c # rest \<Rightarrow>
          (let ds = takeWhile is_digit rest in
           if c = CHR ''('' \<and> ds \<noteq> [] \<and> has_prefix '')'' (drop (length ds) rest) then Some ds else None)
      | [] \<Rightarrow> None)"

text \<open>The leftmost match; \<open>inword\<close> says whether the character before is one of a word, where no word begins.\<close>

fun find_param :: "string \<Rightarrow> bool \<Rightarrow> string \<Rightarrow> string option" where
  "find_param name inword [] = None"
| "find_param name inword (c # s) =
     (case (if inword then None else param_here name (c # s)) of Some ds \<Rightarrow> Some ds | None \<Rightarrow> find_param name (policy_word_char c) s)"

text \<open>The error of \<open>Atoi\<close> is dropped: a number too large gives the largest one.\<close>

definition policyParam :: "string \<Rightarrow> string \<Rightarrow> int" where
  "policyParam policy name =
     (case find_param name False policy of None \<Rightarrow> 0
      | Some ds \<Rightarrow> (case parse_int64 ds of None \<Rightarrow> 2 ^ 63 - 1 | Some v \<Rightarrow> v))"

definition policy_part :: "string \<times> int \<Rightarrow> string" where
  "policy_part p = fst p @ ''('' @ show_int (snd p) @ '')''"

definition policy_fields :: "policy_request \<Rightarrow> (string \<times> int) list" where
  "policy_fields q = [(''length'', pq_min_length q), (''upperCase'', pq_upper q), (''lowerCase'', pq_lower q), (''digits'', pq_digits q),
     (''specialChars'', pq_special q), (''passwordHistory'', pq_history q), (''forceExpiredPasswordChange'', pq_expire_days q)]"

definition buildPolicyString :: "policy_request \<Rightarrow> string" where
  "buildPolicyString q = join_with '' and '' (map policy_part (filter (\<lambda>p. snd p > 0) (policy_fields q)))"

section \<open>The handlers\<close>

definition range_error :: "string \<Rightarrow> int \<Rightarrow> int \<Rightarrow> (string \<times> string) list" where
  "range_error field mx v = (if v < 0 \<or> v > mx then [(field, ''must be between 0 and '' @ show_int mx)] else [])"

definition validateAccountPolicy :: "policy_request \<Rightarrow> (string \<times> string) list" where
  "validateAccountPolicy q =
     range_error ''minLength'' 256 (pq_min_length q) @ range_error ''upperCase'' 64 (pq_upper q) @ range_error ''lowerCase'' 64 (pq_lower q)
     @ range_error ''digits'' 64 (pq_digits q) @ range_error ''specialChars'' 64 (pq_special q) @ range_error ''passwordHistory'' 100 (pq_history q)
     @ range_error ''passwordExpireDays'' 3650 (pq_expire_days q) @ range_error ''failureFactor'' 1000 (pq_failure_factor q)
     @ range_error ''waitIncrementSeconds'' 86400 (pq_wait_increment q) @ range_error ''maxFailureWaitSeconds'' 86400 (pq_max_wait q)
     @ range_error ''quickLoginCheckMilliSeconds'' 3600000 (pq_quick_login q) @ range_error ''minimumQuickLoginWaitSeconds'' 86400 (pq_min_quick_wait q)
     @ range_error ''maxDeltaTimeSeconds'' 2592000 (pq_max_delta q)"

text \<open>The response is the policy text beside the parsed and the plain fields.\<close>

definition realmPolicyToResponse :: "policy_result \<Rightarrow> string \<times> policy_request" where
  "realmPolicyToResponse p =
     (let param = policyParam (pr_password_policy p) in
      (pr_password_policy p,
       \<lparr>pq_min_length = param ''length'', pq_upper = param ''upperCase'', pq_lower = param ''lowerCase'', pq_digits = param ''digits'',
        pq_special = param ''specialChars'', pq_history = param ''passwordHistory'', pq_expire_days = param ''forceExpiredPasswordChange'',
        pq_brute_force = pr_brute_force p, pq_failure_factor = pr_failure_factor p, pq_wait_increment = pr_wait_increment p, pq_max_wait = pr_max_wait p,
        pq_quick_login = pr_quick_login p, pq_min_quick_wait = pr_min_quick_wait p, pq_max_delta = pr_max_delta p\<rparr>))"

record policy_env =
  pv_realm :: realm_env
  pv_realm_name :: string
  pv_has_db :: bool
  pv_actor :: string
  pv_oc :: "org_context option"
  pv_write :: write_env

record policy_state =
  ps_realm :: realm_policy
  ps_audit :: audit_db

definition GetAccountPolicy :: "policy_env \<Rightarrow> policy_state \<Rightarrow> (string \<times> policy_request) response" where
  "GetAccountPolicy env s =
     (case GetRealmPolicy (pv_realm env) (pv_realm_name env) (ps_realm s) of
        Inl _ \<Rightarrow> RespondError 500 ''failed to retrieve account policy'' | Inr p \<Rightarrow> RespondJSON 200 (realmPolicyToResponse p))"

definition policy_audit :: "(string \<Rightarrow> string) \<Rightarrow> policy_env \<Rightarrow> policy_request \<Rightarrow> audit_db \<Rightarrow> audit_db" where
  "policy_audit jt env q a =
     (if pv_has_db env
      then log_best_effort jt (pv_write env) (pv_oc env) \<lparr>ac_actor = pv_actor env, ac_action = ''update_account_policy'', ac_target_type = ''realm'', ac_target_id = ''default'',
        ac_details = Some (JObj [(''passwordPolicy'', JStr (buildPolicyString q)), (''bruteForceProtected'', JBool (pq_brute_force q)),
          (''failureFactor'', JInt (pq_failure_factor q)), (''waitIncrementSeconds'', JInt (pq_wait_increment q)),
          (''maxFailureWaitSeconds'', JInt (pq_max_wait q)), (''maxDeltaTimeSeconds'', JInt (pq_max_delta q))])\<rparr> a
      else a)"

definition UpdateAccountPolicy :: "(string \<Rightarrow> string) \<Rightarrow> policy_env \<Rightarrow> policy_request option \<Rightarrow> policy_state \<Rightarrow> string response \<times> policy_state" where
  "UpdateAccountPolicy jt env body s =
     (case body of None \<Rightarrow> (RespondError 400 ''invalid request body'', s) | Some q \<Rightarrow>
      if validateAccountPolicy q \<noteq> [] then (RespondValidationErrors (validateAccountPolicy q), s)
      else case UpdateRealmPolicy (pv_realm env) (pv_realm_name env)
          \<lparr>pr_password_policy = buildPolicyString q, pr_brute_force = pq_brute_force q, pr_failure_factor = pq_failure_factor q, pr_wait_increment = pq_wait_increment q,
           pr_max_wait = pq_max_wait q, pr_quick_login = pq_quick_login q, pr_min_quick_wait = pq_min_quick_wait q, pr_max_delta = pq_max_delta q\<rparr> (ps_realm s) of
        (Some _, r) \<Rightarrow> (RespondError 500 ''failed to update account policy'', s\<lparr>ps_realm := r\<rparr>)
      | (None, r) \<Rightarrow> (RespondJSON 200 (buildPolicyString q), \<lparr>ps_realm = r, ps_audit = policy_audit jt env q (ps_audit s)\<rparr>))"

section \<open>Reading the text back\<close>

definition letters :: "string \<Rightarrow> bool" where
  "letters s \<longleftrightarrow> s \<noteq> [] \<and> (\<forall>c \<in> set s. ascii_letter c)"

lemma letter_not [simp]: "ascii_letter c \<Longrightarrow> \<not> is_digit c" "\<not> ascii_letter (CHR ''('')" "\<not> ascii_letter (CHR '')'')" "\<not> ascii_letter (CHR '' '')"
  "\<not> policy_word_char (CHR ''('')" "\<not> policy_word_char (CHR '')'')" "\<not> policy_word_char (CHR '' '')" "ascii_letter c \<Longrightarrow> policy_word_char c" "is_digit c \<Longrightarrow> policy_word_char c"
  by (auto simp: ascii_letter_def policy_word_char_def is_digit_def byte_def)

lemma lower_letter [simp]: "ascii_letter (to_lower_char c) \<longleftrightarrow> ascii_letter c"
  by (auto simp: ascii_letter_def to_lower_char_def byte_def)

text \<open>No name starts at a character that is not a letter.\<close>

lemma param_here_nonletter: "letters name \<Longrightarrow> \<not> ascii_letter c \<Longrightarrow> param_here name (c # s) = None"
  by (cases name) (auto simp: param_here_def letters_def to_lower_def dest: arg_cong [where f = ascii_letter])

text \<open>A name matches a word followed by something else only if it is that word and an opening parenthesis follows.\<close>

lemma word_same_length:
  assumes "letters name" and "letters w" and "\<not> ascii_letter c" and "to_lower (take (length name) (w @ c # s)) = to_lower name"
  shows "length name \<le> length w"
proof (rule ccontr)
  assume "\<not> length name \<le> length w"
  then have l: "length w < length name" by simp
  then have "take (length name) (w @ c # s) ! length w = c" by (simp add: nth_append)
  moreover have "to_lower_char (take (length name) (w @ c # s) ! length w) = to_lower_char (name ! length w)"
    using assms(4) l unfolding to_lower_def by (metis length_map nth_map)
  moreover have "ascii_letter (name ! length w)" using assms(1) l by (simp add: letters_def)
  ultimately show False using assms(3) lower_letter by metis
qed

lemma param_here_word:
  assumes "letters name" and "letters w" and "\<not> ascii_letter c" and "to_lower w \<noteq> to_lower name \<or> c \<noteq> CHR ''(''"
  shows "param_here name (w @ c # s) = None"
proof (cases "to_lower (take (length name) (w @ c # s)) = to_lower name")
  case True
  have le: "length name \<le> length w" by (rule word_same_length [OF assms(1-3) True])
  show ?thesis
  proof (cases "length name = length w")
    case eq: True
    with True assms(4) show ?thesis by (auto simp: param_here_def)
  next
    case False
    then obtain d t where d: "drop (length name) w = d # t" using le by (metis drop_eq_Nil le_neq_implies_less list.exhaust not_le)
    then have "ascii_letter d" using assms(2) by (metis in_set_dropD letters_def list.set_intros(1))
    then have "d \<noteq> CHR ''(''" by auto
    with d le show ?thesis by (simp add: param_here_def Let_def)
  qed
qed (simp add: param_here_def)

lemma find_in_word: "\<forall>c \<in> set w. policy_word_char c \<Longrightarrow> find_param name True (w @ s) = find_param name True s"
  by (induction w) auto

lemma find_word:
  assumes "letters name" and "letters w" and "\<not> ascii_letter c" and "to_lower w \<noteq> to_lower name \<or> c \<noteq> CHR ''(''"
  shows "find_param name False (w @ c # s) = find_param name (policy_word_char c) s"
proof -
  from assms(2) obtain a t where w: "w = a # t" "policy_word_char a" "\<forall>c \<in> set t. policy_word_char c" by (cases w) (auto simp: letters_def)
  from param_here_word [OF assms] w show ?thesis by (simp add: find_in_word)
qed

lemma find_number:
  assumes "letters name" and "ds \<noteq> []" and "\<forall>c \<in> set ds. is_digit c"
  shows "find_param name False (ds @ CHR '')'' # s) = find_param name False s"
proof -
  from assms(2,3) obtain a t where ds: "ds = a # t" "is_digit a" "\<forall>c \<in> set t. policy_word_char c" by (cases ds) auto
  then have "\<not> ascii_letter a" by auto
  with ds param_here_nonletter [OF assms(1)] show ?thesis by (simp add: find_in_word)
qed

lemma find_separator: "letters name \<Longrightarrow> find_param name False ('' and '' @ s) = find_param name False s"
  using find_word [of name "''and''" "CHR '' ''" s] param_here_nonletter [of name "CHR '' ''"]
  by (simp add: letters_def ascii_letter_def byte_def)

lemma show_int_pos: "0 < v \<Longrightarrow> show_int v = show_nat (nat v)"
  by (simp add: show_int_def)

lemma param_here_part:
  assumes "0 < v" and "to_lower n = to_lower name"
  shows "param_here name (policy_part (n, v) @ s) = Some (show_int v)"
proof -
  have len: "length n = length name" using assms(2) by (metis length_to_lower)
  have "takeWhile is_digit (show_nat (nat v) @ CHR '')'' # s) = show_nat (nat v)"
    using show_nat_digits [of "nat v"] by (subst takeWhile_append2) (auto simp: is_digit_def byte_def)
  with assms len show ?thesis by (simp add: param_here_def policy_part_def show_int_pos Let_def has_prefix_def)
qed

definition good_part :: "string \<times> int \<Rightarrow> bool" where
  "good_part p \<longleftrightarrow> letters (fst p) \<and> 0 < snd p"

lemma find_part:
  assumes "letters name" and "good_part p"
  shows "find_param name False (policy_part p @ s) = (if to_lower (fst p) = to_lower name then Some (show_int (snd p)) else find_param name False s)"
proof (cases "to_lower (fst p) = to_lower name")
  case True
  from assms(2) obtain a t where "policy_part p @ s = a # t" by (cases "policy_part p @ s") (auto simp: policy_part_def)
  with True param_here_part [of "snd p" "fst p" name s] assms(2) show ?thesis by (simp add: good_part_def)
next
  case False
  with assms find_word [of name "fst p" "CHR ''(''" "show_int (snd p) @ CHR '')'' # s"] find_number [of name "show_int (snd p)" s]
  show ?thesis by (simp add: policy_part_def good_part_def show_int_pos show_nat_digits)
qed

lemma find_policy:
  assumes "letters name" and "\<forall>p \<in> set ps. good_part p"
  shows "find_param name False (join_with '' and '' (map policy_part ps)) = map_option (\<lambda>p. show_int (snd p)) (find (\<lambda>p. to_lower (fst p) = to_lower name) ps)"
  using assms(2)
proof (induction ps)
  case (Cons p ps)
  then have one: "find_param name False (policy_part p @ rest) = (if to_lower (fst p) = to_lower name then Some (show_int (snd p)) else find_param name False rest)" for rest
    using find_part [OF assms(1)] by simp
  show ?case
  proof (cases ps)
    case Nil
    with one [of "[]"] show ?thesis by simp
  next
    case (Cons r rs)
    with one [of "'' and '' @ join_with '' and '' (map policy_part ps)"] Cons.IH Cons.prems find_separator [OF assms(1)] show ?thesis by simp
  qed
qed simp

lemma policyParam_find:
  assumes "letters name" and "\<forall>p \<in> set ps. good_part p \<and> snd p < 2 ^ 63"
  shows "policyParam (join_with '' and '' (map policy_part ps)) name = (case find (\<lambda>p. to_lower (fst p) = to_lower name) ps of None \<Rightarrow> 0 | Some p \<Rightarrow> snd p)"
proof (cases "find (\<lambda>p. to_lower (fst p) = to_lower name) ps")
  case (Some p)
  then have "good_part p" "snd p < 2 ^ 63" using assms(2) by (auto simp: find_Some_iff)
  then have "parse_int64 (show_int (snd p)) = Some (snd p)" using parse_int64_show_nat [of "nat (snd p)"] by (simp add: good_part_def show_int_pos nat_less_iff)
  with Some find_policy [OF assms(1), of ps] assms(2) show ?thesis by (simp add: policyParam_def)
qed (use find_policy [OF assms(1), of ps] assms(2) in \<open>simp add: policyParam_def\<close>)

definition policy_valid :: "policy_request \<Rightarrow> bool" where
  "policy_valid q \<longleftrightarrow> (\<forall>p \<in> set (policy_fields q). 0 \<le> snd p \<and> snd p \<le> 3650)"

lemma validate_bounds: "validateAccountPolicy q = [] \<Longrightarrow> policy_valid q"
  by (auto simp: validateAccountPolicy_def range_error_def policy_valid_def policy_fields_def split: if_splits)

lemma policy_names: "p \<in> set (policy_fields q) \<Longrightarrow> letters (fst p)"
  by (auto simp: policy_fields_def letters_def ascii_letter_def byte_def)

lemma policy_names_lower: "inj_on to_lower (fst ` set (policy_fields q))"
proof -
  let ?names = "[''length'', ''upperCase'', ''lowerCase'', ''digits'', ''specialChars'', ''passwordHistory'', ''forceExpiredPasswordChange'']"
  have "distinct (map to_lower ?names)" by code_simp
  then have "inj_on to_lower (set ?names)" by (simp only: distinct_map)
  then show ?thesis by (simp add: policy_fields_def)
qed

lemma find_filtered:
  assumes "distinct (map fst ps)" and "\<And>p r. p \<in> set ps \<Longrightarrow> r \<in> set ps \<Longrightarrow> to_lower (fst p) = to_lower (fst r) \<Longrightarrow> fst p = fst r" and "(n, v) \<in> set ps" and "0 \<le> v"
  shows "(case find (\<lambda>p. to_lower (fst p) = to_lower n) (filter (\<lambda>p. snd p > 0) ps) of None \<Rightarrow> 0 | Some p \<Rightarrow> snd p) = (v :: int)"
proof (cases "find (\<lambda>p. to_lower (fst p) = to_lower n) (filter (\<lambda>p. snd p > 0) ps)")
  case None
  then have "\<not> 0 < v" using assms(3) by (force simp: find_None_iff)
  with None assms(4) show ?thesis by simp
next
  case (Some p)
  then have p: "p \<in> set ps" "to_lower (fst p) = to_lower n"
    by (auto simp: find_Some_iff) (metis filter_is_subset nth_mem subsetD)
  then have "fst p = n" using assms(2) [OF p(1) assms(3)] by simp
  then have "p = (n, v)" using assms(1,3) p(1) by (metis eq_key_imp_eq_value prod.collapse)
  with Some show ?thesis by simp
qed

lemma written_param:
  assumes "policy_valid q" and "(n, v) \<in> set (policy_fields q)"
  shows "policyParam (buildPolicyString q) n = v"
proof -
  let ?ps = "filter (\<lambda>p. snd p > 0) (policy_fields q)"
  have small: "snd p < 2 ^ 63" if "p \<in> set (policy_fields q)" for p
    using assms(1) that by (fastforce simp: policy_valid_def)
  have good: "\<forall>p \<in> set ?ps. good_part p \<and> snd p < 2 ^ 63" using policy_names small by (auto simp: good_part_def)
  have names: "fst p = fst r" if "p \<in> set (policy_fields q)" "r \<in> set (policy_fields q)" "to_lower (fst p) = to_lower (fst r)" for p r
    using that policy_names_lower [of q] by (auto simp: inj_on_def)
  have d: "distinct (map fst (policy_fields q))" by (simp add: policy_fields_def)
  have l: "letters n" using policy_names [OF assms(2)] by simp
  have v: "0 \<le> v" using assms by (auto simp: policy_valid_def)
  show ?thesis unfolding buildPolicyString_def policyParam_find [OF l good] by (rule find_filtered [OF d _ assms(2) v]) (rule names)
qed

text \<open>C33. What an administrator saves is what the page shows afterwards: after an accepted update of the account policy, reading it gives back the very
  same fourteen values, the seven password rules through the text that Keycloak keeps.\<close>

theorem account_policy_roundtrip:
  assumes "UpdateAccountPolicy jt env (Some q) s = (RespondJSON 200 text, s')" and "rg_login (pv_realm env') = None" and "rg_get (pv_realm env') = None"
  shows "GetAccountPolicy env' s' = RespondJSON 200 (text, q)"
proof -
  from assms(1) have v: "policy_valid q" by (auto simp: UpdateAccountPolicy_def intro: validate_bounds split: if_splits)
  have body: "text = buildPolicyString q"
    and realm: "ps_realm s' = (ps_realm s)\<lparr>rl_password_policy := Some (buildPolicyString q), rl_brute_force := Some (pq_brute_force q),
        rl_failure_factor := Some (pq_failure_factor q), rl_wait_increment := Some (pq_wait_increment q), rl_max_wait := Some (pq_max_wait q),
        rl_quick_login := Some (pq_quick_login q), rl_min_quick_wait := Some (pq_min_quick_wait q), rl_max_delta := Some (pq_max_delta q)\<rparr>"
    using assms(1) by (auto simp: UpdateAccountPolicy_def UpdateRealmPolicy_def split: if_splits option.splits)
  have "policyParam (buildPolicyString q) ''length'' = pq_min_length q" "policyParam (buildPolicyString q) ''upperCase'' = pq_upper q"
    "policyParam (buildPolicyString q) ''lowerCase'' = pq_lower q" "policyParam (buildPolicyString q) ''digits'' = pq_digits q"
    "policyParam (buildPolicyString q) ''specialChars'' = pq_special q" "policyParam (buildPolicyString q) ''passwordHistory'' = pq_history q"
    "policyParam (buildPolicyString q) ''forceExpiredPasswordChange'' = pq_expire_days q"
    by (rule written_param [OF v]; simp add: policy_fields_def)+
  then show ?thesis using assms(2,3) by (simp add: GetAccountPolicy_def GetRealmPolicy_def realm body realmPolicyToResponse_def or_zero_def Let_def)
qed

text \<open>The text is replaced as a whole: a rule without a field of its own, such as the number of hash iterations, is lost by every update.\<close>

lemma update_drops_other_rules:
  assumes "UpdateAccountPolicy jt env (Some q) s = (RespondJSON 200 text, s')" and "letters name" and "\<forall>p \<in> set (policy_fields q). to_lower (fst p) \<noteq> to_lower name"
  shows "policyParam text name = 0"
proof -
  from assms(1) have v: "policy_valid q" and t: "text = buildPolicyString q"
    by (auto simp: UpdateAccountPolicy_def UpdateRealmPolicy_def intro: validate_bounds split: if_splits option.splits)
  have good: "\<forall>p \<in> set (filter (\<lambda>p. snd p > 0) (policy_fields q)). good_part p \<and> snd p < 2 ^ 63"
    using policy_names v by (fastforce simp: good_part_def policy_valid_def)
  from assms(3) have "find (\<lambda>p. to_lower (fst p) = to_lower name) (filter (\<lambda>p. snd p > 0) (policy_fields q)) = None" by (auto simp: find_None_iff)
  with policyParam_find [OF assms(2) good] show ?thesis by (simp add: t buildPolicyString_def)
qed

section \<open>An update\<close>

definition sample_policy :: policy_request where
  "sample_policy = \<lparr>pq_min_length = 12, pq_upper = 1, pq_lower = 0, pq_digits = 2, pq_special = 0, pq_history = 5, pq_expire_days = 90, pq_brute_force = True,
     pq_failure_factor = 5, pq_wait_increment = 60, pq_max_wait = 900, pq_quick_login = 1000, pq_min_quick_wait = 60, pq_max_delta = 43200\<rparr>"

definition policy_admin :: policy_env where
  "policy_admin = \<lparr>pv_realm = \<lparr>rg_login = None, rg_get = None, rg_update = None\<rparr>, pv_realm_name = ''freecloud'', pv_has_db = False, pv_actor = ''a'', pv_oc = None,
     pv_write = no_write_faults 0\<rparr>"

definition old_policy :: policy_state where
  "old_policy = \<lparr>ps_realm = \<lparr>rl_password_policy = Some ''hashIterations(27500)'', rl_brute_force = None, rl_failure_factor = None, rl_wait_increment = None,
     rl_max_wait = None, rl_quick_login = None, rl_min_quick_wait = None, rl_max_delta = None\<rparr>, ps_audit = empty_audit_db\<rparr>"

theorem account_policy_roundtrip_witness:
  "GetAccountPolicy policy_admin (snd (UpdateAccountPolicy (\<lambda>b. b) policy_admin (Some sample_policy) old_policy))
     = RespondJSON 200 (''length(12) and upperCase(1) and digits(2) and passwordHistory(5) and forceExpiredPasswordChange(90)'', sample_policy)"
proof -
  let ?U = "UpdateAccountPolicy (\<lambda>b. b) policy_admin (Some sample_policy) old_policy"
  have "fst ?U = RespondJSON 200 ''length(12) and upperCase(1) and digits(2) and passwordHistory(5) and forceExpiredPasswordChange(90)''" by code_simp
  then have "?U = (RespondJSON 200 ''length(12) and upperCase(1) and digits(2) and passwordHistory(5) and forceExpiredPasswordChange(90)'', snd ?U)"
    by (metis prod.collapse)
  from account_policy_roundtrip [OF this] show ?thesis by (simp add: policy_admin_def)
qed

end
