(* ===== verification/First_Run.thy ===== *)
theory First_Run
  imports Lifecycle
begin

text \<open>
  The two endpoints without a session: the first-run setup of \<open>internal/handlers/setup.go\<close> and the forgotten password of \<open>password_reset.go\<close>, with the
  operations \<open>HasAdminUser\<close>, \<open>CreateAdminUser\<close> and \<open>SendPasswordResetEmail\<close> of the Keycloak client.

  Setups exclude each other by an advisory lock, so a history is a sequence of them.  The Unicode classes that the strength of a
  password asks for are a parameter, one triple (white space, letter, digit) for each rune.
\<close>

section \<open>The realm\<close>

record setup_user =
  sv_id :: string
  sv_username :: string
  sv_password :: "string option"
  sv_admin :: bool

record setup_state =
  su_users :: "setup_user list"
  su_admin_role :: bool
  su_orgs :: "(string \<times> string) list"

record has_admin_env =
  ha_login :: "string option"
  ha_list :: "string option"

definition service_account :: "setup_user \<Rightarrow> bool" where
  "service_account u \<longleftrightarrow> has_prefix ''service-account-'' (sv_username u)"

definition HasAdminUser :: "has_admin_env \<Rightarrow> setup_state \<Rightarrow> string + bool" where
  "HasAdminUser env s =
     (case ha_login env of Some e \<Rightarrow> Inl e | None \<Rightarrow>
      case ha_list env of Some e \<Rightarrow> Inl (''list users: '' @ e)
      | None \<Rightarrow> Inr (list_ex (\<lambda>u. \<not> service_account u) (take 100 (su_users s))))"

text \<open>The answers of Keycloak to the calls of \<open>CreateAdminUser\<close>; the role is looked up once, and again after it was created.\<close>

datatype role_answer = Role_found | Role_missing | Role_error string

record create_admin_env =
  ka_login :: "string option"
  ka_create :: "string option"
  ka_new_id :: string
  ka_password :: "string option"
  ka_get_role :: "string option"
  ka_create_role :: "string option"
  ka_get_again :: "string option"
  ka_assign :: "string option"

definition lookup_admin_role :: "create_admin_env \<Rightarrow> setup_state \<Rightarrow> role_answer" where
  "lookup_admin_role env s = (case ka_get_role env of Some e \<Rightarrow> Role_error e | None \<Rightarrow> if su_admin_role s then Role_found else Role_missing)"

definition ensure_admin_role :: "create_admin_env \<Rightarrow> setup_state \<Rightarrow> string option \<times> setup_state" where
  "ensure_admin_role env s =
     (case lookup_admin_role env s of
        Role_found \<Rightarrow> (None, s)
      | Role_error e \<Rightarrow> (Some (''get admin realm role: '' @ e), s)
      | Role_missing \<Rightarrow>
          (case ka_create_role env of Some e \<Rightarrow> (Some (''create admin realm role: '' @ e), s) | None \<Rightarrow>
           (case ka_get_again env of Some e \<Rightarrow> (Some (''get admin realm role after create: '' @ e), s\<lparr>su_admin_role := True\<rparr>)
            | None \<Rightarrow> (None, s\<lparr>su_admin_role := True\<rparr>))))"

definition update_user :: "string \<Rightarrow> (setup_user \<Rightarrow> setup_user) \<Rightarrow> setup_state \<Rightarrow> setup_state" where
  "update_user i f s = s\<lparr>su_users := map (\<lambda>u. if sv_id u = i then f u else u) (su_users s)\<rparr>"

definition CreateAdminUser :: "create_admin_env \<Rightarrow> string \<Rightarrow> string \<Rightarrow> setup_state \<Rightarrow> (string + string) \<times> setup_state" where
  "CreateAdminUser env email password s =
     (case ka_login env of Some e \<Rightarrow> (Inl e, s) | None \<Rightarrow>
      if ka_create env \<noteq> None then (Inl (''create admin user: '' @ the (ka_create env)), s)
      else if list_ex (\<lambda>u. sv_username u = email) (su_users s) then (Inl (''create admin user: 409 Conflict''), s)
      else let i = ka_new_id env;
               s1 = s\<lparr>su_users := su_users s @ [\<lparr>sv_id = i, sv_username = email, sv_password = None, sv_admin = False\<rparr>]\<rparr> in
      case ka_password env of Some e \<Rightarrow> (Inl (''set admin password: '' @ e), s1) | None \<Rightarrow>
      (let s2 = update_user i (\<lambda>u. u\<lparr>sv_password := Some password\<rparr>) s1 in
       case ensure_admin_role env s2 of (Some e, s3) \<Rightarrow> (Inl e, s3) | (None, s3) \<Rightarrow>
       (case ka_assign env of Some e \<Rightarrow> (Inl (''assign admin role to user '' @ i @ '': '' @ e), s3)
        | None \<Rightarrow> (Inr i, update_user i (\<lambda>u. u\<lparr>sv_admin := True\<rparr>) s3))))"

section \<open>Setup\<close>

record setup_body =
  sb_email :: string
  sb_password :: string
  sb_org :: string

record setup_env =
  sn_lock :: "string option"
  sn_has :: has_admin_env
  sn_create :: create_admin_env
  sn_has_db :: bool
  sn_org_err :: "string option"

definition minAdminPasswordLength :: nat where
  "minAdminPasswordLength = 12"

definition isStrongEnough :: "(string \<Rightarrow> (bool \<times> bool \<times> bool) list) \<Rightarrow> string \<Rightarrow> bool" where
  "isStrongEnough classes s \<longleftrightarrow> length s \<ge> minAdminPasswordLength \<and> list_ex (\<lambda>(space, _, _). \<not> space) (classes s)
     \<and> list_ex (\<lambda>(_, letter, _). letter) (classes s) \<and> list_ex (\<lambda>(_, _, digit). digit) (classes s)"

definition setup_errors :: "(string \<Rightarrow> (bool \<times> bool \<times> bool) list) \<Rightarrow> setup_body \<Rightarrow> (string \<times> string) list" where
  "setup_errors classes b =
     (if \<not> isValidEmail (sb_email b) then [(''adminEmail'', ''invalid email address'')] else [])
     @ (if \<not> isStrongEnough classes (sb_password b) then [(''adminPassword'', ''password must be at least '' @ show_nat minAdminPasswordLength @ '' characters'')] else [])
     @ (if trim_space (sb_org b) = [] then [(''orgName'', ''organization name is required'')] else [])"

definition SetupStatus :: "has_admin_env \<Rightarrow> setup_state \<Rightarrow> bool response" where
  "SetupStatus env s = (case HasAdminUser env s of Inl _ \<Rightarrow> RespondError 500 ''internal error'' | Inr b \<Rightarrow> RespondJSON 200 b)"

definition name_organization :: "setup_env \<Rightarrow> string \<Rightarrow> setup_state \<Rightarrow> setup_state" where
  "name_organization env name s =
     (if sn_has_db env \<and> sn_org_err env = None then s\<lparr>su_orgs := map (\<lambda>(i, n). (i, if i = DefaultOrgID then name else n)) (su_orgs s)\<rparr> else s)"

definition Setup :: "(string \<Rightarrow> (bool \<times> bool \<times> bool) list) \<Rightarrow> setup_env \<Rightarrow> setup_body option \<Rightarrow> setup_state \<Rightarrow> string response \<times> setup_state" where
  "Setup classes env body s =
     (case body of None \<Rightarrow> (RespondError 400 ''invalid JSON'', s) | Some b \<Rightarrow>
      if setup_errors classes b \<noteq> [] then (RespondValidationErrors (setup_errors classes b), s)
      else if sn_lock env \<noteq> None then (RespondError 500 ''internal error'', s)
      else case HasAdminUser (sn_has env) s of Inl _ \<Rightarrow> (RespondError 500 ''internal error'', s) | Inr provisioned \<Rightarrow>
      if provisioned then (RespondError 409 ''already provisioned'', s)
      else case CreateAdminUser (sn_create env) (sb_email b) (sb_password b) s of
        (Inl _, s1) \<Rightarrow> (RespondError 500 ''failed to create admin user'', s1)
      | (Inr _, s1) \<Rightarrow> (RespondJSON 201 ''provisioned'', name_organization env (sb_org b) s1))"

section \<open>Forgotten passwords\<close>

record forgot_env =
  fg_has_db :: bool
  fg_lookup_err :: "string option"
  fg_login :: "string option"
  fg_mail :: "string option"

definition SendPasswordResetEmail :: "forgot_env \<Rightarrow> string \<Rightarrow> string option \<times> string list" where
  "SendPasswordResetEmail env userID =
     (case fg_login env of Some e \<Rightarrow> (Some e, []) | None \<Rightarrow>
      case fg_mail env of Some e \<Rightarrow> (Some (''execute-actions-email for user '' @ userID @ '': '' @ e), []) | None \<Rightarrow> (None, [userID]))"

definition reset_message :: string where
  "reset_message = ''If an account with that email exists, a reset link has been sent.''"

text \<open>The second component are the users Keycloak has mailed.\<close>

definition ForgotPassword :: "forgot_env \<Rightarrow> string option \<Rightarrow> life_user list \<Rightarrow> string response \<times> string list" where
  "ForgotPassword env body users =
     (case body of None \<Rightarrow> (RespondJSON 200 reset_message, []) | Some raw \<Rightarrow>
      (let email = to_lower (trim_space raw) in
       if email = [] \<or> \<not> isValidEmail email then (RespondJSON 200 reset_message, [])
       else let kcUserID = (if fg_has_db env then (case select_one (fg_lookup_err env) (\<lambda>u. lu_email u = email) users of Ok u \<Rightarrow> lu_id u | _ \<Rightarrow> []) else []) in
       if kcUserID \<noteq> [] then (RespondJSON 200 reset_message, snd (SendPasswordResetEmail env kcUserID))
       else (RespondJSON 200 reset_message, [])))"

section \<open>Setup happens once\<close>

text \<open>The realm has a user that is not a service account, and few enough service accounts for the page of a hundred users to show it.\<close>

definition set_up :: "setup_state \<Rightarrow> bool" where
  "set_up s \<longleftrightarrow> (\<exists>u \<in> set (su_users s). \<not> service_account u) \<and> length (filter service_account (su_users s)) < 100"

lemma set_up_seen: "set_up s \<Longrightarrow> list_ex (\<lambda>u. \<not> service_account u) (take 100 (su_users s))"
proof (rule ccontr)
  assume up: "set_up s" and none: "\<not> list_ex (\<lambda>u. \<not> service_account u) (take 100 (su_users s))"
  then have all: "filter service_account (take 100 (su_users s)) = take 100 (su_users s)" by (auto simp: filter_id_conv list_ex_iff)
  have "length (take 100 (su_users s)) \<le> length (filter service_account (su_users s))"
    by (metis all append_take_drop_id filter_append le_add1 length_append)
  with up have "length (su_users s) < 100" by (auto simp: set_up_def)
  with none up show False by (auto simp: list_ex_iff set_up_def)
qed

lemma set_up_stays: "set_up s \<Longrightarrow> snd (Setup classes env body s) = s \<and> (\<forall>m. fst (Setup classes env body s) \<noteq> RespondJSON 201 m)"
  using set_up_seen [of s] by (auto simp: Setup_def HasAdminUser_def split: option.split sum.split)

abbreviation setup_step :: "(string \<Rightarrow> (bool \<times> bool \<times> bool) list) \<times> setup_env \<times> setup_body option \<Rightarrow> setup_state \<Rightarrow> setup_state" where
  "setup_step \<equiv> \<lambda>(classes, env, body) s. snd (Setup classes env body s)"

text \<open>Once set up, setups are steps of a machine that only stays where it is.\<close>

interpretation first_run: guarded_machine setup_step "\<lambda>_ _. True" "\<lambda>s. set_up s \<and> s = s0" for s0
  by unfold_locales (use set_up_stays in auto)

lemma update_user_names: "map sv_username (su_users (update_user i f s)) = map sv_username (su_users s)"
  if "\<And>u. sv_username (f u) = sv_username u"
  using that by (auto simp: update_user_def)

lemma ensure_admin_role_users [simp]: "ensure_admin_role env s = (r, s') \<Longrightarrow> su_users s' = su_users s"
  by (auto simp: ensure_admin_role_def split: role_answer.splits option.splits)

text \<open>Whatever goes wrong after Keycloak has created the user, the user stays.\<close>

lemma CreateAdminUser_names:
  assumes "CreateAdminUser env email password s = (r, s')"
  shows "map sv_username (su_users s') = map sv_username (su_users s) @ [email] \<or> (\<exists>e. r = Inl e) \<and> s' = s"
  using assms
  by (auto simp: CreateAdminUser_def Let_def update_user_def split: option.splits if_splits prod.splits dest!: ensure_admin_role_users)

lemma CreateAdminUser_admin:
  assumes "CreateAdminUser env email password s = (Inr i, s')"
  shows "\<exists>u \<in> set (su_users s'). sv_username u = email \<and> sv_admin u \<and> sv_password u = Some password"
  using assms
  by (auto simp: CreateAdminUser_def Let_def update_user_def image_Un split: option.splits if_splits prod.splits dest!: ensure_admin_role_users)

lemma created_set_up:
  assumes "map sv_username (su_users s') = map sv_username (su_users s) @ [email]" and "\<not> has_prefix ''service-account-'' email"
    and "length (filter service_account (su_users s)) < 100"
  shows "set_up s'"
proof -
  have split: "service_account = (has_prefix ''service-account-'') \<circ> sv_username" by (auto simp: service_account_def)
  have count: "length (filter service_account us) = length (filter (has_prefix ''service-account-'') (map sv_username us))" for us
    by (simp add: split filter_map)
  have "email \<in> set (map sv_username (su_users s'))" using assms(1) by simp
  then obtain u where "u \<in> set (su_users s')" "sv_username u = email" by auto
  with assms(2) have "\<exists>u \<in> set (su_users s'). \<not> service_account u" by (auto simp: service_account_def)
  moreover have "length (filter service_account (su_users s')) < 100" using assms by (simp add: count)
  ultimately show ?thesis by (simp add: set_up_def)
qed

text \<open>C16. The unauthenticated setup creates one administrator and no second: after a setup was answered with 201, whatever setups follow, with
  whatever answers of Keycloak, none is, and none changes the realm again; as long as the realm has fewer than a hundred service accounts and the
  address of the administrator does not look like one.\<close>

theorem setup_once:
  assumes "Setup classes env (Some b) s = (RespondJSON 201 m, s1)" and "\<not> has_prefix ''service-account-'' (sb_email b)"
    and "length (filter service_account (su_users s)) < 100"
    and "legal_run setup_step (\<lambda>_ _. True) ops s1"
  shows "fold setup_step ops s1 = s1 \<and> snd (Setup classes' env' body' s1) = s1 \<and> (\<forall>m. fst (Setup classes' env' body' s1) \<noteq> RespondJSON 201 m)
    \<and> (\<exists>u \<in> set (su_users s1). sv_username u = sb_email b \<and> sv_admin u \<and> sv_password u = Some (sb_password b))"
proof -
  from assms(1) obtain i s' where made: "CreateAdminUser (sn_create env) (sb_email b) (sb_password b) s = (Inr i, s')" and s1: "s1 = name_organization env (sb_org b) s'"
    by (auto simp: Setup_def split: if_splits sum.splits prod.splits)
  have users: "su_users s1 = su_users s'" by (simp add: s1 name_organization_def)
  from CreateAdminUser_names [OF made] users have "map sv_username (su_users s1) = map sv_username (su_users s) @ [sb_email b]" by simp
  then have up: "set_up s1" by (rule created_set_up [OF _ assms(2,3)])
  with first_run.run_inv [of s1 s1 ops] assms(4) have "fold setup_step ops s1 = s1" by simp
  moreover have "\<exists>u \<in> set (su_users s1). sv_username u = sb_email b \<and> sv_admin u \<and> sv_password u = Some (sb_password b)"
    unfolding users using CreateAdminUser_admin [OF made] .
  ultimately show ?thesis using set_up_stays [OF up] by simp
qed

text \<open>A setup that fails after the user was created leaves a realm that counts as set up but has no administrator, and no later setup can make one.\<close>

lemma failed_setup_locks_out:
  assumes "setup_errors classes b = []" and "sn_lock env = None" and "ha_login (sn_has env) = None" and "ha_list (sn_has env) = None"
    and "su_users s = []" and "ka_login (sn_create env) = None" and "ka_create (sn_create env) = None" and "ka_password (sn_create env) = Some e"
    and "\<not> has_prefix ''service-account-'' (sb_email b)" and "Setup classes env (Some b) s = (resp, s1)"
  shows "resp = RespondError 500 ''failed to create admin user'' \<and> (\<forall>u \<in> set (su_users s1). \<not> sv_admin u \<and> sv_password u = None)
    \<and> snd (Setup classes' env' body' s1) = s1 \<and> (\<forall>m. fst (Setup classes' env' body' s1) \<noteq> RespondJSON 201 m)"
proof -
  have out: "resp = RespondError 500 ''failed to create admin user''" and users: "su_users s1 = [\<lparr>sv_id = ka_new_id (sn_create env), sv_username = sb_email b, sv_password = None, sv_admin = False\<rparr>]"
    using assms by (auto simp: Setup_def HasAdminUser_def CreateAdminUser_def Let_def)
  have "set_up s1" using assms(9) by (simp add: set_up_def users service_account_def)
  from set_up_stays [OF this] out users show ?thesis by simp
qed

text \<open>An administrator whose address begins like the name of a service account does not count, and the setup stays open.\<close>

lemma setup_stays_open:
  assumes "\<forall>u \<in> set (su_users s). service_account u" and "ha_login env = None" and "ha_list env = None"
  shows "SetupStatus env s = RespondJSON 200 False"
proof -
  have "\<not> list_ex (\<lambda>u. \<not> service_account u) (take 100 (su_users s))" using assms(1) by (auto simp: list_ex_iff dest: in_set_takeD)
  then show ?thesis using assms(2,3) by (simp add: SetupStatus_def HasAdminUser_def)
qed

section \<open>No enumeration\<close>

text \<open>The endpoint for forgotten passwords tells nothing about accounts: its answer is the same for every request and every table of users, and mail goes to nobody
  but the user with the address that was sent.\<close>

theorem forgot_password_silent:
  shows "fst (ForgotPassword env body users) = fst (ForgotPassword env' body' users')
    \<and> (\<forall>i \<in> set (snd (ForgotPassword env body users)). \<exists>raw. body = Some raw \<and> (\<exists>u \<in> set users. lu_id u = i \<and> lu_email u = to_lower (trim_space raw)))"
proof -
  have "fst (ForgotPassword env body users) = RespondJSON 200 reset_message" for env body users
    by (auto simp: ForgotPassword_def Let_def split: option.split)
  moreover have "\<exists>raw. body = Some raw \<and> (\<exists>u \<in> set users. lu_id u = i \<and> lu_email u = to_lower (trim_space raw))"
    if "i \<in> set (snd (ForgotPassword env body users))" for i
    using that by (auto simp: ForgotPassword_def SendPasswordResetEmail_def Let_def split: option.splits if_splits query.splits dest!: select_one_Ok_D)
  ultimately show ?thesis by metis
qed

section \<open>A new realm\<close>

definition new_realm :: setup_state where
  "new_realm = \<lparr>su_users = [\<lparr>sv_id = ''s'', sv_username = ''service-account-freecloud-service'', sv_password = None, sv_admin = False\<rparr>],
     su_admin_role = False, su_orgs = [(DefaultOrgID, ''Default'')]\<rparr>"

definition keycloak_answers :: setup_env where
  "keycloak_answers = \<lparr>sn_lock = None, sn_has = \<lparr>ha_login = None, ha_list = None\<rparr>,
     sn_create = \<lparr>ka_login = None, ka_create = None, ka_new_id = ''u1'', ka_password = None, ka_get_role = None, ka_create_role = None, ka_get_again = None, ka_assign = None\<rparr>,
     sn_has_db = True, sn_org_err = None\<rparr>"

definition first_admin :: setup_body where
  "first_admin = \<lparr>sb_email = ''admin@example.com'', sb_password = ''correct-horse-1'', sb_org = ''Example''\<rparr>"

definition ascii_classes :: "string \<Rightarrow> (bool \<times> bool \<times> bool) list" where
  "ascii_classes s = map (\<lambda>c. (c = CHR '' '', 97 \<le> byte c \<and> byte c \<le> 122, is_digit c)) s"

theorem setup_once_witness:
  "let s1 = snd (Setup ascii_classes keycloak_answers (Some first_admin) new_realm) in
     \<forall>m. fst (Setup ascii_classes keycloak_answers (Some first_admin) s1) \<noteq> RespondJSON 201 m"
proof -
  have "fst (Setup ascii_classes keycloak_answers (Some first_admin) new_realm) = RespondJSON 201 ''provisioned''" by code_simp
  then have run: "Setup ascii_classes keycloak_answers (Some first_admin) new_realm
      = (RespondJSON 201 ''provisioned'', snd (Setup ascii_classes keycloak_answers (Some first_admin) new_realm))" by (metis prod.collapse)
  have "\<not> has_prefix ''service-account-'' (sb_email first_admin)" "length (filter service_account (su_users new_realm)) < 100" by code_simp+
  from setup_once [OF run this, of "[]"] show ?thesis by (simp add: Let_def)
qed

theorem forgot_password_silent_witness:
  "let u = \<lparr>lu_id = ''u7'', lu_email = ''bob@example.com'', lu_first = [], lu_last = [], lu_department = [], lu_role = [], lu_org = ''o1'', lu_disabled = False\<rparr>;
       env = \<lparr>fg_has_db = True, fg_lookup_err = None, fg_login = None, fg_mail = None\<rparr> in
   fst (ForgotPassword env (Some ''Bob@example.com'') [u]) = fst (ForgotPassword env (Some ''eve@example.com'') [u])
   \<and> snd (ForgotPassword env (Some ''Bob@example.com'') [u]) = [''u7'']"
proof -
  let ?u = "\<lparr>lu_id = ''u7'', lu_email = ''bob@example.com'', lu_first = [], lu_last = [], lu_department = [], lu_role = [], lu_org = ''o1'', lu_disabled = False\<rparr> :: life_user"
  let ?env = "\<lparr>fg_has_db = True, fg_lookup_err = None, fg_login = None, fg_mail = None\<rparr> :: forgot_env"
  have "snd (ForgotPassword ?env (Some ''Bob@example.com'') [?u]) = [''u7'']" by code_simp
  with forgot_password_silent [of ?env "Some ''Bob@example.com''" "[?u]" ?env "Some ''eve@example.com''" "[?u]"] show ?thesis unfolding Let_def by blast
qed

end
