(* ===== verification/Spec2Isabelle.thy ===== *)
theory Spec2Isabelle
  imports Audit_Chain Validators Scim_Filter Access_Eval Auth Org_Scope Client_Key Rate_Limit Provisioning Leader
    Reconcile Lifecycle Approvals Access_Review API_Tokens Scim_Users Scim_Groups User_Admin Orgs Apps Provisioning_Admin Routes
    Fleet_Teams Portal Config Reports Migrations Account_Policy First_Run
begin

text \<open>
  \<^bold>\<open>The backend of FreeCloud.\<close>  FreeCloud is a self-hosted identity and device platform: a Go server (\<open>src/backend\<close>) in front of Keycloak (accounts, tokens,
  groups, clients), Fleet (devices and their posture) and a Postgres database (organisations, users, policies, requests, the audit log).  The server authenticates
  a request, finds the organisation it acts for, checks the permission of the route and the owner of the resource, performs its steps at Keycloak, at
  Fleet and in the database, undoes what it can when a later step fails, and writes the audit log.  Background workers, one leader each among the replicas,
  reconcile, prune, stream to a SIEM and open access reviews.  This library models these parts one theory per component and proves what makes
  them correct.

  \<^bold>\<open>Conventions.\<close>  A handler is a function from its environment and the state to a response and the new state, with the guards and early returns of the code in their
  order.  The environment is a record of what the code does not decide: the answers of the database, of Keycloak, Fleet and other servers to each call
  (\<^const>\<open>None\<close>, or the text of the error), the clock, random bytes and the decoded body of the request; so every error path of the source is a
  branch.  A theorem without a hypothesis on the environment holds for every failure.  Tables are lists of records in insertion order; a query is a
  \<open>filter\<close>, a unique row a \<open>select_one\<close>, an \<open>UPDATE\<close> an \<open>update_where\<close> (\<open>Go_Prelude\<close>).  A transaction that fails leaves its tables as they were.  A response is
  \<open>RespondJSON\<close> or \<open>RespondError\<close> with its status.  Log lines and metrics are left out.  Times are nanoseconds as \<open>int\<close>; bytes that are combined bitwise (hashes,
  addresses, keys) are words.  What lies outside \<open>src/\<close> is a parameter: the JWT library, the JSON decoder, the geo database, the connectors of
  provisioning, the remote servers.  What the sources use of Go's standard library (SHA-256, HMAC, AES-GCM, base64, \<open>net/netip\<close>, \<open>encoding/csv\<close>, \<open>time\<close>) is defined and computes.

  \<^bold>\<open>Shared theories.\<close>
  \<^item> \<open>Go_Prelude\<close>: Go strings, JSON, queries, responses, and three interfaces as locales: \<open>guarded_machine\<close> (an invariant kept by every legal operation holds after every legal
    run), \<open>step_machine\<close> (the same for a step relation) and \<open>simulation\<close> (a concrete machine refines an abstract one along an abstraction function, every operation under the event
    it stands for).
  \<^item> \<open>Go_Crypto\<close> (SHA-256, HMAC, hex, base64), \<open>Go_Aead\<close> (AES-256 in GCM and its round trip), \<open>Go_Time\<close>, \<open>Go_Regexp\<close> (the patterns of the validators and an
    executable matcher by derivatives that decides the inductive language), \<open>Net_Addr\<close> (\<open>net/netip\<close>: addresses, prefixes).

  \<^bold>\<open>Who may do what.\<close>
  \<^item> \<open>Auth\<close> (\<open>middleware/auth.go\<close>): roles, the permission matrix, the JWKS cache, the cache of disabled users, JWTs and API tokens.  The JWT library is a
    parameter that gets the options and the key function of the middleware; what it documents (algorithm and signature by the key function, expiry and issue time up to the leeway) is the
    named hypothesis \<open>jwt_library\<close>.
  \<^item> \<open>Org_Scope\<close> (\<open>middleware/org.go\<close>, \<open>orgscope\<close>, \<open>handlers/org_scope.go\<close>): the organisation of a request and the gate for a resource; the locale \<open>org_gate\<close> states what
    a gate promises and is interpreted for the single and for the batched gate (\<open>Devices\<close>).
  \<^item> \<open>Routes\<close> (\<open>handlers/routes.go\<close>, and the metrics endpoint of \<open>cmd/server/main.go\<close>): every endpoint with the middlewares in front of it; which routes are open, and who may change anything.
  \<^item> \<open>Client_Key\<close>, \<open>Rate_Limit\<close> (\<open>middleware/clientip.go\<close>, \<open>ratelimit*.go\<close>): the bucket of a client behind trusted proxies and the sliding window with its bound, over the
    interleavings of the two critical sections of a request with other requests and sweeps.
  \<^item> \<open>API_Tokens\<close>, \<open>Mfa\<close>, \<open>First_Run\<close>, \<open>Account_Policy\<close>, \<open>Config\<close>: service tokens (refining an abstract store), factors and one-time recovery codes (locale \<open>one_time_codes\<close>), the setup of
    the first administrator and forgotten passwords, the password policy of the realm, the configuration and its secrets.

  \<^bold>\<open>Access decisions and devices.\<close>
  \<^item> \<open>Device_Identity\<close> (\<open>device_identity.go\<close>, \<open>enrollment.go\<close>): the signed device cookie and one-time enrollment tokens.
  \<^item> \<open>Policy_Time\<close>, \<open>Access_Eval\<close> (\<open>access_eval.go\<close>, \<open>access_policy*.go\<close>): time windows, network and country lists, and the decision that denies on every path but one.
  \<^item> \<open>Fleet_Client\<close>, \<open>Devices\<close>, \<open>Fleet_Teams\<close> (\<open>fleet/client.go\<close>, \<open>device_*.go\<close>, \<open>fleet_config.go\<close>): the requests to Fleet and what their answers mean, remote commands confined to the
    organisation, dashboards, teams and the moves of hosts.

  \<^bold>\<open>People and applications.\<close>
  \<^item> \<open>Lifecycle\<close> (\<open>onboarding.go\<close>, \<open>bulk_onboarding.go\<close>, \<open>offboarding.go\<close>), \<open>Approvals\<close>, \<open>Access_Review\<close>: onboarding all or nothing, the panic button, requests executed once and by a second
    person under every interleaving, campaigns and schedules that never fire twice.
  \<^item> \<open>Keycloak_Client\<close>, \<open>User_Admin\<close>, \<open>Orgs\<close>, \<open>Apps\<close>, \<open>Portal\<close>: the client of Keycloak, profiles and groups, memberships, connected applications and self service.
  \<^item> \<open>Scim_Filter\<close>, \<open>Scim_Users\<close>, \<open>Scim_Groups\<close> (\<open>scim*.go\<close>): the filter language with its round trip, and the SCIM endpoints with the optimistic lock, as a step relation of
    concurrent patches.
  \<^item> \<open>Provisioning\<close>, \<open>Outbound\<close>, \<open>Provisioning_Admin\<close>: the engine with retries and backoff, the guard of operator-supplied addresses, sealed credentials.

  \<^bold>\<open>The audit log and the workers.\<close>
  \<^item> \<open>Audit_Chain\<close> (\<open>audit\<close>): the hash chain; every run of writes verifies, an edit that still verifies exhibits a collision of SHA-256, pruning.  The framing of the hashed
    fields is an instance of the locale \<open>prefix_code\<close>, as is the quoting of CSV in \<open>Reports\<close> (\<open>audit_export.go\<close>, \<open>audit_reports.go\<close>, \<open>review_export.go\<close>).
  \<^item> \<open>Siem\<close>, \<open>Leader\<close>, \<open>Reconcile\<close>, \<open>Migrations\<close> (\<open>siem\<close>, \<open>leader\<close>, \<open>reconcile\<close>, \<open>db/schema.go\<close>): delivery behind a durable cursor, at most one leader and failover, drift, and
    migrations once and in order.

  \<^bold>\<open>This theory\<close> joins offboarding, access evaluation and authentication: an offboarded user is locked out of all of them.

  \<^bold>\<open>Loops, bounds and fuel.\<close>  Loops over data are structural recursion or total functions with a measure (the tokenizer and the
  recursive-descent parser of SCIM filters, the blocks of the hashes, the eviction of the rate limiter, the IPv6 parser).  The wait for the schema may poll for ever and is a \<^theory_text>\<open>partial_function\<close>; that it returns once the clock
  passed the deadline is a theorem.  The reader of CSV in \<open>Reports\<close>, which exists only to state a round trip, takes the length of the text as fuel, and the
  round trip shows that this is enough.  Bounds are those of the code: batches of 100 and 1000 rows, exports of 100000, bodies of Fleet cut at the limit of the client.
  Go's 64-bit integers are written out where a value from outside can reach their bounds
  (\<open>parse_int64\<close>, the exponent of a key); counters of rows and times stay far below them and are \<open>nat\<close> or \<open>int\<close>.

  \<^bold>\<open>Concurrency.\<close>  Approvals, concurrent SCIM patches and leader election are step relations whose steps are single database operations, the rate limiter
  interleaves the critical sections of its requests, and their theorems quantify over all interleavings.  Schedules are run by many replicas, whose clocks may lag behind the database by a bounded skew.
  The other handlers are one step each: they take their locks or run in one transaction, or, where they do neither, their theorems are about a single execution.

  \<^bold>\<open>Not modelled.\<close>  The start of the server and the bootstrap of Keycloak (wiring and idempotent calls), notifications and mail, analytics snapshots (aggregates over
  64-bit floats), federation and identity providers (forwarded configuration), the static application catalog and SCIM discovery documents, the HTTP side of the provisioning connectors, metrics,
  the GeoIP library, the SQL text of the migrations, test helpers, and the frontend.
\<close>

section \<open>Where the components meet: a user is offboarded\<close>

text \<open>The tables the access evaluation and the authentication read, as the offboarding left them: the user table and the devices of the users, with
  the policies and applications beside them; and the row the authentication reads about a subject.\<close>

definition access_view :: "life_db \<Rightarrow> access_db \<Rightarrow> access_db" where
  "access_view db other = other\<lparr>db_users := map (\<lambda>u. (lu_id u, lu_disabled u)) (l_users db), db_mapping := l_mapping db\<rparr>"

definition status_row :: "string option \<Rightarrow> life_db \<Rightarrow> string \<Rightarrow> bool query" where
  "status_row err db sub =
     (case select_one err (\<lambda>u. lu_id u = sub) (l_users db) of
        Ok u \<Rightarrow> Ok (lu_disabled u) | No_rows \<Rightarrow> No_rows | Db_error e \<Rightarrow> Db_error e)"

text \<open>An offboarding that is answered with 200 and could mark the user leaves a disabled row, and only disabled rows, of the user.\<close>

lemma offboarded_rows:
  assumes "Offboard jt env i (kc, db) = (resp, eff, kc', db')" and "status_of resp = 200" and "of_local_err env = None"
  shows "kc_disabled i kc'" and "\<exists>u \<in> set (l_users db'). lu_id u = i" and "\<forall>u \<in> set (l_users db'). lu_id u = i \<longrightarrow> lu_disabled u"
  using assms(1)
proof (atomize (full), cases rule: Offboard_cases)
  case (steps oc u)
  from offboard_steps_outcome [OF steps(6)] assms(2,3) steps(5)
  have "kc_disabled i kc'" "l_users db' = update_where (\<lambda>u. lu_id u = i) (\<lambda>u. u\<lparr>lu_disabled := True\<rparr>) (l_users db)"
    by (auto simp: disable_local_def)
  then show "kc_disabled i kc' \<and> (\<exists>u \<in> set (l_users db'). lu_id u = i) \<and> (\<forall>u \<in> set (l_users db'). lu_id u = i \<longrightarrow> lu_disabled u)"
    using steps(2,3) by (auto simp: update_where_def image_iff intro!: bexI [of _ "u\<lparr>lu_disabled := True\<rparr>"])
qed (use assms(2) in auto)

lemma status_row_disabled:
  assumes "\<forall>u \<in> set (l_users db). lu_id u = i \<longrightarrow> lu_disabled u" and "\<exists>u \<in> set (l_users db). lu_id u = i"
  shows "status_row err db i = Ok True \<or> (\<exists>e. status_row err db i = Db_error e)"
proof (cases err)
  case None
  from assms(2) have "filter (\<lambda>u. lu_id u = i) (l_users db) \<noteq> []" by (auto simp: filter_empty_conv)
  then obtain u us where f: "filter (\<lambda>u. lu_id u = i) (l_users db) = u # us" by (auto simp: neq_Nil_conv)
  then have "u \<in> set (l_users db) \<and> lu_id u = i" by (metis (mono_tags, lifting) list.set_intros(1) mem_Collect_eq set_filter Int_iff inter_set_filter)
  then show ?thesis using assms(1) None f by (simp add: status_row_def select_one_def)
qed (simp add: status_row_def select_one_def)

text \<open>C3. An offboarded user is locked out of everything: once an offboarding was answered with 200 and the row could be marked, the account is
  disabled at Keycloak; the access evaluation denies the user every application, whatever the devices, policies and addresses; and from ten seconds
  later on no token of the user, however long still valid, gets past the authentication of the API, whatever requests filled its cache before.\<close>

theorem offboarded_locked_out:
  assumes "Offboard jt env i (kc, db) = (resp, eff, kc', db')" and "status_of resp = 200" and "of_local_err env = None"
    and "\<forall>t \<ge> t_off. status t i" and "t_off + disabledStatusCacheTTL \<le> now"
    and "legal_run check_step (check_legal status) ops (t0, empty_cache)" and "fold check_step ops (t0, empty_cache) = (t1, as_cache s)" and "t1 \<le> now"
  shows "kc_disabled i kc'
    \<and> (\<forall>rq. ax_request ax = Inr rq \<and> trim_space (rq_user rq) = i \<longrightarrow> \<not> dn_allow (fst (EvaluateAccess fleet geo ax (access_view db' other))))
    \<and> (\<forall>jc oc s'. AuthMiddleware jwt_parse cfg ans True (status_row err db') now rq' s = (Pass (Some jc) oc, s') \<longrightarrow> jc_sub jc \<noteq> i)"
proof (intro conjI allI impI)
  note rows = offboarded_rows [OF assms(1-3)]
  show "kc_disabled i kc'" by (rule rows)
  show "\<not> dn_allow (fst (EvaluateAccess fleet geo ax (access_view db' other)))" if "ax_request ax = Inr rq \<and> trim_space (rq_user rq) = i" for rq
    using that rows(3) by (auto simp: allow_iff user_enabled_iff access_view_def)
  show "jc_sub jc \<noteq> i" if pass: "AuthMiddleware jwt_parse cfg ans True (status_row err db') now rq' s = (Pass (Some jc) oc, s')" for jc oc s'
  proof
    assume sub: "jc_sub jc = i"
    obtain c where c: "isUserDisabled True (status_row err db' i) now i (as_cache s) = (Inr False, c)"
      using AuthMiddleware_pass_status [OF pass] sub by (metis prod.collapse)
    have "status now i" using assms(4,5) by (simp add: disabledStatusCacheTTL_def second_def)
    then have "truthful status now i (status_row err db' i)" using status_row_disabled [OF rows(3,2), of err] by (auto simp: truthful_def)
    from recent_answer(1) [OF _ assms(8) this c] status_run [OF assms(6)] assms(7) obtain t where "now - disabledStatusCacheTTL \<le> t" "\<not> status t i" by auto
    then show False using assms(4,5) by auto
  qed
qed

theorem offboarded_locked_out_witness:
  "\<exists>resp eff kc' db'. Offboard (\<lambda>b. b) sample_offboard sample_uuid (\<lparr>kc_users = [(sample_uuid, True)], kc_members = []\<rparr>, sample_life) = (resp, eff, kc', db')
     \<and> status_of resp = 200 \<and> kc_disabled sample_uuid kc'
     \<and> fst (AuthMiddleware (sample_parser (sample_claims\<lparr>tc_sub := Some sample_uuid\<rparr>)) \<lparr>au_audience = ''freecloud'', au_issuer = ''iss''\<rparr> (Keys []) True
         (status_row None db') 5 sample_auth_request sample_auth) \<noteq> Pass (Some (claims_of (sample_claims\<lparr>tc_sub := Some sample_uuid\<rparr>))) None"
proof -
  let ?s = "(\<lparr>kc_users = [(sample_uuid, True)], kc_members = []\<rparr>, sample_life)"
  let ?c = "sample_claims\<lparr>tc_sub := Some sample_uuid\<rparr>"
  obtain resp eff kc' db' where run: "Offboard (\<lambda>b. b) sample_offboard sample_uuid ?s = (resp, eff, kc', db')"
    by (metis prod.collapse)
  have "ValidateUserID sample_uuid = None" unfolding sample_uuid_def by code_simp
  moreover have "requireUserInCallerOrg True None (org_rows_of sample_life) (Some \<lparr>oc_org = ''o1'', oc_role = ''admin''\<rparr>) sample_uuid = (None :: offboard_response response option)"
    by (simp add: requireUserInCallerOrg_def RequireResourceInCallerOrg_def CheckResourceInOrg_def allowedOrgTables_def
        select_one_def org_rows_of_def sample_life_def empty_life_def onboarded_user_def)
  ultimately have "offboard_steps (\<lambda>b. b) sample_offboard sample_uuid ?s = (resp, eff, kc', db')"
    using run by (simp add: Offboard_def sample_offboard_def)
  then have ok: "status_of resp = 200"
    by (auto simp: offboard_steps_def offboard_disable_def DisableUser_def sample_offboard_def sample_kc_env_def Let_def split: prod.splits if_splits)
  have legal: "legal_run check_step (check_legal (\<lambda>_ _. True)) [] (0, empty_cache)"
    and cache: "fold check_step [] (0, empty_cache) = (0, as_cache sample_auth)" by (simp_all add: sample_auth_def)
  have marked: "of_local_err sample_offboard = None" by (simp add: sample_offboard_def)
  note locked = offboarded_locked_out [OF run ok marked _ _ legal cache, where t_off = "5 - disabledStatusCacheTTL" and now = 5 and err = None]
  have sub: "jc_sub (claims_of ?c) = sample_uuid" by (simp add: claims_of_def or_empty_def Let_def split: option.splits)
  have "kc_disabled sample_uuid kc'" using locked by simp
  moreover have "fst (AuthMiddleware (sample_parser ?c) cfg ans True (status_row None db') 5 rq sample_auth) \<noteq> Pass (Some (claims_of ?c)) None" for cfg ans rq
    using locked [where jwt_parse = "sample_parser ?c" and cfg = cfg and ans = ans and rq' = rq] sub
    by (cases "AuthMiddleware (sample_parser ?c) cfg ans True (status_row None db') 5 rq sample_auth") auto
  ultimately show ?thesis using run ok by blast
qed

end
